(* ===== verification/Prelude.thy ===== *)
theory Prelude
  imports Main
begin

text \<open>
  Vocabulary shared by the components.

  A Go validator returns \<open>error\<close>, with \<open>nil\<close> for success, and leaves at the first failed
  check. It is modelled as a value of type \<open>'e option\<close>: \<open>None\<close> is \<open>nil\<close>, \<open>Some e\<close> the error
  returned. \<open>first_error\<close> runs a list of checks in order and stops at the first error, as the
  sequence of \<open>if ... { return err }\<close> statements does; \<open>reject_if\<close> is one such statement.
  A Go function that returns \<open>(T, error)\<close> has type \<open>'e + 't\<close>, with \<open>Inl\<close> for the error.
  \<open>each_error\<close> is a loop over a slice whose body only checks; \<open>loop_err\<close> is a loop whose body
  also updates variables declared before it, and may return early.

  The collection \<open>accepts\<close> holds the lemmas that say when a validator accepts.
\<close>

named_theorems accepts "when a validator returns nil"

section \<open>Sequences of checks\<close>

definition reject_if :: "bool \<Rightarrow> 'e \<Rightarrow> 'e option" where
  "reject_if b e = (if b then Some e else None)"

fun first_error :: "'e option list \<Rightarrow> 'e option" where
  "first_error [] = None"
| "first_error (c # cs) = (case c of None \<Rightarrow> first_error cs | Some e \<Rightarrow> Some e)"

fun each_error :: "(nat \<Rightarrow> 'a \<Rightarrow> 'e option) \<Rightarrow> nat \<Rightarrow> 'a list \<Rightarrow> 'e option" where
  "each_error f i [] = None"
| "each_error f i (x # xs) =
     (case f i x of None \<Rightarrow> each_error f (Suc i) xs | Some e \<Rightarrow> Some e)"

fun loop_err :: "(nat \<Rightarrow> 'a \<Rightarrow> 's \<Rightarrow> 'e + 's) \<Rightarrow> nat \<Rightarrow> 'a list \<Rightarrow> 's \<Rightarrow> 'e + 's" where
  "loop_err f i [] s = Inr s"
| "loop_err f i (x # xs) s =
     (case f i x s of Inl e \<Rightarrow> Inl e | Inr s' \<Rightarrow> loop_err f (Suc i) xs s')"

definition and_then :: "'e + 'a \<Rightarrow> ('a \<Rightarrow> 'e + 'b) \<Rightarrow> 'e + 'b" where
  "and_then r f = (case r of Inl e \<Rightarrow> Inl e | Inr x \<Rightarrow> f x)"

definition checked :: "'e option \<Rightarrow> 'e + 'a \<Rightarrow> 'e + 'a" where
  "checked c r = (case c of None \<Rightarrow> r | Some e \<Rightarrow> Inl e)"

definition err_of :: "'e + 'a \<Rightarrow> 'e option" where
  "err_of r = (case r of Inl e \<Rightarrow> Some e | Inr _ \<Rightarrow> None)"

lemma reject_if_None [simp, accepts]: "reject_if b e = None \<longleftrightarrow> \<not> b"
  by (simp add: reject_if_def)

lemma reject_if_Some [simp]: "reject_if b e = Some x \<longleftrightarrow> b \<and> x = e"
  by (auto simp: reject_if_def)

lemma reject_if_simps [simp]: "reject_if True e = Some e" "reject_if False e = None"
  by (simp_all add: reject_if_def)

lemma first_error_Cons_None [simp, accepts]:
  "first_error (c # cs) = None \<longleftrightarrow> c = None \<and> first_error cs = None"
  by (simp split: option.splits)

lemma first_error_Cons_Some [simp]:
  "first_error (c # cs) = Some e \<longleftrightarrow> c = Some e \<or> c = None \<and> first_error cs = Some e"
  by (auto split: option.splits)

lemma first_error_Cons [simp]:
  "first_error (None # cs) = first_error cs" "first_error (Some e # cs) = Some e"
  by simp_all

declare first_error.simps(2) [simp del]

lemma first_error_None_iff: "first_error cs = None \<longleftrightarrow> (\<forall>c \<in> set cs. c = None)"
  by (induction cs) auto

lemma first_error_append:
  "first_error (cs @ ds) = (case first_error cs of None \<Rightarrow> first_error ds | Some e \<Rightarrow> Some e)"
  by (induction cs) (auto simp: first_error.simps(2) split: option.splits)

lemma first_error_skip: "first_error cs = None \<Longrightarrow> first_error (cs @ ds) = first_error ds"
  by (simp add: first_error_append)

lemma first_error_in: "first_error cs = Some e \<Longrightarrow> Some e \<in> set cs"
  by (induction cs) auto

lemma each_error_None_iff:
  "each_error f i xs = None \<longleftrightarrow> (\<forall>k < length xs. f (i + k) (xs ! k) = None)"
proof (induction xs arbitrary: i)
  case Nil
  show ?case by simp
next
  case (Cons x xs)
  have "(\<forall>k < length (x # xs). f (i + k) ((x # xs) ! k) = None) \<longleftrightarrow>
        f i x = None \<and> (\<forall>k < length xs. f (Suc i + k) (xs ! k) = None)"
    by (auto simp: less_Suc_eq_0_disj)
  then show ?case by (auto simp: Cons.IH split: option.splits)
qed

lemma each_error_None_all [simp, accepts]:
  "each_error (\<lambda>_. f) i xs = None \<longleftrightarrow> (\<forall>x \<in> set xs. f x = None)"
  by (induction xs arbitrary: i) (auto split: option.splits)

declare each_error.simps(2) [simp del]

lemma each_error_None_mem: "each_error f i xs = None \<Longrightarrow> x \<in> set xs \<Longrightarrow> \<exists>k. f k x = None"
  by (auto simp: each_error_None_iff in_set_conv_nth)

lemma and_then_simps [simp]:
  "and_then (Inl e) f = Inl e" "and_then (Inr x) f = f x"
  by (simp_all add: and_then_def)

lemma and_then_Inr_iff: "and_then r f = Inr y \<longleftrightarrow> (\<exists>x. r = Inr x \<and> f x = Inr y)"
  by (cases r) simp_all

lemma checked_simps [simp]:
  "checked None r = r" "checked (Some e) r = Inl e"
  by (simp_all add: checked_def)

lemma checked_Inr_iff [simp, accepts]: "checked c r = Inr y \<longleftrightarrow> c = None \<and> r = Inr y"
  by (cases c) simp_all

lemma err_of_simps [simp]: "err_of (Inl e) = Some e" "err_of (Inr x) = None"
  by (simp_all add: err_of_def)

lemma err_of_None_iff: "err_of r = None \<longleftrightarrow> (\<exists>x. r = Inr x)"
  by (cases r) simp_all

section \<open>Loops with early return\<close>

text \<open>
  The rule for such a loop: a relation between the number of elements seen and the loop
  variables that every completed iteration keeps holds when the loop completes.
\<close>

lemma loop_err_invariant_at:
  assumes "loop_err f i xs s = Inr t"
    and "P [] s"
    and "\<And>x ys u v. P ys u \<Longrightarrow> f (i + length ys) x u = Inr v \<Longrightarrow> x \<in> set xs \<Longrightarrow> P (ys @ [x]) v"
  shows "P xs t"
proof -
  have "loop_err f (i + length ys) zs u = Inr t \<Longrightarrow> P ys u \<Longrightarrow> set zs \<subseteq> set xs \<Longrightarrow> P (ys @ zs) t"
    for zs ys u
  proof (induction zs arbitrary: ys u)
    case Nil
    then show ?case by simp
  next
    case (Cons x zs)
    then obtain v where v: "f (i + length ys) x u = Inr v"
      "loop_err f (i + length (ys @ [x])) zs v = Inr t"
      by (auto split: sum.splits)
    have "P (ys @ [x]) v" using assms(3) Cons.prems v(1) by auto
    with Cons.IH [OF v(2)] Cons.prems(3) show ?case by fastforce
  qed
  from this [of "[]" xs s] assms(1,2) show ?thesis by simp
qed

lemma loop_err_invariant:
  assumes "loop_err f i xs s = Inr t"
    and "P [] s"
    and "\<And>k x ys u v. P ys u \<Longrightarrow> f k x u = Inr v \<Longrightarrow> x \<in> set xs \<Longrightarrow> P (ys @ [x]) v"
  shows "P xs t"
  using assms(1,2) by (rule loop_err_invariant_at) (rule assms(3))

lemma loop_err_all:
  assumes "loop_err f i xs s = Inr t" and "x \<in> set xs"
  shows "\<exists>k u v. f k x u = Inr v"
  using assms
  by (induction xs arbitrary: i s) (auto split: sum.splits)

lemma loop_err_append:
  "loop_err f i (xs @ ys) s =
     and_then (loop_err f i xs s) (loop_err f (i + length xs) ys)"
  by (induction xs arbitrary: i s) (auto split: sum.splits)

section \<open>Transition systems\<close>

text \<open>
  A component that several goroutines use at once is a relation between its states, one step per
  critical section. \<open>reachable\<close> are the states after any number of steps from an initial one;
  the locale states the rule by which a component's invariant holds in all of them.
\<close>

inductive reachable :: "('s \<Rightarrow> bool) \<Rightarrow> ('s \<Rightarrow> 'l \<Rightarrow> 's \<Rightarrow> bool) \<Rightarrow> 's \<Rightarrow> bool"
  for init step where
  start: "init s \<Longrightarrow> reachable init step s"
| extend: "reachable init step s \<Longrightarrow> step s l t \<Longrightarrow> reachable init step t"

inductive trace :: "('s \<Rightarrow> 'l \<Rightarrow> 's \<Rightarrow> bool) \<Rightarrow> 's \<Rightarrow> 'l list \<Rightarrow> 's \<Rightarrow> bool"
  for step where
  none: "trace step s [] s"
| more: "step s l t \<Longrightarrow> trace step t ls u \<Longrightarrow> trace step s (l # ls) u"

inductive_simps trace_Nil [simp]: "trace step s [] t"
inductive_simps trace_Cons: "trace step s (l # ls) t"

lemma reachable_trace: "trace step s ls t \<Longrightarrow> reachable init step s \<Longrightarrow> reachable init step t"
  by (induction rule: trace.induct) (auto intro: reachable.extend)

locale inductive_invariant =
  fixes init :: "'s \<Rightarrow> bool"
    and step :: "'s \<Rightarrow> 'l \<Rightarrow> 's \<Rightarrow> bool"
    and inv :: "'s \<Rightarrow> bool"
  assumes init_inv: "init s \<Longrightarrow> inv s"
    and step_inv: "inv s \<Longrightarrow> step s l t \<Longrightarrow> inv t"
begin

lemma holds: "reachable init step s \<Longrightarrow> inv s"
  by (induction rule: reachable.induct) (auto intro: init_inv step_inv)

lemma trace_inv: "trace step s ls t \<Longrightarrow> inv s \<Longrightarrow> inv t"
  by (induction rule: trace.induct) (auto intro: step_inv)

end

section \<open>Counting in a list\<close>

lemma length_filter_update:
  "i < length xs \<Longrightarrow>
   length (filter P (xs[i := y])) + (if P (xs ! i) then 1 else 0) =
   length (filter P xs) + (if P y then 1 else 0)"
proof (induction xs arbitrary: i)
  case (Cons x xs)
  then show ?case by (cases i) auto
qed simp

end
