(* ===== verification/Model_Types.thy ===== *)
theory Model_Types
  imports Prelude Complex_Main "HOL-Library.Word"
begin

text \<open>
  The wire types of internal/model/types.go: one record per struct, in the order in which they
  are declared as far as they do not use one another, with the fields' names after a prefix for the
  struct. A Go \<open>int\<close> or \<open>int64\<close> field is an \<open>int\<close>, a \<open>uint64\<close> a \<open>64 word\<close>, a pointer
  an \<open>option\<close>, a slice a \<open>list\<close>, \<open>map[string]PipelineResource\<close> the list of its entries
  in the order a \<open>range\<close> loop visits them, and a score (a finite \<open>float64\<close>) a \<open>rat\<close>.
  \<open>zero_T\<close> is Go's zero value of the struct \<open>T\<close>.
\<close>

record Source =
  src_Name :: string
  src_DataB64 :: string
  src_DataURL :: string

record Artifact =
  art_Name :: string
  art_DataB64 :: string
  art_Mode :: string

record CompileRequest =
  cr_Lang :: string
  cr_Version :: string
  cr_Sources :: "Source list"
  cr_Target :: string
  cr_EntryPoint :: string
  cr_ProblemID :: string
  cr_RuntimeProfile :: string
  cr_GoModuleMode :: string
  cr_RustCrateMode :: string
  cr_EmitLogs :: "bool option"

record CompileResponse =
  cp_Status :: string
  cp_Artifacts :: "Artifact list"
  cp_Stdout :: string
  cp_Stderr :: string
  cp_StdoutTruncated :: bool
  cp_StderrTruncated :: bool
  cp_Reason :: string
  cp_ReasonTruncated :: bool
  cp_ReasonCode :: string

record Binary =
  bin_Name :: string
  bin_DataB64 :: string
  bin_DataURL :: string
  bin_Mode :: string
  bin_SHA256 :: string

record Limits =
  lim_TimeMs :: int
  lim_WallTimeMs :: int
  lim_MemoryMB :: int
  lim_OutputBytes :: int
  lim_WorkspaceBytes :: int

record CaptureLimits =
  cl_StdoutBytes :: "int option"
  cl_StderrBytes :: "int option"

record OutputFile =
  outf_Path :: string

record SPJSpec =
  spj_Binary :: "Binary option"
  spj_Lang :: string
  spj_EmitScore :: bool
  spj_Limits :: "Limits option"
  spj_SidecarOutputs :: "OutputFile list"

record InteractorSpec =
  ia_Lang :: string
  ia_Binaries :: "Binary list"
  ia_EntryPoint :: string
  ia_Limits :: "Limits option"

record CommunicationSpec =
  cm_Version :: int
  cm_ParticipantProgramID :: string
  cm_ParticipantProgramIDs :: "string list"
  cm_ManagerProgramID :: string
  cm_ParticipantCount :: int
  cm_ResultProtocol :: string
  cm_Input :: string
  cm_InputURL :: string
  cm_InputSHA256 :: string
  cm_RuntimeFingerprint :: string
  cm_Answer :: string
  cm_AnswerURL :: string
  cm_MatchSeed :: string

record RunProgram =
  prog_ID :: string
  prog_Lang :: string
  prog_Binaries :: "Binary list"
  prog_EntryPoint :: string
  prog_EnableNetwork :: bool
  prog_SourceSHA256 :: string

record MatchArtifact =
  ma_Name :: string
  ma_SHA256 :: string

record MatchParticipant =
  mp_Seat :: int
  mp_ProgramID :: string
  mp_SourceSHA256 :: string
  mp_EntryPoint :: string
  mp_Artifacts :: "MatchArtifact list"
  mp_Status :: string
  mp_Reason :: string
  mp_VerdictSource :: string
  mp_CPUTimeMs :: int
  mp_MemoryKB :: int

record MatchResult =
  mr_Version :: int
  mr_Outcome :: string
  mr_Games :: int
  mr_Wins :: "(int \<times> int) option"
  mr_Retriable :: bool
  mr_Participants :: "MatchParticipant list"
  mr_Message :: string
  mr_MatchSeed :: string
  mr_InputSHA256 :: string
  mr_RuntimeFingerprint :: string
  mr_RunnerSHA256 :: string
  mr_ImageDigest :: string
  mr_ErrorCode :: string

record StepHandoff =
  ho_ID :: string
  ho_From :: string
  ho_Path :: string
  ho_MaxBytes :: int

record StdinPart =
  sp_Type :: string
  sp_Data :: string
  sp_DataURL :: string
  sp_ID :: string
  sp_From :: string

record RunStep =
  st_ID :: string
  st_ProgramID :: string
  st_Stdin :: string
  st_StdinURL :: string
  st_StdinFrom :: string
  st_StdinParts :: "StdinPart list"
  st_Limits :: Limits
  st_Handoff :: "StepHandoff option"

record PipelineResource =
  prs_DataB64 :: string
  prs_DataURL :: string

record PipelineRef =
  ref_Type :: string
  ref_ID :: string
  ref_StepID :: string

record PipelineExecutor =
  ex_Kind :: string
  ex_ProgramID :: string
  ex_ParticipantProgramID :: string
  ex_InteractorProgramID :: string
  ex_InteractorLimits :: "Limits option"
  ex_InteractorAnswer :: "PipelineRef option"

record PipelineOutputSource =
  os_Kind :: string
  os_Path :: string

record PipelineOutput =
  po_ID :: string
  po_Source :: PipelineOutputSource
  po_MaxBytes :: int

record PipelineStep =
  ps_ID :: string
  ps_Executor :: PipelineExecutor
  ps_Stdin :: "PipelineRef list"
  ps_Outputs :: "PipelineOutput list"
  ps_Limits :: Limits

record PipelineFinalJudge =
  fj_Kind :: string
  fj_Input :: PipelineRef
  fj_Expected :: PipelineRef
  fj_Actual :: PipelineRef
  fj_SPJ :: "SPJSpec option"

record PipelineV1 =
  pl_Version :: int
  pl_Resources :: "(string \<times> PipelineResource) list"
  pl_Programs :: "RunProgram list"
  pl_Steps :: "PipelineStep list"
  pl_FinalJudge :: PipelineFinalJudge

record StepResult =
  sr_ID :: string
  sr_ProgramID :: string
  sr_Status :: string
  sr_TimeMs :: int
  sr_WallTimeMs :: int
  sr_CPUTimeMs :: int
  sr_RawCPUTimeMs :: "int option"
  sr_ProcessCPUTimeMs :: int
  sr_MemoryKB :: int
  sr_ExitCode :: "int option"
  sr_Stdout :: string
  sr_Stderr :: string
  sr_StdoutTruncated :: bool
  sr_StderrTruncated :: bool
  sr_Reason :: string
  sr_ReasonTruncated :: bool
  sr_VerdictSource :: string
  sr_HandoffBytes :: int

record CPUTimeNormalization =
  ctn_Method :: string
  ctn_ScalePPM :: int
  ctn_ReferenceTimeNs :: "64 word"
  ctn_ObservedTimeNs :: "64 word"

record CPUAccounting =
  ca_ProcessClockBaselineNs :: "64 word"
  ca_RusageBaselineNs :: "64 word"
  ca_ProcessClockPeakNs :: "64 word"
  ca_WaitUserNs :: "64 word"
  ca_WaitSystemNs :: "64 word"
  ca_WaitTargetNs :: "64 word"
  ca_SelectedSource :: string

record CPUTimeSample =
  cs_Status :: string
  cs_CPUTimeMs :: int
  cs_CPUTimeNs :: "64 word"
  cs_RawCPUTimeMs :: "int option"
  cs_RawCPUTimeNs :: "(64 word) option"
  cs_WallTimeMs :: int
  cs_MemoryKB :: int
  cs_CPUAccounting :: "CPUAccounting option"

record CPUTimeSampling =
  cts_Method :: string
  cts_SelectedSample :: int
  cts_Samples :: "CPUTimeSample list"

record SidecarOutput =
  so_Path :: string
  so_DataB64 :: string

record SidecarError =
  se_Path :: string
  se_Reason :: string

record RunRequest =
  rq_Lang :: string
  rq_EntryMode :: string
  rq_Binaries :: "Binary list"
  rq_Programs :: "RunProgram list"
  rq_Steps :: "RunStep list"
  rq_Stdin :: string
  rq_StdinURL :: string
  rq_ExpectedStdout :: string
  rq_ExpectedStdoutURL :: string
  rq_Limits :: Limits
  rq_CaptureLimits :: "CaptureLimits option"
  rq_ProblemID :: string
  rq_RuntimeProfile :: string
  rq_PythonLibraryMode :: string
  rq_EnableNetwork :: bool
  rq_EntryPoint :: string
  rq_SPJ :: "SPJSpec option"
  rq_Interactor :: "InteractorSpec option"
  rq_Communication :: "CommunicationSpec option"
  rq_FileOutputs :: "OutputFile list"
  rq_SidecarOutputs :: "OutputFile list"
  rq_EmitLogs :: "bool option"
  rq_IgnoreTLE :: bool
  rq_Pipeline :: "PipelineV1 option"

record RunResponse =
  rs_Status :: string
  rs_TimeMs :: int
  rs_WallTimeMs :: int
  rs_CPUTimeMs :: int
  rs_CPUTimeNs :: "64 word"
  rs_RawCPUTimeMs :: "int option"
  rs_RawCPUTimeNs :: "(64 word) option"
  rs_CPUAccounting :: "CPUAccounting option"
  rs_CPUTimeSampling :: "CPUTimeSampling option"
  rs_ProcessCPUTimeMs :: int
  rs_CPUTimeNormalization :: "CPUTimeNormalization option"
  rs_MemoryKB :: int
  rs_ExitCode :: "int option"
  rs_Stdout :: string
  rs_Stderr :: string
  rs_StdoutTruncated :: bool
  rs_StderrTruncated :: bool
  rs_Reason :: string
  rs_ReasonTruncated :: bool
  rs_VerdictSource :: string
  rs_Score :: "rat option"
  rs_StartedParticipants :: int
  rs_Match :: "MatchResult option"
  rs_Steps :: "StepResult list"
  rs_SidecarOutputs :: "SidecarOutput list"
  rs_SidecarErrors :: "SidecarError list"

section \<open>Zero values\<close>

definition zero_Source :: Source where
  "zero_Source = \<lparr>src_Name = [], src_DataB64 = [], src_DataURL = []\<rparr>"

definition zero_Artifact :: Artifact where
  "zero_Artifact = \<lparr>art_Name = [], art_DataB64 = [], art_Mode = []\<rparr>"

definition zero_CompileRequest :: CompileRequest where
  "zero_CompileRequest = \<lparr>cr_Lang = [], cr_Version = [], cr_Sources = [], cr_Target = [], cr_EntryPoint = [],
     cr_ProblemID = [], cr_RuntimeProfile = [], cr_GoModuleMode = [], cr_RustCrateMode = [],
     cr_EmitLogs = None\<rparr>"

definition zero_CompileResponse :: CompileResponse where
  "zero_CompileResponse = \<lparr>cp_Status = [], cp_Artifacts = [], cp_Stdout = [], cp_Stderr = [], cp_StdoutTruncated =
     False, cp_StderrTruncated = False, cp_Reason = [], cp_ReasonTruncated = False,
     cp_ReasonCode = []\<rparr>"

definition zero_Binary :: Binary where
  "zero_Binary = \<lparr>bin_Name = [], bin_DataB64 = [], bin_DataURL = [], bin_Mode = [], bin_SHA256 = []\<rparr>"

definition zero_Limits :: Limits where
  "zero_Limits = \<lparr>lim_TimeMs = 0, lim_WallTimeMs = 0, lim_MemoryMB = 0, lim_OutputBytes = 0,
     lim_WorkspaceBytes = 0\<rparr>"

definition zero_CaptureLimits :: CaptureLimits where
  "zero_CaptureLimits = \<lparr>cl_StdoutBytes = None, cl_StderrBytes = None\<rparr>"

definition zero_OutputFile :: OutputFile where
  "zero_OutputFile = \<lparr>outf_Path = []\<rparr>"

definition zero_SPJSpec :: SPJSpec where
  "zero_SPJSpec = \<lparr>spj_Binary = None, spj_Lang = [], spj_EmitScore = False, spj_Limits = None,
     spj_SidecarOutputs = []\<rparr>"

definition zero_InteractorSpec :: InteractorSpec where
  "zero_InteractorSpec = \<lparr>ia_Lang = [], ia_Binaries = [], ia_EntryPoint = [], ia_Limits = None\<rparr>"

definition zero_CommunicationSpec :: CommunicationSpec where
  "zero_CommunicationSpec = \<lparr>cm_Version = 0, cm_ParticipantProgramID = [], cm_ParticipantProgramIDs = [],
     cm_ManagerProgramID = [], cm_ParticipantCount = 0, cm_ResultProtocol = [], cm_Input =
     [], cm_InputURL = [], cm_InputSHA256 = [], cm_RuntimeFingerprint = [], cm_Answer = [],
     cm_AnswerURL = [], cm_MatchSeed = []\<rparr>"

definition zero_RunProgram :: RunProgram where
  "zero_RunProgram = \<lparr>prog_ID = [], prog_Lang = [], prog_Binaries = [], prog_EntryPoint = [],
     prog_EnableNetwork = False, prog_SourceSHA256 = []\<rparr>"

definition zero_MatchArtifact :: MatchArtifact where
  "zero_MatchArtifact = \<lparr>ma_Name = [], ma_SHA256 = []\<rparr>"

definition zero_MatchParticipant :: MatchParticipant where
  "zero_MatchParticipant = \<lparr>mp_Seat = 0, mp_ProgramID = [], mp_SourceSHA256 = [], mp_EntryPoint = [], mp_Artifacts =
     [], mp_Status = [], mp_Reason = [], mp_VerdictSource = [], mp_CPUTimeMs = 0, mp_MemoryKB
     = 0\<rparr>"

definition zero_MatchResult :: MatchResult where
  "zero_MatchResult = \<lparr>mr_Version = 0, mr_Outcome = [], mr_Games = 0, mr_Wins = None, mr_Retriable = False,
     mr_Participants = [], mr_Message = [], mr_MatchSeed = [], mr_InputSHA256 = [],
     mr_RuntimeFingerprint = [], mr_RunnerSHA256 = [], mr_ImageDigest = [], mr_ErrorCode = []\<rparr>"

definition zero_StepHandoff :: StepHandoff where
  "zero_StepHandoff = \<lparr>ho_ID = [], ho_From = [], ho_Path = [], ho_MaxBytes = 0\<rparr>"

definition zero_StdinPart :: StdinPart where
  "zero_StdinPart = \<lparr>sp_Type = [], sp_Data = [], sp_DataURL = [], sp_ID = [], sp_From = []\<rparr>"

definition zero_RunStep :: RunStep where
  "zero_RunStep = \<lparr>st_ID = [], st_ProgramID = [], st_Stdin = [], st_StdinURL = [], st_StdinFrom = [],
     st_StdinParts = [], st_Limits = zero_Limits, st_Handoff = None\<rparr>"

definition zero_PipelineResource :: PipelineResource where
  "zero_PipelineResource = \<lparr>prs_DataB64 = [], prs_DataURL = []\<rparr>"

definition zero_PipelineRef :: PipelineRef where
  "zero_PipelineRef = \<lparr>ref_Type = [], ref_ID = [], ref_StepID = []\<rparr>"

definition zero_PipelineExecutor :: PipelineExecutor where
  "zero_PipelineExecutor = \<lparr>ex_Kind = [], ex_ProgramID = [], ex_ParticipantProgramID = [], ex_InteractorProgramID =
     [], ex_InteractorLimits = None, ex_InteractorAnswer = None\<rparr>"

definition zero_PipelineOutputSource :: PipelineOutputSource where
  "zero_PipelineOutputSource = \<lparr>os_Kind = [], os_Path = []\<rparr>"

definition zero_PipelineOutput :: PipelineOutput where
  "zero_PipelineOutput = \<lparr>po_ID = [], po_Source = zero_PipelineOutputSource, po_MaxBytes = 0\<rparr>"

definition zero_PipelineStep :: PipelineStep where
  "zero_PipelineStep = \<lparr>ps_ID = [], ps_Executor = zero_PipelineExecutor, ps_Stdin = [], ps_Outputs = [],
     ps_Limits = zero_Limits\<rparr>"

definition zero_PipelineFinalJudge :: PipelineFinalJudge where
  "zero_PipelineFinalJudge = \<lparr>fj_Kind = [], fj_Input = zero_PipelineRef, fj_Expected = zero_PipelineRef, fj_Actual =
     zero_PipelineRef, fj_SPJ = None\<rparr>"

definition zero_PipelineV1 :: PipelineV1 where
  "zero_PipelineV1 = \<lparr>pl_Version = 0, pl_Resources = [], pl_Programs = [], pl_Steps = [], pl_FinalJudge =
     zero_PipelineFinalJudge\<rparr>"

definition zero_StepResult :: StepResult where
  "zero_StepResult = \<lparr>sr_ID = [], sr_ProgramID = [], sr_Status = [], sr_TimeMs = 0, sr_WallTimeMs = 0,
     sr_CPUTimeMs = 0, sr_RawCPUTimeMs = None, sr_ProcessCPUTimeMs = 0, sr_MemoryKB = 0,
     sr_ExitCode = None, sr_Stdout = [], sr_Stderr = [], sr_StdoutTruncated = False,
     sr_StderrTruncated = False, sr_Reason = [], sr_ReasonTruncated = False, sr_VerdictSource
     = [], sr_HandoffBytes = 0\<rparr>"

definition zero_CPUTimeNormalization :: CPUTimeNormalization where
  "zero_CPUTimeNormalization = \<lparr>ctn_Method = [], ctn_ScalePPM = 0, ctn_ReferenceTimeNs = 0, ctn_ObservedTimeNs = 0\<rparr>"

definition zero_CPUAccounting :: CPUAccounting where
  "zero_CPUAccounting = \<lparr>ca_ProcessClockBaselineNs = 0, ca_RusageBaselineNs = 0, ca_ProcessClockPeakNs = 0,
     ca_WaitUserNs = 0, ca_WaitSystemNs = 0, ca_WaitTargetNs = 0, ca_SelectedSource = []\<rparr>"

definition zero_CPUTimeSample :: CPUTimeSample where
  "zero_CPUTimeSample = \<lparr>cs_Status = [], cs_CPUTimeMs = 0, cs_CPUTimeNs = 0, cs_RawCPUTimeMs = None,
     cs_RawCPUTimeNs = None, cs_WallTimeMs = 0, cs_MemoryKB = 0, cs_CPUAccounting = None\<rparr>"

definition zero_CPUTimeSampling :: CPUTimeSampling where
  "zero_CPUTimeSampling = \<lparr>cts_Method = [], cts_SelectedSample = 0, cts_Samples = []\<rparr>"

definition zero_SidecarOutput :: SidecarOutput where
  "zero_SidecarOutput = \<lparr>so_Path = [], so_DataB64 = []\<rparr>"

definition zero_SidecarError :: SidecarError where
  "zero_SidecarError = \<lparr>se_Path = [], se_Reason = []\<rparr>"

definition zero_RunRequest :: RunRequest where
  "zero_RunRequest = \<lparr>rq_Lang = [], rq_EntryMode = [], rq_Binaries = [], rq_Programs = [], rq_Steps = [],
     rq_Stdin = [], rq_StdinURL = [], rq_ExpectedStdout = [], rq_ExpectedStdoutURL = [],
     rq_Limits = zero_Limits, rq_CaptureLimits = None, rq_ProblemID = [], rq_RuntimeProfile =
     [], rq_PythonLibraryMode = [], rq_EnableNetwork = False, rq_EntryPoint = [], rq_SPJ =
     None, rq_Interactor = None, rq_Communication = None, rq_FileOutputs = [],
     rq_SidecarOutputs = [], rq_EmitLogs = None, rq_IgnoreTLE = False, rq_Pipeline = None\<rparr>"

definition zero_RunResponse :: RunResponse where
  "zero_RunResponse = \<lparr>rs_Status = [], rs_TimeMs = 0, rs_WallTimeMs = 0, rs_CPUTimeMs = 0, rs_CPUTimeNs = 0,
     rs_RawCPUTimeMs = None, rs_RawCPUTimeNs = None, rs_CPUAccounting = None,
     rs_CPUTimeSampling = None, rs_ProcessCPUTimeMs = 0, rs_CPUTimeNormalization = None,
     rs_MemoryKB = 0, rs_ExitCode = None, rs_Stdout = [], rs_Stderr = [], rs_StdoutTruncated
     = False, rs_StderrTruncated = False, rs_Reason = [], rs_ReasonTruncated = False,
     rs_VerdictSource = [], rs_Score = None, rs_StartedParticipants = 0, rs_Match = None,
     rs_Steps = [], rs_SidecarOutputs = [], rs_SidecarErrors = []\<rparr>"

lemmas zero_defs =
  zero_Source_def
  zero_Artifact_def
  zero_CompileRequest_def
  zero_CompileResponse_def
  zero_Binary_def
  zero_Limits_def
  zero_CaptureLimits_def
  zero_OutputFile_def
  zero_SPJSpec_def
  zero_InteractorSpec_def
  zero_CommunicationSpec_def
  zero_RunProgram_def
  zero_MatchArtifact_def
  zero_MatchParticipant_def
  zero_MatchResult_def
  zero_StepHandoff_def
  zero_StdinPart_def
  zero_RunStep_def
  zero_PipelineResource_def
  zero_PipelineRef_def
  zero_PipelineExecutor_def
  zero_PipelineOutputSource_def
  zero_PipelineOutput_def
  zero_PipelineStep_def
  zero_PipelineFinalJudge_def
  zero_PipelineV1_def
  zero_StepResult_def
  zero_CPUTimeNormalization_def
  zero_CPUAccounting_def
  zero_CPUTimeSample_def
  zero_CPUTimeSampling_def
  zero_SidecarOutput_def
  zero_SidecarError_def
  zero_RunRequest_def
  zero_RunResponse_def

section \<open>Statuses\<close>

definition StatusOK :: string where
  "StatusOK = ''OK''"

definition CompileStatusOK :: string where
  "CompileStatusOK = ''OK''"

definition CompileStatusCompileError :: string where
  "CompileStatusCompileError = ''Compile Error''"

definition CompileStatusTimeout :: string where
  "CompileStatusTimeout = ''Timeout''"

definition CompileStatusInvalid :: string where
  "CompileStatusInvalid = ''Invalid Request''"

definition CompileStatusInternal :: string where
  "CompileStatusInternal = ''Internal Error''"

definition RunStatusAccepted :: string where
  "RunStatusAccepted = ''Accepted''"

definition RunStatusWA :: string where
  "RunStatusWA = ''Wrong Answer''"

definition RunStatusTLE :: string where
  "RunStatusTLE = ''Time Limit Exceeded''"

definition RunStatusMLE :: string where
  "RunStatusMLE = ''Memory Limit Exceeded''"

definition RunStatusWLE :: string where
  "RunStatusWLE = ''Workspace Limit Exceeded''"

definition RunStatusRE :: string where
  "RunStatusRE = ''Runtime Error''"

definition RunStatusInitFail :: string where
  "RunStatusInitFail = ''Container Initialization Failed''"

lemmas run_status_defs =
  StatusOK_def
  RunStatusAccepted_def
  RunStatusWA_def
  RunStatusTLE_def
  RunStatusMLE_def
  RunStatusWLE_def
  RunStatusRE_def
  RunStatusInitFail_def

lemma run_status_distinct [simp]:
  "distinct [StatusOK,
     RunStatusAccepted,
     RunStatusWA,
     RunStatusTLE,
     RunStatusMLE,
     RunStatusWLE,
     RunStatusRE,
     RunStatusInitFail]"
  by (simp add: run_status_defs)

lemma run_status_neq [simp]:
  "StatusOK \<noteq> RunStatusAccepted"
  "StatusOK \<noteq> RunStatusWA"
  "StatusOK \<noteq> RunStatusTLE"
  "StatusOK \<noteq> RunStatusMLE"
  "StatusOK \<noteq> RunStatusWLE"
  "StatusOK \<noteq> RunStatusRE"
  "StatusOK \<noteq> RunStatusInitFail"
  "RunStatusAccepted \<noteq> StatusOK"
  "RunStatusAccepted \<noteq> RunStatusWA"
  "RunStatusAccepted \<noteq> RunStatusTLE"
  "RunStatusAccepted \<noteq> RunStatusMLE"
  "RunStatusAccepted \<noteq> RunStatusWLE"
  "RunStatusAccepted \<noteq> RunStatusRE"
  "RunStatusAccepted \<noteq> RunStatusInitFail"
  "RunStatusWA \<noteq> StatusOK"
  "RunStatusWA \<noteq> RunStatusAccepted"
  "RunStatusWA \<noteq> RunStatusTLE"
  "RunStatusWA \<noteq> RunStatusMLE"
  "RunStatusWA \<noteq> RunStatusWLE"
  "RunStatusWA \<noteq> RunStatusRE"
  "RunStatusWA \<noteq> RunStatusInitFail"
  "RunStatusTLE \<noteq> StatusOK"
  "RunStatusTLE \<noteq> RunStatusAccepted"
  "RunStatusTLE \<noteq> RunStatusWA"
  "RunStatusTLE \<noteq> RunStatusMLE"
  "RunStatusTLE \<noteq> RunStatusWLE"
  "RunStatusTLE \<noteq> RunStatusRE"
  "RunStatusTLE \<noteq> RunStatusInitFail"
  "RunStatusMLE \<noteq> StatusOK"
  "RunStatusMLE \<noteq> RunStatusAccepted"
  "RunStatusMLE \<noteq> RunStatusWA"
  "RunStatusMLE \<noteq> RunStatusTLE"
  "RunStatusMLE \<noteq> RunStatusWLE"
  "RunStatusMLE \<noteq> RunStatusRE"
  "RunStatusMLE \<noteq> RunStatusInitFail"
  "RunStatusWLE \<noteq> StatusOK"
  "RunStatusWLE \<noteq> RunStatusAccepted"
  "RunStatusWLE \<noteq> RunStatusWA"
  "RunStatusWLE \<noteq> RunStatusTLE"
  "RunStatusWLE \<noteq> RunStatusMLE"
  "RunStatusWLE \<noteq> RunStatusRE"
  "RunStatusWLE \<noteq> RunStatusInitFail"
  "RunStatusRE \<noteq> StatusOK"
  "RunStatusRE \<noteq> RunStatusAccepted"
  "RunStatusRE \<noteq> RunStatusWA"
  "RunStatusRE \<noteq> RunStatusTLE"
  "RunStatusRE \<noteq> RunStatusMLE"
  "RunStatusRE \<noteq> RunStatusWLE"
  "RunStatusRE \<noteq> RunStatusInitFail"
  "RunStatusInitFail \<noteq> StatusOK"
  "RunStatusInitFail \<noteq> RunStatusAccepted"
  "RunStatusInitFail \<noteq> RunStatusWA"
  "RunStatusInitFail \<noteq> RunStatusTLE"
  "RunStatusInitFail \<noteq> RunStatusMLE"
  "RunStatusInitFail \<noteq> RunStatusWLE"
  "RunStatusInitFail \<noteq> RunStatusRE"
  by (simp_all add: run_status_defs)

end
