(* ===== verification/Go_Strings.thy ===== *)
theory Go_Strings
  imports Prelude
begin

text \<open>
  The parts of Go's \<open>unicode/utf8\<close>, \<open>strings\<close> and \<open>encoding/base64\<close> packages that the
  repository calls, written from their documented behaviour. A Go string is a sequence of
  bytes; it is modelled as a \<open>string\<close>, whose characters are bytes, so \<open>length\<close> is Go's
  \<open>len\<close>. Nothing here has source lines under src/.

  \<open>to_lower\<close> and \<open>to_upper\<close> map the ASCII letters and the four other letters whose image is
  an ASCII letter; other letters are left as they are. The results agree with Go's on being
  equal to any given ASCII string, which is all the repository asks of them.
\<close>

abbreviation byte :: "char \<Rightarrow> nat" where
  "byte \<equiv> of_char"

section \<open>UTF-8\<close>

definition rune_error :: nat where
  "rune_error = 65533"

definition cont_byte :: "char \<Rightarrow> bool" where
  "cont_byte c \<longleftrightarrow> 128 \<le> byte c \<and> byte c \<le> 191"

text \<open>The range of second bytes that \<open>utf8.DecodeRune\<close> accepts after a leading byte.\<close>

definition second_ok :: "char \<Rightarrow> char \<Rightarrow> bool" where
  "second_ok a b \<longleftrightarrow>
     (if byte a = 224 then 160 \<le> byte b \<and> byte b \<le> 191
      else if byte a = 237 then 128 \<le> byte b \<and> byte b \<le> 159
      else if byte a = 240 then 144 \<le> byte b \<and> byte b \<le> 191
      else if byte a = 244 then 128 \<le> byte b \<and> byte b \<le> 143
      else cont_byte b)"

text \<open>\<open>utf8.DecodeRuneInString\<close>: the rune and the bytes it takes; width 1 for a bad byte.\<close>

fun decode_rune :: "string \<Rightarrow> nat \<times> nat" where
  "decode_rune [] = (rune_error, 0)"
| "decode_rune (a # s) =
     (if byte a < 128 then (byte a, 1)
      else if byte a < 194 then (rune_error, 1)
      else if byte a < 224 then
        (case s of b # _ \<Rightarrow>
            if cont_byte b then ((byte a - 192) * 64 + (byte b - 128), 2) else (rune_error, 1)
         | _ \<Rightarrow> (rune_error, 1))
      else if byte a < 240 then
        (case s of b # c # _ \<Rightarrow>
            if second_ok a b \<and> cont_byte c
            then ((byte a - 224) * 4096 + (byte b - 128) * 64 + (byte c - 128), 3)
            else (rune_error, 1)
         | _ \<Rightarrow> (rune_error, 1))
      else if byte a < 245 then
        (case s of b # c # d # _ \<Rightarrow>
            if second_ok a b \<and> cont_byte c \<and> cont_byte d
            then ((byte a - 240) * 262144 + (byte b - 128) * 4096 + (byte c - 128) * 64
                  + (byte d - 128), 4)
            else (rune_error, 1)
         | _ \<Rightarrow> (rune_error, 1))
      else (rune_error, 1))"

lemma decode_rune_width: "s \<noteq> [] \<Longrightarrow> 1 \<le> snd (decode_rune s) \<and> snd (decode_rune s) \<le> length s"
  by (cases s) (auto split: list.splits)

lemma decode_rune_width_4: "snd (decode_rune s) \<le> 4"
  by (cases s) (auto split: list.splits)

lemma decode_rune_ascii [simp]: "byte a < 128 \<Longrightarrow> decode_rune (a # s) = (byte a, 1)"
  by simp

declare decode_rune.simps(2) [simp del]

lemma decode_rune_take:
  assumes "snd (decode_rune s) \<le> n" and "s \<noteq> []"
  shows "decode_rune (take n s) = decode_rune s"
proof -
  have n: "0 < n" using decode_rune_width [OF assms(2)] assms(1) by simp
  obtain a t where s: "s = a # t" using assms(2) by (cases s) auto
  obtain m where m: "n = Suc m" using n by (cases n) auto
  consider "byte a < 128" | "\<not> byte a < 128" "byte a < 194" | "\<not> byte a < 194" "byte a < 224"
    | "\<not> byte a < 224" "byte a < 240" | "\<not> byte a < 240" "byte a < 245" | "\<not> byte a < 245" by linarith
  then show ?thesis
  proof cases
    case 3
    then show ?thesis using assms(1) unfolding s m
      by (cases t; cases m) (simp_all add: decode_rune.simps(2) split: if_splits)
  next
    case 4
    obtain b c u where t: "t = [] \<or> t = [b] \<or> t = b # c # u" by (metis list.exhaust)
    consider "m = 0" | "m = 1" | k where "m = Suc (Suc k)" by (metis One_nat_def not0_implies_Suc)
    then show ?thesis using t 4 assms(1) unfolding s m
      by cases (elim disjE; simp add: decode_rune.simps(2) split: if_splits)+
  next
    case 5
    obtain b c d u where t: "t = [] \<or> t = [b] \<or> t = [b, c] \<or> t = b # c # d # u" by (metis list.exhaust)
    consider "m = 0" | "m = 1" | "m = 2" | k where "m = Suc (Suc (Suc k))"
      by (metis One_nat_def Suc_1 not0_implies_Suc)
    then show ?thesis using t 5 assms(1) unfolding s m
      by cases (elim disjE; simp add: decode_rune.simps(2) numeral_2_eq_2 split: if_splits)+
  qed (simp_all add: s m decode_rune.simps(2))
qed

lemma decode_rune_append:
  assumes "s \<noteq> []" and "\<not> (fst (decode_rune s) = rune_error \<and> snd (decode_rune s) = 1)"
  shows "decode_rune (take (snd (decode_rune s)) s @ t) = decode_rune s"
proof -
  obtain a u where s: "s = a # u" using assms(1) by (cases s) auto
  consider "byte a < 128" | "\<not> byte a < 128" "byte a < 194" | "\<not> byte a < 194" "byte a < 224"
    | "\<not> byte a < 224" "byte a < 240" | "\<not> byte a < 240" "byte a < 245" | "\<not> byte a < 245" by linarith
  then show ?thesis
  proof cases
    case 3
    then show ?thesis using assms(2) unfolding s
      by (simp add: decode_rune.simps(2) split: list.split_asm if_split_asm)
  next
    case 4
    then show ?thesis using assms(2) unfolding s
      by (simp add: decode_rune.simps(2) split: list.split_asm if_split_asm)
  next
    case 5
    then show ?thesis using assms(2) unfolding s
      by (simp add: decode_rune.simps(2) split: list.split_asm if_split_asm)
  qed (use assms(2) in \<open>simp_all add: s decode_rune.simps(2)\<close>)
qed

function runes :: "string \<Rightarrow> (nat \<times> nat) list" where
  "runes [] = []"
| "runes (a # s) = decode_rune (a # s) # runes (drop (snd (decode_rune (a # s))) (a # s))"
  by pat_completeness auto
termination
proof (relation "measure length")
  fix a :: char and s
  have "1 \<le> snd (decode_rune (a # s))" using decode_rune_width [of "a # s"] by simp
  then show "(drop (snd (decode_rune (a # s))) (a # s), a # s) \<in> measure length" by simp
qed simp

declare runes.simps(2) [simp del]

definition valid_utf8 :: "string \<Rightarrow> bool" where
  "valid_utf8 s \<longleftrightarrow> list_all (\<lambda>(r, w). \<not> (r = rune_error \<and> w = 1)) (runes s)"

lemma valid_utf8_Nil [simp]: "valid_utf8 []"
  by (simp add: valid_utf8_def)

lemma runes_ascii: "byte a < 128 \<Longrightarrow> runes (a # s) = (byte a, 1) # runes s"
  by (simp add: runes.simps(2))

lemma runes_widths: "sum_list (map snd (runes s)) = length s"
proof (induction s rule: runes.induct)
  case 1
  show ?case by simp
next
  case (2 a s)
  have "snd (decode_rune (a # s)) \<le> length (a # s)"
    using decode_rune_width [of "a # s"] by simp
  then show ?case by (simp add: runes.simps(2) 2)
qed

lemma ascii_valid_utf8: "list_all (\<lambda>c. byte c < 128) s \<Longrightarrow> valid_utf8 s"
  by (induction s) (auto simp: valid_utf8_def runes_ascii rune_error_def)

text \<open>A string whose runes are all ASCII is the list of those bytes.\<close>

lemma runes_all_ascii:
  "\<forall>(r, w) \<in> set (runes s). r < 128 \<Longrightarrow> list_all (\<lambda>c. byte c < 128) s"
proof (induction s rule: runes.induct)
  case (2 a s)
  have r: "fst (decode_rune (a # s)) < 128"
    using 2(2) by (auto simp: runes.simps(2) case_prod_beta)
  have "byte a < 128"
  proof (rule ccontr)
    assume h: "\<not> byte a < 128"
    consider "byte a < 194" | "194 \<le> byte a" "byte a < 224" | "224 \<le> byte a" "byte a < 240"
      | "240 \<le> byte a" "byte a < 245" | "245 \<le> byte a" by linarith
    then have "128 \<le> fst (decode_rune (a # s))"
      using h
      by cases (auto simp: decode_rune.simps(2) rune_error_def cont_byte_def second_ok_def split: list.split)
    with r show False by simp
  qed
  with 2 show ?case by (simp add: runes_ascii)
qed simp

lemma runes_ascii_set:
  "list_all (\<lambda>c. byte c < 128) s \<Longrightarrow> set (runes s) = (\<lambda>c. (byte c, 1)) ` set s"
  by (induction s) (auto simp: runes_ascii)

lemma runes_ball_ascii:
  assumes "\<And>r. P r \<Longrightarrow> r < 128"
  shows "(\<forall>(r, w) \<in> set (runes s). P r) \<longleftrightarrow> (\<forall>c \<in> set s. P (byte c))"
proof
  assume h: "\<forall>(r, w) \<in> set (runes s). P r"
  then have "list_all (\<lambda>c. byte c < 128) s"
    using assms by (intro runes_all_ascii) auto
  then show "\<forall>c \<in> set s. P (byte c)" using h by (auto simp: runes_ascii_set)
next
  assume h: "\<forall>c \<in> set s. P (byte c)"
  then have "list_all (\<lambda>c. byte c < 128) s" using assms by (auto simp: list_all_iff)
  then show "\<forall>(r, w) \<in> set (runes s). P r" using h by (auto simp: runes_ascii_set)
qed

definition encode_rune :: "nat \<Rightarrow> string" where
  "encode_rune r =
     (if r < 128 then [char_of r]
      else if r < 2048 then [char_of (192 + r div 64), char_of (128 + r mod 64)]
      else if r < 65536 then
        [char_of (224 + r div 4096), char_of (128 + (r div 64) mod 64), char_of (128 + r mod 64)]
      else [char_of (240 + r div 262144), char_of (128 + (r div 4096) mod 64),
            char_of (128 + (r div 64) mod 64), char_of (128 + r mod 64)])"

section \<open>Trimming and letter case\<close>

text \<open>The UTF-8 encodings of the runes for which \<open>unicode.IsSpace\<close> holds.\<close>

definition space_encodings :: "string list" where
  "space_encodings = map encode_rune
     ([9, 10, 11, 12, 13, 32, 133, 160, 5760] @ [8192..<8203] @ [8232, 8233, 8239, 8287, 12288])"

fun has_prefix :: "string \<Rightarrow> string \<Rightarrow> bool" where
  "has_prefix s [] = True"
| "has_prefix [] (p # ps) = False"
| "has_prefix (c # s) (p # ps) = (c = p \<and> has_prefix s ps)"

lemma has_prefix_iff: "has_prefix s p \<longleftrightarrow> (\<exists>t. s = p @ t)"
  by (induction s p rule: has_prefix.induct) auto

text \<open>How many bytes of \<open>s\<close> the first matching encoding takes, 0 when none matches.\<close>

fun match_len :: "string list \<Rightarrow> string \<Rightarrow> nat" where
  "match_len [] s = 0"
| "match_len (p # ps) s = (if p \<noteq> [] \<and> has_prefix s p then length p else match_len ps s)"

lemma match_len_le: "match_len ps s \<le> length s"
  by (induction ps s rule: match_len.induct) (auto simp: has_prefix_iff)

function trim_left_by :: "string list \<Rightarrow> string \<Rightarrow> string" where
  "trim_left_by ps s =
     (if match_len ps s = 0 then s else trim_left_by ps (drop (match_len ps s) s))"
  by pat_completeness auto
termination
proof (relation "measure (\<lambda>(ps, s). length s)")
  fix ps s
  assume "match_len ps s \<noteq> 0"
  with match_len_le [of ps s] show "((ps, drop (match_len ps s) s), ps, s) \<in> measure (\<lambda>(ps, s). length s)"
    by simp
qed simp

declare trim_left_by.simps [simp del]

definition trim_space :: "string \<Rightarrow> string" where
  "trim_space s =
     rev (trim_left_by (map rev space_encodings) (rev (trim_left_by space_encodings s)))"

lemma trim_left_by_suffix: "\<exists>p. s = p @ trim_left_by ps s"
proof (induction ps s rule: trim_left_by.induct)
  case (1 ps s)
  show ?case
  proof (cases "match_len ps s = 0")
    case True
    then show ?thesis by (simp add: trim_left_by.simps [of ps s])
  next
    case False
    with 1 obtain p where "drop (match_len ps s) s = p @ trim_left_by ps (drop (match_len ps s) s)"
      by blast
    then have "s = (take (match_len ps s) s @ p) @ trim_left_by ps s"
      using False by (metis append_take_drop_id append.assoc trim_left_by.simps)
    then show ?thesis by blast
  qed
qed

lemma match_len_trim_left_by: "match_len ps (trim_left_by ps s) = 0"
proof (induction ps s rule: trim_left_by.induct)
  case (1 ps s)
  then show ?case by (cases "match_len ps s = 0") (simp_all add: trim_left_by.simps [of ps s])
qed

lemma trim_left_by_idem: "match_len ps s = 0 \<Longrightarrow> trim_left_by ps s = s"
  by (simp add: trim_left_by.simps)

lemma match_len_0_iff: "match_len ps s = 0 \<longleftrightarrow> (\<forall>p \<in> set ps. p \<noteq> [] \<longrightarrow> \<not> has_prefix s p)"
  by (induction ps s rule: match_len.induct) auto

lemma trim_space_Nil [simp]: "trim_space [] = []"
proof -
  have "match_len ps [] = 0" for ps
    using match_len_le [of ps "[]"] by simp
  then show ?thesis by (simp add: trim_space_def trim_left_by_idem)
qed

lemma trim_space_infix: "\<exists>p q. s = p @ trim_space s @ q"
proof -
  let ?l = "trim_left_by space_encodings s"
  obtain p where p: "s = p @ ?l" using trim_left_by_suffix by blast
  obtain q where q: "rev ?l = q @ trim_left_by (map rev space_encodings) (rev ?l)"
    using trim_left_by_suffix by blast
  then have "?l = trim_space s @ rev q"
    by (metis trim_space_def rev_append rev_rev_ident)
  with p show ?thesis by metis
qed

lemma length_trim_space: "length (trim_space s) \<le> length s"
proof -
  obtain p q where "s = p @ trim_space s @ q" using trim_space_infix by blast
  then have "length s = length p + (length (trim_space s) + length q)"
    by (metis length_append)
  then show ?thesis by simp
qed

lemma match_len_prefix: "match_len ps (a @ b) = 0 \<Longrightarrow> match_len ps a = 0"
  by (auto simp: match_len_0_iff has_prefix_iff)

lemma trim_space_idem [simp]: "trim_space (trim_space s) = trim_space s"
proof -
  let ?l = "trim_left_by space_encodings s"
  let ?R = "map rev space_encodings"
  let ?t = "trim_left_by ?R (rev ?l)"
  obtain q where q: "rev ?l = q @ ?t"
    using trim_left_by_suffix by blast
  then have "?l = trim_space s @ rev q"
    by (metis trim_space_def rev_append rev_rev_ident)
  then have "match_len space_encodings (trim_space s) = 0"
    by (metis match_len_prefix match_len_trim_left_by)
  moreover have "match_len ?R (rev (trim_space s)) = 0"
    by (simp add: trim_space_def match_len_trim_left_by)
  ultimately show ?thesis
    by (metis trim_left_by_idem trim_space_def rev_rev_ident)
qed

text \<open>A string that begins and ends with a visible ASCII character is left as it is.\<close>

abbreviation visible :: "char \<Rightarrow> bool" where
  "visible c \<equiv> 32 < (of_char c :: nat) \<and> (of_char c :: nat) < 128"

lemma space_encodings_bytes:
  "list_all (\<lambda>p. p \<noteq> [] \<and> \<not> visible (hd p) \<and> \<not> visible (last p)) space_encodings"
  by (simp add: space_encodings_def encode_rune_def upt_rec)

lemma trim_space_visible:
  assumes "s \<noteq> []" and "visible (hd s)" and "visible (last s)"
  shows "trim_space s = s"
proof -
  have l: "match_len space_encodings s = 0"
    unfolding match_len_0_iff has_prefix_iff
  proof (intro ballI impI notI)
    fix p assume "p \<in> set space_encodings" "p \<noteq> []" "\<exists>t. s = p @ t"
    then have "\<not> visible (hd p)" "hd s = hd p"
      using space_encodings_bytes by (auto simp: list_all_iff)
    with assms(2) show False by simp
  qed
  have r: "match_len (map rev space_encodings) (rev s) = 0"
    unfolding match_len_0_iff has_prefix_iff
  proof (intro ballI impI notI)
    fix q assume "q \<in> set (map rev space_encodings)" "q \<noteq> []" and t: "\<exists>t. rev s = q @ t"
    then obtain p where p: "p \<in> set space_encodings" "q = rev p" "p \<noteq> []" by auto
    from t p obtain u where "s = u @ p" by (metis rev_append rev_rev_ident)
    with p have "\<not> visible (last p)" "last s = last p"
      using space_encodings_bytes by (auto simp: list_all_iff)
    with assms(3) show False by simp
  qed
  show ?thesis by (simp add: trim_space_def trim_left_by_idem l r)
qed

definition lower_rune :: "nat \<Rightarrow> nat" where
  "lower_rune r = (if 65 \<le> r \<and> r \<le> 90 then r + 32 else if r = 304 then 105
                   else if r = 8490 then 107 else r)"

definition upper_rune :: "nat \<Rightarrow> nat" where
  "upper_rune r = (if 97 \<le> r \<and> r \<le> 122 then r - 32 else if r = 305 then 73
                   else if r = 383 then 83 else r)"

definition map_runes :: "(nat \<Rightarrow> nat) \<Rightarrow> string \<Rightarrow> string" where
  "map_runes f s = concat (map (encode_rune \<circ> f \<circ> fst) (runes s))"

definition to_lower :: "string \<Rightarrow> string" where
  "to_lower = map_runes lower_rune"

definition to_upper :: "string \<Rightarrow> string" where
  "to_upper = map_runes upper_rune"

lemma to_lower_Nil [simp]: "to_lower [] = []"
  by (simp add: to_lower_def map_runes_def)

lemma to_lower_ascii:
  "list_all (\<lambda>c. byte c < 128) s \<Longrightarrow> to_lower s = map (\<lambda>c. char_of (lower_rune (byte c))) s"
  by (induction s) (auto simp: to_lower_def map_runes_def runes_ascii encode_rune_def lower_rune_def
      split: if_splits)

lemma to_upper_ascii:
  "list_all (\<lambda>c. byte c < 128) s \<Longrightarrow> to_upper s = map (\<lambda>c. char_of (upper_rune (byte c))) s"
  by (induction s) (auto simp: to_upper_def map_runes_def runes_ascii encode_rune_def upper_rune_def
      split: if_splits)

text \<open>\<open>strings.TrimRight\<close> with a cut set of ASCII characters.\<close>

definition trim_right :: "(char \<Rightarrow> bool) \<Rightarrow> string \<Rightarrow> string" where
  "trim_right cs s = rev (dropWhile cs (rev s))"

lemma trim_right_Nil [simp]: "trim_right cs [] = []"
  by (simp add: trim_right_def)

lemma trim_right_snoc: "trim_right cs (s @ [c]) = (if cs c then trim_right cs s else s @ [c])"
  by (simp add: trim_right_def)

lemma trim_right_idem [simp]: "trim_right cs (trim_right cs s) = trim_right cs s"
  by (simp add: trim_right_def dropWhile_idem)

lemma trim_right_append_cs: "list_all cs t \<Longrightarrow> trim_right cs (s @ t) = trim_right cs s"
  by (simp add: trim_right_def list_all_iff) (metis dropWhile_append2 set_rev)

lemma trim_right_prefix: "\<exists>t. s = trim_right cs s @ t \<and> list_all cs t"
proof -
  have "s = rev (dropWhile cs (rev s)) @ rev (takeWhile cs (rev s))"
    by (metis rev_append rev_rev_ident takeWhile_dropWhile_id)
  then show ?thesis
    by (metis trim_right_def list_all_iff set_rev set_takeWhileD)
qed

section \<open>Numbers in decimal\<close>

text \<open>\<open>dec\<close> is \<open>strconv.FormatInt\<close> and the verb \<open>%d\<close> on a number that is not negative.\<close>

fun dec :: "nat \<Rightarrow> string" where
  "dec n = (if n < 10 then [char_of (48 + n)] else dec (n div 10) @ [char_of (48 + n mod 10)])"

declare dec.simps [simp del]

lemma dec_digits: "c \<in> set (dec n) \<Longrightarrow> of_char c \<in> {48..57 :: nat}"
proof (induction n rule: dec.induct)
  case (1 n)
  then show ?case by (subst (asm) (2) dec.simps) (auto split: if_splits)
qed

lemma dec_nonempty [simp]: "dec n \<noteq> []"
  by (subst dec.simps) simp

lemma length_dec: "length (dec n) \<le> k \<longleftrightarrow> n < 10 ^ k" if "0 < k"
  using that
proof (induction n arbitrary: k rule: dec.induct)
  case (1 n)
  show ?case
  proof (cases "n < 10")
    case True
    have "(10::nat) ^ 1 \<le> 10 ^ k" using 1(2) by (intro power_increasing) auto
    with True 1(2) show ?thesis by (subst dec.simps) simp
  next
    case False
    then obtain j where j: "k = Suc j" using 1(2) by (cases k) auto
    show ?thesis
    proof (cases "j = 0")
      case True
      with False j show ?thesis by (subst dec.simps) (simp add: Suc_le_eq)
    next
      case False
      have "length (dec (n div 10)) \<le> j \<longleftrightarrow> n div 10 < 10 ^ j"
        using 1(1) [of j] \<open>\<not> n < 10\<close> False by simp
      also have "\<dots> \<longleftrightarrow> n < 10 ^ k" by (simp add: j div_less_iff_less_mult mult.commute)
      finally show ?thesis using \<open>\<not> n < 10\<close> j by (subst dec.simps) simp
    qed
  qed
qed

end
