(* ===== verification/Go_Base64.thy ===== *)
theory Go_Base64
  imports Go_Strings
begin

text \<open>
  \<open>encoding/base64\<close>'s \<open>StdEncoding\<close>: the standard alphabet, padding required, carriage
  returns and line feeds ignored, trailing bits of the last digit ignored.
\<close>

definition b64_digit :: "char \<Rightarrow> nat option" where
  "b64_digit c =
     (let n = (of_char c :: nat) in
      if 65 \<le> n \<and> n \<le> 90 then Some (n - 65)
      else if 97 \<le> n \<and> n \<le> 122 then Some (n - 71)
      else if 48 \<le> n \<and> n \<le> 57 then Some (n + 4)
      else if n = 43 then Some 62
      else if n = 47 then Some 63
      else None)"

definition b64_char :: "nat \<Rightarrow> char" where
  "b64_char k =
     (if k < 26 then char_of (k + 65) else if k < 52 then char_of (k + 71)
      else if k < 62 then char_of (k - 4) else if k = 62 then char_of (43 :: nat)
      else char_of (47 :: nat))"

abbreviation pad_char :: char where
  "pad_char \<equiv> CHR ''=''"

definition quad_bytes :: "nat \<Rightarrow> nat \<Rightarrow> nat \<Rightarrow> nat \<Rightarrow> string" where
  "quad_bytes a b c d =
     [char_of (a * 4 + b div 16), char_of ((b mod 16) * 16 + c div 4), char_of ((c mod 4) * 64 + d)]"

fun b64_quads :: "string \<Rightarrow> string option" where
  "b64_quads [] = Some []"
| "b64_quads (a # b # c # d # rest) =
     (case (b64_digit a, b64_digit b, b64_digit c, b64_digit d) of
        (Some i, Some j, Some k, Some l) \<Rightarrow> map_option ((@) (quad_bytes i j k l)) (b64_quads rest)
      | (Some i, Some j, Some k, None) \<Rightarrow>
          if d = pad_char \<and> rest = [] then Some (take 2 (quad_bytes i j k 0)) else None
      | (Some i, Some j, None, None) \<Rightarrow>
          if c = pad_char \<and> d = pad_char \<and> rest = [] then Some (take 1 (quad_bytes i j 0 0)) else None
      | _ \<Rightarrow> None)"
| "b64_quads _ = None"

definition not_newline :: "char \<Rightarrow> bool" where
  "not_newline c \<longleftrightarrow> byte c \<noteq> 10 \<and> byte c \<noteq> 13"

definition b64_decode :: "string \<Rightarrow> string option" where
  "b64_decode s = b64_quads (filter not_newline s)"

fun b64_encode :: "string \<Rightarrow> string" where
  "b64_encode [] = []"
| "b64_encode [x] =
     [b64_char (byte x div 4), b64_char ((byte x mod 4) * 16), pad_char, pad_char]"
| "b64_encode [x, y] =
     [b64_char (byte x div 4), b64_char ((byte x mod 4) * 16 + byte y div 16),
      b64_char ((byte y mod 16) * 4), pad_char]"
| "b64_encode (x # y # z # rest) =
     b64_char (byte x div 4) # b64_char ((byte x mod 4) * 16 + byte y div 16)
     # b64_char ((byte y mod 16) * 4 + byte z div 64) # b64_char (byte z mod 64)
     # b64_encode rest"

text \<open>\<open>StdEncoding.EncodedLen\<close>.\<close>

definition b64_encoded_len :: "nat \<Rightarrow> nat" where
  "b64_encoded_len n = (n + 2) div 3 * 4"

lemma encoded_len_step: "b64_encoded_len (Suc (Suc (Suc n))) = Suc (Suc (Suc (Suc (b64_encoded_len n))))"
proof -
  have "(n + 2 + 3) div 3 = (n + 2) div 3 + 1" by simp
  then show ?thesis by (simp add: b64_encoded_len_def)
qed

lemma length_b64_encode: "length (b64_encode s) = b64_encoded_len (length s)"
  by (induction s rule: b64_encode.induct) (simp_all add: encoded_len_step, simp_all add: b64_encoded_len_def)

lemma byte_b64_char:
  assumes "k < 64"
  shows "byte (b64_char k) =
    (if k < 26 then k + 65 else if k < 52 then k + 71 else if k < 62 then k - 4
     else if k = 62 then 43 else (47 :: nat))"
  using assms by (simp add: b64_char_def)

lemma b64_digit_char: "k < 64 \<Longrightarrow> b64_digit (b64_char k) = Some k"
  unfolding b64_digit_def Let_def byte_b64_char by auto

lemma b64_digit_less: "b64_digit c = Some k \<Longrightarrow> k < 64"
  by (auto simp: b64_digit_def Let_def split: if_splits)

lemma b64_digit_pad [simp]: "b64_digit pad_char = None"
  by (simp add: b64_digit_def Let_def)

lemma b64_char_not_newline: "k < 64 \<Longrightarrow> byte (b64_char k) \<noteq> 10 \<and> byte (b64_char k) \<noteq> 13"
  by (auto simp: byte_b64_char)

lemma byte_div_4: "byte c div 4 < (64 :: nat)" and byte_div_16: "byte c div 16 < (16 :: nat)"
  and byte_div_64: "byte c div 64 < (4 :: nat)"
  using nat_of_char_less_256 [of c] by linarith+

lemma sextet_bounds:
  "byte x mod 4 * 16 + byte y div 16 < (64 :: nat)" "byte y mod 16 * 4 + byte z div 64 < (64 :: nat)"
  "byte z mod 64 < (64 :: nat)" "byte x mod 4 * 16 < (64 :: nat)" "byte y mod 16 * 4 < (64 :: nat)"
proof -
  have m: "byte x mod 4 \<le> (3 :: nat)" "byte y mod 16 \<le> (15 :: nat)"
    by (simp_all add: less_Suc_eq_le [symmetric])
  show "byte x mod 4 * 16 + byte y div 16 < (64 :: nat)"
    using m byte_div_16 [of y] by linarith
  show "byte y mod 16 * 4 + byte z div 64 < (64 :: nat)"
    using m byte_div_64 [of z] by linarith
qed simp_all

lemmas b64_bounds = byte_div_4 byte_div_16 byte_div_64 sextet_bounds

lemma char_of_byte_eq: "n = byte x \<Longrightarrow> char_of (n :: nat) = x"
  by (simp only: char_of_char)

lemma char_of_split_1: "r < 16 \<Longrightarrow> char_of (byte x div 4 * 4 + (byte x mod 4 * 16 + r) div 16 :: nat) = x"
  by (rule char_of_byte_eq) simp

lemma char_of_split_2:
  "q < 4 \<Longrightarrow> char_of ((byte x mod 4 * 16 + byte y div 16) mod 16 * 16
      + (byte y mod 16 * 4 + q) div 4 :: nat) = y"
  using byte_div_16 [of y] by (intro char_of_byte_eq) simp

lemma char_of_split_3:
  "char_of ((byte y mod 16 * 4 + byte z div 64) mod 4 * 64 + byte z mod 64 :: nat) = z"
  using byte_div_64 [of z] by (intro char_of_byte_eq) simp

lemma b64_quads_encode: "b64_quads (b64_encode s) = Some s"
proof (induction s rule: b64_encode.induct)
  case (2 x)
  show ?case
    using char_of_split_1 [of 0 x] by (simp add: b64_digit_char b64_bounds quad_bytes_def)
next
  case (3 x y)
  show ?case
    using char_of_split_1 [of "byte y div 16" x] char_of_split_2 [of 0 x y]
    by (simp add: b64_digit_char b64_bounds quad_bytes_def)
next
  case (4 x y z rest)
  then show ?case
    using char_of_split_1 [of "byte y div 16" x] char_of_split_2 [of "byte z div 64" x y]
      char_of_split_3 [of y z]
    by (simp add: b64_digit_char b64_bounds quad_bytes_def)
qed simp

lemma b64_encode_no_newline:
  "filter not_newline (b64_encode s) = b64_encode s"
  by (induction s rule: b64_encode.induct) (simp_all add: not_newline_def b64_char_not_newline b64_bounds)

lemma b64_decode_encode: "b64_decode (b64_encode s) = Some s"
  by (simp add: b64_decode_def b64_encode_no_newline b64_quads_encode)

lemma b64_quads_quad:
  assumes "b64_quads (a # b # c # d # rest) = Some t"
  shows "\<exists>p u. t = p @ u \<and> length p \<le> 3 \<and>
    ((\<exists>i j k l. b64_digit a = Some i \<and> b64_digit b = Some j \<and> b64_digit c = Some k \<and>
      b64_digit d = Some l \<and> b64_quads rest = Some u) \<or> u = [])"
proof (cases "b64_digit a = None \<or> b64_digit b = None")
  case True
  with assms show ?thesis by (auto split: option.splits)
next
  case False
  then obtain i j where "b64_digit a = Some i" "b64_digit b = Some j" by auto
  with assms show ?thesis
    by (cases "b64_digit c"; cases "b64_digit d")
      (auto simp: quad_bytes_def split: if_splits intro: exI [of _ "[_]"] exI [of _ "[_, _]"]
        exI [of _ "[_, _, _]"])
qed

lemma length_b64_quads: "b64_quads s = Some t \<Longrightarrow> length t \<le> 3 * (length s div 4)"
proof (induction s arbitrary: t rule: b64_quads.induct)
  case (2 a b c d rest)
  from b64_quads_quad [OF 2(2)] obtain p u
    where t: "t = p @ u" "length p \<le> 3"
      and u: "(\<exists>i j k l. b64_digit a = Some i \<and> b64_digit b = Some j \<and> b64_digit c = Some k \<and>
        b64_digit d = Some l \<and> b64_quads rest = Some u) \<or> u = []" by blast
  have "length u \<le> 3 * (length rest div 4)"
    using u "2.IH" by fastforce
  moreover have "length (a # b # c # d # rest) div 4 = Suc (length rest div 4)" by simp
  ultimately show ?case using t by (simp only: length_append mult_Suc_right)
qed auto

lemma length_b64_decode: "b64_decode s = Some t \<Longrightarrow> 4 * length t \<le> 3 * length s"
proof -
  assume "b64_decode s = Some t"
  then have "length t \<le> 3 * (length (filter not_newline s) div 4)"
    unfolding b64_decode_def by (rule length_b64_quads)
  also have "\<dots> \<le> 3 * (length s div 4)" by (simp add: div_le_mono)
  finally show ?thesis by linarith
qed

section \<open>The streaming decoder\<close>

text \<open>
  \<open>base64.NewDecoder\<close> read to its end by \<open>io.Copy\<close>, whose buffers are larger than a chunk. The
  decoder reads the input at most 1024 bytes at a time into a buffer, dropping line breaks, and
  decodes the whole quads it holds; each chunk is decoded on its own, so padding is also
  accepted at the end of a chunk that is not the last.
\<close>

function b64_stream :: "string \<Rightarrow> string \<Rightarrow> string option" where
  "b64_stream buf raw =
     (if length buf < 4 \<and> raw \<noteq> [] then
        b64_stream (buf @ filter not_newline (take (1024 - length buf) raw))
                   (drop (1024 - length buf) raw)
      else if length buf < 4 then (if buf = [] then Some [] else None)
      else (case b64_quads (take (length buf div 4 * 4) buf) of
              None \<Rightarrow> None
            | Some out \<Rightarrow> map_option ((@) out) (b64_stream (drop (length buf div 4 * 4) buf) raw)))"
  by pat_completeness auto
termination
proof (relation "measures [\<lambda>(buf, raw). length raw, \<lambda>(buf, raw). length buf]", goal_cases)
  case (2 buf raw)
  then show ?case by (cases raw) simp_all
next
  case (3 buf raw out)
  then have "0 < length buf div 4 * 4" by simp
  then show ?case using 3 by auto
qed simp

declare b64_stream.simps [simp del]

definition b64_stream_decode :: "string \<Rightarrow> string option" where
  "b64_stream_decode s = b64_stream [] s"

text \<open>
  A decodable text whose first part is a whole number of quads, with more text after it, has
  no padding in that part: the two parts decode on their own.
\<close>

lemma b64_quads_append:
  assumes "b64_quads (a @ b) = Some t" and "length a mod 4 = 0" and "b \<noteq> []"
  shows "\<exists>u v. b64_quads a = Some u \<and> b64_quads b = Some v \<and> t = u @ v"
  using assms
proof (induction a arbitrary: t rule: b64_quads.induct)
  case 1
  then show ?case by simp
next
  case (2 p q r s rest)
  from 2(2,4) obtain i j k l where d: "b64_digit p = Some i" "b64_digit q = Some j"
    "b64_digit r = Some k" "b64_digit s = Some l"
    by (auto split: option.splits if_splits)
  with 2(2) obtain v where v: "b64_quads (rest @ b) = Some v" "t = quad_bytes i j k l @ v" by auto
  have "length rest mod 4 = 0" using 2(3) by simp
  with "2.IH" d v(1) 2(4) obtain u w where "b64_quads rest = Some u" "b64_quads b = Some w" "v = u @ w"
    by metis
  with d v(2) show ?case by simp
qed simp_all

lemma b64_quads_short: "b64_quads s = Some t \<Longrightarrow> length s < 4 \<Longrightarrow> s = [] \<and> t = []"
  by (cases s rule: b64_quads.cases) auto

lemma b64_stream_agrees:
  "b64_quads (buf @ filter not_newline raw) = Some t \<Longrightarrow> b64_stream buf raw = Some t"
proof (induction buf raw arbitrary: t rule: b64_stream.induct)
  case (1 buf raw)
  let ?n = "1024 - length buf" and ?k = "length buf div 4 * 4"
  consider (fill) "length buf < 4" "raw \<noteq> []" | (stop) "length buf < 4" "raw = []"
    | (decode) "\<not> length buf < 4"
    by blast
  then show ?case
  proof cases
    case fill
    have "filter not_newline raw = filter not_newline (take ?n raw) @ filter not_newline (drop ?n raw)"
      by (metis append_take_drop_id filter_append)
    with 1(1) 1(3) fill show ?thesis by (subst b64_stream.simps) simp
  next
    case stop
    with 1(3) b64_quads_short [of buf t] show ?thesis by (subst b64_stream.simps) simp
  next
    case decode
    let ?rest = "drop ?k buf @ filter not_newline raw"
    have "length (take ?k buf) = ?k" by (simp add: min_absorb2)
    then have len: "length (take ?k buf) mod 4 = 0" by (simp only: mod_mult_self2_is_0)
    have split: "buf @ filter not_newline raw = take ?k buf @ ?rest" by simp
    have "\<exists>u v. b64_quads (take ?k buf) = Some u \<and> b64_quads ?rest = Some v \<and> t = u @ v"
    proof (cases "?rest = []")
      case True
      then show ?thesis using 1(3) split by (metis append_Nil2 b64_quads.simps(1))
    next
      case False
      with b64_quads_append [OF _ len False] 1(3) split show ?thesis by metis
    qed
    then obtain u v where uv: "b64_quads (take ?k buf) = Some u" "b64_quads ?rest = Some v" "t = u @ v"
      by blast
    then have "b64_stream (drop ?k buf) raw = Some v" using 1(2) decode by blast
    with uv decode show ?thesis by (subst b64_stream.simps) simp
  qed
qed

lemma b64_stream_decode_agrees: "b64_decode s = Some t \<Longrightarrow> b64_stream_decode s = Some t"
  by (simp add: b64_decode_def b64_stream_decode_def b64_stream_agrees)

end
