(* ===== verification/Paths.thy ===== *)
theory Paths
  imports Go_Strings
begin

text \<open>
  Lexical paths: Go's \<open>filepath.Clean\<close>, \<open>IsAbs\<close> and \<open>Join\<close> on Unix, and the
  repository's \<open>ValidateRelativePath\<close> (internal/util/helpers.go), through which every file
  name of a request passes before it is used under a workspace directory.

  The interface \<open>path_checker\<close> states what the validators rely on: an accepted name has a
  normalised form made of ordinary segments only.
\<close>

section \<open>Splitting and joining\<close>

fun split_on :: "char \<Rightarrow> string \<Rightarrow> string list" where
  "split_on c [] = [[]]"
| "split_on c (x # xs) =
     (if x = c then [] # split_on c xs
      else (case split_on c xs of y # ys \<Rightarrow> (x # y) # ys | [] \<Rightarrow> [[x]]))"

fun join_with :: "char \<Rightarrow> string list \<Rightarrow> string" where
  "join_with c [] = []"
| "join_with c [x] = x"
| "join_with c (x # y # ys) = x @ c # join_with c (y # ys)"

lemma join_with_Cons: "join_with c (x # xs) = (if xs = [] then x else x @ c # join_with c xs)"
  by (cases xs) simp_all

lemma split_on_not_Nil [simp]: "split_on c s \<noteq> []"
  by (induction s) (auto split: list.splits)

lemma split_on_no_sep: "x \<in> set (split_on c s) \<Longrightarrow> c \<notin> set x"
proof (induction s arbitrary: x)
  case (Cons a s)
  then show ?case by (cases "split_on c s") (auto split: if_splits)
qed simp

lemma split_on_single: "c \<notin> set x \<Longrightarrow> split_on c x = [x]"
  by (induction x) auto

lemma split_on_append: "c \<notin> set x \<Longrightarrow> split_on c (x @ c # s) = x # split_on c s"
  by (induction x) auto

lemma split_on_append_gen: "split_on c (s @ c # t) = split_on c s @ split_on c t"
  by (induction s) (auto split: list.splits)

lemma split_on_join:
  "xs \<noteq> [] \<Longrightarrow> \<forall>x \<in> set xs. c \<notin> set x \<Longrightarrow> split_on c (join_with c xs) = xs"
  by (induction c xs rule: join_with.induct) (auto simp: split_on_single split_on_append)

lemma join_split_on: "join_with c (split_on c s) = s"
proof (induction s)
  case (Cons a s)
  then show ?case
    by (cases "split_on c s") (auto simp: join_with_Cons)
qed simp

section \<open>Lexical cleaning\<close>

abbreviation slash :: char where
  "slash \<equiv> CHR ''/''"

text \<open>
  The loop of \<open>filepath.Clean\<close> over the path's elements, with the elements kept so far in
  reverse: empty elements and \<open>.\<close> are dropped, \<open>..\<close> removes the last ordinary element, and
  with none to remove is kept in a relative path and dropped in a rooted one.
\<close>

fun clean_segs :: "bool \<Rightarrow> string list \<Rightarrow> string list \<Rightarrow> string list" where
  "clean_segs rooted st [] = rev st"
| "clean_segs rooted st (x # xs) =
     (if x = [] \<or> x = ''.'' then clean_segs rooted st xs
      else if x = ''..'' then
        (case st of
           [] \<Rightarrow> clean_segs rooted (if rooted then [] else [''..'']) xs
         | y # ys \<Rightarrow> clean_segs rooted (if y = ''..'' then ''..'' # st else ys) xs)
      else clean_segs rooted (x # st) xs)"

definition is_abs :: "string \<Rightarrow> bool" where
  "is_abs p = has_prefix p ''/''"

definition path_clean :: "string \<Rightarrow> string" where
  "path_clean p =
     (if p = [] then ''.''
      else let segs = clean_segs (is_abs p) [] (split_on slash p) in
        if is_abs p then slash # join_with slash segs
        else if segs = [] then ''.'' else join_with slash segs)"

definition path_join :: "string \<Rightarrow> string \<Rightarrow> string" where
  "path_join a b =
     (if a = [] then (if b = [] then [] else path_clean b)
      else if b = [] then path_clean a
      else path_clean (a @ slash # b))"

text \<open>An ordinary segment: it names an entry of the directory it is resolved in.\<close>

definition ordinary :: "string \<Rightarrow> bool" where
  "ordinary x \<longleftrightarrow> x \<noteq> [] \<and> x \<noteq> ''.'' \<and> x \<noteq> ''..'' \<and> slash \<notin> set x"

lemma ordinary_or_up: "ordinary x \<or> x = ''..'' \<Longrightarrow> x \<noteq> [] \<and> slash \<notin> set x"
  by (elim disjE) (simp_all add: ordinary_def)

lemma not_ordinary_up [simp]: "\<not> ordinary ''..''"
  by (simp add: ordinary_def)

lemma is_abs_simps [simp]: "is_abs [] = False" "is_abs (c # s) = (c = slash)"
  by (simp_all add: is_abs_def)

lemma clean_segs_ordinary:
  "\<forall>x \<in> set xs. ordinary x \<Longrightarrow> clean_segs rooted st (xs @ ys) = clean_segs rooted (rev xs @ st) ys"
  by (induction xs arbitrary: st) (auto simp: ordinary_def)

lemma clean_segs_ordinary_all:
  "\<forall>x \<in> set xs. ordinary x \<Longrightarrow> clean_segs rooted st xs = rev st @ xs"
  using clean_segs_ordinary [of xs rooted st "[]"] by simp

lemma clean_segs_elems:
  assumes "\<forall>x \<in> set xs. slash \<notin> set x" and "\<forall>x \<in> set st. ordinary x \<or> x = ''..'' \<and> \<not> rooted"
  shows "\<forall>x \<in> set (clean_segs rooted st xs). ordinary x \<or> x = ''..'' \<and> \<not> rooted"
  using assms
proof (induction rooted st xs rule: clean_segs.induct)
  case (2 rooted st x xs)
  consider (skip) "x = [] \<or> x = ''.''" | (up) "x = ''..''" | (down) "ordinary x"
    using "2.prems"(1) by (auto simp: ordinary_def)
  then show ?case
  proof cases
    case skip
    with 2(1) "2.prems" show ?thesis by auto
  next
    case up
    show ?thesis
    proof (cases st)
      case Nil
      with 2(2) "2.prems" up show ?thesis by (cases rooted) simp_all
    next
      case (Cons y ys)
      have "\<forall>x \<in> set (clean_segs rooted (if y = ''..'' then ''..'' # st else ys) xs).
          ordinary x \<or> x = ''..'' \<and> \<not> rooted"
      proof (rule 2(3) [OF _ _ Cons])
        show "\<forall>x \<in> set (if y = ''..'' then ''..'' # st else ys). ordinary x \<or> x = ''..'' \<and> \<not> rooted"
          using "2.prems"(2) Cons by auto
      qed (use "2.prems"(1) up in simp_all)
      then show ?thesis using Cons up by simp
    qed
  next
    case down
    then have "\<not> (x = [] \<or> x = ''.'')" "x \<noteq> ''..''" by (simp_all add: ordinary_def)
    with 2(4) "2.prems" down show ?thesis by simp
  qed
qed simp

lemma not_is_abs_join:
  assumes "\<forall>x \<in> set xs. x \<noteq> [] \<and> slash \<notin> set x"
  shows "\<not> is_abs (join_with slash xs)"
proof (cases xs)
  case (Cons x zs)
  then obtain c y where "x = c # y" "c \<noteq> slash" using assms by (cases x) auto
  then show ?thesis using Cons by (simp add: join_with_Cons)
qed simp

lemma path_clean_abs: "is_abs (path_clean p) \<longleftrightarrow> is_abs p"
proof (cases "p = [] \<or> is_abs p")
  case True
  then show ?thesis by (auto simp: path_clean_def)
next
  case False
  let ?segs = "clean_segs False [] (split_on slash p)"
  have *: "\<forall>x \<in> set ?segs. ordinary x \<or> x = ''..''"
    using clean_segs_elems [of "split_on slash p" "[]" False] split_on_no_sep by auto
  then have "\<not> is_abs (join_with slash ?segs)"
    using ordinary_or_up by (intro not_is_abs_join ballI) blast
  then show ?thesis using False by (auto simp: path_clean_def Let_def)
qed

section \<open>The repository's check\<close>

datatype path_error = InvalidPath string

definition ValidateRelativePath :: "string \<Rightarrow> path_error + string" where
  "ValidateRelativePath name =
     (let clean = path_clean (trim_space name) in
      if clean = [] \<or> clean = ''.'' \<or> is_abs clean then Inl (InvalidPath name)
      else if ''..'' \<in> set (split_on slash clean) then Inl (InvalidPath name)
      else Inr clean)"

lemma ValidateRelativePath_segments:
  assumes "ValidateRelativePath name = Inr clean"
  shows "\<exists>segs. segs \<noteq> [] \<and> (\<forall>x \<in> set segs. ordinary x) \<and> clean = join_with slash segs"
proof -
  let ?p = "trim_space name"
  let ?segs = "clean_segs False [] (split_on slash ?p)"
  from assms have c: "clean = path_clean ?p" "clean \<noteq> ''.''" "\<not> is_abs clean"
    "''..'' \<notin> set (split_on slash clean)"
    by (auto simp: ValidateRelativePath_def Let_def split: if_splits)
  then have "\<not> is_abs ?p" by (simp add: path_clean_abs)
  with c have clean: "clean = join_with slash ?segs" "?segs \<noteq> []"
    by (auto simp: path_clean_def Let_def split: if_splits)
  have *: "\<forall>x \<in> set ?segs. ordinary x \<or> x = ''..''"
    using clean_segs_elems [of "split_on slash ?p" "[]" False] split_on_no_sep by auto
  then have "\<forall>x \<in> set ?segs. slash \<notin> set x" using ordinary_or_up by blast
  then have "split_on slash clean = ?segs" using clean split_on_join by blast
  with c(4) have "''..'' \<notin> set ?segs" by simp
  with * have "\<forall>x \<in> set ?segs. ordinary x" by metis
  with clean show ?thesis by (intro exI [of _ ?segs]) simp
qed

lemma ordinary_join_facts:
  assumes "segs \<noteq> []" and "\<forall>x \<in> set segs. ordinary x"
  shows "join_with slash segs \<noteq> []" and "\<not> is_abs (join_with slash segs)"
    and "split_on slash (join_with slash segs) = segs"
    and "path_clean (join_with slash segs) = join_with slash segs"
proof -
  show ne: "join_with slash segs \<noteq> []"
    using assms by (cases segs) (auto simp: ordinary_def join_with_Cons)
  show abs: "\<not> is_abs (join_with slash segs)"
    using assms by (intro not_is_abs_join) (auto simp: ordinary_def)
  show sp: "split_on slash (join_with slash segs) = segs"
    using assms by (intro split_on_join) (auto simp: ordinary_def)
  show "path_clean (join_with slash segs) = join_with slash segs"
    using assms ne abs sp by (simp add: path_clean_def clean_segs_ordinary_all)
qed

text \<open>A cleaned absolute directory, as the roots are under which files are written.\<close>

definition clean_root :: "string \<Rightarrow> bool" where
  "clean_root r \<longleftrightarrow> is_abs r \<and> path_clean r = r"

lemma clean_root_segments:
  assumes "clean_root r"
  shows "\<exists>rs. (\<forall>x \<in> set rs. ordinary x) \<and> r = slash # join_with slash rs"
proof -
  let ?rs = "clean_segs True [] (split_on slash r)"
  from assms have "r \<noteq> []" "is_abs r" "path_clean r = r" by (auto simp: clean_root_def)
  then have "r = slash # join_with slash ?rs" by (simp add: path_clean_def Let_def)
  moreover have "\<forall>x \<in> set ?rs. ordinary x"
    using clean_segs_elems [of "split_on slash r" "[]" True] split_on_no_sep by auto
  ultimately show ?thesis by blast
qed

text \<open>
  Joining a root with a path made of ordinary segments stays below the root: the result is
  the root followed by the path, with nothing of the root removed.
\<close>

lemma path_join_ordinary:
  assumes "clean_root r" and "segs \<noteq> []" and "\<forall>x \<in> set segs. ordinary x"
  shows "path_join r (join_with slash segs)
       = (if r = ''/'' then r else r @ ''/'') @ join_with slash segs"
proof -
  obtain rs where rs: "\<forall>x \<in> set rs. ordinary x" and r: "r = slash # join_with slash rs"
    using clean_root_segments [OF assms(1)] by blast
  let ?j = "join_with slash segs"
  have jn: "join_with slash (rs @ segs) = (if rs = [] then ?j else join_with slash rs @ slash # ?j)"
    using assms(2) by (induction rs) (auto simp: join_with_Cons)
  have sp: "split_on slash (r @ slash # ?j) = [] # (if rs = [] then [[]] else rs) @ segs"
  proof (cases "rs = []")
    case True
    then show ?thesis using ordinary_join_facts(3) [OF assms(2,3)] r by simp
  next
    case False
    then have "split_on slash (join_with slash rs) = rs" using rs ordinary_join_facts(3) by blast
    then show ?thesis
      using ordinary_join_facts(3) [OF assms(2,3)] r False by (simp add: split_on_append_gen)
  qed
  have "clean_segs True [] (split_on slash (r @ slash # ?j)) = rs @ segs"
  proof -
    have "\<forall>x \<in> set (rs @ segs). ordinary x" using rs assms(3) by auto
    then have "clean_segs True [] (rs @ segs) = rs @ segs"
      using clean_segs_ordinary_all [of "rs @ segs" True "[]"] by simp
    then show ?thesis by (cases "rs = []") (simp_all add: sp)
  qed
  moreover have "r = ''/'' \<longleftrightarrow> rs = []"
    using r rs ordinary_join_facts(1) [of rs] by auto
  ultimately show ?thesis
    using r ordinary_join_facts(1) [OF assms(2,3)]
    by (simp add: path_join_def path_clean_def Let_def jn)
qed

section \<open>The interface the validators use\<close>

locale path_checker =
  fixes check :: "string \<Rightarrow> 'e + string"
  assumes accepted_ordinary:
    "check name = Inr clean \<Longrightarrow>
       \<exists>segs. segs \<noteq> [] \<and> (\<forall>x \<in> set segs. ordinary x) \<and> clean = join_with slash segs"
begin

lemma accepted_not_empty: "check name = Inr clean \<Longrightarrow> clean \<noteq> []"
  using accepted_ordinary [of name clean] ordinary_join_facts(1) by auto

lemma accepted_relative: "check name = Inr clean \<Longrightarrow> \<not> is_abs clean"
  using accepted_ordinary [of name clean] ordinary_join_facts(2) by auto

lemma accepted_no_dotdot: "check name = Inr clean \<Longrightarrow> ''..'' \<notin> set (split_on slash clean)"
proof
  assume "check name = Inr clean" and d: "''..'' \<in> set (split_on slash clean)"
  then obtain segs where "segs \<noteq> []" "\<forall>x \<in> set segs. ordinary x" "clean = join_with slash segs"
    using accepted_ordinary by blast
  with d ordinary_join_facts(3) show False by (auto simp: ordinary_def)
qed

lemma accepted_clean: "check name = Inr clean \<Longrightarrow> path_clean clean = clean"
  using accepted_ordinary [of name clean] ordinary_join_facts(4) by auto

lemma accepted_contained:
  assumes "clean_root r" and "check name = Inr clean"
  shows "path_join r clean = (if r = ''/'' then r else r @ ''/'') @ clean"
proof -
  obtain segs where "segs \<noteq> []" "\<forall>x \<in> set segs. ordinary x" "clean = join_with slash segs"
    using accepted_ordinary [OF assms(2)] by blast
  with path_join_ordinary [OF assms(1)] show ?thesis by simp
qed

text \<open>Two accepted names with different normal forms are written to different files.\<close>

lemma accepted_distinct:
  assumes "clean_root r" and "check n1 = Inr c1" and "check n2 = Inr c2" and "c1 \<noteq> c2"
  shows "path_join r c1 \<noteq> path_join r c2"
  using assms by (simp add: accepted_contained)

end

interpretation rel: path_checker ValidateRelativePath
  by unfold_locales (rule ValidateRelativePath_segments)

end
