(* ===== verification/Profiles.thy ===== *)
theory Profiles
  imports Go_Strings
begin

text \<open>
  internal/profiles/profiles.go: the table of language profiles and the two ways a request names
  a language. \<open>Resolve\<close> finds the profile of a compile language; \<open>NormalizeRunLang\<close> maps any
  accepted spelling of a run language to the name of its runtime. The table is split in two
  lists for size; its keys are distinct, so the order of a lookup does not matter.
\<close>

record Profile =
  pf_SourceLang :: string
  pf_Extension :: string
  pf_DefaultTarget :: string
  pf_CompileKind :: string
  pf_CompileStd :: string
  pf_JavaRelease :: string
  pf_RustEdition :: string
  pf_RunLang :: string
  pf_TimeMultiplier :: int
  pf_TimeOffsetMs :: int
  pf_MemoryMultiplier :: int
  pf_MemoryOffsetMB :: int

text \<open>A composite literal of the table, with the fields in the struct's order.\<close>

definition profile ::
  "string \<Rightarrow> string \<Rightarrow> string \<Rightarrow> string \<Rightarrow> string \<Rightarrow> string \<Rightarrow> string \<Rightarrow> string \<Rightarrow>
   int \<Rightarrow> int \<Rightarrow> int \<Rightarrow> int \<Rightarrow> Profile" where
  "profile sl ext tgt kind std jr re rl tm toff mm moff =
     \<lparr>pf_SourceLang = sl, pf_Extension = ext, pf_DefaultTarget = tgt, pf_CompileKind = kind,
      pf_CompileStd = std, pf_JavaRelease = jr, pf_RustEdition = re, pf_RunLang = rl,
      pf_TimeMultiplier = tm, pf_TimeOffsetMs = toff, pf_MemoryMultiplier = mm,
      pf_MemoryOffsetMB = moff\<rparr>"

definition profiles_a :: "(string \<times> Profile) list" where
  "profiles_a = [
    (''ENTRY'', profile ''ENTRY'' ''entry.json'' ''Main.entry.json'' ''entry'' [] [] [] ''entry'' 1 1000 1 64),
    (''C'', profile ''C'' ''c'' ''Main'' ''c'' ''c11'' [] [] ''binary'' 1 0 1 0),
    (''C89'', profile ''C89'' ''c'' ''Main'' ''c'' ''c90'' [] [] ''binary'' 1 0 1 0),
    (''C99'', profile ''C99'' ''c'' ''Main'' ''c'' ''c99'' [] [] ''binary'' 1 0 1 0),
    (''C11'', profile ''C11'' ''c'' ''Main'' ''c'' ''c11'' [] [] ''binary'' 1 0 1 0),
    (''C17'', profile ''C17'' ''c'' ''Main'' ''c'' ''c17'' [] [] ''binary'' 1 0 1 0),
    (''C18'', profile ''C18'' ''c'' ''Main'' ''c'' ''c17'' [] [] ''binary'' 1 0 1 0),
    (''C23'', profile ''C23'' ''c'' ''Main'' ''c'' ''c23'' [] [] ''binary'' 1 0 1 0),
    (''CPP'', profile ''CPP'' ''cpp'' ''Main'' ''cpp'' ''c++17'' [] [] ''binary'' 1 0 1 0),
    (''CPP98'', profile ''CPP98'' ''cpp'' ''Main'' ''cpp'' ''c++03'' [] [] ''binary'' 1 0 1 0),
    (''CPP03'', profile ''CPP03'' ''cpp'' ''Main'' ''cpp'' ''c++03'' [] [] ''binary'' 1 0 1 0),
    (''CPP11'', profile ''CPP11'' ''cpp'' ''Main'' ''cpp'' ''c++11'' [] [] ''binary'' 1 0 1 0),
    (''CPP14'', profile ''CPP14'' ''cpp'' ''Main'' ''cpp'' ''c++14'' [] [] ''binary'' 1 0 1 0),
    (''CPP17'', profile ''CPP17'' ''cpp'' ''Main'' ''cpp'' ''c++17'' [] [] ''binary'' 1 0 1 0),
    (''CPP20'', profile ''CPP20'' ''cpp'' ''Main'' ''cpp'' ''c++20'' [] [] ''binary'' 1 0 1 0),
    (''CPP23'', profile ''CPP23'' ''cpp'' ''Main'' ''cpp'' ''c++23'' [] [] ''binary'' 1 0 1 0),
    (''CPP26'', profile ''CPP26'' ''cpp'' ''Main'' ''cpp'' ''c++26'' [] [] ''binary'' 1 0 1 0),
    (''RUST'', profile ''RUST'' ''rs'' ''Main'' ''rust'' [] [] ''2018'' ''binary'' 1 0 1 16),
    (''RUST2015'', profile ''RUST2015'' ''rs'' ''Main'' ''rust'' [] [] ''2015'' ''binary'' 1 0 1 16),
    (''RUST2018'', profile ''RUST2018'' ''rs'' ''Main'' ''rust'' [] [] ''2018'' ''binary'' 1 0 1 16),
    (''RUST2021'', profile ''RUST2021'' ''rs'' ''Main'' ''rust'' [] [] ''2021'' ''binary'' 1 0 1 16),
    (''RUST2024'', profile ''RUST2024'' ''rs'' ''Main'' ''rust'' [] [] ''2024'' ''binary'' 1 0 1 16),
    (''MOONBIT'', profile ''MOONBIT'' ''mbt'' ''Main'' ''moonbit'' [] [] [] ''binary'' 2 1000 1 256),
    (''FENNEL'', profile ''FENNEL'' ''fnl'' ''Main.lua'' ''fennel'' [] [] [] ''lua'' 1 500 1 512),
    (''CHAPEL'', profile ''CHAPEL'' ''chpl'' ''Main'' ''chapel'' [] [] [] ''chapel-binary'' 1 1000 1 256),
    (''ALGOL68'', profile ''ALGOL68'' ''a68'' [] ''algol68'' [] [] [] ''algol68'' 2 1000 1 256),
    (''KOKA'', profile ''KOKA'' ''kk'' ''Main'' ''koka'' [] [] [] ''binary'' 1 1000 1 256),
    (''PONY'', profile ''PONY'' ''pony'' ''Main'' ''pony'' [] [] [] ''pony-binary'' 1 1000 1 256),
    (''SHELL'', profile ''SHELL'' ''sh'' ''Main.sh'' ''shell'' [] [] [] ''bash'' 1 0 1 64),
    (''BASH'', profile ''BASH'' ''sh'' ''Main.sh'' ''shell'' [] [] [] ''bash'' 1 0 1 64),
    (''POSIX_SH'', profile ''POSIX_SH'' ''sh'' ''Main.sh'' ''shell'' [] [] [] ''posix-sh'' 1 0 1 64),
    (''ZSH'', profile ''ZSH'' ''zsh'' ''Main.zsh'' ''shell'' [] [] [] ''zsh'' 1 0 1 64),
    (''FISH'', profile ''FISH'' ''fish'' ''Main.fish'' ''shell'' [] [] [] ''fish'' 1 0 1 64),
    (''POWERSHELL'', profile ''POWERSHELL'' ''ps1'' ''Main.ps1'' ''powershell'' [] [] [] ''powershell'' 2 1000 2 1024),
    (''ZEROLANG'', profile ''ZEROLANG'' ''0'' ''Main'' ''zerolang'' [] [] [] ''binary'' 1 0 1 16),
    (''GO'', profile ''GO'' ''go'' ''Main'' ''go'' [] [] [] ''go-binary'' 1 2000 1 1088),
    (''ZIG'', profile ''ZIG'' ''zig'' ''Main'' ''zig'' [] [] [] ''binary'' 1 1000 1 128),
    (''JAVA'', profile ''JAVA'' ''java'' [] ''java'' [] ''11'' [] ''java'' 2 1000 2 1280),
    (''JAVA8'', profile ''JAVA8'' ''java'' [] ''java'' [] ''8'' [] ''java'' 2 1000 2 1280),
    (''JAVA11'', profile ''JAVA11'' ''java'' [] ''java'' [] ''11'' [] ''java'' 2 1000 2 1280),
    (''JAVA15'', profile ''JAVA15'' ''java'' [] ''java'' [] ''15'' [] ''java'' 2 1000 2 1280),
    (''JAVA17'', profile ''JAVA17'' ''java'' [] ''java'' [] ''17'' [] ''java'' 2 1000 2 1280),
    (''JAVA21'', profile ''JAVA21'' ''java'' [] ''java'' [] ''21'' [] ''java'' 2 1000 2 1280),
    (''GROOVY'', profile ''GROOVY'' ''groovy'' [] ''groovy'' [] [] [] ''groovy'' 2 1000 2 1024),
    (''KOTLIN'', profile ''KOTLIN'' ''kt'' ''Main'' ''kotlin'' [] [] [] ''binary'' 1 0 1 16),
    (''ASM'', profile ''ASM'' ''s'' ''Main'' ''asm'' [] [] [] ''binary'' 1 1000 1 64),
    (''AHEUI'', profile ''AHEUI'' ''aheui'' [] ''none'' [] [] [] ''aheui'' 3 1000 1 64),
    (''NASM'', profile ''NASM'' ''asm'' ''Main'' ''nasm'' [] [] [] ''binary'' 1 1000 1 64),
    (''PASCAL'', profile ''PASCAL'' ''pas'' ''Main'' ''pascal'' [] [] [] ''binary'' 1 1000 1 64),
    (''DELPHI'', profile ''DELPHI'' ''dpr'' ''Main'' ''delphi'' [] [] [] ''binary'' 1 1000 1 64),
    (''OBJECTPASCAL'', profile ''OBJECTPASCAL'' ''pas'' ''Main'' ''objectpascal'' [] [] [] ''binary'' 1 1000 1 64),
    (''NIM'', profile ''NIM'' ''nim'' ''Main'' ''nim'' [] [] [] ''binary'' 1 1000 1 128),
    (''CLOJURE'', profile ''CLOJURE'' ''clj'' [] ''clojure'' [] [] [] ''clojure'' 3 1000 2 1024),
    (''RACKET'', profile ''RACKET'' ''rkt'' [] ''racket'' [] [] [] ''racket'' 2 1000 1 512),
    (''SCHEME'', profile ''SCHEME'' ''scm'' [] ''scheme'' [] [] [] ''scheme'' 2 1000 1 256),
    (''CHEZ_SCHEME'', profile ''CHEZ_SCHEME'' ''scm'' [] ''chez-scheme'' [] [] [] ''chez-scheme'' 2 1000 1 256),
    (''GUILE'', profile ''GUILE'' ''scm'' [] ''guile'' [] [] [] ''guile'' 2 1000 1 256),
    (''AWK'', profile ''AWK'' ''awk'' [] ''awk'' [] [] [] ''awk'' 2 1000 1 128),
    (''TCL'', profile ''TCL'' ''tcl'' [] ''tcl'' [] [] [] ''tcl'' 2 1000 1 256),
    (''GDL'', profile ''GDL'' ''pro'' [] ''gdl'' [] [] [] ''gdl'' 3 1000 2 1024),
    (''OCTAVE'', profile ''OCTAVE'' ''m'' [] ''octave'' [] [] [] ''octave'' 3 2000 2 1024),
    (''ADA'', profile ''ADA'' ''adb'' ''Main'' ''ada'' [] [] [] ''binary'' 1 1000 1 128),
    (''ADA2012'', profile ''ADA2012'' ''adb'' ''Main'' ''ada'' ''-gnat2012'' [] [] ''binary'' 1 1000 1 128),
    (''ADA2022'', profile ''ADA2022'' ''adb'' ''Main'' ''ada'' ''-gnat2022'' [] [] ''binary'' 1 1000 1 128),
    (''COBOL'', profile ''COBOL'' ''cob'' ''Main'' ''cobol'' [] [] [] ''binary'' 1 1000 1 128),
    (''GNUCOBOL'', profile ''GNUCOBOL'' ''cob'' ''Main'' ''cobol'' [] [] [] ''binary'' 1 1000 1 128),
    (''CYTHON'', profile ''CYTHON'' ''pyx'' ''Main'' ''cython'' [] [] [] ''binary'' 2 1000 1 256),
    (''DART'', profile ''DART'' ''dart'' ''Main'' ''dart'' [] [] [] ''binary'' 2 1000 1 256),
    (''FORTRAN'', profile ''FORTRAN'' ''f90'' ''Main'' ''fortran'' [] [] [] ''binary'' 1 1000 1 128),
    (''FORTRAN95'', profile ''FORTRAN95'' ''f90'' ''Main'' ''fortran'' ''f95'' [] [] ''binary'' 1 1000 1 128),
    (''FORTRAN2003'', profile ''FORTRAN2003'' ''f90'' ''Main'' ''fortran'' ''f2003'' [] [] ''binary'' 1 1000 1 128),
    (''FORTRAN2008'', profile ''FORTRAN2008'' ''f90'' ''Main'' ''fortran'' ''f2008'' [] [] ''binary'' 1 1000 1 128),
    (''FORTRAN2018'', profile ''FORTRAN2018'' ''f90'' ''Main'' ''fortran'' ''f2018'' [] [] ''binary'' 1 1000 1 128),
    (''D'', profile ''D'' ''d'' ''Main'' ''d'' [] [] [] ''binary'' 1 1000 1 128),
    (''OBJC'', profile ''OBJC'' ''m'' ''Main'' ''objective-c'' [] [] [] ''binary'' 1 1000 1 128),
    (''OBJECTIVE_C'', profile ''OBJECTIVE_C'' ''m'' ''Main'' ''objective-c'' [] [] [] ''binary'' 1 1000 1 128),
    (''OBJCPP'', profile ''OBJCPP'' ''mm'' ''Main'' ''objective-cpp'' [] [] [] ''binary'' 1 1000 1 128),
    (''OBJECTIVE_CPP'', profile ''OBJECTIVE_CPP'' ''mm'' ''Main'' ''objective-cpp'' [] [] [] ''binary'' 1 1000 1 128),
    (''VHDL'', profile ''VHDL'' ''vhd'' ''main_tb'' ''vhdl'' [] [] [] ''vhdl'' 2 1000 1 512),
    (''VERILOG'', profile ''VERILOG'' ''v'' ''Main.vvp'' ''verilog'' [] [] [] ''verilog'' 2 1000 1 512),
    (''SYSTEMVERILOG'', profile ''SYSTEMVERILOG'' ''sv'' ''Main.vvp'' ''verilog'' [] [] [] ''verilog'' 2 1000 1 512),
    (''CRYSTAL'', profile ''CRYSTAL'' ''cr'' ''Main'' ''crystal'' [] [] [] ''binary'' 2 1000 1 256),
    (''VALA'', profile ''VALA'' ''vala'' ''Main'' ''vala'' [] [] [] ''binary'' 1 1000 1 256),
    (''VLANG'', profile ''VLANG'' ''v'' ''Main'' ''vlang'' [] [] [] ''binary'' 1 1000 1 128),
    (''ODIN'', profile ''ODIN'' ''odin'' ''Main'' ''odin'' [] [] [] ''binary'' 1 1000 1 128),
    (''C3'', profile ''C3'' ''c3'' ''Main'' ''c3'' [] [] [] ''c3'' 1 1000 1 128),
    (''HARE'', profile ''HARE'' ''ha'' ''Main'' ''hare'' [] [] [] ''binary'' 1 1000 1 128),
    (''VBNET'', profile ''VBNET'' ''vb'' [] ''vbnet'' [] [] [] ''vbnet'' 2 1000 2 16),
    (''VB'', profile ''VB'' ''vb'' [] ''vbnet'' [] [] [] ''vbnet'' 2 1000 2 16),
    (''GLEAM'', profile ''GLEAM'' ''gleam'' [] ''gleam'' [] [] [] ''gleam'' 3 2000 2 1024),
    (''CUDA_OCELOT'', profile ''CUDA_OCELOT'' ''cu'' ''Main'' ''cuda-ocelot'' [] [] [] ''cuda-ocelot'' 3 2000 2 1024),
    (''CARBON'', profile ''CARBON'' ''carbon'' ''Main'' ''carbon'' [] [] [] ''binary'' 2 1000 1 256),
    (''GRAPHQL'', profile ''GRAPHQL'' ''graphql'' [] ''graphql'' [] [] [] ''graphql'' 1 1000 1 128),
    (''ROCQ'', profile ''ROCQ'' ''v'' [] ''rocq'' [] [] [] ''rocq'' 2 1000 2 1024),
    (''COQ'', profile ''COQ'' ''v'' [] ''rocq'' [] [] [] ''rocq'' 2 1000 2 1024),
    (''LEAN4'', profile ''LEAN4'' ''lean'' [] ''lean4'' [] [] [] ''lean4'' 2 1000 2 1024),
    (''LEAN'', profile ''LEAN'' ''lean'' [] ''lean4'' [] [] [] ''lean4'' 2 1000 2 1024),
    (''AGDA'', profile ''AGDA'' ''agda'' [] ''agda'' [] [] [] ''agda'' 3 2000 2 1536),
    (''DAFNY'', profile ''DAFNY'' ''dfy'' [] ''dafny'' [] [] [] ''dafny'' 3 1000 2 1024),
    (''TLA'', profile ''TLA'' ''tla'' [] ''tla'' [] [] [] ''tla'' 3 1000 2 1024)]"

definition profiles_b :: "(string \<times> Profile) list" where
  "profiles_b = [
    (''TLAPLUS'', profile ''TLAPLUS'' ''tla'' [] ''tla'' [] [] [] ''tla'' 3 1000 2 1024),
    (''WHY3'', profile ''WHY3'' ''mlw'' [] ''why3'' [] [] [] ''why3'' 3 1000 2 1024),
    (''WHYML'', profile ''WHYML'' ''mlw'' [] ''why3'' [] [] [] ''why3'' 3 1000 2 1024),
    (''ISABELLE'', profile ''ISABELLE'' ''thy'' [] ''isabelle'' [] [] [] ''isabelle'' 4 3000 3 2048),
    (''FSTAR'', profile ''FSTAR'' ''fst'' [] ''fstar'' [] [] [] ''fstar'' 3 2000 2 1536),
    (''ALLOY'', profile ''ALLOY'' ''als'' [] ''alloy'' [] [] [] ''alloy'' 3 1000 2 1024),
    (''ACL2'', profile ''ACL2'' ''lisp'' [] ''acl2'' [] [] [] ''acl2'' 3 1000 2 1536),
    (''KFRAMEWORK'', profile ''KFRAMEWORK'' ''k'' [] ''kframework'' [] [] [] ''kframework'' 4 3000 3 2048),
    (''HASKELL'', profile ''HASKELL'' ''hs'' ''Main'' ''haskell'' [] [] [] ''binary'' 1 0 1 128),
    (''IDRIS2'', profile ''IDRIS2'' ''idr'' ''Main'' ''idris2'' [] [] [] ''binary'' 3 2000 2 1024),
    (''SML'', profile ''SML'' ''sml'' ''Main'' ''sml'' [] [] [] ''binary'' 2 1000 1 256),
    (''MLTON'', profile ''MLTON'' ''sml'' ''Main'' ''sml'' [] [] [] ''binary'' 2 1000 1 256),
    (''SMLNJ'', profile ''SMLNJ'' ''sml'' [] ''smlnj'' [] [] [] ''smlnj'' 2 1000 1 256),
    (''HAXE'', profile ''HAXE'' ''hx'' ''Main.n'' ''haxe'' [] [] [] ''haxe'' 2 1000 1 512),
    (''LISP'', profile ''LISP'' ''lisp'' [] ''lisp'' [] [] [] ''lisp'' 2 1000 1 512),
    (''PICOLISP'', profile ''PICOLISP'' ''l'' [] ''picolisp'' [] [] [] ''picolisp'' 2 1000 1 256),
    (''SWIFT'', profile ''SWIFT'' ''swift'' ''Main'' ''swift'' [] [] [] ''binary'' 2 1000 1 256),
    (''SQLITE'', profile ''SQLITE'' ''sql'' [] ''sqlite'' [] [] [] ''sqlite'' 1 0 1 64),
    (''JULIA'', profile ''JULIA'' ''jl'' [] ''julia'' [] [] [] ''julia'' 3 2000 2 1024),
    (''RAKU'', profile ''RAKU'' ''raku'' [] ''raku'' [] [] [] ''raku'' 3 1000 2 1024),
    (''ERLANG'', profile ''ERLANG'' ''erl'' [] ''erlang'' [] [] [] ''erlang'' 2 1000 2 1024),
    (''MERCURY'', profile ''MERCURY'' ''m'' ''Main'' ''mercury'' [] [] [] ''binary'' 3 2000 2 1024),
    (''PROLOG'', profile ''PROLOG'' ''pl'' [] ''prolog'' [] [] [] ''prolog'' 2 1000 1 512),
    (''GNU_PROLOG'', profile ''GNU_PROLOG'' ''pl'' ''Main'' ''gnu-prolog'' [] [] [] ''binary'' 1 1000 1 128),
    (''SCALA'', profile ''SCALA'' ''scala'' [] ''scala'' [] [] [] ''scala'' 2 1000 2 1024),
    (''FSHARP'', profile ''FSHARP'' ''fs'' [] ''fsharp'' [] [] [] ''fsharp'' 2 1000 2 1024),
    (''WHITESPACE'', profile ''WHITESPACE'' ''ws'' [] ''whitespace'' [] [] [] ''whitespace'' 3 1000 1 64),
    (''BEFUNGE'', profile ''BEFUNGE'' ''bef'' [] ''befunge'' [] [] [] ''befunge'' 4 1000 1 128),
    (''BF'', profile ''BF'' ''bf'' [] ''brainfuck'' [] [] [] ''brainfuck'' 3 1000 1 64),
    (''MALBOLGE'', profile ''MALBOLGE'' ''mal'' [] ''malbolge'' [] [] [] ''malbolge'' 5 1000 1 64),
    (''LOLCODE'', profile ''LOLCODE'' ''lol'' [] ''lolcode'' [] [] [] ''lolcode'' 3 1000 1 128),
    (''SHAKESPEARE'', profile ''SHAKESPEARE'' ''spl'' [] ''shakespeare'' [] [] [] ''shakespeare'' 5 2000 1 128),
    (''PIET'', profile ''PIET'' ''png'' [] ''piet'' [] [] [] ''piet'' 2 1000 1 64),
    (''UNLAMBDA'', profile ''UNLAMBDA'' ''unl'' [] ''unlambda'' [] [] [] ''unlambda'' 5 1000 1 128),
    (''LAZYK'', profile ''LAZYK'' ''lazy'' [] ''lazyk'' [] [] [] ''lazyk'' 2 1000 1 128),
    (''INTERCAL'', profile ''INTERCAL'' ''i'' ''Main'' ''intercal'' [] [] [] ''binary'' 2 1000 1 64),
    (''APECODE'', profile ''APECODE'' ''ape'' ''Main'' ''apecode'' [] [] [] ''binary'' 3 1000 1 64),
    (''WASM'', profile ''WASM'' ''wat'' ''Main.wasm'' ''wasm'' [] [] [] ''wasm'' 2 1000 1 128),
    (''ASSEMBLYSCRIPT'', profile ''ASSEMBLYSCRIPT'' ''ts'' ''Main.wasm'' ''assemblyscript'' [] [] [] ''assemblyscript'' 2 1000 1 128),
    (''FACTOR'', profile ''FACTOR'' ''factor'' [] ''factor'' [] [] [] ''factor'' 2 1000 1 512),
    (''OCAML'', profile ''OCAML'' ''ml'' ''Main'' ''ocaml'' [] [] [] ''ocaml'' 1 0 1 64),
    (''ELIXIR'', profile ''ELIXIR'' ''exs'' [] ''elixir'' [] [] [] ''elixir'' 3 2000 2 1536),
    (''COFFEESCRIPT'', profile ''COFFEESCRIPT'' ''coffee'' ''Main.js'' ''coffeescript'' [] [] [] ''javascript'' 3 2000 2 1024),
    (''RESCRIPT'', profile ''RESCRIPT'' ''res'' ''Main.js'' ''rescript'' [] [] [] ''javascript'' 3 2000 2 1024),
    (''PURESCRIPT'', profile ''PURESCRIPT'' ''purs'' ''Main.js'' ''purescript'' [] [] [] ''javascript'' 4 3000 3 1536),
    (''CSHARP'', profile ''CSHARP'' ''cs'' [] ''csharp'' [] [] [] ''csharp'' 2 1000 2 16),
    (''R'', profile ''R'' ''R'' [] ''r'' [] [] [] ''r'' 3 2000 2 1024),
    (''PYTHON3'', profile ''PYTHON3'' ''py'' [] ''python'' [] [] [] ''python'' 3 2000 2 32),
    (''PYPY3'', profile ''PYPY3'' ''py'' [] ''pypy'' [] [] [] ''pypy'' 3 2000 2 128),
    (''JAVASCRIPT'', profile ''JAVASCRIPT'' ''js'' [] ''javascript'' [] [] [] ''javascript'' 3 2000 2 1024),
    (''TYPESCRIPT'', profile ''TYPESCRIPT'' ''ts'' [] ''typescript'' [] [] [] ''javascript'' 3 2000 2 1024),
    (''ELM'', profile ''ELM'' ''elm'' ''Main.js'' ''elm'' [] [] [] ''javascript'' 3 2000 2 1024),
    (''RUBY'', profile ''RUBY'' ''rb'' [] ''ruby'' [] [] [] ''ruby'' 2 1000 1 512),
    (''PHP'', profile ''PHP'' ''php'' [] ''php'' [] [] [] ''php'' 1 0 1 512),
    (''PHP7'', profile ''PHP7'' ''php'' [] ''php'' [] [] [] ''php'' 1 0 1 512),
    (''PHP8'', profile ''PHP8'' ''php'' [] ''php'' [] [] [] ''php'' 1 0 1 512),
    (''LUA'', profile ''LUA'' ''lua'' [] ''lua'' [] [] [] ''lua'' 1 0 1 512),
    (''LUA54'', profile ''LUA54'' ''lua'' [] ''lua'' [] [] [] ''lua'' 1 0 1 512),
    (''LUAJIT'', profile ''LUAJIT'' ''lua'' [] ''luajit'' [] [] [] ''luajit'' 1 0 1 512),
    (''PERL'', profile ''PERL'' ''pl'' [] ''perl'' [] [] [] ''perl'' 1 0 1 512),
    (''VB6'', profile ''VB6'' ''bas'' [] ''vb6'' [] [] [] ''vb6'' 3 1000 2 1024),
    (''FREEBASIC'', profile ''FREEBASIC'' ''bas'' ''Main'' ''freebasic'' [] [] [] ''binary'' 1 1000 1 128),
    (''CLASSIC_BASIC'', profile ''CLASSIC_BASIC'' ''bas'' ''Main'' ''classic-basic'' [] [] [] ''binary'' 1 1000 1 128),
    (''QBASIC'', profile ''QBASIC'' ''bas'' ''Main'' ''classic-basic'' [] [] [] ''binary'' 1 1000 1 128),
    (''SMALLTALK'', profile ''SMALLTALK'' ''st'' [] ''smalltalk'' [] [] [] ''smalltalk'' 2 1000 1 512),
    (''GST'', profile ''GST'' ''st'' [] ''smalltalk'' [] [] [] ''smalltalk'' 2 1000 1 512),
    (''GOLFSCRIPT'', profile ''GOLFSCRIPT'' ''gs'' [] ''golfscript'' [] [] [] ''golfscript'' 3 1000 1 512),
    (''MOJO'', profile ''MOJO'' ''mojo'' ''Main'' ''mojo'' [] [] [] ''mojo-binary'' 2 1000 1 512),
    (''DENO'', profile ''DENO'' ''ts'' [] ''deno'' [] [] [] ''deno'' 3 2000 2 1024),
    (''JAVASCRIPT_DENO'', profile ''JAVASCRIPT_DENO'' ''js'' [] ''deno'' [] [] [] ''deno'' 3 2000 2 1024),
    (''TYPESCRIPT_DENO'', profile ''TYPESCRIPT_DENO'' ''ts'' [] ''deno'' [] [] [] ''deno'' 3 2000 2 1024),
    (''JAVASCRIPT_QUICKJS'', profile ''JAVASCRIPT_QUICKJS'' ''js'' [] ''quickjs'' [] [] [] ''quickjs'' 2 1000 1 256),
    (''KOTLIN_JVM'', profile ''KOTLIN_JVM'' ''kt'' ''Main.jar'' ''kotlin-jvm'' [] ''8'' [] ''kotlin-jvm'' 2 1000 2 1024),
    (''KOTLIN_JVM8'', profile ''KOTLIN_JVM8'' ''kt'' ''Main.jar'' ''kotlin-jvm'' [] ''8'' [] ''kotlin-jvm'' 2 1000 2 1024),
    (''KOTLIN_JVM11'', profile ''KOTLIN_JVM11'' ''kt'' ''Main.jar'' ''kotlin-jvm'' [] ''11'' [] ''kotlin-jvm'' 2 1000 2 1024),
    (''KOTLIN_JVM17'', profile ''KOTLIN_JVM17'' ''kt'' ''Main.jar'' ''kotlin-jvm'' [] ''17'' [] ''kotlin-jvm'' 2 1000 2 1024),
    (''KOTLIN_JVM21'', profile ''KOTLIN_JVM21'' ''kt'' ''Main.jar'' ''kotlin-jvm'' [] ''21'' [] ''kotlin-jvm'' 2 1000 2 1024),
    (''KOTLIN_JAVA'', profile ''KOTLIN_JAVA'' ''kt'' ''Main.jar'' ''kotlin-jvm'' [] ''8'' [] ''kotlin-jvm'' 2 1000 2 1024),
    (''KOTLIN_JAVA8'', profile ''KOTLIN_JAVA8'' ''kt'' ''Main.jar'' ''kotlin-jvm'' [] ''8'' [] ''kotlin-jvm'' 2 1000 2 1024),
    (''KOTLIN_JAVA11'', profile ''KOTLIN_JAVA11'' ''kt'' ''Main.jar'' ''kotlin-jvm'' [] ''11'' [] ''kotlin-jvm'' 2 1000 2 1024),
    (''KOTLIN_JAVA17'', profile ''KOTLIN_JAVA17'' ''kt'' ''Main.jar'' ''kotlin-jvm'' [] ''17'' [] ''kotlin-jvm'' 2 1000 2 1024),
    (''KOTLIN_JAVA21'', profile ''KOTLIN_JAVA21'' ''kt'' ''Main.jar'' ''kotlin-jvm'' [] ''21'' [] ''kotlin-jvm'' 2 1000 2 1024),
    (''DUCKDB'', profile ''DUCKDB'' ''sql'' [] ''duckdb'' [] [] [] ''duckdb'' 1 0 1 256),
    (''BQN'', profile ''BQN'' ''bqn'' [] ''bqn'' [] [] [] ''bqn'' 2 1000 1 512),
    (''APL'', profile ''APL'' ''apl'' [] ''apl'' [] [] [] ''apl'' 2 1000 1 512),
    (''GNU_APL'', profile ''GNU_APL'' ''apl'' [] ''apl'' [] [] [] ''apl'' 2 1000 1 512),
    (''J'', profile ''J'' ''ijs'' [] ''j'' [] [] [] ''j'' 2 1000 1 512),
    (''UIUA'', profile ''UIUA'' ''ua'' [] ''uiua'' [] [] [] ''uiua'' 2 1000 1 512),
    (''JANET'', profile ''JANET'' ''janet'' [] ''janet'' [] [] [] ''janet'' 1 1000 1 256),
    (''SED'', profile ''SED'' ''sed'' [] ''sed'' [] [] [] ''sed'' 1 1000 1 64),
    (''BC'', profile ''BC'' ''bc'' [] ''bc'' [] [] [] ''bc'' 1 1000 1 64),
    (''FORTH'', profile ''FORTH'' ''fs'' [] ''forth'' [] [] [] ''forth'' 2 1000 1 256),
    (''GFORTH'', profile ''GFORTH'' ''fs'' [] ''forth'' [] [] [] ''forth'' 2 1000 1 256),
    (''UHMLANG'', profile ''UHMLANG'' ''uhm'' [] ''none'' [] [] [] ''uhmlang'' 3 2000 2 1024),
    (''TEXT'', profile ''TEXT'' ''txt'' [] ''none'' [] [] [] ''text'' 1 0 1 0),
    (''CHICKEN_SCHEME'', profile ''CHICKEN_SCHEME'' ''scm'' ''Main'' ''chicken-scheme'' [] [] [] ''chicken-scheme'' 1 1000 1 128),
    (''JAVASCRIPT_BUN'', profile ''JAVASCRIPT_BUN'' ''js'' [] ''bun'' [] [] [] ''bun'' 3 2000 2 1024),
    (''TYPESCRIPT_BUN'', profile ''TYPESCRIPT_BUN'' ''ts'' [] ''bun'' [] [] [] ''bun'' 3 2000 2 1024)]"

definition profiles :: "(string \<times> Profile) list" where
  "profiles = profiles_a @ profiles_b"

definition Resolve :: "string \<Rightarrow> Profile option" where
  "Resolve language = map_of profiles (to_upper (trim_space language))"

text \<open>Go's \<open>switch\<close> on a string: the first case that lists it.\<close>

fun switch :: "(string list \<times> string) list \<Rightarrow> string \<Rightarrow> string option" where
  "switch [] key = None"
| "switch ((labels, r) # cs) key = (if key \<in> set labels then Some r else switch cs key)"

definition kept_run_langs :: "string list" where
  "kept_run_langs = [
    ''binary'', ''go-binary'', ''mojo-binary'', ''pony-binary'', ''python'', ''pypy'', ''java'',
    ''javascript'', ''bun'', ''ruby'', ''php'', ''lua'', ''luajit'', ''perl'', ''uhmlang'',
    ''text'', ''csharp'', ''ocaml'', ''elixir'', ''sqlite'', ''julia'', ''erlang'', ''prolog'',
    ''smlnj'', ''r'', ''groovy'', ''scala'', ''fsharp'', ''whitespace'', ''befunge'',
    ''brainfuck'', ''malbolge'', ''lolcode'', ''shakespeare'', ''piet'', ''unlambda'', ''lazyk'',
    ''apecode'', ''wasm'', ''assemblyscript'', ''factor'', ''lisp'', ''picolisp'', ''rocq'',
    ''clojure'', ''racket'', ''scheme'', ''chez-scheme'', ''guile'', ''chicken-scheme'', ''awk'',
    ''tcl'', ''gdl'', ''octave'', ''vhdl'', ''verilog'', ''c3'', ''vbnet'', ''vb6'', ''gleam'',
    ''cuda-ocelot'', ''graphql'', ''lean4'', ''agda'', ''dafny'', ''tla'', ''why3'', ''isabelle'',
    ''fstar'', ''alloy'', ''acl2'', ''kframework'', ''smalltalk'', ''golfscript'', ''deno'',
    ''quickjs'', ''kotlin-jvm'', ''duckdb'', ''bqn'', ''apl'', ''j'', ''uiua'', ''janet'',
    ''aheui'', ''haxe'', ''raku'', ''sed'', ''bc'', ''forth'', ''algol68'', ''bash'',
    ''posix-sh'', ''zsh'', ''fish'', ''powershell'']"

definition run_lang_cases :: "string \<Rightarrow> (string list \<times> string) list" where
  "run_lang_cases key = [
    ([''entry''], key),
    (kept_run_langs, key),
    ([''chez'', ''chezscheme'', ''chez_scheme''], ''chez-scheme''),
    ([''chicken'', ''chicken_scheme''], ''chicken-scheme''),
    ([''javascript-bun'', ''javascript_bun'', ''javascriptbun'', ''bun-javascript'',
      ''bun_javascript'', ''bun-js'', ''bun_js'', ''bunjs'', ''bun/javascript''], ''bun''),
    ([''typescript-bun'', ''typescript_bun'', ''typescriptbun'', ''bun-typescript'',
      ''bun_typescript'', ''bun-ts'', ''bun_ts'', ''bunts'', ''bun/typescript''], ''bun''),
    ([''shell''], ''bash''),
    ([''posix_sh'', ''posixsh'', ''sh''], ''posix-sh''),
    ([''pwsh''], ''powershell''),
    ([''coffeescript''], ''javascript''),
    ([''coq''], ''rocq''),
    ([''kotlin-java'', ''kotlin/java'', ''kotlinjava'', ''kotlin-jvm8'', ''kotlin-jvm11'',
      ''kotlin-jvm17'', ''kotlin-jvm21'', ''kotlin-java8'', ''kotlin-java11'',
      ''kotlin-java17'', ''kotlin-java21'', ''kotlin/java8'', ''kotlin/java11'',
      ''kotlin/java17'', ''kotlin/java21''], ''kotlin-jvm''),
    ([''bf''], ''brainfuck''),
    ([''zero'', ''zerolang''], ''binary''),
    ([''mlton''], ''binary''),
    ([''gnu-prolog'', ''gnu_prolog'', ''gprolog''], ''binary''),
    ([''sml-nj'', ''sml/nj''], ''smlnj''),
    ([''lol''], ''lolcode''),
    ([''spl''], ''shakespeare''),
    ([''lazy-k'', ''lazy_k''], ''lazyk''),
    ([''intercal'', ''ick'', ''c-intercal''], ''binary''),
    ([''befunge93'', ''befunge-93'', ''bf93''], ''befunge''),
    ([''vb''], ''vbnet''),
    ([''gawk''], ''awk''),
    ([''gnudatalanguage''], ''gdl''),
    ([''systemverilog''], ''verilog''),
    ([''lean''], ''lean4''),
    ([''tlaplus''], ''tla''),
    ([''whyml''], ''why3''),
    ([''f*'', ''f-star''], ''fstar''),
    ([''k'', ''k-framework''], ''kframework''),
    ([''gst''], ''smalltalk''),
    ([''gnu-apl''], ''apl''),
    ([''jsoftware''], ''j''),
    ([''gnucobol''], ''binary''),
    ([''ada2012'', ''ada12'', ''ada2022'', ''ada22''], ''binary''),
    ([''fortran95'', ''f95'', ''fortran2003'', ''fortran03'', ''f2003'', ''f03''], ''binary''),
    ([''fortran2008'', ''fortran08'', ''f2008'', ''f08'', ''fortran2018'', ''fortran18'',
      ''f2018'', ''f18''], ''binary''),
    ([''objective-c'', ''objective-cpp'', ''objc'', ''objcpp'', ''freebasic'',
      ''classic-basic'', ''qbasic'', ''vala'', ''mercury'', ''idris2'', ''delphi'',
      ''object-pascal'', ''object_pascal'', ''objpascal'', ''objfpc'', ''moonbit'', ''koka''], ''binary''),
    ([''mojo''], ''mojo-binary''),
    ([''gforth''], ''forth'')]"

definition NormalizeRunLang :: "string \<Rightarrow> string" where
  "NormalizeRunLang language =
     (let raw = trim_space language in
      case (if raw = to_upper raw then map_of profiles raw else None) of
        Some p \<Rightarrow> pf_RunLang p
      | None \<Rightarrow>
          (let key = to_lower raw in
           case switch (run_lang_cases key) key of
             Some r \<Rightarrow> r
           | None \<Rightarrow> (case Resolve language of Some p \<Rightarrow> pf_RunLang p | None \<Rightarrow> key)))"

section \<open>The table\<close>

text \<open>Every entry is keyed by its source language, names a runtime, and never shrinks a limit.\<close>

definition key_char :: "char \<Rightarrow> bool" where
  "key_char c \<longleftrightarrow> 65 \<le> byte c \<and> byte c \<le> (90 :: nat) \<or> 48 \<le> byte c \<and> byte c \<le> (57 :: nat) \<or> c = CHR ''_''"

definition well_formed_entry :: "string \<times> Profile \<Rightarrow> bool" where
  "well_formed_entry e \<longleftrightarrow>
     (case e of (k, p) \<Rightarrow>
        k \<noteq> [] \<and> list_all key_char k \<and> pf_SourceLang p = k \<and> pf_RunLang p \<noteq> [] \<and> pf_CompileKind p \<noteq> [] \<and>
        1 \<le> pf_TimeMultiplier p \<and> 0 \<le> pf_TimeOffsetMs p \<and>
        1 \<le> pf_MemoryMultiplier p \<and> 0 \<le> pf_MemoryOffsetMB p)"

lemma profiles_a_well_formed: "list_all well_formed_entry profiles_a"
  by (simp add: profiles_a_def profile_def well_formed_entry_def key_char_def)

lemma profiles_b_well_formed: "list_all well_formed_entry profiles_b"
  by (simp add: profiles_b_def profile_def well_formed_entry_def key_char_def)

lemma profiles_well_formed: "list_all well_formed_entry profiles"
  by (simp add: profiles_def profiles_a_well_formed profiles_b_well_formed)

section \<open>Plain names\<close>

text \<open>
  A lower-case name: visible ASCII characters, none of them an upper-case letter, and at least
  one lower-case letter.
\<close>

definition lower_name :: "string \<Rightarrow> bool" where
  "lower_name s \<longleftrightarrow>
     list_all (\<lambda>c. visible c \<and> \<not> (65 \<le> byte c \<and> byte c \<le> (90 :: nat))) s \<and>
     list_ex (\<lambda>c. 97 \<le> byte c \<and> byte c \<le> (122 :: nat)) s"

lemma lower_name_trim: "lower_name s \<Longrightarrow> trim_space s = s"
  by (cases s) (auto simp: lower_name_def list_all_iff intro!: trim_space_visible)

lemma lower_name_lower:
  assumes "lower_name s"
  shows "to_lower s = s"
proof -
  have "list_all (\<lambda>c. byte c < (128 :: nat)) s"
    using assms by (auto simp: lower_name_def list_all_iff)
  moreover have "map (\<lambda>c. char_of (lower_rune (byte c))) s = s"
    using assms by (intro map_idI) (auto simp: lower_name_def list_all_iff lower_rune_def)
  ultimately show ?thesis by (simp add: to_lower_ascii)
qed

lemma lower_name_upper:
  assumes "lower_name s"
  shows "to_upper s \<noteq> s"
proof
  assume eq: "to_upper s = s"
  have asc: "list_all (\<lambda>c. byte c < (128 :: nat)) s"
    using assms by (auto simp: lower_name_def list_all_iff)
  have "map (\<lambda>c. char_of (upper_rune (byte c))) s = s"
    using eq by (simp add: to_upper_ascii [OF asc])
  moreover obtain c where c: "c \<in> set s" "97 \<le> byte c \<and> byte c \<le> (122 :: nat)"
    using assms by (auto simp: lower_name_def list_ex_iff)
  ultimately have "char_of (upper_rune (byte c)) = c"
    by (metis (mono_tags, lifting) map_eq_conv list.map_ident)
  then have "(of_char (char_of (upper_rune (byte c))) :: nat) = byte c" by simp
  with c(2) have "(byte c - 32) mod 256 = (byte c :: nat)" by (simp add: upper_rune_def)
  moreover have "byte c - 32 < 256" using c(2) by arith
  ultimately have "byte c - 32 = byte c" by (simp only: mod_less)
  then show False using c(2) by arith
qed

lemma NormalizeRunLang_lower:
  assumes "lower_name s" and "switch (run_lang_cases s) s = Some r"
  shows "NormalizeRunLang s = r"
proof -
  have "trim_space s = s" "to_lower s = s" "s \<noteq> to_upper s"
    using assms(1) lower_name_trim lower_name_lower lower_name_upper by metis+
  then show ?thesis using assms(2) by (simp add: NormalizeRunLang_def Let_def)
qed

lemma kept_lower_names: "list_all lower_name kept_run_langs"
  by (simp add: kept_run_langs_def lower_name_def)

lemma members_of: "ks = kept_run_langs \<Longrightarrow> list_all (\<lambda>x. x \<in> set ks) kept_run_langs"
  by (simp add: list_all_iff)

lemmas kept_mem = members_of [unfolded kept_run_langs_def list.pred_inject simp_thms, OF kept_run_langs_def]

text \<open>A kept name is its own run language.\<close>

lemma NormalizeRunLang_kept:
  assumes "s \<in> set kept_run_langs \<or> s = ''entry''"
  shows "NormalizeRunLang s = s"
proof (rule NormalizeRunLang_lower)
  show "lower_name s"
    using assms kept_lower_names by (auto simp: list_all_iff lower_name_def)
  show "switch (run_lang_cases s) s = Some s"
  proof (cases "s = ''entry''")
    case True
    then show ?thesis by (simp add: run_lang_cases_def)
  next
    case False
    with assms have "s \<in> set kept_run_langs" by simp
    with False show ?thesis
      unfolding run_lang_cases_def by (simp only: switch.simps list.set insert_iff empty_iff if_True if_False simp_thms)
  qed
qed

lemma chapel_run_lang: "NormalizeRunLang ''chapel-binary'' = ''chapel-binary''"
proof -
  let ?s = "''chapel-binary''"
  have l: "lower_name ?s" by (simp add: lower_name_def)
  have "to_upper ?s = ''CHAPEL-BINARY''"
    by (simp add: to_upper_ascii upper_rune_def char_of_eq_iff)
  moreover have "map_of profiles ''CHAPEL-BINARY'' = None"
  proof (rule ccontr)
    assume "map_of profiles ''CHAPEL-BINARY'' \<noteq> None"
    then obtain p where "(''CHAPEL-BINARY'', p) \<in> set profiles" by (auto dest: map_of_SomeD)
    then have "well_formed_entry (''CHAPEL-BINARY'', p)"
      using profiles_well_formed by (auto simp: list_all_iff)
    then show False by (simp add: well_formed_entry_def key_char_def)
  qed
  ultimately have "Resolve ?s = None"
    by (simp add: Resolve_def lower_name_trim [OF l])
  moreover have "switch (run_lang_cases ?s) ?s = None"
    by (simp add: run_lang_cases_def kept_run_langs_def)
  moreover have "?s \<noteq> to_upper ?s" using lower_name_upper [OF l] by metis
  ultimately show ?thesis
    by (simp add: NormalizeRunLang_def Let_def lower_name_trim [OF l] lower_name_lower [OF l])
qed

abbreviation table_run_lang :: "string \<Rightarrow> bool" where
  "table_run_lang r \<equiv> r \<in> set kept_run_langs \<or> r = ''entry'' \<or> r = ''chapel-binary''"

lemma run_langs_a: "list_all (\<lambda>e. table_run_lang (pf_RunLang (snd e))) profiles_a"
  by (simp add: profiles_a_def profile_def kept_mem)

lemma run_langs_b: "list_all (\<lambda>e. table_run_lang (pf_RunLang (snd e))) profiles_b"
  by (simp add: profiles_b_def profile_def kept_mem)

lemma NormalizeRunLang_run_lang:
  assumes "(k, p) \<in> set profiles"
  shows "NormalizeRunLang (pf_RunLang p) = pf_RunLang p"
proof -
  have "table_run_lang (pf_RunLang p)"
    using assms run_langs_a run_langs_b by (auto simp: profiles_def list_all_iff)
  then show ?thesis using NormalizeRunLang_kept chapel_run_lang by metis
qed

text \<open>A key of the table is its own canonical spelling, so it names its profile's runtime.\<close>

lemma key_canonical:
  assumes "k \<noteq> []" and "list_all key_char k"
  shows "trim_space k = k" and "to_upper k = k"
proof -
  have v: "list_all visible k"
    using assms(2) by (auto simp: list_all_iff key_char_def)
  then show "trim_space k = k"
    using assms(1) by (intro trim_space_visible) (auto simp: list_all_iff)
  have "list_all (\<lambda>c. byte c < (128 :: nat)) k" using v by (auto simp: list_all_iff)
  moreover have "map (\<lambda>c. char_of (upper_rune (byte c))) k = k"
    using assms(2) by (intro map_idI) (auto simp: list_all_iff key_char_def upper_rune_def)
  ultimately show "to_upper k = k" by (simp add: to_upper_ascii)
qed

lemma profile_key:
  assumes "map_of profiles k = Some p"
  shows "trim_space k = k" and "to_upper k = k"
proof -
  have "well_formed_entry (k, p)"
    using map_of_SomeD [OF assms] profiles_well_formed by (auto simp: list_all_iff)
  then show "trim_space k = k" "to_upper k = k"
    using key_canonical by (auto simp: well_formed_entry_def)
qed

lemma NormalizeRunLang_key:
  "map_of profiles k = Some p \<Longrightarrow> NormalizeRunLang k = pf_RunLang p"
  using profile_key [of k p] by (simp add: NormalizeRunLang_def Let_def)

text \<open>The run languages a request may name: those some profile produces.\<close>

definition supportedRunLangs :: "string list" where
  "supportedRunLangs = filter (\<lambda>r. r \<noteq> []) (map (pf_RunLang \<circ> snd) profiles)"

lemma supported_normal: "r \<in> set supportedRunLangs \<Longrightarrow> NormalizeRunLang r = r"
  using NormalizeRunLang_run_lang by (auto simp: supportedRunLangs_def)

lemma supported_table_run_lang:
  "r \<in> set supportedRunLangs \<Longrightarrow> table_run_lang r"
  using run_langs_a run_langs_b by (auto simp: supportedRunLangs_def profiles_def list_all_iff)

lemma no_apecode_a: "list_all (\<lambda>e. pf_RunLang (snd e) \<noteq> ''apecode'') profiles_a"
  by (simp add: profiles_a_def profile_def)

lemma no_apecode_b: "list_all (\<lambda>e. pf_RunLang (snd e) \<noteq> ''apecode'') profiles_b"
  by (simp add: profiles_b_def profile_def)

lemma apecode_unsupported: "''apecode'' \<notin> set supportedRunLangs"
  using no_apecode_a no_apecode_b by (auto simp: supportedRunLangs_def profiles_def list_all_iff)

end
