(* ===== verification/Entry_State.thy ===== *)
theory Entry_State
  imports Prelude Go_Strings Complex_Main
begin

text \<open>
  internal/entrypolicy/state.go: the bounded decoding of a JSON document, the check of a state
  (\<open>validateState\<close>) and the partial match of an expected state with an actual one
  (\<open>CompareState\<close>).

  The decoder reads the tokens that \<open>json.Decoder.Token\<close> returns one after the other. How the
  library splits the bytes into tokens is a parameter, a function from the document to its tokens;
  \<open>TErr\<close> stands for the token at which the library reports a syntax error, and the end of the list
  for \<open>io.EOF\<close>. Numbers are the rationals that the \<open>float64\<close> values denote, the default
  tolerance is one millionth, and differences are exact where the source rounds them. Every error of the
  file is the one value \<open>errState\<close>, so a function that returns \<open>(T, error)\<close> returns an option.
\<close>

datatype jtoken = TObj | TObjEnd | TArr | TArrEnd | TStr string | TNum rat | TBool bool | TNull | TErr

datatype jval =
    JObj "(string \<times> jval) list"
  | JArr "jval list"
  | JStr string
  | JNum rat
  | JBool bool
  | JNull

definition MaxSubmissionBytes :: nat where "MaxSubmissionBytes = 614400"
definition MaxInputBytes :: nat where "MaxInputBytes = 131072"
definition MaxStateBytes :: nat where "MaxStateBytes = 1048576"
definition MaxDepth :: nat where "MaxDepth = 64"
definition MaxNodes :: nat where "MaxNodes = 30000"

definition SourceName :: string where "SourceName = ''Main.entry.json''"

definition unsafeKey :: "string \<Rightarrow> bool" where
  "unsafeKey val \<longleftrightarrow> val = ''__proto__'' \<or> val = ''constructor'' \<or> val = ''prototype''"

section \<open>Decoding\<close>

type_synonym 'a reading = "('a \<times> nat \<times> jtoken list) option"

text \<open>
  The closure \<open>read\<close> of \<open>decodeBounded\<close> over the tokens that are left; \<open>count\<close> is the captured
  counter. The two loops take the reader of the nested values as an argument. Their first
  argument bounds the number of iterations; every iteration consumes a token, so the number of
  tokens is enough, and at 0 the library has no token to return. The first argument of
  \<open>read_value\<close> is \<open>65 - depth\<close>, so 0 is where the source finds \<open>depth > 64\<close>.
\<close>

fun members_loop ::
  "nat \<Rightarrow> (nat \<Rightarrow> jtoken list \<Rightarrow> jval reading) \<Rightarrow> nat \<Rightarrow> (string \<times> jval) list \<Rightarrow> jtoken list \<Rightarrow>
   (string \<times> jval) list reading" where
  "members_loop 0 rd count acc ts = None"
| "members_loop (Suc n) rd count acc ts =
     (case ts of
        [] \<Rightarrow> None
      | t # rest \<Rightarrow>
          (case t of
             TObjEnd \<Rightarrow> Some (acc, count, rest)
           | TStr key \<Rightarrow>
               if unsafeKey key \<or> map_of acc key \<noteq> None then None
               else (case rd count rest of
                       None \<Rightarrow> None
                     | Some (item, c, r) \<Rightarrow> members_loop n rd c (acc @ [(key, item)]) r)
           | _ \<Rightarrow> None))"

fun items_loop ::
  "nat \<Rightarrow> (nat \<Rightarrow> jtoken list \<Rightarrow> jval reading) \<Rightarrow> nat \<Rightarrow> jval list \<Rightarrow> jtoken list \<Rightarrow> jval list reading" where
  "items_loop 0 rd count acc ts = None"
| "items_loop (Suc n) rd count acc ts =
     (case ts of
        [] \<Rightarrow> None
      | t # rest \<Rightarrow>
          if t = TArrEnd then Some (acc, count, rest)
          else (case rd count ts of
                  None \<Rightarrow> None
                | Some (item, c, r) \<Rightarrow> items_loop n rd c (acc @ [item]) r))"

primrec read_value :: "nat \<Rightarrow> nat \<Rightarrow> jtoken list \<Rightarrow> jval reading" where
  "read_value 0 count ts = None"
| "read_value (Suc d) count ts =
     (if count + 1 > MaxNodes then None
      else (case ts of
              [] \<Rightarrow> None
            | t # rest \<Rightarrow>
                (case t of
                   TObj \<Rightarrow> map_option (\<lambda>(ms, c, r). (JObj ms, c, r))
                     (members_loop (length rest) (read_value d) (count + 1) [] rest)
                 | TArr \<Rightarrow> map_option (\<lambda>(vs, c, r). (JArr vs, c, r))
                     (items_loop (length rest) (read_value d) (count + 1) [] rest)
                 | TStr s \<Rightarrow> Some (JStr s, count + 1, rest)
                 | TNum q \<Rightarrow> Some (JNum q, count + 1, rest)
                 | TBool b \<Rightarrow> Some (JBool b, count + 1, rest)
                 | TNull \<Rightarrow> Some (JNull, count + 1, rest)
                 | _ \<Rightarrow> None)))"

definition decodeBounded :: "(string \<Rightarrow> jtoken list) \<Rightarrow> string \<Rightarrow> nat \<Rightarrow> (string \<times> jval) list option" where
  "decodeBounded tokens data maximum =
     (if length data > maximum \<or> \<not> valid_utf8 data then None
      else (case read_value (MaxDepth + 1) 0 (tokens data) of
           None \<Rightarrow> None
         | Some (v, c, rest) \<Rightarrow>
             if rest \<noteq> [] then None else (case v of JObj ms \<Rightarrow> Some ms | _ \<Rightarrow> None)))"

section \<open>Checking a state\<close>

definition validID :: "string \<Rightarrow> bool" where
  "validID val \<longleftrightarrow> length val > 0 \<and> length (runes val) \<le> 128 \<and> \<not> unsafeKey val"

definition finite_num :: "jval \<Rightarrow> bool" where
  "finite_num v = (case v of JNum n \<Rightarrow> \<bar>n\<bar> \<le> 10 ^ 15 | _ \<Rightarrow> False)"

definition scalar :: "jval \<Rightarrow> bool" where
  "scalar v = (case v of JBool _ \<Rightarrow> True | JStr s \<Rightarrow> length (runes s) \<le> 65536 | _ \<Rightarrow> finite_num v)"

definition field_ok :: "string \<times> jval \<Rightarrow> bool" where
  "field_ok f = (case f of (key, v) \<Rightarrow>
     if key \<in> {''x'', ''y'', ''rotation'', ''direction'', ''size''} then finite_num v
     else if key = ''visible'' then (case v of JBool _ \<Rightarrow> True | _ \<Rightarrow> False)
     else if key = ''say'' then (case v of JStr _ \<Rightarrow> scalar v | _ \<Rightarrow> False)
     else False)"

text \<open>One entry of a kind: the leaves and the list items counted so far.\<close>

fun state_entry :: "string \<Rightarrow> nat \<Rightarrow> string \<times> jval \<Rightarrow> nat \<times> nat \<Rightarrow> unit + nat \<times> nat" where
  "state_entry kind _ (eid, v) (leaves, listItems) =
     (if \<not> validID eid then Inl ()
      else if kind = ''objects'' then
        (case v of
           JObj fields \<Rightarrow>
             if fields = [] \<or> \<not> list_all field_ok fields then Inl ()
             else Inr (leaves + length fields, listItems)
         | _ \<Rightarrow> Inl ())
      else if kind = ''variables'' then (if scalar v then Inr (leaves + 1, listItems) else Inl ())
      else
        (case v of
           JArr items \<Rightarrow>
             if listItems + length items > 10000 \<or> \<not> list_all scalar items then Inl ()
             else Inr (leaves + 1, listItems + length items)
         | _ \<Rightarrow> Inl ()))"

fun state_kind :: "nat \<Rightarrow> string \<times> jval \<Rightarrow> nat \<times> nat \<Rightarrow> unit + nat \<times> nat" where
  "state_kind _ (kind, raw) s =
     (if kind = ''version'' \<or> kind = ''tolerance'' then Inr s
      else if kind \<noteq> ''objects'' \<and> kind \<noteq> ''variables'' \<and> kind \<noteq> ''lists'' then Inl ()
      else
        (case raw of
           JObj values \<Rightarrow>
             if length values > 1000 \<or> kind = ''objects'' \<and> length values > 100 then Inl ()
             else loop_err (state_entry kind) 0 values s
         | _ \<Rightarrow> Inl ()))"

definition validateState :: "(string \<times> jval) list \<Rightarrow> bool \<Rightarrow> rat option" where
  "validateState state expected =
     (if map_of state ''version'' \<noteq> Some (JNum 1) then None
      else
        (case (case map_of state ''tolerance'' of
                 None \<Rightarrow> Some (1 / 10 ^ 6)
               | Some v \<Rightarrow>
                   if \<not> expected \<or> \<not> finite_num v then None
                   else (case v of JNum q \<Rightarrow> if q < 0 \<or> q > 1 then None else Some q | _ \<Rightarrow> None)) of
           None \<Rightarrow> None
         | Some tolerance \<Rightarrow>
             (case loop_err state_kind 0 state (0, 0) of
                Inl _ \<Rightarrow> None
              | Inr (leaves, listItems) \<Rightarrow> if leaves = 0 then None else Some tolerance)))"

definition ValidateExpected :: "(string \<Rightarrow> jtoken list) \<Rightarrow> string \<Rightarrow> bool" where
  "ValidateExpected tokens data =
     (case decodeBounded tokens data MaxInputBytes of
        None \<Rightarrow> False
      | Some state \<Rightarrow> validateState state True \<noteq> None)"

section \<open>Comparing states\<close>

lemma size_member: "kv \<in> set want \<Longrightarrow> size (snd kv) < size (JObj want)"
  using size_list_estimation' [of kv want "size (snd kv)" "size_prod (\<lambda>_. 0) size"]
  by (cases kv) (simp add: less_Suc_eq_le)

lemma size_item: "v \<in> set want \<Longrightarrow> size v < size (JArr want)"
  using size_list_estimation' [of v want "size v" size] by (simp add: less_Suc_eq_le)

function state_matches :: "rat \<Rightarrow> jval \<Rightarrow> jval \<Rightarrow> bool" where
  "state_matches tolerance (JObj want) got =
     (case got of
        JObj values \<Rightarrow>
          list_all (\<lambda>kv. case map_of values (fst kv) of
            None \<Rightarrow> False | Some actual \<Rightarrow> state_matches tolerance (snd kv) actual) want
      | _ \<Rightarrow> False)"
| "state_matches tolerance (JArr want) got =
     (case got of
        JArr values \<Rightarrow> length want = length values \<and>
          list_all (\<lambda>va. state_matches tolerance (fst va) (snd va)) (zip want values)
      | _ \<Rightarrow> False)"
| "state_matches tolerance (JNum want) got =
     (case got of JNum v \<Rightarrow> \<bar>want - v\<bar> \<le> tolerance | _ \<Rightarrow> False)"
| "state_matches tolerance (JStr s) got \<longleftrightarrow> got = JStr s"
| "state_matches tolerance (JBool b) got \<longleftrightarrow> got = JBool b"
| "state_matches tolerance JNull got \<longleftrightarrow> got = JNull"
  by pat_completeness auto
termination
  by (relation "measure (\<lambda>(_, want, _). size want)")
    (use size_member size_item in \<open>auto dest!: set_zip_leftD simp del: jval.size\<close>)

definition CompareState :: "(string \<Rightarrow> jtoken list) \<Rightarrow> string \<Rightarrow> string \<Rightarrow> bool option" where
  "CompareState tokens expected actual =
     (case decodeBounded tokens expected MaxInputBytes of
        None \<Rightarrow> None
      | Some want \<Rightarrow>
          (case validateState want True of
             None \<Rightarrow> None
           | Some tolerance \<Rightarrow>
               let want' = filter (\<lambda>(k, v). k \<noteq> ''tolerance'') want in
               (case decodeBounded tokens actual MaxStateBytes of
                  None \<Rightarrow> Some False
                | Some got \<Rightarrow>
                    (case validateState got False of
                       None \<Rightarrow> Some False
                     | Some _ \<Rightarrow> Some (state_matches tolerance (JObj want') (JObj got))))))"

section \<open>What is decoded\<close>

lemma size_member_termination [termination_simp]:
  fixes kv :: "string \<times> jval"
  shows "kv \<in> set want \<Longrightarrow> size (snd kv) < Suc (size_list (size_prod (\<lambda>_. 0) size) want)"
  using size_member [of kv want] by simp

text \<open>
  The tokens of a value, the values in it, and the two conditions that \<open>decodeBounded\<close> imposes:
  at most \<open>d\<close> levels, and no object with a key that is repeated or unsafe.
\<close>

fun toks :: "jval \<Rightarrow> jtoken list" where
  "toks (JObj ms) = TObj # concat (map (\<lambda>kv. TStr (fst kv) # toks (snd kv)) ms) @ [TObjEnd]"
| "toks (JArr vs) = TArr # concat (map toks vs) @ [TArrEnd]"
| "toks (JStr s) = [TStr s]"
| "toks (JNum q) = [TNum q]"
| "toks (JBool b) = [TBool b]"
| "toks JNull = [TNull]"

fun jnodes :: "jval \<Rightarrow> nat" where
  "jnodes (JObj ms) = Suc (\<Sum>kv\<leftarrow>ms. jnodes (snd kv))"
| "jnodes (JArr vs) = Suc (\<Sum>v\<leftarrow>vs. jnodes v)"
| "jnodes _ = 1"

primrec fits :: "nat \<Rightarrow> jval \<Rightarrow> bool" where
  "fits 0 v \<longleftrightarrow> False"
| "fits (Suc d) v \<longleftrightarrow>
     (case v of
        JObj ms \<Rightarrow> list_all (\<lambda>kv. fits d (snd kv)) ms
      | JArr vs \<Rightarrow> list_all (fits d) vs
      | _ \<Rightarrow> True)"

fun jsafe :: "jval \<Rightarrow> bool" where
  "jsafe (JObj ms) \<longleftrightarrow>
     distinct (map fst ms) \<and> list_all (\<lambda>kv. \<not> unsafeKey (fst kv) \<and> jsafe (snd kv)) ms"
| "jsafe (JArr vs) \<longleftrightarrow> list_all jsafe vs"
| "jsafe _ \<longleftrightarrow> True"

lemma toks_start: "\<exists>t ts. toks v = t # ts \<and> t \<noteq> TArrEnd \<and> t \<noteq> TObjEnd"
  by (cases v) auto

lemma jnodes_pos: "0 < jnodes v"
  by (cases v) auto

text \<open>\<open>reads d v\<close>: one value of at most \<open>d\<close> levels was read from the front of the tokens.\<close>

definition reads_ok :: "nat \<Rightarrow> jval \<Rightarrow> bool" where
  "reads_ok d v \<longleftrightarrow> fits d v \<and> jsafe v"

definition sound_reader :: "nat \<Rightarrow> (nat \<Rightarrow> jtoken list \<Rightarrow> jval reading) \<Rightarrow> bool" where
  "sound_reader d rd \<longleftrightarrow>
     (\<forall>count ts v c r. rd count ts = Some (v, c, r) \<longrightarrow>
        ts = toks v @ r \<and> reads_ok d v \<and> c = count + jnodes v \<and> c \<le> MaxNodes)"

lemma members_sound:
  assumes "sound_reader d rd" and "members_loop n rd count acc ts = Some (ms, c, r)"
    and "distinct (map fst acc)" and "count \<le> MaxNodes"
  shows "\<exists>new. ms = acc @ new \<and>
    ts = concat (map (\<lambda>kv. TStr (fst kv) # toks (snd kv)) new) @ TObjEnd # r \<and>
    distinct (map fst ms) \<and> (\<forall>kv \<in> set new. \<not> unsafeKey (fst kv) \<and> reads_ok d (snd kv)) \<and>
    c = count + (\<Sum>kv\<leftarrow>new. jnodes (snd kv)) \<and> c \<le> MaxNodes"
  using assms(2-)
proof (induction n arbitrary: count acc ts)
  case 0
  then show ?case by simp
next
  case (Suc n)
  show ?case
  proof (cases "\<exists>rest. ts = TObjEnd # rest")
    case True
    then show ?thesis using Suc.prems by auto
  next
    case False
    with Suc.prems obtain key rest item c1 r1 where
      ts: "ts = TStr key # rest" and key: "\<not> unsafeKey key" "map_of acc key = None"
      and item: "rd count rest = Some (item, c1, r1)"
      and loop: "members_loop n rd c1 (acc @ [(key, item)]) r1 = Some (ms, c, r)"
      by (auto simp: map_of_eq_None_iff split: list.splits jtoken.splits if_splits option.splits)
    from assms(1) item have
      i: "rest = toks item @ r1" "reads_ok d item" "c1 = count + jnodes item" "c1 \<le> MaxNodes"
      unfolding sound_reader_def by blast+
    have "distinct (map fst (acc @ [(key, item)]))"
      using Suc.prems(2) key(2) by (simp add: map_of_eq_None_iff)
    from Suc.IH [OF loop this i(4)] obtain new where
      "ms = (acc @ [(key, item)]) @ new"
      "r1 = concat (map (\<lambda>kv. TStr (fst kv) # toks (snd kv)) new) @ TObjEnd # r"
      "distinct (map fst ms)" "\<forall>kv \<in> set new. \<not> unsafeKey (fst kv) \<and> reads_ok d (snd kv)"
      "c = c1 + (\<Sum>kv\<leftarrow>new. jnodes (snd kv))" "c \<le> MaxNodes" by blast
    then show ?thesis using ts i key(1) by (intro exI [of _ "(key, item) # new"]) auto
  qed
qed

lemma items_sound:
  assumes "sound_reader d rd" and "items_loop n rd count acc ts = Some (vs, c, r)"
    and "count \<le> MaxNodes"
  shows "\<exists>new. vs = acc @ new \<and> ts = concat (map toks new) @ TArrEnd # r \<and>
    (\<forall>v \<in> set new. reads_ok d v) \<and> c = count + (\<Sum>v\<leftarrow>new. jnodes v) \<and> c \<le> MaxNodes"
  using assms(2-)
proof (induction n arbitrary: count acc ts)
  case 0
  then show ?case by simp
next
  case (Suc n)
  show ?case
  proof (cases "\<exists>rest. ts = TArrEnd # rest")
    case True
    then show ?thesis using Suc.prems by auto
  next
    case False
    with Suc.prems obtain item c1 r1 where
      item: "rd count ts = Some (item, c1, r1)"
      and loop: "items_loop n rd c1 (acc @ [item]) r1 = Some (vs, c, r)"
      by (auto split: list.splits if_splits option.splits)
    from assms(1) item have
      i: "ts = toks item @ r1" "reads_ok d item" "c1 = count + jnodes item" "c1 \<le> MaxNodes"
      unfolding sound_reader_def by blast+
    from Suc.IH [OF loop i(4)] obtain new where
      "vs = (acc @ [item]) @ new" "r1 = concat (map toks new) @ TArrEnd # r"
      "\<forall>v \<in> set new. reads_ok d v" "c = c1 + (\<Sum>v\<leftarrow>new. jnodes v)" "c \<le> MaxNodes" by blast
    then show ?thesis using i by (intro exI [of _ "item # new"]) auto
  qed
qed

lemma read_value_sound: "sound_reader d (read_value d)"
proof (induction d)
  case 0
  show ?case by (simp add: sound_reader_def)
next
  case (Suc d)
  have "ts = toks v @ r \<and> reads_ok (Suc d) v \<and> c = count + jnodes v \<and> c \<le> MaxNodes"
    if rd: "read_value (Suc d) count ts = Some (v, c, r)" for count ts v c r
  proof -
    from rd obtain t rest where ts: "ts = t # rest" and cnt: "count + 1 \<le> MaxNodes"
      by (auto split: if_splits list.splits)
    show ?thesis
    proof (cases t)
      case TObj
      with rd ts obtain ms where "members_loop (length rest) (read_value d) (count + 1) [] rest = Some (ms, c, r)"
        and v: "v = JObj ms" by (auto split: if_splits)
      from members_sound [OF Suc.IH this(1)] cnt v ts TObj show ?thesis
        by (auto simp: reads_ok_def list_all_iff)
    next
      case TArr
      with rd ts obtain vs where "items_loop (length rest) (read_value d) (count + 1) [] rest = Some (vs, c, r)"
        and v: "v = JArr vs" by (auto split: if_splits)
      from items_sound [OF Suc.IH this(1)] cnt v ts TArr show ?thesis
        by (auto simp: reads_ok_def list_all_iff)
    qed (use rd ts cnt in \<open>auto simp: reads_ok_def split: if_splits\<close>)
  qed
  then show ?case unfolding sound_reader_def by blast
qed

text \<open>Conversely, the tokens of a value that meets the conditions are read back.\<close>

definition complete_reader :: "nat \<Rightarrow> (nat \<Rightarrow> jtoken list \<Rightarrow> jval reading) \<Rightarrow> bool" where
  "complete_reader d rd \<longleftrightarrow>
     (\<forall>count v r. reads_ok d v \<longrightarrow> count + jnodes v \<le> MaxNodes \<longrightarrow>
        rd count (toks v @ r) = Some (v, count + jnodes v, r))"

lemma members_complete:
  assumes "complete_reader d rd"
    and "distinct (map fst acc @ map fst new)"
    and "\<forall>kv \<in> set new. \<not> unsafeKey (fst kv) \<and> reads_ok d (snd kv)"
    and "count + (\<Sum>kv\<leftarrow>new. jnodes (snd kv)) \<le> MaxNodes" and "length new < n"
  shows "members_loop n rd count acc (concat (map (\<lambda>kv. TStr (fst kv) # toks (snd kv)) new) @ TObjEnd # r) =
    Some (acc @ new, count + (\<Sum>kv\<leftarrow>new. jnodes (snd kv)), r)"
  using assms(2-)
proof (induction new arbitrary: n count acc)
  case Nil
  then show ?case by (cases n) simp_all
next
  case (Cons kv new)
  obtain m where n: "n = Suc m" using Cons.prems(4) by (cases n) auto
  let ?r = "concat (map (\<lambda>kv. TStr (fst kv) # toks (snd kv)) new) @ TObjEnd # r"
  have "rd count (toks (snd kv) @ ?r) = Some (snd kv, count + jnodes (snd kv), ?r)"
    using assms(1) Cons.prems(2,3) by (simp add: complete_reader_def)
  moreover have "members_loop m rd (count + jnodes (snd kv)) (acc @ [kv]) ?r =
      Some ((acc @ [kv]) @ new, count + jnodes (snd kv) + (\<Sum>kv\<leftarrow>new. jnodes (snd kv)), r)"
    using Cons.IH [of "acc @ [kv]" "count + jnodes (snd kv)" m] Cons.prems n by simp
  moreover have "map_of acc (fst kv) = None" using Cons.prems(1) by (auto simp: map_of_eq_None_iff)
  ultimately show ?case using Cons.prems(2) n by (simp add: add.assoc)
qed

lemma items_complete:
  assumes "complete_reader d rd"
    and "\<forall>v \<in> set new. reads_ok d v"
    and "count + (\<Sum>v\<leftarrow>new. jnodes v) \<le> MaxNodes" and "length new < n"
  shows "items_loop n rd count acc (concat (map toks new) @ TArrEnd # r) =
    Some (acc @ new, count + (\<Sum>v\<leftarrow>new. jnodes v), r)"
  using assms(2-)
proof (induction new arbitrary: n count acc)
  case Nil
  then show ?case by (cases n) simp_all
next
  case (Cons v new)
  obtain m where n: "n = Suc m" using Cons.prems(3) by (cases n) auto
  let ?r = "concat (map toks new) @ TArrEnd # r"
  obtain t ts where t: "toks v = t # ts" "t \<noteq> TArrEnd" using toks_start by blast
  have "rd count (toks v @ ?r) = Some (v, count + jnodes v, ?r)"
    using assms(1) Cons.prems(1,2) by (simp add: complete_reader_def)
  moreover have "items_loop m rd (count + jnodes v) (acc @ [v]) ?r =
      Some ((acc @ [v]) @ new, count + jnodes v + (\<Sum>v\<leftarrow>new. jnodes v), r)"
    using Cons.IH [of "count + jnodes v" m "acc @ [v]"] Cons.prems n by simp
  ultimately show ?case using n t by (simp add: add.assoc)
qed

lemma length_members_toks: "length ms \<le> length (concat (map (\<lambda>kv. TStr (fst kv) # toks (snd kv)) ms))"
  by (induction ms) auto

lemma length_items_toks: "length vs \<le> length (concat (map toks vs))"
proof (induction vs)
  case (Cons v vs)
  then show ?case using toks_start [of v] by auto
qed simp

lemma read_value_complete: "complete_reader d (read_value d)"
proof (induction d)
  case 0
  show ?case by (simp add: complete_reader_def reads_ok_def)
next
  case (Suc d)
  have "read_value (Suc d) count (toks v @ r) = Some (v, count + jnodes v, r)"
    if v: "reads_ok (Suc d) v" and cnt: "count + jnodes v \<le> MaxNodes" for count v r
  proof (cases v)
    case (JObj ms)
    let ?body = "concat (map (\<lambda>kv. TStr (fst kv) # toks (snd kv)) ms) @ TObjEnd # r"
    have "members_loop (length ?body) (read_value d) (Suc count) [] ?body =
        Some ([] @ ms, Suc count + (\<Sum>kv\<leftarrow>ms. jnodes (snd kv)), r)"
      using v cnt JObj length_members_toks [of ms]
      by (intro members_complete [OF Suc.IH]) (auto simp: reads_ok_def list_all_iff)
    then show ?thesis using cnt JObj by simp
  next
    case (JArr vs)
    let ?body = "concat (map toks vs) @ TArrEnd # r"
    have "items_loop (length ?body) (read_value d) (Suc count) [] ?body =
        Some ([] @ vs, Suc count + (\<Sum>v\<leftarrow>vs. jnodes v), r)"
      using v cnt JArr length_items_toks [of vs]
      by (intro items_complete [OF Suc.IH]) (auto simp: reads_ok_def list_all_iff)
    then show ?thesis using cnt JArr by simp
  qed (use cnt in auto)
  then show ?case unfolding complete_reader_def by blast
qed

lemma read_value_iff:
  "read_value d count ts = Some (v, c, r) \<longleftrightarrow>
     ts = toks v @ r \<and> reads_ok d v \<and> c = count + jnodes v \<and> c \<le> MaxNodes"
  using read_value_sound [of d] read_value_complete [of d]
  unfolding sound_reader_def complete_reader_def by blast

lemma decodeBounded_iff:
  "decodeBounded tokens data maximum = Some ms \<longleftrightarrow>
     length data \<le> maximum \<and> valid_utf8 data \<and> tokens data = toks (JObj ms) \<and>
     fits (MaxDepth + 1) (JObj ms) \<and> jsafe (JObj ms) \<and> jnodes (JObj ms) \<le> MaxNodes"
proof -
  have "decodeBounded tokens data maximum = Some ms \<longleftrightarrow>
      length data \<le> maximum \<and> valid_utf8 data \<and>
      (\<exists>c. read_value (MaxDepth + 1) 0 (tokens data) = Some (JObj ms, c, []))"
    unfolding decodeBounded_def
    by (auto simp del: read_value.simps split: option.splits jval.splits if_splits)
  then show ?thesis unfolding read_value_iff reads_ok_def by auto
qed

section \<open>Facts about the comparison\<close>

lemma state_matches_refl: "0 \<le> tol \<Longrightarrow> jsafe v \<Longrightarrow> state_matches tol v v"
proof (induction v)
  case (JObj ms)
  have "case map_of ms (fst kv) of None \<Rightarrow> False | Some actual \<Rightarrow> state_matches tol (snd kv) actual"
    if "kv \<in> set ms" for kv
  proof -
    have "map_of ms (fst kv) = Some (snd kv)" using JObj.prems(2) that by simp
    moreover have "state_matches tol (snd kv) (snd kv)"
      using JObj.prems that by (intro JObj.IH [of kv]) (auto simp: list_all_iff snds.simps)
    ultimately show ?thesis by simp
  qed
  then show ?case by (simp add: list_all_iff)
next
  case (JArr vs)
  then show ?case by (auto simp: list_all_iff set_zip)
qed auto

text \<open>A bad expectation is an error whatever the state; a bad state is only a mismatch.\<close>

lemma CompareState_error:
  "CompareState tokens expected actual = None \<longleftrightarrow> \<not> ValidateExpected tokens expected"
  by (auto simp: CompareState_def ValidateExpected_def Let_def split: option.splits)

text \<open>
  Without its tolerance an expectation is a state that the check for states accepts: \<open>state_kind\<close>
  skips the member.
\<close>

abbreviation state_part :: "(string \<times> jval) list \<Rightarrow> (string \<times> jval) list" where
  "state_part want \<equiv> filter (\<lambda>(k, v). k \<noteq> ''tolerance'') want"

lemma map_of_state_part:
  "map_of (state_part want) k = (if k = ''tolerance'' then None else map_of want k)"
  by (induction want) auto

lemma state_kind_loop_part:
  "loop_err state_kind i (state_part want) s = loop_err state_kind j want s"
proof (induction want arbitrary: i j s)
  case (Cons kv want)
  have index: "state_kind i kv s = state_kind j kv s" for i j s
    by (cases kv) simp
  show ?case
    using Cons.IH index [of i s j] by (cases kv) (auto split: sum.splits)
qed simp

lemma validateState_part:
  "validateState want True \<noteq> None \<Longrightarrow> validateState (state_part want) False \<noteq> None"
  unfolding validateState_def map_of_state_part state_kind_loop_part [of 0 want "(0, 0)" 0]
  by (auto simp del: not_None_eq split: option.splits sum.splits if_splits)

lemma validateState_tolerance: "validateState want True = Some tol \<Longrightarrow> 0 \<le> tol \<and> tol \<le> 1"
  by (auto simp: validateState_def finite_num_def split: option.splits sum.splits if_splits jval.splits)

lemma jsafe_part: "jsafe (JObj want) \<Longrightarrow> jsafe (JObj (state_part want))"
  by (auto simp: list_all_iff intro: distinct_map_filter)

section \<open>Properties\<close>

text \<open>
  C10. The bounded decoder accepts exactly the documents it means to: at most the given number of
  bytes of valid UTF-8 whose tokens are those of one object, of at most 65 levels and 30000 values, in which no
  object repeats a key or uses one of the three unsafe keys; and it returns that object.
\<close>

theorem decode_bounded_exact:
  "decodeBounded tokens data maximum = Some ms \<longleftrightarrow>
     length data \<le> maximum \<and> valid_utf8 data \<and> tokens data = toks (JObj ms) \<and>
     fits 65 (JObj ms) \<and> jsafe (JObj ms) \<and> jnodes (JObj ms) \<le> 30000"
  unfolding decodeBounded_iff by (simp add: MaxDepth_def MaxNodes_def)

text \<open>
  The comparison of states is an error exactly when the expectation is not usable, whatever
  the state is, and a state that is the expectation without its tolerance always matches it.
\<close>

theorem compare_state_sound:
  assumes "decodeBounded tokens expected MaxInputBytes = Some want"
    and "decodeBounded tokens actual MaxStateBytes = Some (state_part want)"
  shows "CompareState tokens expected actual =
    (if ValidateExpected tokens expected then Some True else None)"
proof (cases "validateState want True")
  case None
  then show ?thesis using assms by (simp add: CompareState_def ValidateExpected_def)
next
  case (Some tol)
  have "jsafe (JObj (state_part want))"
    using assms(1) jsafe_part unfolding decodeBounded_iff by blast
  then have "state_matches tol (JObj (state_part want)) (JObj (state_part want))"
    using validateState_tolerance [OF Some] state_matches_refl by blast
  moreover have "validateState (state_part want) False \<noteq> None"
    using Some by (intro validateState_part) simp
  ultimately show ?thesis
    using Some assms by (auto simp: CompareState_def ValidateExpected_def Let_def)
qed

definition demo_state :: "(string \<times> jval) list" where
  "demo_state = [(''version'', JNum 1), (''tolerance'', JNum 1),
     (''variables'', JObj [(''score'', JNum 3)])]"

definition demo_tokens :: "string \<Rightarrow> jtoken list" where
  "demo_tokens s = (if s = ''e'' then toks (JObj demo_state) else toks (JObj (state_part demo_state)))"

lemma demo_state_fits:
  "fits (Suc (Suc (Suc n))) (JObj demo_state)" "fits (Suc (Suc (Suc n))) (JObj (state_part demo_state))"
  by (simp_all add: demo_state_def)

lemma demo_state_decoded:
  "decodeBounded demo_tokens ''e'' MaxInputBytes = Some demo_state"
  "decodeBounded demo_tokens ''a'' MaxStateBytes = Some (state_part demo_state)"
  unfolding decodeBounded_iff
  using demo_state_fits [of 62]
  by (simp_all add: demo_tokens_def demo_state_def MaxNodes_def MaxInputBytes_def MaxDepth_def
      MaxStateBytes_def unsafeKey_def valid_utf8_def runes_ascii rune_error_def)

theorem compare_state_sound_witness: "CompareState demo_tokens ''e'' ''a'' = Some True"
proof -
  have "ValidateExpected demo_tokens ''e''"
    by (simp add: ValidateExpected_def demo_state_decoded)
      (simp add: demo_state_def validateState_def finite_num_def scalar_def validID_def unsafeKey_def runes_ascii del: not_None_eq)
  then show ?thesis using compare_state_sound [OF demo_state_decoded] by simp
qed

end
