(* ===== verification/Run_Checks.thy ===== *)
theory Run_Checks
  imports Model_Types Go_Base64 Paths Profiles Entry_State
begin

text \<open>
  The validators of internal/runvalidation/validation.go that the kinds of requests share:
  limits, capture limits, run languages, lists of binaries, output paths, the special judge and
  the binary budget of a whole request.

  Library functions the checks call through and whose result no property depends on are fields of
  the record \<open>env\<close>: \<open>url.Parse\<close> (the parts of a URL that \<open>payloadurl.Validate\<close> reads),
  SHA-256 in lower-case hex, and the tokens of a JSON document.
\<close>

record parsed_url =
  url_Scheme :: string
  url_Hostname :: string
  url_has_User :: bool

record env =
  env_url_parse :: "string \<Rightarrow> parsed_url option"
  env_sha256_hex :: "string \<Rightarrow> string"
  env_json_tokens :: "string \<Rightarrow> jtoken list"

section \<open>Bounds\<close>

definition MaxTextFieldBytes :: nat where "MaxTextFieldBytes = 64 * 2 ^ 20"
definition MaxTimeMs :: int where "MaxTimeMs = 600000"
definition MaxMemoryMB :: int where "MaxMemoryMB = 4096"
definition MaxOutputBytes :: int where "MaxOutputBytes = 64 * 2 ^ 20"
definition MaxCommunicationOutputBytes :: int where "MaxCommunicationOutputBytes = 128 * 2 ^ 20"
definition MaxCaptureBytes :: int where "MaxCaptureBytes = 8 * 2 ^ 20"
definition MaxWorkspaceBytes :: int where "MaxWorkspaceBytes = 2 ^ 30"
definition MaxBinaryFiles :: nat where "MaxBinaryFiles = 512"
definition MaxPrograms :: nat where "MaxPrograms = 8"
definition MaxSteps :: nat where "MaxSteps = 2"
definition MaxPipelineSteps :: nat where "MaxPipelineSteps = 2"
definition MaxStdinParts :: nat where "MaxStdinParts = 32"
definition MaxSidecarOutputs :: nat where "MaxSidecarOutputs = 64"
definition MaxStepHandoffBytes :: int where "MaxStepHandoffBytes = MaxOutputBytes"
definition MaxBinaryFileBytes :: nat where "MaxBinaryFileBytes = 16 * 2 ^ 20"
definition MaxBinaryTotalBytes :: nat where "MaxBinaryTotalBytes = 48 * 2 ^ 20"
definition MaxPipelineResources :: nat where "MaxPipelineResources = 16"
definition MaxPipelineOutputs :: nat where "MaxPipelineOutputs = 16"
definition MaxPipelineResourceTotalBytes :: nat where "MaxPipelineResourceTotalBytes = 128 * 2 ^ 20"
definition MaxPipelineArtifactTotalBytes :: int where "MaxPipelineArtifactTotalBytes = 128 * 2 ^ 20"
definition MaxPipelineParticipantFileBytes :: int where "MaxPipelineParticipantFileBytes = 8 * 2 ^ 20"
definition MinCommunicationParticipants :: int where "MinCommunicationParticipants = 2"
definition MaxCommunicationParticipants :: int where "MaxCommunicationParticipants = 64"

lemmas bounds_defs =
  MaxTextFieldBytes_def MaxTimeMs_def MaxMemoryMB_def MaxOutputBytes_def
  MaxCommunicationOutputBytes_def MaxCaptureBytes_def MaxWorkspaceBytes_def MaxBinaryFiles_def
  MaxPrograms_def MaxSteps_def MaxPipelineSteps_def MaxStdinParts_def MaxSidecarOutputs_def
  MaxStepHandoffBytes_def MaxBinaryFileBytes_def MaxBinaryTotalBytes_def MaxPipelineResources_def
  MaxPipelineOutputs_def MaxPipelineResourceTotalBytes_def MaxPipelineArtifactTotalBytes_def
  MaxPipelineParticipantFileBytes_def MinCommunicationParticipants_def
  MaxCommunicationParticipants_def

section \<open>Errors\<close>

text \<open>One constructor per message; its arguments are the values the message prints.\<close>

datatype check_error =
    LimitRange string string int int
  | CaptureRange string
  | LangRequired string
  | LangUnsupported string string
  | BinaryPath string nat path_error
  | BinaryDuplicate string
  | BinaryBase64 string nat
  | BinaryTooLarge string
  | BinariesTotal
  | SidecarsTooMany
  | SidecarPath nat path_error
  | SidecarDuplicate string
  | UrlParse
  | UrlScheme
  | UrlHost
  | UrlCredentials
  | SpjBinaryRequired
  | SpjName path_error
  | SpjPayloadRequired
  | SpjPayloadCombined
  | SpjBase64
  | SpjTooLarge string
  | SpjUrl check_error
  | SpjSidecarsTooMany
  | SpjSidecarPath nat path_error
  | SpjSidecarDuplicate string
  | BudgetTooMany
  | BudgetBase64 string nat bool
  | BudgetTotal

section \<open>Limits\<close>

definition out_of_range :: "string \<Rightarrow> string \<Rightarrow> int \<Rightarrow> int \<Rightarrow> int \<Rightarrow> check_error option" where
  "out_of_range name field lo hi v = reject_if (v < lo \<or> v > hi) (LimitRange name field lo hi)"

definition validateOptionalLimits :: "string \<Rightarrow> Limits \<Rightarrow> int \<Rightarrow> check_error option" where
  "validateOptionalLimits name limits maxOutputBytes = first_error
     [out_of_range name ''time_ms'' 0 MaxTimeMs (lim_TimeMs limits),
      out_of_range name ''memory_mb'' 0 MaxMemoryMB (lim_MemoryMB limits),
      out_of_range name ''wall_time_ms'' 0 MaxTimeMs (lim_WallTimeMs limits),
      out_of_range name ''output_bytes'' 0 maxOutputBytes (lim_OutputBytes limits),
      out_of_range name ''workspace_bytes'' 0 MaxWorkspaceBytes (lim_WorkspaceBytes limits)]"

definition validateRequiredLimits :: "string \<Rightarrow> Limits \<Rightarrow> int \<Rightarrow> check_error option" where
  "validateRequiredLimits name limits maxOutputBytes = first_error
     [reject_if (lim_TimeMs limits \<le> 0 \<or> lim_TimeMs limits > MaxTimeMs)
        (LimitRange name ''time_ms'' 1 MaxTimeMs),
      reject_if (lim_MemoryMB limits \<le> 0 \<or> lim_MemoryMB limits > MaxMemoryMB)
        (LimitRange name ''memory_mb'' 1 MaxMemoryMB),
      validateOptionalLimits name limits maxOutputBytes]"

definition ValidateRequiredLimits :: "string \<Rightarrow> Limits \<Rightarrow> check_error option" where
  "ValidateRequiredLimits name limits = validateRequiredLimits name limits MaxOutputBytes"

definition ValidateOptionalLimits :: "string \<Rightarrow> Limits \<Rightarrow> check_error option" where
  "ValidateOptionalLimits name limits = validateOptionalLimits name limits MaxOutputBytes"

definition ValidateCaptureLimits :: "CaptureLimits option \<Rightarrow> check_error option" where
  "ValidateCaptureLimits limits =
     (case limits of
        None \<Rightarrow> None
      | Some l \<Rightarrow> each_error
          (\<lambda>_ (name, val). case val of
              None \<Rightarrow> None
            | Some v \<Rightarrow> reject_if (v < 0 \<or> v > MaxCaptureBytes) (CaptureRange name)) 0
          [(''stdout_bytes'', cl_StdoutBytes l), (''stderr_bytes'', cl_StderrBytes l)])"

definition LimitsAreZero :: "Limits \<Rightarrow> bool" where
  "LimitsAreZero l \<longleftrightarrow> lim_TimeMs l = 0 \<and> lim_WallTimeMs l = 0 \<and> lim_MemoryMB l = 0 \<and>
     lim_OutputBytes l = 0 \<and> lim_WorkspaceBytes l = 0"

text \<open>What accepted limits are: every field in its range, with the time and memory positive.\<close>

definition limits_in_range :: "int \<Rightarrow> Limits \<Rightarrow> bool" where
  "limits_in_range out l \<longleftrightarrow>
     0 \<le> lim_TimeMs l \<and> lim_TimeMs l \<le> MaxTimeMs \<and>
     0 \<le> lim_MemoryMB l \<and> lim_MemoryMB l \<le> MaxMemoryMB \<and>
     0 \<le> lim_WallTimeMs l \<and> lim_WallTimeMs l \<le> MaxTimeMs \<and>
     0 \<le> lim_OutputBytes l \<and> lim_OutputBytes l \<le> out \<and>
     0 \<le> lim_WorkspaceBytes l \<and> lim_WorkspaceBytes l \<le> MaxWorkspaceBytes"

lemma validateOptionalLimits_accepts [accepts]:
  "validateOptionalLimits name l out = None \<longleftrightarrow> limits_in_range out l"
  by (auto simp: validateOptionalLimits_def out_of_range_def limits_in_range_def)

lemma validateRequiredLimits_accepts [accepts]:
  "validateRequiredLimits name l out = None \<longleftrightarrow>
     limits_in_range out l \<and> 0 < lim_TimeMs l \<and> 0 < lim_MemoryMB l"
  by (auto simp: validateRequiredLimits_def accepts) (auto simp: limits_in_range_def)

lemma ValidateRequiredLimits_accepts [accepts]:
  "ValidateRequiredLimits name l = None \<longleftrightarrow>
     limits_in_range MaxOutputBytes l \<and> 0 < lim_TimeMs l \<and> 0 < lim_MemoryMB l"
  by (simp add: ValidateRequiredLimits_def accepts)

lemma ValidateOptionalLimits_accepts [accepts]:
  "ValidateOptionalLimits name l = None \<longleftrightarrow> limits_in_range MaxOutputBytes l"
  by (simp add: ValidateOptionalLimits_def accepts)

lemma ValidateCaptureLimits_accepts [accepts]:
  "ValidateCaptureLimits limits = None \<longleftrightarrow>
     (\<forall>l. limits = Some l \<longrightarrow>
        (\<forall>v. cl_StdoutBytes l = Some v \<or> cl_StderrBytes l = Some v \<longrightarrow> 0 \<le> v \<and> v \<le> MaxCaptureBytes))"
  by (auto simp: ValidateCaptureLimits_def split: option.splits)

section \<open>Run languages\<close>

definition ValidateRunLang :: "string \<Rightarrow> string \<Rightarrow> check_error option" where
  "ValidateRunLang label raw = first_error
     [reject_if (trim_space raw = []) (LangRequired label),
      reject_if (NormalizeRunLang raw \<notin> set supportedRunLangs) (LangUnsupported label (trim_space raw))]"

lemma ValidateRunLang_accepts [accepts]:
  "ValidateRunLang label raw = None \<longleftrightarrow>
     trim_space raw \<noteq> [] \<and> NormalizeRunLang raw \<in> set supportedRunLangs"
  by (simp add: ValidateRunLang_def)

section \<open>Binaries\<close>

text \<open>One iteration of \<open>ValidateBinaries\<close>: the paths seen and the bytes counted so far.\<close>

definition binary_step ::
  "string \<Rightarrow> nat \<Rightarrow> Binary \<Rightarrow> string list \<times> nat \<Rightarrow> check_error + string list \<times> nat" where
  "binary_step label i b s =
     (case s of (seenPaths, totalBytes) \<Rightarrow>
        (case ValidateRelativePath (bin_Name b) of
           Inl e \<Rightarrow> Inl (BinaryPath label i e)
         | Inr clean \<Rightarrow>
             if clean \<in> set seenPaths then Inl (BinaryDuplicate clean)
             else (case b64_decode (bin_DataB64 b) of
                     None \<Rightarrow> Inl (BinaryBase64 label i)
                   | Some data \<Rightarrow>
                       if length data > MaxBinaryFileBytes then Inl (BinaryTooLarge clean)
                       else if totalBytes + length data > MaxBinaryTotalBytes then Inl BinariesTotal
                       else Inr (clean # seenPaths, totalBytes + length data))))"

definition ValidateBinaries :: "string \<Rightarrow> Binary list \<Rightarrow> check_error option" where
  "ValidateBinaries label binaries = err_of (loop_err (binary_step label) 0 binaries ([], 0))"

text \<open>The normalised path and the decoded size of a binary, where they exist.\<close>

definition binary_path :: "Binary \<Rightarrow> string option" where
  "binary_path b = (case ValidateRelativePath (bin_Name b) of Inl _ \<Rightarrow> None | Inr c \<Rightarrow> Some c)"

definition binary_size :: "Binary \<Rightarrow> nat option" where
  "binary_size b = map_option length (b64_decode (bin_DataB64 b))"

definition binaries_ok :: "Binary list \<Rightarrow> bool" where
  "binaries_ok bs \<longleftrightarrow>
     (\<forall>b \<in> set bs. binary_path b \<noteq> None) \<and> distinct (map binary_path bs) \<and>
     (\<forall>b \<in> set bs. \<exists>n \<le> MaxBinaryFileBytes. binary_size b = Some n) \<and>
     (\<Sum>b\<leftarrow>bs. the (binary_size b)) \<le> MaxBinaryTotalBytes"

lemma binary_step_Inr:
  "binary_step label i b (seen, tot) = Inr s' \<longleftrightarrow>
     (\<exists>c n. binary_path b = Some c \<and> c \<notin> set seen \<and> binary_size b = Some n \<and>
       n \<le> MaxBinaryFileBytes \<and> tot + n \<le> MaxBinaryTotalBytes \<and> s' = (c # seen, tot + n))"
  by (auto simp: binary_step_def binary_path_def binary_size_def split: sum.splits option.splits)

lemma binaries_loop:
  assumes "tot \<le> MaxBinaryTotalBytes"
  shows "(\<exists>s'. loop_err (binary_step label) i bs (seen, tot) = Inr s') \<longleftrightarrow>
    (\<forall>b \<in> set bs. binary_path b \<noteq> None \<and> binary_path b \<notin> Some ` set seen) \<and>
    distinct (map binary_path bs) \<and>
    (\<forall>b \<in> set bs. \<exists>n \<le> MaxBinaryFileBytes. binary_size b = Some n) \<and>
    tot + (\<Sum>b\<leftarrow>bs. the (binary_size b)) \<le> MaxBinaryTotalBytes"
  using assms
proof (induction bs arbitrary: i seen tot)
  case Nil
  then show ?case by simp
next
  case (Cons b bs)
  show ?case
  proof (cases "\<exists>s'. binary_step label i b (seen, tot) = Inr s'")
    case True
    then obtain c n where b: "binary_path b = Some c" "c \<notin> set seen" "binary_size b = Some n"
      "n \<le> MaxBinaryFileBytes" "tot + n \<le> MaxBinaryTotalBytes"
      and step: "binary_step label i b (seen, tot) = Inr (c # seen, tot + n)"
      using binary_step_Inr by blast
    have "(\<exists>s'. loop_err (binary_step label) i (b # bs) (seen, tot) = Inr s') \<longleftrightarrow>
          (\<exists>s'. loop_err (binary_step label) (Suc i) bs (c # seen, tot + n) = Inr s')"
      by (simp add: step)
    also have "\<dots> \<longleftrightarrow>
        (\<forall>b \<in> set bs. binary_path b \<noteq> None \<and> binary_path b \<notin> Some ` set (c # seen)) \<and>
        distinct (map binary_path bs) \<and>
        (\<forall>b \<in> set bs. \<exists>n \<le> MaxBinaryFileBytes. binary_size b = Some n) \<and>
        tot + n + (\<Sum>b\<leftarrow>bs. the (binary_size b)) \<le> MaxBinaryTotalBytes"
      by (rule Cons.IH) (use b in simp)
    finally show ?thesis using b by (auto simp: image_iff add.assoc)
  next
    case False
    then have "\<nexists>s'. loop_err (binary_step label) i (b # bs) (seen, tot) = Inr s'"
      by (auto split: sum.splits)
    moreover have "\<not> (binary_path b \<noteq> None \<and> binary_path b \<notin> Some ` set seen \<and>
        (\<exists>n \<le> MaxBinaryFileBytes. binary_size b = Some n \<and> tot + n \<le> MaxBinaryTotalBytes))"
      using False binary_step_Inr by fastforce
    ultimately show ?thesis by fastforce
  qed
qed

lemma ValidateBinaries_accepts [accepts]: "ValidateBinaries label bs = None \<longleftrightarrow> binaries_ok bs"
  using binaries_loop [of 0 label 0 bs "[]"]
  by (auto simp: ValidateBinaries_def err_of_None_iff binaries_ok_def)

lemma binaries_ok_decoded:
  "binaries_ok bs \<Longrightarrow> b \<in> set bs \<Longrightarrow> \<exists>d. b64_decode (bin_DataB64 b) = Some d \<and> length d \<le> MaxBinaryFileBytes"
  by (fastforce simp: binaries_ok_def binary_size_def)

lemma binaries_ok_path:
  "binaries_ok bs \<Longrightarrow> b \<in> set bs \<Longrightarrow> \<exists>c. ValidateRelativePath (bin_Name b) = Inr c"
  by (cases "ValidateRelativePath (bin_Name b)") (auto simp: binaries_ok_def binary_path_def)

section \<open>Output paths\<close>

definition path_step ::
  "(nat \<Rightarrow> path_error \<Rightarrow> 'e) \<Rightarrow> (string \<Rightarrow> 'e) \<Rightarrow> nat \<Rightarrow> OutputFile \<Rightarrow> string list \<Rightarrow> 'e + string list" where
  "path_step bad dup i spec seen =
     (case ValidateRelativePath (outf_Path spec) of
        Inl e \<Rightarrow> Inl (bad i e)
      | Inr clean \<Rightarrow> if clean \<in> set seen then Inl (dup clean) else Inr (clean # seen))"

definition ValidateSidecarOutputs :: "OutputFile list \<Rightarrow> check_error option" where
  "ValidateSidecarOutputs specs = first_error
     [reject_if (length specs > MaxSidecarOutputs) SidecarsTooMany,
      err_of (loop_err (path_step SidecarPath SidecarDuplicate) 0 specs [])]"

definition output_path :: "OutputFile \<Rightarrow> string option" where
  "output_path f = (case ValidateRelativePath (outf_Path f) of Inl _ \<Rightarrow> None | Inr c \<Rightarrow> Some c)"

definition output_paths_ok :: "OutputFile list \<Rightarrow> bool" where
  "output_paths_ok fs \<longleftrightarrow> (\<forall>f \<in> set fs. output_path f \<noteq> None) \<and> distinct (map output_path fs)"

lemma path_loop:
  "(\<exists>s'. loop_err (path_step bad dup) i fs seen = Inr s') \<longleftrightarrow>
    (\<forall>f \<in> set fs. output_path f \<noteq> None \<and> output_path f \<notin> Some ` set seen) \<and> distinct (map output_path fs)"
proof (induction fs arbitrary: i seen)
  case Nil
  show ?case by simp
next
  case (Cons f fs)
  show ?case
  proof (cases "\<exists>c. output_path f = Some c \<and> c \<notin> set seen")
    case True
    then obtain c where c: "output_path f = Some c" "c \<notin> set seen" by blast
    then have "path_step bad dup i f seen = Inr (c # seen)"
      by (auto simp: path_step_def output_path_def split: sum.splits)
    then show ?thesis using c by (auto simp: Cons.IH image_iff)
  next
    case False
    then have "\<exists>e. path_step bad dup i f seen = Inl e"
      by (auto simp: path_step_def output_path_def split: sum.splits)
    then have "\<nexists>s'. loop_err (path_step bad dup) i (f # fs) seen = Inr s'" by auto
    then show ?thesis using False by force
  qed
qed

lemma ValidateSidecarOutputs_accepts [accepts]:
  "ValidateSidecarOutputs fs = None \<longleftrightarrow> length fs \<le> MaxSidecarOutputs \<and> output_paths_ok fs"
  using path_loop [of SidecarPath SidecarDuplicate 0 fs "[]"]
  by (auto simp: ValidateSidecarOutputs_def err_of_None_iff output_paths_ok_def)

section \<open>Payload URLs\<close>

definition payloadurl_Validate :: "env \<Rightarrow> string \<Rightarrow> check_error option" where
  "payloadurl_Validate E rawURL =
     (case env_url_parse E rawURL of
        None \<Rightarrow> Some UrlParse
      | Some u \<Rightarrow> first_error
          [reject_if (to_lower (url_Scheme u) \<notin> {''http'', ''https''}) UrlScheme,
           reject_if (url_Hostname u = []) UrlHost,
           reject_if (url_has_User u) UrlCredentials])"

section \<open>The special judge\<close>

definition ValidateSPJ :: "env \<Rightarrow> SPJSpec option \<Rightarrow> check_error option" where
  "ValidateSPJ E spec =
     (case spec of
        None \<Rightarrow> None
      | Some s \<Rightarrow> first_error
          [case spj_Limits s of None \<Rightarrow> None | Some l \<Rightarrow> ValidateOptionalLimits ''spj.limits'' l,
           (case spj_Binary s of
              None \<Rightarrow> Some SpjBinaryRequired
            | Some b \<Rightarrow>
                (case ValidateRelativePath (bin_Name b) of
                   Inl e \<Rightarrow> Some (SpjName e)
                 | Inr cleanName \<Rightarrow>
                     (let dataB64 = trim_space (bin_DataB64 b); dataURL = trim_space (bin_DataURL b) in
                      first_error
                        [reject_if (dataB64 = [] \<and> dataURL = []) SpjPayloadRequired,
                         reject_if (dataB64 \<noteq> [] \<and> dataURL \<noteq> []) SpjPayloadCombined,
                         if dataB64 \<noteq> [] then
                           (case b64_decode (bin_DataB64 b) of
                              None \<Rightarrow> Some SpjBase64
                            | Some data \<Rightarrow>
                                reject_if (length data > MaxBinaryFileBytes) (SpjTooLarge cleanName))
                         else map_option SpjUrl (payloadurl_Validate E dataURL)]))),
           ValidateRunLang ''spj.lang'' (spj_Lang s),
           reject_if (length (spj_SidecarOutputs s) > MaxSidecarOutputs) SpjSidecarsTooMany,
           err_of (loop_err (path_step SpjSidecarPath SpjSidecarDuplicate) 0 (spj_SidecarOutputs s) [])])"

text \<open>What an accepted special judge is.\<close>

definition spj_ok :: "env \<Rightarrow> SPJSpec \<Rightarrow> bool" where
  "spj_ok E s \<longleftrightarrow>
     (\<forall>l. spj_Limits s = Some l \<longrightarrow> limits_in_range MaxOutputBytes l) \<and>
     (\<exists>b c. spj_Binary s = Some b \<and> ValidateRelativePath (bin_Name b) = Inr c \<and>
        (trim_space (bin_DataB64 b) = [] \<longleftrightarrow> trim_space (bin_DataURL b) \<noteq> []) \<and>
        (trim_space (bin_DataB64 b) \<noteq> [] \<longrightarrow>
           (\<exists>d. b64_decode (bin_DataB64 b) = Some d \<and> length d \<le> MaxBinaryFileBytes)) \<and>
        (trim_space (bin_DataB64 b) = [] \<longrightarrow>
           payloadurl_Validate E (trim_space (bin_DataURL b)) = None)) \<and>
     trim_space (spj_Lang s) \<noteq> [] \<and> NormalizeRunLang (spj_Lang s) \<in> set supportedRunLangs \<and>
     length (spj_SidecarOutputs s) \<le> MaxSidecarOutputs \<and> output_paths_ok (spj_SidecarOutputs s)"

lemma sidecar_loop_accepts:
  "err_of (loop_err (path_step bad dup) 0 fs []) = None \<longleftrightarrow> output_paths_ok fs"
  using path_loop [of bad dup 0 fs "[]"] by (auto simp: err_of_None_iff output_paths_ok_def)

lemma ValidateSPJ_accepts [accepts]:
  "ValidateSPJ E spec = None \<longleftrightarrow> (\<forall>s. spec = Some s \<longrightarrow> spj_ok E s)"
  by (cases spec)
    (auto simp: ValidateSPJ_def spj_ok_def accepts sidecar_loop_accepts Let_def
      split: option.splits sum.splits if_splits)

end
