(* ===== verification/Run_Pipeline.thy ===== *)
theory Run_Pipeline
  imports Run_Checks "HOL-Library.Multiset"
begin

text \<open>
  \<open>ValidatePipelineV1\<close> and \<open>canonicalPipelineRefID\<close> of internal/runvalidation/validation.go: the
  requests that describe a pipeline of at most two steps, with named resources as inputs and
  artifacts as the files that pass between the steps.

  Go ranges over the map of resources in an order it does not promise. The list
  \<open>pl_Resources\<close> holds the entries in the order of one such iteration.
\<close>

datatype judge_error =
    JudgeKind
  | JudgeInputType
  | JudgeInputUnknown string
  | JudgeExpectedType
  | JudgeExpectedUnknown string
  | JudgeActualType
  | JudgeActualUnknown string
  | JudgeActualStep
  | JudgeFields
  | JudgeSpjRequired
  | JudgeSpjSidecars
  | JudgeSpj check_error
  | JudgeSpjOnly

datatype executor_error =
    BatchUnknown string string
  | BatchInteractiveIDs string
  | BatchLimits string
  | BatchAnswer string
  | ParticipantUnknown string string
  | InteractorUnknown string string
  | InteractorNetwork string
  | InteractiveProgramID string
  | AnswerType string
  | AnswerUnknown string string
  | ExecutorKind string

datatype flow_error =
    StdinTooMany string
  | StdinStepID string nat
  | StdinResource string nat string
  | StdinArtifact string nat string
  | StdinType string nat
  | OutputsTooMany string
  | OutputID string nat
  | ArtifactDuplicate string
  | OutputMaxBytes string string
  | ArtifactTotal
  | StdoutPath string
  | FileMaxBytes string
  | FilePath string path_error
  | InteractorOutputKind string
  | InteractorOutputPath string
  | SourceKind string string
  | ParticipantFiles string

datatype pipe_error =
    PipeRequired
  | PipeVersion int
  | PipeLegacyFields
  | PipeSidecars
  | PipeIgnoreTLE
  | PipeResourcesRequired
  | PipeTooManyResources
  | PipeResourceID string
  | PipeResourceCombined string
  | PipeResourceBase64 string
  | PipeResourceTooLarge string
  | PipeResourcesTotal
  | PipeProgramsRequired
  | PipeTooManyPrograms
  | PipeProgramID nat
  | PipeProgramDuplicate string
  | PipeProgramNoBinaries string
  | PipeCheck check_error
  | PipeStepsRequired
  | PipeTooManySteps
  | PipeStepID nat
  | PipeStepDuplicate string
  | PipeCanonical string
  | PipeExecutor executor_error
  | PipeFlow flow_error
  | PipeProgramUnused string
  | PipeJudge judge_error

section \<open>Resources and programs\<close>

definition canonicalPipelineRefID :: "string \<Rightarrow> string \<Rightarrow> pipe_error + string" where
  "canonicalPipelineRefID label raw =
     (if trim_space raw = [] \<or> trim_space raw \<noteq> raw then Inl (PipeCanonical label)
      else Inr (trim_space raw))"

text \<open>The kind of a reference, of an executor or of a judge is compared without case or spaces.\<close>

definition kind_of :: "string \<Rightarrow> string" where
  "kind_of raw = to_lower (trim_space raw)"

definition resource_step ::
  "nat \<Rightarrow> string \<times> PipelineResource \<Rightarrow> string list \<times> nat \<Rightarrow> pipe_error + string list \<times> nat" where
  "resource_step i entry s =
     (case (entry, s) of ((rawID, resource), (resources, resourceBytes)) \<Rightarrow>
        (let rid = trim_space rawID in
         if rid = [] \<or> rid \<noteq> rawID then Inl (PipeResourceID rawID)
         else if prs_DataB64 resource \<noteq> [] \<and> trim_space (prs_DataURL resource) \<noteq> []
           then Inl (PipeResourceCombined rid)
         else (case b64_decode (prs_DataB64 resource) of
                 None \<Rightarrow> Inl (PipeResourceBase64 rid)
               | Some decoded \<Rightarrow>
                   if length decoded > MaxTextFieldBytes then Inl (PipeResourceTooLarge rid)
                   else if resourceBytes + length decoded > MaxPipelineResourceTotalBytes
                     then Inl PipeResourcesTotal
                   else Inr (rid # resources, resourceBytes + length decoded))))"

definition pipe_program_step ::
  "nat \<Rightarrow> RunProgram \<Rightarrow> (string \<times> RunProgram) list \<Rightarrow> pipe_error + (string \<times> RunProgram) list" where
  "pipe_program_step i program programs =
     (let pid = trim_space (prog_ID program) in
      checked (first_error
        [reject_if (pid = [] \<or> pid \<noteq> prog_ID program) (PipeProgramID i),
         reject_if (map_of programs pid \<noteq> None) (PipeProgramDuplicate pid),
         map_option PipeCheck
           (ValidateRunLang (''pipeline program '' @ pid @ '' lang'') (prog_Lang program)),
         reject_if (prog_Binaries program = []) (PipeProgramNoBinaries pid),
         map_option PipeCheck
           (ValidateBinaries (''pipeline program '' @ pid @ '' binaries'') (prog_Binaries program))])
        (Inr ((pid, program) # programs)))"

section \<open>Steps\<close>

text \<open>The executor of a step: the programs it uses.\<close>

definition batch_executor ::
  "(string \<times> RunProgram) list \<Rightarrow> string \<Rightarrow> PipelineExecutor \<Rightarrow> pipe_error + string list" where
  "batch_executor programs stepID ex =
     and_then (canonicalPipelineRefID (''pipeline step '' @ stepID @ '' program_id'') (ex_ProgramID ex))
       (\<lambda>programID. checked (first_error
          [reject_if (map_of programs programID = None) (PipeExecutor (BatchUnknown stepID (ex_ProgramID ex))),
           reject_if (ex_ParticipantProgramID ex \<noteq> [] \<or> ex_InteractorProgramID ex \<noteq> [])
             (PipeExecutor (BatchInteractiveIDs stepID)),
           reject_if (ex_InteractorLimits ex \<noteq> None) (PipeExecutor (BatchLimits stepID)),
           reject_if (ex_InteractorAnswer ex \<noteq> None) (PipeExecutor (BatchAnswer stepID))])
          (Inr [programID]))"

definition interactive_answer ::
  "string list \<Rightarrow> string \<Rightarrow> PipelineRef option \<Rightarrow> pipe_error option" where
  "interactive_answer resources stepID ref0 =
     (case ref0 of
        None \<Rightarrow> None
      | Some answer \<Rightarrow> err_of
          (checked (reject_if (kind_of (ref_Type answer) \<noteq> ''resource'' \<or> ref_StepID answer \<noteq> [])
             (PipeExecutor (AnswerType stepID)))
           (and_then (canonicalPipelineRefID
               (''pipeline interactive step '' @ stepID @ '' interactor_answer.id'') (ref_ID answer))
             (\<lambda>answerID. checked (reject_if (answerID \<notin> set resources)
                (PipeExecutor (AnswerUnknown stepID (ref_ID answer)))) (Inr ())))))"

definition interactive_executor ::
  "string list \<Rightarrow> (string \<times> RunProgram) list \<Rightarrow> string \<Rightarrow> PipelineExecutor \<Rightarrow> pipe_error + string list" where
  "interactive_executor resources programs stepID ex =
     and_then (canonicalPipelineRefID
         (''pipeline interactive step '' @ stepID @ '' participant_program_id'') (ex_ParticipantProgramID ex))
       (\<lambda>participantID.
         and_then (canonicalPipelineRefID
             (''pipeline interactive step '' @ stepID @ '' interactor_program_id'') (ex_InteractorProgramID ex))
           (\<lambda>interactorID. checked (first_error
              [reject_if (map_of programs participantID = None)
                 (PipeExecutor (ParticipantUnknown stepID (ex_ParticipantProgramID ex))),
               (case map_of programs interactorID of
                  None \<Rightarrow> Some (PipeExecutor (InteractorUnknown stepID (ex_InteractorProgramID ex)))
                | Some program \<Rightarrow> reject_if (prog_EnableNetwork program) (PipeExecutor (InteractorNetwork stepID))),
               reject_if (ex_ProgramID ex \<noteq> []) (PipeExecutor (InteractiveProgramID stepID)),
               (case ex_InteractorLimits ex of
                  None \<Rightarrow> None
                | Some l \<Rightarrow> map_option PipeCheck (ValidateRequiredLimits
                    (''pipeline step '' @ stepID @ '' executor.interactor_limits'') l)),
               interactive_answer resources stepID (ex_InteractorAnswer ex)])
              (Inr [interactorID, participantID])))"

definition pipe_executor ::
  "string list \<Rightarrow> (string \<times> RunProgram) list \<Rightarrow> string \<Rightarrow> PipelineExecutor \<Rightarrow> pipe_error + string list" where
  "pipe_executor resources programs stepID ex =
     (if kind_of (ex_Kind ex) = ''batch'' then batch_executor programs stepID ex
      else if kind_of (ex_Kind ex) = ''interactive'' then interactive_executor resources programs stepID ex
      else Inl (PipeExecutor (ExecutorKind stepID)))"

text \<open>A reference on the standard input of step number \<open>i\<close>.\<close>

definition stdin_ref ::
  "string list \<Rightarrow> (string \<times> nat) list \<Rightarrow> string \<Rightarrow> nat \<Rightarrow> nat \<Rightarrow> PipelineRef \<Rightarrow> pipe_error option" where
  "stdin_ref resources artifacts stepID i j ref = err_of
     (and_then (canonicalPipelineRefID (''pipeline step '' @ stepID @ '' stdin['' @ dec j @ ''].id'') (ref_ID ref))
       (\<lambda>rid. checked (reject_if (ref_StepID ref \<noteq> []) (PipeFlow (StdinStepID stepID j)))
         (if kind_of (ref_Type ref) = ''resource'' then
            (if rid \<in> set resources then Inr () else Inl (PipeFlow (StdinResource stepID j (ref_ID ref))))
          else if kind_of (ref_Type ref) = ''artifact'' then
            (case map_of artifacts rid of
               None \<Rightarrow> Inl (PipeFlow (StdinArtifact stepID j (ref_ID ref)))
             | Some producer \<Rightarrow>
                 if producer \<ge> i then Inl (PipeFlow (StdinArtifact stepID j (ref_ID ref))) else Inr ())
          else Inl (PipeFlow (StdinType stepID j)))))"

text \<open>
  One output of step number \<open>i\<close>, whose executor is of kind \<open>kind\<close>. The loop variables are the
  artifacts, the sum of their sizes and the number of participant files of the step.
\<close>

definition output_source_check :: "string \<Rightarrow> string \<Rightarrow> PipelineOutput \<Rightarrow> pipe_error option" where
  "output_source_check kind oid output =
     (let src = po_Source output; sourceKind = kind_of (os_Kind src) in
      if sourceKind = ''participant_stdout'' then
        reject_if (trim_space (os_Path src) \<noteq> []) (PipeFlow (StdoutPath oid))
      else if sourceKind = ''participant_file'' then first_error
        [reject_if (po_MaxBytes output > MaxPipelineParticipantFileBytes) (PipeFlow (FileMaxBytes oid)),
         map_option (PipeFlow \<circ> FilePath oid) (err_of (ValidateRelativePath (os_Path src)))]
      else if sourceKind = ''interactor_output'' then first_error
        [reject_if (kind \<noteq> ''interactive'') (PipeFlow (InteractorOutputKind oid)),
         reject_if (trim_space (os_Path src) \<noteq> []) (PipeFlow (InteractorOutputPath oid))]
      else Some (PipeFlow (SourceKind oid (os_Kind src))))"

definition output_step ::
  "string \<Rightarrow> string \<Rightarrow> nat \<Rightarrow> nat \<Rightarrow> PipelineOutput \<Rightarrow> (string \<times> nat) list \<times> int \<times> nat \<Rightarrow>
   pipe_error + (string \<times> nat) list \<times> int \<times> nat" where
  "output_step stepID kind i j output s =
     (case s of (artifacts, artifactMaxBytes, participantFiles) \<Rightarrow>
        (let oid = trim_space (po_ID output) in
         checked (first_error
           [reject_if (oid = [] \<or> oid \<noteq> po_ID output) (PipeFlow (OutputID stepID j)),
            reject_if (map_of artifacts oid \<noteq> None) (PipeFlow (ArtifactDuplicate oid)),
            reject_if (po_MaxBytes output \<le> 0 \<or> po_MaxBytes output > MaxStepHandoffBytes)
              (PipeFlow (OutputMaxBytes stepID oid)),
            reject_if (artifactMaxBytes + po_MaxBytes output > MaxPipelineArtifactTotalBytes)
              (PipeFlow ArtifactTotal),
            output_source_check kind oid output])
           (Inr ((oid, i) # artifacts, artifactMaxBytes + po_MaxBytes output,
              if kind_of (os_Kind (po_Source output)) = ''participant_file''
              then participantFiles + 1 else participantFiles))))"

text \<open>One step: the artifacts and their total, the steps and the programs used.\<close>

type_synonym pipe_vars = "(string \<times> nat) list \<times> int \<times> (string \<times> nat) list \<times> string list"

definition pipe_step ::
  "string list \<Rightarrow> (string \<times> RunProgram) list \<Rightarrow> nat \<Rightarrow> PipelineStep \<Rightarrow> pipe_vars \<Rightarrow> pipe_error + pipe_vars" where
  "pipe_step resources programs i step s =
     (case s of (artifacts, artifactMaxBytes, steps, usedPrograms) \<Rightarrow>
        (let stepID = trim_space (ps_ID step); kind = kind_of (ex_Kind (ps_Executor step)) in
         checked (first_error
           [reject_if (stepID = [] \<or> stepID \<noteq> ps_ID step) (PipeStepID i),
            reject_if (map_of steps stepID \<noteq> None) (PipeStepDuplicate stepID),
            map_option PipeCheck
              (ValidateRequiredLimits (''pipeline step '' @ stepID @ '' limits'') (ps_Limits step))])
         (and_then (pipe_executor resources programs stepID (ps_Executor step))
           (\<lambda>used. checked (first_error
              [reject_if (length (ps_Stdin step) > MaxStdinParts) (PipeFlow (StdinTooMany stepID)),
               each_error (stdin_ref resources artifacts stepID i) 0 (ps_Stdin step),
               reject_if (length (ps_Outputs step) > MaxPipelineOutputs)
                 (PipeFlow (OutputsTooMany stepID))])
             (and_then
               (loop_err (output_step stepID kind i) 0 (ps_Outputs step) (artifacts, artifactMaxBytes, 0))
               (\<lambda>(artifacts', artifactMaxBytes', participantFiles).
                  if participantFiles > 1 then Inl (PipeFlow (ParticipantFiles stepID))
                  else Inr (artifacts', artifactMaxBytes', (stepID, i) # steps, used @ usedPrograms)))))))"

section \<open>The final judge and the whole request\<close>

definition judge_resource ::
  "string list \<Rightarrow> pipe_error \<Rightarrow> (string \<Rightarrow> pipe_error) \<Rightarrow> string \<Rightarrow> PipelineRef \<Rightarrow> pipe_error option" where
  "judge_resource resources badType unknown label ref = first_error
     [reject_if (kind_of (ref_Type ref) \<noteq> ''resource'') badType,
      err_of (and_then (canonicalPipelineRefID label (ref_ID ref))
        (\<lambda>rid. if rid \<in> set resources then Inr () else Inl (unknown (ref_ID ref))))]"

definition final_judge_check ::
  "env \<Rightarrow> string list \<Rightarrow> (string \<times> nat) list \<Rightarrow> nat \<Rightarrow> PipelineFinalJudge \<Rightarrow> pipe_error option" where
  "final_judge_check E resources steps n judge =
     (let judgeKind = kind_of (fj_Kind judge) in first_error
        [reject_if (judgeKind \<noteq> ''diff'' \<and> judgeKind \<noteq> ''spj'') (PipeJudge JudgeKind),
         judge_resource resources (PipeJudge JudgeInputType) (PipeJudge \<circ> JudgeInputUnknown)
           ''pipeline final_judge.input.id'' (fj_Input judge),
         judge_resource resources (PipeJudge JudgeExpectedType) (PipeJudge \<circ> JudgeExpectedUnknown)
           ''pipeline final_judge.expected.id'' (fj_Expected judge),
         reject_if (kind_of (ref_Type (fj_Actual judge)) \<noteq> ''step_stdout'') (PipeJudge JudgeActualType),
         err_of (and_then
           (canonicalPipelineRefID ''pipeline final_judge.actual.step_id'' (ref_StepID (fj_Actual judge)))
           (\<lambda>actualStepID. case map_of steps actualStepID of
              None \<Rightarrow> Inl (PipeJudge (JudgeActualUnknown (ref_StepID (fj_Actual judge))))
            | Some actualStep \<Rightarrow> if actualStep \<noteq> n - 1 then Inl (PipeJudge JudgeActualStep) else Inr ())),
         reject_if (ref_ID (fj_Actual judge) \<noteq> [] \<or> ref_StepID (fj_Input judge) \<noteq> [] \<or>
             ref_StepID (fj_Expected judge) \<noteq> []) (PipeJudge JudgeFields),
         if judgeKind = ''spj'' then
           (case fj_SPJ judge of
              None \<Rightarrow> Some (PipeJudge JudgeSpjRequired)
            | Some s \<Rightarrow> first_error
                [reject_if (spj_SidecarOutputs s \<noteq> []) (PipeJudge JudgeSpjSidecars),
                 map_option (PipeJudge \<circ> JudgeSpj) (ValidateSPJ E (Some s))])
         else reject_if (fj_SPJ judge \<noteq> None) (PipeJudge JudgeSpjOnly)])"

definition pipe_header :: "RunRequest \<Rightarrow> PipelineV1 \<Rightarrow> pipe_error option" where
  "pipe_header req pl = first_error
     [reject_if (pl_Version pl \<noteq> 1) (PipeVersion (pl_Version pl)),
      reject_if (rq_Lang req \<noteq> [] \<or> rq_Binaries req \<noteq> [] \<or> rq_Programs req \<noteq> [] \<or> rq_Steps req \<noteq> [] \<or>
          rq_Stdin req \<noteq> [] \<or> trim_space (rq_StdinURL req) \<noteq> [] \<or> rq_ExpectedStdout req \<noteq> [] \<or>
          trim_space (rq_ExpectedStdoutURL req) \<noteq> [] \<or> rq_EntryPoint req \<noteq> [] \<or> rq_EnableNetwork req \<or>
          rq_Interactor req \<noteq> None \<or> rq_SPJ req \<noteq> None \<or> rq_Communication req \<noteq> None \<or>
          rq_FileOutputs req \<noteq> [] \<or> \<not> LimitsAreZero (rq_Limits req)) PipeLegacyFields,
      reject_if (rq_SidecarOutputs req \<noteq> []) PipeSidecars,
      reject_if (rq_IgnoreTLE req) PipeIgnoreTLE,
      reject_if (pl_Resources pl = []) PipeResourcesRequired,
      reject_if (length (pl_Resources pl) > MaxPipelineResources) PipeTooManyResources]"

text \<open>The checks after the loop over the resources.\<close>

definition pipe_body :: "env \<Rightarrow> PipelineV1 \<Rightarrow> string list \<Rightarrow> pipe_error + unit" where
  "pipe_body E pl resources =
     checked (first_error
       [reject_if (pl_Programs pl = []) PipeProgramsRequired,
        reject_if (length (pl_Programs pl) > MaxPrograms) PipeTooManyPrograms])
     (and_then (loop_err pipe_program_step 0 (pl_Programs pl) []) (\<lambda>programs.
        checked (first_error
          [reject_if (pl_Steps pl = []) PipeStepsRequired,
           reject_if (length (pl_Steps pl) > MaxPipelineSteps) PipeTooManySteps])
        (and_then (loop_err (pipe_step resources programs) 0 (pl_Steps pl) ([], 0, [], []))
          (\<lambda>(artifacts, artifactMaxBytes, steps, usedPrograms). checked (first_error
             [each_error (\<lambda>_ program. reject_if (prog_ID program \<notin> set usedPrograms)
                (PipeProgramUnused (prog_ID program))) 0 (pl_Programs pl),
              final_judge_check E resources steps (length (pl_Steps pl)) (pl_FinalJudge pl)])
             (Inr ())))))"

definition ValidatePipelineV1 :: "env \<Rightarrow> RunRequest \<Rightarrow> pipe_error option" where
  "ValidatePipelineV1 E req =
     (case rq_Pipeline req of
        None \<Rightarrow> Some PipeRequired
      | Some pl \<Rightarrow> err_of (checked (pipe_header req pl)
          (and_then (loop_err resource_step 0 (pl_Resources pl) ([], 0))
             (\<lambda>(resources, resourceBytes). pipe_body E pl resources))))"

section \<open>What is accepted\<close>

lemma canonical_Inr [accepts]:
  "canonicalPipelineRefID label raw = Inr rid \<longleftrightarrow> raw \<noteq> [] \<and> trim_space raw = raw \<and> rid = raw"
  by (auto simp: canonicalPipelineRefID_def)

definition resource_ok :: "string \<times> PipelineResource \<Rightarrow> bool" where
  "resource_ok e \<longleftrightarrow>
     fst e \<noteq> [] \<and> trim_space (fst e) = fst e \<and>
     (prs_DataB64 (snd e) = [] \<or> trim_space (prs_DataURL (snd e)) = []) \<and>
     (\<exists>d. b64_decode (prs_DataB64 (snd e)) = Some d \<and> length d \<le> MaxTextFieldBytes)"

definition resource_size :: "string \<times> PipelineResource \<Rightarrow> nat" where
  "resource_size e = (case b64_decode (prs_DataB64 (snd e)) of None \<Rightarrow> 0 | Some d \<Rightarrow> length d)"

lemma resource_step_Inr:
  "resource_step i e (rs, n) = Inr s' \<longleftrightarrow>
     resource_ok e \<and> n + resource_size e \<le> MaxPipelineResourceTotalBytes \<and>
     s' = (fst e # rs, n + resource_size e)"
  by (cases e)
    (auto simp: resource_step_def resource_ok_def resource_size_def Let_def split: option.splits)

lemma resource_loop:
  assumes "n \<le> MaxPipelineResourceTotalBytes"
  shows "loop_err resource_step i es (rs, n) = Inr s' \<longleftrightarrow>
    (\<forall>e \<in> set es. resource_ok e) \<and>
    n + sum_list (map resource_size es) \<le> MaxPipelineResourceTotalBytes \<and>
    s' = (rev (map fst es) @ rs, n + sum_list (map resource_size es))"
  using assms
proof (induction es arbitrary: i rs n)
  case Nil
  then show ?case by auto
next
  case (Cons e es)
  show ?case
  proof (cases "resource_ok e \<and> n + resource_size e \<le> MaxPipelineResourceTotalBytes")
    case True
    then have "resource_step i e (rs, n) = Inr (fst e # rs, n + resource_size e)"
      by (simp add: resource_step_Inr)
    with Cons.IH [of "n + resource_size e" "Suc i" "fst e # rs"] True show ?thesis
      by (auto simp: add.assoc)
  next
    case False
    then obtain err where "resource_step i e (rs, n) = Inl err"
      by (metis old.sum.exhaust resource_step_Inr)
    with False show ?thesis by auto
  qed
qed

lemma pipe_program_loop:
  assumes "loop_err pipe_program_step 0 ps [] = Inr programs"
  shows "programs = rev (map (\<lambda>p. (prog_ID p, p)) ps) \<and> distinct (map prog_ID ps) \<and>
    (\<forall>p \<in> set ps. prog_ID p \<noteq> [] \<and> NormalizeRunLang (prog_Lang p) \<in> set supportedRunLangs \<and>
       prog_Binaries p \<noteq> [] \<and> binaries_ok (prog_Binaries p))"
  using assms
proof (rule loop_err_invariant, goal_cases)
  case 1
  then show ?case by simp
next
  case (2 k x ys u v)
  then show ?case
    by (auto simp: pipe_program_step_def Let_def accepts map_of_eq_None_iff image_iff)
qed

lemma map_of_programs:
  "distinct (map prog_ID ps) \<Longrightarrow>
   map_of (rev (map (\<lambda>p. (prog_ID p, p)) ps)) q = Some p \<longleftrightarrow> p \<in> set ps \<and> prog_ID p = q"
  by (subst map_of_eq_Some_iff) (auto simp: rev_map [symmetric] o_def)

lemma map_of_programs_None:
  "map_of (rev (map (\<lambda>p. (prog_ID p, p)) ps)) q = None \<longleftrightarrow> q \<notin> prog_ID ` set ps"
  by (force simp: map_of_eq_None_iff)

text \<open>The programs an accepted executor names.\<close>

definition executor_programs :: "PipelineExecutor \<Rightarrow> string list" where
  "executor_programs ex =
     (if kind_of (ex_Kind ex) = ''batch'' then [ex_ProgramID ex]
      else [ex_InteractorProgramID ex, ex_ParticipantProgramID ex])"

definition executor_ok :: "string set \<Rightarrow> (string \<rightharpoonup> RunProgram) \<Rightarrow> PipelineExecutor \<Rightarrow> bool" where
  "executor_ok resources programs ex \<longleftrightarrow>
     (kind_of (ex_Kind ex) = ''batch'' \<or> kind_of (ex_Kind ex) = ''interactive'') \<and>
     (\<forall>q \<in> set (executor_programs ex). programs q \<noteq> None) \<and>
     (\<forall>l. ex_InteractorLimits ex = Some l \<longrightarrow>
        limits_in_range MaxOutputBytes l \<and> 0 < lim_TimeMs l \<and> 0 < lim_MemoryMB l) \<and>
     (kind_of (ex_Kind ex) = ''batch'' \<longrightarrow>
        ex_ParticipantProgramID ex = [] \<and> ex_InteractorProgramID ex = [] \<and>
        ex_InteractorLimits ex = None \<and> ex_InteractorAnswer ex = None) \<and>
     (kind_of (ex_Kind ex) = ''interactive'' \<longrightarrow>
        ex_ProgramID ex = [] \<and>
        (\<exists>p. programs (ex_InteractorProgramID ex) = Some p \<and> \<not> prog_EnableNetwork p) \<and>
        (\<forall>a. ex_InteractorAnswer ex = Some a \<longrightarrow> ref_ID a \<in> resources \<and> ref_StepID a = []))"

lemma pipe_executor_accepts:
  assumes "pipe_executor resources programs stepID ex = Inr used"
  shows "used = executor_programs ex" and "executor_ok (set resources) (map_of programs) ex"
  using assms
  by (auto simp: pipe_executor_def batch_executor_def interactive_executor_def and_then_Inr_iff
      accepts executor_programs_def executor_ok_def interactive_answer_def err_of_None_iff
      split: if_splits option.splits)

text \<open>A reference on standard input: a resource, or an artifact of an earlier step.\<close>

definition ref_ok :: "string set \<Rightarrow> string set \<Rightarrow> PipelineRef \<Rightarrow> bool" where
  "ref_ok resources artifacts r \<longleftrightarrow>
     ref_StepID r = [] \<and>
     (kind_of (ref_Type r) = ''resource'' \<and> ref_ID r \<in> resources \<or>
      kind_of (ref_Type r) = ''artifact'' \<and> ref_ID r \<in> artifacts)"

lemma stdin_ref_accepts:
  "stdin_ref resources artifacts stepID i j r = None \<Longrightarrow>
     ref_ok (set resources) (fst ` set artifacts) r"
  by (auto simp: stdin_ref_def ref_ok_def err_of_None_iff and_then_Inr_iff accepts
      dest: map_of_SomeD split: if_splits option.splits) (force dest: map_of_SomeD)+

definition step_outputs :: "PipelineStep \<Rightarrow> string list" where
  "step_outputs s = map po_ID (ps_Outputs s)"

text \<open>The outputs of a step, after the loop that visits them.\<close>

definition outputs_done ::
  "string \<Rightarrow> nat \<Rightarrow> (string \<times> nat) list \<Rightarrow> int \<Rightarrow> PipelineOutput list \<Rightarrow> (string \<times> nat) list \<times> int \<times> nat \<Rightarrow> bool" where
  "outputs_done kind i as m os v \<longleftrightarrow>
     fst v = rev (map (\<lambda>output. (po_ID output, i)) os) @ as \<and>
     fst (snd v) = m + sum_list (map po_MaxBytes os) \<and>
     (m \<le> MaxPipelineArtifactTotalBytes \<longrightarrow> fst (snd v) \<le> MaxPipelineArtifactTotalBytes) \<and>
     (distinct (map fst as) \<longrightarrow> distinct (map fst (fst v))) \<and>
     (\<forall>output \<in> set os. 0 < po_MaxBytes output \<and> po_MaxBytes output \<le> MaxStepHandoffBytes \<and>
        output_source_check kind (po_ID output) output = None)"

lemma output_loop:
  assumes "loop_err (output_step stepID kind i) 0 os (as, m, 0) = Inr v"
  shows "outputs_done kind i as m os v"
  using assms
proof (rule loop_err_invariant, goal_cases)
  case 1
  then show ?case by (simp add: outputs_done_def)
next
  case (2 k x ys u v)
  then show ?case
    by (cases u; cases v)
      (auto simp: outputs_done_def output_step_def Let_def accepts map_of_eq_None_iff image_iff)
qed

section \<open>The data flow of an accepted pipeline\<close>

text \<open>
  \<open>flow_ok\<close> is the contract of the steps \<open>ss\<close>: ids are distinct, the artifacts are named once in
  the whole pipeline and stay within the total, an artifact is read only by steps that come after
  the one that writes it, and the executors name declared programs.
\<close>

definition pipe_step_ok :: "string set \<Rightarrow> (string \<rightharpoonup> RunProgram) \<Rightarrow> PipelineStep list \<Rightarrow> PipelineStep \<Rightarrow> bool" where
  "pipe_step_ok resources programs before s \<longleftrightarrow>
     ps_ID s \<noteq> [] \<and> trim_space (ps_ID s) = ps_ID s \<and>
     limits_in_range MaxOutputBytes (ps_Limits s) \<and> 0 < lim_TimeMs (ps_Limits s) \<and>
     0 < lim_MemoryMB (ps_Limits s) \<and>
     executor_ok resources programs (ps_Executor s) \<and>
     (\<forall>r \<in> set (ps_Stdin s). ref_ok resources (set (concat (map step_outputs before))) r) \<and>
     (\<forall>output \<in> set (ps_Outputs s).
        0 < po_MaxBytes output \<and> po_MaxBytes output \<le> MaxStepHandoffBytes \<and>
        output_source_check (kind_of (ex_Kind (ps_Executor s))) (po_ID output) output = None)"

definition artifact_bytes :: "PipelineStep list \<Rightarrow> int" where
  "artifact_bytes ss = (\<Sum>s\<leftarrow>ss. \<Sum>output\<leftarrow>ps_Outputs s. po_MaxBytes output)"

definition flow_ok :: "string set \<Rightarrow> (string \<rightharpoonup> RunProgram) \<Rightarrow> PipelineStep list \<Rightarrow> bool" where
  "flow_ok resources programs ss \<longleftrightarrow>
     distinct (map ps_ID ss) \<and>
     distinct (concat (map step_outputs ss)) \<and>
     artifact_bytes ss \<le> MaxPipelineArtifactTotalBytes \<and>
     (\<forall>k < length ss. pipe_step_ok resources programs (take k ss) (ss ! k))"

lemma flow_ok_snoc:
  "flow_ok R ps (ss @ [s]) \<longleftrightarrow>
     flow_ok R ps ss \<and> ps_ID s \<notin> ps_ID ` set ss \<and> distinct (step_outputs s) \<and>
     set (step_outputs s) \<inter> set (concat (map step_outputs ss)) = {} \<and>
     artifact_bytes (ss @ [s]) \<le> MaxPipelineArtifactTotalBytes \<and> pipe_step_ok R ps ss s"
  if "artifact_bytes (ss @ [s]) \<le> MaxPipelineArtifactTotalBytes \<Longrightarrow> artifact_bytes ss \<le> MaxPipelineArtifactTotalBytes"
proof -
  have "(\<forall>k < length (ss @ [s]). pipe_step_ok R ps (take k (ss @ [s])) ((ss @ [s]) ! k)) \<longleftrightarrow>
        (\<forall>k < length ss. pipe_step_ok R ps (take k ss) (ss ! k)) \<and> pipe_step_ok R ps ss s"
    by (auto simp: less_Suc_eq nth_append)
  then show ?thesis using that by (auto simp: flow_ok_def)
qed

text \<open>What the loop variables hold after the steps \<open>ss\<close>.\<close>

definition steps_done :: "string set \<Rightarrow> (string \<rightharpoonup> RunProgram) \<Rightarrow> PipelineStep list \<Rightarrow> pipe_vars \<Rightarrow> bool" where
  "steps_done R ps ss v \<longleftrightarrow>
     (case v of (artifacts, artifactMaxBytes, steps, used) \<Rightarrow>
        flow_ok R ps ss \<and>
        distinct (map fst artifacts) \<and>
        fst ` set artifacts = set (concat (map step_outputs ss)) \<and>
        artifactMaxBytes = artifact_bytes ss \<and>
        steps = rev (zip (map ps_ID ss) [0..<length ss]) \<and>
        set used = (\<Union>s \<in> set ss. set (executor_programs (ps_Executor s))))"

lemma pipe_step_Inr:
  assumes "pipe_step resources programs i s (artifacts, m, steps, used) = Inr v"
  obtains artifacts' m' files where
    "v = (artifacts', m', (ps_ID s, i) # steps, executor_programs (ps_Executor s) @ used)"
    and "outputs_done (kind_of (ex_Kind (ps_Executor s))) i artifacts m (ps_Outputs s) (artifacts', m', files)"
    and "ps_ID s \<noteq> []" "trim_space (ps_ID s) = ps_ID s" "map_of steps (ps_ID s) = None"
    and "limits_in_range MaxOutputBytes (ps_Limits s)" "0 < lim_TimeMs (ps_Limits s)"
      "0 < lim_MemoryMB (ps_Limits s)"
    and "executor_ok (set resources) (map_of programs) (ps_Executor s)"
    and "\<And>r. r \<in> set (ps_Stdin s) \<Longrightarrow> ref_ok (set resources) (fst ` set artifacts) r"
proof -
  define kind where "kind = kind_of (ex_Kind (ps_Executor s))"
  from assms obtain u artifacts' m' files where
    loop: "loop_err (output_step (ps_ID s) kind i) 0 (ps_Outputs s) (artifacts, m, 0)
             = Inr (artifacts', m', files)"
    and ex: "pipe_executor resources programs (ps_ID s) (ps_Executor s) = Inr u"
    and v: "v = (artifacts', m', (ps_ID s, i) # steps, u @ used)"
    and base: "ps_ID s \<noteq> []" "trim_space (ps_ID s) = ps_ID s" "map_of steps (ps_ID s) = None"
      "limits_in_range MaxOutputBytes (ps_Limits s)" "0 < lim_TimeMs (ps_Limits s)"
      "0 < lim_MemoryMB (ps_Limits s)"
    and refs: "each_error (stdin_ref resources artifacts (ps_ID s) i) 0 (ps_Stdin s) = None"
    unfolding pipe_step_def Let_def kind_def
    by (auto simp: and_then_Inr_iff accepts simp del: each_error_None_all split: if_splits)
  have "ref_ok (set resources) (fst ` set artifacts) r" if "r \<in> set (ps_Stdin s)" for r
    using each_error_None_mem [OF refs that] stdin_ref_accepts by blast
  then show ?thesis
    using that v output_loop [OF loop] pipe_executor_accepts [OF ex] base
    by (simp add: kind_def)
qed

lemma pipe_step_done:
  assumes "steps_done R ps ss u"
    and "pipe_step resources programs (length ss) s u = Inr v"
    and "R = set resources" and "ps = map_of programs"
  shows "steps_done R ps (ss @ [s]) v"
proof -
  obtain artifacts m steps used where u: "u = (artifacts, m, steps, used)" by (cases u)
  from pipe_step_Inr [OF assms(2) [unfolded u]] obtain artifacts' m' files where
    v: "v = (artifacts', m', (ps_ID s, length ss) # steps, executor_programs (ps_Executor s) @ used)"
    and outs: "outputs_done (kind_of (ex_Kind (ps_Executor s))) (length ss) artifacts m (ps_Outputs s)
                 (artifacts', m', files)"
    and base: "ps_ID s \<noteq> []" "trim_space (ps_ID s) = ps_ID s" "map_of steps (ps_ID s) = None"
      "limits_in_range MaxOutputBytes (ps_Limits s)" "0 < lim_TimeMs (ps_Limits s)"
      "0 < lim_MemoryMB (ps_Limits s)"
      "executor_ok (set resources) (map_of programs) (ps_Executor s)"
    and refs: "\<And>r. r \<in> set (ps_Stdin s) \<Longrightarrow> ref_ok (set resources) (fst ` set artifacts) r"
    by metis
  from assms(1) u have
    d: "flow_ok R ps ss" "distinct (map fst artifacts)"
      "fst ` set artifacts = set (concat (map step_outputs ss))" "m = artifact_bytes ss"
      "steps = rev (zip (map ps_ID ss) [0..<length ss])"
      "set used = (\<Union>s \<in> set ss. set (executor_programs (ps_Executor s)))"
    by (simp_all add: steps_done_def)
  have arts: "artifacts' = rev (map (\<lambda>output. (po_ID output, length ss)) (ps_Outputs s)) @ artifacts"
    "m' = artifact_bytes (ss @ [s])" "m' \<le> MaxPipelineArtifactTotalBytes"
    using outs d(1,4) by (simp_all add: outputs_done_def flow_ok_def artifact_bytes_def)
  have "distinct (map fst artifacts')"
    using outs d(2) unfolding outputs_done_def fst_conv by blast
  note arts = arts this
  have names: "map fst artifacts' = rev (step_outputs s) @ map fst artifacts"
    by (simp add: arts(1) step_outputs_def rev_map o_def)
  have "distinct (step_outputs s)" and
    "set (step_outputs s) \<inter> set (concat (map step_outputs ss)) = {}"
    using arts(4) d(3) unfolding names by auto
  moreover have "ps_ID s \<notin> ps_ID ` set ss"
  proof -
    have "fst ` set steps = ps_ID ` set ss" unfolding d(5) by (simp flip: set_map)
    then show ?thesis using base(3) by (simp add: map_of_eq_None_iff)
  qed
  moreover have "pipe_step_ok R ps ss s"
    using base refs outs d(3) assms(3,4) by (simp add: pipe_step_ok_def outputs_done_def)
  ultimately have "flow_ok R ps (ss @ [s])"
    using flow_ok_snoc [of ss s R ps] d(1) arts(2,3) by (simp add: flow_ok_def)
  moreover have "fst ` set artifacts' = set (concat (map step_outputs (ss @ [s])))"
    using d(3) names by (metis (no_types, lifting) concat.simps(2) concat_append concat.simps(1)
        append_Nil2 list.set_map list.simps(8,9) map_append set_append set_rev sup_commute)
  ultimately show ?thesis
    using v arts(2,4) d(5,6) by (auto simp: steps_done_def)
qed

text \<open>What an accepted final judge is.\<close>

definition judge_ok :: "env \<Rightarrow> string set \<Rightarrow> PipelineStep list \<Rightarrow> PipelineFinalJudge \<Rightarrow> bool" where
  "judge_ok E resources ss judge \<longleftrightarrow>
     ref_ok resources {} (fj_Input judge) \<and> ref_ok resources {} (fj_Expected judge) \<and>
     ss \<noteq> [] \<and> ref_StepID (fj_Actual judge) = ps_ID (last ss) \<and> ref_ID (fj_Actual judge) = [] \<and>
     (if kind_of (fj_Kind judge) = ''spj''
      then \<exists>s. fj_SPJ judge = Some s \<and> spj_ok E s \<and> spj_SidecarOutputs s = []
      else kind_of (fj_Kind judge) = ''diff'' \<and> fj_SPJ judge = None)"

lemma map_of_positions:
  assumes "distinct xs"
  shows "map_of (rev (zip xs [0..<length xs])) x = Some k \<longleftrightarrow> k < length xs \<and> xs ! k = x"
  using assms
  by (subst map_of_eq_Some_iff)
    (auto simp: rev_map [symmetric] set_zip in_set_conv_nth map_fst_zip)

lemma final_judge_accepts:
  assumes "final_judge_check E resources (rev (zip (map ps_ID ss) [0..<length ss])) (length ss) judge = None"
    and "distinct (map ps_ID ss)" and "ss \<noteq> []"
  shows "judge_ok E (set resources) ss judge"
proof -
  have last: "x = ps_ID (last ss)"
    if "map_of (rev (zip (map ps_ID ss) [0..<length ss])) x = Some (length ss - Suc 0)" for x
    using that map_of_positions [of "map ps_ID ss" x "length ss - 1"] assms(2,3)
    by (auto simp: last_conv_nth)
  show ?thesis
    using assms(1,3)
    unfolding final_judge_check_def judge_ok_def ref_ok_def judge_resource_def Let_def
    by (auto simp: accepts err_of_None_iff and_then_Inr_iff dest!: last split: if_splits option.splits)
qed

definition pipeline_ok :: "env \<Rightarrow> PipelineV1 \<Rightarrow> bool" where
  "pipeline_ok E pl \<longleftrightarrow>
     (\<forall>e \<in> set (pl_Resources pl). resource_ok e) \<and>
     length (pl_Resources pl) \<le> MaxPipelineResources \<and>
     sum_list (map resource_size (pl_Resources pl)) \<le> MaxPipelineResourceTotalBytes \<and>
     distinct (map prog_ID (pl_Programs pl)) \<and> length (pl_Programs pl) \<le> MaxPrograms \<and>
     (\<forall>p \<in> set (pl_Programs pl). NormalizeRunLang (prog_Lang p) \<in> set supportedRunLangs \<and>
        prog_Binaries p \<noteq> [] \<and> binaries_ok (prog_Binaries p)) \<and>
     length (pl_Steps pl) \<le> MaxPipelineSteps \<and>
     flow_ok (fst ` set (pl_Resources pl))
       (map_of (rev (map (\<lambda>p. (prog_ID p, p)) (pl_Programs pl)))) (pl_Steps pl) \<and>
     prog_ID ` set (pl_Programs pl) =
       (\<Union>s \<in> set (pl_Steps pl). set (executor_programs (ps_Executor s))) \<and>
     judge_ok E (fst ` set (pl_Resources pl)) (pl_Steps pl) (pl_FinalJudge pl)"

lemma flow_ok_programs:
  assumes "flow_ok R ps ss" and "s \<in> set ss" and "q \<in> set (executor_programs (ps_Executor s))"
  shows "ps q \<noteq> None"
proof -
  from assms(2) obtain k where "k < length ss" "s = ss ! k" by (auto simp: in_set_conv_nth)
  with assms(1) have "executor_ok R ps (ps_Executor s)" by (auto simp: flow_ok_def pipe_step_ok_def)
  with assms(3) show ?thesis unfolding executor_ok_def by blast
qed

lemma ValidatePipelineV1_accepts:
  assumes "ValidatePipelineV1 E req = None"
  shows "\<exists>pl. rq_Pipeline req = Some pl \<and> pipe_header req pl = None \<and> pipeline_ok E pl"
proof -
  from assms obtain pl where pl: "rq_Pipeline req = Some pl"
    by (auto simp: ValidatePipelineV1_def split: option.splits)
  from assms pl obtain resources n programs artifacts m steps used where
    hd: "pipe_header req pl = None"
    and r: "loop_err resource_step 0 (pl_Resources pl) ([], 0) = Inr (resources, n)"
    and p: "loop_err pipe_program_step 0 (pl_Programs pl) [] = Inr programs"
      "length (pl_Programs pl) \<le> MaxPrograms"
    and s: "loop_err (pipe_step resources programs) 0 (pl_Steps pl) ([], 0, [], []) =
              Inr (artifacts, m, steps, used)"
      "pl_Steps pl \<noteq> []" "length (pl_Steps pl) \<le> MaxPipelineSteps"
    and u: "\<forall>p \<in> set (pl_Programs pl). prog_ID p \<in> set used"
    and j: "final_judge_check E resources steps (length (pl_Steps pl)) (pl_FinalJudge pl) = None"
    by (auto simp: ValidatePipelineV1_def pipe_body_def err_of_None_iff and_then_Inr_iff)
  have R: "set resources = fst ` set (pl_Resources pl)" "\<forall>e \<in> set (pl_Resources pl). resource_ok e"
    "sum_list (map resource_size (pl_Resources pl)) \<le> MaxPipelineResourceTotalBytes"
    using r by (auto simp: resource_loop)
  note P = pipe_program_loop [OF p(1)]
  have D: "steps_done (set resources) (map_of programs) (pl_Steps pl) (artifacts, m, steps, used)"
    using s(1)
  proof (rule loop_err_invariant_at)
    show "steps_done (set resources) (map_of programs) [] ([], 0, [], [])"
      by (simp add: steps_done_def flow_ok_def artifact_bytes_def MaxPipelineArtifactTotalBytes_def)
  qed (simp add: pipe_step_done)
  then have flow: "flow_ok (set resources) (map_of programs) (pl_Steps pl)"
    and used: "set used = (\<Union>s \<in> set (pl_Steps pl). set (executor_programs (ps_Executor s)))"
    and steps: "steps = rev (zip (map ps_ID (pl_Steps pl)) [0..<length (pl_Steps pl)])"
    by (simp_all add: steps_done_def)
  have judge: "judge_ok E (set resources) (pl_Steps pl) (pl_FinalJudge pl)"
    using final_judge_accepts j steps s(2) flow by (simp add: flow_ok_def)
  have "set used \<subseteq> prog_ID ` set (pl_Programs pl)"
    using flow_ok_programs [OF flow] P by (auto simp: used map_of_programs_None)
  then have "prog_ID ` set (pl_Programs pl) = set used" using u by auto
  then show ?thesis
    using pl hd R P p(2) s(3) flow judge used by (auto simp: pipeline_ok_def pipe_header_def)
qed

section \<open>The order of the resources\<close>

text \<open>
  Go iterates over the map of resources in any order. Two iterations may report different errors,
  but they agree on whether the request is accepted.
\<close>

lemma interactive_answer_set:
  "set resources = set resources' \<Longrightarrow> interactive_answer resources = interactive_answer resources'"
  unfolding interactive_answer_def by simp

lemma pipe_step_set:
  assumes "set resources = set resources'"
  shows "pipe_step resources = pipe_step resources'"
proof -
  have "pipe_executor resources = pipe_executor resources'"
    unfolding pipe_executor_def [abs_def] interactive_executor_def [abs_def]
      interactive_answer_set [OF assms] ..
  moreover have "stdin_ref resources = stdin_ref resources'"
    unfolding stdin_ref_def [abs_def] assms ..
  ultimately show ?thesis unfolding pipe_step_def [abs_def] by presburger
qed

lemma final_judge_set:
  assumes "set resources = set resources'"
  shows "final_judge_check E resources = final_judge_check E resources'"
proof -
  have "judge_resource resources = judge_resource resources'"
    unfolding judge_resource_def [abs_def] assms ..
  then show ?thesis unfolding final_judge_check_def [abs_def] by presburger
qed

lemma pipe_body_set:
  assumes "set resources = set resources'"
  shows "pipe_body E pl resources = pipe_body E pl resources'"
  unfolding pipe_body_def pipe_step_set [OF assms] final_judge_set [OF assms] ..

lemma ValidatePipelineV1_iff:
  "rq_Pipeline req = Some pl \<Longrightarrow>
   ValidatePipelineV1 E req = None \<longleftrightarrow>
     pipe_header req pl = None \<and> (\<forall>e \<in> set (pl_Resources pl). resource_ok e) \<and>
     sum_list (map resource_size (pl_Resources pl)) \<le> MaxPipelineResourceTotalBytes \<and>
     pipe_body E pl (rev (map fst (pl_Resources pl))) = Inr ()"
  by (auto simp: ValidatePipelineV1_def err_of_None_iff and_then_Inr_iff resource_loop)

lemma ValidatePipelineV1_resources:
  assumes "rq_Pipeline req = Some pl" and "mset es = mset (pl_Resources pl)"
  shows "ValidatePipelineV1 E (req\<lparr>rq_Pipeline := Some (pl\<lparr>pl_Resources := es\<rparr>)\<rparr>) = None \<longleftrightarrow>
    ValidatePipelineV1 E req = None"
proof -
  have sets: "set es = set (pl_Resources pl)" using assms(2) by (rule mset_eq_setD)
  then have nil: "es = [] \<longleftrightarrow> pl_Resources pl = []" by (metis set_empty)
  have sums: "sum_list (map resource_size es) = sum_list (map resource_size (pl_Resources pl))"
    by (metis assms(2) mset_map sum_mset_sum_list)
  have names: "set (rev (map fst es)) = set (rev (map fst (pl_Resources pl)))" using sets by simp
  have "pipe_header (req\<lparr>rq_Pipeline := Some (pl\<lparr>pl_Resources := es\<rparr>)\<rparr>) (pl\<lparr>pl_Resources := es\<rparr>)
      = pipe_header req pl"
    using mset_eq_length [OF assms(2)] nil by (simp add: pipe_header_def)
  moreover have "pipe_body E (pl\<lparr>pl_Resources := es\<rparr>) (rev (map fst es))
      = pipe_body E pl (rev (map fst (pl_Resources pl)))"
    unfolding pipe_body_set [OF names] by (simp add: pipe_body_def)
  ultimately show ?thesis
    using ValidatePipelineV1_iff [OF assms(1), of E]
      ValidatePipelineV1_iff [of "req\<lparr>rq_Pipeline := Some (pl\<lparr>pl_Resources := es\<rparr>)\<rparr>" "pl\<lparr>pl_Resources := es\<rparr>" E]
      sets sums by simp
qed

end
