(* ===== verification/Run_Steps.thy ===== *)
theory Run_Steps
  imports Run_Checks
begin

text \<open>
  The two-step requests of internal/runvalidation/validation.go: \<open>ValidateStepPipeline\<close> with
  \<open>ValidateStepStdinParts\<close>, the interactor's check, and the questions about a request that other
  components ask (\<open>UsesSteps\<close>, \<open>ProgramsEnableNetwork\<close>, \<open>UsesPython\<close>).
\<close>

datatype step_error =
    StepsAndPrograms
  | StepLegacyFields
  | StepTooManyPrograms
  | StepCount
  | StepFileOutputs
  | StepCheck check_error
  | ProgramIDRequired nat
  | ProgramDuplicate string
  | ProgramLangRequired string
  | ProgramNoBinaries string
  | ProgramTooManyBinaries string
  | StepIDRequired nat
  | StepDuplicate string
  | StepUnknownProgram string string
  | StepPartsCombined string
  | StepStdinCombined string
  | StepStdinTooLarge string
  | PartsTooMany string
  | PartTextReferences string nat
  | PartTextCombined string nat
  | PartsTextTooLarge string
  | PartHandoffFirst
  | PartHandoffData string nat
  | PartHandoffRequired string nat
  | PartHandoffUnknown string nat
  | PartType string nat
  | FirstStdinFrom
  | FirstHandoffRequired
  | FirstHandoffID
  | FirstHandoffFrom
  | FirstHandoffPath
  | FirstHandoffMax
  | SecondPartsHandoff
  | SecondHandoff
  | SecondStdinFrom
  | SecondStdinCombined string
  | ProgramUnused string
  | InteractorSteps
  | InteractorSpj
  | InteractorFileOutputs
  | InteractorIgnoreTLE
  | InteractorBinariesRequired
  | InteractorTooManyBinaries
  | InteractorCheck check_error

section \<open>Questions about a request\<close>

definition UsesSteps :: "RunRequest \<Rightarrow> bool" where
  "UsesSteps req \<longleftrightarrow> rq_Communication req = None \<and> rq_Pipeline req = None \<and>
     (length (rq_Programs req) > 0 \<or> length (rq_Steps req) > 0)"

definition ProgramsEnableNetwork :: "RunRequest \<Rightarrow> bool" where
  "ProgramsEnableNetwork req \<longleftrightarrow>
     list_ex prog_EnableNetwork (rq_Programs req) \<or>
     (case rq_Pipeline req of
        None \<Rightarrow> False | Some pl \<Rightarrow> list_ex prog_EnableNetwork (pl_Programs pl))"

definition request_languages :: "RunRequest \<Rightarrow> string list" where
  "request_languages req =
     [rq_Lang req] @ map prog_Lang (rq_Programs req)
     @ (case rq_Interactor req of None \<Rightarrow> [] | Some ia \<Rightarrow> [ia_Lang ia])
     @ (case rq_SPJ req of None \<Rightarrow> [] | Some s \<Rightarrow> [spj_Lang s])
     @ (case rq_Pipeline req of
          None \<Rightarrow> []
        | Some pl \<Rightarrow> map prog_Lang (pl_Programs pl)
            @ (case fj_SPJ (pl_FinalJudge pl) of None \<Rightarrow> [] | Some s \<Rightarrow> [spj_Lang s]))"

definition UsesPython :: "RunRequest \<Rightarrow> bool" where
  "UsesPython req \<longleftrightarrow>
     list_ex (\<lambda>l. NormalizeRunLang l = ''python'' \<or> NormalizeRunLang l = ''pypy'') (request_languages req)"

section \<open>Standard input parts\<close>

definition stdinPartHandoffID :: "StdinPart \<Rightarrow> string" where
  "stdinPartHandoffID part =
     (if trim_space (sp_From part) \<noteq> [] then trim_space (sp_From part) else trim_space (sp_ID part))"

definition part_step ::
  "RunStep \<Rightarrow> bool \<Rightarrow> string \<Rightarrow> nat \<Rightarrow> StdinPart \<Rightarrow> nat \<times> bool \<Rightarrow> step_error + nat \<times> bool" where
  "part_step step firstStep handoffID i part s =
     (case s of (totalTextBytes, referencesHandoff) \<Rightarrow>
        (let partType = to_lower (trim_space (sp_Type part)) in
         if partType = ''text'' then
           checked (first_error
             [reject_if (trim_space (sp_ID part) \<noteq> [] \<or> trim_space (sp_From part) \<noteq> [])
                (PartTextReferences (st_ID step) i),
              reject_if (sp_Data part \<noteq> [] \<and> trim_space (sp_DataURL part) \<noteq> [])
                (PartTextCombined (st_ID step) i),
              reject_if (totalTextBytes + length (sp_Data part) > MaxTextFieldBytes)
                (PartsTextTooLarge (st_ID step))])
             (Inr (totalTextBytes + length (sp_Data part), referencesHandoff))
         else if partType = ''handoff'' then
           checked (first_error
             [reject_if firstStep PartHandoffFirst,
              reject_if (sp_Data part \<noteq> [] \<or> trim_space (sp_DataURL part) \<noteq> [])
                (PartHandoffData (st_ID step) i),
              reject_if (stdinPartHandoffID part = []) (PartHandoffRequired (st_ID step) i),
              reject_if (stdinPartHandoffID part \<noteq> handoffID) (PartHandoffUnknown (st_ID step) i)])
             (Inr (totalTextBytes, True))
         else Inl (PartType (st_ID step) i)))"

definition ValidateStepStdinParts :: "RunStep \<Rightarrow> bool \<Rightarrow> string \<Rightarrow> step_error + bool" where
  "ValidateStepStdinParts step firstStep handoffID =
     (if st_StdinParts step = [] then Inr False
      else if length (st_StdinParts step) > MaxStdinParts then Inl (PartsTooMany (st_ID step))
      else and_then (loop_err (part_step step firstStep handoffID) 0 (st_StdinParts step) (0, False))
             (\<lambda>(totalTextBytes, referencesHandoff). Inr referencesHandoff))"

section \<open>Programs and steps\<close>

definition program_step :: "nat \<Rightarrow> RunProgram \<Rightarrow> string list \<Rightarrow> step_error + string list" where
  "program_step i program programs =
     (let programID = trim_space (prog_ID program) in
      checked (first_error
        [reject_if (programID = []) (ProgramIDRequired i),
         reject_if (programID \<in> set programs) (ProgramDuplicate programID),
         reject_if (trim_space (prog_Lang program) = []) (ProgramLangRequired (prog_ID program)),
         map_option StepCheck
           (ValidateRunLang (''program '' @ prog_ID program @ '' lang'') (prog_Lang program)),
         reject_if (prog_Binaries program = []) (ProgramNoBinaries (prog_ID program)),
         reject_if (length (prog_Binaries program) > MaxBinaryFiles)
           (ProgramTooManyBinaries (prog_ID program)),
         map_option StepCheck
           (ValidateBinaries (''program '' @ prog_ID program @ '' binaries'') (prog_Binaries program))])
        (Inr (programID # programs)))"

text \<open>The handoff that the first step must declare.\<close>

definition first_handoff :: "StepHandoff \<Rightarrow> step_error option" where
  "first_handoff h =
     (let from0 = to_lower (trim_space (ho_From h));
          src = (if from0 = [] then ''stdout'' else from0) in
      first_error
        [reject_if (trim_space (ho_ID h) = []) FirstHandoffID,
         reject_if (src \<noteq> ''stdout'' \<and> src \<noteq> ''file'' \<and> src \<noteq> ''file_output'') FirstHandoffFrom,
         reject_if ((src = ''file'' \<or> src = ''file_output'') \<and> trim_space (ho_Path h) = []) FirstHandoffPath,
         reject_if (ho_MaxBytes h < 0 \<or> ho_MaxBytes h > MaxStepHandoffBytes) FirstHandoffMax])"

text \<open>
  One iteration over the steps. The loop variables are the handoff id, the step ids seen and the
  programs referenced.
\<close>

definition step_step ::
  "string list \<Rightarrow> nat \<Rightarrow> RunStep \<Rightarrow> string \<times> string list \<times> string list \<Rightarrow>
   step_error + string \<times> string list \<times> string list" where
  "step_step programs i step s =
     (case s of (handoffID, seenSteps, referencedPrograms) \<Rightarrow>
        (let stepID = trim_space (st_ID step); programID = trim_space (st_ProgramID step);
             seen' = stepID # seenSteps; refd' = programID # referencedPrograms in
         checked (first_error
           [reject_if (stepID = []) (StepIDRequired i),
            reject_if (stepID \<in> set seenSteps) (StepDuplicate stepID),
            reject_if (programID \<notin> set programs) (StepUnknownProgram (st_ID step) (st_ProgramID step)),
            reject_if (st_StdinParts step \<noteq> [] \<and>
                (st_Stdin step \<noteq> [] \<or> trim_space (st_StdinURL step) \<noteq> [] \<or>
                 trim_space (st_StdinFrom step) \<noteq> [])) (StepPartsCombined (st_ID step)),
            reject_if (st_Stdin step \<noteq> [] \<and> trim_space (st_StdinURL step) \<noteq> [])
              (StepStdinCombined (st_ID step)),
            reject_if (length (st_Stdin step) > MaxTextFieldBytes) (StepStdinTooLarge (st_ID step))])
         (and_then (ValidateStepStdinParts step (i = 0) handoffID)
           (\<lambda>stdinPartsReferenceHandoff.
             checked (map_option StepCheck
               (ValidateRequiredLimits (''step '' @ st_ID step @ '' limits'') (st_Limits step)))
             (if i = 0 then
                if trim_space (st_StdinFrom step) \<noteq> [] then Inl FirstStdinFrom
                else (case st_Handoff step of
                        None \<Rightarrow> Inl FirstHandoffRequired
                      | Some h \<Rightarrow> checked (first_handoff h) (Inr (trim_space (ho_ID h), seen', refd')))
              else if st_StdinParts step \<noteq> [] then
                checked (first_error
                  [reject_if (\<not> stdinPartsReferenceHandoff) SecondPartsHandoff,
                   reject_if (st_Handoff step \<noteq> None) SecondHandoff])
                  (Inr (handoffID, seen', refd'))
              else
                checked (first_error
                  [reject_if (trim_space (st_StdinFrom step) \<noteq> handoffID) SecondStdinFrom,
                   reject_if (st_Stdin step \<noteq> [] \<or> trim_space (st_StdinURL step) \<noteq> [])
                     (SecondStdinCombined (st_ID step)),
                   reject_if (st_Handoff step \<noteq> None) SecondHandoff])
                  (Inr (handoffID, seen', refd')))))))"

definition ValidateStepPipeline :: "RunRequest \<Rightarrow> step_error option" where
  "ValidateStepPipeline req = err_of
     (checked (first_error
        [reject_if (rq_Programs req = [] \<or> rq_Steps req = []) StepsAndPrograms,
         reject_if (rq_Lang req \<noteq> [] \<or> rq_Binaries req \<noteq> [] \<or> rq_Stdin req \<noteq> [] \<or>
             rq_StdinURL req \<noteq> [] \<or> rq_EntryPoint req \<noteq> [] \<or> rq_EnableNetwork req \<or>
             rq_Interactor req \<noteq> None \<or> \<not> LimitsAreZero (rq_Limits req)) StepLegacyFields,
         reject_if (length (rq_Programs req) > MaxPrograms) StepTooManyPrograms,
         reject_if (length (rq_Steps req) \<noteq> MaxSteps) StepCount,
         reject_if (length (rq_FileOutputs req) > 1) StepFileOutputs,
         map_option StepCheck (ValidateSidecarOutputs (rq_SidecarOutputs req))])
      (and_then (loop_err program_step 0 (rq_Programs req) [])
        (\<lambda>programs. and_then (loop_err (step_step programs) 0 (rq_Steps req) ([], [], []))
          (\<lambda>(handoffID, seenSteps, referencedPrograms).
             checked (each_error (\<lambda>_ program.
                 reject_if (trim_space (prog_ID program) \<notin> set referencedPrograms)
                   (ProgramUnused (trim_space (prog_ID program)))) 0 (rq_Programs req))
               (Inr ())))))"

definition ValidateInteractor :: "RunRequest \<Rightarrow> InteractorSpec \<Rightarrow> step_error option" where
  "ValidateInteractor req ia = first_error
     [reject_if (UsesSteps req) InteractorSteps,
      reject_if (rq_SPJ req \<noteq> None) InteractorSpj,
      reject_if (rq_FileOutputs req \<noteq> []) InteractorFileOutputs,
      reject_if (rq_IgnoreTLE req) InteractorIgnoreTLE,
      map_option InteractorCheck (ValidateRunLang ''interactor.lang'' (ia_Lang ia)),
      reject_if (ia_Binaries ia = []) InteractorBinariesRequired,
      reject_if (length (ia_Binaries ia) > MaxBinaryFiles) InteractorTooManyBinaries,
      map_option InteractorCheck (ValidateBinaries ''interactor.binaries'' (ia_Binaries ia)),
      (case ia_Limits ia of
         None \<Rightarrow> None
       | Some l \<Rightarrow> map_option InteractorCheck (ValidateOptionalLimits ''interactor.limits'' l))]"

section \<open>What is accepted\<close>

lemma part_step_handoff:
  assumes "part_step step firstStep hid i part (n, r) = Inr (n', r')"
  shows "r' \<longleftrightarrow> r \<or> to_lower (trim_space (sp_Type part)) = ''handoff''"
    and "to_lower (trim_space (sp_Type part)) = ''handoff'' \<Longrightarrow>
           \<not> firstStep \<and> stdinPartHandoffID part = hid \<and> hid \<noteq> []"
    and "n' \<le> MaxTextFieldBytes \<or> n' = n"
  using assms by (auto simp: part_step_def Let_def split: if_splits)

text \<open>
  Whether accepted parts reference the handoff is whether one of them is a handoff part, and
  such a part names the handoff of the first step.
\<close>

lemma parts_loop:
  assumes "loop_err (part_step step firstStep hid) i parts (n, r) = Inr (n', r')"
  shows "(r' \<longleftrightarrow> r \<or> (\<exists>p \<in> set parts. to_lower (trim_space (sp_Type p)) = ''handoff'')) \<and>
    (\<forall>p \<in> set parts. to_lower (trim_space (sp_Type p)) = ''handoff'' \<longrightarrow>
       \<not> firstStep \<and> stdinPartHandoffID p = hid \<and> hid \<noteq> [])"
  using assms
proof (induction parts arbitrary: i n r)
  case Nil
  then show ?case by simp
next
  case (Cons p parts)
  then obtain n1 r1 where 1: "part_step step firstStep hid i p (n, r) = Inr (n1, r1)"
    and 2: "loop_err (part_step step firstStep hid) (Suc i) parts (n1, r1) = Inr (n', r')"
    by (auto split: sum.splits)
  show ?case using Cons.IH [OF 2] part_step_handoff(1,2) [OF 1] by auto
qed

lemma ValidateStepStdinParts_handoff:
  assumes "ValidateStepStdinParts step firstStep hid = Inr refs"
  shows "refs \<longleftrightarrow> (\<exists>p \<in> set (st_StdinParts step). to_lower (trim_space (sp_Type p)) = ''handoff'')"
    and "p \<in> set (st_StdinParts step) \<Longrightarrow> to_lower (trim_space (sp_Type p)) = ''handoff'' \<Longrightarrow>
           \<not> firstStep \<and> stdinPartHandoffID p = hid \<and> hid \<noteq> []"
  using assms parts_loop [of step firstStep hid 0 "st_StdinParts step" 0 False]
  by (auto simp: ValidateStepStdinParts_def and_then_Inr_iff split: if_splits)

text \<open>The first step of an accepted request declares the handoff; it consumes none.\<close>

definition producer_ok :: "string list \<Rightarrow> RunStep \<Rightarrow> bool" where
  "producer_ok programs s \<longleftrightarrow>
     trim_space (st_ID s) \<noteq> [] \<and> trim_space (st_ProgramID s) \<in> set programs \<and>
     trim_space (st_StdinFrom s) = [] \<and>
     (\<forall>p \<in> set (st_StdinParts s). to_lower (trim_space (sp_Type p)) \<noteq> ''handoff'') \<and>
     (\<exists>h. st_Handoff s = Some h \<and> first_handoff h = None) \<and>
     limits_in_range MaxOutputBytes (st_Limits s) \<and> 0 < lim_TimeMs (st_Limits s) \<and>
     0 < lim_MemoryMB (st_Limits s)"

text \<open>
  The second step declares no handoff and consumes the first one's: through \<open>stdin_from\<close> alone,
  or through at least one of its parts, all of whose references are to that handoff.
\<close>

definition consumer_ok :: "string list \<Rightarrow> string \<Rightarrow> RunStep \<Rightarrow> bool" where
  "consumer_ok programs hid s \<longleftrightarrow>
     trim_space (st_ID s) \<noteq> [] \<and> trim_space (st_ProgramID s) \<in> set programs \<and> st_Handoff s = None \<and>
     (if st_StdinParts s = [] then
        trim_space (st_StdinFrom s) = hid \<and> st_Stdin s = [] \<and> trim_space (st_StdinURL s) = []
      else (\<exists>p \<in> set (st_StdinParts s). to_lower (trim_space (sp_Type p)) = ''handoff'') \<and>
        (\<forall>p \<in> set (st_StdinParts s). to_lower (trim_space (sp_Type p)) = ''handoff'' \<longrightarrow>
           stdinPartHandoffID p = hid)) \<and>
     limits_in_range MaxOutputBytes (st_Limits s) \<and> 0 < lim_TimeMs (st_Limits s) \<and>
     0 < lim_MemoryMB (st_Limits s)"

lemma step_step_vars:
  assumes "step_step programs i step (hid, seen, refd) = Inr (hid', seen', refd')"
  shows "seen' = trim_space (st_ID step) # seen" and "refd' = trim_space (st_ProgramID step) # refd"
    and "trim_space (st_ID step) \<notin> set seen"
    and "i \<noteq> 0 \<Longrightarrow> hid' = hid"
  using assms
  by (auto simp: step_step_def Let_def and_then_Inr_iff split: if_splits option.splits)

lemma step_step_first:
  assumes "step_step programs 0 step (hid, seen, refd) = Inr (hid', seen', refd')"
  shows "producer_ok programs step"
    and "\<exists>h. st_Handoff step = Some h \<and> hid' = trim_space (ho_ID h) \<and> hid' \<noteq> []"
proof -
  from assms obtain refs h where
    h: "st_Handoff step = Some h" "first_handoff h = None" "hid' = trim_space (ho_ID h)"
    and parts: "ValidateStepStdinParts step True hid = Inr refs"
    and base: "trim_space (st_ID step) \<noteq> []" "trim_space (st_ProgramID step) \<in> set programs"
      "trim_space (st_StdinFrom step) = []"
      "ValidateRequiredLimits (''step '' @ st_ID step @ '' limits'') (st_Limits step) = None"
    by (auto simp: step_step_def Let_def and_then_Inr_iff split: if_splits option.splits)
  then show "\<exists>h. st_Handoff step = Some h \<and> hid' = trim_space (ho_ID h) \<and> hid' \<noteq> []"
    by (auto simp: first_handoff_def Let_def)
  show "producer_ok programs step"
    unfolding producer_ok_def using h base ValidateStepStdinParts_handoff(2) [OF parts]
    by (auto simp: accepts)
qed

lemma step_step_second:
  assumes "step_step programs i step (hid, seen, refd) = Inr v" and "i \<noteq> 0"
  shows "consumer_ok programs hid step"
proof -
  from assms obtain refs where
    parts: "ValidateStepStdinParts step False hid = Inr refs"
    and base: "trim_space (st_ID step) \<noteq> []" "trim_space (st_ProgramID step) \<in> set programs"
      "st_Handoff step = None"
      "ValidateRequiredLimits (''step '' @ st_ID step @ '' limits'') (st_Limits step) = None"
    and mode: "if st_StdinParts step = [] then trim_space (st_StdinFrom step) = hid \<and>
        st_Stdin step = [] \<and> trim_space (st_StdinURL step) = [] else refs"
    by (auto simp: step_step_def Let_def and_then_Inr_iff split: if_splits option.splits)
  show ?thesis
    unfolding consumer_ok_def
    using base mode ValidateStepStdinParts_handoff [OF parts] by (auto simp: accepts split: if_splits)
qed

lemma program_loop:
  assumes "loop_err program_step i ps ids = Inr ids'"
  shows "set ids' = (trim_space \<circ> prog_ID) ` set ps \<union> set ids \<and>
    (\<forall>p \<in> set ps. binaries_ok (prog_Binaries p) \<and> prog_Binaries p \<noteq> [] \<and>
       NormalizeRunLang (prog_Lang p) \<in> set supportedRunLangs) \<and>
    distinct (map (trim_space \<circ> prog_ID) ps) \<and>
    (\<forall>p \<in> set ps. trim_space (prog_ID p) \<notin> set ids)"
  using assms
proof (induction ps arbitrary: i ids)
  case Nil
  then show ?case by simp
next
  case (Cons p ps)
  then obtain ids1 where 1: "program_step i p ids = Inr ids1"
    and 2: "loop_err program_step (Suc i) ps ids1 = Inr ids'" by (auto split: sum.splits)
  from 1 have p: "ids1 = trim_space (prog_ID p) # ids" "trim_space (prog_ID p) \<notin> set ids"
    "binaries_ok (prog_Binaries p)" "prog_Binaries p \<noteq> []"
    "NormalizeRunLang (prog_Lang p) \<in> set supportedRunLangs"
    by (auto simp: program_step_def Let_def accepts)
  with Cons.IH [OF 2] show ?case by auto
qed

text \<open>The data flow of an accepted two-step request.\<close>

lemma ValidateStepPipeline_flow:
  assumes "ValidateStepPipeline req = None"
  shows "\<exists>s1 s2 h. rq_Steps req = [s1, s2] \<and>
    producer_ok (map (trim_space \<circ> prog_ID) (rq_Programs req)) s1 \<and>
    st_Handoff s1 = Some h \<and> trim_space (ho_ID h) \<noteq> [] \<and>
    consumer_ok (map (trim_space \<circ> prog_ID) (rq_Programs req)) (trim_space (ho_ID h)) s2 \<and>
    trim_space (st_ID s1) \<noteq> trim_space (st_ID s2) \<and>
    (\<forall>p \<in> set (rq_Programs req). trim_space (prog_ID p) \<in> {trim_space (st_ProgramID s1), trim_space (st_ProgramID s2)})"
proof -
  from assms obtain programs hid seen refd where
    len: "length (rq_Steps req) = MaxSteps"
    and progs: "loop_err program_step 0 (rq_Programs req) [] = Inr programs"
    and steps: "loop_err (step_step programs) 0 (rq_Steps req) ([], [], []) = Inr (hid, seen, refd)"
    and used: "\<forall>p \<in> set (rq_Programs req). trim_space (prog_ID p) \<in> set refd"
    by (auto simp: ValidateStepPipeline_def err_of_None_iff and_then_Inr_iff)
  from len obtain s1 s2 where s: "rq_Steps req = [s1, s2]"
    by (auto simp: MaxSteps_def numeral_2_eq_2 length_Suc_conv)
  with steps obtain hid1 seen1 refd1 where
    1: "step_step programs 0 s1 ([], [], []) = Inr (hid1, seen1, refd1)"
    and 2: "step_step programs (Suc 0) s2 (hid1, seen1, refd1) = Inr (hid, seen, refd)"
    by (auto split: sum.splits)
  have set: "set programs = set (map (trim_space \<circ> prog_ID) (rq_Programs req))"
    using program_loop [OF progs] by simp
  from step_step_first(2) [OF 1] obtain h where
    h: "st_Handoff s1 = Some h" "hid1 = trim_space (ho_ID h)" "hid1 \<noteq> []" by blast
  have "producer_ok (map (trim_space \<circ> prog_ID) (rq_Programs req)) s1"
    using step_step_first(1) [OF 1] unfolding producer_ok_def set by blast
  moreover have "consumer_ok (map (trim_space \<circ> prog_ID) (rq_Programs req)) hid1 s2"
    using step_step_second [OF 2] set by (simp add: consumer_ok_def)
  moreover have "trim_space (st_ID s1) \<noteq> trim_space (st_ID s2)"
    using step_step_vars(3) [OF 2] step_step_vars(1) [OF 1] by auto
  moreover have "set refd = {trim_space (st_ProgramID s1), trim_space (st_ProgramID s2)}"
    using step_step_vars(2) [OF 1] step_step_vars(2) [OF 2] by auto
  ultimately show ?thesis using s h used by auto
qed

lemma ValidateInteractor_accepts:
  "ValidateInteractor req ia = None \<Longrightarrow>
     \<not> UsesSteps req \<and> rq_SPJ req = None \<and> rq_FileOutputs req = [] \<and> \<not> rq_IgnoreTLE req \<and>
     ia_Binaries ia \<noteq> [] \<and> binaries_ok (ia_Binaries ia) \<and>
     NormalizeRunLang (ia_Lang ia) \<in> set supportedRunLangs"
  by (simp add: ValidateInteractor_def accepts)

end
