(* ===== verification/Run_Communication.thy ===== *)
theory Run_Communication
  imports Run_Checks
begin

text \<open>
  \<open>ValidateCommunication\<close> and \<open>validSHA256\<close> of internal/runvalidation/validation.go: a request
  in which one manager program talks to several launches of participant programs.
\<close>

datatype comm_error =
    CommVersion
  | CommPipeline
  | CommResultProtocol string
  | CommParticipantCount
  | CommV1Fields
  | CommV2Shape
  | CommInputSHA256
  | CommFingerprint
  | CommMatchSeed
  | CommIDsRequired
  | CommManagerWhitespace
  | CommParticipantWhitespace
  | CommIDsDiffer
  | CommProgramCount nat
  | CommLegacyFields
  | CommJudgeFields
  | CommInputCombined
  | CommAnswerCombined
  | CommCheck check_error
  | CommWall
  | CommProgramID nat
  | CommProgramWhitespace nat
  | CommProgramDuplicate string
  | CommProgramUnreferenced string
  | CommProgramNetwork
  | CommProgramNative int string
  | CommProgramNoBinaries string
  | CommSourceSHA256 string
  | CommBinaryInline string
  | CommBinaryBase64 string string
  | CommBinarySHA256 string string
  | CommUnknownParticipant string
  | CommUnknownManager string

definition validSHA256 :: "string \<Rightarrow> bool" where
  "validSHA256 v \<longleftrightarrow>
     length v = 64 \<and>
     list_all (\<lambda>(char, _). \<not> ((char < 48 \<or> char > 57) \<and> (char < 97 \<or> char > 102))) (runes v)"

definition comm_participant_ids :: "CommunicationSpec \<Rightarrow> string list" where
  "comm_participant_ids spec =
     (if cm_Version spec = 2 then cm_ParticipantProgramIDs spec else [cm_ParticipantProgramID spec])"

text \<open>The checks of the versions, up to the participant ids.\<close>

definition comm_header :: "RunRequest \<Rightarrow> CommunicationSpec \<Rightarrow> comm_error option" where
  "comm_header req spec =
     (let protocol = (if cm_Version spec = 2 then ''match-result-v1'' else ''manager-result-v1'') in
      first_error
        [reject_if (cm_Version spec \<noteq> 1 \<and> cm_Version spec \<noteq> 2) CommVersion,
         reject_if (rq_Pipeline req \<noteq> None) CommPipeline,
         reject_if (cm_ResultProtocol spec \<noteq> protocol) (CommResultProtocol protocol),
         reject_if (cm_ParticipantCount spec < MinCommunicationParticipants \<or>
             cm_ParticipantCount spec > MaxCommunicationParticipants) CommParticipantCount,
         reject_if (cm_Version spec = 1 \<and> (cm_ParticipantProgramIDs spec \<noteq> [] \<or> cm_MatchSeed spec \<noteq> [] \<or>
             cm_InputSHA256 spec \<noteq> [] \<or> cm_RuntimeFingerprint spec \<noteq> [])) CommV1Fields,
         if cm_Version spec = 2 then first_error
           [reject_if (cm_ParticipantProgramID spec \<noteq> [] \<or> length (cm_ParticipantProgramIDs spec) \<noteq> 2 \<or>
               cm_ParticipantCount spec \<noteq> 2) CommV2Shape,
            reject_if (\<not> validSHA256 (cm_InputSHA256 spec)) CommInputSHA256,
            reject_if (\<not> validSHA256 (cm_RuntimeFingerprint spec)) CommFingerprint,
            reject_if (cm_MatchSeed spec \<noteq> [] \<and> \<not> validSHA256 (cm_MatchSeed spec)) CommMatchSeed]
         else None,
         reject_if (hd (comm_participant_ids spec) = [] \<or> trim_space (cm_ManagerProgramID spec) = [])
           CommIDsRequired,
         reject_if (trim_space (cm_ManagerProgramID spec) \<noteq> cm_ManagerProgramID spec)
           CommManagerWhitespace])"

text \<open>The loop over the participant ids: the ids referenced so far, the manager's first.\<close>

definition comm_reference :: "nat \<Rightarrow> string \<Rightarrow> string list \<Rightarrow> comm_error + string list" where
  "comm_reference i pid referenced =
     checked (first_error
       [reject_if (trim_space pid = [] \<or> pid \<noteq> trim_space pid) CommParticipantWhitespace,
        reject_if (pid \<in> set referenced) CommIDsDiffer])
       (Inr (pid # referenced))"

definition comm_fields :: "RunRequest \<Rightarrow> CommunicationSpec \<Rightarrow> string list \<Rightarrow> comm_error option" where
  "comm_fields req spec referenced = first_error
     [reject_if (length (rq_Programs req) \<noteq> length referenced \<or> rq_Steps req \<noteq> [])
        (CommProgramCount (length referenced)),
      reject_if (rq_Lang req \<noteq> [] \<or> rq_Binaries req \<noteq> [] \<or> rq_Stdin req \<noteq> [] \<or> rq_StdinURL req \<noteq> [] \<or>
          rq_ExpectedStdout req \<noteq> [] \<or> rq_ExpectedStdoutURL req \<noteq> [] \<or> rq_EntryPoint req \<noteq> [] \<or>
          rq_EnableNetwork req) CommLegacyFields,
      reject_if (rq_Interactor req \<noteq> None \<or> rq_SPJ req \<noteq> None \<or> rq_FileOutputs req \<noteq> [] \<or>
          rq_SidecarOutputs req \<noteq> [] \<or> rq_IgnoreTLE req) CommJudgeFields,
      reject_if (cm_Input spec \<noteq> [] \<and> trim_space (cm_InputURL spec) \<noteq> []) CommInputCombined,
      reject_if (cm_Answer spec \<noteq> [] \<and> trim_space (cm_AnswerURL spec) \<noteq> []) CommAnswerCombined,
      map_option CommCheck
        (validateRequiredLimits ''limits'' (rq_Limits req) MaxCommunicationOutputBytes),
      reject_if (lim_WallTimeMs (rq_Limits req) \<noteq> 0) CommWall]"

definition comm_binary_v2 :: "env \<Rightarrow> string \<Rightarrow> nat \<Rightarrow> Binary \<Rightarrow> comm_error option" where
  "comm_binary_v2 E pid i b =
     (if bin_DataURL b \<noteq> [] \<or> \<not> validSHA256 (bin_SHA256 b) then Some (CommBinaryInline pid)
      else (case b64_stream_decode (bin_DataB64 b) of
              None \<Rightarrow> Some (CommBinaryBase64 pid (bin_Name b))
            | Some data \<Rightarrow>
                reject_if (env_sha256_hex E data \<noteq> bin_SHA256 b) (CommBinarySHA256 pid (bin_Name b))))"

definition comm_program ::
  "env \<Rightarrow> int \<Rightarrow> string list \<Rightarrow> nat \<Rightarrow> RunProgram \<Rightarrow> string list \<Rightarrow> comm_error + string list" where
  "comm_program E version referenced i program seen =
     (let pid = trim_space (prog_ID program) in
      checked (first_error
        [reject_if (pid = []) (CommProgramID i),
         reject_if (pid \<noteq> prog_ID program) (CommProgramWhitespace i),
         reject_if (pid \<in> set seen) (CommProgramDuplicate pid),
         reject_if (pid \<notin> set referenced) (CommProgramUnreferenced pid),
         reject_if (prog_EnableNetwork program) CommProgramNetwork,
         map_option CommCheck (ValidateRunLang (''program '' @ pid @ '' lang'') (prog_Lang program)),
         reject_if (NormalizeRunLang (prog_Lang program) \<noteq> ''binary'') (CommProgramNative version pid),
         reject_if (prog_Binaries program = []) (CommProgramNoBinaries pid),
         map_option CommCheck
           (ValidateBinaries (''program '' @ pid @ '' binaries'') (prog_Binaries program)),
         if version = 2 then first_error
           [reject_if (\<not> validSHA256 (prog_SourceSHA256 program)) (CommSourceSHA256 pid),
            each_error (comm_binary_v2 E pid) 0 (prog_Binaries program)]
         else None])
        (Inr (pid # seen)))"

definition ValidateCommunication :: "env \<Rightarrow> RunRequest \<Rightarrow> comm_error option" where
  "ValidateCommunication E req =
     (case rq_Communication req of
        None \<Rightarrow> None
      | Some spec \<Rightarrow>
          (let managerID = trim_space (cm_ManagerProgramID spec) in
           err_of (checked (comm_header req spec)
             (and_then (loop_err comm_reference 0 (comm_participant_ids spec) [managerID])
               (\<lambda>referenced. checked (comm_fields req spec referenced)
                 (and_then (loop_err (comm_program E (cm_Version spec) referenced) 0 (rq_Programs req) [])
                   (\<lambda>seen. checked (first_error
                      [each_error (\<lambda>_ pid. reject_if (pid \<notin> set seen) (CommUnknownParticipant pid)) 0
                         (comm_participant_ids spec),
                       reject_if (managerID \<notin> set seen) (CommUnknownManager managerID)])
                      (Inr ()))))))))"

section \<open>What is accepted\<close>

lemma validSHA256_iff:
  "validSHA256 v \<longleftrightarrow>
     length v = 64 \<and>
     (\<forall>c \<in> set v. 48 \<le> byte c \<and> byte c \<le> (57 :: nat) \<or> 97 \<le> byte c \<and> byte c \<le> (102 :: nat))"
proof -
  let ?P = "\<lambda>r :: nat. 48 \<le> r \<and> r \<le> 57 \<or> 97 \<le> r \<and> r \<le> 102"
  have "(\<forall>(r, w) \<in> set (runes v). ?P r) \<longleftrightarrow> (\<forall>c \<in> set v. ?P (byte c))"
    by (rule runes_ball_ascii) auto
  moreover have "(\<forall>(r, w) \<in> set (runes v). ?P r) \<longleftrightarrow>
      list_all (\<lambda>(char, _). \<not> ((char < 48 \<or> char > 57) \<and> (char < 97 \<or> char > 102))) (runes v)"
    by (auto simp: list_all_iff not_less)
  ultimately show ?thesis by (simp add: validSHA256_def)
qed

lemma comm_reference_loop:
  assumes "loop_err comm_reference i pids refs = Inr refs'"
  shows "set refs' = set pids \<union> set refs \<and> length refs' = length pids + length refs \<and>
    distinct pids \<and> set pids \<inter> set refs = {} \<and> (\<forall>p \<in> set pids. p \<noteq> [] \<and> trim_space p = p)"
  using assms
proof (induction pids arbitrary: i refs)
  case Nil
  then show ?case by simp
next
  case (Cons p pids)
  then obtain refs1 where 1: "comm_reference i p refs = Inr refs1"
    and 2: "loop_err comm_reference (Suc i) pids refs1 = Inr refs'" by (auto split: sum.splits)
  from 1 have "refs1 = p # refs" "p \<notin> set refs" "p \<noteq> []" "trim_space p = p"
    by (auto simp: comm_reference_def)
  with Cons.IH [OF 2] show ?case by auto
qed

text \<open>An accepted program: native, off the network, and intact when the version requires it.\<close>

definition comm_program_ok :: "env \<Rightarrow> int \<Rightarrow> RunProgram \<Rightarrow> bool" where
  "comm_program_ok E version p \<longleftrightarrow>
     prog_ID p \<noteq> [] \<and> trim_space (prog_ID p) = prog_ID p \<and> \<not> prog_EnableNetwork p \<and>
     NormalizeRunLang (prog_Lang p) = ''binary'' \<and> prog_Binaries p \<noteq> [] \<and> binaries_ok (prog_Binaries p) \<and>
     (version = 2 \<longrightarrow> validSHA256 (prog_SourceSHA256 p) \<and>
        (\<forall>b \<in> set (prog_Binaries p). bin_DataURL b = [] \<and>
           (\<exists>data. b64_decode (bin_DataB64 b) = Some data \<and> env_sha256_hex E data = bin_SHA256 b)))"

lemma comm_binary_v2_accepts:
  assumes "comm_binary_v2 E pid i b = None" and "b64_decode (bin_DataB64 b) = Some data"
  shows "bin_DataURL b = [] \<and> env_sha256_hex E data = bin_SHA256 b"
  using assms b64_stream_decode_agrees [OF assms(2)]
  by (auto simp: comm_binary_v2_def split: if_splits)

lemma comm_program_accepts:
  assumes "comm_program E version refs i p seen = Inr seen'"
  shows "seen' = prog_ID p # seen \<and> prog_ID p \<notin> set seen \<and> prog_ID p \<in> set refs \<and>
    comm_program_ok E version p"
proof -
  from assms have base: "seen' = prog_ID p # seen" "prog_ID p \<notin> set seen" "prog_ID p \<in> set refs"
    "prog_ID p \<noteq> []" "trim_space (prog_ID p) = prog_ID p" "\<not> prog_EnableNetwork p"
    "NormalizeRunLang (prog_Lang p) = ''binary''" "prog_Binaries p \<noteq> []" "binaries_ok (prog_Binaries p)"
    by (auto simp: comm_program_def Let_def accepts)
  have v2: "validSHA256 (prog_SourceSHA256 p) \<and>
      (\<forall>b \<in> set (prog_Binaries p). bin_DataURL b = [] \<and>
         (\<exists>data. b64_decode (bin_DataB64 b) = Some data \<and> env_sha256_hex E data = bin_SHA256 b))"
    if "version = 2"
  proof -
    from assms that have s: "validSHA256 (prog_SourceSHA256 p)"
      and e: "each_error (comm_binary_v2 E (trim_space (prog_ID p))) 0 (prog_Binaries p) = None"
      by (auto simp: comm_program_def Let_def)
    have "bin_DataURL b = [] \<and> (\<exists>data. b64_decode (bin_DataB64 b) = Some data \<and>
        env_sha256_hex E data = bin_SHA256 b)" if b: "b \<in> set (prog_Binaries p)" for b
    proof -
      obtain data where d: "b64_decode (bin_DataB64 b) = Some data"
        using binaries_ok_decoded [OF base(9) b] by blast
      obtain k where "comm_binary_v2 E (trim_space (prog_ID p)) k b = None"
        using each_error_None_mem [OF e b] by blast
      from comm_binary_v2_accepts [OF this d] d show ?thesis by blast
    qed
    with s show ?thesis by blast
  qed
  with base show ?thesis by (simp add: comm_program_ok_def)
qed

lemma comm_program_loop:
  assumes "loop_err (comm_program E version refs) i ps seen = Inr seen'"
  shows "set seen' = prog_ID ` set ps \<union> set seen \<and> distinct (map prog_ID ps) \<and>
    prog_ID ` set ps \<subseteq> set refs \<and> (\<forall>p \<in> set ps. prog_ID p \<notin> set seen \<and> comm_program_ok E version p)"
  using assms
proof (induction ps arbitrary: i seen)
  case Nil
  then show ?case by simp
next
  case (Cons p ps)
  then obtain seen1 where 1: "comm_program E version refs i p seen = Inr seen1"
    and 2: "loop_err (comm_program E version refs) (Suc i) ps seen1 = Inr seen'"
    by (auto split: sum.splits)
  show ?case using comm_program_accepts [OF 1] Cons.IH [OF 2] by auto
qed

text \<open>
  An accepted communication request has exactly one program for the manager and for each
  participant id, the manager is no participant, and every program is acceptable.
\<close>

lemma ValidateCommunication_accepts:
  assumes "ValidateCommunication E req = None" and "rq_Communication req = Some spec"
  shows "prog_ID ` set (rq_Programs req) = insert (cm_ManagerProgramID spec) (set (comm_participant_ids spec))"
    and "distinct (map prog_ID (rq_Programs req))"
    and "distinct (comm_participant_ids spec)"
    and "cm_ManagerProgramID spec \<notin> set (comm_participant_ids spec)"
    and "\<forall>p \<in> set (rq_Programs req). comm_program_ok E (cm_Version spec) p"
    and "limits_in_range MaxCommunicationOutputBytes (rq_Limits req)"
    and "2 \<le> cm_ParticipantCount spec \<and> cm_ParticipantCount spec \<le> 64"
proof -
  let ?m = "cm_ManagerProgramID spec"
  from assms obtain refs seen where
    hdr: "comm_header req spec = None"
    and refs: "loop_err comm_reference 0 (comm_participant_ids spec) [trim_space ?m] = Inr refs"
    and flds: "comm_fields req spec refs = None"
    and progs: "loop_err (comm_program E (cm_Version spec) refs) 0 (rq_Programs req) [] = Inr seen"
    and known: "\<forall>pid \<in> set (comm_participant_ids spec). pid \<in> set seen" "trim_space ?m \<in> set seen"
    by (auto simp: ValidateCommunication_def Let_def err_of_None_iff and_then_Inr_iff)
  have m: "trim_space ?m = ?m" using hdr by (simp add: comm_header_def Let_def)
  note r = comm_reference_loop [OF refs] and p = comm_program_loop [OF progs]
  show "prog_ID ` set (rq_Programs req) = insert ?m (set (comm_participant_ids spec))"
    using r p known m by auto
  show "distinct (map prog_ID (rq_Programs req))" "distinct (comm_participant_ids spec)"
    using r p by auto
  show "?m \<notin> set (comm_participant_ids spec)" using r m by auto
  show "\<forall>p \<in> set (rq_Programs req). comm_program_ok E (cm_Version spec) p" using p by auto
  show "limits_in_range MaxCommunicationOutputBytes (rq_Limits req)"
    using flds by (simp add: comm_fields_def accepts)
  show "2 \<le> cm_ParticipantCount spec \<and> cm_ParticipantCount spec \<le> 64"
    using hdr by (simp add: comm_header_def Let_def MinCommunicationParticipants_def
        MaxCommunicationParticipants_def)
qed

end
