(* ===== verification/Policies.thy ===== *)
theory Policies
  imports Go_Strings
begin

text \<open>
  The request policies that are plain functions of strings: profile names and problem ids
  (internal/runtimepolicy), the Python library mode (internal/pythonpolicy), the Go module mode
  (internal/gomodulepolicy) and the Rust crate mode (internal/rustpolicy).

  The three mode packages have the same shape. What a caller relies on is the interface
  \<open>mode_policy\<close>: parsing accepts the two modes in any case and spacing, validation accepts only
  their canonical spelling (or the empty string), and the effective mode of an accepted request
  is always one of the two. Its lemmas are proved once and interpreted for each package.
\<close>

section \<open>Profile names and problem ids\<close>

datatype policy_error =
    ProfileNameTooLong
  | ProfileNameChars
  | ProblemIDTooLong
  | ProblemIDDots
  | ProblemIDChars
  | BadMode

definition MaxProfileNameBytes :: nat where
  "MaxProfileNameBytes = 64"

definition MaxProblemIDBytes :: nat where
  "MaxProblemIDBytes = 128"

text \<open>The character tests of the two loops, on runes.\<close>

definition profile_rune :: "nat \<Rightarrow> bool" where
  "profile_rune r \<longleftrightarrow> 97 \<le> r \<and> r \<le> 122 \<or> 65 \<le> r \<and> r \<le> 90 \<or> 48 \<le> r \<and> r \<le> 57 \<or>
     r = byte (CHR ''-'') \<or> r = byte (CHR ''_'') \<or> r = byte (CHR ''.'')"

definition problem_rune :: "nat \<Rightarrow> bool" where
  "problem_rune r \<longleftrightarrow> 97 \<le> r \<and> r \<le> 122 \<or> 65 \<le> r \<and> r \<le> 90 \<or> 48 \<le> r \<and> r \<le> 57 \<or>
     r = byte (CHR ''-'') \<or> r = byte (CHR ''_'') \<or> r = byte (CHR ''.'') \<or>
     r = byte (CHR '':'') \<or> r = byte (CHR ''/'')"

text \<open>\<open>strings.Contains\<close>.\<close>

fun contains :: "string \<Rightarrow> string \<Rightarrow> bool" where
  "contains [] p = (p = [])"
| "contains (c # s) p = (has_prefix (c # s) p \<or> contains s p)"

definition ValidateProfileName :: "string \<Rightarrow> policy_error option" where
  "ValidateProfileName name =
     (if name = [] then None
      else first_error
        [reject_if (length name > MaxProfileNameBytes) ProfileNameTooLong,
         each_error (\<lambda>_ (r, _). reject_if (\<not> profile_rune r) ProfileNameChars) 0 (runes name)])"

definition ValidateProblemID :: "string \<Rightarrow> policy_error option" where
  "ValidateProblemID pid =
     (if pid = [] then None
      else first_error
        [reject_if (length pid > MaxProblemIDBytes) ProblemIDTooLong,
         reject_if (contains pid ''..'') ProblemIDDots,
         each_error (\<lambda>_ (r, _). reject_if (\<not> problem_rune r) ProblemIDChars) 0 (runes pid)])"

lemma contains_iff: "contains s p \<longleftrightarrow> (\<exists>a b. s = a @ p @ b)"
proof (induction s)
  case (Cons c s)
  show ?case
  proof
    assume "contains (c # s) p"
    then consider t where "c # s = p @ t" | a b where "s = a @ p @ b"
      using Cons by (auto simp: has_prefix_iff)
    then show "\<exists>a b. c # s = a @ p @ b"
    proof cases
      case 1
      then show ?thesis by (metis append_Nil)
    next
      case 2
      then show ?thesis by (metis append_Cons)
    qed
  next
    assume "\<exists>a b. c # s = a @ p @ b"
    then obtain a b where "c # s = a @ p @ b" by blast
    then show "contains (c # s) p"
    proof (cases a)
      case Nil
      then have "has_prefix (c # s) p" using \<open>c # s = a @ p @ b\<close> by (auto simp: has_prefix_iff)
      then show ?thesis by simp
    next
      case (Cons d a')
      then have "s = a' @ p @ b" using \<open>c # s = a @ p @ b\<close> by simp
      then show ?thesis using \<open>contains s p \<longleftrightarrow> _\<close> by auto
    qed
  qed
qed simp

lemma profile_rune_ascii: "profile_rune r \<Longrightarrow> r < 128"
  by (auto simp: profile_rune_def)

lemma problem_rune_ascii: "problem_rune r \<Longrightarrow> r < 128"
  by (auto simp: problem_rune_def)

lemma ValidateProfileName_accepts:
  "ValidateProfileName name = None \<longleftrightarrow>
     length name \<le> MaxProfileNameBytes \<and> (\<forall>c \<in> set name. profile_rune (byte c))"
proof -
  have "(\<forall>x \<in> set (runes name). case x of (r, _) \<Rightarrow> profile_rune r) \<longleftrightarrow>
        (\<forall>c \<in> set name. profile_rune (byte c))"
    using runes_ball_ascii [OF profile_rune_ascii] by simp
  then show ?thesis
    by (auto simp: ValidateProfileName_def accepts case_prod_beta MaxProfileNameBytes_def)
qed

lemma ValidateProblemID_accepts:
  "ValidateProblemID pid = None \<longleftrightarrow>
     length pid \<le> MaxProblemIDBytes \<and> \<not> contains pid ''..'' \<and> (\<forall>c \<in> set pid. problem_rune (byte c))"
proof -
  have "(\<forall>x \<in> set (runes pid). case x of (r, _) \<Rightarrow> problem_rune r) \<longleftrightarrow>
        (\<forall>c \<in> set pid. problem_rune (byte c))"
    using runes_ball_ascii [OF problem_rune_ascii] by simp
  then show ?thesis
    by (auto simp: ValidateProblemID_def accepts case_prod_beta MaxProblemIDBytes_def)
qed

section \<open>Library modes\<close>

definition ModeStdlib :: string where "ModeStdlib = ''stdlib''"
definition ModeInstalled :: string where "ModeInstalled = ''installed''"

definition ParseLibraryMode :: "string \<Rightarrow> policy_error + string" where
  "ParseLibraryMode raw =
     (let mode = to_lower (trim_space raw) in
      if mode = ModeStdlib \<or> mode = ModeInstalled then Inr mode else Inl BadMode)"

definition ValidateOptionalLibraryMode :: "string \<Rightarrow> policy_error option" where
  "ValidateOptionalLibraryMode mode =
     (if mode = [] then None
      else case ParseLibraryMode mode of
        Inl _ \<Rightarrow> Some BadMode
      | Inr parsed \<Rightarrow> reject_if (parsed \<noteq> mode) BadMode)"

definition EffectiveLibraryMode :: "string \<Rightarrow> string" where
  "EffectiveLibraryMode mode = (if mode = ModeInstalled then ModeInstalled else ModeStdlib)"

definition ParseMode :: "string \<Rightarrow> policy_error + string" where
  "ParseMode raw =
     (let mode = to_lower (trim_space raw) in
      if mode = ModeStdlib \<or> mode = ModeInstalled then Inr mode else Inl BadMode)"

definition ValidateOptionalMode :: "string \<Rightarrow> policy_error option" where
  "ValidateOptionalMode mode =
     (if mode = [] then None
      else case ParseMode mode of
        Inl _ \<Rightarrow> Some BadMode
      | Inr parsed \<Rightarrow> reject_if (parsed \<noteq> mode) BadMode)"

definition EffectiveMode :: "string \<Rightarrow> string" where
  "EffectiveMode mode = (if mode = ModeInstalled then ModeInstalled else ModeStdlib)"

definition UsesGoCompiler :: "string \<Rightarrow> bool" where
  "UsesGoCompiler lang = (to_lower (trim_space lang) \<in> {''go'', ''golang''})"

definition ParseCrateMode :: "string \<Rightarrow> policy_error + string" where
  "ParseCrateMode raw =
     (let mode = to_lower (trim_space raw) in
      if mode = ModeStdlib \<or> mode = ModeInstalled then Inr mode else Inl BadMode)"

definition ValidateOptionalCrateMode :: "string \<Rightarrow> policy_error option" where
  "ValidateOptionalCrateMode mode =
     (if mode = [] then None
      else case ParseCrateMode mode of
        Inl _ \<Rightarrow> Some BadMode
      | Inr parsed \<Rightarrow> reject_if (parsed \<noteq> mode) BadMode)"

definition EffectiveCrateMode :: "string \<Rightarrow> string" where
  "EffectiveCrateMode mode = (if mode = ModeInstalled then ModeInstalled else ModeStdlib)"

definition IsRustLanguage :: "string \<Rightarrow> bool" where
  "IsRustLanguage lang =
     (to_upper (trim_space lang) \<in> {''RUST'', ''RUST2015'', ''RUST2018'', ''RUST2021'', ''RUST2024''})"

locale mode_policy =
  fixes parse :: "string \<Rightarrow> policy_error + string"
    and validate :: "string \<Rightarrow> policy_error option"
    and effective :: "string \<Rightarrow> string"
  assumes parse_result: "parse raw = Inr m \<Longrightarrow> m = ModeStdlib \<or> m = ModeInstalled"
    and parse_canonical: "m = ModeStdlib \<or> m = ModeInstalled \<Longrightarrow> parse m = Inr m"
    and validate_nonempty: "m \<noteq> [] \<Longrightarrow> validate m = None \<longleftrightarrow> parse m = Inr m"
    and validate_empty: "validate [] = None"
    and effective_def: "effective m = (if m = ModeInstalled then ModeInstalled else ModeStdlib)"
begin

lemma validate_iff: "validate m = None \<longleftrightarrow> m = [] \<or> m = ModeStdlib \<or> m = ModeInstalled"
  using parse_result parse_canonical validate_nonempty validate_empty by (cases "m = []") auto

lemma effective_of_validated: "validate m = None \<Longrightarrow> m \<noteq> [] \<Longrightarrow> effective m = m"
  using validate_iff by (auto simp: effective_def)

lemma effective_of_omitted: "effective [] = ModeStdlib"
  by (auto simp: effective_def ModeInstalled_def)

lemma parse_then_validate: "parse raw = Inr m \<Longrightarrow> validate m = None"
  using parse_result validate_iff by blast

end

lemma mode_parse_canonical:
  "m = ModeStdlib \<or> m = ModeInstalled \<Longrightarrow> to_lower (trim_space m) = m"
proof -
  have "to_lower (trim_space ''stdlib'') = ''stdlib''"
    by (simp add: trim_space_visible to_lower_ascii lower_rune_def char_of_eq_iff)
  moreover have "to_lower (trim_space ''installed'') = ''installed''"
    by (simp add: trim_space_visible to_lower_ascii lower_rune_def char_of_eq_iff)
  ultimately show "m = ModeStdlib \<or> m = ModeInstalled \<Longrightarrow> to_lower (trim_space m) = m"
    by (auto simp: ModeStdlib_def ModeInstalled_def)
qed

interpretation python_mode: mode_policy ParseLibraryMode ValidateOptionalLibraryMode EffectiveLibraryMode
  by unfold_locales (auto simp: ParseLibraryMode_def ValidateOptionalLibraryMode_def
      EffectiveLibraryMode_def Let_def mode_parse_canonical split: sum.splits if_splits)

interpretation go_mode: mode_policy ParseMode ValidateOptionalMode EffectiveMode
  by unfold_locales (auto simp: ParseMode_def ValidateOptionalMode_def
      EffectiveMode_def Let_def mode_parse_canonical split: sum.splits if_splits)

interpretation rust_mode: mode_policy ParseCrateMode ValidateOptionalCrateMode EffectiveCrateMode
  by unfold_locales (auto simp: ParseCrateMode_def ValidateOptionalCrateMode_def
      EffectiveCrateMode_def Let_def mode_parse_canonical split: sum.splits if_splits)

end
