(* ===== verification/Run_Validate.thy ===== *)
theory Run_Validate
  imports Run_Pipeline Run_Steps Run_Communication Policies
begin

text \<open>
  The entry point \<open>Validate\<close> of internal/runvalidation/validation.go with \<open>ValidateTextEncoding\<close>
  and \<open>ValidateBinaryBudget\<close>, and \<open>ValidateEntry\<close> of internal/runvalidation/entry.go.
\<close>

datatype validate_error =
    TextStdin
  | TextExpected
  | TextCommInput
  | TextCommAnswer
  | TextStepStdin nat
  | TextStepPart nat nat
  | EntryProgram
  | EntryJudge
  | EntryModeUnexpected
  | EntryModeRequired
  | EntryIsolated
  | EntryData
  | EntrySubmissionTooLarge
  | EntryInputTooLarge
  | EntryExpected
  | StdinTooLarge
  | StdinCombined
  | ExpectedTooLarge
  | CommInputTooLarge
  | CommAnswerTooLarge
  | ProfileError policy_error
  | ProblemError policy_error
  | LibraryModeError policy_error
  | LibraryModeUnused
  | CheckError check_error
  | CommError comm_error
  | PipeError pipe_error
  | StepError step_error
  | TooManyBinaries
  | TooManyFileOutputs

section \<open>Text\<close>

definition ValidateTextEncoding :: "RunRequest \<Rightarrow> validate_error option" where
  "ValidateTextEncoding req = first_error
     [reject_if (\<not> valid_utf8 (rq_Stdin req)) TextStdin,
      reject_if (\<not> valid_utf8 (rq_ExpectedStdout req)) TextExpected,
      (case rq_Communication req of
         None \<Rightarrow> None
       | Some spec \<Rightarrow> first_error
           [reject_if (\<not> valid_utf8 (cm_Input spec)) TextCommInput,
            reject_if (\<not> valid_utf8 (cm_Answer spec)) TextCommAnswer]),
      each_error (\<lambda>i step. first_error
        [reject_if (\<not> valid_utf8 (st_Stdin step)) (TextStepStdin i),
         each_error (\<lambda>j part. reject_if (\<not> valid_utf8 (sp_Data part)) (TextStepPart i j)) 0
           (st_StdinParts step)]) 0 (rq_Steps req)]"

section \<open>Entry\<close>

definition is_entry :: "string \<Rightarrow> bool" where
  "is_entry lang \<longleftrightarrow> NormalizeRunLang lang = ''entry''"

definition ValidateEntry :: "env \<Rightarrow> RunRequest \<Rightarrow> validate_error option" where
  "ValidateEntry E req = first_error
     [reject_if (list_ex (\<lambda>p. is_entry (prog_Lang p)) (rq_Programs req)) EntryProgram,
      reject_if ((case rq_Interactor req of None \<Rightarrow> False | Some ia \<Rightarrow> is_entry (ia_Lang ia)) \<or>
          (case rq_SPJ req of None \<Rightarrow> False | Some s \<Rightarrow> is_entry (spj_Lang s))) EntryJudge,
      if \<not> is_entry (rq_Lang req) then reject_if (rq_EntryMode req \<noteq> []) EntryModeUnexpected
      else first_error
        [reject_if (rq_EntryMode req \<noteq> ''stdio'' \<and> rq_EntryMode req \<noteq> ''state'') EntryModeRequired,
         reject_if (rq_Pipeline req \<noteq> None \<or> rq_Communication req \<noteq> None \<or> rq_Interactor req \<noteq> None \<or>
             rq_SPJ req \<noteq> None \<or> rq_Programs req \<noteq> [] \<or> rq_Steps req \<noteq> [] \<or> rq_FileOutputs req \<noteq> [] \<or>
             rq_SidecarOutputs req \<noteq> [] \<or> rq_EnableNetwork req \<or> rq_IgnoreTLE req) EntryIsolated,
         (case rq_Binaries req of
            [b] \<Rightarrow> first_error
              [reject_if (bin_Name b \<noteq> SourceName \<or> bin_Mode b \<noteq> [] \<or>
                   rq_EntryPoint req \<noteq> [] \<and> rq_EntryPoint req \<noteq> SourceName) EntryData,
               reject_if (length (bin_DataB64 b) > b64_encoded_len MaxSubmissionBytes)
                 EntrySubmissionTooLarge]
          | _ \<Rightarrow> Some EntryData),
         reject_if (length (rq_Stdin req) > MaxInputBytes) EntryInputTooLarge,
         reject_if (rq_EntryMode req = ''state'' \<and> rq_ExpectedStdoutURL req = [] \<and>
             \<not> ValidateExpected (env_json_tokens E) (rq_ExpectedStdout req)) EntryExpected]]"

section \<open>The binary budget of a request\<close>

text \<open>A group of binaries: its label, its binaries and whether it is a single one.\<close>

definition binaryGroups :: "RunRequest \<Rightarrow> (string \<times> Binary list \<times> bool) list" where
  "binaryGroups req =
     [(''binaries'', rq_Binaries req, False)]
     @ map (\<lambda>(i, p). (''programs['' @ dec i @ ''].binaries'', prog_Binaries p, False))
         (enumerate 0 (rq_Programs req))
     @ (case rq_Pipeline req of
          None \<Rightarrow> []
        | Some pl \<Rightarrow>
            map (\<lambda>(i, p). (''pipeline.programs['' @ dec i @ ''].binaries'', prog_Binaries p, False))
              (enumerate 0 (pl_Programs pl))
            @ (case fj_SPJ (pl_FinalJudge pl) of
                 None \<Rightarrow> []
               | Some s \<Rightarrow> (case spj_Binary s of
                   None \<Rightarrow> [] | Some b \<Rightarrow> [(''pipeline.final_judge.spj.binary'', [b], True)])))
     @ (case rq_SPJ req of
          None \<Rightarrow> []
        | Some s \<Rightarrow> (case spj_Binary s of None \<Rightarrow> [] | Some b \<Rightarrow> [(''spj.binary'', [b], True)]))
     @ (case rq_Interactor req of
          None \<Rightarrow> [] | Some ia \<Rightarrow> [(''interactor.binaries'', ia_Binaries ia, False)])"

definition budget_step ::
  "string \<Rightarrow> bool \<Rightarrow> nat \<Rightarrow> Binary \<Rightarrow> nat \<times> nat \<Rightarrow> check_error + nat \<times> nat" where
  "budget_step label single i b s =
     (case s of (binaryFiles, decodedBytes) \<Rightarrow>
        if binaryFiles + 1 > MaxBinaryFiles then Inl BudgetTooMany
        else (case b64_stream_decode (bin_DataB64 b) of
                None \<Rightarrow> Inl (BudgetBase64 label i single)
              | Some data \<Rightarrow>
                  if decodedBytes + length data > MaxBinaryTotalBytes then Inl BudgetTotal
                  else Inr (binaryFiles + 1, decodedBytes + length data)))"

definition group_step ::
  "nat \<Rightarrow> string \<times> Binary list \<times> bool \<Rightarrow> nat \<times> nat \<Rightarrow> check_error + nat \<times> nat" where
  "group_step _ g s =
     (case g of (label, binaries, single) \<Rightarrow> loop_err (budget_step label single) 0 binaries s)"

definition ValidateBinaryBudget :: "RunRequest \<Rightarrow> check_error + nat" where
  "ValidateBinaryBudget req =
     and_then (loop_err group_step 0 (binaryGroups req) (0, 0)) (\<lambda>(n, bytes). Inr bytes)"

section \<open>Validate\<close>

definition mode_check :: "env \<Rightarrow> RunRequest \<Rightarrow> validate_error option" where
  "mode_check E req =
     (if rq_Communication req \<noteq> None then map_option CommError (ValidateCommunication E req)
      else if rq_Pipeline req \<noteq> None then map_option PipeError (ValidatePipelineV1 E req)
      else if UsesSteps req then map_option StepError (ValidateStepPipeline req)
      else first_error
        [map_option CheckError (ValidateRunLang ''lang'' (rq_Lang req)),
         reject_if (length (rq_Binaries req) > MaxBinaryFiles) TooManyBinaries,
         map_option CheckError (ValidateBinaries ''binaries'' (rq_Binaries req)),
         reject_if (length (rq_FileOutputs req) > 1) TooManyFileOutputs,
         map_option CheckError (ValidateSidecarOutputs (rq_SidecarOutputs req)),
         map_option CheckError (ValidateRequiredLimits ''limits'' (rq_Limits req))])"

definition Validate :: "env \<Rightarrow> RunRequest \<Rightarrow> validate_error option" where
  "Validate E req = first_error
     [ValidateTextEncoding req,
      ValidateEntry E req,
      reject_if (length (rq_Stdin req) > MaxTextFieldBytes) StdinTooLarge,
      reject_if (rq_Stdin req \<noteq> [] \<and> trim_space (rq_StdinURL req) \<noteq> []) StdinCombined,
      reject_if (length (rq_ExpectedStdout req) > MaxTextFieldBytes) ExpectedTooLarge,
      (case rq_Communication req of
         None \<Rightarrow> None
       | Some spec \<Rightarrow> first_error
           [reject_if (length (cm_Input spec) > MaxTextFieldBytes) CommInputTooLarge,
            reject_if (length (cm_Answer spec) > MaxTextFieldBytes) CommAnswerTooLarge]),
      map_option ProfileError (ValidateProfileName (rq_RuntimeProfile req)),
      map_option ProblemError (ValidateProblemID (rq_ProblemID req)),
      map_option LibraryModeError (ValidateOptionalLibraryMode (rq_PythonLibraryMode req)),
      reject_if (rq_PythonLibraryMode req \<noteq> [] \<and> \<not> UsesPython req) LibraryModeUnused,
      map_option CheckError (ValidateCaptureLimits (rq_CaptureLimits req)),
      mode_check E req,
      (case rq_Interactor req of
         None \<Rightarrow> None | Some ia \<Rightarrow> map_option StepError (ValidateInteractor req ia)),
      map_option CheckError (ValidateSPJ E (rq_SPJ req)),
      map_option CheckError (err_of (ValidateBinaryBudget req))]"

section \<open>What is accepted\<close>

definition all_binaries :: "RunRequest \<Rightarrow> Binary list" where
  "all_binaries req = concat (map (fst \<circ> snd) (binaryGroups req))"

definition stream_size :: "Binary \<Rightarrow> nat" where
  "stream_size b = (case b64_stream_decode (bin_DataB64 b) of None \<Rightarrow> 0 | Some d \<Rightarrow> length d)"

definition budget_ok :: "nat \<Rightarrow> nat \<Rightarrow> Binary list \<Rightarrow> bool" where
  "budget_ok n bytes bs \<longleftrightarrow>
     n + length bs \<le> MaxBinaryFiles \<and> bytes + sum_list (map stream_size bs) \<le> MaxBinaryTotalBytes \<and>
     (\<forall>b \<in> set bs. b64_stream_decode (bin_DataB64 b) \<noteq> None)"

lemma budget_step_Inr:
  "budget_step label single i b (n, bytes) = Inr s' \<longleftrightarrow>
     budget_ok n bytes [b] \<and> s' = (n + 1, bytes + stream_size b)"
  by (auto simp: budget_step_def budget_ok_def stream_size_def split: option.splits)

lemma budget_loop:
  assumes "n \<le> MaxBinaryFiles" and "bytes \<le> MaxBinaryTotalBytes"
  shows "loop_err (budget_step label single) i bs (n, bytes) = Inr s' \<longleftrightarrow>
    budget_ok n bytes bs \<and> s' = (n + length bs, bytes + sum_list (map stream_size bs))"
  using assms
proof (induction bs arbitrary: i n bytes)
  case Nil
  then show ?case by (auto simp: budget_ok_def)
next
  case (Cons b bs)
  show ?case
  proof (cases "budget_ok n bytes [b]")
    case True
    then have "budget_step label single i b (n, bytes) = Inr (n + 1, bytes + stream_size b)"
      by (simp add: budget_step_Inr)
    moreover have "n + 1 \<le> MaxBinaryFiles" "bytes + stream_size b \<le> MaxBinaryTotalBytes"
      using True by (simp_all add: budget_ok_def)
    ultimately show ?thesis
      using Cons.IH [of "n + 1" "bytes + stream_size b" "Suc i"] True
      by (auto simp: budget_ok_def add.assoc)
  next
    case False
    then obtain e where "budget_step label single i b (n, bytes) = Inl e"
      by (metis old.sum.exhaust budget_step_Inr)
    moreover have "\<not> budget_ok n bytes (b # bs)" using False by (auto simp: budget_ok_def)
    ultimately show ?thesis by simp
  qed
qed

lemma group_loop:
  assumes "n \<le> MaxBinaryFiles" and "bytes \<le> MaxBinaryTotalBytes"
  shows "loop_err group_step i gs (n, bytes) = Inr s' \<longleftrightarrow>
    budget_ok n bytes (concat (map (fst \<circ> snd) gs)) \<and>
    s' = (n + length (concat (map (fst \<circ> snd) gs)),
          bytes + sum_list (map stream_size (concat (map (fst \<circ> snd) gs))))"
  using assms
proof (induction gs arbitrary: i n bytes)
  case Nil
  then show ?case by (auto simp: budget_ok_def)
next
  case (Cons g gs)
  obtain label bs single where g: "g = (label, bs, single)" by (cases g)
  show ?case
  proof (cases "budget_ok n bytes bs")
    case True
    then have "group_step i g (n, bytes) = Inr (n + length bs, bytes + sum_list (map stream_size bs))"
      using Cons.prems by (simp add: group_step_def g budget_loop)
    moreover have "n + length bs \<le> MaxBinaryFiles"
      "bytes + sum_list (map stream_size bs) \<le> MaxBinaryTotalBytes"
      using True by (simp_all add: budget_ok_def)
    ultimately show ?thesis
      using Cons.IH [of "n + length bs" "bytes + sum_list (map stream_size bs)" "Suc i"] True g
      by (auto simp: budget_ok_def add.assoc)
  next
    case False
    then obtain e where "group_step i g (n, bytes) = Inl e"
      using Cons.prems by (metis (no_types, lifting) old.sum.exhaust group_step_def g prod.case budget_loop)
    moreover have "\<not> budget_ok n bytes (concat (map (fst \<circ> snd) (g # gs)))"
      using False g by (auto simp: budget_ok_def)
    ultimately show ?thesis by (simp add: o_def)
  qed
qed

lemma ValidateBinaryBudget_Inr:
  "ValidateBinaryBudget req = Inr total_bytes \<longleftrightarrow>
     budget_ok 0 0 (all_binaries req) \<and> total_bytes = sum_list (map stream_size (all_binaries req))"
  by (auto simp: ValidateBinaryBudget_def all_binaries_def and_then_Inr_iff group_loop)

lemma ValidateEntry_isolated:
  assumes "ValidateEntry E req = None" and "is_entry (rq_Lang req)"
  shows "\<exists>b. rq_Binaries req = [b] \<and> bin_Name b = SourceName \<and> bin_Mode b = []"
    and "rq_Pipeline req = None \<and> rq_Communication req = None \<and> rq_Interactor req = None \<and>
      rq_SPJ req = None \<and> rq_Programs req = [] \<and> rq_Steps req = [] \<and> rq_FileOutputs req = [] \<and>
      rq_SidecarOutputs req = [] \<and> \<not> rq_EnableNetwork req \<and> \<not> rq_IgnoreTLE req"
    and "rq_EntryMode req = ''stdio'' \<or> rq_EntryMode req = ''state''"
    and "rq_EntryMode req = ''state'' \<Longrightarrow> rq_ExpectedStdoutURL req = [] \<Longrightarrow>
      ValidateExpected (env_json_tokens E) (rq_ExpectedStdout req)"
  using assms by (auto simp: ValidateEntry_def split: list.splits)

lemma Validate_parts:
  assumes "Validate E req = None"
  shows "ValidateTextEncoding req = None" and "ValidateEntry E req = None"
    and "mode_check E req = None" and "budget_ok 0 0 (all_binaries req)"
    and "\<And>ia. rq_Interactor req = Some ia \<Longrightarrow> ValidateInteractor req ia = None"
    and "\<And>s. rq_SPJ req = Some s \<Longrightarrow> spj_ok E s"
  using assms
  by (auto simp: Validate_def accepts err_of_None_iff ValidateBinaryBudget_Inr)

text \<open>
  An accepted request is of exactly one kind, and the parts of the other kinds are empty.
\<close>

lemma Validate_kinds:
  assumes "Validate E req = None"
  shows "rq_Communication req \<noteq> None \<Longrightarrow>
      rq_Pipeline req = None \<and> rq_Steps req = [] \<and> rq_Binaries req = [] \<and> rq_Lang req = []"
    and "rq_Pipeline req \<noteq> None \<Longrightarrow>
      rq_Communication req = None \<and> rq_Programs req = [] \<and> rq_Steps req = [] \<and>
      rq_Binaries req = [] \<and> rq_Lang req = []"
    and "UsesSteps req \<Longrightarrow> rq_Binaries req = [] \<and> rq_Lang req = []"
proof -
  note m = Validate_parts(3) [OF assms]
  show 1: "rq_Pipeline req = None \<and> rq_Steps req = [] \<and> rq_Binaries req = [] \<and> rq_Lang req = []"
    if "rq_Communication req \<noteq> None"
    using m that ValidateCommunication_accepts
    by (auto simp: mode_check_def ValidateCommunication_def comm_header_def comm_fields_def Let_def
        err_of_None_iff and_then_Inr_iff)
  show "rq_Communication req = None \<and> rq_Programs req = [] \<and> rq_Steps req = [] \<and>
      rq_Binaries req = [] \<and> rq_Lang req = []" if p: "rq_Pipeline req \<noteq> None"
  proof -
    have c: "rq_Communication req = None" using 1 p by blast
    with m p have "ValidatePipelineV1 E req = None" by (simp add: mode_check_def)
    from ValidatePipelineV1_accepts [OF this] c show ?thesis by (auto simp: pipe_header_def)
  qed
  show "rq_Binaries req = [] \<and> rq_Lang req = []" if "UsesSteps req"
    using m that by (simp add: mode_check_def UsesSteps_def ValidateStepPipeline_def err_of_None_iff)
qed

end
