(* ===== verification/Request_Properties.thy ===== *)
theory Request_Properties
  imports Run_Validate
begin

text \<open>
  What an accepted request is, over \<open>Validate\<close> and the validators it calls, with small requests
  of each kind on which the properties are applied.
\<close>

section \<open>Example requests\<close>

definition demo_env :: env where
  "demo_env = \<lparr>env_url_parse = (\<lambda>_. None), env_sha256_hex = (\<lambda>_. []),
     env_json_tokens = (\<lambda>_. [])\<rparr>"

definition demo_limits :: Limits where
  "demo_limits = zero_Limits\<lparr>lim_TimeMs := 1000, lim_MemoryMB := 64\<rparr>"

definition demo_binary :: "string \<Rightarrow> Binary" where
  "demo_binary name = zero_Binary\<lparr>bin_Name := name, bin_DataB64 := ''QUJD''\<rparr>"

definition demo_single :: RunRequest where
  "demo_single = zero_RunRequest\<lparr>rq_Lang := ''binary'',
     rq_Binaries := [demo_binary ''a/b'', demo_binary ''c''], rq_Limits := demo_limits\<rparr>"

definition demo_entry :: RunRequest where
  "demo_entry = zero_RunRequest\<lparr>rq_Lang := ''entry'', rq_EntryMode := ''stdio'',
     rq_Binaries := [demo_binary SourceName], rq_Limits := demo_limits\<rparr>"

definition demo_program :: "string \<Rightarrow> RunProgram" where
  "demo_program name = zero_RunProgram\<lparr>prog_ID := name, prog_Lang := ''binary'',
     prog_Binaries := [demo_binary ''c'']\<rparr>"

definition demo_steps :: RunRequest where
  "demo_steps = zero_RunRequest\<lparr>rq_Programs := [demo_program ''p'', demo_program ''q''],
     rq_Steps :=
       [zero_RunStep\<lparr>st_ID := ''s'', st_ProgramID := ''p'', st_Limits := demo_limits,
          st_Handoff := Some (zero_StepHandoff\<lparr>ho_ID := ''h''\<rparr>)\<rparr>,
        zero_RunStep\<lparr>st_ID := ''t'', st_ProgramID := ''q'', st_Limits := demo_limits,
          st_StdinFrom := ''h''\<rparr>]\<rparr>"

definition demo_communication_spec :: CommunicationSpec where
  "demo_communication_spec = zero_CommunicationSpec\<lparr>cm_Version := 1, cm_ParticipantProgramID := ''p'',
     cm_ManagerProgramID := ''m'', cm_ParticipantCount := 2, cm_ResultProtocol := ''manager-result-v1''\<rparr>"

definition demo_communication :: RunRequest where
  "demo_communication = zero_RunRequest\<lparr>rq_Programs := [demo_program ''p'', demo_program ''m''],
     rq_Communication := Some demo_communication_spec, rq_Limits := demo_limits\<rparr>"

text \<open>A pipeline whose second step reads the output of the first.\<close>

definition demo_ref :: "string \<Rightarrow> string \<Rightarrow> string \<Rightarrow> PipelineRef" where
  "demo_ref t i s = \<lparr>ref_Type = t, ref_ID = i, ref_StepID = s\<rparr>"

definition demo_pipe_step :: "string \<Rightarrow> string \<Rightarrow> PipelineRef list \<Rightarrow> PipelineOutput list \<Rightarrow> PipelineStep" where
  "demo_pipe_step name program ins outs = zero_PipelineStep\<lparr>ps_ID := name,
     ps_Executor := zero_PipelineExecutor\<lparr>ex_Kind := ''batch'', ex_ProgramID := program\<rparr>,
     ps_Stdin := ins, ps_Outputs := outs, ps_Limits := demo_limits\<rparr>"

definition demo_pipeline_v1 :: PipelineV1 where
  "demo_pipeline_v1 = zero_PipelineV1\<lparr>pl_Version := 1,
     pl_Resources := [(''r'', zero_PipelineResource\<lparr>prs_DataB64 := ''QUJD''\<rparr>),
       (''e'', zero_PipelineResource\<lparr>prs_DataB64 := ''QUJD''\<rparr>)],
     pl_Programs := [demo_program ''p'', demo_program ''q''],
     pl_Steps :=
       [demo_pipe_step ''s'' ''p'' [demo_ref ''resource'' ''r'' []]
          [zero_PipelineOutput\<lparr>po_ID := ''o'', po_MaxBytes := 100,
             po_Source := zero_PipelineOutputSource\<lparr>os_Kind := ''participant_stdout''\<rparr>\<rparr>],
        demo_pipe_step ''t'' ''q'' [demo_ref ''artifact'' ''o'' []] []],
     pl_FinalJudge := zero_PipelineFinalJudge\<lparr>fj_Kind := ''diff'', fj_Input := demo_ref ''resource'' ''r'' [],
       fj_Expected := demo_ref ''resource'' ''e'' [], fj_Actual := demo_ref ''step_stdout'' [] ''t''\<rparr>\<rparr>"

definition demo_pipeline :: RunRequest where
  "demo_pipeline = zero_RunRequest\<lparr>rq_Pipeline := Some demo_pipeline_v1\<rparr>"

lemma mem_run_langs: "list_all (\<lambda>r. r \<in> set supportedRunLangs) [''binary'', ''entry'']"
  by code_simp

lemma no_empty_key: "map_of profiles [] = None"
proof (rule ccontr)
  assume "map_of profiles [] \<noteq> None"
  then obtain p where "([], p) \<in> set profiles" by (auto dest: map_of_SomeD)
  then have "well_formed_entry ([], p)" using profiles_well_formed by (auto simp: list_all_iff)
  then show False by (simp add: well_formed_entry_def)
qed

lemma NormalizeRunLang_empty: "NormalizeRunLang [] = []"
proof -
  have "switch (run_lang_cases []) [] = None" by (simp add: run_lang_cases_def kept_run_langs_def)
  moreover have "to_upper [] = []" "to_lower [] = []" by (simp_all add: to_upper_ascii to_lower_ascii)
  ultimately show ?thesis by (simp add: NormalizeRunLang_def Let_def no_empty_key Resolve_def)
qed

lemma demo_run_langs:
  "''binary'' \<in> set supportedRunLangs" "''entry'' \<in> set supportedRunLangs"
  "NormalizeRunLang ''binary'' = ''binary''" "NormalizeRunLang ''entry'' = ''entry''"
  using mem_run_langs supported_normal by auto

lemma demo_trim:
  "trim_space ''binary'' = ''binary''" "trim_space ''entry'' = ''entry''"
  "trim_space ''a/b'' = ''a/b''" "trim_space SourceName = SourceName" "trim_space ''batch'' = ''batch''"
  "trim_space ''artifact'' = ''artifact''" "trim_space ''resource'' = ''resource''"
  "trim_space ''step_stdout'' = ''step_stdout''" "trim_space ''diff'' = ''diff''"
  "trim_space ''participant_stdout'' = ''participant_stdout''"
  by (simp_all add: trim_space_visible SourceName_def)

lemma trim_one: "visible c \<Longrightarrow> trim_space [c] = [c]"
  by (simp add: trim_space_visible)

lemma demo_kinds:
  "to_lower [] = []" "to_lower ''batch'' = ''batch''" "to_lower ''artifact'' = ''artifact''"
  "to_lower ''resource'' = ''resource''" "to_lower ''step_stdout'' = ''step_stdout''"
  "to_lower ''diff'' = ''diff''" "to_lower ''participant_stdout'' = ''participant_stdout''"
  by (simp_all add: to_lower_ascii lower_rune_def char_of_eq_iff)

lemma demo_b64: "b64_decode ''QUJD'' = Some ''ABC''" "b64_stream_decode ''QUJD'' = Some ''ABC''"
  by code_simp+

lemma demo_paths:
  "ValidateRelativePath ''a/b'' = Inr ''a/b''" "ValidateRelativePath ''c'' = Inr ''c''"
  "ValidateRelativePath SourceName = Inr SourceName"
  by (simp_all add: ValidateRelativePath_def path_clean_def demo_trim trim_one SourceName_def
      demo_trim(4) [unfolded SourceName_def])

lemma demo_binaries_ok:
  "binaries_ok [demo_binary ''a/b'', demo_binary ''c'']" "binaries_ok [demo_binary SourceName]"
  "binaries_ok [demo_binary ''c'']"
  by (simp_all add: binaries_ok_def binary_path_def binary_size_def demo_binary_def demo_paths demo_b64
      bounds_defs)

lemma demo_limits_ok: "limits_in_range MaxOutputBytes demo_limits"
  "limits_in_range MaxCommunicationOutputBytes demo_limits"
  by (simp_all add: limits_in_range_def demo_limits_def zero_defs bounds_defs)

lemmas demo_eval = demo_run_langs NormalizeRunLang_empty demo_trim trim_one demo_kinds demo_b64 demo_paths demo_limits_ok
  demo_binaries_ok

lemma accepted_by_policies:
  "ValidateProfileName [] = None" "ValidateProblemID [] = None" "ValidateOptionalLibraryMode [] = None"
  by (simp_all add: ValidateProfileName_def ValidateProblemID_def ValidateOptionalLibraryMode_def)

lemma binary_budget_ok: "err_of (ValidateBinaryBudget req) = None \<longleftrightarrow> budget_ok 0 0 (all_binaries req)"
  by (simp add: err_of_None_iff ValidateBinaryBudget_Inr)

lemmas validate_eval = Validate_def ValidateTextEncoding_def ValidateEntry_def is_entry_def mode_check_def
  UsesSteps_def accepted_by_policies binary_budget_ok all_binaries_def budget_ok_def stream_size_def
  binaryGroups_def accepts zero_defs demo_eval

lemma demo_single_ok: "Validate demo_env demo_single = None"
  by (simp add: demo_single_def validate_eval) (simp add: demo_binary_def zero_defs demo_eval bounds_defs output_paths_ok_def demo_limits_def)

lemma demo_entry_ok: "Validate demo_env demo_entry = None"
  by (simp add: demo_entry_def validate_eval) (simp add: demo_binary_def zero_defs demo_eval bounds_defs output_paths_ok_def demo_limits_def MaxSubmissionBytes_def b64_encoded_len_def)

lemma demo_accepts:
  "ValidateRunLang l ''binary'' = None" "ValidateBinaries l [demo_binary ''c''] = None"
  "ValidateSidecarOutputs [] = None" "ValidateRequiredLimits l demo_limits = None"
  "validateRequiredLimits l demo_limits MaxCommunicationOutputBytes = None"
  by (simp_all add: accepts demo_eval output_paths_ok_def) (simp_all add: demo_limits_def)

lemma demo_limits_wall: "lim_WallTimeMs demo_limits = 0"
  by (simp add: demo_limits_def zero_defs)

lemma demo_steps_ok: "ValidateStepPipeline demo_steps = None"
  by (simp add: demo_steps_def ValidateStepPipeline_def program_step_def step_step_def zero_defs
    demo_program_def ValidateStepStdinParts_def first_handoff_def demo_accepts demo_eval LimitsAreZero_def bounds_defs
    each_error.simps(2))

lemma demo_communication_ok: "ValidateCommunication demo_env demo_communication = None"
  by (simp add: demo_communication_def ValidateCommunication_def demo_communication_spec_def comm_header_def
    comm_reference_def comm_fields_def comm_program_def comm_participant_ids_def zero_defs
    demo_program_def demo_accepts demo_eval each_error.simps(2) MinCommunicationParticipants_def MaxCommunicationParticipants_def
    demo_limits_wall)

lemma demo_pipeline_ok: "ValidatePipelineV1 demo_env demo_pipeline = None"
  by (simp add: demo_pipeline_def demo_pipeline_v1_def ValidatePipelineV1_def pipe_header_def pipe_body_def
    resource_step_def pipe_program_step_def pipe_step_def demo_pipe_step_def pipe_executor_def batch_executor_def
    canonicalPipelineRefID_def kind_of_def stdin_ref_def demo_ref_def output_step_def output_source_check_def
    final_judge_check_def judge_resource_def zero_defs
    demo_program_def demo_accepts demo_eval bounds_defs LimitsAreZero_def Let_def
    each_error.simps(2))

lemma demo_communication_accepted: "Validate demo_env demo_communication = None"
proof -
  have "ValidateCommunication demo_env demo_communication = None" by (rule demo_communication_ok)
  then show ?thesis
    by (simp add: validate_eval demo_communication_def demo_communication_spec_def)
       (simp add: demo_program_def demo_binary_def zero_defs demo_eval bounds_defs stream_size_def)
qed

section \<open>Bounds and kinds\<close>

text \<open>The documented ranges, in numbers.\<close>

definition text_ok :: "string \<Rightarrow> bool" where
  "text_ok s \<longleftrightarrow> valid_utf8 s \<and> length s \<le> 64 * 1048576"

definition optional_limits :: "int \<Rightarrow> Limits \<Rightarrow> bool" where
  "optional_limits out l \<longleftrightarrow>
     0 \<le> lim_TimeMs l \<and> lim_TimeMs l \<le> 600000 \<and> 0 \<le> lim_WallTimeMs l \<and> lim_WallTimeMs l \<le> 600000 \<and>
     0 \<le> lim_MemoryMB l \<and> lim_MemoryMB l \<le> 4096 \<and> 0 \<le> lim_OutputBytes l \<and> lim_OutputBytes l \<le> out \<and>
     0 \<le> lim_WorkspaceBytes l \<and> lim_WorkspaceBytes l \<le> 1073741824"

definition required_limits :: "int \<Rightarrow> Limits \<Rightarrow> bool" where
  "required_limits out l \<longleftrightarrow> optional_limits out l \<and> 0 < lim_TimeMs l \<and> 0 < lim_MemoryMB l"

lemma optional_limits_iff: "limits_in_range out l \<longleftrightarrow> optional_limits out l"
  by (auto simp: limits_in_range_def optional_limits_def bounds_defs)

definition capture_ok :: "RunRequest \<Rightarrow> bool" where
  "capture_ok req \<longleftrightarrow>
     (\<forall>l v. rq_CaptureLimits req = Some l \<longrightarrow> cl_StdoutBytes l = Some v \<or> cl_StderrBytes l = Some v \<longrightarrow>
        0 \<le> v \<and> v \<le> 8388608)"

text \<open>The text of the parts of a step, which handoff parts do not have.\<close>

lemma parts_text:
  assumes "loop_err (part_step step first hid) i parts (n, r) = Inr (n', r')"
  shows "n' = n + (\<Sum>p\<leftarrow>parts. length (sp_Data p)) \<and> (n \<le> MaxTextFieldBytes \<longrightarrow> n' \<le> MaxTextFieldBytes)"
  using assms
proof (induction parts arbitrary: i n r)
  case (Cons p parts)
  then obtain n1 r1 where 1: "part_step step first hid i p (n, r) = Inr (n1, r1)"
    and 2: "loop_err (part_step step first hid) (Suc i) parts (n1, r1) = Inr (n', r')"
    by (auto split: sum.splits)
  from 1 have "n1 = n + length (sp_Data p)" "n \<le> MaxTextFieldBytes \<Longrightarrow> n1 \<le> MaxTextFieldBytes"
    by (auto simp: part_step_def Let_def split: if_splits)
  with Cons.IH [OF 2] show ?case by (cases "n \<le> MaxTextFieldBytes") auto
qed simp

definition step_text_ok :: "RunStep \<Rightarrow> bool" where
  "step_text_ok s \<longleftrightarrow> length (st_Stdin s) \<le> 64 * 1048576 \<and> length (st_StdinParts s) \<le> 32 \<and>
     (\<Sum>p\<leftarrow>st_StdinParts s. length (sp_Data p)) \<le> 64 * 1048576 \<and> required_limits (64 * 1048576) (st_Limits s)"

lemma step_step_text:
  assumes "step_step programs i s vars = Inr vars'"
  shows "step_text_ok s"
proof -
  from assms obtain hid r where t: "length (st_Stdin s) \<le> MaxTextFieldBytes"
    and p: "ValidateStepStdinParts s (i = 0) hid = Inr r"
    and l: "ValidateRequiredLimits (''step '' @ st_ID s @ '' limits'') (st_Limits s) = None"
    by (cases vars) (auto simp: step_step_def Let_def and_then_Inr_iff)
  have "length (st_StdinParts s) \<le> MaxStdinParts \<and> (\<Sum>p\<leftarrow>st_StdinParts s. length (sp_Data p)) \<le> MaxTextFieldBytes"
    using p parts_text [of s "i = 0" hid 0 "st_StdinParts s" 0 False]
    by (auto simp: ValidateStepStdinParts_def and_then_Inr_iff split: if_splits)
  then show ?thesis using t l
    by (simp add: step_text_ok_def required_limits_def accepts optional_limits_iff bounds_defs)
qed

lemma steps_text:
  assumes "loop_err (step_step programs) i ss vars = Inr vars'" and "s \<in> set ss"
  shows "step_text_ok s"
  using assms
proof (induction ss arbitrary: i vars)
  case (Cons s' ss)
  then obtain vars1 where "step_step programs i s' vars = Inr vars1"
    "loop_err (step_step programs) (Suc i) ss vars1 = Inr vars'" by (auto split: sum.splits)
  then show ?case using Cons.IH Cons.prems(2) step_step_text by (metis set_ConsD)
qed simp

lemma ValidateStepPipeline_bounds:
  assumes "ValidateStepPipeline req = None"
  shows "\<forall>s \<in> set (rq_Steps req). step_text_ok s" and "length (rq_FileOutputs req) \<le> 1"
    and "length (rq_SidecarOutputs req) \<le> 64" and "output_paths_ok (rq_SidecarOutputs req)"
proof -
  from assms obtain programs vars where "loop_err (step_step programs) 0 (rq_Steps req) ([], [], []) = Inr vars"
    and h: "length (rq_FileOutputs req) \<le> 1" "ValidateSidecarOutputs (rq_SidecarOutputs req) = None"
    by (auto simp: ValidateStepPipeline_def err_of_None_iff and_then_Inr_iff)
  then show "\<forall>s \<in> set (rq_Steps req). step_text_ok s" using steps_text by blast
  show "length (rq_FileOutputs req) \<le> 1" "length (rq_SidecarOutputs req) \<le> 64" "output_paths_ok (rq_SidecarOutputs req)"
    using h by (simp_all add: accepts bounds_defs)
qed

lemma steps_encoding:
  assumes "ValidateTextEncoding req = None" and "s \<in> set (rq_Steps req)"
  shows "valid_utf8 (st_Stdin s) \<and> (\<forall>p \<in> set (st_StdinParts s). valid_utf8 (sp_Data p))"
proof -
  from assms(1) have e: "each_error (\<lambda>i step. first_error
        [reject_if (\<not> valid_utf8 (st_Stdin step)) (TextStepStdin i),
         each_error (\<lambda>j part. reject_if (\<not> valid_utf8 (sp_Data part)) (TextStepPart i j)) 0
           (st_StdinParts step)]) 0 (rq_Steps req) = None"
    by (simp add: ValidateTextEncoding_def)
  obtain i where i: "valid_utf8 (st_Stdin s)"
    "each_error (\<lambda>j part. reject_if (\<not> valid_utf8 (sp_Data part)) (TextStepPart i j)) 0 (st_StdinParts s) = None"
    using each_error_None_mem [OF e assms(2)] by auto
  then show ?thesis using each_error_None_mem [OF i(2)] by fastforce
qed

lemma accepted_modes:
  assumes "Validate E req = None"
  shows "rq_Communication req \<noteq> None \<Longrightarrow> ValidateCommunication E req = None"
    and "rq_Communication req = None \<Longrightarrow> rq_Pipeline req \<noteq> None \<Longrightarrow> ValidatePipelineV1 E req = None"
    and "UsesSteps req \<Longrightarrow> ValidateStepPipeline req = None"
  using Validate_parts(3) [OF assms] by (auto simp: mode_check_def UsesSteps_def)

lemma pipeline_limits:
  assumes "ValidatePipelineV1 E req = None" and "rq_Pipeline req = Some pl" and "s \<in> set (pl_Steps pl)"
  shows "required_limits (64 * 1048576) (ps_Limits s)"
    and "ex_InteractorLimits (ps_Executor s) = Some l \<Longrightarrow> required_limits (64 * 1048576) l"
proof -
  obtain k where k: "k < length (pl_Steps pl)" "s = pl_Steps pl ! k" using assms(3) by (auto simp: in_set_conv_nth)
  have "pipeline_ok E pl" using ValidatePipelineV1_accepts [OF assms(1)] assms(2) by auto
  then obtain resources programs before where "pipe_step_ok resources programs before s"
    using k by (auto simp: pipeline_ok_def flow_ok_def)
  then show "required_limits (64 * 1048576) (ps_Limits s)"
    and "ex_InteractorLimits (ps_Executor s) = Some l \<Longrightarrow> required_limits (64 * 1048576) l"
    by (auto simp: pipe_step_ok_def executor_ok_def required_limits_def optional_limits_iff bounds_defs)
qed

lemma pipeline_judge_limits:
  assumes "ValidatePipelineV1 E req = None" and "rq_Pipeline req = Some pl" and "fj_SPJ (pl_FinalJudge pl) = Some spj"
    and "spj_Limits spj = Some l"
  shows "optional_limits (64 * 1048576) l"
proof -
  have "pipeline_ok E pl" using ValidatePipelineV1_accepts [OF assms(1)] assms(2) by auto
  then have "spj_ok E spj" using assms(3) by (auto simp: pipeline_ok_def judge_ok_def split: if_splits)
  then show ?thesis using assms(4) by (simp add: spj_ok_def optional_limits_iff bounds_defs)
qed

text \<open>Every binary of a request, by the fields that carry one.\<close>

definition carried_binaries :: "RunRequest \<Rightarrow> Binary list" where
  "carried_binaries req =
     rq_Binaries req @ concat (map prog_Binaries (rq_Programs req)) @
     (case rq_Pipeline req of
        None \<Rightarrow> []
      | Some pl \<Rightarrow> concat (map prog_Binaries (pl_Programs pl)) @
          (case fj_SPJ (pl_FinalJudge pl) of None \<Rightarrow> [] | Some s \<Rightarrow> (case spj_Binary s of None \<Rightarrow> [] | Some b \<Rightarrow> [b]))) @
     (case rq_SPJ req of None \<Rightarrow> [] | Some s \<Rightarrow> (case spj_Binary s of None \<Rightarrow> [] | Some b \<Rightarrow> [b])) @
     (case rq_Interactor req of None \<Rightarrow> [] | Some ia \<Rightarrow> ia_Binaries ia)"

lemma carried_programs: "concat (map (\<lambda>x. prog_Binaries (snd x)) (enumerate n ps)) = concat (map prog_Binaries ps)"
  by (induction ps arbitrary: n) simp_all

lemma all_binaries_carried: "all_binaries req = carried_binaries req"
  by (simp add: all_binaries_def binaryGroups_def carried_binaries_def comp_def case_prod_beta carried_programs
      split: option.split)

text \<open>What a request of one kind may not carry.\<close>

definition only_communication :: "RunRequest \<Rightarrow> bool" where
  "only_communication req \<longleftrightarrow>
     rq_Pipeline req = None \<and> rq_Steps req = [] \<and> rq_Lang req = [] \<and> rq_EntryMode req = [] \<and> rq_EntryPoint req = [] \<and>
     rq_Binaries req = [] \<and> rq_Stdin req = [] \<and> rq_StdinURL req = [] \<and> rq_ExpectedStdout req = [] \<and>
     rq_ExpectedStdoutURL req = [] \<and> rq_Interactor req = None \<and> rq_SPJ req = None \<and> rq_FileOutputs req = [] \<and>
     rq_SidecarOutputs req = [] \<and> \<not> rq_EnableNetwork req \<and> \<not> rq_IgnoreTLE req"

definition only_pipeline :: "RunRequest \<Rightarrow> bool" where
  "only_pipeline req \<longleftrightarrow>
     rq_Communication req = None \<and> rq_Programs req = [] \<and> rq_Steps req = [] \<and> rq_Lang req = [] \<and> rq_EntryMode req = [] \<and>
     rq_EntryPoint req = [] \<and> rq_Binaries req = [] \<and> rq_Stdin req = [] \<and> trim_space (rq_StdinURL req) = [] \<and>
     rq_ExpectedStdout req = [] \<and> trim_space (rq_ExpectedStdoutURL req) = [] \<and> LimitsAreZero (rq_Limits req) \<and>
     rq_Interactor req = None \<and> rq_SPJ req = None \<and> rq_FileOutputs req = [] \<and> rq_SidecarOutputs req = [] \<and>
     \<not> rq_EnableNetwork req \<and> \<not> rq_IgnoreTLE req"

definition only_steps :: "RunRequest \<Rightarrow> bool" where
  "only_steps req \<longleftrightarrow>
     length (rq_Steps req) = 2 \<and> rq_Programs req \<noteq> [] \<and> length (rq_Programs req) \<le> 8 \<and> rq_Lang req = [] \<and> rq_EntryMode req = [] \<and>
     rq_EntryPoint req = [] \<and> rq_Binaries req = [] \<and> rq_Stdin req = [] \<and> rq_StdinURL req = [] \<and>
     LimitsAreZero (rq_Limits req) \<and> rq_Interactor req = None \<and> \<not> rq_EnableNetwork req"

definition only_program :: "RunRequest \<Rightarrow> bool" where
  "only_program req \<longleftrightarrow>
     rq_Programs req = [] \<and> rq_Steps req = [] \<and> trim_space (rq_Lang req) \<noteq> [] \<and>
     (rq_Interactor req \<noteq> None \<longrightarrow> rq_SPJ req = None \<and> rq_FileOutputs req = [] \<and> \<not> rq_IgnoreTLE req) \<and>
     (if is_entry (rq_Lang req)
      then rq_EntryMode req \<in> {''stdio'', ''state''} \<and> rq_Interactor req = None \<and> rq_SPJ req = None \<and>
        rq_FileOutputs req = [] \<and> rq_SidecarOutputs req = [] \<and> \<not> rq_EnableNetwork req \<and> \<not> rq_IgnoreTLE req
      else rq_EntryMode req = [])"

lemma not_entry_mode: "Validate E req = None \<Longrightarrow> \<not> is_entry (rq_Lang req) \<Longrightarrow> rq_EntryMode req = []"
  using Validate_parts(2) [of E req] by (simp add: ValidateEntry_def)

lemma empty_not_entry: "\<not> is_entry []"
  by (simp add: is_entry_def NormalizeRunLang_empty)

lemma accepted_communication_only:
  assumes "Validate E req = None" and "rq_Communication req \<noteq> None"
  shows "only_communication req"
proof -
  obtain spec referenced where s: "rq_Communication req = Some spec" "comm_header req spec = None"
    "comm_fields req spec referenced = None"
    using accepted_modes(1) [OF assms] assms(2)
    by (auto simp: ValidateCommunication_def Let_def err_of_None_iff and_then_Inr_iff)
  then have "rq_Lang req = []" by (simp add: comm_fields_def)
  then have "rq_EntryMode req = []" using not_entry_mode [OF assms(1)] empty_not_entry by simp
  then show ?thesis using s by (simp add: only_communication_def comm_header_def comm_fields_def Let_def)
qed

lemma accepted_pipeline_only:
  assumes "Validate E req = None" and "rq_Pipeline req \<noteq> None"
  shows "only_pipeline req"
proof -
  have "rq_Communication req = None" using Validate_kinds(2) [OF assms] by blast
  then obtain pl where h: "pipe_header req pl = None"
    using ValidatePipelineV1_accepts [OF accepted_modes(2) [OF assms(1) _ assms(2)]] by blast
  then have "rq_Lang req = []" by (simp add: pipe_header_def)
  then have "rq_EntryMode req = []" using not_entry_mode [OF assms(1)] empty_not_entry by simp
  then show ?thesis using h by (simp add: only_pipeline_def pipe_header_def)
qed

lemma accepted_steps_only:
  assumes "Validate E req = None" and "UsesSteps req"
  shows "only_steps req"
proof -
  have h: "ValidateStepPipeline req = None" using accepted_modes(3) [OF assms] .
  then have "rq_Lang req = []" by (simp add: ValidateStepPipeline_def err_of_None_iff)
  then have "rq_EntryMode req = []" using not_entry_mode [OF assms(1)] empty_not_entry by simp
  then show ?thesis using h
    by (auto simp: only_steps_def ValidateStepPipeline_def err_of_None_iff MaxSteps_def MaxPrograms_def)
qed

lemma accepted_program_only:
  assumes "Validate E req = None" and "rq_Communication req = None" "rq_Pipeline req = None" "\<not> UsesSteps req"
  shows "only_program req"
proof -
  have l: "trim_space (rq_Lang req) \<noteq> []" using Validate_parts(3) [OF assms(1)] assms(2-4) by (simp add: mode_check_def accepts)
  have i: "rq_SPJ req = None \<and> rq_FileOutputs req = [] \<and> \<not> rq_IgnoreTLE req" if "rq_Interactor req \<noteq> None"
    using Validate_parts(5) [OF assms(1)] ValidateInteractor_accepts that by blast
  have e: "rq_EntryMode req \<in> {''stdio'', ''state''} \<and> rq_Interactor req = None \<and> rq_SPJ req = None \<and>
      rq_FileOutputs req = [] \<and> rq_SidecarOutputs req = [] \<and> \<not> rq_EnableNetwork req \<and> \<not> rq_IgnoreTLE req" if "is_entry (rq_Lang req)"
    using ValidateEntry_isolated(2,3) [OF Validate_parts(2) [OF assms(1)] that] by blast
  show ?thesis
    using assms(2-4) l i e not_entry_mode [OF assms(1)] by (simp add: only_program_def UsesSteps_def)
qed

lemma accepted_outputs:
  assumes "Validate E req = None"
  shows "length (rq_FileOutputs req) \<le> 1 \<and> length (rq_SidecarOutputs req) \<le> 64 \<and> output_paths_ok (rq_SidecarOutputs req)"
proof (cases "rq_Communication req = None \<and> rq_Pipeline req = None")
  case True
  then show ?thesis
    using Validate_parts(3) [OF assms] ValidateStepPipeline_bounds(2-4) [of req]
    by (cases "UsesSteps req") (simp_all add: mode_check_def accepts bounds_defs)
next
  case False
  then have "rq_FileOutputs req = [] \<and> rq_SidecarOutputs req = []"
    using accepted_communication_only [OF assms] accepted_pipeline_only [OF assms]
    by (auto simp: only_communication_def only_pipeline_def)
  then show ?thesis by (simp add: output_paths_ok_def)
qed

section \<open>Properties\<close>

text \<open>
  C8. An accepted request stays within its bounds. Over all of its programs, pipeline programs,
  judges and interactors together it carries at most 512 files, all of them valid Base64, of at most
  48 MiB decoded. Its input, its expected output and the data of a communication are each valid UTF-8 of at most 64 MiB, and so is
  the text of each step and of its parts together. The limits of a request without composite kind, of every step, of the interactors
  of a pipeline and of a communication are in their ranges with a positive time and memory, those of a judge or an interactor in
  their ranges, and so are the limits of what is captured. A request without composite kind has a supported language, distinct
  contained file names, at most one file output and at most 64 sidecars.
\<close>

theorem accepted_request_bounds:
  assumes "Validate E req = None"
  shows "length (carried_binaries req) \<le> 512 \<and> (\<Sum>b\<leftarrow>carried_binaries req. stream_size b) \<le> 48 * 1048576 \<and>
    (\<forall>b \<in> set (carried_binaries req). b64_stream_decode (bin_DataB64 b) \<noteq> None) \<and>
    text_ok (rq_Stdin req) \<and> text_ok (rq_ExpectedStdout req) \<and>
    (rq_Stdin req = [] \<or> trim_space (rq_StdinURL req) = []) \<and> capture_ok req \<and>
    length (rq_FileOutputs req) \<le> 1 \<and> length (rq_SidecarOutputs req) \<le> 64 \<and> output_paths_ok (rq_SidecarOutputs req) \<and>
    (\<forall>spec. rq_Communication req = Some spec \<longrightarrow> text_ok (cm_Input spec) \<and> text_ok (cm_Answer spec) \<and>
       required_limits (128 * 1048576) (rq_Limits req) \<and> lim_WallTimeMs (rq_Limits req) = 0) \<and>
    (\<forall>pl. rq_Pipeline req = Some pl \<longrightarrow> (\<forall>s \<in> set (pl_Steps pl). required_limits (64 * 1048576) (ps_Limits s) \<and>
         (\<forall>l. ex_InteractorLimits (ps_Executor s) = Some l \<longrightarrow> required_limits (64 * 1048576) l)) \<and>
       (\<forall>spj l. fj_SPJ (pl_FinalJudge pl) = Some spj \<longrightarrow> spj_Limits spj = Some l \<longrightarrow> optional_limits (64 * 1048576) l)) \<and>
    (\<forall>s \<in> set (rq_Steps req). step_text_ok s \<and> valid_utf8 (st_Stdin s) \<and>
       (\<forall>p \<in> set (st_StdinParts s). valid_utf8 (sp_Data p))) \<and>
    (\<forall>spj l. rq_SPJ req = Some spj \<longrightarrow> spj_Limits spj = Some l \<longrightarrow> optional_limits (64 * 1048576) l) \<and>
    (\<forall>ia l. rq_Interactor req = Some ia \<longrightarrow> ia_Limits ia = Some l \<longrightarrow> optional_limits (64 * 1048576) l) \<and>
    (rq_Communication req = None \<and> rq_Pipeline req = None \<and> \<not> UsesSteps req \<longrightarrow>
       NormalizeRunLang (rq_Lang req) \<in> set supportedRunLangs \<and> binaries_ok (rq_Binaries req) \<and>
       required_limits (64 * 1048576) (rq_Limits req))"
proof (intro conjI allI ballI impI)
  note p = Validate_parts [OF assms, unfolded all_binaries_carried] and modes = accepted_modes [OF assms]
  note kinds = Validate_kinds [OF assms]
  show "length (carried_binaries req) \<le> 512" "(\<Sum>b\<leftarrow>carried_binaries req. stream_size b) \<le> 48 * 1048576"
    using p(4) by (simp_all add: budget_ok_def bounds_defs)
  show "b64_stream_decode (bin_DataB64 b) \<noteq> None" if "b \<in> set (carried_binaries req)" for b
    using p(4) that by (simp add: budget_ok_def)
  show "text_ok (rq_Stdin req)" "text_ok (rq_ExpectedStdout req)" "rq_Stdin req = [] \<or> trim_space (rq_StdinURL req) = []"
    "capture_ok req"
    using assms p(1) by (auto simp: Validate_def ValidateTextEncoding_def text_ok_def capture_ok_def accepts bounds_defs)
  show "length (rq_FileOutputs req) \<le> 1" "length (rq_SidecarOutputs req) \<le> 64" "output_paths_ok (rq_SidecarOutputs req)"
    using accepted_outputs [OF assms] by blast+
  show "text_ok (cm_Input spec)" "text_ok (cm_Answer spec)" if "rq_Communication req = Some spec" for spec
    using assms p(1) that by (auto simp: Validate_def ValidateTextEncoding_def text_ok_def bounds_defs)
  show "required_limits (128 * 1048576) (rq_Limits req)" "lim_WallTimeMs (rq_Limits req) = 0"
    if "rq_Communication req = Some spec" for spec
    using modes(1) that
    by (auto simp: ValidateCommunication_def comm_fields_def Let_def err_of_None_iff and_then_Inr_iff accepts
        required_limits_def optional_limits_iff bounds_defs)
  have pipe: "ValidatePipelineV1 E req = None" if "rq_Pipeline req = Some pl" for pl
    using modes(2) kinds(2) that by simp
  show "required_limits (64 * 1048576) (ps_Limits s)" if "rq_Pipeline req = Some pl" "s \<in> set (pl_Steps pl)" for pl s
    by (rule pipeline_limits(1) [OF pipe [OF that(1)] that])
  show "required_limits (64 * 1048576) l"
    if "rq_Pipeline req = Some pl" "s \<in> set (pl_Steps pl)" "ex_InteractorLimits (ps_Executor s) = Some l" for pl s l
    by (rule pipeline_limits(2) [OF pipe [OF that(1)] that])
  show "optional_limits (64 * 1048576) l"
    if "rq_Pipeline req = Some pl" "fj_SPJ (pl_FinalJudge pl) = Some spj" "spj_Limits spj = Some l" for pl spj l
    by (rule pipeline_judge_limits [OF pipe [OF that(1)] that])
  show "step_text_ok s" if "s \<in> set (rq_Steps req)" for s
  proof -
    have "rq_Steps req \<noteq> []" using that by auto
    moreover have "rq_Communication req = None" "rq_Pipeline req = None" using calculation kinds(1,2) by blast+
    ultimately have "UsesSteps req" by (simp add: UsesSteps_def)
    then show ?thesis using ValidateStepPipeline_bounds(1) modes(3) that by blast
  qed
  show "valid_utf8 (st_Stdin s)" if "s \<in> set (rq_Steps req)" for s using steps_encoding [OF p(1) that] by blast
  show "valid_utf8 (sp_Data q)" if "s \<in> set (rq_Steps req)" "q \<in> set (st_StdinParts s)" for s q
    using steps_encoding [OF p(1) that(1)] that(2) by blast
  show "optional_limits (64 * 1048576) l" if "rq_SPJ req = Some spj" "spj_Limits spj = Some l" for spj l
    using p(6) [OF that(1)] that(2) by (simp add: spj_ok_def optional_limits_iff bounds_defs)
  show "optional_limits (64 * 1048576) l" if "rq_Interactor req = Some ia" "ia_Limits ia = Some l" for ia l
    using p(5) [OF that(1)] that(2) by (simp add: ValidateInteractor_def accepts optional_limits_iff bounds_defs)
  show "NormalizeRunLang (rq_Lang req) \<in> set supportedRunLangs" "binaries_ok (rq_Binaries req)"
    "required_limits (64 * 1048576) (rq_Limits req)"
    if "rq_Communication req = None \<and> rq_Pipeline req = None \<and> \<not> UsesSteps req"
    using p(3) that by (auto simp: mode_check_def accepts required_limits_def optional_limits_iff bounds_defs)
qed

theorem accepted_request_bounds_witness: "(\<Sum>b\<leftarrow>carried_binaries demo_single. stream_size b) \<le> 48 * 1048576"
  using accepted_request_bounds [OF demo_single_ok] by simp

text \<open>
  C9. An accepted request is of exactly one kind: a communication, a pipeline, two steps, or a single program. Each carries none of
  the fields of the other kinds: no program, language, input, expected output, output file, judge, interactor, network access or
  limits that its executor would ignore. A single program has no programs or steps, an interactor excludes a judge and
  output files, and an Entry submission carries none of those.
\<close>

theorem accepted_request_kind:
  assumes "Validate E req = None"
  shows "if rq_Communication req \<noteq> None then only_communication req
    else if rq_Pipeline req \<noteq> None then only_pipeline req
    else if UsesSteps req then only_steps req
    else only_program req"
  using accepted_communication_only [OF assms] accepted_pipeline_only [OF assms] accepted_steps_only [OF assms]
    accepted_program_only [OF assms] by simp

theorem accepted_request_kind_witness:
  "Validate demo_env demo_communication = None \<and> only_communication demo_communication \<and> only_program demo_entry"
proof -
  have "rq_Communication demo_communication \<noteq> None" "rq_Communication demo_entry = None" "rq_Pipeline demo_entry = None"
    "\<not> UsesSteps demo_entry"
    by (simp_all add: demo_communication_def demo_entry_def zero_defs UsesSteps_def)
  then show ?thesis
    using accepted_request_kind [OF demo_communication_accepted] accepted_request_kind [OF demo_entry_ok]
      demo_communication_accepted by simp
qed

text \<open>
  C6. The data flow of an accepted pipeline. Its ids are distinct, an executor names declared
  programs and every program is used, an artifact has one writer and is read only by a later step,
  the artifacts fit in 128 MiB and the resources in 128 MiB, and the final judge compares the
  output of the last step with named resources.
\<close>

theorem accepted_pipeline_flow:
  assumes "ValidatePipelineV1 E req = None"
  shows "\<exists>pl. rq_Pipeline req = Some pl \<and> pl_Version pl = 1 \<and>
    (\<forall>e \<in> set (pl_Resources pl). resource_ok e) \<and>
    (\<Sum>e\<leftarrow>pl_Resources pl. resource_size e) \<le> 128 * 1048576 \<and>
    distinct (map prog_ID (pl_Programs pl)) \<and>
    prog_ID ` set (pl_Programs pl) = (\<Union>s \<in> set (pl_Steps pl). set (executor_programs (ps_Executor s))) \<and>
    distinct (map ps_ID (pl_Steps pl)) \<and> distinct (concat (map step_outputs (pl_Steps pl))) \<and>
    (\<Sum>s\<leftarrow>pl_Steps pl. \<Sum>output\<leftarrow>ps_Outputs s. po_MaxBytes output) \<le> 128 * 1048576 \<and>
    (\<forall>k < length (pl_Steps pl). \<forall>r \<in> set (ps_Stdin (pl_Steps pl ! k)).
       ref_ok (fst ` set (pl_Resources pl)) (set (concat (map step_outputs (take k (pl_Steps pl))))) r) \<and>
    pl_Steps pl \<noteq> [] \<and> length (pl_Steps pl) \<le> 2 \<and>
    ref_StepID (fj_Actual (pl_FinalJudge pl)) = ps_ID (last (pl_Steps pl))"
proof -
  obtain pl where pl: "rq_Pipeline req = Some pl" "pipe_header req pl = None" "pipeline_ok E pl"
    using ValidatePipelineV1_accepts [OF assms] by blast
  then show ?thesis
    by (intro exI [of _ pl])
      (auto simp: pipeline_ok_def pipe_header_def flow_ok_def pipe_step_ok_def judge_ok_def
        artifact_bytes_def bounds_defs)
qed

theorem accepted_pipeline_flow_witness: "distinct (map ps_ID (pl_Steps demo_pipeline_v1))"
  using accepted_pipeline_flow [OF demo_pipeline_ok] by (auto simp: demo_pipeline_def)

text \<open>
  Whether a pipeline request is accepted does not depend on the order in which Go iterates
  over its map of resources.
\<close>

theorem pipeline_resource_order:
  assumes "rq_Pipeline req = Some pl" and "mset es = mset (pl_Resources pl)"
  shows "ValidatePipelineV1 E (req\<lparr>rq_Pipeline := Some (pl\<lparr>pl_Resources := es\<rparr>)\<rparr>) = None \<longleftrightarrow>
    ValidatePipelineV1 E req = None"
  using assms by (rule ValidatePipelineV1_resources)

theorem pipeline_resource_order_witness:
  "ValidatePipelineV1 demo_env (demo_pipeline\<lparr>rq_Pipeline :=
     Some (demo_pipeline_v1\<lparr>pl_Resources := rev (pl_Resources demo_pipeline_v1)\<rparr>)\<rparr>) = None"
  using pipeline_resource_order [of demo_pipeline demo_pipeline_v1 "rev (pl_Resources demo_pipeline_v1)"]
    demo_pipeline_ok by (simp add: demo_pipeline_def)

text \<open>
  The data flow of an accepted two-step request: the first step declares exactly the handoff
  that the second one consumes, the steps run declared programs and have different ids, and every
  program is run by one of them.
\<close>

theorem accepted_two_steps:
  assumes "ValidateStepPipeline req = None"
  shows "\<exists>s1 s2 h. rq_Steps req = [s1, s2] \<and>
    producer_ok (map (trim_space \<circ> prog_ID) (rq_Programs req)) s1 \<and>
    st_Handoff s1 = Some h \<and> trim_space (ho_ID h) \<noteq> [] \<and>
    consumer_ok (map (trim_space \<circ> prog_ID) (rq_Programs req)) (trim_space (ho_ID h)) s2 \<and>
    trim_space (st_ID s1) \<noteq> trim_space (st_ID s2) \<and>
    (\<forall>p \<in> set (rq_Programs req).
       trim_space (prog_ID p) \<in> {trim_space (st_ProgramID s1), trim_space (st_ProgramID s2)})"
  using assms by (rule ValidateStepPipeline_flow)

theorem accepted_two_steps_witness: "\<exists>s1 s2. rq_Steps demo_steps = [s1, s2] \<and> trim_space (st_ID s1) \<noteq> trim_space (st_ID s2)"
  using accepted_two_steps [OF demo_steps_ok] by blast

text \<open>
  In an accepted communication request the programs are exactly the manager and the participants,
  all of them different native programs without network access; in version 2 each file's content
  has the SHA-256 the request declares, whatever function computes it.
\<close>

theorem accepted_communication:
  assumes "ValidateCommunication E req = None" and "rq_Communication req = Some spec"
  shows "prog_ID ` set (rq_Programs req) =
      insert (cm_ManagerProgramID spec) (set (comm_participant_ids spec)) \<and>
    distinct (map prog_ID (rq_Programs req)) \<and> distinct (comm_participant_ids spec) \<and>
    cm_ManagerProgramID spec \<notin> set (comm_participant_ids spec) \<and>
    2 \<le> cm_ParticipantCount spec \<and> cm_ParticipantCount spec \<le> 64 \<and>
    limits_in_range MaxCommunicationOutputBytes (rq_Limits req) \<and>
    (\<forall>p \<in> set (rq_Programs req). \<not> prog_EnableNetwork p \<and> NormalizeRunLang (prog_Lang p) = ''binary'' \<and>
       binaries_ok (prog_Binaries p) \<and>
       (cm_Version spec = 2 \<longrightarrow> (\<forall>b \<in> set (prog_Binaries p).
          \<exists>data. b64_decode (bin_DataB64 b) = Some data \<and> env_sha256_hex E data = bin_SHA256 b)))"
  using ValidateCommunication_accepts [OF assms] by (auto simp: comm_program_ok_def)

theorem accepted_communication_witness: "cm_ManagerProgramID demo_communication_spec \<notin> set (comm_participant_ids demo_communication_spec)"
  using accepted_communication [OF demo_communication_ok] by (simp add: demo_communication_def)

text \<open>
  C7. The files of an accepted list of binaries are written under the workspace: each name is
  accepted with a normal form that has no parent segment, joining it to any clean absolute directory gives
  the directory followed by that normal form, and two files of the list are never the same path.
\<close>

theorem binaries_contained:
  assumes "ValidateBinaries label bs = None" and "clean_root r"
  shows "(\<forall>b \<in> set bs. \<exists>c. ValidateRelativePath (bin_Name b) = Inr c \<and>
       ''..'' \<notin> set (split_on (CHR ''/'') c) \<and> path_join r c = (if r = ''/'' then r else r @ ''/'') @ c) \<and>
    (\<forall>i < length bs. \<forall>j < length bs. i \<noteq> j \<longrightarrow>
       (\<forall>c d. ValidateRelativePath (bin_Name (bs ! i)) = Inr c \<and>
          ValidateRelativePath (bin_Name (bs ! j)) = Inr d \<longrightarrow> path_join r c \<noteq> path_join r d))"
proof -
  have ok: "binaries_ok bs" using assms(1) by (simp add: ValidateBinaries_accepts)
  have "path_join r c \<noteq> path_join r d"
    if ij: "i < length bs" "j < length bs" "i \<noteq> j"
      and c: "ValidateRelativePath (bin_Name (bs ! i)) = Inr c"
      and d: "ValidateRelativePath (bin_Name (bs ! j)) = Inr d" for i j c d
  proof (rule rel.accepted_distinct [OF assms(2) c d])
    have "map binary_path bs ! i \<noteq> map binary_path bs ! j"
      using ok ij by (subst nth_eq_iff_index_eq) (auto simp: binaries_ok_def)
    then show "c \<noteq> d" using c d ij by (auto simp: binary_path_def)
  qed
  moreover have "\<exists>c. ValidateRelativePath (bin_Name b) = Inr c \<and>
       ''..'' \<notin> set (split_on slash c) \<and> path_join r c = (if r = ''/'' then r else r @ ''/'') @ c"
    if "b \<in> set bs" for b
    using binaries_ok_path [OF ok that] rel.accepted_no_dotdot rel.accepted_contained [OF assms(2)] by metis
  ultimately show ?thesis by blast
qed

theorem binaries_contained_witness: "path_join ''/w'' ''a/b'' = ''/w/a/b''"
proof -
  have "ValidateBinaries [] [demo_binary ''a/b'', demo_binary ''c''] = None" by (simp add: accepts demo_eval)
  moreover have "clean_root ''/w''" by (simp add: clean_root_def path_clean_def)
  ultimately show ?thesis
    using binaries_contained [of "[]" "[demo_binary ''a/b'', demo_binary ''c'']" "''/w''"]
    by (simp add: demo_binary_def zero_defs demo_eval)
qed

text \<open>
  An accepted Entry request is isolated: one file with the fixed name, one of the two modes,
  no other program, judge, interactor, output file, network or relaxed time limit, and, in state
  mode with an inline expectation, an expectation that the comparison can use.
\<close>

theorem accepted_entry_isolated:
  assumes "Validate E req = None" and "is_entry (rq_Lang req)"
  shows "(\<exists>b. rq_Binaries req = [b] \<and> bin_Name b = ''Main.entry.json'' \<and> bin_Mode b = []) \<and>
    rq_Pipeline req = None \<and> rq_Communication req = None \<and> rq_Interactor req = None \<and>
    rq_SPJ req = None \<and> rq_Programs req = [] \<and> rq_Steps req = [] \<and> rq_FileOutputs req = [] \<and>
    rq_SidecarOutputs req = [] \<and> \<not> rq_EnableNetwork req \<and> \<not> rq_IgnoreTLE req \<and>
    (rq_EntryMode req = ''stdio'' \<or> rq_EntryMode req = ''state'' \<and>
       (rq_ExpectedStdoutURL req = [] \<longrightarrow>
          CompareState (env_json_tokens E) (rq_ExpectedStdout req) actual \<noteq> None))"
  using ValidateEntry_isolated [OF Validate_parts(2) [OF assms(1)] assms(2)]
  by (auto simp: SourceName_def CompareState_error)

theorem accepted_entry_isolated_witness: "\<not> rq_EnableNetwork demo_entry"
  using accepted_entry_isolated [OF demo_entry_ok]
  by (simp add: is_entry_def demo_entry_def zero_defs demo_eval)

text \<open>
  Exactly which special judges are accepted: limits in range, a contained name, one of the
  two ways to give the program, decodable and at most 16 MiB when it is inline, a supported language and
  distinct contained sidecar paths.
\<close>

theorem accepted_special_judge:
  "ValidateSPJ E (Some s) = None \<longleftrightarrow>
     (\<forall>l. spj_Limits s = Some l \<longrightarrow> limits_in_range (64 * 1048576) l) \<and>
     (\<exists>b c. spj_Binary s = Some b \<and> ValidateRelativePath (bin_Name b) = Inr c \<and>
        (trim_space (bin_DataB64 b) = [] \<longleftrightarrow> trim_space (bin_DataURL b) \<noteq> []) \<and>
        (trim_space (bin_DataB64 b) \<noteq> [] \<longrightarrow>
           (\<exists>d. b64_decode (bin_DataB64 b) = Some d \<and> length d \<le> 16 * 1048576)) \<and>
        (trim_space (bin_DataB64 b) = [] \<longrightarrow>
           payloadurl_Validate E (trim_space (bin_DataURL b)) = None)) \<and>
     trim_space (spj_Lang s) \<noteq> [] \<and> NormalizeRunLang (spj_Lang s) \<in> set supportedRunLangs \<and>
     length (spj_SidecarOutputs s) \<le> 64 \<and> output_paths_ok (spj_SidecarOutputs s)"
  by (simp add: ValidateSPJ_accepts spj_ok_def bounds_defs)

definition demo_spj :: SPJSpec where
  "demo_spj = zero_SPJSpec\<lparr>spj_Binary := Some (demo_binary ''c''), spj_Lang := ''binary''\<rparr>"

lemma trim_demo_data: "trim_space ''QUJD'' = ''QUJD''"
  by (simp add: trim_space_visible)

theorem accepted_special_judge_witness: "ValidateSPJ demo_env (Some demo_spj) = None"
  unfolding accepted_special_judge
  by (simp add: demo_spj_def demo_binary_def zero_defs demo_eval trim_demo_data output_paths_ok_def)

end
