(* ===== verification/Queue.thy ===== *)
theory Queue
  imports Prelude
begin

text \<open>
  internal/queue/manager.go: the manager of the execution slots and its permits.

  Every critical section is one operation on the state. \<open>Release\<close> and \<open>Cancel\<close> have two: the first
  changes the permit, the second runs \<open>release\<close> inside \<open>once.Do\<close>. Between them other goroutines may
  take any step; \<open>q_due\<close> holds the permits for which the second section is still to run. A permit is
  its index in \<open>q_permits\<close>, in the order in which \<open>Acquire\<close> made them.
  \<open>q_panicked\<close> records that a channel was closed a second time, at which Go panics.
\<close>

datatype permitState = Pending | Granted | Acquired | Canceled | Released

datatype queue_error = ErrQueueFull | ErrPermitCanceled

record permit =
  pm_entry :: bool
  pm_position :: nat
  pm_once :: bool
  pm_state :: permitState
  pm_closed :: bool

record queue =
  q_maxActive :: int
  q_maxPending :: int
  q_active :: int
  q_waiters :: "nat list"
  q_permits :: "permit list"
  q_due :: "nat list"
  q_panicked :: bool

section \<open>Operations\<close>

definition New :: "int \<Rightarrow> int \<Rightarrow> queue" where
  "New maxActive maxPending =
     \<lparr>q_maxActive = (if maxActive < 1 then 1 else maxActive),
      q_maxPending = (if maxPending < 0 then 0 else maxPending),
      q_active = 0, q_waiters = [], q_permits = [], q_due = [], q_panicked = False\<rparr>"

definition Acquire :: "queue \<Rightarrow> (queue_error + nat) \<times> queue" where
  "Acquire q =
     (let p = length (q_permits q); n = length (q_waiters q) in
      if q_active q < q_maxActive q then
        (Inr p, q\<lparr>q_active := q_active q + 1,
                  q_permits := q_permits q @
                    [\<lparr>pm_entry = False, pm_position = 0, pm_once = False, pm_state = Acquired,
                      pm_closed = False\<rparr>]\<rparr>)
      else if q_maxPending q > 0 \<and> int n \<ge> q_maxPending q then (Inl ErrQueueFull, q)
      else
        (Inr p, q\<lparr>q_permits := q_permits q @
                    [\<lparr>pm_entry = True, pm_position = n + 1, pm_once = False, pm_state = Pending,
                      pm_closed = False\<rparr>],
                  q_waiters := q_waiters q @ [p]\<rparr>))"

definition state_of :: "queue \<Rightarrow> nat \<Rightarrow> permitState" where
  "state_of q p = pm_state (q_permits q ! p)"

definition set_state :: "nat \<Rightarrow> permitState \<Rightarrow> queue \<Rightarrow> queue" where
  "set_state p st q = q\<lparr>q_permits := (q_permits q)[p := (q_permits q ! p)\<lparr>pm_state := st\<rparr>]\<rparr>"

definition close_entry :: "nat \<Rightarrow> queue \<Rightarrow> queue" where
  "close_entry p q =
     q\<lparr>q_panicked := q_panicked q \<or> pm_closed (q_permits q ! p),
       q_permits := (q_permits q)[p := (q_permits q ! p)\<lparr>pm_closed := True\<rparr>]\<rparr>"

text \<open>\<open>release\<close>: the slot goes to the first waiter that is still pending, or becomes free.\<close>

fun release_loop :: "nat list \<Rightarrow> queue \<Rightarrow> queue" where
  "release_loop [] q =
     q\<lparr>q_waiters := [], q_active := (if q_active q > 0 then q_active q - 1 else q_active q)\<rparr>"
| "release_loop (w # ws) q =
     (if state_of q w \<noteq> Pending then release_loop ws q
      else close_entry w (set_state w Granted (q\<lparr>q_waiters := ws\<rparr>)))"

definition release :: "queue \<Rightarrow> queue" where
  "release q = release_loop (q_waiters q) q"

text \<open>\<open>Manager.cancel\<close>: whether the slot of the permit is to be released.\<close>

definition cancel :: "nat \<Rightarrow> queue \<Rightarrow> bool \<times> queue" where
  "cancel p q =
     (case state_of q p of
        Pending \<Rightarrow>
          (False, close_entry p (set_state p Canceled (q\<lparr>q_waiters := remove1 p (q_waiters q)\<rparr>)))
      | Granted \<Rightarrow> (True, set_state p Canceled q)
      | Acquired \<Rightarrow> (True, set_state p Canceled q)
      | _ \<Rightarrow> (False, q))"

definition begin_cancel :: "nat \<Rightarrow> queue \<Rightarrow> queue" where
  "begin_cancel p q =
     (case cancel p q of (b, q') \<Rightarrow> if b then q'\<lparr>q_due := p # q_due q'\<rparr> else q')"

definition begin_release :: "nat \<Rightarrow> queue \<Rightarrow> queue" where
  "begin_release p q =
     (if state_of q p = Granted \<or> state_of q p = Acquired
      then (set_state p Released q)\<lparr>q_due := p # q_due q\<rparr> else q)"

text \<open>The call of \<open>once.Do\<close> that is due for \<open>p\<close>.\<close>

definition finish_release :: "nat \<Rightarrow> queue \<Rightarrow> queue" where
  "finish_release p q =
     (let q' = q\<lparr>q_due := remove1 p (q_due q)\<rparr> in
      if pm_once (q_permits q' ! p) then q'
      else release (q'\<lparr>q_permits := (q_permits q')[p := (q_permits q' ! p)\<lparr>pm_once := True\<rparr>]\<rparr>))"

text \<open>
  The branch of \<open>Wait\<close> whose context is alive and whose channel, if there is one, is closed. In
  the other branches \<open>Wait\<close> calls \<open>Cancel\<close>.
\<close>

definition wait_ready :: "nat \<Rightarrow> queue \<Rightarrow> bool" where
  "wait_ready p q \<longleftrightarrow> \<not> pm_entry (q_permits q ! p) \<or> pm_closed (q_permits q ! p)"

definition wait :: "nat \<Rightarrow> queue \<Rightarrow> queue_error option \<times> queue" where
  "wait p q =
     (if \<not> pm_entry (q_permits q ! p) then
        (if state_of q p = Acquired then None else Some ErrPermitCanceled, q)
      else (case state_of q p of
              Granted \<Rightarrow> (None, set_state p Acquired q)
            | Acquired \<Rightarrow> (None, q)
            | _ \<Rightarrow> (Some ErrPermitCanceled, q)))"

definition Snapshot :: "queue \<Rightarrow> int \<times> nat" where
  "Snapshot q = (q_active q, length (q_waiters q))"

section \<open>Interleavings\<close>

datatype qlabel = LAcquire | LWait nat | LRelease nat | LCancel nat | LFinish nat

inductive qstep :: "queue \<Rightarrow> qlabel \<Rightarrow> queue \<Rightarrow> bool" where
  acquire: "Acquire q = (r, q') \<Longrightarrow> qstep q LAcquire q'"
| wait: "p < length (q_permits q) \<Longrightarrow> wait_ready p q \<Longrightarrow> wait p q = (r, q') \<Longrightarrow> qstep q (LWait p) q'"
| release: "p < length (q_permits q) \<Longrightarrow> qstep q (LRelease p) (begin_release p q)"
| cancel: "p < length (q_permits q) \<Longrightarrow> qstep q (LCancel p) (begin_cancel p q)"
| finish: "p \<in> set (q_due q) \<Longrightarrow> qstep q (LFinish p) (finish_release p q)"

inductive_cases qstep_cases: "qstep q l q'"

definition qinit :: "queue \<Rightarrow> bool" where
  "qinit q \<longleftrightarrow> (\<exists>maxActive maxPending. q = New maxActive maxPending)"

section \<open>The invariant\<close>

text \<open>A permit holds a slot from the grant to the release or the cancellation.\<close>

definition holds_slot :: "permit \<Rightarrow> bool" where
  "holds_slot pm \<longleftrightarrow> pm_state pm = Granted \<or> pm_state pm = Acquired"

definition holders :: "queue \<Rightarrow> nat" where
  "holders q = length (filter holds_slot (q_permits q))"

definition permit_inv :: "permit \<Rightarrow> bool" where
  "permit_inv pm \<longleftrightarrow>
     (pm_closed pm \<longleftrightarrow> pm_entry pm \<and> pm_state pm \<noteq> Pending) \<and>
     (pm_state pm = Pending \<longrightarrow> pm_entry pm) \<and>
     (pm_once pm \<longrightarrow> pm_state pm = Canceled \<or> pm_state pm = Released)"

text \<open>
  The slots in use are those of the holders and those whose release is due; someone waits only
  when every slot is in use.
\<close>

definition slots_inv :: "queue \<Rightarrow> bool" where
  "slots_inv q \<longleftrightarrow>
     1 \<le> q_maxActive q \<and> \<not> q_panicked q \<and> q_active q \<le> q_maxActive q \<and>
     q_active q = int (holders q + length (q_due q)) \<and>
     (q_waiters q \<noteq> [] \<longrightarrow> q_active q = q_maxActive q) \<and>
     (0 < q_maxPending q \<longrightarrow> int (length (q_waiters q)) \<le> q_maxPending q)"

text \<open>The waiters are the pending permits, in the order of their arrival.\<close>

definition pending :: "queue \<Rightarrow> nat list" where
  "pending q = filter (\<lambda>p. state_of q p = Pending) [0..<length (q_permits q)]"

definition waiters_inv :: "queue \<Rightarrow> bool" where
  "waiters_inv q \<longleftrightarrow> q_waiters q = pending q"

lemma mem_pending [simp]: "p \<in> set (pending q) \<longleftrightarrow> p < length (q_permits q) \<and> state_of q p = Pending"
  by (auto simp: pending_def)

lemma distinct_pending [simp]: "distinct (pending q)"
  by (simp add: pending_def)

lemma sorted_pending: "sorted_wrt (<) (pending q)"
  by (simp add: pending_def sorted_wrt_filter)

definition due_inv :: "queue \<Rightarrow> bool" where
  "due_inv q \<longleftrightarrow>
     distinct (q_due q) \<and>
     (\<forall>p \<in> set (q_due q). p < length (q_permits q) \<and> \<not> pm_once (q_permits q ! p) \<and>
        (state_of q p = Canceled \<or> state_of q p = Released))"

definition permits_inv :: "queue \<Rightarrow> bool" where
  "permits_inv q \<longleftrightarrow> (\<forall>p < length (q_permits q). permit_inv (q_permits q ! p))"

definition queue_inv :: "queue \<Rightarrow> bool" where
  "queue_inv q \<longleftrightarrow> slots_inv q \<and> waiters_inv q \<and> due_inv q \<and> permits_inv q"

lemmas inv_defs = slots_inv_def waiters_inv_def due_inv_def permits_inv_def

lemma New_inv: "queue_inv (New a b)"
  by (simp add: queue_inv_def inv_defs New_def holders_def pending_def)

text \<open>Effect of the two updates of a permit.\<close>

lemma set_state_simps [simp]:
  "q_active (set_state p st q) = q_active q" "q_waiters (set_state p st q) = q_waiters q"
  "q_due (set_state p st q) = q_due q" "q_maxActive (set_state p st q) = q_maxActive q"
  "q_maxPending (set_state p st q) = q_maxPending q" "q_panicked (set_state p st q) = q_panicked q"
  "length (q_permits (set_state p st q)) = length (q_permits q)"
  by (simp_all add: set_state_def)

lemma close_entry_simps [simp]:
  "q_active (close_entry p q) = q_active q" "q_waiters (close_entry p q) = q_waiters q"
  "q_due (close_entry p q) = q_due q" "q_maxActive (close_entry p q) = q_maxActive q"
  "q_maxPending (close_entry p q) = q_maxPending q"
  "q_panicked (close_entry p q) \<longleftrightarrow> q_panicked q \<or> pm_closed (q_permits q ! p)"
  "length (q_permits (close_entry p q)) = length (q_permits q)"
  by (simp_all add: close_entry_def)

lemma permits_set_state:
  "p < length (q_permits q) \<Longrightarrow> q_permits (set_state p st q) ! i =
     (if i = p then (q_permits q ! p)\<lparr>pm_state := st\<rparr> else q_permits q ! i)"
  by (simp add: set_state_def nth_list_update)

lemma permits_close_entry:
  "p < length (q_permits q) \<Longrightarrow> q_permits (close_entry p q) ! i =
     (if i = p then (q_permits q ! p)\<lparr>pm_closed := True\<rparr> else q_permits q ! i)"
  by (simp add: close_entry_def nth_list_update)

lemma state_of_set_state:
  "p < length (q_permits q) \<Longrightarrow> state_of (set_state p st q) i = (if i = p then st else state_of q i)"
  by (simp add: state_of_def permits_set_state)

lemma state_of_close_entry:
  "p < length (q_permits q) \<Longrightarrow> state_of (close_entry p q) i = state_of q i"
  by (simp add: state_of_def permits_close_entry)

lemmas permit_updates =
  permits_set_state permits_close_entry state_of_set_state state_of_close_entry

definition slot_of :: "permitState \<Rightarrow> nat" where
  "slot_of st = (if st = Granted \<or> st = Acquired then 1 else 0)"

lemma holders_set_state:
  "p < length (q_permits q) \<Longrightarrow>
   holders (set_state p st q) + slot_of (state_of q p) = holders q + slot_of st"
  using length_filter_update [of p "q_permits q" holds_slot "(q_permits q ! p)\<lparr>pm_state := st\<rparr>"]
  by (simp add: holders_def set_state_def slot_of_def holds_slot_def state_of_def)

lemma holders_close_entry:
  "p < length (q_permits q) \<Longrightarrow> holders (close_entry p q) = holders q"
  using length_filter_update [of p "q_permits q" holds_slot "(q_permits q ! p)\<lparr>pm_closed := True\<rparr>"]
  by (simp add: holders_def close_entry_def holds_slot_def split: if_splits)

lemma holders_update [simp]:
  "holders (q\<lparr>q_waiters := ws\<rparr>) = holders q" "holders (q\<lparr>q_active := a\<rparr>) = holders q"
  "holders (q\<lparr>q_due := ds\<rparr>) = holders q"
  by (simp_all add: holders_def)

lemma state_of_update [simp]:
  "state_of (q\<lparr>q_waiters := ws\<rparr>) p = state_of q p" "state_of (q\<lparr>q_active := a\<rparr>) p = state_of q p"
  "state_of (q\<lparr>q_due := ds\<rparr>) p = state_of q p"
  by (simp_all add: state_of_def)

section \<open>Every step keeps the invariant\<close>

lemma nth_snoc: "p < Suc (length xs) \<Longrightarrow> (xs @ [x]) ! p = (if p < length xs then xs ! p else x)"
  by (simp add: nth_append)

lemma state_of_snoc:
  "state_of (q\<lparr>q_permits := q_permits q @ [x]\<rparr>) p =
     (if p < length (q_permits q) then state_of q p
      else if p = length (q_permits q) then pm_state x else state_of (q\<lparr>q_permits := q_permits q @ [x]\<rparr>) p)"
  by (simp add: state_of_def nth_append)

lemma pending_snoc:
  "pending (q\<lparr>q_permits := q_permits q @ [x]\<rparr>) =
     pending q @ (if pm_state x = Pending then [length (q_permits q)] else [])"
proof -
  have "filter (\<lambda>p. state_of (q\<lparr>q_permits := q_permits q @ [x]\<rparr>) p = Pending) [0..<length (q_permits q)] =
        pending q"
    unfolding pending_def by (rule filter_cong) (auto simp: state_of_def nth_append)
  then show ?thesis by (simp add: pending_def state_of_def)
qed

lemma pending_update [simp]:
  "pending (q\<lparr>q_waiters := ws\<rparr>) = pending q" "pending (q\<lparr>q_active := a\<rparr>) = pending q"
  "pending (q\<lparr>q_due := ds\<rparr>) = pending q"
  by (simp_all add: pending_def)

lemma pending_set_state:
  "p < length (q_permits q) \<Longrightarrow> st \<noteq> Pending \<Longrightarrow> pending (set_state p st q) = remove1 p (pending q)"
  by (simp add: distinct_remove1_removeAll removeAll_filter_not_eq)
    (auto simp: pending_def state_of_set_state intro: filter_cong)

lemma pending_close_entry:
  "p < length (q_permits q) \<Longrightarrow> pending (close_entry p q) = pending q"
  by (simp add: pending_def state_of_close_entry)

lemma Acquire_inv:
  assumes q: "queue_inv q"
  shows "queue_inv (snd (Acquire q))"
proof (cases "q_active q < q_maxActive q")
  case True
  define x where "x = \<lparr>pm_entry = False, pm_position = 0, pm_once = False, pm_state = Acquired,
      pm_closed = False\<rparr>"
  have a: "snd (Acquire q) = q\<lparr>q_permits := q_permits q @ [x]\<rparr>\<lparr>q_active := q_active q + 1\<rparr>"
    using True by (simp add: Acquire_def Let_def x_def)
  show ?thesis
    using q True unfolding a queue_inv_def inv_defs
    by (auto simp: holders_def holds_slot_def pending_snoc nth_snoc state_of_def x_def permit_inv_def)
next
  case False
  show ?thesis
  proof (cases "q_maxPending q > 0 \<and> int (length (q_waiters q)) \<ge> q_maxPending q")
    case True
    then show ?thesis using q False by (simp add: Acquire_def Let_def)
  next
    case room: False
    define x where "x = \<lparr>pm_entry = True, pm_position = length (q_waiters q) + 1, pm_once = False,
        pm_state = Pending, pm_closed = False\<rparr>"
    have a: "snd (Acquire q) =
        q\<lparr>q_permits := q_permits q @ [x]\<rparr>\<lparr>q_waiters := q_waiters q @ [length (q_permits q)]\<rparr>"
      using False room by (simp add: Acquire_def Let_def x_def)
    show ?thesis
      using q False room unfolding a queue_inv_def inv_defs
      by (auto simp: holders_def holds_slot_def pending_snoc nth_snoc state_of_def x_def permit_inv_def)
  qed
qed

text \<open>\<open>release\<close> in a state in which one more slot is in use than holders and due releases account for.\<close>

lemma release_grants:
  assumes "q_waiters q = w # ws" and "state_of q w = Pending"
  shows "release q = close_entry w (set_state w Granted (q\<lparr>q_waiters := ws\<rparr>))"
  using assms by (simp add: release_def)

lemma release_inv:
  assumes "waiters_inv q" "due_inv q" "permits_inv q"
    and "1 \<le> q_maxActive q" "\<not> q_panicked q" "q_active q \<le> q_maxActive q"
    and "q_active q = int (holders q + length (q_due q) + 1)"
    and "q_waiters q \<noteq> [] \<longrightarrow> q_active q = q_maxActive q"
    and "0 < q_maxPending q \<longrightarrow> int (length (q_waiters q)) \<le> q_maxPending q"
  shows "queue_inv (release q)"
proof (cases "q_waiters q")
  case Nil
  then show ?thesis
    using assms by (simp add: queue_inv_def inv_defs release_def state_of_def)
next
  case (Cons w ws)
  have pend: "pending q = w # ws" using Cons assms(1) by (simp add: waiters_inv_def)
  then have "w \<in> set (pending q)" by (metis list.set_intros(1))
  then have w: "w < length (q_permits q)" "state_of q w = Pending" by simp_all
  let ?q = "q\<lparr>q_waiters := ws\<rparr>"
  have open_ch: "\<not> pm_closed (q_permits q ! w)"
    using assms(3) w by (simp add: permits_inv_def permit_inv_def state_of_def)
  have h: "holders (close_entry w (set_state w Granted ?q)) = holders q + 1"
    using holders_set_state [of w ?q Granted] holders_close_entry [of w "set_state w Granted ?q"] w
    by (simp add: slot_of_def)
  have "pending (close_entry w (set_state w Granted ?q)) = ws"
    using w pend by (simp add: pending_close_entry pending_set_state)
  then show ?thesis
    unfolding release_grants [OF Cons w(2)]
    using assms(2-) Cons w h open_ch
    by (auto simp: queue_inv_def inv_defs permit_updates permit_inv_def state_of_def)
qed

lemma begin_release_inv:
  assumes q: "queue_inv q" and p: "p < length (q_permits q)"
  shows "queue_inv (begin_release p q)"
proof (cases "state_of q p = Granted \<or> state_of q p = Acquired")
  case True
  have h: "holders (set_state p Released q) + 1 = holders q"
    using holders_set_state [OF p, of Released] True by (auto simp: slot_of_def)
  have once: "\<not> pm_once (q_permits q ! p)" "p \<notin> set (q_due q)"
    using q p True by (auto simp: queue_inv_def inv_defs permit_inv_def state_of_def)
  have "remove1 p (pending q) = pending q" using True by (intro remove1_idem) auto
  then show ?thesis
    using q p h once True unfolding begin_release_def queue_inv_def inv_defs
    by (auto simp: permit_updates pending_set_state permit_inv_def state_of_def)
qed (use q in \<open>simp add: begin_release_def\<close>)

lemma begin_cancel_inv:
  assumes q: "queue_inv q" and p: "p < length (q_permits q)"
  shows "queue_inv (begin_cancel p q)"
proof -
  consider "state_of q p = Pending" | "state_of q p = Granted \<or> state_of q p = Acquired"
    | "begin_cancel p q = q"
    by (cases "state_of q p") (auto simp: begin_cancel_def cancel_def)
  then show ?thesis
  proof cases
    case 1
    let ?q = "q\<lparr>q_waiters := remove1 p (q_waiters q)\<rparr>"
    have b: "begin_cancel p q = close_entry p (set_state p Canceled ?q)"
      by (simp add: begin_cancel_def cancel_def 1)
    have h: "holders (close_entry p (set_state p Canceled ?q)) = holders q"
      using holders_set_state [of p ?q Canceled] holders_close_entry [of p "set_state p Canceled ?q"] p 1
      by (simp add: slot_of_def)
    have open_ch: "\<not> pm_closed (q_permits q ! p)"
      using q p 1 by (simp add: queue_inv_def inv_defs permit_inv_def state_of_def)
    have len: "length (remove1 p (q_waiters q)) \<le> length (q_waiters q)" by (simp add: length_remove1)
    have ne: "remove1 p (q_waiters q) \<noteq> [] \<Longrightarrow> q_waiters q \<noteq> []" by auto
    show ?thesis
      using q p h open_ch 1 len ne unfolding b queue_inv_def inv_defs
      by (auto simp: permit_updates pending_set_state pending_close_entry permit_inv_def state_of_def)
  next
    case 2
    then have b: "begin_cancel p q = (set_state p Canceled q)\<lparr>q_due := p # q_due q\<rparr>"
      by (auto simp: begin_cancel_def cancel_def)
    have h: "holders (set_state p Canceled q) + 1 = holders q"
      using holders_set_state [OF p, of Canceled] 2 by (auto simp: slot_of_def)
    have once: "\<not> pm_once (q_permits q ! p)" "p \<notin> set (q_due q)"
      using q p 2 by (auto simp: queue_inv_def inv_defs permit_inv_def state_of_def)
    have "remove1 p (pending q) = pending q" using 2 by (intro remove1_idem) auto
    then show ?thesis
      using q p h once 2 unfolding b queue_inv_def inv_defs
      by (auto simp: permit_updates pending_set_state permit_inv_def state_of_def)
  qed (use q in simp)
qed

lemma wait_inv:
  assumes q: "queue_inv q" and p: "p < length (q_permits q)" and w: "wait_ready p q"
  shows "queue_inv (snd (wait p q))"
proof (cases "pm_entry (q_permits q ! p) \<and> state_of q p = Granted")
  case True
  then have b: "snd (wait p q) = set_state p Acquired q" by (simp add: wait_def)
  have h: "holders (set_state p Acquired q) = holders q"
    using holders_set_state [OF p, of Acquired] True by (simp add: slot_of_def)
  have "remove1 p (pending q) = pending q" using True by (intro remove1_idem) simp
  then show ?thesis
    using q p h True unfolding b queue_inv_def inv_defs
    by (auto simp: permit_updates pending_set_state permit_inv_def state_of_def)
next
  case False
  then have "snd (wait p q) = q" by (auto simp: wait_def split: permitState.splits)
  then show ?thesis using q by simp
qed

lemma finish_release_inv:
  assumes q: "queue_inv q" and p: "p \<in> set (q_due q)"
  shows "queue_inv (finish_release p q)"
proof -
  let ?once = "(q_permits q ! p)\<lparr>pm_once := True\<rparr>"
  let ?q = "q\<lparr>q_due := remove1 p (q_due q), q_permits := (q_permits q)[p := ?once]\<rparr>"
  have p': "p < length (q_permits q)" "\<not> pm_once (q_permits q ! p)"
    "state_of q p = Canceled \<or> state_of q p = Released"
    using q p by (auto simp: queue_inv_def due_inv_def)
  have f: "finish_release p q = release ?q" using p'(2) by (simp add: finish_release_def Let_def)
  have st: "state_of ?q i = state_of q i" for i
    using p'(1) by (simp add: state_of_def nth_list_update)
  then have pend: "pending ?q = pending q" by (simp add: pending_def)
  have h: "holders ?q = holders q"
    using length_filter_update [of p "q_permits q" holds_slot ?once] p'(1)
    by (simp add: holders_def holds_slot_def split: if_splits)
  have d: "length (q_due q) = Suc (length (remove1 p (q_due q)))"
    using p by (metis One_nat_def Suc_pred length_pos_if_in_set length_remove1)
  show ?thesis
    unfolding f
  proof (rule release_inv)
    show "due_inv ?q" using q by (auto simp: queue_inv_def due_inv_def st nth_list_update)
    show "permits_inv ?q"
      using q p' by (auto simp: queue_inv_def permits_inv_def nth_list_update permit_inv_def state_of_def)
  qed (use q h d pend in \<open>auto simp: queue_inv_def slots_inv_def waiters_inv_def\<close>)
qed

lemma qstep_inv: "queue_inv q \<Longrightarrow> qstep q l q' \<Longrightarrow> queue_inv q'"
  by (erule qstep.cases)
    (metis Acquire_inv snd_conv, metis wait_inv snd_conv,
      auto intro: begin_release_inv begin_cancel_inv finish_release_inv)

interpretation queue_system: inductive_invariant qinit qstep queue_inv
  by unfold_locales (auto simp: qinit_def New_inv intro: qstep_inv)

section \<open>Properties\<close>

lemma finish_release_grants:
  assumes q: "queue_inv q" and p: "p \<in> set (q_due q)" and ws: "q_waiters q = w # ws"
  shows "state_of (finish_release p q) w = Granted" and "q_waiters (finish_release p q) = ws"
    and "q_active (finish_release p q) = q_active q"
    and "\<forall>v. v \<noteq> w \<longrightarrow> state_of (finish_release p q) v = state_of q v"
proof -
  let ?once = "(q_permits q ! p)\<lparr>pm_once := True\<rparr>"
  let ?q = "q\<lparr>q_due := remove1 p (q_due q), q_permits := (q_permits q)[p := ?once]\<rparr>"
  have p': "p < length (q_permits q)" "\<not> pm_once (q_permits q ! p)"
    using q p by (auto simp: queue_inv_def due_inv_def)
  have st: "state_of ?q i = state_of q i" for i
    using p'(1) by (simp add: state_of_def nth_list_update)
  have "w \<in> set (pending q)" using q ws by (metis list.set_intros(1) queue_inv_def waiters_inv_def)
  then have w: "w < length (q_permits q)" "state_of q w = Pending" by simp_all
  have "finish_release p q = close_entry w (set_state w Granted (?q\<lparr>q_waiters := ws\<rparr>))"
    using p'(2) release_grants [of ?q w ws] ws w(2) st by (simp add: finish_release_def Let_def)
  then show "state_of (finish_release p q) w = Granted" and "q_waiters (finish_release p q) = ws"
    and "q_active (finish_release p q) = q_active q"
    and "\<forall>v. v \<noteq> w \<longrightarrow> state_of (finish_release p q) v = state_of q v"
    using w(1) st by (simp_all add: permit_updates)
qed

text \<open>
  C1. In every interleaving of Acquire, Wait, Release and Cancel the number of permits that hold a
  slot never exceeds the configured number, nobody waits while a slot is free, the waiting line
  stays within its bound, no channel is closed twice, and once every holder has released its
  permit no slot stays in use and nobody is left waiting.
\<close>

theorem queue_slots_bounded:
  assumes "reachable qinit qstep q"
  shows "int (holders q) \<le> q_maxActive q \<and> \<not> q_panicked q \<and>
    (q_waiters q \<noteq> [] \<longrightarrow> q_active q = q_maxActive q) \<and>
    (0 < q_maxPending q \<longrightarrow> int (length (q_waiters q)) \<le> q_maxPending q) \<and>
    (holders q = 0 \<longrightarrow> q_due q = [] \<longrightarrow> Snapshot q = (0, 0))"
  using queue_system.holds [OF assms]
  by (auto simp: queue_inv_def slots_inv_def Snapshot_def)

definition demo_queue :: queue where
  "demo_queue = begin_release 0 (snd (Acquire (snd (Acquire (New 1 4)))))"

lemma demo_queue_reachable: "reachable qinit qstep demo_queue"
proof -
  have "reachable qinit qstep (New 1 4)" by (rule reachable.start) (auto simp: qinit_def)
  then have "reachable qinit qstep (snd (Acquire (New 1 4)))"
    by (rule reachable.extend) (rule qstep.acquire [of _ "fst (Acquire (New 1 4))"], simp)
  then have "reachable qinit qstep (snd (Acquire (snd (Acquire (New 1 4)))))"
    by (rule reachable.extend)
      (rule qstep.acquire [of _ "fst (Acquire (snd (Acquire (New 1 4))))"], simp)
  then show ?thesis
    unfolding demo_queue_def by (rule reachable.extend) (rule qstep.release, simp add: Acquire_def New_def Let_def)
qed

lemma demo_queue_eval:
  "q_due demo_queue = [0]" "q_waiters demo_queue = [1]" "q_active demo_queue = 1"
  by (simp_all add: demo_queue_def Acquire_def New_def Let_def begin_release_def state_of_def set_state_def)

theorem queue_slots_bounded_witness:
  "int (holders demo_queue) \<le> q_maxActive demo_queue"
  using queue_slots_bounded [OF demo_queue_reachable] by blast

text \<open>
  A completed release hands the slot to the permit that has waited longest: the first waiter
  becomes granted, every other waiter arrived after it and stays in the line, and no other permit
  changes its state. The number of slots in use does not change.
\<close>

theorem queue_release_fifo:
  assumes "reachable qinit qstep q" and "p \<in> set (q_due q)" and "q_waiters q = w # ws"
  shows "state_of q w = Pending \<and> state_of (finish_release p q) w = Granted \<and>
    q_waiters (finish_release p q) = ws \<and> (\<forall>v \<in> set ws. w < v) \<and>
    (\<forall>v. v \<noteq> w \<longrightarrow> state_of (finish_release p q) v = state_of q v) \<and>
    q_active (finish_release p q) = q_active q"
proof -
  have inv: "queue_inv q" using queue_system.holds [OF assms(1)] .
  then have pend: "pending q = w # ws" using assms(3) by (simp add: queue_inv_def waiters_inv_def)
  then have "w \<in> set (pending q)" by (metis list.set_intros(1))
  moreover have "\<forall>v \<in> set ws. w < v" using sorted_pending [of q] pend by simp
  ultimately show ?thesis using finish_release_grants [OF inv assms(2,3)] by simp
qed

theorem queue_release_fifo_witness:
  "state_of (finish_release 0 demo_queue) 1 = Granted"
  using queue_release_fifo [OF demo_queue_reachable, of 0 1 "[]"] by (simp add: demo_queue_eval)

end
