(* ===== verification/Cpu_Normalization.thy ===== *)
theory Cpu_Normalization
  imports Prelude Go_Strings "HOL-Library.Word"
begin

unbundle bit_operations_syntax

text \<open>
  internal/timing/cpu_normalization.go and the calibration of internal/timing/cpu_calibration_linux.go:
  the translation between the CPU time of this host and the reference time of a fixed piece of work.

  \<open>uint64\<close> is \<open>64 word\<close>, \<open>int\<close> and \<open>int64\<close> are \<open>int\<close> with the 64-bit bounds as hypotheses where they
  matter. The clock and the samples that the calibration collects are parameters.
\<close>

type_synonym u64 = "64 word"

definition cpuNormalizationScaleUnit :: u64 where "cpuNormalizationScaleUnit = 1000000"
definition cpuNormalizationMaxRatio :: u64 where "cpuNormalizationMaxRatio = 4"
definition cpuNormalizationWallSlackPct :: u64 where "cpuNormalizationWallSlackPct = 10"
definition cpuNormalizationMinWallSlack :: u64 where "cpuNormalizationMinWallSlack = 100"
definition cpuCalibrationMaxSpreadPPM :: u64 where "cpuCalibrationMaxSpreadPPM = 100000"
definition nanosecondsPerMillisecond :: u64 where "nanosecondsPerMillisecond = 1000000"
definition CPUNormalizationMethod :: string where "CPUNormalizationMethod = ''go-fixed-int-v1''"
definition MinimumCPUCalibrationTimeNs :: u64 where "MinimumCPUCalibrationTimeNs = 1000000"
definition MaximumCPUCalibrationTimeNs :: u64 where "MaximumCPUCalibrationTimeNs = 5000000000"

lemmas cpu_constants =
  cpuNormalizationScaleUnit_def cpuNormalizationMaxRatio_def cpuNormalizationWallSlackPct_def
  cpuNormalizationMinWallSlack_def cpuCalibrationMaxSpreadPPM_def nanosecondsPerMillisecond_def
  MinimumCPUCalibrationTimeNs_def MaximumCPUCalibrationTimeNs_def

definition MaxUint64 :: u64 where "MaxUint64 = - 1"
definition MaxInt64 :: int where "MaxInt64 = 2 ^ 63 - 1"

record CPUNormalizer =
  cn_method :: string
  cn_referenceTimeNs :: u64
  cn_observedTimeNs :: u64

record CPUNormalizationInfo =
  ci_Method :: string
  ci_ScalePPM :: int
  ci_ReferenceTimeNs :: u64
  ci_ObservedTimeNs :: u64

section \<open>Multiplication and division in 128 bits\<close>

text \<open>
  \<open>bits.Mul64\<close> is the product in two words. \<open>bits.Div64\<close> divides two words by one; it panics when
  the divisor is not above the high word (\<open>Div64_panics\<close>).
\<close>

definition Mul64 :: "u64 \<Rightarrow> u64 \<Rightarrow> u64 \<times> u64" where
  "Mul64 x y = (word_of_nat (unat x * unat y div 2 ^ 64), x * y)"

definition Div64_panics :: "u64 \<Rightarrow> u64 \<Rightarrow> bool" where
  "Div64_panics hi y \<longleftrightarrow> y = 0 \<or> y \<le> hi"

definition Div64 :: "u64 \<Rightarrow> u64 \<Rightarrow> u64 \<Rightarrow> u64 \<times> u64" where
  "Div64 hi lo y =
     (word_of_nat ((unat hi * 2 ^ 64 + unat lo) div unat y),
      word_of_nat ((unat hi * 2 ^ 64 + unat lo) mod unat y))"

definition mulDivUint64 :: "u64 \<Rightarrow> u64 \<Rightarrow> u64 \<Rightarrow> u64 \<times> u64 \<times> bool" where
  "mulDivUint64 val multiplier divisor =
     (if divisor = 0 then (MaxUint64, 0, True)
      else (case Mul64 val multiplier of (high, low) \<Rightarrow>
        if high \<ge> divisor then (MaxUint64, 0, True)
        else (case Div64 high low divisor of (quot, remainder) \<Rightarrow> (quot, remainder, False))))"

definition mulDivFloorUint64 :: "u64 \<Rightarrow> u64 \<Rightarrow> u64 \<Rightarrow> u64" where
  "mulDivFloorUint64 val multiplier divisor =
     (case mulDivUint64 val multiplier divisor of (quot, _, overflow) \<Rightarrow>
        if overflow then MaxUint64 else quot)"

definition mulDivCeilUint64 :: "u64 \<Rightarrow> u64 \<Rightarrow> u64 \<Rightarrow> u64" where
  "mulDivCeilUint64 val multiplier divisor =
     (case mulDivUint64 val multiplier divisor of (quot, remainder, overflow) \<Rightarrow>
        if overflow then MaxUint64
        else if remainder = 0 then quot
        else if quot = MaxUint64 then MaxUint64
        else quot + 1)"

definition mulDivCeilInt64 :: "int \<Rightarrow> u64 \<Rightarrow> u64 \<Rightarrow> int" where
  "mulDivCeilInt64 val multiplier divisor =
     (if val \<le> 0 \<or> multiplier = 0 then 0
      else (let result = mulDivCeilUint64 (word_of_int val) multiplier divisor in
        if uint result > MaxInt64 then MaxInt64 else uint result))"

section \<open>The normalizer\<close>

definition NewCPUNormalizer :: "string \<Rightarrow> u64 \<Rightarrow> u64 \<Rightarrow> CPUNormalizer option" where
  "NewCPUNormalizer method referenceTimeNs observedTimeNs =
     (if trim_space method = [] then None
      else if referenceTimeNs = 0 then None
      else if observedTimeNs = 0 then None
      else Some \<lparr>cn_method = method, cn_referenceTimeNs = referenceTimeNs,
                 cn_observedTimeNs = observedTimeNs\<rparr>)"

definition Enabled :: "CPUNormalizer \<Rightarrow> bool" where
  "Enabled n \<longleftrightarrow> cn_method n \<noteq> [] \<and> cn_referenceTimeNs n > 0 \<and> cn_observedTimeNs n > 0"

definition NormalizeNanoseconds :: "CPUNormalizer \<Rightarrow> u64 \<Rightarrow> u64" where
  "NormalizeNanoseconds n rawTimeNs =
     (if \<not> Enabled n then rawTimeNs
      else mulDivCeilUint64 rawTimeNs (cn_referenceTimeNs n) (cn_observedTimeNs n))"

text \<open>The ratio in force: 1 to 1 for a normalizer that is not enabled.\<close>

definition ratio :: "CPUNormalizer \<Rightarrow> u64 \<times> u64" where
  "ratio n = (if Enabled n then (cn_referenceTimeNs n, cn_observedTimeNs n) else (1, 1))"

definition RawLimitNanoseconds :: "CPUNormalizer \<Rightarrow> int \<Rightarrow> u64" where
  "RawLimitNanoseconds n normalizedLimitMs =
     (if normalizedLimitMs \<le> 0 then 0
      else (case ratio n of (reference, observed) \<Rightarrow>
        (case mulDivUint64 (word_of_int normalizedLimitMs) observed reference of
           (wholeMs, remainder, overflow) \<Rightarrow>
             if overflow \<or> wholeMs > MaxUint64 div nanosecondsPerMillisecond then MaxUint64
             else
               (let wholeNs = wholeMs * nanosecondsPerMillisecond;
                    fractionNs = mulDivFloorUint64 remainder nanosecondsPerMillisecond reference in
                if fractionNs > MaxUint64 - wholeNs then MaxUint64 else wholeNs + fractionNs))))"

definition NormalizeMillis :: "CPUNormalizer \<Rightarrow> int \<Rightarrow> int" where
  "NormalizeMillis n rawTimeMs =
     (if rawTimeMs \<le> 0 then 0
      else if \<not> Enabled n then rawTimeMs
      else mulDivCeilInt64 rawTimeMs (cn_referenceTimeNs n) (cn_observedTimeNs n))"

definition RawLimitMillis :: "CPUNormalizer \<Rightarrow> int \<Rightarrow> int" where
  "RawLimitMillis n normalizedLimitMs =
     (if normalizedLimitMs \<le> 0 then normalizedLimitMs
      else if \<not> Enabled n then normalizedLimitMs
      else (let raw = mulDivFloorUint64 (word_of_int normalizedLimitMs)
                        (cn_observedTimeNs n) (cn_referenceTimeNs n) in
        if raw = 0 then 1
        else if uint raw > MaxInt64 then MaxInt64
        else uint raw))"

definition WallLimitMillis :: "CPUNormalizer \<Rightarrow> int \<Rightarrow> int" where
  "WallLimitMillis n normalizedLimitMs =
     (if normalizedLimitMs \<le> 0 \<or> \<not> Enabled n then normalizedLimitMs
      else
        (let base64 = word_of_int (max normalizedLimitMs (RawLimitMillis n normalizedLimitMs)) :: u64;
             percentageSlack = mulDivCeilUint64 base64 cpuNormalizationWallSlackPct 100;
             slack = max cpuNormalizationMinWallSlack percentageSlack in
         if base64 > word_of_int MaxInt64 - slack then MaxInt64 else uint (base64 + slack)))"

definition maximumSupportedCPUNormalizer :: CPUNormalizer where
  "maximumSupportedCPUNormalizer =
     \<lparr>cn_method = CPUNormalizationMethod, cn_referenceTimeNs = 1,
      cn_observedTimeNs = cpuNormalizationMaxRatio\<rparr>"

definition MaximumCPUWallLimitMillis :: "int \<Rightarrow> int" where
  "MaximumCPUWallLimitMillis l = WallLimitMillis maximumSupportedCPUNormalizer l"

definition MaximumCPURawLimitMillis :: "int \<Rightarrow> int" where
  "MaximumCPURawLimitMillis l = RawLimitMillis maximumSupportedCPUNormalizer l"

definition Info :: "CPUNormalizer \<Rightarrow> CPUNormalizationInfo option" where
  "Info n =
     (if \<not> Enabled n then None
      else (let scale = mulDivCeilUint64 (cn_referenceTimeNs n) cpuNormalizationScaleUnit (cn_observedTimeNs n);
                scale' = min (uint scale) MaxInt64 in
        Some \<lparr>ci_Method = cn_method n, ci_ScalePPM = scale',
              ci_ReferenceTimeNs = cn_referenceTimeNs n, ci_ObservedTimeNs = cn_observedTimeNs n\<rparr>))"

section \<open>Calibration\<close>

datatype calibration_error =
    SampleCount
  | SampleZero
  | TooFewSamples
  | MedianZero
  | Unstable "u64 list"
  | Attempts
  | CollectorError
  | RemainedUnstable nat
  | ReferenceRange
  | ObservedRange
  | ScaleRange

definition calibrationMedian :: "u64 list \<Rightarrow> calibration_error + u64" where
  "calibrationMedian samples =
     (if samples = [] \<or> length samples mod 2 = 0 then Inl SampleCount
      else if 0 \<in> set samples then Inl SampleZero
      else Inr (sort samples ! (length samples div 2)))"

definition validateCalibrationStability :: "u64 list \<Rightarrow> u64 \<Rightarrow> calibration_error option" where
  "validateCalibrationStability samples median =
     (if length samples < 3 \<or> length samples mod 2 = 0 then Some TooFewSamples
      else if median = 0 then Some MedianZero
      else
        (let ordered = sort samples; middle = length ordered div 2;
             centralSpreadNs = ordered ! (middle + 1) - ordered ! (middle - 1);
             centralSpreadPPM = mulDivCeilUint64 centralSpreadNs cpuNormalizationScaleUnit median in
         reject_if (centralSpreadPPM > cpuCalibrationMaxSpreadPPM) (Unstable samples)))"

text \<open>The collector's answer to attempt number \<open>k\<close> is \<open>collect k\<close>.\<close>

fun calibration_attempts ::
  "(nat \<Rightarrow> calibration_error + u64 list) \<Rightarrow> nat \<Rightarrow> nat \<Rightarrow> nat \<Rightarrow> calibration_error + u64" where
  "calibration_attempts collect maxAttempts attempt 0 = Inl (RemainedUnstable maxAttempts)"
| "calibration_attempts collect maxAttempts attempt (Suc left) =
     and_then (collect attempt) (\<lambda>samples.
       and_then (calibrationMedian samples) (\<lambda>median.
         case validateCalibrationStability samples median of
           Some _ \<Rightarrow> calibration_attempts collect maxAttempts (Suc attempt) left
         | None \<Rightarrow> Inr median))"

definition calibrationMedianWithRetries ::
  "nat \<Rightarrow> (nat \<Rightarrow> calibration_error + u64 list) \<Rightarrow> calibration_error + u64" where
  "calibrationMedianWithRetries maxAttempts collect =
     (if maxAttempts < 1 then Inl Attempts else calibration_attempts collect maxAttempts 1 maxAttempts)"

definition cpuCalibrationMaxAttempts :: nat where "cpuCalibrationMaxAttempts = 5"

definition CalibrateCPU ::
  "(nat \<Rightarrow> calibration_error + u64 list) \<Rightarrow> u64 \<Rightarrow> calibration_error + CPUNormalizer" where
  "CalibrateCPU collect referenceTimeNs =
     (if referenceTimeNs < MinimumCPUCalibrationTimeNs \<or> referenceTimeNs > MaximumCPUCalibrationTimeNs
      then Inl ReferenceRange
      else and_then (calibrationMedianWithRetries cpuCalibrationMaxAttempts collect) (\<lambda>observedTimeNs.
        if observedTimeNs < MinimumCPUCalibrationTimeNs \<or> observedTimeNs > MaximumCPUCalibrationTimeNs
        then Inl ObservedRange
        else if referenceTimeNs > observedTimeNs * cpuNormalizationMaxRatio \<or>
                observedTimeNs > referenceTimeNs * cpuNormalizationMaxRatio
        then Inl ScaleRange
        else (case NewCPUNormalizer CPUNormalizationMethod referenceTimeNs observedTimeNs of
                None \<Rightarrow> Inl ScaleRange
              | Some n \<Rightarrow> Inr n)))"

definition cpuCalibrationWork :: "nat \<Rightarrow> u64" where
  "cpuCalibrationWork iterations =
     foldl (\<lambda>val i.
        let v1 = val XOR push_bit 7 val;
            v2 = v1 XOR drop_bit 9 v1;
            v3 = v2 + (word_of_nat i XOR 0x9e3779b97f4a7c15)
        in word_rotl 13 v3) 0x243f6a8885a308d3 [0..<iterations]"

section \<open>The 128-bit division is exact\<close>

lemma unat_MaxUint64: "unat MaxUint64 = 2 ^ 64 - 1"
  by (simp add: MaxUint64_def unsigned_minus_1_eq_mask mask_eq_exp_minus_1)

lemma unat_Mul64:
  assumes "Mul64 x y = (hi, lo)"
  shows "unat hi * 2 ^ 64 + unat lo = unat x * unat y"
proof -
  have "unat x * unat y < 2 ^ 64 * 2 ^ 64"
    using unsigned_less [of x] unsigned_less [of y] by (intro mult_strict_mono) auto
  then have "unat x * unat y div 2 ^ 64 < 2 ^ 64" by (simp add: div_less_iff_less_mult)
  then have "unat hi = unat x * unat y div 2 ^ 64"
    using assms by (auto simp: Mul64_def unat_of_nat take_bit_nat_eq_self)
  moreover have "unat lo = unat x * unat y mod 2 ^ 64"
    using assms by (auto simp: Mul64_def unat_mult_lem unat_word_ariths)
  ultimately show ?thesis by (metis div_mult_mod_eq)
qed

lemma high_guard:
  assumes "Mul64 x y = (hi, lo)" and "d \<noteq> 0"
  shows "hi \<ge> d \<longleftrightarrow> 2 ^ 64 \<le> unat x * unat y div unat d"
proof -
  have d: "0 < unat d" using assms(2) by (simp add: unat_gt_0)
  have "hi \<ge> d \<longleftrightarrow> unat d \<le> unat hi" by (simp add: word_le_nat_alt)
  also have "\<dots> \<longleftrightarrow> unat d * 2 ^ 64 \<le> unat hi * 2 ^ 64 + unat lo"
  proof -
    have "unat lo < 2 ^ 64" using unsigned_less [of lo] by simp
    then have "unat lo < 18446744073709551616" by simp
    then show ?thesis by (simp, intro iffI) linarith+
  qed
  also have "\<dots> \<longleftrightarrow> 2 ^ 64 * unat d \<le> unat x * unat y"
    by (simp only: unat_Mul64 [OF assms(1)] mult.commute [of "unat d"])
  also have "\<dots> \<longleftrightarrow> 2 ^ 64 \<le> unat x * unat y div unat d"
    using d by (simp add: less_eq_div_iff_mult_less_eq)
  finally show ?thesis .
qed

text \<open>The guard before \<open>bits.Div64\<close> rules out its panic, and the answer is the exact one.\<close>

lemma mulDivUint64_overflow:
  "d = 0 \<or> 2 ^ 64 \<le> unat v * unat m div unat d \<Longrightarrow> mulDivUint64 v m d = (MaxUint64, 0, True)"
  using high_guard [of v m _ _ d]
  by (cases "Mul64 v m") (auto simp: mulDivUint64_def)

lemma mulDivUint64_exact:
  assumes "d \<noteq> 0" and "unat v * unat m div unat d < 2 ^ 64"
  obtains q r where "mulDivUint64 v m d = (q, r, False)"
    and "unat q = unat v * unat m div unat d" and "unat r = unat v * unat m mod unat d"
    and "\<not> Div64_panics (fst (Mul64 v m)) d"
proof -
  obtain hi lo where m: "Mul64 v m = (hi, lo)" by (cases "Mul64 v m")
  have h: "\<not> hi \<ge> d" using high_guard [OF m assms(1)] assms(2) by simp
  have d: "0 < unat d" using assms(1) by (simp add: unat_gt_0)
  let ?q = "word_of_nat (unat v * unat m div unat d) :: u64"
  let ?r = "word_of_nat (unat v * unat m mod unat d) :: u64"
  have "Div64 hi lo d = (?q, ?r)" by (simp only: Div64_def unat_Mul64 [OF m])
  then have "mulDivUint64 v m d = (?q, ?r, False)"
    using assms(1) h by (simp add: mulDivUint64_def m)
  moreover have "unat ?q = unat v * unat m div unat d"
    using assms(2) by (simp add: unat_of_nat take_bit_nat_eq_self)
  moreover have "unat v * unat m mod unat d < 2 ^ 64"
  proof -
    have "unat d < 2 ^ 64" using unsigned_less [of d] by simp
    with mod_less_divisor [OF d] show ?thesis by (rule less_trans)
  qed
  then have "unat ?r = unat v * unat m mod unat d"
    by (simp add: unat_of_nat take_bit_nat_eq_self)
  moreover have "\<not> Div64_panics (fst (Mul64 v m)) d" using h assms(1) m by (simp add: Div64_panics_def)
  ultimately show ?thesis using that by blast
qed

lemma unat_mulDivFloorUint64:
  assumes "d \<noteq> 0"
  shows "unat (mulDivFloorUint64 v m d) = min (unat v * unat m div unat d) (2 ^ 64 - 1)"
proof (cases "unat v * unat m div unat d < 2 ^ 64")
  case True
  from mulDivUint64_exact [OF assms True] obtain q r where
    "mulDivUint64 v m d = (q, r, False)" "unat q = unat v * unat m div unat d" by metis
  with True show ?thesis by (simp add: mulDivFloorUint64_def)
next
  case False
  then show ?thesis using mulDivUint64_overflow [of d v m]
    by (simp add: mulDivFloorUint64_def unat_MaxUint64)
qed

text \<open>The division that rounds up.\<close>

definition ceil_div :: "nat \<Rightarrow> nat \<Rightarrow> nat" where
  "ceil_div a d = (a + d - 1) div d"

lemma ceil_div_mod:
  "0 < d \<Longrightarrow> ceil_div a d = a div d + (if a mod d = 0 then 0 else 1)"
proof -
  assume d: "0 < d"
  have "ceil_div a d = (a div d * d + (a mod d + d - 1)) div d"
    using d by (simp add: ceil_div_def)
  also have "\<dots> = a div d + (a mod d + d - 1) div d" using d by (subst div_mult_self3) auto
  also have "(a mod d + d - 1) div d = (if a mod d = 0 then 0 else 1)"
    using d mod_less_divisor [OF d, of a] by (auto simp: div_eq_0_iff intro!: div_nat_eqI)
  finally show ?thesis .
qed

lemma ceil_div_le_iff: "0 < d \<Longrightarrow> ceil_div a d \<le> b \<longleftrightarrow> a \<le> b * d"
proof -
  assume d: "0 < d"
  have "ceil_div a d \<le> b \<longleftrightarrow> (a + d - 1) div d < Suc b" by (simp add: ceil_div_def less_Suc_eq_le)
  also have "\<dots> \<longleftrightarrow> a + d - 1 < Suc b * d" using d by (simp add: div_less_iff_less_mult)
  also have "\<dots> \<longleftrightarrow> a \<le> b * d" using d by auto
  finally show ?thesis .
qed

lemma unat_mulDivCeilUint64:
  assumes "d \<noteq> 0"
  shows "unat (mulDivCeilUint64 v m d) = min (ceil_div (unat v * unat m) (unat d)) (2 ^ 64 - 1)"
proof -
  have d: "0 < unat d" using assms by (simp add: unat_gt_0)
  show ?thesis
  proof (cases "unat v * unat m div unat d < 2 ^ 64")
    case True
    from mulDivUint64_exact [OF assms True] obtain q r where
      md: "mulDivUint64 v m d = (q, r, False)" and q: "unat q = unat v * unat m div unat d"
      and r: "unat r = unat v * unat m mod unat d" by metis
    have "r = 0 \<longleftrightarrow> unat v * unat m mod unat d = 0" by (simp add: r [symmetric] unat_eq_zero)
    moreover have "unat (q + 1) = unat q + 1" if "q \<noteq> MaxUint64"
      using that by (metis MaxUint64_def Suc_eq_plus1 add.commute add_eq_0_iff unatSuc)
    moreover have "q = MaxUint64 \<longleftrightarrow> unat q = 2 ^ 64 - 1"
      by (metis unat_MaxUint64 word_unat_eq_iff)
    ultimately show ?thesis
      using True q by (auto simp: mulDivCeilUint64_def md ceil_div_mod [OF d] unat_MaxUint64)
  next
    case False
    then have "2 ^ 64 \<le> ceil_div (unat v * unat m) (unat d)" by (simp add: ceil_div_mod [OF d])
    with False show ?thesis using mulDivUint64_overflow [of d v m]
      by (simp add: mulDivCeilUint64_def unat_MaxUint64)
  qed
qed

section \<open>Limits and measurements meet at one boundary\<close>

lemma unat_u64: "unat (x :: u64) < 2 ^ 64"
  using unsigned_less [of x] by simp

lemma unat_nanosecondsPerMillisecond [simp]: "unat nanosecondsPerMillisecond = 10 ^ 6"
  by (simp add: nanosecondsPerMillisecond_def)

lemma unat_of_limit: "0 \<le> l \<Longrightarrow> l < 2 ^ 64 \<Longrightarrow> unat (word_of_int l :: u64) = nat l"
  by (simp add: unsigned_of_int take_bit_int_eq_self nat_eq_iff)

lemma ratio_pos: "fst (ratio n) \<noteq> 0" "snd (ratio n) \<noteq> 0"
  by (auto simp: ratio_def Enabled_def word_gt_0)

lemma unat_pos: "x \<noteq> 0 \<Longrightarrow> 0 < unat x"
  by (simp add: unat_gt_0)

text \<open>The reference and the observed time in force, as numbers.\<close>

definition ref_ns :: "CPUNormalizer \<Rightarrow> nat" where "ref_ns n = unat (fst (ratio n))"
definition obs_ns :: "CPUNormalizer \<Rightarrow> nat" where "obs_ns n = unat (snd (ratio n))"

lemma ref_obs_pos [simp]: "0 < ref_ns n" "0 < obs_ns n"
  using ratio_pos [of n] unat_pos [of "fst (ratio n)"] unat_pos [of "snd (ratio n)"]
  by (simp_all add: ref_ns_def obs_ns_def)

lemma ref_obs_enabled:
  "Enabled n \<Longrightarrow> ref_ns n = unat (cn_referenceTimeNs n)" "Enabled n \<Longrightarrow> obs_ns n = unat (cn_observedTimeNs n)"
  "\<not> Enabled n \<Longrightarrow> ref_ns n = 1" "\<not> Enabled n \<Longrightarrow> obs_ns n = 1"
  by (simp_all add: ref_ns_def obs_ns_def ratio_def)

lemma NormalizeNanoseconds_exact:
  "unat (NormalizeNanoseconds n raw) = min (ceil_div (unat raw * ref_ns n) (obs_ns n)) (2 ^ 64 - 1)"
proof (cases "Enabled n")
  case True
  then have "cn_observedTimeNs n \<noteq> 0" by (auto simp: Enabled_def)
  with True show ?thesis
    using unat_mulDivCeilUint64 by (simp add: NormalizeNanoseconds_def ref_obs_enabled)
next
  case False
  have "unat raw \<le> 2 ^ 64 - 1" using unat_u64 [of raw] by simp
  with False show ?thesis by (simp add: NormalizeNanoseconds_def ref_obs_enabled ceil_div_def)
qed

lemma scaled_div:
  fixes a r :: nat
  assumes "0 < r"
  shows "a * k div r = a div r * k + (a mod r) * k div r"
proof -
  have "a * k = (a div r * r + a mod r) * k" by simp
  also have "\<dots> = r * (a div r * k) + (a mod r) * k"
    by (subst distrib_right) (simp only: ac_simps)
  finally show ?thesis using assms by simp
qed

lemma RawLimitNanoseconds_exact:
  assumes "0 < l" and "l < 2 ^ 63"
  shows "unat (RawLimitNanoseconds n l) = min (nat l * 10 ^ 6 * obs_ns n div ref_ns n) (2 ^ 64 - 1)"
proof -
  obtain ref obs where ro: "ratio n = (ref, obs)" by (cases "ratio n")
  let ?L = "nat l" and ?o = "unat obs" and ?r = "unat ref"
  have r0: "ref \<noteq> 0" "0 < ?r" using ratio_pos(1) [of n] ro unat_pos by auto
  have L: "unat (word_of_int l :: u64) = ?L" using assms by (intro unat_of_limit) auto
  have split: "?L * 10 ^ 6 * ?o div ?r = ?L * ?o div ?r * 10 ^ 6 + (?L * ?o mod ?r) * 10 ^ 6 div ?r"
    using scaled_div [OF r0(2), of "?L * ?o" "10 ^ 6"] by (simp add: mult.assoc mult.commute mult.left_commute)
  have "unat (RawLimitNanoseconds n l) = min (?L * 10 ^ 6 * ?o div ?r) (2 ^ 64 - 1)"
  proof (cases "?L * ?o div ?r < 2 ^ 64")
    case False
    then have "mulDivUint64 (word_of_int l) obs ref = (MaxUint64, 0, True)"
      by (intro mulDivUint64_overflow) (simp add: L)
    then have "RawLimitNanoseconds n l = MaxUint64"
      using assms by (simp add: RawLimitNanoseconds_def ro)
    moreover have "(2 :: nat) ^ 64 \<le> w * 10 ^ 6 + x" if "2 ^ 64 \<le> w" for w x :: nat
      using that by simp
    then have "2 ^ 64 \<le> ?L * 10 ^ 6 * ?o div ?r" unfolding split using False by (simp add: not_less)
    ultimately show ?thesis by (simp add: unat_MaxUint64)
  next
    case True
    from mulDivUint64_exact [of ref "word_of_int l" obs] r0(1) True L obtain W R where
      md: "mulDivUint64 (word_of_int l) obs ref = (W, R, False)"
      and W: "unat W = ?L * ?o div ?r" and R: "unat R = ?L * ?o mod ?r" by metis
    let ?F = "unat R * 10 ^ 6 div ?r"
    have Rr: "unat R < ?r" using R r0(2) by simp
    have "unat R * 10 ^ 6 < 10 ^ 6 * ?r" using Rr by simp
    then have F6: "?F < 10 ^ 6" by (simp add: div_less_iff_less_mult r0(2))
    then have F: "unat (mulDivFloorUint64 R nanosecondsPerMillisecond ref) = ?F"
      using unat_mulDivFloorUint64 [OF r0(1), of R nanosecondsPerMillisecond] by simp
    have goal: "?L * 10 ^ 6 * ?o div ?r = unat W * 10 ^ 6 + ?F" using split W R by simp
    have guard: "W > MaxUint64 div nanosecondsPerMillisecond \<longleftrightarrow> 2 ^ 64 - 1 < unat W * 10 ^ 6"
    proof -
      have "W > MaxUint64 div nanosecondsPerMillisecond \<longleftrightarrow> (2 ^ 64 - 1) div 10 ^ 6 < unat W"
        by (simp add: word_less_nat_alt unat_div unat_MaxUint64)
      also have "\<dots> \<longleftrightarrow> 2 ^ 64 - 1 < unat W * 10 ^ 6" by (rule div_less_iff_less_mult) simp
      finally show ?thesis .
    qed
    show ?thesis
    proof (cases "2 ^ 64 - 1 < unat W * 10 ^ 6")
      case True
      then have "RawLimitNanoseconds n l = MaxUint64"
        using assms md guard by (simp add: RawLimitNanoseconds_def ro)
      with True goal show ?thesis by (simp add: unat_MaxUint64)
    next
      case False
      let ?w = "W * nanosecondsPerMillisecond" and ?f = "mulDivFloorUint64 R nanosecondsPerMillisecond ref"
      have w: "unat ?w = unat W * 10 ^ 6"
        using False by (subst unat_mult_lem [THEN iffD1]) simp_all
      have sub: "unat (MaxUint64 - ?w) = 2 ^ 64 - 1 - unat W * 10 ^ 6"
        using False w by (subst unat_sub) (simp_all add: word_le_nat_alt unat_MaxUint64)
      have res: "RawLimitNanoseconds n l = (if ?f > MaxUint64 - ?w then MaxUint64 else ?w + ?f)"
        using assms md guard False by (simp add: RawLimitNanoseconds_def ro Let_def)
      have cond: "?f > MaxUint64 - ?w \<longleftrightarrow> 2 ^ 64 - 1 < unat W * 10 ^ 6 + ?F"
        using False by (simp add: word_less_nat_alt sub F) linarith
      have sum: "unat (?w + ?f) = unat W * 10 ^ 6 + ?F" if "\<not> 2 ^ 64 - 1 < unat W * 10 ^ 6 + ?F"
        using that w F by (subst unat_add_lem [THEN iffD1]) simp_all
      show ?thesis using res cond sum goal by (auto simp: unat_MaxUint64)
    qed
  qed
  then show ?thesis using ro by (simp add: ref_ns_def obs_ns_def)
qed

lemma normalize_boundary:
  assumes "0 < l" and "l < 2 ^ 63" and "nat l * 10 ^ 6 < 2 ^ 64 - 1"
  shows "unat (NormalizeNanoseconds n raw) \<le> nat l * 10 ^ 6 \<longleftrightarrow> raw \<le> RawLimitNanoseconds n l"
proof -
  have "unat (NormalizeNanoseconds n raw) \<le> nat l * 10 ^ 6 \<longleftrightarrow>
        ceil_div (unat raw * ref_ns n) (obs_ns n) \<le> nat l * 10 ^ 6"
    using assms(3) by (simp add: NormalizeNanoseconds_exact min_le_iff_disj)
  also have "\<dots> \<longleftrightarrow> unat raw * ref_ns n \<le> nat l * 10 ^ 6 * obs_ns n"
    by (rule ceil_div_le_iff) simp
  also have "\<dots> \<longleftrightarrow> unat raw \<le> nat l * 10 ^ 6 * obs_ns n div ref_ns n"
    by (simp add: less_eq_div_iff_mult_less_eq)
  also have "\<dots> \<longleftrightarrow> unat raw \<le> unat (RawLimitNanoseconds n l)"
    using unat_u64 [of raw] by (auto simp: RawLimitNanoseconds_exact [OF assms(1,2)])
  finally show ?thesis by (simp add: word_le_nat_alt)
qed

section \<open>Whole milliseconds\<close>

lemma RawLimitMillis_exact:
  assumes "Enabled n" and "0 < l" and "l < 2 ^ 63"
  shows "RawLimitMillis n l =
    (if nat l * obs_ns n div ref_ns n = 0 then 1
     else int (min (nat l * obs_ns n div ref_ns n) (2 ^ 63 - 1)))"
proof -
  let ?q = "nat l * obs_ns n div ref_ns n"
  let ?m = "mulDivFloorUint64 (word_of_int l) (cn_observedTimeNs n) (cn_referenceTimeNs n)"
  have "cn_referenceTimeNs n \<noteq> 0" using assms(1) by (auto simp: Enabled_def)
  then have q: "unat ?m = min ?q (2 ^ 64 - 1)"
    using unat_mulDivFloorUint64 [of "cn_referenceTimeNs n" "word_of_int l" "cn_observedTimeNs n"]
      unat_of_limit [of l] assms by (simp add: ref_obs_enabled)
  have u: "uint ?m = int (min ?q (2 ^ 64 - 1))" by (simp only: uint_nat q)
  have z: "?m = 0 \<longleftrightarrow> ?q = 0"
  proof -
    have "?m = 0 \<longleftrightarrow> unat ?m = 0" by (simp add: unat_eq_zero)
    also have "\<dots> \<longleftrightarrow> ?q = 0" unfolding q by (auto simp: min_def)
    finally show ?thesis .
  qed
  show ?thesis
  proof (cases "?q = 0")
    case True
    then show ?thesis using assms z by (simp add: RawLimitMillis_def)
  next
    case False
    then have "RawLimitMillis n l = (if uint ?m > MaxInt64 then MaxInt64 else uint ?m)"
      using assms z by (simp add: RawLimitMillis_def)
    then show ?thesis using False by (simp add: u MaxInt64_def)
  qed
qed

lemma NormalizeMillis_exact:
  assumes "Enabled n" and "0 < raw" and "raw < 2 ^ 63"
  shows "NormalizeMillis n raw = int (min (ceil_div (nat raw * ref_ns n) (obs_ns n)) (2 ^ 63 - 1))"
proof -
  have nz: "cn_referenceTimeNs n \<noteq> 0" "cn_observedTimeNs n \<noteq> 0" using assms(1) by (auto simp: Enabled_def)
  let ?m = "mulDivCeilUint64 (word_of_int raw) (cn_referenceTimeNs n) (cn_observedTimeNs n)"
  have m: "unat ?m = min (ceil_div (nat raw * ref_ns n) (obs_ns n)) (2 ^ 64 - 1)"
    using unat_mulDivCeilUint64 [OF nz(2), of "word_of_int raw" "cn_referenceTimeNs n"]
      unat_of_limit [of raw] assms by (simp add: ref_obs_enabled)
  have u: "uint ?m = int (min (ceil_div (nat raw * ref_ns n) (obs_ns n)) (2 ^ 64 - 1))"
    by (simp only: uint_nat m)
  have "NormalizeMillis n raw = (if uint ?m > MaxInt64 then MaxInt64 else uint ?m)"
    using assms nz by (simp add: NormalizeMillis_def mulDivCeilInt64_def)
  then show ?thesis by (simp add: u MaxInt64_def)
qed

lemma millis_boundary:
  assumes n: "Enabled n" and l: "0 < l" "l < 2 ^ 63 - 1" and raw: "0 < raw" "raw < 2 ^ 63"
    and r: "ref_ns n \<le> nat l * obs_ns n"
  shows "NormalizeMillis n raw \<le> l \<longleftrightarrow> raw \<le> RawLimitMillis n l"
proof -
  have q: "nat l * obs_ns n div ref_ns n \<noteq> 0"
    using r ref_obs_pos(1) [of n] by (simp add: div_eq_0_iff)
  have "NormalizeMillis n raw \<le> l \<longleftrightarrow> ceil_div (nat raw * ref_ns n) (obs_ns n) \<le> nat l"
    using l by (auto simp: NormalizeMillis_exact [OF n raw] min_def)
  also have "\<dots> \<longleftrightarrow> nat raw * ref_ns n \<le> nat l * obs_ns n" by (rule ceil_div_le_iff) simp
  also have "\<dots> \<longleftrightarrow> nat raw \<le> nat l * obs_ns n div ref_ns n" by (simp add: less_eq_div_iff_mult_less_eq)
  also have "\<dots> \<longleftrightarrow> raw \<le> RawLimitMillis n l"
    using l raw q by (auto simp: RawLimitMillis_exact [OF n l(1)] min_def)
  finally show ?thesis .
qed

text \<open>Where the raw allowance is below a millisecond, the two sides disagree about one millisecond.\<close>

lemma millis_boundary_fails:
  assumes n: "Enabled n" and l: "0 < l" "l < 2 ^ 63 - 1" and r: "nat l * obs_ns n < ref_ns n"
  shows "RawLimitMillis n l = 1" and "l < NormalizeMillis n 1"
proof -
  show "RawLimitMillis n l = 1" using r l by (simp add: RawLimitMillis_exact [OF n])
  have "\<not> ceil_div (1 * ref_ns n) (obs_ns n) \<le> nat l" using r by (subst ceil_div_le_iff) simp_all
  then show "l < NormalizeMillis n 1" using l by (simp add: NormalizeMillis_exact [OF n] min_def) linarith
qed

section \<open>The wall-clock guardrail\<close>

text \<open>The allowance with its slack: a tenth, rounded up, and at least 100 ms.\<close>

definition with_slack :: "nat \<Rightarrow> nat" where
  "with_slack b = min (b + max 100 (ceil_div (b * 10) 100)) (2 ^ 63 - 1)"

lemma ceil_div_mono: "a \<le> b \<Longrightarrow> ceil_div a d \<le> ceil_div b d"
  by (simp add: ceil_div_def div_le_mono)

lemma with_slack_mono: "a \<le> b \<Longrightarrow> with_slack a \<le> with_slack b"
  using ceil_div_mono [of "a * 10" "b * 10" 100] by (auto simp: with_slack_def)

lemma RawLimitMillis_bounds: "0 < l \<Longrightarrow> l < 2 ^ 63 \<Longrightarrow> 1 \<le> RawLimitMillis n l \<and> RawLimitMillis n l < 2 ^ 63"
proof (cases "Enabled n")
  case True
  assume "0 < l" "l < 2 ^ 63"
  then show ?thesis by (auto simp: RawLimitMillis_exact [OF True])
qed (simp add: RawLimitMillis_def)

lemma int_min_MaxInt64: "int (min a (2 ^ 63 - 1)) = (if 2 ^ 63 - 1 < a then MaxInt64 else int a)"
proof (cases "2 ^ 63 - 1 < a")
  case True
  then have "min a (2 ^ 63 - 1) = 2 ^ 63 - 1" by simp
  with True show ?thesis by (simp add: MaxInt64_def)
next
  case False
  then show ?thesis by simp
qed

lemma WallLimitMillis_exact:
  assumes "Enabled n" and "0 < l" and "l < 2 ^ 63"
  shows "WallLimitMillis n l = int (with_slack (nat (max l (RawLimitMillis n l))))"
proof -
  let ?b = "max l (RawLimitMillis n l)" and ?w = "word_of_int (max l (RawLimitMillis n l)) :: u64"
  have b: "0 < ?b" "?b < 2 ^ 63" using assms RawLimitMillis_bounds [of l n] by auto
  have w: "unat ?w = nat ?b" using b by (intro unat_of_limit) auto
  let ?p = "mulDivCeilUint64 ?w cpuNormalizationWallSlackPct 100"
  let ?c = "ceil_div (nat ?b * 10) 100"
  have c: "?c \<le> 2 ^ 60" using b by (subst ceil_div_le_iff) auto
  have p: "unat ?p = ?c"
    using unat_mulDivCeilUint64 [of 100 ?w cpuNormalizationWallSlackPct] w c
    by (simp add: cpuNormalizationWallSlackPct_def)
  let ?s = "max cpuNormalizationMinWallSlack ?p"
  have s: "unat ?s = max 100 ?c"
    using p by (auto simp: max_def word_le_nat_alt cpuNormalizationMinWallSlack_def)
  have m: "unat (word_of_int MaxInt64 :: u64) = 2 ^ 63 - 1"
    using unat_of_limit [of MaxInt64] by (simp add: MaxInt64_def)
  have sub: "unat (word_of_int MaxInt64 - ?s) = 2 ^ 63 - 1 - max 100 ?c"
    using s m c by (subst unat_sub) (auto simp: word_le_nat_alt)
  have add: "unat (?w + ?s) = nat ?b + max 100 ?c"
  proof -
    have "max 100 ?c \<le> 2 ^ 60" "nat ?b < 2 ^ 63" using b c by auto
    then have "unat ?w + unat ?s < 2 ^ LENGTH(64)" by (simp add: s w)
    then show ?thesis using s w by (simp add: unat_add_lem [THEN iffD1])
  qed
  have cond: "?w > word_of_int MaxInt64 - ?s \<longleftrightarrow> 2 ^ 63 - 1 < nat ?b + max 100 ?c"
  proof -
    have "max 100 ?c \<le> 2 ^ 63 - 1" using c by auto
    then show ?thesis unfolding word_less_nat_alt sub w by (rule less_diff_conv2)
  qed
  have u: "uint (?w + ?s) = int (nat ?b + max 100 ?c)" by (simp only: uint_nat add)
  have "WallLimitMillis n l = (if ?w > word_of_int MaxInt64 - ?s then MaxInt64 else uint (?w + ?s))"
    using assms by (simp add: WallLimitMillis_def Let_def)
  then show ?thesis unfolding cond u with_slack_def int_min_MaxInt64 .
qed

lemma WallLimitMillis_covers:
  assumes "0 < l" and "l < 2 ^ 63"
  shows "l \<le> WallLimitMillis n l \<and> RawLimitMillis n l \<le> WallLimitMillis n l"
proof (cases "Enabled n")
  case True
  have "nat (max l (RawLimitMillis n l)) \<le> with_slack (nat (max l (RawLimitMillis n l)))"
    using assms RawLimitMillis_bounds [OF assms, of n] by (auto simp: with_slack_def)
  then show ?thesis using WallLimitMillis_exact [OF True assms] by linarith
qed (simp add: WallLimitMillis_def RawLimitMillis_def)

lemma maximumSupported:
  "Enabled maximumSupportedCPUNormalizer" "ref_ns maximumSupportedCPUNormalizer = 1"
  "obs_ns maximumSupportedCPUNormalizer = 4"
  by (simp_all add: maximumSupportedCPUNormalizer_def Enabled_def ref_ns_def obs_ns_def ratio_def
      CPUNormalizationMethod_def cpuNormalizationMaxRatio_def)

lemma supported_bound:
  assumes "obs_ns n \<le> 4 * ref_ns n" and "0 < l" and "l < 2 ^ 63"
  shows "RawLimitMillis n l \<le> MaximumCPURawLimitMillis l"
    and "WallLimitMillis n l \<le> MaximumCPUWallLimitMillis l"
proof -
  have max: "MaximumCPURawLimitMillis l = int (min (nat l * 4) (2 ^ 63 - 1))"
    using assms(2,3) maximumSupported
    by (simp add: MaximumCPURawLimitMillis_def RawLimitMillis_exact)
  show raw: "RawLimitMillis n l \<le> MaximumCPURawLimitMillis l"
  proof (cases "Enabled n")
    case True
    have "nat l * obs_ns n \<le> nat l * 4 * ref_ns n" using assms(1) by (simp add: mult.assoc)
    from div_le_mono [OF this, of "ref_ns n"] have "nat l * obs_ns n div ref_ns n \<le> nat l * 4"
      using ref_obs_pos(1) [of n] by simp
    then show ?thesis using assms(2,3) max by (auto simp: RawLimitMillis_exact [OF True])
  next
    case False
    then show ?thesis using assms(2,3) max by (simp add: RawLimitMillis_def)
  qed
  show "WallLimitMillis n l \<le> MaximumCPUWallLimitMillis l"
  proof (cases "Enabled n")
    case True
    have "nat (max l (RawLimitMillis n l)) \<le>
        nat (max l (RawLimitMillis maximumSupportedCPUNormalizer l))"
      using raw by (auto simp: MaximumCPURawLimitMillis_def)
    then show ?thesis
      using with_slack_mono WallLimitMillis_exact assms(2,3) True maximumSupported(1)
      by (simp add: MaximumCPUWallLimitMillis_def)
  next
    case False
    then show ?thesis
      using WallLimitMillis_covers [OF assms(2,3), of maximumSupportedCPUNormalizer]
      by (simp add: MaximumCPUWallLimitMillis_def WallLimitMillis_def)
  qed
qed

section \<open>Calibration\<close>

text \<open>
  Stability of a sample set, in exact arithmetic: an odd number of at least three samples, and the distance between the two neighbours of the
  median is at most a tenth of the median.
\<close>

definition stable_samples :: "u64 list \<Rightarrow> u64 \<Rightarrow> bool" where
  "stable_samples xs m \<longleftrightarrow> 3 \<le> length xs \<and> odd (length xs) \<and> 0 < unat m \<and>
     10 * (unat (sort xs ! (length xs div 2 + 1)) - unat (sort xs ! (length xs div 2 - 1))) \<le> unat m"

lemma sort_middle:
  fixes xs :: "u64 list"
  assumes "3 \<le> length xs" and "odd (length xs)"
  shows "sort xs ! (length xs div 2 - 1) \<le> sort xs ! (length xs div 2 + 1)"
proof -
  have "length xs div 2 + 1 < length (sort xs)" using assms unfolding length_sort by presburger
  then show ?thesis by (intro sorted_nth_mono) simp_all
qed

lemma ceil_ppm: "0 < m \<Longrightarrow> ceil_div (x * 1000000) m \<le> 100000 \<longleftrightarrow> 10 * x \<le> m"
  using ceil_div_le_iff [of m "x * 1000000" 100000] by simp

lemma validateCalibrationStability_iff:
  "validateCalibrationStability xs m = None \<longleftrightarrow> stable_samples xs m"
proof (cases "3 \<le> length xs \<and> odd (length xs) \<and> m \<noteq> 0")
  case True
  let ?a = "sort xs ! (length xs div 2 - 1)" and ?b = "sort xs ! (length xs div 2 + 1)"
  let ?p = "mulDivCeilUint64 (?b - ?a) cpuNormalizationScaleUnit m"
  have m: "0 < unat m" using True by (simp add: unat_gt_0)
  have "unat (?b - ?a) = unat ?b - unat ?a"
    using sort_middle True by (intro unat_sub) simp
  then have "unat ?p = min (ceil_div ((unat ?b - unat ?a) * 1000000) (unat m)) (2 ^ 64 - 1)"
    using True by (simp add: unat_mulDivCeilUint64 cpuNormalizationScaleUnit_def)
  moreover have "min (c :: nat) (2 ^ 64 - 1) \<le> 100000 \<longleftrightarrow> c \<le> 100000" for c by (simp add: min_le_iff_disj)
  ultimately have "?p \<le> cpuCalibrationMaxSpreadPPM \<longleftrightarrow> 10 * (unat ?b - unat ?a) \<le> unat m"
    using ceil_ppm [OF m] by (simp only: word_le_nat_alt cpuCalibrationMaxSpreadPPM_def) simp
  then have "cpuCalibrationMaxSpreadPPM < ?p \<longleftrightarrow> \<not> 10 * (unat ?b - unat ?a) \<le> unat m" by (simp only: not_le [symmetric])
  then show ?thesis using True m
    by (simp add: validateCalibrationStability_def stable_samples_def Let_def reject_if_def even_iff_mod_2_eq_zero)
next
  case False
  then show ?thesis
    by (auto simp: validateCalibrationStability_def stable_samples_def unat_gt_0 even_iff_mod_2_eq_zero)
qed

text \<open>The first stable attempt answers; all attempts before it were collected and are not stable.\<close>

lemma calibration_attempts_Inr:
  assumes "calibration_attempts collect m k left = Inr median"
  shows "\<exists>j samples. k \<le> j \<and> j < k + left \<and> collect j = Inr samples \<and>
    calibrationMedian samples = Inr median \<and> stable_samples samples median \<and>
    (\<forall>i. k \<le> i \<and> i < j \<longrightarrow> (\<exists>xs md. collect i = Inr xs \<and> calibrationMedian xs = Inr md \<and> \<not> stable_samples xs md))"
  using assms
proof (induction collect m k left rule: calibration_attempts.induct)
  case (2 collect m k left)
  then obtain samples md where c: "collect k = Inr samples" "calibrationMedian samples = Inr md"
    by (auto simp: and_then_Inr_iff)
  show ?case
  proof (cases "validateCalibrationStability samples md")
    case None
    with 2(2) c show ?thesis
      by (intro exI [of _ k] exI [of _ samples]) (auto simp: validateCalibrationStability_iff)
  next
    case (Some e)
    then have ns: "\<not> stable_samples samples md" by (simp flip: validateCalibrationStability_iff)
    from Some 2(2) c have "calibration_attempts collect m (Suc k) left = Inr median" by simp
    from 2(1) [OF Some this] obtain j xs where j: "Suc k \<le> j" "j < Suc k + left" "collect j = Inr xs"
      "calibrationMedian xs = Inr median" "stable_samples xs median"
      and before: "\<forall>i. Suc k \<le> i \<and> i < j \<longrightarrow> (\<exists>xs md. collect i = Inr xs \<and> calibrationMedian xs = Inr md \<and> \<not> stable_samples xs md)"
      by blast
    have "\<exists>xs md. collect i = Inr xs \<and> calibrationMedian xs = Inr md \<and> \<not> stable_samples xs md" if "k \<le> i" "i < j" for i
      using that before c ns by (cases "i = k") auto
    then show ?thesis using j by (intro exI [of _ j] exI [of _ xs]) auto
  qed
qed simp

lemma sort_positions:
  fixes xs :: "u64 list"
  assumes "h < length xs"
  shows "length (filter (\<lambda>x. x < sort xs ! h) xs) \<le> h"
    and "length (filter (\<lambda>x. sort xs ! h < x) xs) \<le> length xs - Suc h"
proof -
  let ?s = "sort xs"
  have eq: "length (filter P xs) = card {i. i < length ?s \<and> P (?s ! i)}" for P
  proof -
    have "length (filter P xs) = length (filter P ?s)" by (simp add: filter_sort)
    then show ?thesis by (simp only: length_filter_conv_card)
  qed
  have mono: "i \<le> j \<Longrightarrow> j < length ?s \<Longrightarrow> ?s ! i \<le> ?s ! j" for i j
    by (rule sorted_nth_mono) simp_all
  have "{i. i < length ?s \<and> ?s ! i < ?s ! h} \<subseteq> {..<h}"
    using mono assms by (force simp: not_less [symmetric])
  from card_mono [OF _ this] show "length (filter (\<lambda>x. x < ?s ! h) xs) \<le> h" by (simp add: eq)
  have "{i. i < length ?s \<and> ?s ! h < ?s ! i} \<subseteq> {Suc h..<length ?s}"
    using mono assms by (auto simp: Suc_le_eq) (metis length_sort not_le not_less)
  from card_mono [OF _ this] show "length (filter (\<lambda>x. ?s ! h < x) xs) \<le> length xs - Suc h"
    by (simp add: eq)
qed

text \<open>The median: one of the samples, with at most half of them below and at most half above.\<close>

definition is_median :: "u64 list \<Rightarrow> u64 \<Rightarrow> bool" where
  "is_median xs m \<longleftrightarrow> m \<in> set xs \<and>
     length (filter (\<lambda>x. x < m) xs) \<le> length xs div 2 \<and>
     length (filter (\<lambda>x. m < x) xs) \<le> length xs div 2"

lemma calibrationMedian_is_median: "calibrationMedian xs = Inr m \<Longrightarrow> is_median xs m \<and> 0 \<notin> set xs"
proof -
  assume "calibrationMedian xs = Inr m"
  then have x: "xs \<noteq> []" "odd (length xs)" "0 \<notin> set xs" and m: "m = sort xs ! (length xs div 2)"
    by (auto simp: calibrationMedian_def even_iff_mod_2_eq_zero split: if_splits)
  have h: "length xs div 2 < length xs" using x(1) by simp
  have "m \<in> set (sort xs)" unfolding m using h by (intro nth_mem) simp
  moreover have "length xs - Suc (length xs div 2) = length xs div 2" using x(2) by presburger
  ultimately show ?thesis using sort_positions [OF h] x(3) by (simp add: is_median_def m)
qed

lemma CalibrateCPU_ratio:
  assumes "CalibrateCPU collect reference = Inr n"
  shows "Enabled n" and "ref_ns n \<le> 4 * obs_ns n" and "obs_ns n \<le> 4 * ref_ns n"
    and "cn_referenceTimeNs n = reference"
    and "\<exists>j samples. 1 \<le> j \<and> j \<le> 5 \<and> collect j = Inr samples \<and> is_median samples (cn_observedTimeNs n) \<and>
      stable_samples samples (cn_observedTimeNs n) \<and>
      (\<forall>i. 1 \<le> i \<and> i < j \<longrightarrow> (\<exists>xs m. collect i = Inr xs \<and> is_median xs m \<and> \<not> stable_samples xs m))"
proof -
  from assms obtain obs where
    o: "calibrationMedianWithRetries cpuCalibrationMaxAttempts collect = Inr obs"
    and range: "reference \<ge> MinimumCPUCalibrationTimeNs" "reference \<le> MaximumCPUCalibrationTimeNs"
      "obs \<ge> MinimumCPUCalibrationTimeNs" "obs \<le> MaximumCPUCalibrationTimeNs"
    and ratios: "reference \<le> obs * cpuNormalizationMaxRatio" "obs \<le> reference * cpuNormalizationMaxRatio"
    and new: "NewCPUNormalizer CPUNormalizationMethod reference obs = Some n"
    by (auto simp: CalibrateCPU_def and_then_Inr_iff not_less split: if_splits option.splits)
  from new have n: "n = \<lparr>cn_method = CPUNormalizationMethod, cn_referenceTimeNs = reference,
      cn_observedTimeNs = obs\<rparr>" and pos: "reference \<noteq> 0" "obs \<noteq> 0"
    by (auto simp: NewCPUNormalizer_def split: if_splits)
  show en: "Enabled n" using pos by (simp add: n Enabled_def CPUNormalizationMethod_def word_gt_0)
  have mult: "unat (x * cpuNormalizationMaxRatio) = unat x * 4" if "x \<le> MaximumCPUCalibrationTimeNs" for x
  proof -
    have "unat x \<le> 5000000000"
      using that by (simp add: word_le_nat_alt MaximumCPUCalibrationTimeNs_def)
    then show ?thesis
      by (subst unat_mult_lem [THEN iffD1]) (simp_all add: cpuNormalizationMaxRatio_def)
  qed
  show "ref_ns n \<le> 4 * obs_ns n" "obs_ns n \<le> 4 * ref_ns n"
    using ratios mult range by (simp_all add: ref_obs_enabled(1,2) [OF en] word_le_nat_alt) (simp_all add: n)
  show "cn_referenceTimeNs n = reference" by (simp add: n)
  from o have "calibration_attempts collect 5 1 5 = Inr obs"
    by (simp add: calibrationMedianWithRetries_def cpuCalibrationMaxAttempts_def del: calibration_attempts.simps)
  from calibration_attempts_Inr [OF this] obtain j samples where
    j: "1 \<le> j" "j < 1 + 5" "collect j = Inr samples" "calibrationMedian samples = Inr obs" "stable_samples samples obs"
    and before: "\<forall>i. 1 \<le> i \<and> i < j \<longrightarrow> (\<exists>xs md. collect i = Inr xs \<and> calibrationMedian xs = Inr md \<and> \<not> stable_samples xs md)"
    by blast
  have "\<exists>xs m. collect i = Inr xs \<and> is_median xs m \<and> \<not> stable_samples xs m" if "1 \<le> i" "i < j" for i
    using that before calibrationMedian_is_median by blast
  then show "\<exists>j samples. 1 \<le> j \<and> j \<le> 5 \<and> collect j = Inr samples \<and> is_median samples (cn_observedTimeNs n) \<and>
      stable_samples samples (cn_observedTimeNs n) \<and>
      (\<forall>i. 1 \<le> i \<and> i < j \<longrightarrow> (\<exists>xs m. collect i = Inr xs \<and> is_median xs m \<and> \<not> stable_samples xs m))"
    using j calibrationMedian_is_median [OF j(4)] by (intro exI [of _ j] exI [of _ samples]) (simp add: n)
qed

section \<open>Properties\<close>

definition demo_normalizer :: CPUNormalizer where
  "demo_normalizer = \<lparr>cn_method = ''m'', cn_referenceTimeNs = 60000000, cn_observedTimeNs = 90000000\<rparr>"

text \<open>
  The multiplication with a division never reaches the panic of bits.Div64; the rounded-down
  and rounded-up quotients are the exact ones, cut off at the largest 64-bit value.
\<close>

theorem mulDiv_exact:
  assumes "d \<noteq> 0"
  shows "unat (mulDivFloorUint64 v m d) = min (unat v * unat m div unat d) (2 ^ 64 - 1) \<and>
    unat (mulDivCeilUint64 v m d) = min (ceil_div (unat v * unat m) (unat d)) (2 ^ 64 - 1) \<and>
    (\<not> fst (Mul64 v m) \<ge> d \<longrightarrow> \<not> Div64_panics (fst (Mul64 v m)) d)"
  using unat_mulDivFloorUint64 [OF assms] unat_mulDivCeilUint64 [OF assms] assms
  by (auto simp: Div64_panics_def)

theorem mulDiv_exact_witness: "unat (mulDivFloorUint64 (- 1) 3 2) = 2 ^ 64 - 1"
  using mulDiv_exact [of 2 "- 1" 3] by (simp add: unsigned_minus_1_eq_mask mask_eq_exp_minus_1)

text \<open>
  C2. At the precision of nanoseconds the two directions of the normalisation meet at one boundary:
  a raw measurement is within a limit of l milliseconds after normalisation exactly when it is
  within the raw allowance computed for l, for every ratio of the two clocks.
\<close>

theorem normalize_limit_boundary:
  assumes "0 < l" and "l < 2 ^ 63" and "nat l * 10 ^ 6 < 2 ^ 64 - 1"
  shows "unat (NormalizeNanoseconds n raw) \<le> nat l * 10 ^ 6 \<longleftrightarrow> raw \<le> RawLimitNanoseconds n l"
  using assms by (rule normalize_boundary)

theorem normalize_limit_boundary_witness:
  "unat (NormalizeNanoseconds demo_normalizer 3000000001) \<le> nat 2000 * 10 ^ 6 \<longleftrightarrow>
   3000000001 \<le> RawLimitNanoseconds demo_normalizer 2000"
  by (rule normalize_limit_boundary) simp_all

text \<open>
  C4. The equivalence that NormalizeMillis documents, in whole milliseconds, holds for an enabled
  normalizer as long as the raw allowance is at least a millisecond. Below that RawLimitMillis is
  raised to 1, and a measurement of 1 ms is within the raw limit but beyond the normalised one.
\<close>

theorem normalize_millis_boundary:
  assumes "Enabled n" and "0 < l" and "l < 2 ^ 63 - 1"
  shows "if ref_ns n \<le> nat l * obs_ns n
    then \<forall>raw. 0 < raw \<and> raw < 2 ^ 63 \<longrightarrow> (NormalizeMillis n raw \<le> l \<longleftrightarrow> raw \<le> RawLimitMillis n l)
    else 1 \<le> RawLimitMillis n l \<and> \<not> NormalizeMillis n 1 \<le> l"
  using millis_boundary [OF assms] millis_boundary_fails [OF assms] by auto

theorem normalize_millis_boundary_witness:
  "\<not> NormalizeMillis \<lparr>cn_method = ''m'', cn_referenceTimeNs = 4, cn_observedTimeNs = 1\<rparr> 1 \<le> 1"
  using normalize_millis_boundary [of "\<lparr>cn_method = ''m'', cn_referenceTimeNs = 4, cn_observedTimeNs = 1\<rparr>" 1]
  by (simp add: Enabled_def ref_ns_def obs_ns_def ratio_def)

text \<open>
  C3. A calibration that succeeds returns an enabled normalizer whose ratio lies between a quarter
  and four. Its observed time is the median of the samples of the first stable attempt, one of at most five: an odd number of at least
  three samples whose central spread is at most a tenth of the median; all earlier attempts were not stable. Its
  raw and wall-clock limits stay within the maxima that remote callers budget for.
\<close>

theorem calibrated_limits_supported:
  assumes "CalibrateCPU collect reference = Inr n" and "0 < l" and "l < 2 ^ 63"
  shows "Enabled n \<and> ref_ns n \<le> 4 * obs_ns n \<and> obs_ns n \<le> 4 * ref_ns n \<and>
    (\<exists>j samples. 1 \<le> j \<and> j \<le> 5 \<and> collect j = Inr samples \<and> is_median samples (cn_observedTimeNs n) \<and>
       stable_samples samples (cn_observedTimeNs n) \<and>
       (\<forall>i. 1 \<le> i \<and> i < j \<longrightarrow> (\<exists>xs m. collect i = Inr xs \<and> is_median xs m \<and> \<not> stable_samples xs m))) \<and>
    l \<le> WallLimitMillis n l \<and> RawLimitMillis n l \<le> WallLimitMillis n l \<and>
    RawLimitMillis n l \<le> MaximumCPURawLimitMillis l \<and> WallLimitMillis n l \<le> MaximumCPUWallLimitMillis l"
  using CalibrateCPU_ratio [OF assms(1)] WallLimitMillis_covers [OF assms(2,3), of n]
    supported_bound [OF _ assms(2,3), of n] by blast

definition demo_samples :: "nat \<Rightarrow> calibration_error + u64 list" where
  "demo_samples k = Inr [60000000, 61000000, 60500000]"

lemma demo_calibration:
  "CalibrateCPU demo_samples 60000000 = Inr \<lparr>cn_method = CPUNormalizationMethod,
     cn_referenceTimeNs = 60000000, cn_observedTimeNs = 60500000\<rparr>"
proof -
  have "sort [60000000, 61000000, 60500000 :: u64] = [60000000, 60500000, 61000000]" by simp
  moreover have "mulDivCeilUint64 1000000 1000000 60500000 = 16529"
    by (simp add: mulDivCeilUint64_def mulDivUint64_def Mul64_def Div64_def MaxUint64_def)
  ultimately have "calibration_attempts demo_samples 5 1 (Suc 4) = Inr 60500000"
    by (subst calibration_attempts.simps(2))
      (simp add: demo_samples_def calibrationMedian_def validateCalibrationStability_def cpu_constants)
  then have "calibrationMedianWithRetries cpuCalibrationMaxAttempts demo_samples = Inr 60500000"
    by (simp add: calibrationMedianWithRetries_def cpuCalibrationMaxAttempts_def
        del: calibration_attempts.simps)
  moreover have "trim_space CPUNormalizationMethod \<noteq> []"
    by (simp add: CPUNormalizationMethod_def trim_space_visible)
  ultimately show ?thesis
    by (simp add: CalibrateCPU_def cpu_constants NewCPUNormalizer_def)
qed

theorem calibrated_limits_supported_witness:
  "RawLimitMillis \<lparr>cn_method = CPUNormalizationMethod, cn_referenceTimeNs = 60000000,
     cn_observedTimeNs = 60500000\<rparr> 1000 \<le> MaximumCPURawLimitMillis 1000"
  using calibrated_limits_supported [OF demo_calibration, of 1000] by simp

end
