(* ===== verification/Server_Policies.thy ===== *)
theory Server_Policies
  imports Run_Steps Policies
begin

text \<open>
  The policies of internal/api/server.go that decide the runtime profile and the three library
  modes of a request: \<open>applyRuntimeProfilePolicy\<close>, \<open>applyPythonLibraryPolicy\<close>,
  \<open>applyRustCratePolicy\<close> and \<open>applyGoModulePolicy\<close>. Each changes one field of the request or
  rejects it. \<open>server_config\<close> holds the fields of the server's configuration they read; a Go map
  lookup of a missing key gives the empty string.

  The three library policies are one contract, the locale \<open>mode_policy_server\<close>: it fixes the effect of
  a policy on the mode of a request that uses the language, and derives from it that the request
  never gains libraries that neither the problem nor the server allows.
\<close>

record server_config =
  cfg_AllowRequestRuntimeProfile :: bool
  cfg_RuntimeTuningProfiles :: "string set"
  cfg_ProblemRuntimeProfiles :: "string \<rightharpoonup> string"
  cfg_ProblemPythonLibraryModes :: "string \<rightharpoonup> string"
  cfg_DefaultPythonLibraryMode :: string
  cfg_AllowRequestPythonInstalledLibraries :: bool
  cfg_ProblemRustCrateModes :: "string \<rightharpoonup> string"
  cfg_DefaultRustCrateMode :: string
  cfg_AllowRequestRustInstalledCrates :: bool
  cfg_ProblemGoModuleModes :: "string \<rightharpoonup> string"
  cfg_DefaultGoModuleMode :: string
  cfg_AllowRequestGoInstalledModules :: bool

datatype server_error =
    ProfileNotAllowed
  | ProfileUnknown string
  | InvalidProblemID policy_error
  | InvalidProfile policy_error
  | ProfileConflict
  | ProblemProfileUnknown string string
  | InvalidMode policy_error
  | ModeLanguage
  | ProblemModeInvalid string policy_error
  | ModeConflict
  | DefaultModeInvalid policy_error
  | ModeNotAllowed

definition map_str :: "(string \<rightharpoonup> string) \<Rightarrow> string \<Rightarrow> string" where
  "map_str m k = (case m k of None \<Rightarrow> [] | Some v \<Rightarrow> v)"

section \<open>Runtime profiles\<close>

definition validateRuntimeProfileAllowed :: "server_config \<Rightarrow> string \<Rightarrow> server_error option" where
  "validateRuntimeProfileAllowed C prof =
     (if prof = [] then None
      else first_error
        [reject_if (\<not> cfg_AllowRequestRuntimeProfile C) ProfileNotAllowed,
         reject_if (prof \<notin> cfg_RuntimeTuningProfiles C) (ProfileUnknown prof)])"

definition applyRuntimeProfilePolicy :: "server_config \<Rightarrow> string \<Rightarrow> string \<Rightarrow> server_error + string" where
  "applyRuntimeProfilePolicy C problemID runtimeProfile =
     checked (map_option InvalidProblemID (ValidateProblemID problemID))
     (checked (map_option InvalidProfile (ValidateProfileName runtimeProfile))
       (let mappedProfile = (if problemID \<noteq> [] then map_str (cfg_ProblemRuntimeProfiles C) problemID else []) in
        if mappedProfile \<noteq> [] then
          if runtimeProfile \<noteq> [] \<and> runtimeProfile \<noteq> mappedProfile then Inl ProfileConflict
          else if mappedProfile \<notin> cfg_RuntimeTuningProfiles C
            then Inl (ProblemProfileUnknown problemID mappedProfile)
          else Inr mappedProfile
        else checked (validateRuntimeProfileAllowed C runtimeProfile) (Inr runtimeProfile)))"

section \<open>Library modes\<close>

definition applyPythonLibraryPolicy :: "server_config \<Rightarrow> RunRequest \<Rightarrow> server_error + RunRequest" where
  "applyPythonLibraryPolicy C req =
     checked (map_option InvalidMode (ValidateOptionalLibraryMode (rq_PythonLibraryMode req)))
     (if \<not> UsesPython req then
        if rq_PythonLibraryMode req \<noteq> [] then Inl ModeLanguage else Inr req
      else
        (let mappedMode = map_str (cfg_ProblemPythonLibraryModes C) (rq_ProblemID req) in
         if mappedMode \<noteq> [] then
           checked (map_option (ProblemModeInvalid (rq_ProblemID req)) (ValidateOptionalLibraryMode mappedMode))
           (if rq_PythonLibraryMode req \<noteq> [] \<and> rq_PythonLibraryMode req \<noteq> mappedMode then Inl ModeConflict
            else Inr (req\<lparr>rq_PythonLibraryMode := mappedMode\<rparr>))
         else
           (let d = cfg_DefaultPythonLibraryMode C; defaultMode = (if d = [] then ModeStdlib else d) in
            checked (map_option DefaultModeInvalid (ValidateOptionalLibraryMode defaultMode))
            (if rq_PythonLibraryMode req = [] then Inr (req\<lparr>rq_PythonLibraryMode := defaultMode\<rparr>)
             else if rq_PythonLibraryMode req = ModeInstalled \<and> defaultMode \<noteq> ModeInstalled \<and>
                 \<not> cfg_AllowRequestPythonInstalledLibraries C then Inl ModeNotAllowed
             else Inr req))))"

definition applyRustCratePolicy :: "server_config \<Rightarrow> CompileRequest \<Rightarrow> server_error + CompileRequest" where
  "applyRustCratePolicy C req =
     checked (map_option InvalidMode (ValidateOptionalCrateMode (cr_RustCrateMode req)))
     (if \<not> IsRustLanguage (cr_Lang req) then
        if cr_RustCrateMode req \<noteq> [] then Inl ModeLanguage else Inr req
      else
        (let mappedMode = map_str (cfg_ProblemRustCrateModes C) (cr_ProblemID req) in
         if mappedMode \<noteq> [] then
           checked (map_option (ProblemModeInvalid (cr_ProblemID req)) (ValidateOptionalCrateMode mappedMode))
           (if cr_RustCrateMode req \<noteq> [] \<and> cr_RustCrateMode req \<noteq> mappedMode then Inl ModeConflict
            else Inr (req\<lparr>cr_RustCrateMode := mappedMode\<rparr>))
         else
           (let d = cfg_DefaultRustCrateMode C; defaultMode = (if d = [] then ModeStdlib else d) in
            checked (map_option DefaultModeInvalid (ValidateOptionalCrateMode defaultMode))
            (if cr_RustCrateMode req = [] then Inr (req\<lparr>cr_RustCrateMode := defaultMode\<rparr>)
             else if cr_RustCrateMode req = ModeInstalled \<and> defaultMode \<noteq> ModeInstalled \<and>
                 \<not> cfg_AllowRequestRustInstalledCrates C then Inl ModeNotAllowed
             else Inr req))))"

definition applyGoModulePolicy :: "server_config \<Rightarrow> CompileRequest \<Rightarrow> server_error + CompileRequest" where
  "applyGoModulePolicy C req =
     checked (map_option InvalidMode (ValidateOptionalMode (cr_GoModuleMode req)))
     (if \<not> UsesGoCompiler (cr_Lang req) then
        if cr_GoModuleMode req \<noteq> [] then Inl ModeLanguage else Inr req
      else
        (let mappedMode = map_str (cfg_ProblemGoModuleModes C) (cr_ProblemID req) in
         if mappedMode \<noteq> [] then
           checked (map_option (ProblemModeInvalid (cr_ProblemID req)) (ValidateOptionalMode mappedMode))
           (if cr_GoModuleMode req \<noteq> [] \<and> cr_GoModuleMode req \<noteq> mappedMode then Inl ModeConflict
            else Inr (req\<lparr>cr_GoModuleMode := mappedMode\<rparr>))
         else
           (let d = cfg_DefaultGoModuleMode C; defaultMode = (if d = [] then ModeStdlib else d) in
            checked (map_option DefaultModeInvalid (ValidateOptionalMode defaultMode))
            (if cr_GoModuleMode req = [] then Inr (req\<lparr>cr_GoModuleMode := defaultMode\<rparr>)
             else if cr_GoModuleMode req = ModeInstalled \<and> defaultMode \<noteq> ModeInstalled \<and>
                 \<not> cfg_AllowRequestGoInstalledModules C then Inl ModeNotAllowed
             else Inr req))))"

section \<open>The contract of a library policy\<close>

text \<open>The default in force, and the three grounds on which a request may use installed libraries.\<close>

definition default_mode :: "string \<Rightarrow> string" where
  "default_mode d = (if d = [] then ModeStdlib else d)"

definition installed_granted :: "string \<Rightarrow> string \<Rightarrow> bool \<Rightarrow> bool" where
  "installed_granted mapped dflt allowed \<longleftrightarrow>
     mapped = ModeInstalled \<or> mapped = [] \<and> (dflt = ModeInstalled \<or> allowed)"

definition decide_mode :: "string \<Rightarrow> string \<Rightarrow> string \<Rightarrow> bool \<Rightarrow> string option" where
  "decide_mode m mapped dflt allowed =
     (if m \<noteq> [] \<and> m \<noteq> ModeStdlib \<and> m \<noteq> ModeInstalled then None
      else if mapped \<noteq> [] then
        if (mapped = ModeStdlib \<or> mapped = ModeInstalled) \<and> (m = [] \<or> m = mapped) then Some mapped else None
      else if dflt \<noteq> ModeStdlib \<and> dflt \<noteq> ModeInstalled then None
      else if m = [] then Some dflt
      else if m = ModeInstalled \<and> dflt \<noteq> ModeInstalled \<and> \<not> allowed then None
      else Some m)"

lemma mode_facts: "ModeStdlib \<noteq> []" "ModeInstalled \<noteq> []" "ModeStdlib \<noteq> ModeInstalled"
  by (simp_all add: ModeStdlib_def ModeInstalled_def)

lemma decide_mode_settled: "decide_mode m mapped d a = Some x \<Longrightarrow> x = ModeStdlib \<or> x = ModeInstalled"
  by (auto simp: decide_mode_def split: if_splits)

lemma decide_mode_granted:
  "decide_mode m mapped d a = Some ModeInstalled \<Longrightarrow> installed_granted mapped d a"
  by (auto simp: decide_mode_def installed_granted_def split: if_splits)

lemma decide_mode_respected: "decide_mode m mapped d a = Some x \<Longrightarrow> m \<noteq> [] \<Longrightarrow> x = m"
  by (auto simp: decide_mode_def split: if_splits)

lemma decide_mode_fixed: "decide_mode m mapped d a = Some x \<Longrightarrow> decide_mode x mapped d a = Some x"
  by (simp add: decide_mode_def split: if_splits) (auto simp: mode_facts)

locale mode_policy_server =
  fixes apply_policy :: "'r \<Rightarrow> server_error + 'r"
    and mode :: "'r \<Rightarrow> string"
    and set_mode :: "string \<Rightarrow> 'r \<Rightarrow> 'r"
    and uses :: "'r \<Rightarrow> bool"
    and mapped :: "'r \<Rightarrow> string"
    and dflt :: string
    and allowed :: bool
  assumes accepts_iff: "apply_policy r = Inr r' \<longleftrightarrow>
      (if uses r then \<exists>m. decide_mode (mode r) (mapped r) (default_mode dflt) allowed = Some m \<and> r' = set_mode m r
       else mode r = [] \<and> r' = r)"
    and set_mode: "mode (set_mode m r) = m" "uses (set_mode m r) = uses r" "mapped (set_mode m r) = mapped r"
      "set_mode (mode r) r = r"
begin

lemma accepted:
  assumes "uses r" and "apply_policy r = Inr r'"
  shows "decide_mode (mode r) (mapped r) (default_mode dflt) allowed = Some (mode r')"
    and "uses r'" and "mapped r' = mapped r"
  using assms set_mode by (auto simp: accepts_iff)

lemma mode_settled: "uses r \<Longrightarrow> apply_policy r = Inr r' \<Longrightarrow> mode r' = ModeStdlib \<or> mode r' = ModeInstalled"
  by (rule decide_mode_settled) (rule accepted)

lemma no_escalation:
  assumes "uses r" and "apply_policy r = Inr r'" and "mode r' = ModeInstalled"
  shows "installed_granted (mapped r) (default_mode dflt) allowed"
  using accepted(1) [OF assms(1,2)] decide_mode_granted by (simp add: assms(3))

lemma request_respected: "uses r \<Longrightarrow> apply_policy r = Inr r' \<Longrightarrow> mode r \<noteq> [] \<Longrightarrow> mode r' = mode r"
  by (rule decide_mode_respected) (rule accepted)

lemma idempotent:
  assumes "apply_policy r = Inr r'"
  shows "apply_policy r' = Inr r'"
proof (cases "uses r")
  case True
  then have "decide_mode (mode r') (mapped r') (default_mode dflt) allowed = Some (mode r')"
    using accepted [OF True assms] decide_mode_fixed by simp
  then show ?thesis using accepted(2) [OF True assms] set_mode(4) [of r'] by (simp add: accepts_iff)
next
  case False
  then show ?thesis using assms accepts_iff by metis
qed

end

lemma UsesPython_mode [simp]: "UsesPython (req\<lparr>rq_PythonLibraryMode := m\<rparr>) = UsesPython req"
  by (simp add: UsesPython_def request_languages_def)

lemma applyPythonLibraryPolicy_accepts:
  "applyPythonLibraryPolicy C r = Inr r' \<longleftrightarrow>
     (if UsesPython r then
        \<exists>m. decide_mode (rq_PythonLibraryMode r) (map_str (cfg_ProblemPythonLibraryModes C) (rq_ProblemID r))
            (default_mode (cfg_DefaultPythonLibraryMode C)) (cfg_AllowRequestPythonInstalledLibraries C) = Some m \<and>
          r' = r\<lparr>rq_PythonLibraryMode := m\<rparr>
      else rq_PythonLibraryMode r = [] \<and> r' = r)"
  unfolding applyPythonLibraryPolicy_def decide_mode_def default_mode_def Let_def
  by (auto simp: python_mode.validate_iff mode_facts)

lemma applyRustCratePolicy_accepts:
  "applyRustCratePolicy C r = Inr r' \<longleftrightarrow>
     (if IsRustLanguage (cr_Lang r) then
        \<exists>m. decide_mode (cr_RustCrateMode r) (map_str (cfg_ProblemRustCrateModes C) (cr_ProblemID r))
            (default_mode (cfg_DefaultRustCrateMode C)) (cfg_AllowRequestRustInstalledCrates C) = Some m \<and>
          r' = r\<lparr>cr_RustCrateMode := m\<rparr>
      else cr_RustCrateMode r = [] \<and> r' = r)"
  unfolding applyRustCratePolicy_def decide_mode_def default_mode_def Let_def
  by (auto simp: rust_mode.validate_iff mode_facts)

lemma applyGoModulePolicy_accepts:
  "applyGoModulePolicy C r = Inr r' \<longleftrightarrow>
     (if UsesGoCompiler (cr_Lang r) then
        \<exists>m. decide_mode (cr_GoModuleMode r) (map_str (cfg_ProblemGoModuleModes C) (cr_ProblemID r))
            (default_mode (cfg_DefaultGoModuleMode C)) (cfg_AllowRequestGoInstalledModules C) = Some m \<and>
          r' = r\<lparr>cr_GoModuleMode := m\<rparr>
      else cr_GoModuleMode r = [] \<and> r' = r)"
  unfolding applyGoModulePolicy_def decide_mode_def default_mode_def Let_def
  by (auto simp: go_mode.validate_iff mode_facts)

interpretation python_policy: mode_policy_server "applyPythonLibraryPolicy C" rq_PythonLibraryMode
    "\<lambda>m r. r\<lparr>rq_PythonLibraryMode := m\<rparr>" UsesPython
    "\<lambda>r. map_str (cfg_ProblemPythonLibraryModes C) (rq_ProblemID r)"
    "cfg_DefaultPythonLibraryMode C" "cfg_AllowRequestPythonInstalledLibraries C" for C
  by unfold_locales (simp_all add: applyPythonLibraryPolicy_accepts)

interpretation rust_policy: mode_policy_server "applyRustCratePolicy C" cr_RustCrateMode
    "\<lambda>m r. r\<lparr>cr_RustCrateMode := m\<rparr>" "\<lambda>r. IsRustLanguage (cr_Lang r)"
    "\<lambda>r. map_str (cfg_ProblemRustCrateModes C) (cr_ProblemID r)"
    "cfg_DefaultRustCrateMode C" "cfg_AllowRequestRustInstalledCrates C" for C
  by unfold_locales (simp_all add: applyRustCratePolicy_accepts)

interpretation go_policy: mode_policy_server "applyGoModulePolicy C" cr_GoModuleMode
    "\<lambda>m r. r\<lparr>cr_GoModuleMode := m\<rparr>" "\<lambda>r. UsesGoCompiler (cr_Lang r)"
    "\<lambda>r. map_str (cfg_ProblemGoModuleModes C) (cr_ProblemID r)"
    "cfg_DefaultGoModuleMode C" "cfg_AllowRequestGoInstalledModules C" for C
  by unfold_locales (simp_all add: applyGoModulePolicy_accepts)

lemma applyRuntimeProfilePolicy_allowed:
  assumes "applyRuntimeProfilePolicy C pid prof = Inr p"
  shows "p = [] \<or> p \<in> cfg_RuntimeTuningProfiles C"
    and "prof \<noteq> [] \<Longrightarrow> p = prof"
    and "p \<noteq> [] \<Longrightarrow> cfg_AllowRequestRuntimeProfile C \<or> pid \<noteq> [] \<and> p = map_str (cfg_ProblemRuntimeProfiles C) pid"
    and "pid \<noteq> [] \<Longrightarrow> map_str (cfg_ProblemRuntimeProfiles C) pid \<noteq> [] \<Longrightarrow>
           p = map_str (cfg_ProblemRuntimeProfiles C) pid"
  using assms
  by (auto simp: applyRuntimeProfilePolicy_def validateRuntimeProfileAllowed_def Let_def split: if_splits)

section \<open>Properties\<close>

text \<open>
  C5. A request that the server's policies accept uses installed libraries only if the problem is
  mapped to them, or the problem is not mapped and the server's default or its switch for requests
  allows them; the mode is settled to one of the two, a mode the request names is never replaced
  by another, and applying the policy again changes nothing. This holds for Python, Rust and Go.
\<close>

theorem library_policies_no_escalation:
  "(\<forall>req req'. applyPythonLibraryPolicy C req = Inr req' \<and> UsesPython req \<longrightarrow>
      (rq_PythonLibraryMode req' = ModeStdlib \<or> rq_PythonLibraryMode req' = ModeInstalled \<and>
         installed_granted (map_str (cfg_ProblemPythonLibraryModes C) (rq_ProblemID req))
           (default_mode (cfg_DefaultPythonLibraryMode C)) (cfg_AllowRequestPythonInstalledLibraries C)) \<and>
      (rq_PythonLibraryMode req \<noteq> [] \<longrightarrow> rq_PythonLibraryMode req' = rq_PythonLibraryMode req) \<and>
      applyPythonLibraryPolicy C req' = Inr req') \<and>
   (\<forall>req req'. applyRustCratePolicy C req = Inr req' \<and> IsRustLanguage (cr_Lang req) \<longrightarrow>
      (cr_RustCrateMode req' = ModeStdlib \<or> cr_RustCrateMode req' = ModeInstalled \<and>
         installed_granted (map_str (cfg_ProblemRustCrateModes C) (cr_ProblemID req))
           (default_mode (cfg_DefaultRustCrateMode C)) (cfg_AllowRequestRustInstalledCrates C)) \<and>
      (cr_RustCrateMode req \<noteq> [] \<longrightarrow> cr_RustCrateMode req' = cr_RustCrateMode req) \<and>
      applyRustCratePolicy C req' = Inr req') \<and>
   (\<forall>req req'. applyGoModulePolicy C req = Inr req' \<and> UsesGoCompiler (cr_Lang req) \<longrightarrow>
      (cr_GoModuleMode req' = ModeStdlib \<or> cr_GoModuleMode req' = ModeInstalled \<and>
         installed_granted (map_str (cfg_ProblemGoModuleModes C) (cr_ProblemID req))
           (default_mode (cfg_DefaultGoModuleMode C)) (cfg_AllowRequestGoInstalledModules C)) \<and>
      (cr_GoModuleMode req \<noteq> [] \<longrightarrow> cr_GoModuleMode req' = cr_GoModuleMode req) \<and>
      applyGoModulePolicy C req' = Inr req')"
  using python_policy.mode_settled python_policy.no_escalation python_policy.request_respected
    python_policy.idempotent rust_policy.mode_settled rust_policy.no_escalation
    rust_policy.request_respected rust_policy.idempotent go_policy.mode_settled
    go_policy.no_escalation go_policy.request_respected go_policy.idempotent
  by (intro conjI allI impI; elim conjE) metis+

definition demo_config :: server_config where
  "demo_config =
     \<lparr>cfg_AllowRequestRuntimeProfile = False, cfg_RuntimeTuningProfiles = {''fast''},
      cfg_ProblemRuntimeProfiles = [''p1'' \<mapsto> ''fast''], cfg_ProblemPythonLibraryModes = Map.empty,
      cfg_DefaultPythonLibraryMode = [], cfg_AllowRequestPythonInstalledLibraries = False,
      cfg_ProblemRustCrateModes = [''p1'' \<mapsto> ModeInstalled], cfg_DefaultRustCrateMode = [],
      cfg_AllowRequestRustInstalledCrates = False, cfg_ProblemGoModuleModes = Map.empty,
      cfg_DefaultGoModuleMode = [], cfg_AllowRequestGoInstalledModules = False\<rparr>"

definition demo_rust :: CompileRequest where
  "demo_rust = zero_CompileRequest\<lparr>cr_Lang := ''RUST'', cr_ProblemID := ''p1''\<rparr>"

lemma demo_rust_uses: "IsRustLanguage (cr_Lang demo_rust)"
  by (simp add: demo_rust_def IsRustLanguage_def trim_space_visible to_upper_ascii upper_rune_def char_of_eq_iff)

lemma demo_rust_accepted:
  "applyRustCratePolicy demo_config demo_rust = Inr (demo_rust\<lparr>cr_RustCrateMode := ModeInstalled\<rparr>)"
  using demo_rust_uses
  by (simp add: applyRustCratePolicy_accepts demo_config_def demo_rust_def zero_CompileRequest_def
      map_str_def decide_mode_def mode_facts)

theorem library_policies_no_escalation_witness:
  "applyRustCratePolicy demo_config (demo_rust\<lparr>cr_RustCrateMode := ModeInstalled\<rparr>) =
     Inr (demo_rust\<lparr>cr_RustCrateMode := ModeInstalled\<rparr>)"
  using library_policies_no_escalation [of demo_config] demo_rust_accepted demo_rust_uses by blast

text \<open>
  The runtime profile that the server's policy settles on is a configured one; a profile named
  in a request is never replaced by another, it is honoured only when the server allows requests
  to name profiles or the problem is mapped to that profile, and the profile of a mapped problem is
  always the mapped one.
\<close>

theorem runtime_profile_policy:
  assumes "applyRuntimeProfilePolicy C pid prof = Inr p"
  shows "(p = [] \<or> p \<in> cfg_RuntimeTuningProfiles C) \<and> (prof \<noteq> [] \<longrightarrow> p = prof) \<and>
    (p \<noteq> [] \<longrightarrow> cfg_AllowRequestRuntimeProfile C \<or>
       pid \<noteq> [] \<and> p = map_str (cfg_ProblemRuntimeProfiles C) pid) \<and>
    (pid \<noteq> [] \<and> map_str (cfg_ProblemRuntimeProfiles C) pid \<noteq> [] \<longrightarrow>
       p = map_str (cfg_ProblemRuntimeProfiles C) pid)"
  using applyRuntimeProfilePolicy_allowed [OF assms] by blast

theorem runtime_profile_policy_witness:
  "''fast'' \<in> cfg_RuntimeTuningProfiles demo_config"
proof -
  have "ValidateProblemID ''p1'' = None"
    by (simp add: ValidateProblemID_accepts MaxProblemIDBytes_def problem_rune_def)
  then have "applyRuntimeProfilePolicy demo_config ''p1'' [] = Inr ''fast''"
    by (simp add: applyRuntimeProfilePolicy_def demo_config_def map_str_def ValidateProfileName_def)
  from runtime_profile_policy [OF this] show ?thesis by simp
qed

end
