(* ===== verification/Json_Size.thy ===== *)
theory Json_Size
  imports Go_Strings Go_Base64 Complex_Main "HOL-Library.List_Lexorder" "HOL-Library.Char_ord" "HOL-Library.Multiset"
begin

text \<open>
  The size of a request on the wire: \<open>jsonSizeCounter\<close> and \<open>jsonSizeEmpty\<close> of
  internal/runvalidation/remote_request.go, and what they must agree with, the bytes that
  \<open>encoding/json\<close> produces (\<open>json_marshal\<close>, a reference written from the package's documentation).

  The source walks a value by reflection. A \<open>gval\<close> is such a value: \<open>GInvalid\<close> is
  the zero \<open>reflect.Value\<close>, \<open>GCustom\<close> a value of a type that has its own encoder, \<open>GPtr\<close> a pointer or
  an interface (\<open>None\<close> is nil), \<open>GBytes\<close> a slice whose element kind is \<open>uint8\<close>, \<open>GMap\<close> a
  map with its entries in the order of an iteration and whether its keys are strings, and \<open>GOther\<close> a
  value of any other kind with the text the package prints for it, if it prints one (floating-point
  numbers). A field of a struct carries its Go name, the text of its \<open>json\<close> tag and the two flags
  the source reads.
\<close>

record gfield =
  gf_Name :: string
  gf_Exported :: bool
  gf_Anonymous :: bool
  gf_Tag :: string

datatype gval =
    GInvalid
  | GCustom gval
  | GPtr "gval option"
  | GString string
  | GBool bool
  | GInt int
  | GUint nat
  | GStruct "(gfield \<times> gval) list"
  | GBytes "string option"
  | GSlice "gval list option"
  | GArray "gval list"
  | GMap bool "(string \<times> gval) list option"
  | GOther "string option"

section \<open>The encoding of strings\<close>

definition hex_digit :: "nat \<Rightarrow> char" where
  "hex_digit d = char_of (if d < 10 then 48 + d else 87 + d)"

text \<open>The bytes written for one rune \<open>r\<close> of width \<open>w\<close> whose own bytes are \<open>raw\<close>.\<close>

definition escape_rune :: "nat \<Rightarrow> nat \<Rightarrow> string \<Rightarrow> string" where
  "escape_rune r w raw =
     (let backslash = CHR 0x5C in
      if r < 128 then
        (if r = 34 then [backslash, CHR 0x22]
         else if r = 92 then [backslash, backslash]
         else if r = 8 then [backslash, CHR ''b'']
         else if r = 12 then [backslash, CHR ''f'']
         else if r = 10 then [backslash, CHR ''n'']
         else if r = 13 then [backslash, CHR ''r'']
         else if r = 9 then [backslash, CHR ''t'']
         else if r < 32 \<or> r = 60 \<or> r = 62 \<or> r = 38
           then [backslash, CHR ''u'', CHR ''0'', CHR ''0'', hex_digit (r div 16), hex_digit (r mod 16)]
         else raw)
      else if r = rune_error \<and> w = 1 then backslash # ''ufffd''
      else if r = 8232 then backslash # ''u2028''
      else if r = 8233 then backslash # ''u2029''
      else raw)"

function json_body :: "string \<Rightarrow> string" where
  "json_body [] = []"
| "json_body (a # s) =
     (let w = snd (decode_rune (a # s)) in
      escape_rune (fst (decode_rune (a # s))) w (take w (a # s)) @ json_body (drop w (a # s)))"
  by pat_completeness auto
termination
proof (relation "measure length")
  fix a :: char and s :: string and w
  assume "w = snd (decode_rune (a # s))"
  then have "1 \<le> w" using decode_rune_width [of "a # s"] by simp
  then show "(drop w (a # s), a # s) \<in> measure length" by simp
qed simp

declare json_body.simps(2) [simp del]

definition json_quote :: "string \<Rightarrow> string" where
  "json_quote s = [CHR 0x22] @ json_body s @ [CHR 0x22]"

text \<open>The bytes a rune costs: the source computes this, once in the counter and once for events.\<close>

definition rune_cost :: "nat \<Rightarrow> nat \<Rightarrow> nat" where
  "rune_cost r w =
     (if r < 128 then
        (if r \<in> {34, 92, 8, 12, 10, 13, 9} then 2
         else if r \<in> {60, 62, 38} then 6
         else if r < 32 then 6
         else 1)
      else if (r = rune_error \<and> w = 1) \<or> r = 8232 \<or> r = 8233 then 6
      else w)"

definition body_size :: "string \<Rightarrow> nat" where
  "body_size s = (\<Sum>(r, w)\<leftarrow>runes s. rune_cost r w)"

lemma decode_rune_low:
  assumes "decode_rune s = (r, w)" and "r < 128" and "s \<noteq> []"
  shows "w = 1"
  using assms
  by (cases s) (auto simp: decode_rune.simps(2) rune_error_def cont_byte_def second_ok_def
      split: list.splits if_splits)

lemma length_escape_rune:
  assumes "length raw = w" and "r < 128 \<Longrightarrow> w = 1"
  shows "length (escape_rune r w raw) = rune_cost r w"
proof (cases "r < 128")
  case True
  then show ?thesis using assms by (simp add: escape_rune_def rune_cost_def Let_def)
next
  case False
  then show ?thesis using assms(1) by (simp add: escape_rune_def rune_cost_def Let_def)
qed

lemma length_json_body: "length (json_body s) = body_size s"
proof (induction s rule: json_body.induct)
  case (2 a s)
  obtain r w where d: "decode_rune (a # s) = (r, w)" by fastforce
  then have "length (take w (a # s)) = w" using decode_rune_width [of "a # s"] by simp
  then have "length (escape_rune r w (take w (a # s))) = rune_cost r w"
    using decode_rune_low [OF d] by (intro length_escape_rune) auto
  then show ?case
    using 2 [of w] d by (simp add: json_body.simps(2) runes.simps(2) body_size_def Let_def)
qed (simp add: body_size_def)

lemma rune_cost_width:
  assumes "s \<noteq> []" and "decode_rune s = (r, w)"
  shows "w \<le> rune_cost r w"
proof (cases "r < 128")
  case True
  then have "w = 1" using decode_rune_low assms by blast
  then show ?thesis using True by (simp add: rune_cost_def)
next
  case False
  moreover have "w \<le> 4" using decode_rune_width_4 [of s] assms(2) by simp
  ultimately show ?thesis by (simp add: rune_cost_def)
qed

text \<open>Quoting never shortens a string.\<close>

lemma length_le_body_size: "length s \<le> body_size s"
proof (induction s rule: runes.induct)
  case (2 a s)
  obtain r w where d: "decode_rune (a # s) = (r, w)" by fastforce
  have "length (a # s) \<le> w + length (drop w (a # s))" by simp
  also have "\<dots> \<le> rune_cost r w + body_size (drop w (a # s))"
    using rune_cost_width [OF _ d] 2 d by (intro add_mono) auto
  finally show ?case using d by (simp add: body_size_def runes.simps(2))
qed simp

section \<open>The encoding of values\<close>

text \<open>\<open>strings.Cut(tag, ",")\<close>, and the name of a field on the wire.\<close>

definition tag_name :: "gfield \<Rightarrow> string" where
  "tag_name f = takeWhile (\<lambda>c. c \<noteq> CHR '','') (gf_Tag f)"

definition tag_option :: "gfield \<Rightarrow> string" where
  "tag_option f = drop 1 (dropWhile (\<lambda>c. c \<noteq> CHR '','') (gf_Tag f))"

definition wire_name :: "gfield \<Rightarrow> string" where
  "wire_name f = (if tag_name f = [] then gf_Name f else tag_name f)"

definition on_wire :: "gfield \<Rightarrow> bool" where
  "on_wire f \<longleftrightarrow> gf_Exported f \<and> tag_name f \<noteq> ''-''"

text \<open>\<open>jsonSizeEmpty\<close>, which is also the package's rule for \<open>omitempty\<close>.\<close>

fun jsonSizeEmpty :: "gval \<Rightarrow> bool" where
  "jsonSizeEmpty (GArray vs) \<longleftrightarrow> vs = []"
| "jsonSizeEmpty (GMap _ ms) \<longleftrightarrow> ms = None \<or> ms = Some []"
| "jsonSizeEmpty (GSlice vs) \<longleftrightarrow> vs = None \<or> vs = Some []"
| "jsonSizeEmpty (GBytes bs) \<longleftrightarrow> bs = None \<or> bs = Some []"
| "jsonSizeEmpty (GString s) \<longleftrightarrow> s = []"
| "jsonSizeEmpty (GBool b) \<longleftrightarrow> \<not> b"
| "jsonSizeEmpty (GInt i) \<longleftrightarrow> i = 0"
| "jsonSizeEmpty (GUint n) \<longleftrightarrow> n = 0"
| "jsonSizeEmpty (GPtr p) \<longleftrightarrow> p = None"
| "jsonSizeEmpty (GCustom v) \<longleftrightarrow> jsonSizeEmpty v"
| "jsonSizeEmpty _ \<longleftrightarrow> False"

definition int_text :: "int \<Rightarrow> string" where
  "int_text i = (if i < 0 then CHR ''-'' # dec (nat (- i)) else dec (nat i))"

fun join_comma :: "string list \<Rightarrow> string" where
  "join_comma [] = []"
| "join_comma [x] = x"
| "join_comma (x # xs) = x @ CHR '','' # join_comma xs"

text \<open>
  The names of a struct are plain when the package uses them as they stand: no two fields have the
  same name, names are letters, digits, hyphens and underscores, and the tag is not the one that names a field
  with a single hyphen.
\<close>

definition plain_char :: "char \<Rightarrow> bool" where
  "plain_char c \<longleftrightarrow>
     (let b = byte c :: nat in
      97 \<le> b \<and> b \<le> 122 \<or> 65 \<le> b \<and> b \<le> 90 \<or> 48 \<le> b \<and> b \<le> 57 \<or> b = 95 \<or> b = 45)"

definition plain_names :: "gfield list \<Rightarrow> bool" where
  "plain_names fs \<longleftrightarrow>
     distinct (map wire_name (filter on_wire fs)) \<and>
     list_all (\<lambda>f. list_all plain_char (wire_name f) \<and> (tag_name f = ''-'' \<longrightarrow> gf_Tag f = ''-'')) fs"

text \<open>
  The reference. It gives no text where the documentation describes an encoding that is not
  the plain one: custom encoders, maps whose keys are not strings, embedded fields, names that are not plain and options other than
  \<open>omitempty\<close>. The fields of a struct are in the order of their declaration, the
  entries of a map in the order of their keys.
\<close>

fun json_marshal :: "gval \<Rightarrow> string option"
  and json_fields :: "(gfield \<times> gval) list \<Rightarrow> string list option"
  and json_items :: "gval list \<Rightarrow> string list option"
  and json_members :: "(string \<times> gval) list \<Rightarrow> (string \<times> string) list option"
  where
  "json_marshal GInvalid = Some ''null''"
| "json_marshal (GCustom v) = None"
| "json_marshal (GPtr None) = Some ''null''"
| "json_marshal (GPtr (Some v)) = json_marshal v"
| "json_marshal (GString s) = Some (json_quote s)"
| "json_marshal (GBool b) = Some (if b then ''true'' else ''false'')"
| "json_marshal (GInt i) = Some (int_text i)"
| "json_marshal (GUint n) = Some (dec n)"
| "json_marshal (GStruct fs) =
     (if plain_names (map fst fs) then map_option (\<lambda>ts. [CHR 0x7B] @ join_comma ts @ [CHR 0x7D]) (json_fields fs)
      else None)"
| "json_marshal (GBytes None) = Some ''null''"
| "json_marshal (GBytes (Some bs)) = Some ([CHR 0x22] @ b64_encode bs @ [CHR 0x22])"
| "json_marshal (GSlice None) = Some ''null''"
| "json_marshal (GSlice (Some vs)) = map_option (\<lambda>ts. ''['' @ join_comma ts @ '']'') (json_items vs)"
| "json_marshal (GArray vs) = map_option (\<lambda>ts. ''['' @ join_comma ts @ '']'') (json_items vs)"
| "json_marshal (GMap False ms) = None"
| "json_marshal (GMap True None) = Some ''null''"
| "json_marshal (GMap True (Some ms)) =
     map_option (\<lambda>kts. [CHR 0x7B] @ join_comma (map (\<lambda>(k, t). json_quote k @ '':'' @ t) (sort_key fst kts)) @ [CHR 0x7D])
       (json_members ms)"
| "json_marshal (GOther t) = t"
| "json_fields [] = Some []"
| "json_fields ((f, v) # fs) =
     (if \<not> on_wire f then json_fields fs
      else if gf_Anonymous f \<or> (tag_option f \<noteq> [] \<and> tag_option f \<noteq> ''omitempty'') then None
      else if tag_option f = ''omitempty'' \<and> jsonSizeEmpty v then json_fields fs
      else (case json_marshal v of
              None \<Rightarrow> None
            | Some t \<Rightarrow> map_option (\<lambda>ts. (json_quote (wire_name f) @ '':'' @ t) # ts) (json_fields fs)))"
| "json_items [] = Some []"
| "json_items (v # vs) =
     (case json_marshal v of
        None \<Rightarrow> None | Some t \<Rightarrow> map_option (\<lambda>ts. t # ts) (json_items vs))"
| "json_members [] = Some []"
| "json_members ((k, v) # ms) =
     (case json_marshal v of
        None \<Rightarrow> None | Some t \<Rightarrow> map_option (\<lambda>kts. (k, t) # kts) (json_members ms))"

section \<open>The counter\<close>

datatype size_error = SizeLimit | CustomEncoder | UnsupportedField string | UnsupportedMap | UnsupportedType

text \<open>The counter is its field \<open>size\<close>; \<open>limit\<close> does not change.\<close>

definition counter_add :: "int \<Rightarrow> int \<Rightarrow> int \<Rightarrow> size_error + int" where
  "counter_add limit n sz = (if n > limit - sz then Inl SizeLimit else Inr (sz + n))"

fun string_loop :: "int \<Rightarrow> (nat \<times> nat) list \<Rightarrow> int \<Rightarrow> size_error + int" where
  "string_loop remaining [] sz = Inr sz"
| "string_loop remaining ((r, w) # rs) sz =
     (if sz + int (rune_cost r w) > remaining then Inl SizeLimit
      else string_loop remaining rs (sz + int (rune_cost r w)))"

definition counter_string :: "int \<Rightarrow> string \<Rightarrow> int \<Rightarrow> size_error + int" where
  "counter_string limit s sz =
     (let remaining = limit - sz in
      if remaining < 2 \<or> int (length s) > remaining - 2 then Inl SizeLimit
      else and_then (string_loop remaining (runes s) 2) (\<lambda>n. counter_add limit n sz))"

function (sequential) counter_value :: "int \<Rightarrow> gval \<Rightarrow> int \<Rightarrow> size_error + int"
  and counter_fields :: "int \<Rightarrow> nat \<Rightarrow> (gfield \<times> gval) list \<Rightarrow> int \<Rightarrow> size_error + int"
  and counter_items :: "int \<Rightarrow> nat \<Rightarrow> gval list \<Rightarrow> int \<Rightarrow> size_error + int"
  and counter_members :: "int \<Rightarrow> nat \<Rightarrow> (string \<times> gval) list \<Rightarrow> int \<Rightarrow> size_error + int"
  where
  "counter_value limit GInvalid sz = counter_add limit 4 sz"
| "counter_value limit (GCustom v) sz = Inl CustomEncoder"
| "counter_value limit (GPtr None) sz = counter_add limit 4 sz"
| "counter_value limit (GPtr (Some v)) sz = counter_value limit v sz"
| "counter_value limit (GString s) sz = counter_string limit s sz"
| "counter_value limit (GBool b) sz = counter_add limit (if b then 4 else 5) sz"
| "counter_value limit (GInt i) sz = counter_add limit (int (length (int_text i))) sz"
| "counter_value limit (GUint n) sz = counter_add limit (int (length (dec n))) sz"
| "counter_value limit (GStruct fs) sz =
     and_then (counter_add limit 2 sz) (\<lambda>sz. counter_fields limit 0 fs sz)"
| "counter_value limit (GBytes None) sz = counter_add limit 4 sz"
| "counter_value limit (GBytes (Some bs)) sz =
     counter_add limit (2 + int (b64_encoded_len (length bs))) sz"
| "counter_value limit (GSlice None) sz = counter_add limit 4 sz"
| "counter_value limit (GSlice (Some vs)) sz =
     and_then (counter_add limit 2 sz) (\<lambda>sz. counter_items limit 0 vs sz)"
| "counter_value limit (GArray vs) sz =
     and_then (counter_add limit 2 sz) (\<lambda>sz. counter_items limit 0 vs sz)"
| "counter_value limit (GMap False ms) sz = Inl UnsupportedMap"
| "counter_value limit (GMap True None) sz = counter_add limit 4 sz"
| "counter_value limit (GMap True (Some ms)) sz =
     and_then (counter_add limit 2 sz) (\<lambda>sz. counter_members limit 0 ms sz)"
| "counter_value limit (GOther t) sz = Inl UnsupportedType"
| "counter_fields limit n [] sz = Inr sz"
| "counter_fields limit n ((f, v) # fs) sz =
     (if \<not> gf_Exported f then counter_fields limit n fs sz
      else if tag_name f = ''-'' then counter_fields limit n fs sz
      else if gf_Anonymous f \<or> tag_option f \<noteq> [] \<and> tag_option f \<noteq> ''omitempty''
        then Inl (UnsupportedField (gf_Name f))
      else if tag_option f = ''omitempty'' \<and> jsonSizeEmpty v then counter_fields limit n fs sz
      else and_then (if n > 0 then counter_add limit 1 sz else Inr sz) (\<lambda>sz.
           and_then (counter_string limit (wire_name f) sz) (\<lambda>sz.
           and_then (counter_add limit 1 sz) (\<lambda>sz.
           and_then (counter_value limit v sz) (\<lambda>sz. counter_fields limit (n + 1) fs sz)))))"
| "counter_items limit i [] sz = Inr sz"
| "counter_items limit i (v # vs) sz =
     and_then (if i > 0 then counter_add limit 1 sz else Inr sz) (\<lambda>sz.
     and_then (counter_value limit v sz) (\<lambda>sz. counter_items limit (i + 1) vs sz))"
| "counter_members limit n [] sz = Inr sz"
| "counter_members limit n ((k, v) # ms) sz =
     and_then (if n > 0 then counter_add limit 1 sz else Inr sz) (\<lambda>sz.
     and_then (counter_string limit k sz) (\<lambda>sz.
     and_then (counter_add limit 1 sz) (\<lambda>sz.
     and_then (counter_value limit v sz) (\<lambda>sz. counter_members limit (n + 1) ms sz))))"
  by pat_completeness auto
termination
  by (relation "measure (case_sum
      (case_sum (\<lambda>(_, v, _). size v) (\<lambda>(_, _, fs, _). size_list (size_prod (\<lambda>_. 0) size) fs))
      (case_sum (\<lambda>(_, _, vs, _). size_list size vs) (\<lambda>(_, _, ms, _). size_list (size_prod (\<lambda>_. 0) size) ms)))")
    auto

definition MaxJSONRequestBytes :: int where "MaxJSONRequestBytes = 64 * 2 ^ 20"

text \<open>\<open>validateRemoteRequestSize\<close>: \<open>None\<close> for nil, and the limit or the counter's error.\<close>

definition validateRemoteRequestSize :: "gval \<Rightarrow> size_error option" where
  "validateRemoteRequestSize req = err_of (counter_value MaxJSONRequestBytes req 0)"

section \<open>The counter and the encoding agree\<close>

lemma size_field_termination [termination_simp]:
  fixes kv :: "'a \<times> gval"
  shows "kv \<in> set kvs \<Longrightarrow> size (snd kv) < Suc (size_list (size_prod (\<lambda>_. 0) size) kvs)"
  using size_list_estimation' [of kv kvs "size (snd kv)" "size_prod (\<lambda>_. 0) size"]
  by (cases kv) (simp add: less_Suc_eq_le)

fun plain :: "gval \<Rightarrow> bool" where
  "plain (GPtr (Some v)) \<longleftrightarrow> plain v"
| "plain (GStruct fs) \<longleftrightarrow> plain_names (map fst fs) \<and> list_all (\<lambda>fv. plain (snd fv)) fs"
| "plain (GSlice (Some vs)) \<longleftrightarrow> list_all plain vs"
| "plain (GArray vs) \<longleftrightarrow> list_all plain vs"
| "plain (GMap b (Some ms)) \<longleftrightarrow> list_all (\<lambda>kv. plain (snd kv)) ms"
| "plain _ \<longleftrightarrow> True"

text \<open>A count is exact when it adds the given number of bytes, or stops at a value it does not support.\<close>

definition exact :: "int \<Rightarrow> size_error + int \<Rightarrow> nat \<Rightarrow> int \<Rightarrow> bool" where
  "exact limit r n sz \<longleftrightarrow> r = counter_add limit (int n) sz \<or> r = Inl UnsupportedType"

lemma exact_add [intro]: "int n = m \<Longrightarrow> exact limit (counter_add limit m sz) n sz"
  by (auto simp: exact_def)

lemma exact_then:
  assumes "exact limit r a sz" and "\<And>sz'. sz' \<le> limit \<Longrightarrow> exact limit (f sz') b sz'"
  shows "exact limit (and_then r f) (a + b) sz"
proof (cases "int a > limit - sz")
  case True
  then show ?thesis using assms(1) by (auto simp: exact_def counter_add_def)
next
  case False
  then show ?thesis
    using assms(1) assms(2) [of "sz + int a"]
    by (auto simp: exact_def counter_add_def split: if_splits)
qed

lemma exact_zero: "sz \<le> limit \<Longrightarrow> exact limit (Inr sz) 0 sz"
  by (simp add: exact_def counter_add_def)

lemma string_loop_exact:
  "string_loop remaining rs sz =
     (if sz + (\<Sum>(r, w)\<leftarrow>rs. int (rune_cost r w)) > remaining \<and> rs \<noteq> [] then Inl SizeLimit
      else Inr (sz + (\<Sum>(r, w)\<leftarrow>rs. int (rune_cost r w))))"
proof (induction rs arbitrary: sz)
  case (Cons p rs)
  obtain r w where p: "p = (r, w)" by fastforce
  have "0 \<le> (\<Sum>(r, w)\<leftarrow>rs. int (rune_cost r w))" by (induction rs) auto
  then show ?case by (auto simp: p Cons.IH)
qed simp

lemma int_body_size: "int (body_size s) = (\<Sum>(r, w)\<leftarrow>runes s. int (rune_cost r w))"
proof -
  have "int (\<Sum>(r, w)\<leftarrow>rs. rune_cost r w) = (\<Sum>(r, w)\<leftarrow>rs. int (rune_cost r w))" for rs
    by (induction rs) auto
  then show ?thesis by (simp add: body_size_def)
qed

lemma length_json_quote: "length (json_quote s) = body_size s + 2"
  by (simp add: json_quote_def length_json_body)

lemma counter_string_exact: "counter_string limit s sz = counter_add limit (int (length (json_quote s))) sz"
proof -
  have "int (length s) \<le> int (body_size s)" using length_le_body_size by simp
  moreover have "runes s = [] \<Longrightarrow> body_size s = 0" by (simp add: body_size_def)
  ultimately show ?thesis
    by (auto simp: counter_string_def counter_add_def Let_def string_loop_exact int_body_size [symmetric]
        length_json_quote)
qed

lemma length_join_comma:
  "length (join_comma ts) = (\<Sum>t\<leftarrow>ts. length t) + (length ts - 1)"
  by (induction ts rule: join_comma.induct) auto

text \<open>The bytes of the rest of a list when \<open>n\<close> elements come before it.\<close>

definition rest_size :: "nat \<Rightarrow> string list \<Rightarrow> nat" where
  "rest_size n ts = (\<Sum>t\<leftarrow>ts. length t) + (if n > 0 then length ts else length ts - 1)"

lemma rest_size_Nil [simp]: "rest_size n [] = 0"
  by (simp add: rest_size_def)

lemma rest_size_Cons: "rest_size n (t # ts) = (if n > 0 then 1 else 0) + (length t + rest_size (n + 1) ts)"
  by (simp add: rest_size_def)

lemma rest_size_join: "rest_size 0 ts = length (join_comma ts)"
  by (simp add: rest_size_def length_join_comma)

lemma exact_comma:
  "sz \<le> limit \<Longrightarrow>
   exact limit (if n > 0 then counter_add limit 1 sz else Inr sz) (if n > (0 :: nat) then 1 else 0) sz"
  by (simp add: exact_add exact_zero)

lemma exact_struct:
  assumes "\<And>sz'. sz' \<le> limit \<Longrightarrow> exact limit (f sz') (rest_size 0 ts) sz'"
    and "n = rest_size 0 ts + 2"
  shows "exact limit (and_then (counter_add limit 2 sz) f) n sz"
  using exact_then [of limit "counter_add limit 2 sz" 2 sz f "rest_size 0 ts"] assms exact_add
  by (simp add: add.commute)

lemma exact_element:
  assumes "sz \<le> limit"
    and "\<And>sz. sz \<le> limit \<Longrightarrow> exact limit (g sz) (length t) sz"
    and "\<And>sz. sz \<le> limit \<Longrightarrow> exact limit (f sz) (rest_size (n + 1) ts) sz"
  shows "exact limit (and_then (if n > 0 then counter_add limit 1 sz else Inr sz)
      (\<lambda>sz. and_then (g sz) f)) (rest_size n (t # ts)) sz"
  unfolding rest_size_Cons
  by (rule exact_then [OF exact_comma [OF assms(1)]]) (rule exact_then [OF assms(2,3)])

lemma exact_member:
  assumes "\<And>sz. sz \<le> limit \<Longrightarrow> exact limit (g sz) (length t) sz" and "sz \<le> limit"
  shows "exact limit (and_then (counter_string limit k sz) (\<lambda>sz. and_then (counter_add limit 1 sz) g))
    (length (json_quote k @ '':'' @ t)) sz"
proof -
  have "exact limit (and_then (counter_string limit k sz) (\<lambda>sz. and_then (counter_add limit 1 sz) g))
      (length (json_quote k) + (1 + length t)) sz"
    by (rule exact_then, simp add: counter_string_exact exact_def, rule exact_then)
      (use assms exact_add in auto)
  then show ?thesis by simp
qed

lemma and_then_assoc: "and_then (and_then r f) g = and_then r (\<lambda>x. and_then (f x) g)"
  by (cases r) simp_all

lemma length_sort_members:
  "length (join_comma (map f (sort_key g kts))) = length (join_comma (map f kts))"
proof -
  have "(\<Sum>t\<leftarrow>map f (sort_key g kts). length t) = (\<Sum>t\<leftarrow>map f kts. length t)"
    by (metis (no_types, lifting) mset_map mset_sort sum_mset_sum_list)
  then show ?thesis by (simp add: length_join_comma)
qed

lemma exact_field:
  assumes sz: "sz \<le> limit" and all: "json_fields ((f, v) # fs) = Some ts"
    and v: "\<And>t sz. sz \<le> limit \<Longrightarrow> json_marshal v = Some t \<Longrightarrow> exact limit (counter_value limit v sz) (length t) sz"
    and fs: "\<And>ts n sz. sz \<le> limit \<Longrightarrow> json_fields fs = Some ts \<Longrightarrow>
      exact limit (counter_fields limit n fs sz) (rest_size n ts) sz"
  shows "exact limit (counter_fields limit n ((f, v) # fs) sz) (rest_size n ts) sz"
proof (cases "on_wire f \<and> \<not> (tag_option f = ''omitempty'' \<and> jsonSizeEmpty v)")
  case True
  with all obtain t' ts' where t: "json_marshal v = Some t'" "json_fields fs = Some ts'"
    and ts: "ts = (json_quote (wire_name f) @ '':'' @ t') # ts'"
    and pl: "\<not> gf_Anonymous f" "tag_option f = [] \<or> tag_option f = ''omitempty''"
    by (auto split: if_splits option.splits)
  have step: "counter_fields limit n ((f, v) # fs) sz =
      and_then (if n > 0 then counter_add limit 1 sz else Inr sz) (\<lambda>sz.
         and_then (and_then (counter_string limit (wire_name f) sz) (\<lambda>sz.
           and_then (counter_add limit 1 sz) (counter_value limit v)))
           (counter_fields limit (n + 1) fs))"
    using True pl by (auto simp: on_wire_def and_then_assoc)
  have name: "exact limit (and_then (counter_string limit (wire_name f) sz) (\<lambda>sz.
        and_then (counter_add limit 1 sz) (counter_value limit v)))
      (length (json_quote (wire_name f) @ '':'' @ t')) sz" if "sz \<le> limit" for sz
    by (rule exact_member) (simp_all add: v t that)
  show ?thesis unfolding step ts
    using sz name fs [OF _ t(2)] by (rule exact_element)
next
  case False
  then have "json_fields fs = Some ts" and
    "counter_fields limit n ((f, v) # fs) sz = counter_fields limit n fs sz"
    using all by (auto simp: on_wire_def split: if_splits)
  then show ?thesis using sz fs by simp
qed

definition counts_exactly :: "int \<Rightarrow> gval \<Rightarrow> bool" where
  "counts_exactly limit v \<longleftrightarrow>
     (\<forall>sz t. sz \<le> limit \<longrightarrow> json_marshal v = Some t \<longrightarrow> exact limit (counter_value limit v sz) (length t) sz)"

lemma counter_fields_exact:
  "\<forall>fv \<in> set fs. counts_exactly limit (snd fv) \<Longrightarrow> sz \<le> limit \<Longrightarrow> json_fields fs = Some ts \<Longrightarrow>
     exact limit (counter_fields limit n fs sz) (rest_size n ts) sz"
proof (induction fs arbitrary: n sz ts)
  case Nil
  then show ?case by (simp add: exact_zero)
next
  case (Cons fv fs)
  obtain f v where fv: "fv = (f, v)" by fastforce
  show ?case unfolding fv
    by (rule exact_field) (use Cons fv in \<open>auto simp: counts_exactly_def\<close>)
qed

lemma counter_items_exact:
  "\<forall>v \<in> set vs. counts_exactly limit v \<Longrightarrow> sz \<le> limit \<Longrightarrow> json_items vs = Some ts \<Longrightarrow>
     exact limit (counter_items limit n vs sz) (rest_size n ts) sz"
proof (induction vs arbitrary: n sz ts)
  case Nil
  then show ?case by (simp add: exact_zero)
next
  case (Cons v vs)
  then obtain t' ts' where t: "json_marshal v = Some t'" "json_items vs = Some ts'" and ts: "ts = t' # ts'"
    by (auto split: option.splits)
  have "exact limit (counter_value limit v sz) (length t') sz" if "sz \<le> limit" for sz
    using Cons.prems(1) t(1) that by (simp add: counts_exactly_def)
  moreover have "exact limit (counter_items limit (n + 1) vs sz) (rest_size (n + 1) ts') sz"
    if "sz \<le> limit" for sz using Cons.IH [OF _ that t(2)] Cons.prems(1) by simp
  ultimately show ?case unfolding ts counter_items.simps
    by (rule exact_element [OF Cons.prems(2)])
qed

lemma counter_members_exact:
  "\<forall>kv \<in> set ms. counts_exactly limit (snd kv) \<Longrightarrow> sz \<le> limit \<Longrightarrow> json_members ms = Some kts \<Longrightarrow>
     exact limit (counter_members limit n ms sz) (rest_size n (map (\<lambda>(k, t). json_quote k @ '':'' @ t) kts)) sz"
proof (induction ms arbitrary: n sz kts)
  case Nil
  then show ?case by (simp add: exact_zero)
next
  case (Cons kv ms)
  obtain k v where kv: "kv = (k, v)" by fastforce
  from Cons.prems(3) obtain t' kts' where t: "json_marshal v = Some t'" "json_members ms = Some kts'"
    and kts: "kts = (k, t') # kts'"
    by (auto simp: kv split: option.splits)
  have step: "counter_members limit n (kv # ms) sz =
      and_then (if n > 0 then counter_add limit 1 sz else Inr sz) (\<lambda>sz.
         and_then (and_then (counter_string limit k sz) (\<lambda>sz.
           and_then (counter_add limit 1 sz) (counter_value limit v)))
           (counter_members limit (n + 1) ms))"
    by (simp add: kv and_then_assoc)
  have v: "exact limit (counter_value limit v sz) (length t') sz" if "sz \<le> limit" for sz
    using Cons.prems(1) t(1) that by (simp add: counts_exactly_def kv)
  have "exact limit (and_then (counter_string limit k sz) (\<lambda>sz.
        and_then (counter_add limit 1 sz) (counter_value limit v)))
      (length (json_quote k @ '':'' @ t')) sz" if "sz \<le> limit" for sz
    using v that by (rule exact_member)
  moreover have "exact limit (counter_members limit (n + 1) ms sz)
      (rest_size (n + 1) (map (\<lambda>(k, t). json_quote k @ '':'' @ t) kts')) sz" if "sz \<le> limit" for sz
    using Cons.IH [OF _ that t(2)] Cons.prems(1) by simp
  ultimately show ?case unfolding step kts list.map prod.case
    by (rule exact_element [OF Cons.prems(2)])
qed

lemma counter_exact: "counts_exactly limit v"
proof (induction v)
  case (GStruct fs)
  then have ih: "\<forall>fv \<in> set fs. counts_exactly limit (snd fv)" by (auto simp: snds.simps)
  have "exact limit (counter_value limit (GStruct fs) sz) (length t) sz"
    if "sz \<le> limit" and m: "json_marshal (GStruct fs) = Some t" for sz t
  proof -
    from m obtain ts where ts: "json_fields fs = Some ts" and t: "t = [CHR 0x7B] @ join_comma ts @ [CHR 0x7D]"
      by (auto split: if_splits)
    show ?thesis unfolding counter_value.simps
      by (rule exact_struct, rule counter_fields_exact [OF ih _ ts]) (simp_all add: t rest_size_join)
  qed
  then show ?case by (simp add: counts_exactly_def)
next
  case (GSlice x)
  show ?case
  proof (cases x)
    case (Some vs)
    then have ih: "\<forall>v \<in> set vs. counts_exactly limit v" using GSlice by auto
    have "exact limit (counter_value limit (GSlice (Some vs)) sz) (length t) sz"
      if "sz \<le> limit" and m: "json_marshal (GSlice (Some vs)) = Some t" for sz t
    proof -
      from m obtain ts where ts: "json_items vs = Some ts" and t: "t = ''['' @ join_comma ts @ '']''" by auto
      show ?thesis unfolding counter_value.simps
        by (rule exact_struct, rule counter_items_exact [OF ih _ ts]) (simp_all add: t rest_size_join)
    qed
    then show ?thesis by (simp add: counts_exactly_def Some)
  qed (auto simp: counts_exactly_def)
next
  case (GArray vs)
  then have ih: "\<forall>v \<in> set vs. counts_exactly limit v" by auto
  have "exact limit (counter_value limit (GArray vs) sz) (length t) sz"
    if "sz \<le> limit" and m: "json_marshal (GArray vs) = Some t" for sz t
  proof -
    from m obtain ts where ts: "json_items vs = Some ts" and t: "t = ''['' @ join_comma ts @ '']''" by auto
    show ?thesis unfolding counter_value.simps
      by (rule exact_struct, rule counter_items_exact [OF ih _ ts]) (simp_all add: t rest_size_join)
  qed
  then show ?case by (simp add: counts_exactly_def)
next
  case (GMap b x)
  show ?case
  proof (cases x)
    case (Some ms)
    then have ih: "\<forall>kv \<in> set ms. counts_exactly limit (snd kv)" using GMap by (auto simp: snds.simps)
    have "exact limit (counter_value limit (GMap True (Some ms)) sz) (length t) sz"
      if "sz \<le> limit" and m: "json_marshal (GMap True (Some ms)) = Some t" for sz t
    proof -
      from m obtain kts where k: "json_members ms = Some kts"
        and t: "t = [CHR 0x7B] @ join_comma (map (\<lambda>(k, t). json_quote k @ '':'' @ t) (sort_key fst kts)) @ [CHR 0x7D]"
        by auto
      show ?thesis unfolding counter_value.simps
        by (rule exact_struct, rule counter_members_exact [OF ih _ k])
          (simp_all add: t rest_size_join length_sort_members)
    qed
    then show ?thesis by (cases b) (simp_all add: counts_exactly_def Some)
  qed (cases b; auto simp: counts_exactly_def)
next
  case (GPtr x)
  then show ?case by (cases x) (auto simp: counts_exactly_def)
next
  case (GBytes x)
  then show ?case by (cases x) (auto simp: counts_exactly_def length_b64_encode intro!: exact_add)
qed (auto simp: counts_exactly_def counter_string_exact exact_def)

text \<open>A value that is counted has an encoding.\<close>

lemma counted_fields:
  "\<forall>fv \<in> set fs. \<forall>sz m. counter_value limit (snd fv) sz = Inr m \<longrightarrow> json_marshal (snd fv) \<noteq> None \<Longrightarrow>
   counter_fields limit n fs sz = Inr m \<Longrightarrow> json_fields fs \<noteq> None"
proof (induction fs arbitrary: n sz)
  case (Cons fv fs)
  obtain f v where fv: "fv = (f, v)" by fastforce
  from Cons.prems(2) show ?case
    using Cons.IH Cons.prems(1) unfolding fv
    by (fastforce simp: on_wire_def and_then_Inr_iff split: if_splits option.splits)
qed simp

lemma counted_items:
  "\<forall>v \<in> set vs. \<forall>sz m. counter_value limit v sz = Inr m \<longrightarrow> json_marshal v \<noteq> None \<Longrightarrow>
   counter_items limit n vs sz = Inr m \<Longrightarrow> json_items vs \<noteq> None"
proof (induction vs arbitrary: n sz)
  case (Cons v vs)
  from Cons.prems(2) obtain s1 s2 where "counter_value limit v s1 = Inr s2"
    and "counter_items limit (n + 1) vs s2 = Inr m"
    by (auto simp: and_then_Inr_iff)
  then show ?case using Cons.IH Cons.prems(1) by (fastforce split: option.splits)
qed simp

lemma counted_members:
  "\<forall>kv \<in> set ms. \<forall>sz m. counter_value limit (snd kv) sz = Inr m \<longrightarrow> json_marshal (snd kv) \<noteq> None \<Longrightarrow>
   counter_members limit n ms sz = Inr m \<Longrightarrow> json_members ms \<noteq> None"
proof (induction ms arbitrary: n sz)
  case (Cons kv ms)
  obtain k v where kv: "kv = (k, v)" by fastforce
  from Cons.prems(2) obtain s1 s2 where "counter_value limit v s1 = Inr s2"
    and "counter_members limit (n + 1) ms s2 = Inr m"
    by (auto simp: kv and_then_Inr_iff)
  then show ?case using Cons.IH Cons.prems(1) by (fastforce simp: kv split: option.splits)
qed simp

lemma counted_text:
  "plain v \<Longrightarrow> counter_value limit v sz = Inr m \<Longrightarrow> json_marshal v \<noteq> None"
proof (induction v arbitrary: sz m)
  case (GStruct fs)
  have "\<forall>fv \<in> set fs. \<forall>sz m. counter_value limit (snd fv) sz = Inr m \<longrightarrow> json_marshal (snd fv) \<noteq> None"
    using GStruct.IH GStruct.prems(1) by (fastforce simp: snds.simps list_all_iff)
  then have "json_fields fs \<noteq> None"
    using counted_fields GStruct.prems(2) by (auto simp: and_then_Inr_iff)
  then show ?case using GStruct.prems(1) by simp
next
  case (GPtr x)
  then show ?case by (cases x) auto
next
  case (GBytes x)
  then show ?case by (cases x) auto
next
  case (GSlice x)
  show ?case
  proof (cases x)
    case (Some vs)
    have "\<forall>v \<in> set vs. \<forall>sz m. counter_value limit v sz = Inr m \<longrightarrow> json_marshal v \<noteq> None"
      using GSlice.IH GSlice.prems(1) Some by (fastforce simp: list_all_iff)
    then have "json_items vs \<noteq> None"
      using counted_items GSlice.prems(2) Some by (auto simp: and_then_Inr_iff)
    then show ?thesis using Some by simp
  qed simp
next
  case (GArray vs)
  have "\<forall>v \<in> set vs. \<forall>sz m. counter_value limit v sz = Inr m \<longrightarrow> json_marshal v \<noteq> None"
    using GArray.IH GArray.prems(1) by (fastforce simp: list_all_iff)
  then have "json_items vs \<noteq> None"
    using counted_items GArray.prems(2) by (auto simp: and_then_Inr_iff)
  then show ?case by simp
next
  case (GMap b x)
  show ?case
  proof (cases x)
    case (Some ms)
    have b: "b" using GMap.prems(2) by (cases b) auto
    have "\<forall>kv \<in> set ms. \<forall>sz m. counter_value limit (snd kv) sz = Inr m \<longrightarrow> json_marshal (snd kv) \<noteq> None"
      using GMap.IH GMap.prems(1) Some by (fastforce simp: snds.simps list_all_iff)
    then have "json_members ms \<noteq> None"
      using counted_members GMap.prems(2) Some b by (auto simp: and_then_Inr_iff)
    then show ?thesis using Some b by simp
  qed (use GMap.prems(2) in \<open>cases b; simp\<close>)
qed auto

text \<open>
  What the counter supports: no value of a kind outside its switch (\<open>GOther\<close>) is reached. The values of fields that are not
  written do not matter. No field of \<open>model.RunRequest\<close> has such a kind.
\<close>

fun countable :: "gval \<Rightarrow> bool" where
  "countable (GOther t) \<longleftrightarrow> False"
| "countable (GPtr (Some v)) \<longleftrightarrow> countable v"
| "countable (GStruct fs) \<longleftrightarrow>
     list_all (\<lambda>fv. \<not> on_wire (fst fv) \<or> tag_option (fst fv) = ''omitempty'' \<and> jsonSizeEmpty (snd fv) \<or> countable (snd fv)) fs"
| "countable (GSlice (Some vs)) \<longleftrightarrow> list_all countable vs"
| "countable (GArray vs) \<longleftrightarrow> list_all countable vs"
| "countable (GMap b (Some ms)) \<longleftrightarrow> list_all (\<lambda>kv. countable (snd kv)) ms"
| "countable _ \<longleftrightarrow> True"

lemma and_then_Inl_iff: "and_then r f = Inl e \<longleftrightarrow> r = Inl e \<or> (\<exists>x. r = Inr x \<and> f x = Inl e)"
  by (cases r) simp_all

lemma counter_add_supported [simp]: "counter_add limit n sz \<noteq> Inl UnsupportedType"
  by (simp add: counter_add_def)

lemma counter_string_supported [simp]: "counter_string limit s sz \<noteq> Inl UnsupportedType"
  by (simp add: counter_string_exact)

lemma countable_supported:
  "countable v \<Longrightarrow> counter_value limit v sz \<noteq> Inl UnsupportedType"
  "list_all (\<lambda>fv. \<not> on_wire (fst fv) \<or> tag_option (fst fv) = ''omitempty'' \<and> jsonSizeEmpty (snd fv) \<or> countable (snd fv)) fs \<Longrightarrow>
   counter_fields limit n fs sz \<noteq> Inl UnsupportedType"
  "list_all countable vs \<Longrightarrow> counter_items limit n vs sz \<noteq> Inl UnsupportedType"
  "list_all (\<lambda>kv. countable (snd kv)) ms \<Longrightarrow> counter_members limit n ms sz \<noteq> Inl UnsupportedType"
  by (induction limit v sz and limit n fs sz and limit n vs sz and limit n ms sz
      rule: counter_value_counter_fields_counter_items_counter_members.induct)
    (auto simp: and_then_Inl_iff on_wire_def)

lemma counted_supported:
  "counter_value limit v sz = Inr m \<Longrightarrow> countable v"
  "counter_fields limit n fs sz = Inr m \<Longrightarrow>
   list_all (\<lambda>fv. \<not> on_wire (fst fv) \<or> tag_option (fst fv) = ''omitempty'' \<and> jsonSizeEmpty (snd fv) \<or> countable (snd fv)) fs"
  "counter_items limit n vs sz = Inr m \<Longrightarrow> list_all countable vs"
  "counter_members limit n ms sz = Inr m \<Longrightarrow> list_all (\<lambda>kv. countable (snd kv)) ms"
  by (induction limit v sz and limit n fs sz and limit n vs sz and limit n ms sz arbitrary: m and m and m and m
      rule: counter_value_counter_fields_counter_items_counter_members.induct)
    (auto simp: and_then_Inr_iff on_wire_def split: if_splits)

section \<open>Properties\<close>

text \<open>
  C14. The size check agrees with the encoder. For a request whose types have plain names, the check accepts exactly when no value of a
  kind outside its switch is reached and json.Marshal writes at most 64 MiB; a request with such a
  value is never accepted, and one without whose encoding is longer is rejected for its size, which it is only then.
\<close>

theorem remote_request_size_exact:
  assumes "plain req"
  shows "(validateRemoteRequestSize req = None \<longleftrightarrow>
      countable req \<and> (\<exists>doc. json_marshal req = Some doc \<and> length doc \<le> 67108864)) \<and>
    (\<forall>doc. json_marshal req = Some doc \<longrightarrow>
      (validateRemoteRequestSize req = Some SizeLimit \<longrightarrow> 67108864 < length doc) \<and>
      (countable req \<and> 67108864 < length doc \<longrightarrow> validateRemoteRequestSize req = Some SizeLimit))"
proof -
  have counted: "exact MaxJSONRequestBytes (counter_value MaxJSONRequestBytes req 0) (length doc) 0"
    if "json_marshal req = Some doc" for doc
    using counter_exact [of MaxJSONRequestBytes req] that
    by (simp add: counts_exactly_def MaxJSONRequestBytes_def)
  have measured: "counter_value MaxJSONRequestBytes req 0 =
      (if 67108864 < length doc then Inl SizeLimit else Inr (int (length doc)))"
    if "json_marshal req = Some doc" "countable req" for doc
    using counted [OF that(1)] countable_supported(1) [OF that(2)]
    by (auto simp: exact_def counter_add_def MaxJSONRequestBytes_def)
  have short: "countable req \<and> (\<exists>doc. json_marshal req = Some doc \<and> length doc \<le> 67108864)"
    if "validateRemoteRequestSize req = None"
  proof -
    from that obtain m where m: "counter_value MaxJSONRequestBytes req 0 = Inr m"
      by (auto simp: validateRemoteRequestSize_def err_of_None_iff)
    then obtain doc where doc: "json_marshal req = Some doc" using counted_text [OF assms m] by blast
    show ?thesis using measured [OF doc] counted_supported(1) [OF m] doc m by (auto split: if_splits)
  qed
  show ?thesis
    using short measured counted
    by (auto simp: validateRemoteRequestSize_def exact_def counter_add_def MaxJSONRequestBytes_def split: if_splits)
qed

definition demo_json :: gval where
  "demo_json = GStruct
     [(\<lparr>gf_Name = ''Lang'', gf_Exported = True, gf_Anonymous = False, gf_Tag = ''lang''\<rparr>, GString ''C<''),
      (\<lparr>gf_Name = ''N'', gf_Exported = True, gf_Anonymous = False, gf_Tag = ''n,omitempty''\<rparr>, GInt 0),
      (\<lparr>gf_Name = ''B'', gf_Exported = True, gf_Anonymous = False, gf_Tag = ''b''\<rparr>, GBool True)]"

lemma demo_json_text: "json_marshal demo_json = Some (CHR 0x7B # CHR 0x22 # ''lang'' @ [CHR 0x22, CHR '':'', CHR 0x22] @
    ''C'' @ CHR 0x5C # ''u003c'' @ [CHR 0x22, CHR '','', CHR 0x22] @ ''b'' @ [CHR 0x22, CHR '':''] @ ''true'' @ [CHR 0x7D])"
  by (simp add: demo_json_def plain_names_def on_wire_def tag_name_def tag_option_def wire_name_def plain_char_def
      json_quote_def json_body.simps(2) escape_rune_def hex_digit_def char_of_eq_iff)

theorem remote_request_size_exact_witness: "validateRemoteRequestSize demo_json = None"
proof -
  have "plain demo_json" "countable demo_json"
    by (simp_all add: demo_json_def plain_names_def on_wire_def tag_name_def wire_name_def plain_char_def)
  then show ?thesis
    using remote_request_size_exact [of demo_json] demo_json_text by auto
qed

end
