(* ===== verification/Sse_Result.thy ===== *)
theory Sse_Result
  imports Model_Types Json_Size
begin

text \<open>
  The encoding of an execute result for the event stream, internal/sse/result.go: when the
  encoded response would not fit, \<open>marshalRunResult\<close> shortens the display texts (standard output, standard error and
  reason, of the response and of its steps) and nothing else.

  \<open>RunResponse_gval\<close> is the response as the JSON package sees it, field by field with the tags
  of internal/model/types.go. The text of a score is the parameter \<open>float\<close>; the slices
  without \<open>omitempty\<close> are written as lists, which is what they are when they are not nil.
\<close>

section \<open>The response as a JSON value\<close>

definition json_field :: "string \<Rightarrow> string \<Rightarrow> gval \<Rightarrow> gfield \<times> gval" where
  "json_field name tag v =
     (\<lparr>gf_Name = name, gf_Exported = True, gf_Anonymous = False, gf_Tag = tag\<rparr>, v)"

definition MatchArtifact_gval :: "MatchArtifact \<Rightarrow> gval" where
  "MatchArtifact_gval r = GStruct [
     json_field ''Name'' ''name'' (GString (ma_Name r)),
     json_field ''SHA256'' ''sha256'' (GString (ma_SHA256 r))]"

definition MatchParticipant_gval :: "MatchParticipant \<Rightarrow> gval" where
  "MatchParticipant_gval r = GStruct [
     json_field ''Seat'' ''seat'' (GInt (mp_Seat r)),
     json_field ''ProgramID'' ''program_id'' (GString (mp_ProgramID r)),
     json_field ''SourceSHA256'' ''source_sha256'' (GString (mp_SourceSHA256 r)),
     json_field ''EntryPoint'' ''entry_point,omitempty'' (GString (mp_EntryPoint r)),
     json_field ''Artifacts'' ''artifacts'' (GSlice (Some (map MatchArtifact_gval (mp_Artifacts r)))),
     json_field ''Status'' ''status'' (GString (mp_Status r)),
     json_field ''Reason'' ''reason,omitempty'' (GString (mp_Reason r)),
     json_field ''VerdictSource'' ''verdict_source,omitempty'' (GString (mp_VerdictSource r)),
     json_field ''CPUTimeMs'' ''cpu_time_ms'' (GInt (mp_CPUTimeMs r)),
     json_field ''MemoryKB'' ''memory_kb'' (GInt (mp_MemoryKB r))]"

definition MatchResult_gval :: "MatchResult \<Rightarrow> gval" where
  "MatchResult_gval r = GStruct [
     json_field ''Version'' ''version'' (GInt (mr_Version r)),
     json_field ''Outcome'' ''outcome'' (GString (mr_Outcome r)),
     json_field ''Games'' ''games'' (GInt (mr_Games r)),
     json_field ''Wins'' ''wins,omitempty'' (GPtr (map_option (\<lambda>(a, b). GArray [GInt a, GInt b]) (mr_Wins r))),
     json_field ''Retriable'' ''retriable'' (GBool (mr_Retriable r)),
     json_field ''Participants'' ''participants'' 
       (GSlice (Some (map MatchParticipant_gval (mr_Participants r)))),
     json_field ''Message'' ''message,omitempty'' (GString (mr_Message r)),
     json_field ''MatchSeed'' ''match_seed,omitempty'' (GString (mr_MatchSeed r)),
     json_field ''InputSHA256'' ''input_sha256,omitempty'' (GString (mr_InputSHA256 r)),
     json_field ''RuntimeFingerprint'' ''runtime_fingerprint,omitempty'' (GString (mr_RuntimeFingerprint r)),
     json_field ''RunnerSHA256'' ''runner_sha256,omitempty'' (GString (mr_RunnerSHA256 r)),
     json_field ''ImageDigest'' ''image_digest,omitempty'' (GString (mr_ImageDigest r)),
     json_field ''ErrorCode'' ''error_code,omitempty'' (GString (mr_ErrorCode r))]"

definition StepResult_gval :: "StepResult \<Rightarrow> gval" where
  "StepResult_gval r = GStruct [
     json_field ''ID'' ''id'' (GString (sr_ID r)),
     json_field ''ProgramID'' ''program_id,omitempty'' (GString (sr_ProgramID r)),
     json_field ''Status'' ''status'' (GString (sr_Status r)),
     json_field ''TimeMs'' ''time_ms'' (GInt (sr_TimeMs r)),
     json_field ''WallTimeMs'' ''wall_time_ms'' (GInt (sr_WallTimeMs r)),
     json_field ''CPUTimeMs'' ''cpu_time_ms'' (GInt (sr_CPUTimeMs r)),
     json_field ''RawCPUTimeMs'' ''raw_cpu_time_ms,omitempty'' (GPtr (map_option GInt (sr_RawCPUTimeMs r))),
     json_field ''ProcessCPUTimeMs'' ''process_cpu_time_ms,omitempty'' (GInt (sr_ProcessCPUTimeMs r)),
     json_field ''MemoryKB'' ''memory_kb'' (GInt (sr_MemoryKB r)),
     json_field ''ExitCode'' ''exit_code,omitempty'' (GPtr (map_option GInt (sr_ExitCode r))),
     json_field ''Stdout'' ''stdout,omitempty'' (GString (sr_Stdout r)),
     json_field ''Stderr'' ''stderr,omitempty'' (GString (sr_Stderr r)),
     json_field ''StdoutTruncated'' ''stdout_truncated,omitempty'' (GBool (sr_StdoutTruncated r)),
     json_field ''StderrTruncated'' ''stderr_truncated,omitempty'' (GBool (sr_StderrTruncated r)),
     json_field ''Reason'' ''reason,omitempty'' (GString (sr_Reason r)),
     json_field ''ReasonTruncated'' ''reason_truncated,omitempty'' (GBool (sr_ReasonTruncated r)),
     json_field ''VerdictSource'' ''verdict_source,omitempty'' (GString (sr_VerdictSource r)),
     json_field ''HandoffBytes'' ''handoff_bytes,omitempty'' (GInt (sr_HandoffBytes r))]"

definition CPUTimeNormalization_gval :: "CPUTimeNormalization \<Rightarrow> gval" where
  "CPUTimeNormalization_gval r = GStruct [
     json_field ''Method'' ''method'' (GString (ctn_Method r)),
     json_field ''ScalePPM'' ''scale_ppm'' (GInt (ctn_ScalePPM r)),
     json_field ''ReferenceTimeNs'' ''reference_time_ns'' (GUint (unat (ctn_ReferenceTimeNs r))),
     json_field ''ObservedTimeNs'' ''observed_time_ns'' (GUint (unat (ctn_ObservedTimeNs r)))]"

definition CPUAccounting_gval :: "CPUAccounting \<Rightarrow> gval" where
  "CPUAccounting_gval r = GStruct [
     json_field ''ProcessClockBaselineNs'' ''process_clock_baseline_ns'' (GUint (unat (ca_ProcessClockBaselineNs r))),
     json_field ''RusageBaselineNs'' ''rusage_baseline_ns'' (GUint (unat (ca_RusageBaselineNs r))),
     json_field ''ProcessClockPeakNs'' ''process_clock_peak_ns'' (GUint (unat (ca_ProcessClockPeakNs r))),
     json_field ''WaitUserNs'' ''wait_user_ns'' (GUint (unat (ca_WaitUserNs r))),
     json_field ''WaitSystemNs'' ''wait_system_ns'' (GUint (unat (ca_WaitSystemNs r))),
     json_field ''WaitTargetNs'' ''wait_target_ns'' (GUint (unat (ca_WaitTargetNs r))),
     json_field ''SelectedSource'' ''selected_source'' (GString (ca_SelectedSource r))]"

definition CPUTimeSample_gval :: "CPUTimeSample \<Rightarrow> gval" where
  "CPUTimeSample_gval r = GStruct [
     json_field ''Status'' ''status'' (GString (cs_Status r)),
     json_field ''CPUTimeMs'' ''cpu_time_ms'' (GInt (cs_CPUTimeMs r)),
     json_field ''CPUTimeNs'' ''cpu_time_ns'' (GUint (unat (cs_CPUTimeNs r))),
     json_field ''RawCPUTimeMs'' ''raw_cpu_time_ms,omitempty'' (GPtr (map_option GInt (cs_RawCPUTimeMs r))),
     json_field ''RawCPUTimeNs'' ''raw_cpu_time_ns,omitempty'' (GPtr (map_option (\<lambda>n. GUint (unat n)) (cs_RawCPUTimeNs r))),
     json_field ''WallTimeMs'' ''wall_time_ms'' (GInt (cs_WallTimeMs r)),
     json_field ''MemoryKB'' ''memory_kb'' (GInt (cs_MemoryKB r)),
     json_field ''CPUAccounting'' ''cpu_accounting,omitempty'' (GPtr (map_option CPUAccounting_gval (cs_CPUAccounting r)))]"

definition CPUTimeSampling_gval :: "CPUTimeSampling \<Rightarrow> gval" where
  "CPUTimeSampling_gval r = GStruct [
     json_field ''Method'' ''method'' (GString (cts_Method r)),
     json_field ''SelectedSample'' ''selected_sample'' (GInt (cts_SelectedSample r)),
     json_field ''Samples'' ''samples'' (GSlice (Some (map CPUTimeSample_gval (cts_Samples r))))]"

definition SidecarOutput_gval :: "SidecarOutput \<Rightarrow> gval" where
  "SidecarOutput_gval r = GStruct [
     json_field ''Path'' ''path'' (GString (so_Path r)),
     json_field ''DataB64'' ''data_b64'' (GString (so_DataB64 r))]"

definition SidecarError_gval :: "SidecarError \<Rightarrow> gval" where
  "SidecarError_gval r = GStruct [
     json_field ''Path'' ''path'' (GString (se_Path r)),
     json_field ''Reason'' ''reason'' (GString (se_Reason r))]"

definition RunResponse_gval :: "(rat \<Rightarrow> string) \<Rightarrow> RunResponse \<Rightarrow> gval" where
  "RunResponse_gval float r = GStruct [
     json_field ''Status'' ''status'' (GString (rs_Status r)),
     json_field ''TimeMs'' ''time_ms'' (GInt (rs_TimeMs r)),
     json_field ''WallTimeMs'' ''wall_time_ms'' (GInt (rs_WallTimeMs r)),
     json_field ''CPUTimeMs'' ''cpu_time_ms'' (GInt (rs_CPUTimeMs r)),
     json_field ''CPUTimeNs'' ''cpu_time_ns,omitempty'' (GUint (unat (rs_CPUTimeNs r))),
     json_field ''RawCPUTimeMs'' ''raw_cpu_time_ms,omitempty'' (GPtr (map_option GInt (rs_RawCPUTimeMs r))),
     json_field ''RawCPUTimeNs'' ''raw_cpu_time_ns,omitempty'' (GPtr (map_option (\<lambda>n. GUint (unat n)) (rs_RawCPUTimeNs r))),
     json_field ''CPUAccounting'' ''cpu_accounting,omitempty'' (GPtr (map_option CPUAccounting_gval (rs_CPUAccounting r))),
     json_field ''CPUTimeSampling'' ''cpu_time_sampling,omitempty'' (GPtr (map_option CPUTimeSampling_gval (rs_CPUTimeSampling r))),
     json_field ''ProcessCPUTimeMs'' ''process_cpu_time_ms,omitempty'' (GInt (rs_ProcessCPUTimeMs r)),
     json_field ''CPUTimeNormalization'' ''cpu_time_normalization,omitempty'' (GPtr (map_option CPUTimeNormalization_gval (rs_CPUTimeNormalization r))),
     json_field ''MemoryKB'' ''memory_kb'' (GInt (rs_MemoryKB r)),
     json_field ''ExitCode'' ''exit_code,omitempty'' (GPtr (map_option GInt (rs_ExitCode r))),
     json_field ''Stdout'' ''stdout,omitempty'' (GString (rs_Stdout r)),
     json_field ''Stderr'' ''stderr,omitempty'' (GString (rs_Stderr r)),
     json_field ''StdoutTruncated'' ''stdout_truncated,omitempty'' (GBool (rs_StdoutTruncated r)),
     json_field ''StderrTruncated'' ''stderr_truncated,omitempty'' (GBool (rs_StderrTruncated r)),
     json_field ''Reason'' ''reason,omitempty'' (GString (rs_Reason r)),
     json_field ''ReasonTruncated'' ''reason_truncated,omitempty'' (GBool (rs_ReasonTruncated r)),
     json_field ''VerdictSource'' ''verdict_source,omitempty'' (GString (rs_VerdictSource r)),
     json_field ''Score'' ''score,omitempty'' (GPtr (map_option (\<lambda>q. GOther (Some (float q))) (rs_Score r))),
     json_field ''StartedParticipants'' ''started_participants,omitempty'' (GInt (rs_StartedParticipants r)),
     json_field ''Match'' ''match,omitempty'' (GPtr (map_option MatchResult_gval (rs_Match r))),
     json_field ''Steps'' ''steps,omitempty'' (GSlice (Some (map StepResult_gval (rs_Steps r)))),
     json_field ''SidecarOutputs'' ''sidecar_outputs,omitempty'' (GSlice (Some (map SidecarOutput_gval (rs_SidecarOutputs r)))),
     json_field ''SidecarErrors'' ''sidecar_errors,omitempty'' (GSlice (Some (map SidecarError_gval (rs_SidecarErrors r))))]"

section \<open>Sizes\<close>

text \<open>A value that the package encodes without an error.\<close>

definition encodes :: "gval \<Rightarrow> bool" where
  "encodes v \<longleftrightarrow> json_marshal v \<noteq> None"

definition jsize :: "gval \<Rightarrow> nat" where
  "jsize v = length (the (json_marshal v))"

definition simple_field :: "gfield \<Rightarrow> bool" where
  "simple_field f \<longleftrightarrow> on_wire f \<and> \<not> gf_Anonymous f \<and> (tag_option f = [] \<or> tag_option f = ''omitempty'')"

text \<open>The bytes of a field and of the comma after it.\<close>

definition field_size :: "gfield \<times> gval \<Rightarrow> nat" where
  "field_size fv =
     (if tag_option (fst fv) = ''omitempty'' \<and> jsonSizeEmpty (snd fv) then 0
      else length (json_quote (wire_name (fst fv))) + 2 + jsize (snd fv))"

lemma json_fields_size:
  assumes "\<forall>fv \<in> set fs. simple_field (fst fv) \<and> encodes (snd fv)"
  shows "\<exists>ts. json_fields fs = Some ts \<and> (\<Sum>t\<leftarrow>ts. length t + 1) = (\<Sum>fv\<leftarrow>fs. field_size fv)"
  using assms
proof (induction fs)
  case (Cons fv fs)
  obtain f v where fv: "fv = (f, v)" by fastforce
  from Cons obtain ts where ts: "json_fields fs = Some ts"
    "(\<Sum>t\<leftarrow>ts. length t + 1) = (\<Sum>fv\<leftarrow>fs. field_size fv)" by auto
  from Cons.prems obtain t where "json_marshal v = Some t" by (auto simp: fv encodes_def)
  then show ?case using Cons.prems ts by (auto simp: fv simple_field_def field_size_def jsize_def)
qed simp

lemma length_join_comma_commas: "length (join_comma ts) = (\<Sum>t\<leftarrow>ts. length t + 1) - 1"
proof -
  have "(\<Sum>t\<leftarrow>ts. length t + 1) = (\<Sum>t\<leftarrow>ts. length t) + length ts" by (induction ts) auto
  then show ?thesis by (cases ts) (simp_all add: length_join_comma)
qed

lemma struct_size:
  assumes "\<forall>fv \<in> set fs. simple_field (fst fv) \<and> encodes (snd fv)"
    and "plain_names (map fst fs)"
  shows "encodes (GStruct fs)"
    and "jsize (GStruct fs) = ((\<Sum>fv\<leftarrow>fs. field_size fv) - 1) + 2"
proof -
  obtain ts where "json_fields fs = Some ts" "(\<Sum>t\<leftarrow>ts. length t + 1) = (\<Sum>fv\<leftarrow>fs. field_size fv)"
    using json_fields_size [OF assms(1)] by blast
  then show "encodes (GStruct fs)"
    and "jsize (GStruct fs) = ((\<Sum>fv\<leftarrow>fs. field_size fv) - 1) + 2"
    using assms(2) length_join_comma_commas [of ts] by (simp_all add: jsize_def encodes_def)
qed

lemma json_items_size:
  assumes "\<forall>v \<in> set vs. encodes v"
  shows "\<exists>ts. json_items vs = Some ts \<and> (\<Sum>t\<leftarrow>ts. length t + 1) = (\<Sum>v\<leftarrow>vs. jsize v + 1)"
  using assms
proof (induction vs)
  case (Cons v vs)
  then show ?case by (auto simp: jsize_def encodes_def)
qed simp

lemma slice_size:
  assumes "\<forall>v \<in> set vs. encodes v"
  shows "encodes (GSlice (Some vs))"
    and "jsize (GSlice (Some vs)) = ((\<Sum>v\<leftarrow>vs. jsize v + 1) - 1) + 2"
proof -
  obtain ts where "json_items vs = Some ts" "(\<Sum>t\<leftarrow>ts. length t + 1) = (\<Sum>v\<leftarrow>vs. jsize v + 1)"
    using json_items_size [OF assms] by blast
  then show "encodes (GSlice (Some vs))"
    and "jsize (GSlice (Some vs)) = ((\<Sum>v\<leftarrow>vs. jsize v + 1) - 1) + 2"
    using length_join_comma_commas [of ts] by (simp_all add: jsize_def encodes_def)
qed

lemmas name_eval = plain_names_def json_field_def on_wire_def tag_name_def tag_option_def wire_name_def
  plain_char_def

lemmas field_eval = simple_field_def json_field_def on_wire_def tag_name_def tag_option_def wire_name_def

lemma pointer_text: "(\<And>x. encodes (f x)) \<Longrightarrow> encodes (GPtr (map_option f p))"
  by (cases p) (auto simp: encodes_def)

lemma slice_text: "(\<And>x. encodes (f x)) \<Longrightarrow> encodes (GSlice (Some (map f xs)))"
  by (rule slice_size) auto

named_theorems json_text "values that have an encoding"

lemma scalar_texts [json_text]:
  "encodes (GString s)" "encodes (GBool b)" "encodes (GInt i)" "encodes (GUint n)"
  "encodes (GOther (Some t))" "encodes (GArray [GInt i, GInt k])"
  by (simp_all add: encodes_def)

lemma pointer_texts [json_text]:
  "encodes (GPtr (map_option GInt p))"
  "encodes (GPtr (map_option (\<lambda>n. GUint (g n)) q))"
  "encodes (GPtr (map_option (\<lambda>(a, b). GArray [GInt a, GInt b]) w))"
  "encodes (GPtr (map_option (\<lambda>x. GOther (Some (h x))) z))"
  by (rule pointer_text, simp add: json_text split: prod.splits)+

text \<open>A structure of the wire types meets the conditions of \<open>struct_size\<close>, by evaluation.\<close>

definition wire_struct :: "gval \<Rightarrow> bool" where
  "wire_struct v \<longleftrightarrow> (\<exists>fs. v = GStruct fs \<and> plain_names (map fst fs) \<and>
     (\<forall>fv \<in> set fs. simple_field (fst fv) \<and> encodes (snd fv)))"

lemma wire_structI:
  "plain_names (map fst fs) \<Longrightarrow> \<forall>fv \<in> set fs. simple_field (fst fv) \<and> encodes (snd fv) \<Longrightarrow>
   wire_struct (GStruct fs)"
  by (auto simp: wire_struct_def)

lemma wire_struct_text: "wire_struct v \<Longrightarrow> encodes v"
  using struct_size(1) by (auto simp: wire_struct_def)

lemma wire_struct_size:
  "wire_struct (GStruct fs) \<Longrightarrow> jsize (GStruct fs) = ((\<Sum>fv\<leftarrow>fs. field_size fv) - 1) + 2"
  using struct_size(2) by (auto simp: wire_struct_def)

lemma wire_texts:
  assumes "\<And>x. wire_struct (f x)"
  shows "encodes (f x)"
    and "encodes (GPtr (map_option f p))"
    and "encodes (GSlice (Some (map f xs)))"
  using wire_struct_text [OF assms] pointer_text [of f] slice_text [of f] by auto

lemma MatchArtifact_wire: "wire_struct (MatchArtifact_gval r)"
  unfolding MatchArtifact_gval_def by (rule wire_structI) (simp_all add: name_eval simple_field_def json_text)

lemma MatchParticipant_wire: "wire_struct (MatchParticipant_gval r)"
  unfolding MatchParticipant_gval_def
  by (rule wire_structI)
    (simp_all add: name_eval simple_field_def json_text wire_texts [OF MatchArtifact_wire])

lemma MatchResult_wire: "wire_struct (MatchResult_gval r)"
  unfolding MatchResult_gval_def
  by (rule wire_structI)
    (simp_all add: name_eval simple_field_def json_text wire_texts [OF MatchParticipant_wire])

lemma StepResult_wire: "wire_struct (StepResult_gval r)"
  unfolding StepResult_gval_def
  by (rule wire_structI) (simp_all add: name_eval simple_field_def json_text)

lemma CPUTimeNormalization_wire: "wire_struct (CPUTimeNormalization_gval r)"
  unfolding CPUTimeNormalization_gval_def by (rule wire_structI) (simp_all add: name_eval simple_field_def json_text)

lemma CPUAccounting_wire: "wire_struct (CPUAccounting_gval r)"
  unfolding CPUAccounting_gval_def by (rule wire_structI) (simp_all add: name_eval simple_field_def json_text)

lemma CPUTimeSample_wire: "wire_struct (CPUTimeSample_gval r)"
  unfolding CPUTimeSample_gval_def
  by (rule wire_structI)
    (simp_all add: name_eval simple_field_def json_text wire_texts [OF CPUAccounting_wire])

lemma CPUTimeSampling_wire: "wire_struct (CPUTimeSampling_gval r)"
  unfolding CPUTimeSampling_gval_def
  by (rule wire_structI)
    (simp_all add: name_eval simple_field_def json_text wire_texts [OF CPUTimeSample_wire])

lemma SidecarOutput_wire: "wire_struct (SidecarOutput_gval r)"
  unfolding SidecarOutput_gval_def by (rule wire_structI) (simp_all add: name_eval simple_field_def json_text)

lemma SidecarError_wire: "wire_struct (SidecarError_gval r)"
  unfolding SidecarError_gval_def by (rule wire_structI) (simp_all add: name_eval simple_field_def json_text)

lemma RunResponse_wire: "wire_struct (RunResponse_gval float r)"
  unfolding RunResponse_gval_def
  by (rule wire_structI)
    (simp_all add: name_eval simple_field_def json_text wire_texts [OF MatchResult_wire]
      wire_texts [OF StepResult_wire] wire_texts [OF CPUTimeNormalization_wire]
      wire_texts [OF CPUAccounting_wire] wire_texts [OF CPUTimeSampling_wire]
      wire_texts [OF SidecarOutput_wire] wire_texts [OF SidecarError_wire])

section \<open>The display texts\<close>

text \<open>A display field: its key, its text, and its truncation flag.\<close>

type_synonym display = "string \<times> string \<times> bool"

definition step_display :: "StepResult \<Rightarrow> display list" where
  "step_display s =
     [(''stdout'', sr_Stdout s, sr_StdoutTruncated s), (''stderr'', sr_Stderr s, sr_StderrTruncated s),
      (''reason'', sr_Reason s, sr_ReasonTruncated s)]"

definition display_fields :: "RunResponse \<Rightarrow> display list" where
  "display_fields r =
     [(''stdout'', rs_Stdout r, rs_StdoutTruncated r), (''stderr'', rs_Stderr r, rs_StderrTruncated r),
      (''reason'', rs_Reason r, rs_ReasonTruncated r)] @ concat (map step_display (rs_Steps r))"

text \<open>The response with a function applied to each text and its flag.\<close>

definition map_step :: "(string \<Rightarrow> bool \<Rightarrow> string \<times> bool) \<Rightarrow> StepResult \<Rightarrow> StepResult" where
  "map_step f s = s\<lparr>
     sr_Stdout := fst (f (sr_Stdout s) (sr_StdoutTruncated s)),
     sr_StdoutTruncated := snd (f (sr_Stdout s) (sr_StdoutTruncated s)),
     sr_Stderr := fst (f (sr_Stderr s) (sr_StderrTruncated s)),
     sr_StderrTruncated := snd (f (sr_Stderr s) (sr_StderrTruncated s)),
     sr_Reason := fst (f (sr_Reason s) (sr_ReasonTruncated s)),
     sr_ReasonTruncated := snd (f (sr_Reason s) (sr_ReasonTruncated s))\<rparr>"

definition map_display :: "(string \<Rightarrow> bool \<Rightarrow> string \<times> bool) \<Rightarrow> RunResponse \<Rightarrow> RunResponse" where
  "map_display f r = r\<lparr>
     rs_Stdout := fst (f (rs_Stdout r) (rs_StdoutTruncated r)),
     rs_StdoutTruncated := snd (f (rs_Stdout r) (rs_StdoutTruncated r)),
     rs_Stderr := fst (f (rs_Stderr r) (rs_StderrTruncated r)),
     rs_StderrTruncated := snd (f (rs_Stderr r) (rs_StderrTruncated r)),
     rs_Reason := fst (f (rs_Reason r) (rs_ReasonTruncated r)),
     rs_ReasonTruncated := snd (f (rs_Reason r) (rs_ReasonTruncated r)),
     rs_Steps := map (map_step f) (rs_Steps r)\<rparr>"

definition display_size :: "display \<Rightarrow> nat" where
  "display_size d = (case d of (key, s, b) \<Rightarrow>
     (if s = [] then 0 else length key + 6 + body_size s) + (if b then length key + 18 else 0))"

lemma display_size_eval:
  "display_size (key, s, b) =
     (if s = [] then 0 else length key + 6 + body_size s) + (if b then length key + 18 else 0)"
  by (simp add: display_size_def)

definition blank :: "string \<Rightarrow> bool \<Rightarrow> string \<times> bool" where
  "blank s b = ([], False)"

lemma text_field_size:
  "field_size (json_field name ''stdout,omitempty'' (GString s)) = (if s = [] then 0 else 12 + body_size s)"
  "field_size (json_field name ''stderr,omitempty'' (GString s)) = (if s = [] then 0 else 12 + body_size s)"
  "field_size (json_field name ''reason,omitempty'' (GString s)) = (if s = [] then 0 else 12 + body_size s)"
  "field_size (json_field name ''stdout_truncated,omitempty'' (GBool b)) = (if b then 24 else 0)"
  "field_size (json_field name ''stderr_truncated,omitempty'' (GBool b)) = (if b then 24 else 0)"
  "field_size (json_field name ''reason_truncated,omitempty'' (GBool b)) = (if b then 24 else 0)"
  by (simp_all add: field_size_def field_eval length_json_quote body_size_def runes_ascii rune_cost_def jsize_def)

lemma first_field_size: "field_size (json_field name ''id'' (GString s)) = Suc (body_size s + 7)"
  "field_size (json_field name ''status'' (GString s)) = Suc (body_size s + 11)"
  by (simp_all add: field_size_def field_eval length_json_quote body_size_def runes_ascii rune_cost_def jsize_def)

lemma step_size:
  "jsize (StepResult_gval s) = jsize (StepResult_gval (map_step blank s)) + (\<Sum>d\<leftarrow>step_display s. display_size d)"
proof -
  note w = StepResult_wire [unfolded StepResult_gval_def]
  show ?thesis
    unfolding StepResult_gval_def wire_struct_size [OF w]
    by (simp add: text_field_size first_field_size map_step_def blank_def step_display_def display_size_def)
qed

lemma steps_field_size:
  "field_size (json_field name ''steps,omitempty'' (GSlice (Some (map StepResult_gval ss)))) =
   field_size (json_field name ''steps,omitempty'' (GSlice (Some (map StepResult_gval (map (map_step blank) ss))))) +
     (\<Sum>d\<leftarrow>concat (map step_display ss). display_size d)"
proof (cases "ss = []")
  case False
  have slice: "jsize (GSlice (Some (map StepResult_gval xs))) = ((\<Sum>x\<leftarrow>xs. jsize (StepResult_gval x) + 1) - 1) + 2" for xs
    using slice_size(2) [of "map StepResult_gval xs"] wire_struct_text [OF StepResult_wire] by (simp add: o_def)
  have sum: "(\<Sum>x\<leftarrow>ss. jsize (StepResult_gval x) + 1) =
      (\<Sum>x\<leftarrow>ss. jsize (StepResult_gval (map_step blank x)) + 1) + (\<Sum>d\<leftarrow>concat (map step_display ss). display_size d)"
  proof (induction ss)
    case (Cons x ss)
    then show ?case using step_size [of x] by simp
  qed simp
  have pos: "0 < (\<Sum>x\<leftarrow>ss. jsize (StepResult_gval (map_step blank x)) + 1)" using False by (cases ss) auto
  have field: "field_size (json_field name ''steps,omitempty'' (GSlice (Some (map StepResult_gval xs)))) =
      length (json_quote ''steps'') + 2 + jsize (GSlice (Some (map StepResult_gval xs)))" if "xs \<noteq> []" for xs
    using that by (simp add: field_size_def field_eval)
  show ?thesis
    using False sum pos field [of ss] field [of "map (map_step blank) ss"]
      slice [of ss] slice [of "map (map_step blank) ss"]
    by (simp add: o_def)
qed (simp add: field_size_def field_eval)

lemma run_size:
  "jsize (RunResponse_gval float r) =
     jsize (RunResponse_gval float (map_display blank r)) + (\<Sum>d\<leftarrow>display_fields r. display_size d)"
proof -
  note w = RunResponse_wire [unfolded RunResponse_gval_def]
  show ?thesis
    unfolding RunResponse_gval_def wire_struct_size [OF w] display_fields_def
    unfolding list.map steps_field_size [of _ "rs_Steps r"]
    by (simp add: text_field_size first_field_size map_display_def blank_def display_size_eval)
qed

lemma step_display_map: "step_display (map_step f s) = map (\<lambda>(k, s, b). (k, f s b)) (step_display s)"
  by (simp add: step_display_def map_step_def)

lemma display_fields_map: "display_fields (map_display f r) = map (\<lambda>(k, s, b). (k, f s b)) (display_fields r)"
  by (simp add: display_fields_def map_display_def map_concat o_def step_display_map)

lemma map_step_blank: "map_step blank (map_step f s) = map_step blank s"
  by (simp add: map_step_def blank_def)

lemma map_display_blank: "map_display blank (map_display f r) = map_display blank r"
  by (simp add: map_display_def blank_def map_step_blank o_def)

section \<open>Clipping and sharing the space\<close>

function clip_from :: "nat \<Rightarrow> nat \<Rightarrow> string \<Rightarrow> string" where
  "clip_from limit used [] = []"
| "clip_from limit used (a # s) =
     (let w = snd (decode_rune (a # s)); cost = rune_cost (fst (decode_rune (a # s))) w in
      if used + cost > limit then []
      else take w (a # s) @ clip_from limit (used + cost) (drop w (a # s)))"
  by pat_completeness auto
termination
proof (relation "measure (\<lambda>(_, _, s). length s)")
  fix limit used w :: nat and a :: char and s :: string and cost
  assume "w = snd (decode_rune (a # s))"
  then have "1 \<le> w" using decode_rune_width [of "a # s"] by simp
  then show "((limit, used + cost, drop w (a # s)), limit, used, a # s) \<in> measure (\<lambda>(_, _, s). length s)" by simp
qed simp

declare clip_from.simps(2) [simp del]

definition clipJSONString :: "string \<Rightarrow> nat \<Rightarrow> string" where
  "clipJSONString val limit = clip_from limit 0 val"

text \<open>The binary search for the share: \<open>n\<close> is the space all fields take when each has at most the argument.\<close>

function share_search :: "(nat \<Rightarrow> int) \<Rightarrow> int \<Rightarrow> nat \<Rightarrow> nat \<Rightarrow> nat" where
  "share_search n available low high =
     (if low < high then
        (let mid = low + (high - low + 1) div 2 in
         if n mid \<le> available then share_search n available mid high
         else share_search n available low (mid - 1))
      else low)"
  by pat_completeness auto
termination
  by (relation "measure (\<lambda>(_, _, low, high). high - low)") auto

declare share_search.simps [simp del]

datatype result_error = ResultEncoding | ResultMetadata | ResultTooLarge

definition truncation :: "nat \<Rightarrow> string \<Rightarrow> bool \<Rightarrow> string \<times> bool" where
  "truncation low original truncated =
     (let val = clipJSONString original low in (val, truncated \<or> length val < length original))"

definition base_response :: "RunResponse \<Rightarrow> RunResponse" where
  "base_response response = map_display (\<lambda>original truncated. ([], truncated \<or> original \<noteq> [])) response"

definition marshalRunResult :: "(rat \<Rightarrow> string) \<Rightarrow> RunResponse \<Rightarrow> int \<Rightarrow> result_error + string" where
  "marshalRunResult float response limit =
     (let fields = display_fields response;
          keyBytes = (\<Sum>(key, s, b)\<leftarrow>fields. if s \<noteq> [] then int (length key) + 6 else 0);
          totalBytes = (\<Sum>(key, s, b)\<leftarrow>fields. int (body_size s));
          largest = fold max (map (\<lambda>(key, s, b). body_size s) fields) 0 in
      case json_marshal (RunResponse_gval float (base_response response)) of
        None \<Rightarrow> Inl ResultEncoding
      | Some encoded \<Rightarrow>
          (let fullBytes = int (length encoded) + keyBytes + totalBytes
                 - (\<Sum>(key, s, b)\<leftarrow>fields. if s \<noteq> [] \<and> \<not> b then int (length key) + 18 else 0);
               available = limit - int (length encoded) - keyBytes in
           if fullBytes \<le> limit then
             (case json_marshal (RunResponse_gval float response) of
                None \<Rightarrow> Inl ResultEncoding | Some t \<Rightarrow> Inr t)
           else if available < 0 then Inl ResultMetadata
           else
             (let low = share_search (\<lambda>mid. \<Sum>(key, s, b)\<leftarrow>fields. int (min (body_size s) mid)) available 0 largest;
                  response' = (if totalBytes > available then map_display (truncation low) response else response) in
              case json_marshal (RunResponse_gval float response') of
                None \<Rightarrow> Inl ResultEncoding
              | Some t \<Rightarrow> if int (length t) > limit then Inl ResultTooLarge else Inr t)))"

section \<open>Clipping keeps whole runes\<close>

lemma clip_from_take: "\<exists>k \<le> length s. clip_from limit used s = take k s"
proof (induction limit used s rule: clip_from.induct)
  case (2 limit used a s)
  let ?w = "snd (decode_rune (a # s))"
  have w: "?w \<le> length (a # s)" using decode_rune_width [of "a # s"] by simp
  show ?case
  proof (cases "used + rune_cost (fst (decode_rune (a # s))) ?w > limit")
    case True
    then show ?thesis by (auto simp: clip_from.simps(2) Let_def)
  next
    case False
    with 2 obtain k where k: "k \<le> length (drop ?w (a # s))"
      "clip_from limit (used + rune_cost (fst (decode_rune (a # s))) ?w) (drop ?w (a # s)) = take k (drop ?w (a # s))"
      by auto
    have "clip_from limit used (a # s) = take (?w + k) (a # s)"
      using False k(2) by (simp only: clip_from.simps(2) Let_def if_False take_add)
    then show ?thesis using k(1) w by (intro exI [of _ "?w + k"]) auto
  qed
qed simp

lemma body_size_step:
  "s \<noteq> [] \<Longrightarrow> body_size s = rune_cost (fst (decode_rune s)) (snd (decode_rune s)) + body_size (drop (snd (decode_rune s)) s)"
  by (cases s) (simp_all add: body_size_def runes.simps(2) case_prod_beta)

lemma clip_from_size:
  "used \<le> limit \<Longrightarrow> used + body_size (clip_from limit used s) \<le> limit \<and>
     body_size (clip_from limit used s) \<le> body_size s \<and>
     (used + body_size s \<le> limit \<longrightarrow> clip_from limit used s = s)"
proof (induction limit used s rule: clip_from.induct)
  case (1 limit used)
  then show ?case by (simp add: body_size_def)
next
  case (2 limit used a s)
  let ?d = "decode_rune (a # s)"
  let ?rest = "drop (snd ?d) (a # s)" and ?cost = "rune_cost (fst ?d) (snd ?d)"
  have step: "body_size (a # s) = ?cost + body_size ?rest" using body_size_step by blast
  show ?case
  proof (cases "used + ?cost > limit")
    case True
    moreover have "used + body_size (a # s) > limit" using True step by simp
    ultimately show ?thesis using "2.prems" by (simp add: clip_from.simps(2) Let_def body_size_def)
  next
    case False
    let ?c = "clip_from limit (used + ?cost) ?rest"
    have c: "clip_from limit used (a # s) = take (snd ?d) (a # s) @ ?c"
      using False by (simp add: clip_from.simps(2) Let_def)
    have ih: "used + ?cost + body_size ?c \<le> limit" "body_size ?c \<le> body_size ?rest"
      "used + ?cost + body_size ?rest \<le> limit \<longrightarrow> ?c = ?rest"
      using 2 False by simp_all
    obtain k where k: "?c = take k ?rest" using clip_from_take by blast
    let ?t = "take (snd ?d + k) (a # s)"
    have t: "clip_from limit used (a # s) = ?t" using c k by (simp add: take_add)
    have "1 \<le> snd ?d" using decode_rune_width [of "a # s"] by simp
    then have "?t \<noteq> []" by simp
    moreover have "decode_rune ?t = ?d" by (rule decode_rune_take) simp_all
    moreover have "drop (snd ?d) ?t = ?c" using k by (simp add: take_drop add.commute)
    ultimately have "body_size ?t = ?cost + body_size ?c" using body_size_step [of ?t] by simp
    then have size: "body_size (clip_from limit used (a # s)) = ?cost + body_size ?c" by (simp only: t)
    have "clip_from limit used (a # s) = a # s" if "used + body_size (a # s) \<le> limit"
    proof -
      have "?c = ?rest" using that ih(3) step by simp
      then show ?thesis unfolding c by (simp only: append_take_drop_id)
    qed
    then show ?thesis using ih(1,2) unfolding size step by simp
  qed
qed

lemma clipJSONString_size:
  "body_size (clipJSONString s limit) \<le> min (body_size s) limit"
  "body_size s \<le> limit \<Longrightarrow> clipJSONString s limit = s"
  "\<exists>k \<le> length s. clipJSONString s limit = take k s"
  using clip_from_size [of 0 limit s] clip_from_take [of s limit 0] by (simp_all add: clipJSONString_def)

lemma share_search_fits:
  assumes "mono n" and "n low \<le> available" and "low \<le> high"
  shows "n (share_search n available low high) \<le> available \<and> share_search n available low high \<le> high \<and>
    (\<forall>m. share_search n available low high < m \<and> m \<le> high \<longrightarrow> available < n m)"
  using assms(2,3)
proof (induction "high - low" arbitrary: low high rule: less_induct)
  case less
  let ?mid = "low + (high - low + 1) div 2"
  show ?case
  proof (cases "low < high")
    case True
    then have mid: "low < ?mid" "?mid \<le> high" by auto
    show ?thesis
    proof (cases "n ?mid \<le> available")
      case fits: True
      then have "share_search n available low high = share_search n available ?mid high"
        using True by (simp add: share_search.simps [of n available low high] Let_def)
      moreover have "high - ?mid < high - low" using mid True by (rule_tac diff_less_mono2) auto
      ultimately show ?thesis using less.hyps [OF _ fits mid(2)] by simp
    next
      case False
      have s: "share_search n available low high = share_search n available low (?mid - 1)"
        using True False by (simp add: share_search.simps [of n available low high] Let_def)
      have big: "available < n m" if "?mid \<le> m" for m using monoD [OF assms(1) that] False by simp
      have "?mid - 1 - low < high - low" "low \<le> ?mid - 1" using mid True by linarith+
      note less.hyps [OF this(1) less.prems(1) this(2)]
      then have ih: "n (share_search n available low (?mid - 1)) \<le> available"
        "share_search n available low (?mid - 1) \<le> ?mid - 1"
        "\<And>m. share_search n available low (?mid - 1) < m \<Longrightarrow> m \<le> ?mid - 1 \<Longrightarrow> available < n m"
        by blast+
      have "available < n m" if "share_search n available low (?mid - 1) < m" for m
        using big [of m] ih(3) [OF that] by (cases "?mid \<le> m") auto
      moreover have "share_search n available low (?mid - 1) \<le> high" using ih(2) mid(2) by linarith
      ultimately show ?thesis unfolding s using ih(1) by blast
    qed
  next
    case False
    then have "share_search n available low high = low" by (subst share_search.simps) simp
    then show ?thesis using less.prems False by auto
  qed
qed

section \<open>The size of the result\<close>

lemma sum_int: "int (\<Sum>x\<leftarrow>xs. f x) = (\<Sum>x\<leftarrow>xs. int (f x))"
  by (induction xs) auto

lemma sum_display_le:
  assumes "\<And>k s b. (k, s, b) \<in> set ds \<Longrightarrow> f (k, s, b) \<le> g (k, s, b)"
  shows "(\<Sum>d\<leftarrow>ds. f d) \<le> (\<Sum>d\<leftarrow>ds. g d :: int)"
  using assms by (intro sum_list_mono) auto

abbreviation run_text_size :: "(rat \<Rightarrow> string) \<Rightarrow> RunResponse \<Rightarrow> int" where
  "run_text_size float r \<equiv> int (jsize (RunResponse_gval float r))"

lemma run_size_map:
  "run_text_size float (map_display f r) = run_text_size float (map_display blank r) +
     (\<Sum>(k, s, b)\<leftarrow>display_fields r. int (display_size (k, f s b)))"
  using run_size [of float "map_display f r"]
  by (simp add: map_display_blank display_fields_map sum_int o_def case_prod_unfold)

lemma base_size:
  "run_text_size float (base_response r) = run_text_size float (map_display blank r) +
     (\<Sum>(k, s, b)\<leftarrow>display_fields r. if b \<or> s \<noteq> [] then int (length k) + 18 else 0)"
  unfolding base_response_def
  by (subst run_size_map) (auto simp: display_size_eval intro!: arg_cong [of _ _ sum_list] map_cong)

lemma full_size:
  "run_text_size float (base_response r)
     + (\<Sum>(k, s, b)\<leftarrow>display_fields r. if s \<noteq> [] then int (length k) + 6 else 0)
     + (\<Sum>(k, s, b)\<leftarrow>display_fields r. int (body_size s))
     - (\<Sum>(k, s, b)\<leftarrow>display_fields r. if s \<noteq> [] \<and> \<not> b then int (length k) + 18 else 0)
   = run_text_size float r"
proof -
  have "(\<Sum>(k, s, b)\<leftarrow>ds. if b \<or> s \<noteq> [] then int (length k) + 18 else 0)
      + (\<Sum>(k, s, b)\<leftarrow>ds. if s \<noteq> [] then int (length k) + 6 else 0)
      + (\<Sum>(k, s, b)\<leftarrow>ds. int (body_size s))
      - (\<Sum>(k, s, b)\<leftarrow>ds. if s \<noteq> [] \<and> \<not> b then int (length k) + 18 else 0)
      = (\<Sum>d\<leftarrow>ds. int (display_size d))" for ds :: "display list"
    by (induction ds) (auto simp: display_size_eval body_size_def)
  from this [of "display_fields r"] show ?thesis
    unfolding base_size using run_size [of float r] by (simp add: sum_int o_def)
qed

lemma clipped_display_size:
  "int (display_size (k, truncation low s b)) \<le>
     (if b \<or> s \<noteq> [] then int (length k) + 18 else 0) + (if s \<noteq> [] then int (length k) + 6 else 0)
     + int (min (body_size s) low)"
proof -
  have "clipJSONString [] low = []" by (simp add: clipJSONString_def)
  moreover have "s \<noteq> []" if "length (clipJSONString s low) < length s" using that by auto
  ultimately show ?thesis
    using clipJSONString_size(1) [of s low]
    by (cases "s = []") (auto simp: truncation_def Let_def display_size_eval body_size_def)
qed

lemma clipped_size:
  "run_text_size float (map_display (truncation low) r) \<le> run_text_size float (base_response r)
     + (\<Sum>(k, s, b)\<leftarrow>display_fields r. if s \<noteq> [] then int (length k) + 6 else 0)
     + (\<Sum>(k, s, b)\<leftarrow>display_fields r. int (min (body_size s) low))"
proof -
  have "(\<Sum>(k, s, b)\<leftarrow>ds. int (display_size (k, truncation low s b))) \<le>
      (\<Sum>(k, s, b)\<leftarrow>ds. if b \<or> s \<noteq> [] then int (length k) + 18 else 0)
      + (\<Sum>(k, s, b)\<leftarrow>ds. if s \<noteq> [] then int (length k) + 6 else 0)
      + (\<Sum>(k, s, b)\<leftarrow>ds. int (min (body_size s) low))" for ds :: "display list"
  proof (induction ds)
    case (Cons d ds)
    obtain k s b where "d = (k, s, b)" by (cases d)
    then show ?case using Cons clipped_display_size [of k low s b] by simp
  qed simp
  from this [of "display_fields r"] show ?thesis
    unfolding base_size by (subst run_size_map) simp
qed

lemma map_step_id: "(\<And>s b. f s b = (s, b)) \<Longrightarrow> map_step f x = x"
  by (simp add: map_step_def)

lemma truncation_parts:
  "\<exists>t. s = fst (truncation low s b) @ t"
  "snd (truncation low s b) = (b \<or> fst (truncation low s b) \<noteq> s)"
proof -
  obtain k where k: "k \<le> length s" "clipJSONString s low = take k s" using clipJSONString_size(3) by blast
  then show "\<exists>t. s = fst (truncation low s b) @ t"
    by (auto simp: truncation_def Let_def intro: exI [of _ "drop k s"])
  show "snd (truncation low s b) = (b \<or> fst (truncation low s b) \<noteq> s)"
    using k by (auto simp: truncation_def Let_def)
qed

text \<open>
  \<open>shortened r r'\<close>: the responses differ at most in their display texts, each text of \<open>r'\<close> is a
  prefix of that of \<open>r\<close>, and a text that was cut is marked as such.
\<close>

definition shortened :: "RunResponse \<Rightarrow> RunResponse \<Rightarrow> bool" where
  "shortened r r' \<longleftrightarrow> map_display blank r' = map_display blank r \<and>
     list_all2 (\<lambda>(k, s, b) (k', s', b'). k' = k \<and> (\<exists>t. s = s' @ t) \<and> b' = (b \<or> s' \<noteq> s))
       (display_fields r) (display_fields r')"

lemma shortened_refl: "shortened r r"
  by (auto simp: shortened_def list_all2_same)

lemma shortened_truncation: "shortened r (map_display (truncation low) r)"
  unfolding shortened_def map_display_blank display_fields_map list_all2_map2
  by (simp add: list_all2_same case_prod_unfold truncation_parts(1)) (use truncation_parts(2) in blast)

lemma run_text: "json_marshal (RunResponse_gval float r) = Some t \<Longrightarrow> int (length t) = run_text_size float r"
  by (simp add: jsize_def)

lemma run_encodes: "\<exists>t. json_marshal (RunResponse_gval float r) = Some t"
  using wire_struct_text [OF RunResponse_wire] by (simp add: encodes_def)

lemma marshalRunResult_cases:
  obtains (whole) t where "json_marshal (RunResponse_gval float r) = Some t" "int (length t) \<le> limit"
      "marshalRunResult float r limit = Inr t"
  | (metadata) "limit < run_text_size float r" "marshalRunResult float r limit = Inl ResultMetadata"
  | (cut) t r' where "limit < run_text_size float r" "json_marshal (RunResponse_gval float r') = Some t"
      "int (length t) \<le> limit" "shortened r r'" "marshalRunResult float r limit = Inr t"
proof -
  let ?ds = "display_fields r"
  let ?key = "(\<Sum>(key, s, b)\<leftarrow>?ds. if s \<noteq> [] then int (length key) + 6 else 0)"
  let ?total = "(\<Sum>(key, s, b)\<leftarrow>?ds. int (body_size s))"
  let ?n = "\<lambda>mid. \<Sum>(key, s, b)\<leftarrow>?ds. int (min (body_size s) mid)"
  let ?largest = "fold max (map (\<lambda>(key, s, b). body_size s) ?ds) 0"
  obtain base t where b: "json_marshal (RunResponse_gval float (base_response r)) = Some base"
    and t: "json_marshal (RunResponse_gval float r) = Some t"
    using run_encodes by metis
  let ?available = "limit - int (length base) - ?key"
  let ?low = "share_search ?n ?available 0 ?largest"
  let ?r = "if ?total > ?available then map_display (truncation ?low) r else r"
  have full: "int (length base) + ?key + ?total
      - (\<Sum>(key, s, b)\<leftarrow>?ds. if s \<noteq> [] \<and> \<not> b then int (length key) + 18 else 0) = run_text_size float r"
    unfolding run_text [OF b] by (rule full_size)
  obtain t' where t': "json_marshal (RunResponse_gval float ?r) = Some t'" using run_encodes by blast
  have result: "marshalRunResult float r limit =
      (if run_text_size float r \<le> limit then Inr t
       else if ?available < 0 then Inl ResultMetadata
       else if int (length t') > limit then Inl ResultTooLarge else Inr t')"
    unfolding marshalRunResult_def Let_def b option.case full t t' ..
  have fits: "int (length t') \<le> limit" if big: "\<not> run_text_size float r \<le> limit" and pos: "\<not> ?available < 0"
  proof -
    have adj: "0 \<le> (\<Sum>(key, s, b)\<leftarrow>?ds. if s \<noteq> [] \<and> \<not> b then int (length key) + 18 else 0)"
      by (rule sum_list_nonneg) auto
    then have "?total > ?available" using big full by linarith
    then have r: "?r = map_display (truncation ?low) r" by simp
    have "mono ?n"
      by (intro monoI sum_list_mono) (auto split: prod.splits)
    moreover have "?n 0 \<le> ?available"
      using pos by (simp add: case_prod_unfold)
    ultimately have "?n ?low \<le> ?available" using share_search_fits [of ?n 0 ?available ?largest] by blast
    moreover have "int (length t') \<le> int (length base) + ?key + ?n ?low"
      using clipped_size [of float ?low r] run_text [OF b] run_text [OF t'] unfolding r by linarith
    ultimately show ?thesis by linarith
  qed
  show thesis
  proof (cases "run_text_size float r \<le> limit")
    case True
    then show thesis using whole [OF t] result run_text [OF t] by simp
  next
    case False
    show thesis
    proof (cases "?available < 0")
      case True
      then show thesis using metadata result False by simp
    next
      case pos: False
      have "shortened r ?r" using shortened_refl shortened_truncation by simp
      then show thesis using cut [OF _ t' fits [OF False pos]] result False pos fits [OF False pos] by simp
    qed
  qed
qed

lemma sse_result_written:
  assumes "marshalRunResult float r limit = Inr out"
  shows "\<exists>r'. json_marshal (RunResponse_gval float r') = Some out"
  by (cases rule: marshalRunResult_cases [of float r limit]) (use assms in auto)

section \<open>Properties\<close>

text \<open>
  C12. The result event always fits its limit. marshalRunResult writes the response unchanged
  when its encoding fits; otherwise it writes a response that differs only in display texts, each a prefix
  of the original that is marked when it was cut, and whose encoding fits. The only error is the one for a response
  whose other data is too large; the check after the second encoding never fails.
\<close>

theorem sse_result_fits:
  "(\<forall>doc. json_marshal (RunResponse_gval float r) = Some doc \<and> int (length doc) \<le> limit \<longrightarrow>
      marshalRunResult float r limit = Inr doc) \<and>
   (case marshalRunResult float r limit of
      Inl e \<Rightarrow> e = ResultMetadata
    | Inr out \<Rightarrow> int (length out) \<le> limit \<and>
        (\<exists>r'. shortened r r' \<and> json_marshal (RunResponse_gval float r') = Some out))"
  by (cases rule: marshalRunResult_cases [of float r limit]) (use shortened_refl run_text in \<open>fastforce\<close>)+

theorem sse_result_fits_witness:
  "\<exists>doc. json_marshal (RunResponse_gval (\<lambda>_. ''0'') (zero_RunResponse\<lparr>rs_Stdout := ''<''\<rparr>)) = Some doc \<and>
     marshalRunResult (\<lambda>_. ''0'') (zero_RunResponse\<lparr>rs_Stdout := ''<''\<rparr>) 200 = Inr doc"
proof -
  let ?r = "zero_RunResponse\<lparr>rs_Stdout := ''<''\<rparr>" and ?g = "RunResponse_gval (\<lambda>_. ''0'')"
  obtain doc where doc: "json_marshal (?g ?r) = Some doc" using run_encodes by blast
  have "jsize (?g ?r) \<le> 200"
    using wire_struct_size [OF RunResponse_wire [unfolded RunResponse_gval_def], of ?r "\<lambda>_. ''0''"]
    unfolding RunResponse_gval_def
    by (simp add: zero_RunResponse_def field_size_def field_eval length_json_quote body_size_def runes_ascii
        rune_cost_def jsize_def int_text_def dec.simps)
  then show ?thesis using doc sse_result_fits [of "\<lambda>_. ''0''" ?r 200] by (simp add: jsize_def)
qed

end
