(* ===== verification/Sse_Stream.thy ===== *)
theory Sse_Stream
  imports Sse_Result
begin

text \<open>
  The event streams: what internal/sse/writer.go and compile.go write, and what \<open>SSEReader\<close> of
  internal/remoteio/sse.go reads. The reader is over a body given as the string of its bytes; the
  buffer of \<open>bufio.Reader\<close> has 4096 bytes, so a longer line arrives in several parts.
\<close>

section \<open>The reader\<close>

record sse_limits =
  maxLineBytes :: nat
  maxEventBytes :: nat
  maxStreamBytes :: nat

definition DefaultSSELineBytes :: nat where "DefaultSSELineBytes = 64 * 2 ^ 20"
definition DefaultSSEEventBytes :: nat where "DefaultSSEEventBytes = 64 * 2 ^ 20"
definition DefaultSSEStreamBytes :: nat where "DefaultSSEStreamBytes = 128 * 2 ^ 20"

definition NewSSEReader :: sse_limits where
  "NewSSEReader = \<lparr>maxLineBytes = DefaultSSELineBytes, maxEventBytes = DefaultSSEEventBytes,
     maxStreamBytes = DefaultSSEStreamBytes\<rparr>"

datatype sse_error = SseStreamTooLarge | SseLineTooLarge | SseEventTooLarge | SseEOF

abbreviation newline :: char where
  "newline \<equiv> CHR 0x0A"

definition bufferSize :: nat where "bufferSize = 4096"

text \<open>\<open>ReadSlice\<close>: up to and with the newline, or a full buffer, or what is left.\<close>

definition read_slice :: "string \<Rightarrow> string" where
  "read_slice s =
     (if newline \<in> set (take bufferSize s) then takeWhile (\<lambda>c. c \<noteq> newline) s @ [newline]
      else take bufferSize s)"

definition trim_line :: "string \<Rightarrow> string" where
  "trim_line = trim_right (\<lambda>c. c = CHR 0x0D \<or> c = newline)"

lemma takeWhile_newline: "newline \<notin> set t \<Longrightarrow> takeWhile (\<lambda>c. c \<noteq> newline) (t @ newline # u) = t"
  by (induction t) auto

function read_line :: "sse_limits \<Rightarrow> string \<Rightarrow> nat \<Rightarrow> string \<Rightarrow> sse_error + string \<times> string \<times> nat" where
  "read_line L buf bytesRead s =
     (let part = read_slice s; rest = drop (length part) s; n = bytesRead + length part in
      if part = [] then (if buf = [] then Inl SseEOF else Inr (trim_line buf, rest, bytesRead))
      else if n > maxStreamBytes L then Inl SseStreamTooLarge
      else if length (buf @ part) > maxLineBytes L then Inl SseLineTooLarge
      else if last part = newline then Inr (trim_line (buf @ part), rest, n)
      else if length part = bufferSize then read_line L (buf @ part) n rest
      else Inr (trim_line (buf @ part), rest, n))"
  by pat_completeness auto
termination
proof (relation "measure (\<lambda>(_, _, _, s). length s)")
  fix L buf s part rest n and bytesRead :: nat
  assume part: "part = read_slice s" "part \<noteq> []" and rest: "rest = drop (length part) s"
  have "s \<noteq> []" using part by (auto simp: read_slice_def)
  moreover have "0 < length part" using part by simp
  ultimately show "((L, buf @ part, n, rest), L, buf, bytesRead, s) \<in> measure (\<lambda>(_, _, _, s). length s)"
    by (simp add: rest)
qed simp

declare read_line.simps [simp del]

lemma read_line_shorter:
  "read_line L buf n s = Inr (line, rest, n') \<Longrightarrow> length rest \<le> length s \<and> (buf = [] \<longrightarrow> length rest < length s)"
proof (induction L buf n s rule: read_line.induct)
  case (1 L buf n s)
  let ?part = "read_slice s"
  have p: "?part \<noteq> [] \<Longrightarrow> length (drop (length ?part) s) < length s"
  proof -
    assume "?part \<noteq> []"
    moreover from this have "s \<noteq> []" by (auto simp: read_slice_def)
    ultimately show ?thesis by simp
  qed
  from 1(2) show ?case
    using 1(1) [OF refl refl refl] p
    by (subst (asm) read_line.simps) (fastforce simp: Let_def split: if_splits)
qed

text \<open>
  \<open>Next\<close>: the loop over the lines, with the name and the data seen so far. The result is the event,
  the bytes read and the rest of the body.
\<close>

type_synonym sse_event = "string \<times> string"

definition add_data :: "string \<Rightarrow> string \<Rightarrow> string" where
  "add_data data val = (if data \<noteq> [] then data @ [newline] @ val else val)"

function next_event ::
  "sse_limits \<Rightarrow> string \<Rightarrow> string \<Rightarrow> nat \<Rightarrow> string \<Rightarrow> sse_error + sse_event \<times> nat \<times> string" where
  "next_event L eventName data n s =
     (case read_line L [] n s of
        Inl e \<Rightarrow> if e = SseEOF \<and> eventName \<noteq> [] then Inr ((eventName, data), n, []) else Inl e
      | Inr (line, rest, n') \<Rightarrow>
          if line = [] then
            (if eventName = [] then next_event L [] [] n' rest else Inr ((eventName, data), n', rest))
          else if has_prefix line '':'' then next_event L eventName data n' rest
          else if has_prefix line ''event:'' then next_event L (trim_space (drop 6 line)) data n' rest
          else if has_prefix line ''data:'' then
            (let val = trim_space (drop 5 line) in
             if length data + length val + (if data \<noteq> [] then 1 else 0) > maxEventBytes L
               then Inl SseEventTooLarge
             else next_event L eventName (add_data data val) n' rest)
          else next_event L eventName data n' rest)"
  by pat_completeness auto
termination
  by (relation "measure (\<lambda>(_, _, _, _, s). length s)") (auto dest: read_line_shorter)

declare next_event.simps [simp del]

lemma next_event_shorter:
  "next_event L name data n s = Inr (ev, n', rest) \<Longrightarrow> name = [] \<Longrightarrow> length rest < length s"
  "next_event L name data n s = Inr (ev, n', rest) \<Longrightarrow> length rest \<le> length s"
proof -
  have "next_event L name data n s = Inr (ev, n', rest) \<Longrightarrow>
      length rest \<le> length s \<and> (name = [] \<longrightarrow> length rest < length s)"
  proof (induction "length s" arbitrary: name data n s rule: less_induct)
    case less
    show ?case
    proof (cases "read_line L [] n s")
      case (Inl e)
      then show ?thesis using less.prems by (subst (asm) next_event.simps) (auto split: if_splits)
    next
      case (Inr r)
      obtain line rest1 n1 where r: "r = (line, rest1, n1)" by (cases r)
      have shorter: "length rest1 < length s" using read_line_shorter Inr r by blast
      have "length rest \<le> length rest1"
        using less.prems less.hyps [OF shorter] Inr r
        by (subst (asm) next_event.simps) (auto simp: Let_def split: if_splits)
      then show ?thesis using shorter by simp
    qed
  qed
  then show "next_event L name data n s = Inr (ev, n', rest) \<Longrightarrow> name = [] \<Longrightarrow> length rest < length s"
    "next_event L name data n s = Inr (ev, n', rest) \<Longrightarrow> length rest \<le> length s" by auto
qed

text \<open>A client that calls \<open>Next\<close> until it fails, and the error it ends with.\<close>

function read_events :: "sse_limits \<Rightarrow> nat \<Rightarrow> string \<Rightarrow> sse_event list \<times> sse_error" where
  "read_events L n s =
     (case next_event L [] [] n s of
        Inl e \<Rightarrow> ([], e)
      | Inr (ev, n', rest) \<Rightarrow> (let r = read_events L n' rest in (ev # fst r, snd r)))"
  by pat_completeness auto
termination
  by (relation "measure (\<lambda>(_, _, s). length s)") (auto dest: next_event_shorter(1))

declare read_events.simps [simp del]

section \<open>Frames\<close>

definition frame :: "string \<Rightarrow> string \<Rightarrow> string" where
  "frame name payload = ''event: '' @ name @ [newline] @ ''data: '' @ payload @ [newline, newline]"

definition frame_overhead :: "string \<Rightarrow> nat" where
  "frame_overhead name = 16 + length name"

lemma length_frame: "length (frame name payload) = frame_overhead name + length payload"
  by (simp add: frame_def frame_overhead_def)

text \<open>A line that is read back: no newline in it, and a visible character at its end.\<close>

lemma read_line_whole:
  assumes "newline \<notin> set l" and "n + length l + 1 \<le> maxStreamBytes L"
    and "length buf + length l + 1 \<le> maxLineBytes L"
  shows "read_line L buf n (l @ newline # rest) = Inr (trim_line (buf @ l @ [newline]), rest, n + length l + 1)"
  using assms
proof (induction "length l" arbitrary: l buf n rule: less_induct)
  case less
  show ?case
  proof (cases "length l < bufferSize")
    case True
    then have "newline \<in> set (take bufferSize (l @ newline # rest))" by (cases "bufferSize - length l") auto
    then have slice: "read_slice (l @ newline # rest) = l @ [newline]"
      using less.prems(1) takeWhile_newline by (simp add: read_slice_def)
    show ?thesis
      using less.prems by (subst read_line.simps) (simp add: slice Let_def)
  next
    case False
    let ?p = "take bufferSize l"
    have "newline \<notin> set ?p" using less.prems(1) in_set_takeD by metis
    then have slice: "read_slice (l @ newline # rest) = ?p"
      using False by (simp add: read_slice_def)
    have len: "length ?p = bufferSize" and ne: "?p \<noteq> []" using False by (auto simp: bufferSize_def)
    have "last ?p \<noteq> newline" using \<open>newline \<notin> set ?p\<close> ne by (metis last_in_set)
    then have "read_line L buf n (l @ newline # rest) =
        read_line L (buf @ ?p) (n + length ?p) (drop bufferSize l @ newline # rest)"
      using less.prems ne len False
      by (subst read_line.simps) (simp add: slice Let_def)
    also have "\<dots> = Inr (trim_line ((buf @ ?p) @ drop bufferSize l @ [newline]), rest,
        n + length ?p + length (drop bufferSize l) + 1)"
      using less.prems ne len False
      by (intro less.hyps) (auto simp: bufferSize_def dest: in_set_dropD)
    finally show ?thesis using len False by (simp flip: append_assoc) (simp add: append.assoc)
  qed
qed

lemma trim_line_visible:
  assumes "l \<noteq> []" and "visible (last l)"
  shows "trim_line (l @ [newline]) = l"
proof -
  obtain m c where l: "l = m @ [c]" using assms(1) by (metis rev_exhaust)
  then have "c \<noteq> CHR 0x0D" "c \<noteq> newline" using assms(2) by auto
  then show ?thesis
    using trim_right_snoc [of _ "m @ [c]" newline] trim_right_snoc [of _ m c] by (simp add: trim_line_def l)
qed

lemma trim_line_empty: "trim_line [newline] = []"
  using trim_right_snoc [of _ "[]"] by (simp add: trim_line_def)

lemma blank_encoding:
  "list_all (\<lambda>p. p \<noteq> [] \<and> (hd p = CHR '' '' \<longrightarrow> p = '' '')) space_encodings" "'' '' \<in> set space_encodings"
proof -
  show "list_all (\<lambda>p. p \<noteq> [] \<and> (hd p = CHR '' '' \<longrightarrow> p = '' '')) space_encodings"
    by (simp add: space_encodings_def encode_rune_def upt_rec char_of_eq_iff)
  have "encode_rune 32 = '' ''" by (simp add: encode_rune_def char_of_eq_iff)
  then show "'' '' \<in> set space_encodings" by (simp add: space_encodings_def)
qed

lemma trim_space_after_blank:
  assumes "s \<noteq> []" and "visible (hd s)" and "visible (last s)"
  shows "trim_space (CHR '' '' # s) = s"
proof -
  have "match_len ps (CHR '' '' # s) = 1"
    if "list_all (\<lambda>p. p \<noteq> [] \<and> (hd p = CHR '' '' \<longrightarrow> p = '' '')) ps" "'' '' \<in> set ps" for ps
    using that
  proof (induction ps)
    case (Cons p ps)
    then show ?case by (cases p) (auto simp: has_prefix_iff)
  qed simp
  then have "match_len space_encodings (CHR '' '' # s) = 1"
    using blank_encoding by blast
  then have "trim_left_by space_encodings (CHR '' '' # s) = trim_left_by space_encodings s"
    by (subst trim_left_by.simps) simp
  then have "trim_space (CHR '' '' # s) = trim_space s" by (simp add: trim_space_def)
  then show ?thesis using trim_space_visible [OF assms] by simp
qed

text \<open>
  A text that a stream carries: it has no newline, and it begins and ends with a visible character.
\<close>

definition one_line :: "string \<Rightarrow> bool" where
  "one_line s \<longleftrightarrow> s \<noteq> [] \<and> newline \<notin> set s \<and> visible (hd s) \<and> visible (last s)"

lemma one_line_D: "one_line s \<Longrightarrow> s \<noteq> [] \<and> newline \<notin> set s \<and> visible (hd s) \<and> visible (last s)"
  by (simp add: one_line_def)

definition frame_fits :: "sse_limits \<Rightarrow> string \<Rightarrow> string \<Rightarrow> bool" where
  "frame_fits L name payload \<longleftrightarrow>
     length name + 8 \<le> maxLineBytes L \<and> length payload + 7 \<le> maxLineBytes L \<and>
     length payload \<le> maxEventBytes L"

lemma next_event_frame:
  assumes name: "one_line name" and payload: "one_line payload"
    and fits: "frame_fits L name payload" "n + length (frame name payload) \<le> maxStreamBytes L"
  shows "next_event L [] [] n (frame name payload @ rest) =
    Inr ((name, payload), n + length (frame name payload), rest)"
proof -
  note N = one_line_D [OF name] and P = one_line_D [OF payload]
  let ?body = "newline # rest"
  let ?data = "(''data: '' @ payload) @ newline # ?body"
  have frm: "frame name payload @ rest = (''event: '' @ name) @ newline # ?data"
    by (simp add: frame_def)
  have bounds: "n + length name + 8 \<le> maxStreamBytes L" "n + length name + length payload + 16 \<le> maxStreamBytes L"
    using fits(2) by (simp_all add: length_frame frame_overhead_def)
  have l1: "read_line L [] n ((''event: '' @ name) @ newline # ?data) =
      Inr (''event: '' @ name, ?data, n + length name + 8)"
    using N fits(1) bounds read_line_whole [of "''event: '' @ name" n L "[]" ?data]
      trim_line_visible [of "''event: '' @ name"] by (simp add: frame_fits_def)
  have l2: "read_line L [] m ?data = Inr (''data: '' @ payload, ?body, m + length payload + 7)"
    if "m + length payload + 7 \<le> maxStreamBytes L" for m
    using P fits(1) that read_line_whole [of "''data: '' @ payload" m L "[]" ?body]
      trim_line_visible [of "''data: '' @ payload"] by (simp add: frame_fits_def)
  have l3: "read_line L [] m ?body = Inr ([], rest, m + 1)" if "m + 1 \<le> maxStreamBytes L" for m
    using that fits(1) read_line_whole [of "[]" m L "[]" rest] trim_line_empty by (simp add: frame_fits_def)
  have t1: "trim_space (CHR '' '' # name) = name" and t2: "trim_space (CHR '' '' # payload) = payload"
    using N P by (simp_all add: trim_space_after_blank)
  have "next_event L [] [] n (frame name payload @ rest) = next_event L name [] (n + length name + 8) ?data"
    unfolding frm by (subst next_event.simps) (simp only: l1 sum.case prod.case; simp add: t1)
  also have "\<dots> = next_event L name payload (n + length name + 8 + length payload + 7) ?body"
    using bounds P fits(1)
    by (subst next_event.simps) (subst l2; simp add: t2 add_data_def frame_fits_def)
  also have "\<dots> = Inr ((name, payload), n + length name + 8 + length payload + 7 + 1, rest)"
    using bounds N by (subst next_event.simps) (subst l3; simp)
  finally show ?thesis by (simp add: length_frame frame_overhead_def)
qed

lemma next_event_end: "next_event L [] [] n [] = Inl SseEOF"
  by (subst next_event.simps, subst read_line.simps) (simp add: read_slice_def)

abbreviation frames :: "sse_event list \<Rightarrow> string" where
  "frames evs \<equiv> concat (map (\<lambda>(name, payload). frame name payload) evs)"

lemma read_events_frames:
  assumes "\<forall>(name, payload) \<in> set evs. one_line name \<and> one_line payload \<and> frame_fits L name payload"
    and "n + length (frames evs) \<le> maxStreamBytes L"
  shows "read_events L n (frames evs) = (evs, SseEOF)"
  using assms
proof (induction evs arbitrary: n)
  case Nil
  then show ?case by (subst read_events.simps) (simp add: next_event_end)
next
  case (Cons ev evs)
  obtain name payload where ev: "ev = (name, payload)" by (cases ev)
  have "next_event L [] [] n (frame name payload @ frames evs) =
      Inr ((name, payload), n + length (frame name payload), frames evs)"
    using Cons.prems by (intro next_event_frame) (auto simp: ev)
  moreover have "read_events L (n + length (frame name payload)) (frames evs) = (evs, SseEOF)"
    using Cons.prems by (intro Cons.IH) (auto simp: ev)
  ultimately show ?case by (subst read_events.simps) (simp add: ev)
qed

section \<open>An encoded value is one line\<close>

fun texts_ok :: "gval \<Rightarrow> bool" where
  "texts_ok (GPtr (Some v)) \<longleftrightarrow> texts_ok v"
| "texts_ok (GStruct fs) \<longleftrightarrow> list_all (\<lambda>fv. texts_ok (snd fv)) fs"
| "texts_ok (GSlice (Some vs)) \<longleftrightarrow> list_all texts_ok vs"
| "texts_ok (GArray vs) \<longleftrightarrow> list_all texts_ok vs"
| "texts_ok (GMap b (Some ms)) \<longleftrightarrow> list_all (\<lambda>kv. texts_ok (snd kv)) ms"
| "texts_ok (GOther (Some t)) \<longleftrightarrow> one_line t"
| "texts_ok _ \<longleftrightarrow> True"

lemma decode_rune_newline:
  "decode_rune (a # s) = (r, w) \<Longrightarrow> newline \<in> set (take w (a # s)) \<Longrightarrow> r = 10 \<or> r = rune_error \<and> w = 1"
  by (auto simp: decode_rune.simps(2) cont_byte_def second_ok_def split: list.splits if_splits)

lemma escape_rune_newline:
  assumes "newline \<in> set raw \<Longrightarrow> r = 10 \<or> r = rune_error \<and> w = 1"
  shows "newline \<notin> set (escape_rune r w raw)"
proof -
  have hex: "hex_digit d \<noteq> newline" if "d < 16" for d
  proof -
    have "byte (hex_digit d) = (if d < 10 then 48 + d else 87 + d)"
      using that by (simp add: hex_digit_def take_bit_nat_eq_self)
    then show ?thesis using that by (auto split: if_splits)
  qed
  have "r div 16 < 16" "r mod 16 < 16" if "r < 128" using that by auto
  then show ?thesis
    using assms hex [of "r div 16"] hex [of "r mod 16"]
    by (cases "r < 128") (auto simp: escape_rune_def Let_def rune_error_def)
qed

lemma json_body_newline: "newline \<notin> set (json_body s)"
proof (induction s rule: json_body.induct)
  case (2 a s)
  obtain r w where d: "decode_rune (a # s) = (r, w)" by fastforce
  have "newline \<notin> set (escape_rune r w (take w (a # s)))"
    using decode_rune_newline [OF d] by (rule escape_rune_newline)
  then show ?case using "2" d by (simp add: json_body.simps(2) Let_def)
qed simp

lemma one_line_wrap: "visible a \<Longrightarrow> visible b \<Longrightarrow> newline \<notin> set t \<Longrightarrow> one_line (a # t @ [b])"
  by (auto simp: one_line_def)

lemma json_quote_one_line: "one_line (json_quote s)"
  using one_line_wrap [of "CHR 0x22" "CHR 0x22" "json_body s"] json_body_newline by (simp add: json_quote_def)

lemma dec_visible: "c \<in> set (dec n) \<Longrightarrow> visible c"
  using dec_digits [of c n] by auto

lemma dec_one_line: "one_line (dec n)"
proof -
  have "newline \<notin> set (dec n)" using dec_visible [of newline n] by auto
  then show ?thesis
    using dec_visible [of "hd (dec n)" n] dec_visible [of "last (dec n)" n] by (simp add: one_line_def)
qed

lemma int_text_one_line: "one_line (int_text i)"
  using dec_one_line by (auto simp: int_text_def one_line_def)

lemma b64_char_visible: "k < 64 \<Longrightarrow> visible (b64_char k)"
  by (auto simp: byte_b64_char split: if_splits)

lemma join_comma_newline: "\<forall>t \<in> set ts. newline \<notin> set t \<Longrightarrow> newline \<notin> set (join_comma ts)"
  by (induction ts rule: join_comma.induct) auto

abbreviation writes_lines :: "gval \<Rightarrow> bool" where
  "writes_lines v \<equiv> \<forall>t. texts_ok v \<longrightarrow> json_marshal v = Some t \<longrightarrow> one_line t"

lemma json_fields_newline:
  "\<forall>fv \<in> set fs. texts_ok (snd fv) \<and> writes_lines (snd fv) \<Longrightarrow> json_fields fs = Some ts \<Longrightarrow>
   t \<in> set ts \<Longrightarrow> newline \<notin> set t"
proof (induction fs arbitrary: ts)
  case (Cons fv fs)
  obtain f v where fv: "fv = (f, v)" by fastforce
  have "newline \<notin> set (json_quote n)" for n using json_quote_one_line by (simp add: one_line_def)
  then show ?case
    using Cons by (auto simp: fv one_line_def split: if_splits option.splits)
qed simp

lemma json_items_newline:
  "\<forall>v \<in> set vs. texts_ok v \<and> writes_lines v \<Longrightarrow> json_items vs = Some ts \<Longrightarrow> t \<in> set ts \<Longrightarrow> newline \<notin> set t"
  by (induction vs arbitrary: ts) (auto simp: one_line_def split: option.splits)

lemma json_members_newline:
  "\<forall>kv \<in> set ms. texts_ok (snd kv) \<and> writes_lines (snd kv) \<Longrightarrow> json_members ms = Some kts \<Longrightarrow>
   (k, t) \<in> set kts \<Longrightarrow> newline \<notin> set t"
proof (induction ms arbitrary: kts)
  case (Cons kv ms)
  obtain k' v where kv: "kv = (k', v)" by fastforce
  then show ?case using Cons by (auto simp: one_line_def split: option.splits)
qed simp

lemma b64_newline: "newline \<notin> set (b64_encode s)"
proof
  assume "newline \<in> set (b64_encode s)"
  then have "newline \<in> set (filter not_newline (b64_encode s))" by (simp only: b64_encode_no_newline)
  then show False by (simp add: not_newline_def)
qed

lemma json_one_line: "texts_ok v \<Longrightarrow> json_marshal v = Some t \<Longrightarrow> one_line t"
proof (induction v arbitrary: t)
  case (GString s)
  then show ?case using json_quote_one_line by auto
next
  case (GInt i)
  then show ?case using int_text_one_line by auto
next
  case (GUint n)
  then show ?case using dec_one_line by auto
next
  case (GPtr x)
  then show ?case by (cases x) (auto simp: one_line_def)
next
  case (GStruct fs)
  then obtain ts where ts: "json_fields fs = Some ts" and t: "t = CHR 0x7B # join_comma ts @ [CHR 0x7D]"
    by (auto split: if_splits)
  have "\<forall>fv \<in> set fs. texts_ok (snd fv) \<and> writes_lines (snd fv)"
    using GStruct by (auto simp: list_all_iff snds.simps)
  then have "\<forall>t \<in> set ts. newline \<notin> set t" using json_fields_newline ts by blast
  then show ?case unfolding t by (intro one_line_wrap join_comma_newline) auto
next
  case (GBytes x)
  then show ?case
    using one_line_wrap [of "CHR 0x22" "CHR 0x22"] b64_newline by (cases x) (auto simp: one_line_def)
next
  case (GSlice x)
  show ?case
  proof (cases x)
    case (Some vs)
    with GSlice.prems obtain ts where ts: "json_items vs = Some ts" and t: "t = CHR ''['' # join_comma ts @ [CHR '']'']"
      by auto
    have "\<forall>v \<in> set vs. texts_ok v \<and> writes_lines v"
      using GSlice Some by (auto simp: list_all_iff)
    then have "\<forall>t \<in> set ts. newline \<notin> set t" using json_items_newline ts by blast
    then show ?thesis unfolding t by (intro one_line_wrap join_comma_newline) auto
  qed (use GSlice in \<open>auto simp: one_line_def\<close>)
next
  case (GArray vs)
  then obtain ts where ts: "json_items vs = Some ts" and t: "t = CHR ''['' # join_comma ts @ [CHR '']'']"
    by auto
  have "\<forall>v \<in> set vs. texts_ok v \<and> writes_lines v"
    using GArray by (auto simp: list_all_iff)
  then have "\<forall>t \<in> set ts. newline \<notin> set t" using json_items_newline ts by blast
  then show ?case unfolding t by (intro one_line_wrap join_comma_newline) auto
next
  case (GMap b x)
  show ?case
  proof (cases x)
    case (Some ms)
    with GMap.prems obtain kts where k: "b" "json_members ms = Some kts"
      and t: "t = CHR 0x7B # join_comma (map (\<lambda>(k, t). json_quote k @ '':'' @ t) (sort_key fst kts)) @ [CHR 0x7D]"
      by (cases b) auto
    have "\<forall>kv \<in> set ms. texts_ok (snd kv) \<and> writes_lines (snd kv)"
      using GMap Some by (auto simp: list_all_iff snds.simps)
    then have "\<forall>(k, t) \<in> set kts. newline \<notin> set t" using json_members_newline k(2) by blast
    then have "\<forall>t \<in> set (map (\<lambda>(k, t). json_quote k @ '':'' @ t) (sort_key fst kts)). newline \<notin> set t"
      using json_quote_one_line by (auto simp: one_line_def)
    then show ?thesis unfolding t by (intro one_line_wrap join_comma_newline) auto
  qed (use GMap in \<open>cases b; auto simp: one_line_def\<close>)
next
  case (GOther x)
  then show ?case by (cases x) auto
qed (auto simp: one_line_def)

section \<open>The writer of execute streams\<close>

record sse_writer =
  sw_failed :: bool
  sw_wireBytes :: int
  sw_auxWireBytes :: int
  sw_logWireBytes :: int

definition new_writer :: sse_writer where
  "new_writer = \<lparr>sw_failed = False, sw_wireBytes = 0, sw_auxWireBytes = 0, sw_logWireBytes = 0\<rparr>"

definition heartbeatWireReserve :: int where "heartbeatWireReserve = 4 * 2 ^ 20"

text \<open>The data of an event: a run response, or any other value.\<close>

datatype event_data = RunResult RunResponse | OtherData gval

datatype writer_error =
    WriterFailed
  | WriterEncoding result_error
  | HeartbeatBudget
  | WireBudget string
  | WriteFailed

text \<open>
  What reaches the connection. The connection is the argument \<open>io\<close> of an event: \<open>None\<close> when the
  deadlines, the writes and the flush succeed, and otherwise the number of bytes that went out.
\<close>

datatype emission = NoBytes | Frame string string | Partial string

definition encode_other :: "gval \<Rightarrow> result_error + string" where
  "encode_other v = (case json_marshal v of None \<Rightarrow> Inl ResultEncoding | Some t \<Rightarrow> Inr t)"

definition event_payload :: "(rat \<Rightarrow> string) \<Rightarrow> int \<Rightarrow> string \<Rightarrow> event_data \<Rightarrow> result_error + string" where
  "event_payload float limit name data =
     (case data of
        RunResult response \<Rightarrow>
          if name = ''result'' then marshalRunResult float response limit
          else encode_other (RunResponse_gval float response)
      | OtherData v \<Rightarrow> encode_other v)"

definition auxLimit :: int where
  "auxLimit = int DefaultSSEStreamBytes - int DefaultSSELineBytes"

definition event_limit :: "sse_writer \<Rightarrow> string \<Rightarrow> int" where
  "event_limit w name =
     (let overhead = int (frame_overhead name) in
      min (int DefaultSSEEventBytes)
        (min (int DefaultSSELineBytes - overhead) (int DefaultSSEStreamBytes - sw_wireBytes w - overhead)))"

text \<open>The counters after a frame was written.\<close>

definition count_frame :: "string \<Rightarrow> int \<Rightarrow> sse_writer \<Rightarrow> sse_writer" where
  "count_frame name frameBytes w =
     (let w1 = w\<lparr>sw_wireBytes := sw_wireBytes w + frameBytes\<rparr>;
          w2 = (if name \<noteq> ''result''
                then w1\<lparr>sw_auxWireBytes := sw_auxWireBytes w + frameBytes\<rparr> else w1) in
      if name = ''log'' then w2\<lparr>sw_logWireBytes := sw_logWireBytes w + frameBytes\<rparr> else w2)"

text \<open>An event that is dropped without an error, so that later ones still have room.\<close>

definition dropped :: "string \<Rightarrow> int \<Rightarrow> sse_writer \<Rightarrow> bool" where
  "dropped name frameBytes w \<longleftrightarrow> name \<noteq> ''result'' \<and> name \<noteq> ''heartbeat'' \<and>
     (sw_auxWireBytes w + frameBytes > auxLimit - heartbeatWireReserve \<or>
      name = ''log'' \<and> sw_logWireBytes w + frameBytes > auxLimit - 16 * 2 ^ 20)"

definition Event ::
  "(rat \<Rightarrow> string) \<Rightarrow> nat option \<Rightarrow> string \<Rightarrow> event_data \<Rightarrow> sse_writer \<Rightarrow>
   sse_writer \<times> writer_error option \<times> emission" where
  "Event float io name data w =
     (if sw_failed w then (w, Some WriterFailed, NoBytes)
      else
        (let limit = event_limit w name;
             runResult = (name = ''result'' \<and> (case data of RunResult _ \<Rightarrow> True | OtherData _ \<Rightarrow> False)) in
         case event_payload float limit name data of
           Inl e \<Rightarrow> (w, Some (WriterEncoding e), NoBytes)
         | Inr payload \<Rightarrow>
             (let frameBytes = int (frame_overhead name) + int (length payload) in
              if name = ''heartbeat'' \<and> sw_auxWireBytes w + frameBytes > auxLimit
                then (w, Some HeartbeatBudget, NoBytes)
              else if dropped name frameBytes w then (w, None, NoBytes)
              else if int (length payload) > limit \<and> (name \<noteq> ''result'' \<or> runResult)
                then (w, Some (WireBudget name), NoBytes)
              else
                (case io of
                   Some k \<Rightarrow> (w\<lparr>sw_failed := True\<rparr>, Some WriteFailed, Partial (take k (frame name payload)))
                 | None \<Rightarrow> (count_frame name frameBytes w, None, Frame name payload)))))"

section \<open>The budgets of the writer\<close>

text \<open>
  A stream of an execution: a \<open>result\<close> event carries a run response. The label of a step is the event
  with the outcome of its write.
\<close>

definition writer_step ::
  "(rat \<Rightarrow> string) \<Rightarrow> sse_writer \<Rightarrow> string \<times> event_data \<times> nat option \<Rightarrow> sse_writer \<Rightarrow> bool" where
  "writer_step float w l w' \<longleftrightarrow>
     (case l of (name, data, io) \<Rightarrow>
        (name = ''result'' \<longrightarrow> (\<exists>r. data = RunResult r)) \<and> w' = fst (Event float io name data w))"

definition writer_inv :: "sse_writer \<Rightarrow> bool" where
  "writer_inv w \<longleftrightarrow>
     0 \<le> sw_logWireBytes w \<and> sw_logWireBytes w \<le> sw_auxWireBytes w \<and> sw_auxWireBytes w \<le> sw_wireBytes w \<and>
     sw_logWireBytes w \<le> auxLimit - 16 * 2 ^ 20 \<and> sw_auxWireBytes w \<le> auxLimit \<and>
     sw_wireBytes w \<le> int DefaultSSEStreamBytes"

lemma event_limit_bounds:
  "event_limit w name \<le> int DefaultSSEEventBytes"
  "event_limit w name + int (frame_overhead name) \<le> int DefaultSSELineBytes"
  "event_limit w name + int (frame_overhead name) + sw_wireBytes w \<le> int DefaultSSEStreamBytes"
  by (auto simp: event_limit_def Let_def)

lemma heartbeat_not_log: "''heartbeat'' \<noteq> ''log''" "''heartbeat'' \<noteq> ''result''" "''log'' \<noteq> ''result''"
  by simp_all

text \<open>What a frame that was written satisfies, and what it adds to the counters.\<close>

lemma Event_Frame_parts:
  assumes "Event float io name data w = (w', e, Frame n p)"
  shows "n = name \<and> e = None \<and> io = None \<and>
    event_payload float (event_limit w name) name data = Inr p \<and>
    w' = count_frame name (int (length (frame name p))) w \<and>
    \<not> dropped name (int (length (frame name p))) w \<and>
    (name = ''heartbeat'' \<longrightarrow> sw_auxWireBytes w + int (length (frame name p)) \<le> auxLimit) \<and>
    (int (length p) \<le> event_limit w name \<or> name = ''result'' \<and> (\<exists>v. data = OtherData v))"
proof -
  have open': "\<not> sw_failed w"
  proof
    assume "sw_failed w"
    then show False using assms by (simp add: Event_def)
  qed
  obtain payload where pay: "event_payload float (event_limit w name) name data = Inr payload"
  proof (cases "event_payload float (event_limit w name) name data")
    case (Inl a)
    then show ?thesis using assms open' by (simp add: Event_def)
  qed
  let ?fb = "int (length (frame name payload))"
  have fb: "int (frame_overhead name) + int (length payload) = ?fb" by (simp add: length_frame)
  let ?hb = "name = ''heartbeat'' \<and> sw_auxWireBytes w + ?fb > auxLimit"
  let ?big = "int (length payload) > event_limit w name \<and> (name \<noteq> ''result'' \<or>
     (name = ''result'' \<and> (case data of RunResult _ \<Rightarrow> True | OtherData _ \<Rightarrow> False)))"
  have ev: "Event float io name data w =
      (if ?hb then (w, Some HeartbeatBudget, NoBytes)
       else if dropped name ?fb w then (w, None, NoBytes)
       else if ?big then (w, Some (WireBudget name), NoBytes)
       else (case io of
           Some k \<Rightarrow> (w\<lparr>sw_failed := True\<rparr>, Some WriteFailed, Partial (take k (frame name payload)))
         | None \<Rightarrow> (count_frame name ?fb w, None, Frame name payload)))"
    unfolding Event_def if_not_P [OF open'] Let_def pay sum.case fb ..
  have "\<not> ?hb" "\<not> dropped name ?fb w" "\<not> ?big" "io = None"
    using assms unfolding ev by (auto split: if_split_asm option.split_asm)
  moreover from this have "n = name \<and> e = None \<and> p = payload \<and> w' = count_frame name ?fb w"
    using assms unfolding ev by (auto split: if_split_asm)
  ultimately show ?thesis using pay by (cases data) auto
qed

lemma Event_Frame:
  assumes "Event float io name data w = (w', e, Frame n p)"
    and "name = ''result'' \<Longrightarrow> \<exists>r. data = RunResult r"
  shows "n = name" and "event_payload float (event_limit w name) name data = Inr p"
    and "int (length p) \<le> event_limit w name"
    and "sw_wireBytes w' = sw_wireBytes w + int (length (frame name p))"
    and "name = ''result'' \<Longrightarrow> sw_auxWireBytes w' = sw_auxWireBytes w"
    and "name \<noteq> ''result'' \<Longrightarrow> sw_auxWireBytes w' = sw_auxWireBytes w + int (length (frame name p)) \<and>
       sw_auxWireBytes w' \<le> auxLimit"
    and "name \<noteq> ''log'' \<Longrightarrow> sw_logWireBytes w' = sw_logWireBytes w"
    and "name = ''log'' \<Longrightarrow> sw_logWireBytes w' = sw_logWireBytes w + int (length (frame name p)) \<and>
       sw_logWireBytes w' \<le> auxLimit - 16 * 2 ^ 20"
proof -
  note P = Event_Frame_parts [OF assms(1)]
  have reserve: "0 \<le> heartbeatWireReserve" by (simp add: heartbeatWireReserve_def)
  show "n = name" "event_payload float (event_limit w name) name data = Inr p" using P by blast+
  show "int (length p) \<le> event_limit w name" using P assms(2) by auto
  show "sw_wireBytes w' = sw_wireBytes w + int (length (frame name p))"
    using P by (simp add: count_frame_def Let_def)
  show "name = ''result'' \<Longrightarrow> sw_auxWireBytes w' = sw_auxWireBytes w"
    using P by (simp add: count_frame_def Let_def)
  show "name \<noteq> ''log'' \<Longrightarrow> sw_logWireBytes w' = sw_logWireBytes w"
    using P by (simp add: count_frame_def Let_def)
  show "name \<noteq> ''result'' \<Longrightarrow> sw_auxWireBytes w' = sw_auxWireBytes w + int (length (frame name p)) \<and>
       sw_auxWireBytes w' \<le> auxLimit"
    using P reserve by (auto simp: count_frame_def Let_def dropped_def)
  show "name = ''log'' \<Longrightarrow> sw_logWireBytes w' = sw_logWireBytes w + int (length (frame name p)) \<and>
       sw_logWireBytes w' \<le> auxLimit - 16 * 2 ^ 20"
    using P by (auto simp: count_frame_def Let_def dropped_def)
qed

lemma Event_other:
  assumes "Event float io name data w = (w', e, x)" and "\<And>n p. x \<noteq> Frame n p"
  shows "w' = w \<or> w' = w\<lparr>sw_failed := True\<rparr>"
  using assms by (auto simp: Event_def Let_def split: if_splits sum.splits option.splits)

lemma Event_inv:
  assumes "writer_inv w" and "Event float io name data w = (w', e, x)"
    and "name = ''result'' \<Longrightarrow> \<exists>r. data = RunResult r"
  shows "writer_inv w'"
proof (cases "\<exists>n p. x = Frame n p")
  case True
  then obtain n p where x: "x = Frame n p" by blast
  note F = Event_Frame [OF assms(2) [unfolded x] assms(3)]
  have stream: "sw_wireBytes w' \<le> int DefaultSSEStreamBytes"
    using F(3,4) event_limit_bounds(3) [of w name] by (simp add: length_frame)
  consider "name = ''result''" | "name = ''log''" | "name \<noteq> ''result''" "name \<noteq> ''log''" by blast
  then show ?thesis
  proof cases
    case 1
    then show ?thesis using F(4,5,7) stream assms(1) heartbeat_not_log by (simp add: writer_inv_def)
  next
    case 2
    then show ?thesis using F(4,6,8) stream assms(1) heartbeat_not_log by (simp add: writer_inv_def)
  next
    case 3
    then show ?thesis using F(4,6,7) stream assms(1) by (simp add: writer_inv_def)
  qed
next
  case False
  then show ?thesis using Event_other [OF assms(2)] assms(1) by (auto simp: writer_inv_def)
qed

interpretation sse_writer_system: inductive_invariant "\<lambda>w. w = new_writer" "writer_step float" writer_inv for float
proof unfold_locales
  fix w
  show "w = new_writer \<Longrightarrow> writer_inv w"
    by (simp add: writer_inv_def new_writer_def auxLimit_def DefaultSSEStreamBytes_def DefaultSSELineBytes_def)
next
  fix w l w'
  assume w: "writer_inv w" and step: "writer_step float w l w'"
  obtain name data io where l: "l = (name, data, io)" by (cases l)
  obtain e x where "Event float io name data w = (w', e, x)"
    using step unfolding writer_step_def l prod.case by (metis prod.exhaust_sel)
  then show "writer_inv w'" using Event_inv [OF w] step by (simp add: writer_step_def l)
qed

section \<open>A stream that is written and read\<close>

fun run_events ::
  "(rat \<Rightarrow> string) \<Rightarrow> (string \<times> event_data) list \<Rightarrow> sse_writer \<Rightarrow> sse_event list" where
  "run_events float [] w = []"
| "run_events float ((name, data) # evs) w =
     (case Event float None name data w of
        (w', e, Frame n p) \<Rightarrow> (n, p) # run_events float evs w'
      | (w', e, _) \<Rightarrow> run_events float evs w')"

lemma pointer_texts_ok: "(\<And>x. texts_ok (f x)) \<Longrightarrow> texts_ok (GPtr (map_option f p))"
  by (cases p) auto

lemma slice_texts_ok: "(\<And>x. texts_ok (f x)) \<Longrightarrow> texts_ok (GSlice (Some (map f xs)))"
  by (auto simp: list_all_iff)

lemma MatchParticipant_texts_ok: "texts_ok (MatchParticipant_gval r)"
  by (simp add: MatchParticipant_gval_def json_field_def MatchArtifact_gval_def list_all_iff)

lemma wins_texts_ok: "texts_ok (GPtr (map_option (\<lambda>(a, b). GArray [GInt a, GInt b]) p))"
  by (rule pointer_texts_ok) (auto split: prod.splits)

lemma MatchResult_texts_ok: "texts_ok (MatchResult_gval r)"
  by (simp add: MatchResult_gval_def json_field_def slice_texts_ok [OF MatchParticipant_texts_ok, simplified]
      wins_texts_ok)

lemma StepResult_texts_ok: "texts_ok (StepResult_gval r)"
  by (simp add: StepResult_gval_def json_field_def pointer_texts_ok)

lemma CPUAccounting_texts_ok: "texts_ok (CPUAccounting_gval r)"
  by (simp add: CPUAccounting_gval_def json_field_def)

lemma CPUTimeSampling_texts_ok: "texts_ok (CPUTimeSampling_gval r)"
  by (simp add: CPUTimeSampling_gval_def CPUTimeSample_gval_def json_field_def list_all_iff pointer_texts_ok
      CPUAccounting_texts_ok)

lemma RunResponse_texts_ok:
  assumes "\<And>q. one_line (float q)"
  shows "texts_ok (RunResponse_gval float r)"
  using assms
  by (simp add: RunResponse_gval_def json_field_def list_all_iff pointer_texts_ok CPUAccounting_texts_ok
      CPUTimeSampling_texts_ok MatchResult_texts_ok StepResult_texts_ok CPUTimeNormalization_gval_def
      SidecarOutput_gval_def SidecarError_gval_def)

definition data_ok :: "event_data \<Rightarrow> bool" where
  "data_ok data = (case data of RunResult _ \<Rightarrow> True | OtherData v \<Rightarrow> texts_ok v)"

lemma event_payload_one_line:
  assumes "event_payload float limit name data = Inr p" and "\<And>q. one_line (float q)" and "data_ok data"
  shows "one_line p"
proof (cases data)
  case (RunResult r)
  have "\<exists>r'. json_marshal (RunResponse_gval float r') = Some p"
  proof (cases "name = ''result''")
    case True
    then have "marshalRunResult float r limit = Inr p"
      using assms(1) RunResult by (simp add: event_payload_def)
    then show ?thesis by (rule sse_result_written)
  next
    case False
    then have "encode_other (RunResponse_gval float r) = Inr p"
      using assms(1) RunResult by (simp add: event_payload_def)
    then show ?thesis
      by (cases "json_marshal (RunResponse_gval float r)") (auto simp: encode_other_def)
  qed
  then obtain r' where m: "json_marshal (RunResponse_gval float r') = Some p" by (rule exE)
  show ?thesis by (rule json_one_line [OF RunResponse_texts_ok [OF assms(2)] m])
next
  case (OtherData v)
  then have "encode_other v = Inr p" and ok: "texts_ok v"
    using assms(1,3) by (simp_all add: event_payload_def data_ok_def)
  then have "json_marshal v = Some p" by (cases "json_marshal v") (simp_all add: encode_other_def)
  then show ?thesis by (rule json_one_line [OF ok])
qed

definition stream_event :: "string \<times> event_data \<Rightarrow> bool" where
  "stream_event ev \<longleftrightarrow> (case ev of (name, data) \<Rightarrow>
     one_line name \<and> data_ok data \<and> (name = ''result'' \<longrightarrow> (\<exists>r. data = RunResult r)))"

lemma run_events_written:
  assumes "\<And>q. one_line (float q)" and "list_all stream_event evs" and "writer_inv w"
  shows "(\<forall>(name, payload) \<in> set (run_events float evs w).
      one_line name \<and> one_line payload \<and> frame_fits NewSSEReader name payload) \<and>
    sw_wireBytes w + int (length (frames (run_events float evs w))) \<le> int DefaultSSEStreamBytes"
  using assms(2,3)
proof (induction evs arbitrary: w)
  case Nil
  then show ?case by (simp add: writer_inv_def)
next
  case (Cons ev evs)
  obtain name data where ev: "ev = (name, data)" by (cases ev)
  obtain w' e x where E: "Event float None name data w = (w', e, x)" by (metis prod.exhaust)
  have ok: "one_line name" "data_ok data" "name = ''result'' \<Longrightarrow> \<exists>r. data = RunResult r"
    using Cons.prems(1) by (auto simp: ev stream_event_def)
  have inv: "writer_inv w'" using Event_inv [OF Cons.prems(2) E ok(3)] .
  note ih = Cons.IH [OF _ inv]
  show ?case
  proof (cases "\<exists>n p. x = Frame n p")
    case True
    then obtain n p where x: "x = Frame n p" by blast
    note F = Event_Frame [OF E [unfolded x] ok(3)]
    have p: "one_line p" using event_payload_one_line [OF F(2) assms(1) ok(2)] .
    have "int (length p) \<le> event_limit w name" by (rule F(3))
    then have "frame_fits NewSSEReader name p"
      using event_limit_bounds(1,2) [of w name]
      by (simp add: frame_fits_def NewSSEReader_def frame_overhead_def)
    moreover have "sw_wireBytes w' = sw_wireBytes w + int (length (frame name p))" by (rule F(4))
    ultimately show ?thesis
      using ih Cons.prems(1) p ok(1) F(1) by (simp add: ev E x)
  next
    case False
    then have "sw_wireBytes w' = sw_wireBytes w" using Event_other [OF E] by auto
    moreover have "run_events float (ev # evs) w = run_events float evs w'"
      using False by (cases x) (auto simp: ev E)
    ultimately show ?thesis using ih Cons.prems(1) by simp
  qed
qed

section \<open>Properties\<close>

text \<open>
  C11. What the writer of an execute stream sends is what its reader returns. Whatever events
  the handlers emit, the bytes written stay within the limits of the reader on lines, events and the
  stream, and a client that reads them gets exactly the events that were written, in their order, and
  then the end of the stream.
\<close>

theorem sse_stream_round_trip:
  assumes "\<And>q. one_line (float q)" and "list_all stream_event evs"
  shows "read_events NewSSEReader 0 (frames (run_events float evs new_writer)) =
    (run_events float evs new_writer, SseEOF)"
proof -
  have "writer_inv new_writer" using sse_writer_system.init_inv by blast
  note W = run_events_written [OF assms this]
  then have "length (frames (run_events float evs new_writer)) \<le> DefaultSSEStreamBytes"
    by (simp add: new_writer_def)
  then show ?thesis using W by (intro read_events_frames) (simp_all add: NewSSEReader_def)
qed

text \<open>
  C13. The budget of an execute stream. In every state that a writer can reach, whatever events are written and
  whichever writes fail, logs use at most 48 MiB, all events but results at most 64 MiB and the
  stream at most 128 MiB. So while no result was written, a result of up to 64 MiB less the frame
  around it is always accepted.
\<close>

theorem sse_writer_budget:
  assumes "reachable (\<lambda>w. w = new_writer) (writer_step float) w"
  shows "0 \<le> sw_logWireBytes w \<and> sw_logWireBytes w \<le> 48 * 1048576 \<and>
    sw_logWireBytes w \<le> sw_auxWireBytes w \<and> sw_auxWireBytes w \<le> 64 * 1048576 \<and>
    sw_auxWireBytes w \<le> sw_wireBytes w \<and> sw_wireBytes w \<le> 128 * 1048576 \<and>
    (sw_wireBytes w = sw_auxWireBytes w \<longrightarrow> event_limit w ''result'' = 64 * 1048576 - 22)"
proof -
  have "writer_inv w" using sse_writer_system.holds assms .
  then show ?thesis
    by (auto simp: writer_inv_def auxLimit_def DefaultSSEStreamBytes_def DefaultSSELineBytes_def
        DefaultSSEEventBytes_def event_limit_def Let_def frame_overhead_def min_def)
qed

definition demo_events :: "(string \<times> event_data) list" where
  "demo_events = [(''log'', OtherData (GString ''hello'')), (''result'', RunResult zero_RunResponse)]"

lemma demo_stream: "one_line ''0''" "list_all stream_event demo_events"
  by (simp_all add: one_line_def demo_events_def stream_event_def data_ok_def)

theorem sse_stream_round_trip_witness:
  "snd (read_events NewSSEReader 0 (frames (run_events (\<lambda>_. ''0'') demo_events new_writer))) = SseEOF"
  using sse_stream_round_trip [of "\<lambda>_. ''0''" demo_events] demo_stream by simp

lemma demo_log_event:
  "Event float None ''log'' (OtherData (GBool True)) new_writer =
    (count_frame ''log'' 23 new_writer, None, Frame ''log'' ''true'')"
proof -
  have limit: "event_limit new_writer ''log'' = 67108845"
    by (simp add: event_limit_def new_writer_def frame_overhead_def DefaultSSEEventBytes_def
        DefaultSSELineBytes_def DefaultSSEStreamBytes_def)
  have stays: "\<not> dropped ''log'' 23 new_writer"
    by (simp add: dropped_def new_writer_def auxLimit_def heartbeatWireReserve_def
        DefaultSSELineBytes_def DefaultSSEStreamBytes_def)
  have open': "\<not> sw_failed new_writer" by (simp add: new_writer_def)
  have pay: "event_payload float l n (OtherData (GBool True)) = Inr ''true''" for l n
    by (simp add: event_payload_def encode_other_def)
  have bytes: "int (frame_overhead ''log'') + int (length ''true'') = 23" by (simp add: frame_overhead_def)
  show ?thesis
    unfolding Event_def if_not_P [OF open'] Let_def limit pay sum.case bytes using stays by simp
qed

theorem sse_writer_budget_witness:
  "event_limit (fst (Event (\<lambda>_. ''0'') None ''log'' (OtherData (GBool True)) new_writer)) ''result'' = 67108842"
proof -
  let ?w = "count_frame ''log'' 23 new_writer"
  have step: "writer_step (\<lambda>_. ''0'') new_writer (''log'', OtherData (GBool True), None) ?w"
    by (simp add: writer_step_def demo_log_event)
  have "reachable (\<lambda>w. w = new_writer) (writer_step (\<lambda>_. ''0'')) new_writer"
    by (rule reachable.start) simp
  then have "reachable (\<lambda>w. w = new_writer) (writer_step (\<lambda>_. ''0'')) ?w"
    using step by (rule reachable.extend)
  note B = sse_writer_budget [OF this]
  have "sw_wireBytes ?w = sw_auxWireBytes ?w" by (simp add: count_frame_def new_writer_def)
  then show ?thesis using B by (simp add: demo_log_event)
qed

end
