(* ===== verification/Admission.thy ===== *)
theory Admission
  imports Prelude
begin

text \<open>
  internal/api/server.go: the limits on active uploads and streams (\<open>acquireUpload\<close> and
  \<open>acquireStream\<close>, which are the same code over different counters), the requests per minute of a principal,
  and the slots for body hashes and payload fetches.

  The global counter is an atomic integer and the counts per principal are behind a mutex, so one call
  takes several steps between which other requests may take theirs. A request is a
  number; its progress through the call and through the function it returns is its \<open>phase\<close>.
\<close>

section \<open>Counting requests in a phase\<close>

lemma card_update:
  assumes "finite {r. P r (f r)}"
  shows "int (card {r. P r ((f(i := x)) r)}) =
    int (card {r. P r (f r)}) + of_bool (P i x) - of_bool (P i (f i))"
proof -
  define D where "D = {r. P r (f r)} - {i}"
  have D: "finite D" "i \<notin> D" using assms by (auto simp: D_def)
  have "{r. P r ((f(i := x)) r)} = (if P i x then insert i D else D)" by (auto simp: D_def)
  moreover have "{r. P r (f r)} = (if P i (f i) then insert i D else D)" by (auto simp: D_def)
  ultimately show ?thesis using D by simp
qed

lemma finite_update:
  assumes "finite {r. P r (f r)}"
  shows "finite {r. P r ((f(i := x)) r)}"
  by (rule finite_subset [OF _ finite.insertI [OF assms, of i]]) auto

section \<open>Active uploads and streams\<close>

record admission_limits =
  lim_active :: int
  lim_principal :: int

record admission =
  ad_active :: int
  ad_principals :: "string \<rightharpoonup> int"

text \<open>
  Where a request is. The global counter is taken in \<open>OverActive\<close>, \<open>Counted\<close>, \<open>OverPrincipal\<close> and
  \<open>Admitted\<close>, when there is a global limit.
\<close>

datatype refusal = LimitExceeded | PrincipalLimitExceeded

datatype phase =
    Arriving
  | OverActive
  | Counted
  | OverPrincipal
  | Admitted bool
  | Unlimited
  | Releasing
  | Finished
  | Refused refusal

text \<open>\<open>Add(1)\<close> with its test.\<close>

definition begin_acquire :: "admission_limits \<Rightarrow> admission \<Rightarrow> admission \<times> phase" where
  "begin_acquire L s =
     (if lim_active L \<le> 0 then
        (if lim_principal L \<le> 0 then (s, Unlimited) else (s, Counted))
      else
        (let active = ad_active s + 1; s' = s\<lparr>ad_active := active\<rparr> in
         if active > lim_active L then (s', OverActive)
         else if lim_principal L > 0 then (s', Counted)
         else (s', Admitted False)))"

definition sub_active :: "admission \<Rightarrow> admission" where
  "sub_active s = s\<lparr>ad_active := ad_active s - 1\<rparr>"

definition count_of :: "(string \<rightharpoonup> int) \<Rightarrow> string \<Rightarrow> int" where
  "count_of m p = (case m p of None \<Rightarrow> 0 | Some n \<Rightarrow> n)"

text \<open>The first critical section of the principal.\<close>

definition check_principal :: "admission_limits \<Rightarrow> string \<Rightarrow> admission \<Rightarrow> admission \<times> phase" where
  "check_principal L p s =
     (if count_of (ad_principals s) p \<ge> lim_principal L then
        (s, if lim_active L > 0 then OverPrincipal else Refused PrincipalLimitExceeded)
      else (s\<lparr>ad_principals := (ad_principals s)(p \<mapsto> count_of (ad_principals s) p + 1)\<rparr>, Admitted True))"

text \<open>The function that releases: the counter, and then the count of the principal.\<close>

definition release_active :: "admission_limits \<Rightarrow> bool \<Rightarrow> admission \<Rightarrow> admission \<times> phase" where
  "release_active L principalAcquired s =
     ((if lim_active L > 0 then sub_active s else s), if principalAcquired then Releasing else Finished)"

definition release_principal :: "string \<Rightarrow> admission \<Rightarrow> admission" where
  "release_principal p s =
     s\<lparr>ad_principals :=
       (if count_of (ad_principals s) p \<le> 1 then (ad_principals s)(p := None)
        else (ad_principals s)(p \<mapsto> count_of (ad_principals s) p - 1))\<rparr>"

text \<open>The next step of a request in its phase; \<open>Unlimited\<close> has a release that does nothing.\<close>

definition advance :: "admission_limits \<Rightarrow> string \<Rightarrow> phase \<Rightarrow> admission \<Rightarrow> admission \<times> phase" where
  "advance L p ph s =
     (case ph of
        Arriving \<Rightarrow> begin_acquire L s
      | OverActive \<Rightarrow> (sub_active s, Refused LimitExceeded)
      | Counted \<Rightarrow> check_principal L p s
      | OverPrincipal \<Rightarrow> (sub_active s, Refused PrincipalLimitExceeded)
      | Admitted b \<Rightarrow> release_active L b s
      | Unlimited \<Rightarrow> (s, Finished)
      | Releasing \<Rightarrow> (release_principal p s, Finished)
      | Finished \<Rightarrow> (s, Finished)
      | Refused e \<Rightarrow> (s, Refused e))"

section \<open>Interleavings of requests\<close>

type_synonym admission_state = "admission \<times> (nat \<Rightarrow> phase)"

text \<open>\<open>who r\<close> is the principal of request \<open>r\<close>.\<close>

definition admission_step ::
  "admission_limits \<Rightarrow> (nat \<Rightarrow> string) \<Rightarrow> admission_state \<Rightarrow> nat \<Rightarrow> admission_state \<Rightarrow> bool" where
  "admission_step L who s r t \<longleftrightarrow>
     (case advance L (who r) (snd s r) (fst s) of (a, ph) \<Rightarrow> t = (a, (snd s)(r := ph)))"

definition admission_init :: "admission_state \<Rightarrow> bool" where
  "admission_init s \<longleftrightarrow> s = (\<lparr>ad_active = 0, ad_principals = Map.empty\<rparr>, \<lambda>_. Arriving)"

fun takes_active :: "phase \<Rightarrow> bool" where
  "takes_active OverActive = True"
| "takes_active Counted = True"
| "takes_active OverPrincipal = True"
| "takes_active (Admitted _) = True"
| "takes_active _ = False"

fun within_active :: "phase \<Rightarrow> bool" where
  "within_active Counted = True"
| "within_active OverPrincipal = True"
| "within_active (Admitted _) = True"
| "within_active _ = False"

fun takes_principal :: "phase \<Rightarrow> bool" where
  "takes_principal (Admitted b) = b"
| "takes_principal Releasing = True"
| "takes_principal _ = False"

definition holding :: "(phase \<Rightarrow> bool) \<Rightarrow> (nat \<Rightarrow> phase) \<Rightarrow> nat set" where
  "holding P f = {r. P (f r)}"

definition holding_of :: "(nat \<Rightarrow> string) \<Rightarrow> string \<Rightarrow> (nat \<Rightarrow> phase) \<Rightarrow> nat set" where
  "holding_of who p f = {r. who r = p \<and> takes_principal (f r)}"

text \<open>The phases that the limits allow.\<close>

definition phase_ok :: "admission_limits \<Rightarrow> phase \<Rightarrow> bool" where
  "phase_ok L ph \<longleftrightarrow>
     (case ph of
        OverActive \<Rightarrow> 0 < lim_active L
      | Counted \<Rightarrow> 0 < lim_principal L
      | OverPrincipal \<Rightarrow> 0 < lim_active L \<and> 0 < lim_principal L
      | Admitted b \<Rightarrow> (if b then 0 < lim_principal L else 0 < lim_active L \<and> lim_principal L \<le> 0)
      | Unlimited \<Rightarrow> lim_active L \<le> 0 \<and> lim_principal L \<le> 0
      | Releasing \<Rightarrow> 0 < lim_principal L
      | _ \<Rightarrow> True)"

definition counter_inv :: "admission_limits \<Rightarrow> admission_state \<Rightarrow> bool" where
  "counter_inv L s \<longleftrightarrow>
     (if 0 < lim_active L then
        ad_active (fst s) = int (card (holding takes_active (snd s))) \<and>
        int (card (holding within_active (snd s))) \<le> lim_active L
      else ad_active (fst s) = 0)"

definition principal_inv :: "admission_limits \<Rightarrow> (nat \<Rightarrow> string) \<Rightarrow> admission_state \<Rightarrow> bool" where
  "principal_inv L who s \<longleftrightarrow>
     (\<forall>p. count_of (ad_principals (fst s)) p = int (card (holding_of who p (snd s))) \<and>
          (case ad_principals (fst s) p of None \<Rightarrow> True | Some n \<Rightarrow> 0 < n) \<and>
          int (card (holding_of who p (snd s))) \<le> max 0 (lim_principal L))"

definition admission_inv :: "admission_limits \<Rightarrow> (nat \<Rightarrow> string) \<Rightarrow> admission_state \<Rightarrow> bool" where
  "admission_inv L who s \<longleftrightarrow>
     finite {r. snd s r \<noteq> Arriving} \<and> (\<forall>r. phase_ok L (snd s r)) \<and> counter_inv L s \<and> principal_inv L who s"

lemma finite_holding:
  assumes "finite {r. f r \<noteq> Arriving}" and "\<not> P Arriving"
  shows "finite (holding P f)"
  by (rule finite_subset [OF _ assms(1)]) (use assms(2) in \<open>auto simp: holding_def\<close>)

lemma finite_holding_of:
  assumes "finite {r. f r \<noteq> Arriving}"
  shows "finite (holding_of who p f)"
  by (rule finite_subset [OF _ assms]) (auto simp: holding_of_def)

lemma card_holding:
  assumes "finite {r. f r \<noteq> Arriving}" and "\<not> P Arriving"
  shows "int (card (holding P (f(i := x)))) =
    int (card (holding P f)) + of_bool (P x) - of_bool (P (f i))"
  using card_update [of "\<lambda>_. P" f i x] finite_holding [where P = P, OF assms] by (simp add: holding_def)

lemma card_holding_of:
  assumes "finite {r. f r \<noteq> Arriving}"
  shows "int (card (holding_of who p (f(i := x)))) = int (card (holding_of who p f)) +
    of_bool (who i = p \<and> takes_principal x) - of_bool (who i = p \<and> takes_principal (f i))"
  using card_update [of "\<lambda>r ph. who r = p \<and> takes_principal ph" f i x] finite_holding_of [OF assms]
  by (simp add: holding_of_def)

lemma holding_mono: "(\<And>ph. P ph \<Longrightarrow> Q ph) \<Longrightarrow> holding P f \<subseteq> holding Q f"
  by (auto simp: holding_def)

lemma within_takes: "within_active ph \<Longrightarrow> takes_active ph"
  by (cases ph) auto

lemma within_le_takes:
  assumes "finite {r. f r \<noteq> Arriving}"
  shows "card (holding within_active f) \<le> card (holding takes_active f)"
  by (rule card_mono [OF finite_holding [OF assms] holding_mono]) (auto intro: within_takes)

lemma advance_phase_ok: "phase_ok L ph \<Longrightarrow> phase_ok L (snd (advance L p ph s))"
  by (cases ph) (auto simp: phase_ok_def advance_def begin_acquire_def check_principal_def release_active_def
      Let_def)

lemma advance_finite:
  "finite {r. f r \<noteq> Arriving} \<Longrightarrow> finite {r. (f(i := x)) r \<noteq> Arriving}"
  using finite_update [of "\<lambda>_ ph. ph \<noteq> Arriving"] .

lemma sub_active_simps [simp]:
  "ad_active (sub_active s) = ad_active s - 1" "ad_principals (sub_active s) = ad_principals s"
  by (simp_all add: sub_active_def)

lemma advance_counter:
  assumes "finite {r. f r \<noteq> Arriving}" and "phase_ok L (f i)" and "counter_inv L (s, f)"
    and "advance L p (f i) s = (s', x)"
  shows "counter_inv L (s', f(i := x))"
proof (cases "0 < lim_active L")
  case True
  have cards:
    "int (card (holding takes_active (f(i := x)))) =
       int (card (holding takes_active f)) + of_bool (takes_active x) - of_bool (takes_active (f i))"
    "int (card (holding within_active (f(i := x)))) =
       int (card (holding within_active f)) + of_bool (within_active x) - of_bool (within_active (f i))"
    by (simp_all add: card_holding [OF assms(1)] del: fun_upd_apply)
  have le: "int (card (holding within_active f)) \<le> int (card (holding takes_active f))"
    using within_le_takes [OF assms(1)] by simp
  have a: "ad_active s = int (card (holding takes_active f))"
    and w: "int (card (holding within_active f)) \<le> lim_active L"
    using assms(3) True by (simp_all add: counter_inv_def)
  have goal: "ad_active s' = ad_active s + of_bool (takes_active x) - of_bool (takes_active (f i)) \<and>
      int (card (holding within_active f)) + of_bool (within_active x) - of_bool (within_active (f i)) \<le> lim_active L"
    using True a w le assms(2,4)
    by (cases "f i") (auto simp: advance_def begin_acquire_def check_principal_def
        release_active_def release_principal_def phase_ok_def Let_def split: if_splits)
  then show ?thesis using True a cards by (simp add: counter_inv_def)
next
  case False
  then show ?thesis using assms(2-4)
    by (cases "f i") (auto simp: counter_inv_def advance_def begin_acquire_def check_principal_def
        release_active_def release_principal_def phase_ok_def Let_def split: if_splits)
qed

lemma count_of_update [simp]:
  "count_of (m(p \<mapsto> n)) q = (if q = p then n else count_of m q)"
  "count_of (m(p := None)) q = (if q = p then 0 else count_of m q)"
  by (simp_all add: count_of_def)

lemma principal_inv_same:
  assumes "finite {r. f r \<noteq> Arriving}" and "principal_inv L who (s, f)"
    and "takes_principal x = takes_principal (f i)" and "ad_principals s' = ad_principals s"
  shows "principal_inv L who (s', f(i := x))"
  using assms(2) by (auto simp: principal_inv_def card_holding_of [OF assms(1)] assms(3,4))

lemma principal_inv_take:
  assumes "finite {r. f r \<noteq> Arriving}" and "principal_inv L who (s, f)"
    and "f i = Counted" and "count_of (ad_principals s) (who i) < lim_principal L"
  shows "principal_inv L who
    (s\<lparr>ad_principals := (ad_principals s)(who i \<mapsto> count_of (ad_principals s) (who i) + 1)\<rparr>, f(i := Admitted True))"
  using assms(2-4) by (auto simp: principal_inv_def card_holding_of [OF assms(1)])

lemma principal_inv_drop:
  assumes "finite {r. f r \<noteq> Arriving}" and "principal_inv L who (s, f)" and "f i = Releasing"
  shows "principal_inv L who (release_principal (who i) s, f(i := Finished))"
proof -
  have pos: "0 < card (holding_of who (who i) f)"
    using finite_holding_of [OF assms(1)] assms(3) by (auto simp: card_gt_0_iff holding_of_def)
  have I: "count_of (ad_principals s) p = int (card (holding_of who p f))"
      "\<And>n. ad_principals s p = Some n \<Longrightarrow> 0 < n"
      "int (card (holding_of who p f)) \<le> max 0 (lim_principal L)" for p
    using assms(2) by (auto simp: principal_inv_def split: option.splits)
  have C: "int (card (holding_of who p (f(i := Finished)))) =
      int (card (holding_of who p f)) - of_bool (who i = p)" for p
    using card_holding_of [OF assms(1), of who p i Finished] assms(3) by simp
  have step: "count_of (ad_principals (release_principal (who i) s)) p =
      count_of (ad_principals s) p - of_bool (who i = p)" for p
    using I(1) [of "who i"] pos by (auto simp: release_principal_def)
  have some: "ad_principals (release_principal (who i) s) p = Some n \<Longrightarrow> 0 < n" for p n
    using I(2) [of p n] by (auto simp: release_principal_def split: if_splits)
  show ?thesis unfolding principal_inv_def fst_conv snd_conv C step
  proof (intro allI conjI)
    fix p
    show "count_of (ad_principals s) p - of_bool (who i = p) =
        int (card (holding_of who p f)) - of_bool (who i = p)" by (simp add: I(1))
    show "case ad_principals (release_principal (who i) s) p of None \<Rightarrow> True | Some n \<Rightarrow> 0 < n"
      using some by (simp split: option.splits)
    show "int (card (holding_of who p f)) - of_bool (who i = p) \<le> max 0 (lim_principal L)"
      using I(3) [of p] by (simp add: of_bool_def)
  qed
qed

lemma advance_principal:
  assumes "finite {r. f r \<noteq> Arriving}" and "principal_inv L who (s, f)"
    and "advance L (who i) (f i) s = (s', x)"
  shows "principal_inv L who (s', f(i := x))"
proof -
  note same = principal_inv_same [OF assms(1,2)]
  show ?thesis
  proof (cases "f i")
    case Arriving
    then show ?thesis using assms(3)
      by (intro same) (auto simp: advance_def begin_acquire_def Let_def split: if_splits)
  next
    case Counted
    show ?thesis
    proof (cases "count_of (ad_principals s) (who i) < lim_principal L")
      case True
      then show ?thesis using Counted assms(3) principal_inv_take [OF assms(1,2) Counted]
        by (auto simp: advance_def check_principal_def)
    next
      case False
      then show ?thesis using Counted assms(3)
        by (intro same) (auto simp: advance_def check_principal_def split: if_splits)
    qed
  next
    case Releasing
    then show ?thesis using assms(3) principal_inv_drop [OF assms(1,2) Releasing] by (simp add: advance_def)
  qed (use assms(3) in \<open>auto intro!: same simp: advance_def release_active_def split: if_splits\<close>)
qed

interpretation admission_system: inductive_invariant admission_init "admission_step L who" "admission_inv L who"
  for L who
proof unfold_locales
  fix s
  assume "admission_init s"
  then show "admission_inv L who s"
    by (auto simp: admission_init_def admission_inv_def counter_inv_def principal_inv_def phase_ok_def
        holding_def holding_of_def count_of_def)
next
  fix s i t
  assume inv: "admission_inv L who s" and step: "admission_step L who s i t"
  obtain a f where s: "s = (a, f)" by (cases s)
  obtain a' x where adv: "advance L (who i) (f i) a = (a', x)" by (cases "advance L (who i) (f i) a")
  have t: "t = (a', f(i := x))" using step by (simp add: admission_step_def s adv)
  have I: "finite {r. f r \<noteq> Arriving}" "\<And>r. phase_ok L (f r)" "counter_inv L (a, f)" "principal_inv L who (a, f)"
    using inv by (auto simp: admission_inv_def s)
  have "phase_ok L x" using advance_phase_ok [OF I(2) [of i], of "who i" a] adv by simp
  then show "admission_inv L who t"
    unfolding t admission_inv_def fst_conv snd_conv
    using advance_finite [OF I(1)] I(2) advance_counter [OF I(1) I(2) I(3) adv] advance_principal [OF I(1) I(4) adv]
    by simp
qed

section \<open>Properties\<close>

text \<open>A request that is not in the middle of the call, of the work it admits, or of its release.\<close>

fun settled :: "phase \<Rightarrow> bool" where
  "settled Arriving = True"
| "settled Unlimited = True"
| "settled Finished = True"
| "settled (Refused _) = True"
| "settled _ = False"

lemma settled_takes: "settled ph \<Longrightarrow> \<not> takes_active ph" "settled ph \<Longrightarrow> \<not> takes_principal ph"
  by (cases ph; simp)+

lemma settled_empty:
  assumes inv: "admission_inv L who s" and all: "\<And>r. settled (snd s r)"
  shows "ad_active (fst s) = 0 \<and> ad_principals (fst s) = Map.empty"
proof
  have "holding takes_active (snd s) = {}" using settled_takes(1) [OF all] by (auto simp: holding_def)
  then show "ad_active (fst s) = 0"
    using inv by (cases "0 < lim_active L") (simp_all add: admission_inv_def counter_inv_def)
  have none: "holding_of who p (snd s) = {}" for p using settled_takes(2) [OF all] by (auto simp: holding_of_def)
  have "ad_principals (fst s) p = None" for p
  proof (rule ccontr)
    assume "ad_principals (fst s) p \<noteq> None"
    then obtain n where "ad_principals (fst s) p = Some n" by blast
    then show False using inv none [of p]
      by (auto simp: admission_inv_def principal_inv_def count_of_def dest!: spec [of _ p])
  qed
  then show "ad_principals (fst s) = Map.empty" by blast
qed

text \<open>
  C22. The limits on uploads and streams hold in every interleaving. The requests inside never exceed
  the global limit, and those of one principal never exceed the limit of a principal. A request that
  is counted below the limit of its principal is admitted by its next step. When every request has been
  refused or released, the counter is back at zero and no entry of a principal is left behind.
\<close>

theorem admission_limits_kept:
  assumes "reachable admission_init (admission_step L who) s"
  shows "(0 < lim_active L \<longrightarrow> int (card {r. \<exists>b. snd s r = Admitted b}) \<le> lim_active L) \<and>
    (0 < lim_principal L \<longrightarrow> (\<forall>p. int (card {r. who r = p \<and> snd s r = Admitted True}) \<le> lim_principal L)) \<and>
    (\<forall>r. snd s r = Counted \<and> int (card (holding_of who (who r) (snd s))) < lim_principal L \<longrightarrow>
       snd (advance L (who r) (snd s r) (fst s)) = Admitted True) \<and>
    ((\<forall>r. settled (snd s r)) \<longrightarrow> ad_active (fst s) = 0 \<and> ad_principals (fst s) = Map.empty)"
proof -
  have inv: "admission_inv L who s" using admission_system.holds [OF assms] .
  then have fin: "finite {r. snd s r \<noteq> Arriving}" by (simp add: admission_inv_def)
  have "card {r. \<exists>b. snd s r = Admitted b} \<le> card (holding within_active (snd s))"
    by (rule card_mono [OF finite_holding [OF fin]]) (auto simp: holding_def)
  then have active: "0 < lim_active L \<longrightarrow> int (card {r. \<exists>b. snd s r = Admitted b}) \<le> lim_active L"
    using inv by (auto simp: admission_inv_def counter_inv_def)
  have "card {r. who r = p \<and> snd s r = Admitted True} \<le> card (holding_of who p (snd s))" for p
    by (rule card_mono [OF finite_holding_of [OF fin]]) (auto simp: holding_of_def)
  moreover have "int (card (holding_of who p (snd s))) \<le> max 0 (lim_principal L)" for p
    using inv by (simp add: admission_inv_def principal_inv_def)
  ultimately have le: "int (card {r. who r = p \<and> snd s r = Admitted True}) \<le> max 0 (lim_principal L)" for p
    by (meson of_nat_mono order_trans)
  have principal: "0 < lim_principal L \<longrightarrow>
      (\<forall>p. int (card {r. who r = p \<and> snd s r = Admitted True}) \<le> lim_principal L)"
    using le by (auto simp: max_def split: if_splits)
  have "\<forall>r. snd s r = Counted \<and> int (card (holding_of who (who r) (snd s))) < lim_principal L \<longrightarrow>
      snd (advance L (who r) (snd s r) (fst s)) = Admitted True"
    using inv by (auto simp: admission_inv_def principal_inv_def advance_def check_principal_def)
  with active principal settled_empty [OF inv] show ?thesis by blast
qed

definition demo_limits :: admission_limits where
  "demo_limits = \<lparr>lim_active = 2, lim_principal = 1\<rparr>"

theorem admission_limits_kept_witness:
  "int (card {r. \<exists>b. snd (\<lparr>ad_active = 1, ad_principals = Map.empty\<rparr>, (\<lambda>_. Arriving)(0 := Counted)) r = Admitted b}) \<le> 2"
proof -
  let ?s = "(\<lparr>ad_active = 1, ad_principals = Map.empty\<rparr>, (\<lambda>_. Arriving)(0 := Counted)) :: admission_state"
  let ?i = "(\<lparr>ad_active = 0, ad_principals = Map.empty\<rparr>, \<lambda>_. Arriving) :: admission_state"
  have "reachable admission_init (admission_step demo_limits (\<lambda>_. ''a'')) ?i"
    by (rule reachable.start) (simp add: admission_init_def)
  moreover have "admission_step demo_limits (\<lambda>_. ''a'') ?i 0 ?s"
    by (simp add: admission_step_def advance_def begin_acquire_def demo_limits_def)
  ultimately have "reachable admission_init (admission_step demo_limits (\<lambda>_. ''a'')) ?s"
    by (rule reachable.extend)
  from admission_limits_kept [OF this] show ?thesis by (simp add: demo_limits_def)
qed

end
