(* ===== verification/Rate_Limit.thy ===== *)
theory Rate_Limit
  imports Prelude
begin

text \<open>
  internal/api/server.go: \<open>allowPrincipalRequest\<close>, the requests per minute of a principal. A
  \<open>time.Time\<close> is the number of nanoseconds since the zero time of Go, for which \<open>IsZero\<close>
  holds; \<open>Sub\<close> saturates at 64 bits. The reference keeps one window per principal and never
  cleans up.
\<close>

section \<open>Operations\<close>

record rate_window =
  rw_start :: int
  rw_count :: int

record rates =
  rt_windows :: "string \<rightharpoonup> rate_window"
  rt_lastCleanup :: int

definition minute :: int where "minute = 60 * 1000000000"

definition time_sub :: "int \<Rightarrow> int \<Rightarrow> int" where
  "time_sub a b = max (- (2 ^ 63)) (min (2 ^ 63 - 1) (a - b))"

lemma time_sub_minute: "time_sub a b \<ge> minute \<longleftrightarrow> a - b \<ge> minute"
  by (auto simp: time_sub_def minute_def)

definition zero_window :: rate_window where
  "zero_window = \<lparr>rw_start = 0, rw_count = 0\<rparr>"

definition window_of :: "(string \<rightharpoonup> rate_window) \<Rightarrow> string \<Rightarrow> rate_window" where
  "window_of m p = (case m p of None \<Rightarrow> zero_window | Some w \<Rightarrow> w)"

definition expired :: "int \<Rightarrow> rate_window \<Rightarrow> bool" where
  "expired now tracked \<longleftrightarrow> rw_start tracked \<noteq> 0 \<and> time_sub now (rw_start tracked) \<ge> minute"

definition cleanup :: "int \<Rightarrow> rates \<Rightarrow> rates" where
  "cleanup now s =
     (if rt_lastCleanup s = 0 \<or> time_sub now (rt_lastCleanup s) \<ge> minute then
        \<lparr>rt_windows = (\<lambda>key. case rt_windows s key of None \<Rightarrow> None
            | Some tracked \<Rightarrow> if expired now tracked then None else Some tracked),
         rt_lastCleanup = now\<rparr>
      else s)"

text \<open>What the window of a principal answers, and the window after it.\<close>

definition next_window :: "int \<Rightarrow> int \<Rightarrow> rate_window \<Rightarrow> bool \<times> rate_window" where
  "next_window limit now window =
     (if rw_start window = 0 \<or> time_sub now (rw_start window) \<ge> minute then
        (True, \<lparr>rw_start = now, rw_count = 1\<rparr>)
      else if rw_count window \<ge> limit then (False, window)
      else (True, window\<lparr>rw_count := rw_count window + 1\<rparr>))"

definition allowPrincipalRequest :: "int \<Rightarrow> string \<Rightarrow> int \<Rightarrow> rates \<Rightarrow> bool \<times> rates" where
  "allowPrincipalRequest limit who now s =
     (if limit \<le> 0 then (True, s)
      else
        (let s1 = cleanup now s in
         case next_window limit now (window_of (rt_windows s1) who) of
           (False, _) \<Rightarrow> (False, s1)
         | (True, w) \<Rightarrow> (True, s1\<lparr>rt_windows := (rt_windows s1)(who \<mapsto> w)\<rparr>)))"

fun allow_all :: "int \<Rightarrow> (string \<times> int) list \<Rightarrow> rates \<Rightarrow> bool list" where
  "allow_all limit [] s = []"
| "allow_all limit ((p, now) # reqs) s =
     (case allowPrincipalRequest limit p now s of (ok, s') \<Rightarrow> ok # allow_all limit reqs s')"

section \<open>The reference\<close>

text \<open>One window per principal, which no other principal touches.\<close>

fun windows_all :: "int \<Rightarrow> (string \<times> int) list \<Rightarrow> (string \<Rightarrow> rate_window) \<Rightarrow> bool list" where
  "windows_all limit [] g = []"
| "windows_all limit ((p, now) # reqs) g =
     (case next_window limit now (g p) of (ok, w) \<Rightarrow> ok # windows_all limit reqs (g(p := w)))"

text \<open>The times at which the requests of one principal were accepted.\<close>

definition accepted_times :: "string \<Rightarrow> (string \<times> int) list \<Rightarrow> bool list \<Rightarrow> int list" where
  "accepted_times p reqs oks = map (snd \<circ> fst) (filter (\<lambda>((q, now), ok). q = p \<and> ok) (zip reqs oks))"

definition in_order :: "int \<Rightarrow> (string \<times> int) list \<Rightarrow> bool" where
  "in_order t reqs \<longleftrightarrow> sorted (map snd reqs) \<and> list_all (\<lambda>(p, now). 0 < now \<and> t \<le> now) reqs"

lemma in_order_Cons: "in_order t ((p, now) # reqs) \<longleftrightarrow> 0 < now \<and> t \<le> now \<and> in_order now reqs"
  by (auto simp: in_order_def list_all_iff)

text \<open>The map of windows agrees with the reference, up to windows that have expired at the time \<open>t\<close>.\<close>

definition tracks :: "int \<Rightarrow> rates \<Rightarrow> (string \<Rightarrow> rate_window) \<Rightarrow> bool" where
  "tracks t s g \<longleftrightarrow>
     (\<forall>p. rt_windows s p = Some (g p) \<or>
          rt_windows s p = None \<and> (rw_start (g p) = 0 \<or> t - rw_start (g p) \<ge> minute))"

lemma tracks_cleanup: "tracks t s g \<Longrightarrow> t \<le> now \<Longrightarrow> tracks now (cleanup now s) g"
  unfolding tracks_def
proof
  fix p
  assume "\<forall>p. rt_windows s p = Some (g p) \<or>
      rt_windows s p = None \<and> (rw_start (g p) = 0 \<or> t - rw_start (g p) \<ge> minute)" and "t \<le> now"
  then consider "rt_windows s p = Some (g p)"
    | "rt_windows s p = None" "rw_start (g p) = 0 \<or> now - rw_start (g p) \<ge> minute"
    by fastforce
  then show "rt_windows (cleanup now s) p = Some (g p) \<or>
      rt_windows (cleanup now s) p = None \<and> (rw_start (g p) = 0 \<or> now - rw_start (g p) \<ge> minute)"
    by cases (auto simp: cleanup_def expired_def time_sub_minute)
qed

lemma next_window_tracks:
  assumes "tracks now s g"
  shows "next_window limit now (window_of (rt_windows s) p) = next_window limit now (g p)"
  using assms [unfolded tracks_def, rule_format, of p]
  by (auto simp: window_of_def next_window_def zero_window_def time_sub_minute)

lemma next_window_refused: "next_window limit now w = (False, w') \<Longrightarrow> w' = w"
  by (auto simp: next_window_def split: if_splits)

lemma allow_all_reference:
  assumes "0 < limit" and "in_order t reqs" and "tracks t s g"
  shows "allow_all limit reqs s = windows_all limit reqs g"
  using assms(2,3)
proof (induction reqs arbitrary: t s g)
  case (Cons r reqs)
  obtain p now where r: "r = (p, now)" by (cases r)
  have now: "t \<le> now" "in_order now reqs" using Cons.prems(1) by (auto simp: r in_order_Cons)
  have tr: "tracks now (cleanup now s) g" using tracks_cleanup [OF Cons.prems(2) now(1)] .
  obtain ok w where nw: "next_window limit now (g p) = (ok, w)" by (cases "next_window limit now (g p)")
  obtain s' where a: "allowPrincipalRequest limit p now s = (ok, s')" and tr': "tracks now s' (g(p := w))"
  proof (cases ok)
    case True
    then show ?thesis using that assms(1) tr nw next_window_tracks [OF tr]
      by (auto simp: allowPrincipalRequest_def Let_def tracks_def)
  next
    case False
    then show ?thesis using that assms(1) tr nw next_window_tracks [OF tr] next_window_refused [of limit now "g p" w]
      by (auto simp: allowPrincipalRequest_def Let_def tracks_def)
  qed
  show ?case using Cons.IH [OF now(2) tr'] by (simp add: r a nw del: fun_upd_apply)
qed simp

section \<open>How many requests a minute\<close>

text \<open>
  The accepted times of one principal end with those of its window. Any accepted time that has more
  than \<open>L\<close> accepted ones after it before the window began is a minute older than the window.
\<close>

definition spaced :: "nat \<Rightarrow> int list \<Rightarrow> bool" where
  "spaced n ts \<longleftrightarrow> (\<forall>k. k + n < length ts \<longrightarrow> ts ! (k + n) - ts ! k \<ge> minute)"

definition window_log :: "nat \<Rightarrow> int list \<Rightarrow> rate_window \<Rightarrow> int \<Rightarrow> bool" where
  "window_log L ts w t \<longleftrightarrow>
     sorted ts \<and> (\<forall>x \<in> set ts. x \<le> t) \<and> spaced (2 * L) ts \<and>
     (if rw_start w = 0 then ts = []
      else \<exists>before cur. ts = before @ rw_start w # cur \<and> rw_count w = int (length cur) + 1 \<and> length cur < L \<and>
        (\<forall>k. k + L < length before \<longrightarrow> rw_start w - before ! k \<ge> minute))"

lemma sorted_snoc: "sorted (xs @ [x]) \<longleftrightarrow> sorted xs \<and> (\<forall>y \<in> set xs. y \<le> x)"
  by (auto simp: sorted_append)

lemma spaced_snoc:
  assumes "spaced n ts" and "\<And>k. k + n = length ts \<Longrightarrow> now - (ts @ [now]) ! k \<ge> minute"
  shows "spaced n (ts @ [now])"
  unfolding spaced_def
proof (intro allI impI)
  fix k
  assume k: "k + n < length (ts @ [now])"
  show "(ts @ [now]) ! (k + n) - (ts @ [now]) ! k \<ge> minute"
  proof (cases "k + n = length ts")
    case True
    then show ?thesis using assms(2) [OF True] by (simp add: nth_append)
  next
    case False
    then show ?thesis using k assms(1) by (simp add: spaced_def nth_append)
  qed
qed

lemma window_log_open:
  assumes "window_log L ts w t" and "t \<le> now" and "0 < now" and "0 < L"
    and "rw_start w = 0 \<or> now - rw_start w \<ge> minute"
  shows "window_log L (ts @ [now]) \<lparr>rw_start = now, rw_count = 1\<rparr> now"
proof -
  have old: "now - ts ! k \<ge> minute" if k: "k + L < length ts" for k
  proof -
    from k have nz: "rw_start w \<noteq> 0" using assms(1) by (auto simp: window_log_def)
    then obtain before cur where ts: "ts = before @ rw_start w # cur" "length cur < L"
      using assms(1) by (auto simp: window_log_def)
    have "k < length before" using k ts by simp
    then have "ts ! k \<le> rw_start w" using assms(1) by (auto simp: window_log_def ts nth_append sorted_append)
    then show ?thesis using nz assms(5) by simp
  qed
  have "spaced (2 * L) (ts @ [now])"
  proof (rule spaced_snoc)
    show "spaced (2 * L) ts" using assms(1) by (simp add: window_log_def)
    fix k
    assume "k + 2 * L = length ts"
    then have k: "k + L < length ts" using assms(4) by simp
    then show "now - (ts @ [now]) ! k \<ge> minute" using old [OF k] by (simp add: nth_append)
  qed
  then show ?thesis
    using assms(1-4) old by (fastforce simp: window_log_def sorted_snoc)
qed

lemma window_log_more:
  assumes "window_log L ts w t" and "t \<le> now" and "rw_start w \<noteq> 0" and "rw_count w < int L"
  shows "window_log L (ts @ [now]) (w\<lparr>rw_count := rw_count w + 1\<rparr>) now"
proof -
  obtain before cur where ts: "ts = before @ rw_start w # cur" "rw_count w = int (length cur) + 1"
      "\<And>k. k + L < length before \<Longrightarrow> rw_start w - before ! k \<ge> minute"
    using assms(1,3) by (auto simp: window_log_def)
  have now: "rw_start w \<le> now" using assms(1,2) by (auto simp: window_log_def ts)
  have len: "Suc (length cur) < L" using assms(4) ts(2) by simp
  have "spaced (2 * L) (ts @ [now])"
  proof (rule spaced_snoc)
    show "spaced (2 * L) ts" using assms(1) by (simp add: window_log_def)
    fix k
    assume "k + 2 * L = length ts"
    then have k: "k + L < length before" using len by (simp add: ts(1))
    then show "now - (ts @ [now]) ! k \<ge> minute" using ts(3) [OF k] now by (simp add: ts(1) nth_append)
  qed
  moreover have "\<exists>b c. ts @ [now] = b @ rw_start w # c \<and> rw_count w + 1 = int (length c) + 1 \<and> length c < L \<and>
      (\<forall>k. k + L < length b \<longrightarrow> rw_start w - b ! k \<ge> minute)"
    using ts len by (intro exI [of _ before] exI [of _ "cur @ [now]"]) simp
  moreover have "sorted (ts @ [now])" "\<forall>x \<in> set (ts @ [now]). x \<le> now"
    using assms(1,2) by (fastforce simp: window_log_def sorted_snoc)+
  ultimately show ?thesis using assms(3) unfolding window_log_def by simp
qed

lemma window_log_next:
  assumes "window_log L ts w t" and "t \<le> now" and "0 < now" and "0 < L"
    and "next_window (int L) now w = (ok, w')"
  shows "window_log L (ts @ (if ok then [now] else [])) w' now"
proof (cases "rw_start w = 0 \<or> now - rw_start w \<ge> minute")
  case True
  then have "ok" "w' = \<lparr>rw_start = now, rw_count = 1\<rparr>"
    using assms(5) by (auto simp: next_window_def time_sub_minute)
  then show ?thesis using window_log_open [OF assms(1-4) True] by simp
next
  case False
  show ?thesis
  proof (cases "rw_count w \<ge> int L")
    case True
    then have "\<not> ok" "w' = w" using False assms(5) by (auto simp: next_window_def time_sub_minute)
    then show ?thesis using assms(1,2) by (fastforce simp: window_log_def)
  next
    case small: False
    then have "ok" "w' = w\<lparr>rw_count := rw_count w + 1\<rparr>"
      using False assms(5) by (auto simp: next_window_def time_sub_minute)
    then show ?thesis using False small window_log_more [OF assms(1,2)] by simp
  qed
qed

lemma windows_all_spaced:
  assumes "0 < L" and "in_order t reqs" and "window_log L ts (g p) t"
  shows "spaced (2 * L) (ts @ accepted_times p reqs (windows_all (int L) reqs g))"
  using assms(2,3)
proof (induction reqs arbitrary: t ts g)
  case Nil
  then show ?case by (simp add: window_log_def accepted_times_def)
next
  case (Cons r reqs)
  obtain q now where r: "r = (q, now)" by (cases r)
  have now: "0 < now" "t \<le> now" "in_order now reqs" using Cons.prems(1) by (auto simp: r in_order_Cons)
  obtain ok w where nw: "next_window (int L) now (g q) = (ok, w)" by (cases "next_window (int L) now (g q)")
  show ?case
  proof (cases "q = p")
    case True
    have "window_log L (ts @ (if ok then [now] else [])) ((g(q := w)) p) now"
      using window_log_next [OF Cons.prems(2) now(2,1) assms(1), of ok w] nw True by simp
    from Cons.IH [where g = "g(q := w)", OF now(3) this] show ?thesis
      using nw True by (simp add: r accepted_times_def del: fun_upd_apply split: if_splits)
  next
    case False
    have "window_log L ts ((g(q := w)) p) now"
      using Cons.prems(2) now(2) False by (fastforce simp: window_log_def)
    from Cons.IH [where g = "g(q := w)", OF now(3) this] show ?thesis using nw False by (simp add: r accepted_times_def del: fun_upd_apply)
  qed
qed

section \<open>Properties\<close>

definition no_rates :: rates where
  "no_rates = \<lparr>rt_windows = Map.empty, rt_lastCleanup = 0\<rparr>"

text \<open>
  C23. The rate of a principal. When the clock does not run backwards, the decisions are
  those of one window per principal that nobody else touches, so neither the cleanup nor the requests of other
  principals change an answer. Of the accepted requests of a principal, any two with 2 L - 1
  others between them are at least a minute apart: less than a minute never sees more than twice the limit.
\<close>

theorem principal_rate_bounded:
  assumes "0 < L" and "in_order 0 reqs"
  shows "allow_all (int L) reqs no_rates = windows_all (int L) reqs (\<lambda>_. zero_window) \<and>
    spaced (2 * L) (accepted_times p reqs (allow_all (int L) reqs no_rates))"
proof -
  have eq: "allow_all (int L) reqs no_rates = windows_all (int L) reqs (\<lambda>_. zero_window)"
    using assms by (intro allow_all_reference) (auto simp: tracks_def no_rates_def zero_window_def)
  have "window_log L [] zero_window 0" by (simp add: window_log_def zero_window_def spaced_def)
  then have "spaced (2 * L) ([] @ accepted_times p reqs (windows_all (int L) reqs (\<lambda>_. zero_window)))"
    by (intro windows_all_spaced [OF assms]) simp
  then show ?thesis using eq by simp
qed

theorem principal_rate_bounded_witness:
  "allow_all 1 [(''a'', 5), (''b'', 6), (''a'', 7), (''a'', 60000000005)] no_rates = [True, True, False, True]"
proof -
  let ?r = "[(''a'', 5), (''b'', 6), (''a'', 7), (''a'', 60000000005)] :: (string \<times> int) list"
  have "allow_all (int 1) ?r no_rates = windows_all (int 1) ?r (\<lambda>_. zero_window)"
    by (rule conjunct1 [OF principal_rate_bounded]) (simp_all add: in_order_def)
  also have "\<dots> = [True, True, False, True]"
    by (simp add: next_window_def zero_window_def time_sub_def minute_def)
  finally show ?thesis by simp
qed

end
