(* ===== verification/Byte_Budget.thy ===== *)
theory Byte_Budget
  imports Prelude
begin

text \<open>
  internal/api/request_budget.go: the bytes of the strings that requests in flight retain. Every
  operation is one critical section of the budget. A request reserves its body when it arrives,
  resizes the reservation to the strings it keeps, reserves the largest replacement before each
  download and settles it afterwards, and resizes to zero when its handler returns.
\<close>

section \<open>Operations\<close>

record byte_budget =
  bb_limit :: int
  bb_used :: int

text \<open>\<open>None\<close> is the error that the budget is exceeded. \<open>held\<close> belongs to the reservation.\<close>

definition resize :: "int \<Rightarrow> byte_budget \<times> int \<Rightarrow> (byte_budget \<times> int) option" where
  "resize n s =
     (case s of (b, held) \<Rightarrow>
        (let delta = n - held in
         if n < 0 \<or> delta > bb_limit b - bb_used b then None
         else Some (b\<lparr>bb_used := bb_used b + delta\<rparr>, n)))"

definition reservePayloadBytes :: "int \<Rightarrow> byte_budget \<times> int \<Rightarrow> (byte_budget \<times> int) option" where
  "reservePayloadBytes maximum s =
     (case s of (b, held) \<Rightarrow>
        if maximum < 0 \<or> maximum > bb_limit b - bb_used b then None
        else Some (b\<lparr>bb_used := bb_used b + maximum\<rparr>, held + maximum))"

definition finishReservation :: "int \<Rightarrow> int \<Rightarrow> byte_budget \<times> int \<Rightarrow> byte_budget \<times> int" where
  "finishReservation maximum actual s =
     (case s of (b, held) \<Rightarrow>
        (b\<lparr>bb_used := bb_used b - (maximum - actual)\<rparr>, held - (maximum - actual)))"

section \<open>Requests that share the budget\<close>

text \<open>
  The reservations of all requests, and for each request the maximum of the download it is in. The code of
  one request is sequential: it settles a download before it resizes or reserves again, with at most the
  maximum. A failed operation changes nothing.
\<close>

record budget_state =
  bs_budget :: byte_budget
  bs_held :: "nat \<Rightarrow> int"
  bs_open :: "nat \<Rightarrow> int option"

definition put :: "nat \<Rightarrow> (byte_budget \<times> int) option \<Rightarrow> int option \<Rightarrow> budget_state \<Rightarrow> budget_state" where
  "put r res dl s =
     (case res of None \<Rightarrow> s
      | Some (b, held) \<Rightarrow>
          s\<lparr>bs_budget := b, bs_held := (bs_held s)(r := held), bs_open := (bs_open s)(r := dl)\<rparr>)"

abbreviation reservation :: "nat \<Rightarrow> budget_state \<Rightarrow> byte_budget \<times> int" where
  "reservation r s \<equiv> (bs_budget s, bs_held s r)"

datatype budget_label = LResize nat int | LReserve nat int | LSettle nat int

inductive bytes_step :: "budget_state \<Rightarrow> budget_label \<Rightarrow> budget_state \<Rightarrow> bool" where
  retain: "bs_open s r = None \<Longrightarrow>
    bytes_step s (LResize r n) (put r (resize n (reservation r s)) None s)"
| reserve: "bs_open s r = None \<Longrightarrow>
    bytes_step s (LReserve r m) (put r (reservePayloadBytes m (reservation r s)) (Some m) s)"
| settle: "bs_open s r = Some m \<Longrightarrow> 0 \<le> actual \<Longrightarrow> actual \<le> m \<Longrightarrow>
    bytes_step s (LSettle r actual) (put r (Some (finishReservation m actual (reservation r s))) None s)"

inductive_cases budget_step_cases: "bytes_step s l t"

definition budget_init :: "int \<Rightarrow> budget_state \<Rightarrow> bool" where
  "budget_init limit s \<longleftrightarrow>
     s = \<lparr>bs_budget = \<lparr>bb_limit = limit, bb_used = 0\<rparr>, bs_held = \<lambda>_. 0, bs_open = \<lambda>_. None\<rparr>"

definition total_held :: "(nat \<Rightarrow> int) \<Rightarrow> int" where
  "total_held f = sum f {r. f r \<noteq> 0}"

lemma total_held_update:
  assumes "finite {r. f r \<noteq> 0}"
  shows "total_held (f(i := x)) = total_held f + x - f i"
proof -
  define D where "D = {r. f r \<noteq> 0} - {i}"
  have D: "finite D" "i \<notin> D" using assms by (auto simp: D_def)
  have "{r. (f(i := x)) r \<noteq> 0} = (if x \<noteq> 0 then insert i D else D)" by (auto simp: D_def)
  moreover have "sum (f(i := x)) D = sum f D" using D by (intro sum.cong) auto
  ultimately have "total_held (f(i := x)) = sum f D + x" using D by (auto simp: total_held_def)
  moreover have "{r. f r \<noteq> 0} = (if f i \<noteq> 0 then insert i D else D)" by (auto simp: D_def)
  then have "total_held f = sum f D + f i" using D by (auto simp: total_held_def)
  ultimately show ?thesis by simp
qed

definition budget_inv :: "int \<Rightarrow> budget_state \<Rightarrow> bool" where
  "budget_inv limit s \<longleftrightarrow>
     finite {r. bs_held s r \<noteq> 0} \<and> bb_limit (bs_budget s) = limit \<and>
     bb_used (bs_budget s) = total_held (bs_held s) \<and> bb_used (bs_budget s) \<le> limit \<and>
     (\<forall>r. (case bs_open s r of None \<Rightarrow> 0 | Some m \<Rightarrow> m) \<le> bs_held s r) \<and>
     (\<forall>r m. bs_open s r = Some m \<longrightarrow> 0 \<le> m)"

lemma budget_inv_held:
  assumes "budget_inv limit s"
  shows "0 \<le> bs_held s r"
proof -
  have "(case bs_open s r of None \<Rightarrow> 0 | Some m \<Rightarrow> m) \<le> bs_held s r" "bs_open s r = Some m \<Longrightarrow> 0 \<le> m" for m
    using assms unfolding budget_inv_def by blast+
  then show ?thesis by (cases "bs_open s r") (simp, fastforce)
qed

lemma put_inv:
  assumes "budget_inv limit s" and "res = Some (b, held)"
    and "bb_limit b = limit" and "bb_used b = bb_used (bs_budget s) + (held - bs_held s r)"
    and "bb_used b \<le> limit"
    and "(case dl of None \<Rightarrow> 0 | Some m \<Rightarrow> m) \<le> held" and "\<And>m. dl = Some m \<Longrightarrow> 0 \<le> m"
  shows "budget_inv limit (put r res dl s)"
proof -
  have fin: "finite {i. bs_held s i \<noteq> 0}" using assms(1) by (simp add: budget_inv_def)
  have "finite {i. ((bs_held s)(r := held)) i \<noteq> 0}"
    by (rule finite_subset [OF _ finite.insertI [OF fin, of r]]) auto
  then show ?thesis
    using assms total_held_update [OF fin, of r held]
    by (auto simp: budget_inv_def put_def split: if_splits)
qed

lemma budget_step_inv:
  assumes inv: "budget_inv limit s" and step: "bytes_step s l t"
  shows "budget_inv limit t"
  using step
proof cases
  case (retain r n)
  show ?thesis
  proof (cases "resize n (reservation r s)")
    case None
    then show ?thesis using inv retain by (simp add: put_def)
  next
    case (Some x)
    obtain b h where x: "x = (b, h)" by (cases x)
    have limit: "bb_limit (bs_budget s) = limit" using inv by (simp add: budget_inv_def)
    show ?thesis unfolding retain Some x
      by (rule put_inv [OF inv refl]) (use Some limit in \<open>auto simp: x resize_def Let_def split: if_splits\<close>)
  qed
next
  case (reserve r m)
  show ?thesis
  proof (cases "reservePayloadBytes m (reservation r s)")
    case None
    then show ?thesis using inv reserve by (simp add: put_def)
  next
    case (Some x)
    obtain b h where x: "x = (b, h)" by (cases x)
    have limit: "bb_limit (bs_budget s) = limit" using inv by (simp add: budget_inv_def)
    show ?thesis unfolding reserve Some x
      by (rule put_inv [OF inv refl])
        (use Some limit budget_inv_held [OF inv, of r] in \<open>auto simp: x reservePayloadBytes_def split: if_splits\<close>)
  qed
next
  case (settle r m actual)
  have *: "bb_limit (bs_budget s) = limit" "bb_used (bs_budget s) \<le> limit" "m \<le> bs_held s r"
    using inv settle(3) by (auto simp: budget_inv_def dest: spec [of _ r])
  show ?thesis unfolding settle(2) finishReservation_def prod.case
    by (rule put_inv [OF inv refl]) (use * settle(4,5) in auto)
qed

lemma budget_init_inv: "0 \<le> limit \<Longrightarrow> budget_init limit s \<Longrightarrow> budget_inv limit s"
  by (auto simp: budget_init_def budget_inv_def total_held_def)

interpretation budget_system: inductive_invariant "\<lambda>s. 0 \<le> limit \<and> budget_init limit s" bytes_step
  "budget_inv limit" for limit
  by unfold_locales (auto intro: budget_init_inv budget_step_inv)

section \<open>Properties\<close>

text \<open>
  C24. The budget of retained bytes. In every interleaving of requests the bytes in use are
  the sum of what the requests hold, each holds at least nothing, and the sum never exceeds the limit. Giving back
  never fails: a request that shrinks or ends its reservation succeeds whatever
  the others hold, and when no request holds anything the whole budget is free again.
\<close>

theorem retained_bytes_bounded:
  assumes "reachable (\<lambda>s. 0 \<le> limit \<and> budget_init limit s) bytes_step s"
  shows "bb_used (bs_budget s) = total_held (bs_held s) \<and> (\<forall>r. 0 \<le> bs_held s r) \<and>
    bb_used (bs_budget s) \<le> limit \<and>
    (\<forall>r n. 0 \<le> n \<and> n \<le> bs_held s r \<longrightarrow>
       resize n (reservation r s) =
         Some ((bs_budget s)\<lparr>bb_used := bb_used (bs_budget s) - (bs_held s r - n)\<rparr>, n)) \<and>
    ((\<forall>r. bs_held s r = 0) \<longrightarrow> bb_used (bs_budget s) = 0)"
proof -
  have inv: "budget_inv limit s" using budget_system.holds [OF assms] .
  then have I: "bb_limit (bs_budget s) = limit" "bb_used (bs_budget s) = total_held (bs_held s)"
      "bb_used (bs_budget s) \<le> limit"
    by (auto simp: budget_inv_def)
  have returned: "resize n (reservation r s) =
      Some ((bs_budget s)\<lparr>bb_used := bb_used (bs_budget s) - (bs_held s r - n)\<rparr>, n)"
    if "0 \<le> n" "n \<le> bs_held s r" for r n
  proof -
    have "bb_used (bs_budget s) + (n - bs_held s r) = bb_used (bs_budget s) - (bs_held s r - n)" by simp
    then show ?thesis using that I by (simp add: resize_def)
  qed
  have "(\<forall>r. bs_held s r = 0) \<longrightarrow> bb_used (bs_budget s) = 0" using I(2) by (simp add: total_held_def)
  then show ?thesis using I(2,3) budget_inv_held [OF inv] returned by blast
qed

definition demo_budget :: budget_state where
  "demo_budget = \<lparr>bs_budget = \<lparr>bb_limit = 10, bb_used = 7\<rparr>, bs_held = (\<lambda>_. 0)(0 := 7), bs_open = (\<lambda>_. None)(0 := None)\<rparr>"

theorem retained_bytes_bounded_witness:
  "resize 3 (reservation 0 demo_budget) = Some (\<lparr>bb_limit = 10, bb_used = 3\<rparr>, 3)"
proof -
  let ?i = "\<lparr>bs_budget = \<lparr>bb_limit = 10, bb_used = 0\<rparr>, bs_held = \<lambda>_. 0, bs_open = \<lambda>_. None\<rparr>"
  have start: "reachable (\<lambda>s. 0 \<le> (10::int) \<and> budget_init 10 s) bytes_step ?i"
    by (rule reachable.start) (simp add: budget_init_def)
  have "bytes_step ?i (LResize 0 7) (put 0 (resize 7 (reservation 0 ?i)) None ?i)"
    by (rule bytes_step.retain) simp
  moreover have "put 0 (resize 7 (reservation 0 ?i)) None ?i = demo_budget"
    by (simp add: put_def resize_def demo_budget_def)
  ultimately have "reachable (\<lambda>s. 0 \<le> (10::int) \<and> budget_init 10 s) bytes_step demo_budget"
    using reachable.extend [OF start] by metis
  from retained_bytes_bounded [OF this] have
    "0 \<le> (3::int) \<and> 3 \<le> bs_held demo_budget 0 \<longrightarrow> resize 3 (reservation 0 demo_budget) =
       Some ((bs_budget demo_budget)\<lparr>bb_used := bb_used (bs_budget demo_budget) - (bs_held demo_budget 0 - 3)\<rparr>, 3)"
    by blast
  then show ?thesis by (simp add: demo_budget_def)
qed

end
