(* ===== verification/Lifecycle.thy ===== *)
theory Lifecycle
  imports Prelude
begin

text \<open>
  internal/api/lifecycle.go: the requests in flight and the drain of the server. Every operation is one
  critical section of the lock. A request is a number, given in the order of admission; its
  context is cancelled by the operations below or by its client, at any time. Closing the
  channel \<open>done\<close> a second time would panic, so the closes are counted.
\<close>

section \<open>Operations\<close>

record work =
  wl_draining :: bool
  wl_requests :: "nat \<rightharpoonup> bool"
  wl_canceled :: "nat set"
  wl_finished :: bool
  wl_closes :: nat
  wl_next :: nat

text \<open>A request that is registered maps to whether it is running.\<close>

definition new_work :: work where
  "new_work = \<lparr>wl_draining = False, wl_requests = Map.empty, wl_canceled = {}, wl_finished = False,
     wl_closes = 0, wl_next = 0\<rparr>"

definition signalFinished :: "work \<Rightarrow> work" where
  "signalFinished s =
     (if wl_draining s \<and> wl_requests s = Map.empty \<and> \<not> wl_finished s
      then s\<lparr>wl_closes := wl_closes s + 1, wl_finished := True\<rparr> else s)"

definition begin_work :: "work \<Rightarrow> nat option \<times> work" where
  "begin_work s =
     (if wl_draining s then (None, s)
      else (Some (wl_next s), s\<lparr>wl_requests := (wl_requests s)(wl_next s \<mapsto> False), wl_next := wl_next s + 1\<rparr>))"

text \<open>The function that \<open>begin\<close> returns: it cancels outside the lock and then removes the request.\<close>

definition cancel_context :: "nat \<Rightarrow> work \<Rightarrow> work" where
  "cancel_context r s = s\<lparr>wl_canceled := insert r (wl_canceled s)\<rparr>"

definition finish_work :: "nat \<Rightarrow> work \<Rightarrow> work" where
  "finish_work r s = signalFinished (s\<lparr>wl_requests := (wl_requests s)(r := None)\<rparr>)"

definition start_work :: "nat \<Rightarrow> work \<Rightarrow> bool \<times> work" where
  "start_work r s =
     (if wl_draining s \<or> r \<in> wl_canceled s then (False, s)
      else if wl_requests s r = None then (False, s)
      else (True, s\<lparr>wl_requests := (wl_requests s)(r \<mapsto> True)\<rparr>))"

definition isDraining :: "work \<Rightarrow> bool" where
  "isDraining s = wl_draining s"

definition BeginDrain :: "work \<Rightarrow> work" where
  "BeginDrain s =
     signalFinished (s\<lparr>wl_draining := True,
       wl_canceled := wl_canceled s \<union> {r. wl_requests s r = Some False}\<rparr>)"

definition CancelWork :: "work \<Rightarrow> work" where
  "CancelWork s = s\<lparr>wl_canceled := wl_canceled s \<union> dom (wl_requests s)\<rparr>"

text \<open>Whether \<open>WaitForWork\<close> returns \<open>nil\<close> when its own context stays alive: whether \<open>done\<close> is closed.\<close>

definition WaitForWork :: "work \<Rightarrow> bool" where
  "WaitForWork s \<longleftrightarrow> 0 < wl_closes s"

section \<open>Interleavings\<close>

datatype work_label = LBegin | LCancel nat | LFinish nat | LStart nat | LDrain | LCancelAll

inductive work_step :: "work \<Rightarrow> work_label \<Rightarrow> work \<Rightarrow> bool" where
  arrive: "begin_work s = (res, t) \<Longrightarrow> work_step s LBegin t"
| cancel: "r < wl_next s \<Longrightarrow> work_step s (LCancel r) (cancel_context r s)"
| finish: "r < wl_next s \<Longrightarrow> work_step s (LFinish r) (finish_work r s)"
| start: "r < wl_next s \<Longrightarrow> start_work r s = (ok, t) \<Longrightarrow> work_step s (LStart r) t"
| drain: "work_step s LDrain (BeginDrain s)"
| cancel_all: "work_step s LCancelAll (CancelWork s)"

inductive_cases work_step_cases: "work_step s l t"

definition work_inv :: "work \<Rightarrow> bool" where
  "work_inv s \<longleftrightarrow>
     (wl_finished s \<longleftrightarrow> wl_draining s \<and> wl_requests s = Map.empty) \<and>
     wl_closes s = of_bool (wl_finished s) \<and>
     (wl_draining s \<longrightarrow> (\<forall>r. wl_requests s r = Some False \<longrightarrow> r \<in> wl_canceled s)) \<and>
     (\<forall>r b. wl_requests s r = Some b \<longrightarrow> r < wl_next s)"

lemmas work_defs = begin_work_def cancel_context_def finish_work_def start_work_def BeginDrain_def
  CancelWork_def signalFinished_def

lemma work_step_inv: "work_step s l t \<Longrightarrow> work_inv s \<Longrightarrow> work_inv t"
proof (induction rule: work_step.induct)
  case (arrive s res t)
  then show ?case by (auto simp: work_inv_def work_defs simp: less_Suc_eq split: if_splits)
next
  case (start r s ok t)
  then show ?case by (auto simp: work_inv_def work_defs split: if_splits)
qed (auto simp: work_inv_def work_defs)

interpretation work_system: inductive_invariant "\<lambda>s. s = new_work" work_step work_inv
  by unfold_locales (simp add: work_inv_def new_work_def, rule work_step_inv)

section \<open>While the server drains\<close>

definition running :: "work \<Rightarrow> nat set" where
  "running s = {r. wl_requests s r = Some True}"

lemma draining_step:
  assumes "work_step s l t" and "wl_draining s"
  shows "wl_draining t \<and> dom (wl_requests t) \<subseteq> dom (wl_requests s) \<and> running t \<subseteq> running s \<and>
    wl_canceled s \<subseteq> wl_canceled t \<and> (\<forall>r. l = LFinish r \<longrightarrow> wl_requests t r = None)"
  using assms by cases (auto simp: work_defs running_def split: if_splits)

lemma draining_trace:
  assumes "trace work_step s ls t" and "wl_draining s"
  shows "wl_draining t \<and> dom (wl_requests t) \<subseteq> dom (wl_requests s) \<and> running t \<subseteq> running s \<and>
    wl_canceled s \<subseteq> wl_canceled t \<and> (\<forall>r. LFinish r \<in> set ls \<longrightarrow> wl_requests t r = None)"
  using assms
proof (induction rule: trace.induct)
  case (more s l u ls t)
  note S = draining_step [OF more.hyps(1) more.prems]
  have "wl_draining u" using S by blast
  note T = more.IH [OF this]
  have "wl_requests t r = None" if "LFinish r \<in> set (l # ls)" for r
  proof (cases "LFinish r \<in> set ls")
    case False
    then have "wl_requests u r = None" using that S by auto
    then show ?thesis using T by auto
  qed (use T in blast)
  then show ?case using S T by blast
qed simp

section \<open>Properties\<close>

text \<open>
  C25. The drain of the server. In every reachable state the channel that ends the drain was closed at most once,
  and it is closed exactly when the server drains and no request is left, so waiting
  returns then and not before. While it drains, every request that is not running is cancelled.
\<close>

theorem drain_signal_exact:
  assumes "reachable (\<lambda>s. s = new_work) work_step s"
  shows "wl_closes s \<le> 1 \<and> (WaitForWork s \<longleftrightarrow> wl_draining s \<and> wl_requests s = Map.empty) \<and>
    (wl_draining s \<longrightarrow> dom (wl_requests s) \<subseteq> running s \<union> wl_canceled s)"
proof -
  have "work_inv s" using work_system.holds assms .
  then show ?thesis by (auto simp: work_inv_def WaitForWork_def running_def)
qed

text \<open>
  C26. A drain ends. From the moment the server drains, no request is admitted and none starts to run, whatever
  the other goroutines do; and once the handlers of the requests that were registered then have
  returned, in any order and between any other steps, waiting for the work returns.
\<close>

theorem drain_completes:
  assumes "reachable (\<lambda>s. s = new_work) work_step s" and "wl_draining s"
    and "trace work_step s ls t"
  shows "fst (begin_work t) = None \<and> (\<forall>r. fst (start_work r t) = False) \<and> running t \<subseteq> running s \<and>
    ((\<forall>r \<in> dom (wl_requests s). LFinish r \<in> set ls) \<longrightarrow> WaitForWork t)"
proof -
  note T = draining_trace [OF assms(3,2)]
  have "work_inv t" using work_system.trace_inv [OF assms(3)] work_system.holds [OF assms(1)] .
  moreover have "wl_requests t = Map.empty" if "\<forall>r \<in> dom (wl_requests s). LFinish r \<in> set ls"
    using T that by fastforce
  ultimately show ?thesis using T by (auto simp: begin_work_def start_work_def work_inv_def WaitForWork_def)
qed

text \<open>A run in which one request is running and one waits when the drain begins.\<close>

definition demo_draining :: work where
  "demo_draining = BeginDrain (snd (start_work 0 (snd (begin_work (snd (begin_work new_work))))))"

lemma demo_draining_reachable: "reachable (\<lambda>s. s = new_work) work_step demo_draining"
proof -
  let ?s1 = "snd (begin_work new_work)" and ?s2 = "snd (begin_work (snd (begin_work new_work)))"
  have "reachable (\<lambda>s. s = new_work) work_step new_work" by (rule reachable.start) simp
  then have "reachable (\<lambda>s. s = new_work) work_step ?s1"
    by (rule reachable.extend) (rule work_step.arrive [OF prod.collapse [symmetric]])
  then have 2: "reachable (\<lambda>s. s = new_work) work_step ?s2"
    by (rule reachable.extend) (rule work_step.arrive [OF prod.collapse [symmetric]])
  have "work_step ?s2 (LStart 0) (snd (start_work 0 ?s2))"
    by (rule work_step.start [OF _ prod.collapse [symmetric]]) (simp add: begin_work_def new_work_def)
  with 2 have "reachable (\<lambda>s. s = new_work) work_step (snd (start_work 0 ?s2))" by (rule reachable.extend)
  then show ?thesis unfolding demo_draining_def by (rule reachable.extend) (rule work_step.drain)
qed

lemma demo_draining_eval:
  "wl_draining demo_draining" "wl_requests demo_draining = [0 \<mapsto> True, 1 \<mapsto> False]" "wl_next demo_draining = 2"
  by (auto simp: demo_draining_def work_defs new_work_def)

theorem drain_signal_exact_witness: "\<not> WaitForWork demo_draining \<and> 1 \<in> wl_canceled demo_draining"
proof -
  note D = drain_signal_exact [OF demo_draining_reachable]
  have "1 \<in> dom (wl_requests demo_draining)" "1 \<notin> running demo_draining"
    by (simp_all add: demo_draining_eval running_def)
  moreover have "wl_requests demo_draining \<noteq> Map.empty" by (simp add: demo_draining_eval)
  ultimately show ?thesis using D demo_draining_eval(1) by blast
qed

theorem drain_completes_witness: "WaitForWork (finish_work 0 (finish_work 1 demo_draining))"
proof -
  let ?s = "finish_work 1 demo_draining"
  have "wl_next ?s = 2" by (simp add: finish_work_def signalFinished_def demo_draining_eval)
  then have "trace work_step demo_draining [LFinish 1, LFinish 0] (finish_work 0 ?s)"
    by (auto simp: trace_Cons demo_draining_eval intro!: work_step.finish exI [of _ ?s])
  from drain_completes [OF demo_draining_reachable demo_draining_eval(1) this]
  show ?thesis by (auto simp: demo_draining_eval split: if_splits)
qed

end
