(* ===== verification/Platform.thy ===== *)
theory Platform
  imports Prelude Go_Strings
begin

text \<open>
  internal/platform: the execution mode, the deployment target, transport and sandbox backend of a process,
  and the security contract of each combination. The environment of the process is a function from names to
  values, empty where a variable is not set.
\<close>

section \<open>Modes\<close>

datatype ExecutionMode = ModeLocalDev | ModeLocalRoot | ModeCloudRun
datatype DeploymentTarget = TargetDev | TargetSelfHosted | TargetCloudRun
datatype ExecutionTransport = TransportEmbedded | TransportRemote
datatype SandboxBackend = BackendHelper | BackendContainer | BackendNone

record RuntimeOptions =
  op_DeploymentTarget :: DeploymentTarget
  op_ExecutionTransport :: ExecutionTransport
  op_SandboxBackend :: SandboxBackend

datatype platform_error = UnsupportedVariable string string

text \<open>The value of a variable as the switches read it.\<close>

definition env_word :: "(string \<Rightarrow> string) \<Rightarrow> string \<Rightarrow> string" where
  "env_word env key = trim_space (to_lower (env key))"

definition SupportsCommunicationV1 :: "RuntimeOptions \<Rightarrow> string \<Rightarrow> bool \<Rightarrow> bool" where
  "SupportsCommunicationV1 opts cgroupParent cloudRunEnabled =
     (if op_ExecutionTransport opts \<noteq> TransportEmbedded \<or> op_SandboxBackend opts \<noteq> BackendHelper then False
      else (case op_DeploymentTarget opts of
              TargetCloudRun \<Rightarrow> cloudRunEnabled \<and> trim_space cgroupParent = []
            | TargetSelfHosted \<Rightarrow> trim_space cgroupParent \<noteq> []
            | TargetDev \<Rightarrow> False))"

definition CurrentExecutionMode :: "(string \<Rightarrow> string) \<Rightarrow> platform_error + ExecutionMode" where
  "CurrentExecutionMode env =
     (let raw = env_word env ''AONOHAKO_EXECUTION_MODE'' in
      if raw = [] then Inr ModeLocalDev
      else if raw = ''cloudrun'' then Inr ModeCloudRun
      else if raw = ''local-root'' then Inr ModeLocalRoot
      else if raw = ''local-dev'' then Inr ModeLocalDev
      else Inl (UnsupportedVariable ''AONOHAKO_EXECUTION_MODE'' (env ''AONOHAKO_EXECUTION_MODE'')))"

definition runtimeOptionsForMode :: "ExecutionMode \<Rightarrow> RuntimeOptions" where
  "runtimeOptionsForMode mode =
     \<lparr>op_DeploymentTarget = (case mode of ModeCloudRun \<Rightarrow> TargetCloudRun | ModeLocalRoot \<Rightarrow> TargetSelfHosted
        | ModeLocalDev \<Rightarrow> TargetDev),
      op_ExecutionTransport = TransportEmbedded, op_SandboxBackend = BackendHelper\<rparr>"

definition CurrentRuntimeOptions :: "(string \<Rightarrow> string) \<Rightarrow> platform_error + RuntimeOptions" where
  "CurrentRuntimeOptions env =
     and_then (CurrentExecutionMode env) (\<lambda>mode.
       (let legacy = runtimeOptionsForMode mode;
            targetRaw = env_word env ''AONOHAKO_DEPLOYMENT_TARGET'';
            transportRaw = env_word env ''AONOHAKO_EXECUTION_TRANSPORT'';
            backendRaw = env_word env ''AONOHAKO_SANDBOX_BACKEND'' in
        and_then
          (if targetRaw = [] then Inr (op_DeploymentTarget legacy)
           else if targetRaw = ''cloudrun'' then Inr TargetCloudRun
           else if targetRaw = ''selfhosted'' then Inr TargetSelfHosted
           else if targetRaw = ''dev'' then Inr TargetDev
           else Inl (UnsupportedVariable ''AONOHAKO_DEPLOYMENT_TARGET'' (env ''AONOHAKO_DEPLOYMENT_TARGET'')))
          (\<lambda>tgt.
        and_then
          (if transportRaw = [] then Inr (op_ExecutionTransport legacy)
           else if transportRaw = ''remote'' then Inr TransportRemote
           else if transportRaw = ''embedded'' then Inr TransportEmbedded
           else Inl (UnsupportedVariable ''AONOHAKO_EXECUTION_TRANSPORT'' (env ''AONOHAKO_EXECUTION_TRANSPORT'')))
          (\<lambda>transport.
        and_then
          (if backendRaw = ''container'' then Inr BackendContainer
           else if backendRaw = ''none'' then Inr BackendNone
           else if backendRaw = ''helper'' then Inr BackendHelper
           else if backendRaw = [] then
             Inr (if transport = TransportRemote then BackendNone else op_SandboxBackend legacy)
           else Inl (UnsupportedVariable ''AONOHAKO_SANDBOX_BACKEND'' (env ''AONOHAKO_SANDBOX_BACKEND'')))
          (\<lambda>backend.
        Inr \<lparr>op_DeploymentTarget = tgt, op_ExecutionTransport = transport, op_SandboxBackend = backend\<rparr>)))))"

definition IsCloudRun :: "(string \<Rightarrow> string) \<Rightarrow> bool" where
  "IsCloudRun env = (case CurrentRuntimeOptions env of
     Inl _ \<Rightarrow> False | Inr opts \<Rightarrow> op_DeploymentTarget opts = TargetCloudRun)"

definition CloudRunMarkersPresent :: "(string \<Rightarrow> string) \<Rightarrow> bool" where
  "CloudRunMarkersPresent env \<longleftrightarrow>
     list_ex (\<lambda>key. env key \<noteq> []) [''K_SERVICE'', ''CLOUD_RUN_JOB'', ''CLOUD_RUN_WORKER_POOL'']"

definition UsesDedicatedWorkRoot :: "(string \<Rightarrow> string) \<Rightarrow> platform_error + bool" where
  "UsesDedicatedWorkRoot env =
     and_then (CurrentRuntimeOptions env) (\<lambda>opts.
       if op_DeploymentTarget opts = TargetCloudRun then Inr True
       else Inr (op_DeploymentTarget opts = TargetSelfHosted \<and> op_ExecutionTransport opts = TransportEmbedded \<and>
                 op_SandboxBackend opts = BackendHelper))"

definition RequiresRootForExecution :: "(string \<Rightarrow> string) \<Rightarrow> platform_error + bool" where
  "RequiresRootForExecution env =
     and_then (CurrentRuntimeOptions env) (\<lambda>opts.
       Inr (op_ExecutionTransport opts = TransportEmbedded \<and> op_SandboxBackend opts = BackendHelper))"

section \<open>Contracts\<close>

datatype SecurityCapability =
    CapCompileExecuteForwarding | CapNoLocalUntrustedWork | CapSetrlimit | CapNoNewPrivileges
  | CapSeccompDenylist | CapNetworkSyscallGate | CapFDCleanup | CapProcessGroupCleanup
  | CapImmutableSubmissions | CapSymlinkSafeOutputCapture | CapWorkspaceAccounting | CapSingleSandboxUID
  | CapPerRunCgroup | CapMountNamespace | CapReadOnlyRootFS | CapMaskedProc | CapPerRunUID
  | CapChildProcessAccounting | CapSeccompAllowlist | CapPostStartExecveBlocked

record SecurityContract =
  sc_Name :: string
  sc_Implemented :: bool
  sc_RequiresRootParent :: bool
  sc_RequiresDedicatedWorkRoot :: bool
  sc_RequiresSingleActiveRun :: bool
  sc_DelegatesIsolation :: bool
  sc_Capabilities :: "SecurityCapability list"
  sc_MissingCapabilities :: "SecurityCapability list"

datatype contract_error = EmbeddedBackend | RemoteBackend

definition isolation_capabilities :: "SecurityCapability list" where
  "isolation_capabilities =
     [CapPerRunCgroup, CapMountNamespace, CapReadOnlyRootFS, CapMaskedProc, CapPerRunUID,
      CapChildProcessAccounting, CapSeccompAllowlist, CapPostStartExecveBlocked]"

definition SecurityContract_of :: "RuntimeOptions \<Rightarrow> contract_error + SecurityContract" where
  "SecurityContract_of opts =
     (case op_ExecutionTransport opts of
        TransportEmbedded \<Rightarrow>
          (case op_SandboxBackend opts of
             BackendHelper \<Rightarrow> Inr
               \<lparr>sc_Name = ''embedded-helper-process-hardening'', sc_Implemented = True, sc_RequiresRootParent = True,
                sc_RequiresDedicatedWorkRoot =
                  (op_DeploymentTarget opts = TargetCloudRun \<or> op_DeploymentTarget opts = TargetSelfHosted),
                sc_RequiresSingleActiveRun = True, sc_DelegatesIsolation = False,
                sc_Capabilities =
                  [CapSetrlimit, CapNoNewPrivileges, CapSeccompDenylist, CapNetworkSyscallGate, CapFDCleanup,
                   CapProcessGroupCleanup, CapImmutableSubmissions, CapSymlinkSafeOutputCapture,
                   CapWorkspaceAccounting, CapSingleSandboxUID],
                sc_MissingCapabilities = isolation_capabilities\<rparr>
           | BackendContainer \<Rightarrow> Inr
               \<lparr>sc_Name = ''reserved-container-isolation'', sc_Implemented = False, sc_RequiresRootParent = False,
                sc_RequiresDedicatedWorkRoot = False, sc_RequiresSingleActiveRun = False,
                sc_DelegatesIsolation = False, sc_Capabilities = isolation_capabilities,
                sc_MissingCapabilities = []\<rparr>
           | BackendNone \<Rightarrow> Inl EmbeddedBackend)
      | TransportRemote \<Rightarrow>
          if op_SandboxBackend opts \<noteq> BackendNone then Inl RemoteBackend
          else Inr
            \<lparr>sc_Name = ''remote-control-plane'', sc_Implemented = True, sc_RequiresRootParent = False,
             sc_RequiresDedicatedWorkRoot = (op_DeploymentTarget opts = TargetCloudRun),
             sc_RequiresSingleActiveRun = False, sc_DelegatesIsolation = True,
             sc_Capabilities = [CapCompileExecuteForwarding, CapNoLocalUntrustedWork],
             sc_MissingCapabilities = []\<rparr>)"

text \<open>The loop that appends the capabilities that are new; the map \<open>available\<close> is the list so far.\<close>

fun add_capabilities :: "SecurityCapability list \<Rightarrow> SecurityCapability list \<Rightarrow> SecurityCapability list" where
  "add_capabilities acc [] = acc"
| "add_capabilities acc (c # caps) = add_capabilities (if c \<in> set acc then acc else acc @ [c]) caps"

definition WithAvailableCapabilities :: "SecurityContract \<Rightarrow> SecurityCapability list \<Rightarrow> SecurityContract" where
  "WithAvailableCapabilities contract caps =
     (if caps = [] then contract
      else
        (let capabilities = add_capabilities (sc_Capabilities contract) caps in
         contract\<lparr>sc_Capabilities := capabilities,
           sc_MissingCapabilities := filter (\<lambda>c. c \<notin> set capabilities) (sc_MissingCapabilities contract)\<rparr>))"

lemma set_add_capabilities: "set (add_capabilities acc caps) = set acc \<union> set caps"
  by (induction acc caps rule: add_capabilities.induct) auto

text \<open>What a contract that is implemented says of the platform.\<close>

lemma implemented_contract:
  assumes "SecurityContract_of opts = Inr contract" and "sc_Implemented contract"
  shows "(op_ExecutionTransport opts = TransportEmbedded \<and> op_SandboxBackend opts = BackendHelper \<and>
      sc_RequiresRootParent contract \<and> sc_RequiresSingleActiveRun contract \<and> \<not> sc_DelegatesIsolation contract) \<or>
    (op_ExecutionTransport opts = TransportRemote \<and> op_SandboxBackend opts = BackendNone \<and>
      \<not> sc_RequiresRootParent contract \<and> \<not> sc_RequiresSingleActiveRun contract \<and> sc_DelegatesIsolation contract)"
  using assms
  by (auto simp: SecurityContract_of_def split: ExecutionTransport.splits SandboxBackend.splits if_splits)

end
