(* ===== verification/Runtime_Tuning.thy ===== *)
theory Runtime_Tuning
  imports Prelude Go_Strings Json_Size
begin

text \<open>
  internal/config/config.go: the parsers of environment values and the tuning of the language runtimes. The struct
  \<open>RuntimeTuningConfig\<close> has fourteen integer fields, which are a function from their names.
\<close>

section \<open>Integers and booleans from text\<close>

definition digit_value :: "char \<Rightarrow> nat option" where
  "digit_value c = (let n = of_char c in if 48 \<le> n \<and> n \<le> 57 then Some (n - 48) else None)"

fun read_digits :: "nat \<Rightarrow> string \<Rightarrow> nat option" where
  "read_digits acc [] = Some acc"
| "read_digits acc (c # s) =
     (case digit_value c of None \<Rightarrow> None | Some d \<Rightarrow> read_digits (10 * acc + d) s)"

text \<open>\<open>strconv.Atoi\<close> on 64 bits: an optional sign and at least one digit, within the range.\<close>

definition atoi :: "string \<Rightarrow> int option" where
  "atoi s =
     (let neg = has_prefix s ''-''; body = (if neg \<or> has_prefix s ''+'' then drop 1 s else s) in
      if body = [] then None
      else (case read_digits 0 body of
              None \<Rightarrow> None
            | Some n \<Rightarrow>
                (let v = (if neg then - int n else int n) in
                 if v < - (2 ^ 63) \<or> v > 2 ^ 63 - 1 then None else Some v)))"

datatype parse_error =
    NotPositive string
  | NotNonNegative string
  | NotBetween string int int
  | NotBoolean string

definition parsePositiveIntEnv :: "string \<Rightarrow> string \<Rightarrow> int \<Rightarrow> parse_error + int" where
  "parsePositiveIntEnv key raw fallback =
     (if raw = [] then Inr fallback
      else (case atoi raw of
              None \<Rightarrow> Inl (NotPositive key)
            | Some v \<Rightarrow> if v \<le> 0 then Inl (NotPositive key) else Inr v))"

definition parseNonNegativeIntEnv :: "string \<Rightarrow> string \<Rightarrow> int \<Rightarrow> parse_error + int" where
  "parseNonNegativeIntEnv key raw fallback =
     (if raw = [] then Inr fallback
      else (case atoi raw of
              None \<Rightarrow> Inl (NotNonNegative key)
            | Some v \<Rightarrow> if v < 0 then Inl (NotNonNegative key) else Inr v))"

definition parseBoundedIntEnv :: "string \<Rightarrow> string \<Rightarrow> int \<Rightarrow> int \<Rightarrow> int \<Rightarrow> parse_error + int" where
  "parseBoundedIntEnv key raw fallback minValue maxValue =
     (if raw = [] then Inr fallback
      else (case atoi raw of
              None \<Rightarrow> Inl (NotBetween key minValue maxValue)
            | Some v \<Rightarrow>
                if v < minValue \<or> v > maxValue then Inl (NotBetween key minValue maxValue) else Inr v))"

definition parseBoolEnv :: "string \<Rightarrow> string \<Rightarrow> bool \<Rightarrow> parse_error + bool" where
  "parseBoolEnv key raw fallback =
     (let val = trim_space (to_lower raw) in
      if val = [] then Inr fallback
      else if val \<in> {''1'', ''true'', ''yes'', ''on''} then Inr True
      else if val \<in> {''0'', ''false'', ''no'', ''off''} then Inr False
      else Inl (NotBoolean key))"

lemma parsed_positive: "parsePositiveIntEnv key raw d = Inr v \<Longrightarrow> 0 < d \<Longrightarrow> 0 < v"
  by (auto simp: parsePositiveIntEnv_def split: if_splits option.splits)

lemma parsed_non_negative: "parseNonNegativeIntEnv key raw d = Inr v \<Longrightarrow> 0 \<le> d \<Longrightarrow> 0 \<le> v"
  by (auto simp: parseNonNegativeIntEnv_def split: if_splits option.splits)

lemma parsed_bounded:
  "parseBoundedIntEnv key raw d lo hi = Inr v \<Longrightarrow> lo \<le> d \<Longrightarrow> d \<le> hi \<Longrightarrow> lo \<le> v \<and> v \<le> hi"
  by (auto simp: parseBoundedIntEnv_def split: if_splits option.splits)

section \<open>Tuning\<close>

datatype tuning_field =
    JVMHeapPercent | JavaStackSizeKB | GoMemoryReserveMB | GoGOGC | ErlangSchedulers | ErlangAsyncThreads
  | DotnetGCHeapPercent | KotlinNativeCompilerHeapMB | DenoOldSpacePercent | NodeOldSpacePercent
  | NodeMaxSemiSpaceMB | NodeStackSizeKB | WasmtimeMemoryGuardBytes | WasmtimeMaxWasmStackBytes

definition tuning_fields :: "tuning_field list" where
  "tuning_fields =
     [JVMHeapPercent, JavaStackSizeKB, GoMemoryReserveMB, GoGOGC, ErlangSchedulers, ErlangAsyncThreads,
      DotnetGCHeapPercent, KotlinNativeCompilerHeapMB, DenoOldSpacePercent, NodeOldSpacePercent,
      NodeMaxSemiSpaceMB, NodeStackSizeKB, WasmtimeMemoryGuardBytes, WasmtimeMaxWasmStackBytes]"

lemma all_tuning_fields: "f \<in> set tuning_fields"
  by (cases f) (simp_all add: tuning_fields_def)

record RuntimeTuningConfig =
  rt_value :: "tuning_field \<Rightarrow> int"
  rt_goMemoryReserveExplicitZero :: bool
  rt_erlangAsyncThreadsExplicitZero :: bool

fun tuning_default :: "tuning_field \<Rightarrow> int" where
  "tuning_default JVMHeapPercent = 50"
| "tuning_default JavaStackSizeKB = 16 * 1024"
| "tuning_default GoMemoryReserveMB = 32"
| "tuning_default GoGOGC = 50"
| "tuning_default ErlangSchedulers = 1"
| "tuning_default ErlangAsyncThreads = 1"
| "tuning_default DotnetGCHeapPercent = 60"
| "tuning_default KotlinNativeCompilerHeapMB = 1024"
| "tuning_default DenoOldSpacePercent = 60"
| "tuning_default NodeOldSpacePercent = 60"
| "tuning_default NodeMaxSemiSpaceMB = 8"
| "tuning_default NodeStackSizeKB = 2048"
| "tuning_default WasmtimeMemoryGuardBytes = 64 * 1024"
| "tuning_default WasmtimeMaxWasmStackBytes = 1024 * 1024"

fun tuning_min :: "tuning_field \<Rightarrow> int" where
  "tuning_min JVMHeapPercent = 25"
| "tuning_min JavaStackSizeKB = 1024"
| "tuning_min GoMemoryReserveMB = 0"
| "tuning_min GoGOGC = 10"
| "tuning_min ErlangSchedulers = 1"
| "tuning_min ErlangAsyncThreads = 0"
| "tuning_min DotnetGCHeapPercent = 25"
| "tuning_min KotlinNativeCompilerHeapMB = 256"
| "tuning_min DenoOldSpacePercent = 30"
| "tuning_min NodeOldSpacePercent = 30"
| "tuning_min NodeMaxSemiSpaceMB = 1"
| "tuning_min NodeStackSizeKB = 512"
| "tuning_min WasmtimeMemoryGuardBytes = 64 * 1024"
| "tuning_min WasmtimeMaxWasmStackBytes = 256 * 1024"

fun tuning_max :: "tuning_field \<Rightarrow> int" where
  "tuning_max JVMHeapPercent = 75"
| "tuning_max JavaStackSizeKB = 64 * 1024"
| "tuning_max GoMemoryReserveMB = 256"
| "tuning_max GoGOGC = 200"
| "tuning_max ErlangSchedulers = 4"
| "tuning_max ErlangAsyncThreads = 4"
| "tuning_max DotnetGCHeapPercent = 80"
| "tuning_max KotlinNativeCompilerHeapMB = 1536"
| "tuning_max DenoOldSpacePercent = 75"
| "tuning_max NodeOldSpacePercent = 75"
| "tuning_max NodeMaxSemiSpaceMB = 16"
| "tuning_max NodeStackSizeKB = 8192"
| "tuning_max WasmtimeMemoryGuardBytes = 16 * 1024 * 1024"
| "tuning_max WasmtimeMaxWasmStackBytes = 8 * 1024 * 1024"

fun tuning_env :: "tuning_field \<Rightarrow> string" where
  "tuning_env JVMHeapPercent = ''AONOHAKO_JVM_HEAP_PERCENT''"
| "tuning_env JavaStackSizeKB = ''AONOHAKO_JAVA_STACK_SIZE_KB''"
| "tuning_env GoMemoryReserveMB = ''AONOHAKO_GO_MEMORY_RESERVE_MB''"
| "tuning_env GoGOGC = ''AONOHAKO_GO_GOGC''"
| "tuning_env ErlangSchedulers = ''AONOHAKO_ERLANG_SCHEDULERS''"
| "tuning_env ErlangAsyncThreads = ''AONOHAKO_ERLANG_ASYNC_THREADS''"
| "tuning_env DotnetGCHeapPercent = ''AONOHAKO_DOTNET_GC_HEAP_PERCENT''"
| "tuning_env KotlinNativeCompilerHeapMB = ''AONOHAKO_KOTLIN_NATIVE_COMPILER_HEAP_MB''"
| "tuning_env DenoOldSpacePercent = ''AONOHAKO_DENO_OLD_SPACE_PERCENT''"
| "tuning_env NodeOldSpacePercent = ''AONOHAKO_NODE_OLD_SPACE_PERCENT''"
| "tuning_env NodeMaxSemiSpaceMB = ''AONOHAKO_NODE_MAX_SEMI_SPACE_MB''"
| "tuning_env NodeStackSizeKB = ''AONOHAKO_NODE_STACK_SIZE_KB''"
| "tuning_env WasmtimeMemoryGuardBytes = ''AONOHAKO_WASMTIME_MEMORY_GUARD_BYTES''"
| "tuning_env WasmtimeMaxWasmStackBytes = ''AONOHAKO_WASMTIME_MAX_WASM_STACK_BYTES''"

fun tuning_key :: "tuning_field \<Rightarrow> string" where
  "tuning_key JVMHeapPercent = ''jvm_heap_percent''"
| "tuning_key JavaStackSizeKB = ''java_stack_size_kb''"
| "tuning_key GoMemoryReserveMB = ''go_memory_reserve_mb''"
| "tuning_key GoGOGC = ''go_gogc''"
| "tuning_key ErlangSchedulers = ''erlang_schedulers''"
| "tuning_key ErlangAsyncThreads = ''erlang_async_threads''"
| "tuning_key DotnetGCHeapPercent = ''dotnet_gc_heap_percent''"
| "tuning_key KotlinNativeCompilerHeapMB = ''kotlin_native_compiler_heap_mb''"
| "tuning_key DenoOldSpacePercent = ''deno_old_space_percent''"
| "tuning_key NodeOldSpacePercent = ''node_old_space_percent''"
| "tuning_key NodeMaxSemiSpaceMB = ''node_max_semi_space_mb''"
| "tuning_key NodeStackSizeKB = ''node_stack_size_kb''"
| "tuning_key WasmtimeMemoryGuardBytes = ''wasmtime_memory_guard_bytes''"
| "tuning_key WasmtimeMaxWasmStackBytes = ''wasmtime_max_wasm_stack_bytes''"

definition DefaultRuntimeTuningConfig :: RuntimeTuningConfig where
  "DefaultRuntimeTuningConfig =
     \<lparr>rt_value = tuning_default, rt_goMemoryReserveExplicitZero = False, rt_erlangAsyncThreadsExplicitZero = False\<rparr>"

definition clampWithDefault :: "int \<Rightarrow> int \<Rightarrow> int \<Rightarrow> int \<Rightarrow> int" where
  "clampWithDefault val fallback minValue maxValue =
     (let v = (if val = 0 then fallback else val) in
      if v < minValue then minValue else if v > maxValue then maxValue else v)"

text \<open>A field whose zero was written explicitly keeps it.\<close>

definition keeps_zero :: "RuntimeTuningConfig \<Rightarrow> tuning_field \<Rightarrow> bool" where
  "keeps_zero c f \<longleftrightarrow>
     f = GoMemoryReserveMB \<and> \<not> (rt_value c f \<noteq> 0 \<or> \<not> rt_goMemoryReserveExplicitZero c) \<or>
     f = ErlangAsyncThreads \<and> \<not> (rt_value c f \<noteq> 0 \<or> \<not> rt_erlangAsyncThreadsExplicitZero c)"

definition WithSafeDefaults :: "RuntimeTuningConfig \<Rightarrow> RuntimeTuningConfig" where
  "WithSafeDefaults c = c\<lparr>rt_value := (\<lambda>f.
     if keeps_zero c f then rt_value c f
     else clampWithDefault (rt_value c f) (tuning_default f) (tuning_min f) (tuning_max f))\<rparr>"

definition DenoOldSpaceMB :: "int \<Rightarrow> RuntimeTuningConfig \<Rightarrow> int" where
  "DenoOldSpaceMB memoryMB tuning =
     (let limitMB = (if memoryMB < 64 then 64 else memoryMB);
          oldSpaceMB = limitMB * rt_value (WithSafeDefaults tuning) DenoOldSpacePercent div 100 in
      if oldSpaceMB < 32 then 32 else oldSpaceMB)"

text \<open>The assignment of a field that was parsed from \<open>raw\<close>, with the flags of explicit zeros.\<close>

definition set_tuning :: "tuning_field \<Rightarrow> int \<Rightarrow> bool \<Rightarrow> RuntimeTuningConfig \<Rightarrow> RuntimeTuningConfig" where
  "set_tuning f v zero t =
     (let t1 = t\<lparr>rt_value := (rt_value t)(f := v)\<rparr> in
      if f = GoMemoryReserveMB then t1\<lparr>rt_goMemoryReserveExplicitZero := zero\<rparr>
      else if f = ErlangAsyncThreads then t1\<lparr>rt_erlangAsyncThreadsExplicitZero := zero\<rparr>
      else t1)"

text \<open>The fields from the environment, in the order of the code.\<close>

definition tuning_step ::
  "(string \<Rightarrow> string) \<Rightarrow> nat \<Rightarrow> tuning_field \<Rightarrow> RuntimeTuningConfig \<Rightarrow> parse_error + RuntimeTuningConfig" where
  "tuning_step env i f t =
     (let raw = env (tuning_env f) in
      and_then (parseBoundedIntEnv (tuning_env f) raw (rt_value t f) (tuning_min f) (tuning_max f))
        (\<lambda>v. Inr (set_tuning f v (trim_space raw \<noteq> [] \<and> v = 0) t)))"

definition load_tuning :: "(string \<Rightarrow> string) \<Rightarrow> parse_error + RuntimeTuningConfig" where
  "load_tuning env = loop_err (tuning_step env) 0 tuning_fields DefaultRuntimeTuningConfig"

text \<open>The values of one profile override those of the server.\<close>

datatype profile_error = BadOverride parse_error | UnsupportedKey string string

definition override_step ::
  "string \<Rightarrow> nat \<Rightarrow> string \<times> int \<Rightarrow> RuntimeTuningConfig \<Rightarrow> profile_error + RuntimeTuningConfig" where
  "override_step profileName i kv t =
     (case kv of (key, val) \<Rightarrow>
        (case find (\<lambda>f. tuning_key f = key) tuning_fields of
           None \<Rightarrow> Inl (UnsupportedKey profileName key)
         | Some f \<Rightarrow>
             (case parseBoundedIntEnv (''AONOHAKO_RUNTIME_TUNING_PROFILES.'' @ profileName @ ''.'' @ key)
                     (int_text val) (rt_value t f) (tuning_min f) (tuning_max f) of
                Inl e \<Rightarrow> Inl (BadOverride e)
              | Inr v \<Rightarrow> Inr (set_tuning f v (val = 0) t))))"

definition profile_tuning ::
  "string \<Rightarrow> (string \<times> int) list \<Rightarrow> RuntimeTuningConfig \<Rightarrow> profile_error + RuntimeTuningConfig" where
  "profile_tuning profileName values t =
     and_then (loop_err (override_step profileName) 0 values t) (\<lambda>t. Inr (WithSafeDefaults t))"

section \<open>Bounds\<close>

definition tuning_ok :: "RuntimeTuningConfig \<Rightarrow> bool" where
  "tuning_ok t \<longleftrightarrow> (\<forall>f. tuning_min f \<le> rt_value t f \<and> rt_value t f \<le> tuning_max f)"

lemma tuning_bounds: "0 \<le> tuning_min f" "tuning_min f \<le> tuning_default f" "tuning_default f \<le> tuning_max f"
  by (cases f; simp)+

lemma default_tuning_ok: "tuning_ok DefaultRuntimeTuningConfig"
  using tuning_bounds by (simp add: tuning_ok_def DefaultRuntimeTuningConfig_def)

lemma set_tuning_value [simp]: "rt_value (set_tuning f v zero t) = (rt_value t)(f := v)"
  by (simp add: set_tuning_def Let_def)

lemma tuning_step_ok: "tuning_ok t \<Longrightarrow> tuning_step env i f t = Inr t' \<Longrightarrow> tuning_ok t'"
  using parsed_bounded [of "tuning_env f" "env (tuning_env f)" "rt_value t f" "tuning_min f" "tuning_max f"]
  by (auto simp: tuning_step_def Let_def and_then_def tuning_ok_def split: sum.splits)

lemma override_step_ok: "tuning_ok t \<Longrightarrow> override_step p i kv t = Inr t' \<Longrightarrow> tuning_ok t'"
  using parsed_bounded [where raw = "int_text (snd kv)"]
  by (auto simp: override_step_def tuning_ok_def split: prod.splits option.splits sum.splits)

lemma loop_keeps:
  assumes "loop_err g i xs t = Inr t'" and "P t" and "\<And>i x t t'. P t \<Longrightarrow> g i x t = Inr t' \<Longrightarrow> P t'"
  shows "P t'"
  using assms(1,2)
  by (induction xs arbitrary: i t) (auto split: sum.splits dest: assms(3))

lemma load_tuning_ok: "load_tuning env = Inr t \<Longrightarrow> tuning_ok t"
  unfolding load_tuning_def
  by (rule loop_keeps [where P = tuning_ok]) (auto intro: default_tuning_ok tuning_step_ok)

lemma safe_defaults_ok: "tuning_ok (WithSafeDefaults t)"
  unfolding tuning_ok_def
proof
  fix f
  show "tuning_min f \<le> rt_value (WithSafeDefaults t) f \<and> rt_value (WithSafeDefaults t) f \<le> tuning_max f"
    using tuning_bounds [of f]
    by (cases "keeps_zero t f") (auto simp: WithSafeDefaults_def keeps_zero_def clampWithDefault_def Let_def)
qed

text \<open>Values within the bounds, with their zeros marked, are left as they are.\<close>

lemma safe_defaults_id:
  assumes "tuning_ok t" and "rt_value t GoMemoryReserveMB = 0 \<Longrightarrow> rt_goMemoryReserveExplicitZero t"
    and "rt_value t ErlangAsyncThreads = 0 \<Longrightarrow> rt_erlangAsyncThreadsExplicitZero t"
  shows "WithSafeDefaults t = t"
proof -
  have "(if keeps_zero t f then rt_value t f
      else clampWithDefault (rt_value t f) (tuning_default f) (tuning_min f) (tuning_max f)) = rt_value t f" for f
    using assms spec [OF assms(1) [unfolded tuning_ok_def], of f]
    by (cases f) (auto simp: keeps_zero_def clampWithDefault_def Let_def)
  then show ?thesis by (simp add: WithSafeDefaults_def)
qed

lemma profile_tuning_ok: "profile_tuning p values t = Inr t' \<Longrightarrow> tuning_ok t'"
  by (auto simp: profile_tuning_def and_then_def safe_defaults_ok split: sum.splits)

end
