(* ===== verification/Mount.thy ===== *)
theory Mount
  imports Prelude Go_Strings
begin

text \<open>
  internal/config/config.go: \<open>workRootMountAt\<close>, the entry of /proc/self/mountinfo that covers the work root.
  Resolving the path and reading the file are the caller's; the lines are those that \<open>bufio.Scanner\<close> gives.
\<close>

text \<open>\<open>strings.Fields\<close>: the non-empty pieces between runs of white space.\<close>

function fields_from :: "string \<Rightarrow> string \<Rightarrow> string list" where
  "fields_from cur [] = (if cur = [] then [] else [cur])"
| "fields_from cur (c # s) =
     (let n = match_len space_encodings (c # s) in
      if n = 0 then fields_from (cur @ [c]) s
      else (if cur = [] then [] else [cur]) @ fields_from [] (drop n (c # s)))"
  by pat_completeness auto
termination by (relation "measure (length \<circ> snd)") auto

definition fields_of :: "string \<Rightarrow> string list" where
  "fields_of s = fields_from [] s"

lemma fields_nonempty: "f \<in> set (fields_from cur s) \<Longrightarrow> f \<noteq> []"
  by (induction cur s rule: fields_from.induct) (auto simp: Let_def split: if_splits)

definition octal_escapes :: "(string \<times> char) list" where
  "octal_escapes =
     [(CHR 0x5C # ''040'', CHR 0x20), (CHR 0x5C # ''011'', CHR 0x09),
      (CHR 0x5C # ''012'', CHR 0x0A), (CHR 0x5C # ''134'', CHR 0x5C)]"

text \<open>\<open>strings.NewReplacer\<close>: at each byte the first pattern that matches is replaced.\<close>

function unescapeMountInfoField :: "string \<Rightarrow> string" where
  "unescapeMountInfoField [] = []"
| "unescapeMountInfoField (c # s) =
     (case find (\<lambda>(p, r). has_prefix (c # s) p) octal_escapes of
        None \<Rightarrow> c # unescapeMountInfoField s
      | Some (p, r) \<Rightarrow> r # unescapeMountInfoField (drop 3 s))"
  by pat_completeness auto
termination by (relation "measure length") auto

fun index_of :: "'a \<Rightarrow> 'a list \<Rightarrow> nat option" where
  "index_of x [] = None"
| "index_of x (y # ys) = (if y = x then Some 0 else map_option Suc (index_of x ys))"

lemma index_of_less: "index_of x xs = Some i \<Longrightarrow> i < length xs \<and> xs ! i = x"
  by (induction xs arbitrary: i) (auto split: if_splits)

text \<open>The mount point and the file system type of a line, where it has them.\<close>

definition mount_entry :: "string \<Rightarrow> (string \<times> string) option" where
  "mount_entry line =
     (let fs = fields_of line in
      case index_of ''-'' fs of
        None \<Rightarrow> None
      | Some separator \<Rightarrow>
          if separator + 1 \<ge> length fs \<or> length fs \<le> 4 then None
          else
            (let mountPoint = unescapeMountInfoField (fs ! 4) in
             if mountPoint = [] then None else Some (mountPoint, fs ! (separator + 1))))"

definition covers :: "string \<Rightarrow> string \<Rightarrow> bool" where
  "covers mountPoint workRoot \<longleftrightarrow>
     workRoot = mountPoint \<or> has_prefix workRoot (trim_right (\<lambda>c. c = CHR ''/'') mountPoint @ ''/'')"

text \<open>The loop over the lines: the longest mount point so far, the first one when several are as long.\<close>

fun best_mount :: "string \<Rightarrow> string list \<Rightarrow> (string \<times> string) option \<Rightarrow> (string \<times> string) option" where
  "best_mount workRoot [] best = best"
| "best_mount workRoot (line # lines) best =
     best_mount workRoot lines
       (case mount_entry line of
          None \<Rightarrow> best
        | Some (mountPoint, fsType) \<Rightarrow>
            if \<not> covers mountPoint workRoot then best
            else if (case best of None \<Rightarrow> True | Some (m, f) \<Rightarrow> length m < length mountPoint)
              then Some (mountPoint, fsType)
            else best)"

definition workRootMountAt :: "string \<Rightarrow> string list \<Rightarrow> (string \<times> string \<times> string) option" where
  "workRootMountAt workRoot lines =
     (case best_mount workRoot lines None of
        None \<Rightarrow> None
      | Some (mountPoint, fsType) \<Rightarrow>
          if fsType = [] then None else Some (workRoot, mountPoint, fsType))"

definition workRootFilesystemAt :: "string \<Rightarrow> string list \<Rightarrow> string option" where
  "workRootFilesystemAt workRoot lines = map_option (\<lambda>(r, m, f). f) (workRootMountAt workRoot lines)"

lemma mount_entry_type: "mount_entry line = Some (m, f) \<Longrightarrow> m \<noteq> [] \<and> f \<noteq> []"
  using fields_nonempty [OF nth_mem]
  by (auto simp: mount_entry_def Let_def fields_of_def split: option.splits if_splits)

text \<open>The entry kept is one of the lines and no line that covers the root has a longer mount point.\<close>

definition covering :: "string \<Rightarrow> string list \<Rightarrow> (string \<times> string) list" where
  "covering workRoot lines =
     filter (\<lambda>(m, f). covers m workRoot) (List.map_filter mount_entry lines)"

definition longest_covering :: "string \<Rightarrow> string list \<Rightarrow> (string \<times> string) option \<Rightarrow> (string \<times> string) option \<Rightarrow> bool" where
  "longest_covering workRoot lines best r \<longleftrightarrow>
     (r = None \<longleftrightarrow> best = None \<and> covering workRoot lines = []) \<and>
     (\<forall>m f. r = Some (m, f) \<longrightarrow> (best = Some (m, f) \<or> (m, f) \<in> set (covering workRoot lines)) \<and>
       (\<forall>m' f'. (m', f') \<in> set (covering workRoot lines) \<or> best = Some (m', f') \<longrightarrow> length m' \<le> length m))"

lemma covering_simps [simp]:
  "covering workRoot [] = []"
  "mount_entry line = None \<Longrightarrow> covering workRoot (line # lines) = covering workRoot lines"
  "mount_entry line = Some (m, f) \<Longrightarrow>
    covering workRoot (line # lines) = (if covers m workRoot then [(m, f)] else []) @ covering workRoot lines"
  by (simp_all add: covering_def List.map_filter_def)

lemma longest_covering_step:
  assumes "longest_covering workRoot lines
      (if case best of None \<Rightarrow> True | Some (m', f') \<Rightarrow> length m' < length m then Some (m, f) else best) r"
    and "mount_entry line = Some (m, f)" and "covers m workRoot"
  shows "longest_covering workRoot (line # lines) best r"
proof (cases best)
  case None
  then show ?thesis using assms by (auto simp: longest_covering_def)
next
  case (Some b)
  obtain m' f' where b: "b = (m', f')" by (cases b)
  show ?thesis
    using assms Some b by (cases "length m' < length m") (fastforce simp: longest_covering_def)+
qed

lemma longest_covering_skip:
  assumes "covering workRoot (line # lines) = covering workRoot lines"
  shows "longest_covering workRoot (line # lines) best r = longest_covering workRoot lines best r"
  by (simp only: longest_covering_def assms)

lemma best_mount_longest: "longest_covering workRoot lines best (best_mount workRoot lines best)"
proof (induction workRoot lines best rule: best_mount.induct)
  case (1 workRoot best)
  then show ?case by (auto simp: longest_covering_def)
next
  case (2 workRoot line lines best)
  show ?case
  proof (cases "mount_entry line")
    case None
    then show ?thesis using 2 by (simp add: longest_covering_skip)
  next
    case (Some e)
    obtain m f where e: "e = (m, f)" by (cases e)
    show ?thesis
    proof (cases "covers m workRoot")
      case True
      then show ?thesis using 2 Some e by (auto intro!: longest_covering_step)
    next
      case False
      then show ?thesis using 2 Some e by (simp add: longest_covering_skip)
    qed
  qed
qed

lemma mount_of_root:
  assumes "workRootMountAt workRoot lines = Some (root, m, f)"
  shows "root = workRoot" "(m, f) \<in> set (covering workRoot lines)"
    "(m', f') \<in> set (covering workRoot lines) \<Longrightarrow> length m' \<le> length m"
  using best_mount_longest [of workRoot lines None] assms
  by (auto simp: workRootMountAt_def longest_covering_def split: option.splits prod.splits if_splits)

text \<open>A file system mounted over another at the same place is not seen: the first entry is kept.\<close>

lemma fields_from_visible: "visible c \<Longrightarrow> fields_from cur (c # s) = fields_from (cur @ [c]) s"
proof -
  assume c: "visible c"
  have "match_len space_encodings (c # s) = 0"
    unfolding match_len_0_iff has_prefix_iff
  proof (intro ballI impI notI)
    fix p assume p: "p \<in> set space_encodings" "p \<noteq> []" "\<exists>t. c # s = p @ t"
    have "hd p = c" using p(2,3) by (cases p) auto
    with p(1) c space_encodings_bytes show False by (auto simp: list_all_iff)
  qed
  then show ?thesis by (simp add: Let_def)
qed

lemma fields_from_space:
  "fields_from cur (CHR 0x20 # s) = (if cur = [] then [] else [cur]) @ fields_from [] s"
proof -
  have c: "CHR 0x20 = char_of n \<longleftrightarrow> n mod 256 = (32::nat)" for n
    using char_of_eq_iff [of n "CHR 0x20"] by (auto simp: take_bit_eq_mod)
  have "match_len space_encodings (CHR 0x20 # s) = 1"
    by (simp add: space_encodings_def encode_rune_def upt_rec c del: char_of_mod_256)
  then show ?thesis by (simp add: Let_def)
qed

lemma overmount_hidden:
  "workRootMountAt ''/w''
     [''1 0 0:1 / /w rw - tmpfs tmpfs rw'', ''2 1 8:1 / /w rw - ext4 /dev/sda rw''] =
   Some (''/w'', ''/w'', ''tmpfs'')"
proof -
  have "fields_of ''1 0 0:1 / /w rw - tmpfs tmpfs rw'' =
      [''1'', ''0'', ''0:1'', ''/'', ''/w'', ''rw'', ''-'', ''tmpfs'', ''tmpfs'', ''rw'']"
    "fields_of ''2 1 8:1 / /w rw - ext4 /dev/sda rw'' =
      [''2'', ''1'', ''8:1'', ''/'', ''/w'', ''rw'', ''-'', ''ext4'', ''/dev/sda'', ''rw'']"
    by (simp_all add: fields_of_def fields_from_visible fields_from_space del: fields_from.simps(2))
  then show ?thesis
    by (simp add: workRootMountAt_def mount_entry_def octal_escapes_def covers_def)
qed

end
