(* ===== verification/Replay.thy ===== *)
theory Replay
  imports Prelude "HOL-Library.AList"
begin

text \<open>
  internal/api/platform_replay.go: the nonces of signed platform requests that were accepted
  and have not expired. A Go map is an association list with distinct keys; no result depends on
  its order. SHA-256 is a parameter, and times are nanoseconds.
\<close>

section \<open>Operations\<close>

definition maxPlatformReplayPrincipals :: nat where "maxPlatformReplayPrincipals = 4096"
definition maxPlatformReplayEntries :: int where "maxPlatformReplayEntries = 65536"
definition maxPlatformReplayEntriesPrincipal :: nat where "maxPlatformReplayEntriesPrincipal = 2048"

datatype platformReplayResult = ReplayAccepted | ReplayDuplicate | ReplayCapacity

type_synonym nonce = "nat list"
type_synonym bucket = "(nonce \<times> int) list"

record 'k replay_cache =
  rc_entries :: "('k \<times> bucket) list"
  rc_total :: int

definition newPlatformReplayCache :: "'k replay_cache" where
  "newPlatformReplayCache = \<lparr>rc_entries = [], rc_total = 0\<rparr>"

text \<open>The loops that delete what has expired, in one bucket and in all of them.\<close>

definition unexpired :: "int \<Rightarrow> bucket \<Rightarrow> bucket" where
  "unexpired now b = filter (\<lambda>(candidate, expiry). expiry > now) b"

definition sweep_entries :: "int \<Rightarrow> ('k \<times> bucket) list \<Rightarrow> ('k \<times> bucket) list" where
  "sweep_entries now es = filter (\<lambda>(k, b). b \<noteq> []) (map (\<lambda>(k, b). (k, unexpired now b)) es)"

definition sweep :: "int \<Rightarrow> 'k replay_cache \<Rightarrow> 'k replay_cache" where
  "sweep now c =
     \<lparr>rc_entries = sweep_entries now (rc_entries c),
      rc_total = rc_total c - (\<Sum>(k, b)\<leftarrow>rc_entries c. int (length b) - int (length (unexpired now b)))\<rparr>"

text \<open>The first part of \<open>admit\<close>: the bucket of the principal without what has expired, or none.\<close>

definition clean_bucket :: "int \<Rightarrow> 'k \<Rightarrow> 'k replay_cache \<Rightarrow> 'k replay_cache" where
  "clean_bucket now key c =
     (case map_of (rc_entries c) key of
        None \<Rightarrow> c
      | Some b \<Rightarrow>
          (let b' = unexpired now b in
           c\<lparr>rc_entries := (if b' = [] then AList.delete key (rc_entries c) else AList.update key b' (rc_entries c)),
             rc_total := rc_total c - (int (length b) - int (length b'))\<rparr>))"

definition bucket_at :: "'k \<Rightarrow> 'k replay_cache \<Rightarrow> bucket" where
  "bucket_at key c = (case map_of (rc_entries c) key of None \<Rightarrow> [] | Some b \<Rightarrow> b)"

definition no_room :: "'k \<Rightarrow> 'k replay_cache \<Rightarrow> bool" where
  "no_room key c \<longleftrightarrow> rc_total c \<ge> maxPlatformReplayEntries \<or>
     map_of (rc_entries c) key = None \<and> length (rc_entries c) \<ge> maxPlatformReplayPrincipals"

definition admit_key :: "'k \<Rightarrow> nonce \<Rightarrow> int \<Rightarrow> int \<Rightarrow> 'k replay_cache \<Rightarrow> platformReplayResult \<times> 'k replay_cache" where
  "admit_key key nonce expiresAt now c =
     (let c1 = clean_bucket now key c in
      if map_of (bucket_at key c1) nonce \<noteq> None then (ReplayDuplicate, c1)
      else
        (let c2 = (if no_room key c1 then sweep now c1 else c1) in
         if no_room key c2 \<or> length (bucket_at key c2) \<ge> maxPlatformReplayEntriesPrincipal
           then (ReplayCapacity, c2)
         else
           (ReplayAccepted,
            c2\<lparr>rc_entries := AList.update key (AList.update nonce expiresAt (bucket_at key c2)) (rc_entries c2),
               rc_total := rc_total c2 + 1\<rparr>)))"

definition admit ::
  "(string \<Rightarrow> 'k) \<Rightarrow> string \<Rightarrow> nonce \<Rightarrow> int \<Rightarrow> int \<Rightarrow> 'k replay_cache \<Rightarrow> platformReplayResult \<times> 'k replay_cache" where
  "admit sha256 who nonce expiresAt now c = admit_key (sha256 who) nonce expiresAt now c"

section \<open>The shape of the cache\<close>

definition entries_ok :: "('k \<times> bucket) list \<Rightarrow> bool" where
  "entries_ok es \<longleftrightarrow> distinct (map fst es) \<and> (\<forall>(k, b) \<in> set es. b \<noteq> [] \<and> distinct (map fst b))"

definition bucket_total :: "('k \<times> bucket) list \<Rightarrow> int" where
  "bucket_total es = (\<Sum>(k, b)\<leftarrow>es. int (length b))"

definition cache_ok :: "'k replay_cache \<Rightarrow> bool" where
  "cache_ok c \<longleftrightarrow> entries_ok (rc_entries c) \<and> rc_total c = bucket_total (rc_entries c)"

text \<open>Its records: what the abstract cache is a set of.\<close>

definition records :: "('k \<times> bucket) list \<Rightarrow> ('k \<times> nonce \<times> int) set" where
  "records es = {(k, n, e). \<exists>b. (k, b) \<in> set es \<and> (n, e) \<in> set b}"

lemma map_of_entries:
  assumes "entries_ok es"
  shows "(k, b) \<in> set es \<longleftrightarrow> map_of es k = Some b"
  using assms by (simp add: entries_ok_def)

lemma map_of_bucket:
  assumes "entries_ok es" and "map_of es k = Some b"
  shows "(n, e) \<in> set b \<longleftrightarrow> map_of b n = Some e"
  using assms map_of_SomeD [OF assms(2)] by (auto simp: entries_ok_def)

lemma records_map:
  assumes "entries_ok es"
  shows "(k, n, e) \<in> records es \<longleftrightarrow> map_of (case map_of es k of None \<Rightarrow> [] | Some b \<Rightarrow> b) n = Some e"
  using map_of_entries [OF assms] map_of_bucket [OF assms]
  by (auto simp: records_def split: option.splits)

lemma records_Nil [simp]: "records [] = {}"
  by (auto simp: records_def)

lemma records_Cons: "records ((k, b) # es) = (\<lambda>(n, e). (k, n, e)) ` set b \<union> records es"
  by (auto simp: records_def)

lemma records_finite: "finite (records es)"
proof (induction es)
  case Nil
  then show ?case by simp
next
  case (Cons x es)
  then show ?case by (cases x) (simp add: records_Cons)
qed

lemma records_card: "entries_ok es \<Longrightarrow> int (card (records es)) = bucket_total es"
proof (induction es)
  case Nil
  then show ?case by (simp add: bucket_total_def)
next
  case (Cons x es)
  obtain k b where x: "x = (k, b)" by (cases x)
  let ?A = "(\<lambda>(n, e). (k, n, e)) ` set b"
  have ok: "entries_ok es" "k \<notin> fst ` set es" "distinct b"
    using Cons.prems by (auto simp: entries_ok_def x distinct_map)
  have "?A \<inter> records es = {}" using ok(2) by (force simp: records_def)
  moreover have "card ?A = length b"
    using ok(3) by (subst card_image) (auto simp: inj_on_def distinct_card)
  ultimately show ?case
    using Cons.IH [OF ok(1)] by (simp add: x records_Cons bucket_total_def card_Un_disjoint records_finite)
qed

lemma records_keys: "entries_ok es \<Longrightarrow> fst ` records es = set (map fst es)"
proof -
  assume ok: "entries_ok es"
  have "k \<in> fst ` records es" if "(k, b) \<in> set es" for k b
  proof -
    have "b \<noteq> []" using ok that by (auto simp: entries_ok_def)
    then obtain x where "x \<in> set b" using list.set_sel(1) by blast
    with that have "(k, fst x, snd x) \<in> records es" by (auto simp: records_def)
    then show ?thesis by (rule image_eqI [rotated]) simp
  qed
  then have "set (map fst es) \<subseteq> fst ` records es" by auto
  moreover have "fst ` records es \<subseteq> set (map fst es)" by (force simp: records_def)
  ultimately show ?thesis by blast
qed

lemma records_keys_card: "entries_ok es \<Longrightarrow> card (fst ` records es) = length es"
  using distinct_card [of "map fst es"] by (simp add: records_keys entries_ok_def)

lemma records_of_card:
  assumes "entries_ok es"
  shows "card {x \<in> records es. fst x = k} = length (case map_of es k of None \<Rightarrow> [] | Some b \<Rightarrow> b)"
proof (cases "map_of es k")
  case None
  then have "{x \<in> records es. fst x = k} = {}" by (force simp: records_def map_of_eq_None_iff)
  then show ?thesis by (simp only: None) simp
next
  case (Some b)
  then have "{x \<in> records es. fst x = k} = (\<lambda>(n, e). (k, n, e)) ` set b"
    using map_of_entries [OF assms] by (auto simp: records_def)
  moreover have "distinct b" using assms map_of_SomeD [OF Some] by (auto simp: entries_ok_def distinct_map)
  then have "card ((\<lambda>(n, e). (k, n, e)) ` set b) = length b"
    by (subst card_image) (auto simp: inj_on_def distinct_card)
  ultimately show ?thesis by (simp add: Some)
qed

section \<open>The abstract cache\<close>

text \<open>
  A set of records (key, nonce, expiry), of which only those that have not expired count. An admission
  looks for the nonce among the records of the key, and has room by the numbers of
  records, keys and records of the key.
\<close>

definition live :: "int \<Rightarrow> ('k \<times> nonce \<times> int) set \<Rightarrow> ('k \<times> nonce \<times> int) set" where
  "live now A = {(k, n, e). (k, n, e) \<in> A \<and> now < e}"

definition spec_full :: "'k \<Rightarrow> ('k \<times> nonce \<times> int) set \<Rightarrow> bool" where
  "spec_full key A \<longleftrightarrow>
     int (card A) \<ge> maxPlatformReplayEntries \<or>
     {x \<in> A. fst x = key} = {} \<and> card (fst ` A) \<ge> maxPlatformReplayPrincipals \<or>
     card {x \<in> A. fst x = key} \<ge> maxPlatformReplayEntriesPrincipal"

definition spec_admit ::
  "'k \<Rightarrow> nonce \<Rightarrow> int \<Rightarrow> ('k \<times> nonce \<times> int) set \<Rightarrow> platformReplayResult \<times> ('k \<times> nonce \<times> int) set" where
  "spec_admit key nonce expiresAt A =
     (if \<exists>e. (key, nonce, e) \<in> A then (ReplayDuplicate, A)
      else if spec_full key A then (ReplayCapacity, A)
      else (ReplayAccepted, insert (key, nonce, expiresAt) A))"

lemma cache_ok_iff: "cache_ok c \<longleftrightarrow> entries_ok (rc_entries c) \<and> rc_total c = int (card (records (rc_entries c)))"
  by (auto simp: cache_ok_def records_card)

lemma set_unexpired [simp]: "(n, e) \<in> set (unexpired now b) \<longleftrightarrow> (n, e) \<in> set b \<and> now < e"
  by (auto simp: unexpired_def)

lemma distinct_unexpired [simp]: "distinct (map fst b) \<Longrightarrow> distinct (map fst (unexpired now b))"
  by (auto simp: unexpired_def distinct_map_filter)

lemma mem_update:
  assumes "distinct (map fst es)"
  shows "(k, b') \<in> set (AList.update key b es) \<longleftrightarrow> (if k = key then b' = b else (k, b') \<in> set es)"
  using assms by (induction es) (auto simp: image_iff)

lemma records_update:
  assumes "entries_ok es"
  shows "records (AList.update key b es) =
    {x \<in> records es. fst x \<noteq> key} \<union> (\<lambda>(n, e). (key, n, e)) ` set b"
  using assms by (auto simp: records_def entries_ok_def mem_update split: if_splits)

lemma records_delete: "records (AList.delete key es) = {x \<in> records es. fst x \<noteq> key}"
  by (auto simp: records_def AList.delete_eq)

lemma entries_ok_update:
  assumes "entries_ok es" and "b \<noteq> []" and "distinct (map fst b)"
  shows "entries_ok (AList.update key b es)"
proof -
  have "distinct (map fst (AList.update key b es))" using assms(1) by (simp add: entries_ok_def distinct_update)
  moreover have "b' \<noteq> [] \<and> distinct (map fst b')" if "(k, b') \<in> set (AList.update key b es)" for k b'
    using that assms by (cases "k = key") (auto simp: entries_ok_def mem_update)
  ultimately show ?thesis by (auto simp: entries_ok_def)
qed

lemma entries_ok_delete: "entries_ok es \<Longrightarrow> entries_ok (AList.delete key es)"
  by (auto simp: entries_ok_def AList.delete_eq distinct_map_filter)

lemma bucket_at_set:
  assumes "entries_ok (rc_entries c)"
  shows "(n, e) \<in> set (bucket_at key c) \<longleftrightarrow> (key, n, e) \<in> records (rc_entries c)"
  by (cases "map_of (rc_entries c) key") (auto simp: bucket_at_def records_def map_of_entries [OF assms])

lemma bucket_at_length:
  "entries_ok (rc_entries c) \<Longrightarrow> length (bucket_at key c) = card {x \<in> records (rc_entries c). fst x = key}"
  by (simp add: records_of_card bucket_at_def)

lemma bucket_at_distinct: "entries_ok (rc_entries c) \<Longrightarrow> distinct (map fst (bucket_at key c))"
  by (auto simp: bucket_at_def entries_ok_def split: option.splits dest: map_of_SomeD)

lemma card_split:
  assumes "finite A"
  shows "card A = card {x \<in> A. fst x = k} + card {x \<in> A. fst x \<noteq> k}"
  using assms by (subst card_Un_disjoint [symmetric]) (auto intro: arg_cong [where f = card])

section \<open>Each part of an admission\<close>

lemma clean_bucket_records:
  assumes "cache_ok c"
  shows "records (rc_entries (clean_bucket now key c)) =
      {(k, n, e). (k, n, e) \<in> records (rc_entries c) \<and> (k = key \<longrightarrow> now < e)}" (is ?recs)
    and "cache_ok (clean_bucket now key c)" (is ?ok)
proof -
  let ?es = "rc_entries c"
  have es: "entries_ok ?es" and total: "rc_total c = int (card (records ?es))"
    using assms by (simp_all add: cache_ok_iff)
  show ?recs
  proof (cases "map_of ?es key")
    case None
    then have "(key, n, e) \<notin> records ?es" for n e
      using map_of_entries [OF es] by (auto simp: records_def)
    then show ?thesis using None by (auto simp: clean_bucket_def)
  next
    case (Some b)
    then have "bucket_at key c = b" by (simp add: bucket_at_def)
    then have "(key, n, e) \<in> records ?es \<longleftrightarrow> (n, e) \<in> set b" for n e
      using bucket_at_set [OF es, of n e key] by simp
    then show ?thesis
      using Some by (auto simp: clean_bucket_def Let_def records_delete records_update [OF es] filter_empty_conv
          unexpired_def)
  qed
  show ?ok
  proof (cases "map_of ?es key")
    case None
    then show ?thesis using assms by (simp add: clean_bucket_def)
  next
    case (Some b)
    let ?c = "clean_bucket now key c"
    have b: "distinct (map fst b)" using es map_of_SomeD [OF Some] by (auto simp: entries_ok_def)
    have ok: "entries_ok (rc_entries ?c)"
      using Some es b by (simp add: clean_bucket_def Let_def entries_ok_delete entries_ok_update)
    have bucket: "bucket_at key ?c = unexpired now b"
      using Some by (auto simp: bucket_at_def clean_bucket_def Let_def update_conv' delete_conv')
    have "{x \<in> records (rc_entries ?c). fst x \<noteq> key} = {x \<in> records ?es. fst x \<noteq> key}"
      using \<open>?recs\<close> by auto
    moreover have "card {x \<in> records ?es. fst x = key} = length b"
      using Some es by (simp add: records_of_card)
    moreover have "card {x \<in> records (rc_entries ?c). fst x = key} = length (unexpired now b)"
      using bucket_at_length [OF ok, of key] bucket by simp
    ultimately have "int (card (records (rc_entries ?c))) =
        int (card (records ?es)) - (int (length b) - int (length (unexpired now b)))"
      using card_split [OF records_finite, of "rc_entries ?c" key] card_split [OF records_finite, of ?es key] by simp
    moreover have "rc_total ?c = rc_total c - (int (length b) - int (length (unexpired now b)))"
      using Some by (simp add: clean_bucket_def Let_def)
    ultimately show ?thesis using ok total by (simp add: cache_ok_iff)
  qed
qed

lemma sweep_entries_Cons:
  "sweep_entries now ((k, b) # es) =
     (if unexpired now b = [] then sweep_entries now es else (k, unexpired now b) # sweep_entries now es)"
  by (simp add: sweep_entries_def)

lemma sweep_entries_keys: "k \<in> fst ` set (sweep_entries now es) \<Longrightarrow> k \<in> fst ` set es"
  by (force simp: sweep_entries_def)

lemma sweep_entries_records: "records (sweep_entries now es) = live now (records es)"
proof (induction es)
  case Nil
  then show ?case by (simp add: sweep_entries_def live_def)
next
  case (Cons x es)
  obtain k b where x: "x = (k, b)" by (cases x)
  have "live now (records (x # es)) = (\<lambda>(n, e). (k, n, e)) ` set (unexpired now b) \<union> live now (records es)"
    by (force simp: x records_Cons live_def)
  then show ?case using Cons by (simp add: x sweep_entries_Cons records_Cons)
qed

lemma sweep_records: "records (rc_entries (sweep now c)) = live now (records (rc_entries c))"
  by (simp add: sweep_def sweep_entries_records)

lemma sweep_entries_ok: "entries_ok es \<Longrightarrow> entries_ok (sweep_entries now es)"
proof (induction es)
  case Nil
  then show ?case by (simp add: sweep_entries_def)
next
  case (Cons x es)
  obtain k b where x: "x = (k, b)" by (cases x)
  have es: "entries_ok es" "k \<notin> fst ` set es" "distinct (map fst b)"
    using Cons.prems by (auto simp: entries_ok_def x)
  then have "k \<notin> fst ` set (sweep_entries now es)" using sweep_entries_keys [of k now es] by blast
  then show ?case using Cons.IH [OF es(1)] es(3) by (simp add: x sweep_entries_Cons entries_ok_def)
qed

lemma sweep_total:
  "bucket_total (sweep_entries now es) =
     bucket_total es - (\<Sum>(k, b)\<leftarrow>es. int (length b) - int (length (unexpired now b)))"
proof (induction es)
  case Nil
  then show ?case by (simp add: sweep_entries_def bucket_total_def)
next
  case (Cons x es)
  then show ?case by (cases x) (simp add: sweep_entries_Cons bucket_total_def)
qed

lemma sweep_ok: "cache_ok c \<Longrightarrow> cache_ok (sweep now c)"
  unfolding cache_ok_def sweep_def replay_cache.select_convs sweep_total
  by (elim conjE, intro conjI, rule sweep_entries_ok, assumption, simp only:)

section \<open>Refinement\<close>

lemma live_subset: "live now A \<subseteq> A"
  by (auto simp: live_def)

lemma live_live: "live now (live now A) = live now A"
  by (auto simp: live_def)

lemma no_room_records:
  assumes "cache_ok c"
  shows "no_room key c \<longleftrightarrow> int (card (records (rc_entries c))) \<ge> maxPlatformReplayEntries \<or>
    {x \<in> records (rc_entries c). fst x = key} = {} \<and>
    card (fst ` records (rc_entries c)) \<ge> maxPlatformReplayPrincipals"
proof -
  have es: "entries_ok (rc_entries c)" using assms by (simp add: cache_ok_iff)
  have "map_of (rc_entries c) key = None \<longleftrightarrow> {x \<in> records (rc_entries c). fst x = key} = {}"
    using records_keys [OF es] by (force simp: map_of_eq_None_iff)
  then show ?thesis using assms by (simp add: no_room_def cache_ok_iff records_keys_card)
qed

text \<open>The state in which the capacity is checked: swept when it looked full before.\<close>

lemma room_check:
  assumes ok: "cache_ok c" and clean: "\<forall>n e. (key, n, e) \<in> records (rc_entries c) \<longrightarrow> now < e"
    and c2: "c2 = (if no_room key c then sweep now c else c)"
  shows "cache_ok c2" and "live now (records (rc_entries c2)) = live now (records (rc_entries c))"
    and "{x \<in> records (rc_entries c2). fst x = key} = {x \<in> live now (records (rc_entries c)). fst x = key}"
    and "no_room key c2 \<or> length (bucket_at key c2) \<ge> maxPlatformReplayEntriesPrincipal \<longleftrightarrow>
      spec_full key (live now (records (rc_entries c)))"
proof -
  let ?R = "records (rc_entries c)" and ?A = "live now (records (rc_entries c))"
  show ok2: "cache_ok c2" using ok by (simp add: c2 sweep_ok)
  show "live now (records (rc_entries c2)) = ?A" by (simp add: c2 sweep_records live_live)
  have own: "{x \<in> ?R. fst x = key} = {x \<in> ?A. fst x = key}" using clean by (auto simp: live_def)
  then show own2: "{x \<in> records (rc_entries c2). fst x = key} = {x \<in> ?A. fst x = key}"
    by (simp add: c2 sweep_records)
  have len: "length (bucket_at key c2) = card {x \<in> ?A. fst x = key}"
    using bucket_at_length [of c2 key] ok2 own2 by (simp add: cache_ok_iff)
  show "no_room key c2 \<or> length (bucket_at key c2) \<ge> maxPlatformReplayEntriesPrincipal \<longleftrightarrow> spec_full key ?A"
  proof (cases "no_room key c")
    case True
    then have "records (rc_entries c2) = ?A" by (simp add: c2 sweep_records)
    then show ?thesis using no_room_records [OF ok2] len by (simp add: spec_full_def)
  next
    case False
    have "card ?A \<le> card ?R" by (rule card_mono [OF records_finite live_subset])
    moreover have "card (fst ` ?A) \<le> card (fst ` ?R)"
      by (rule card_mono [OF finite_imageI [OF records_finite] image_mono [OF live_subset]])
    moreover have nr: "\<not> int (card ?R) \<ge> maxPlatformReplayEntries"
        "\<not> ({x \<in> ?A. fst x = key} = {} \<and> card (fst ` ?R) \<ge> maxPlatformReplayPrincipals)"
      using False unfolding no_room_records [OF ok] own by blast+
    ultimately have "\<not> int (card ?A) \<ge> maxPlatformReplayEntries"
        "\<not> ({x \<in> ?A. fst x = key} = {} \<and> card (fst ` ?A) \<ge> maxPlatformReplayPrincipals)"
      by (linarith, meson le_trans)
    moreover have "c2 = c" using False by (simp add: c2)
    ultimately show ?thesis using False len unfolding spec_full_def by (simp only: simp_thms)
  qed
qed

lemma insert_ok:
  assumes ok: "cache_ok c" and fresh: "\<And>e. (key, n, e) \<notin> records (rc_entries c)"
    and c': "c' = c\<lparr>rc_entries := AList.update key (AList.update n e (bucket_at key c)) (rc_entries c),
        rc_total := rc_total c + 1\<rparr>"
  shows "cache_ok c'" and "records (rc_entries c') = insert (key, n, e) (records (rc_entries c))"
proof -
  let ?b = "AList.update n e (bucket_at key c)"
  have es: "entries_ok (rc_entries c)" using ok by (simp add: cache_ok_iff)
  note d = bucket_at_distinct [OF es, of key]
  have b: "(m, x) \<in> set ?b \<longleftrightarrow> (m = n \<and> x = e \<or> m \<noteq> n \<and> (key, m, x) \<in> records (rc_entries c))" for m x
    using mem_update [OF d] bucket_at_set [OF es] by auto
  show recs: "records (rc_entries c') = insert (key, n, e) (records (rc_entries c))"
  proof -
    have "(k, m, x) \<in> records (rc_entries c') \<longleftrightarrow>
        (if k = key then (m, x) \<in> set ?b else (k, m, x) \<in> records (rc_entries c))" for k m x
      by (force simp: c' records_update [OF es])
    then have "(k, m, x) \<in> records (rc_entries c') \<longleftrightarrow> (k, m, x) \<in> insert (key, n, e) (records (rc_entries c))" for k m x
      using b [of m x] fresh [of x] by auto
    then show ?thesis by auto
  qed
  have "entries_ok (rc_entries c')"
    using entries_ok_update [OF es, of ?b key] d by (simp add: c' distinct_update)
  moreover have "card (insert (key, n, e) (records (rc_entries c))) = card (records (rc_entries c)) + 1"
    using fresh by (simp add: records_finite)
  ultimately show "cache_ok c'" using ok unfolding cache_ok_iff recs by (simp add: c')
qed

lemma admit_key_refines:
  assumes ok: "cache_ok c" and adm: "admit_key key n e now c = (r, c')"
    and spec: "spec_admit key n e (live now (records (rc_entries c))) = (r', A')"
  shows "cache_ok c' \<and> r = r' \<and> live now (records (rc_entries c')) = live now A' \<and>
    (\<forall>k m x. (k, m, x) \<in> records (rc_entries c) \<and> now < x \<longrightarrow> (k, m, x) \<in> records (rc_entries c')) \<and>
    (r = ReplayAccepted \<longrightarrow> (key, n, e) \<in> records (rc_entries c'))"
proof -
  define c1 where "c1 = clean_bucket now key c"
  define c2 where "c2 = (if no_room key c1 then sweep now c1 else c1)"
  let ?A = "live now (records (rc_entries c))"
  note C = clean_bucket_records [OF ok, of now key, folded c1_def]
  have live1: "live now (records (rc_entries c1)) = ?A" using C(1) by (auto simp: live_def)
  have clean: "\<forall>m x. (key, m, x) \<in> records (rc_entries c1) \<longrightarrow> now < x" using C(1) by simp
  note R = room_check [OF C(2) clean c2_def, unfolded live1]
  have dup: "map_of (bucket_at key c1) n \<noteq> None \<longleftrightarrow> (\<exists>x. (key, n, x) \<in> ?A)"
  proof -
    have es: "entries_ok (rc_entries c1)" using C(2) by (simp add: cache_ok_iff)
    have "map_of (bucket_at key c1) n \<noteq> None \<longleftrightarrow> (\<exists>x. (n, x) \<in> set (bucket_at key c1))"
      by (force simp: map_of_eq_None_iff)
    also have "\<dots> \<longleftrightarrow> (\<exists>x. (key, n, x) \<in> ?A)"
      using C(1) by (simp add: bucket_at_set [OF es] live_def)
    finally show ?thesis .
  qed
  have keep1: "?A \<subseteq> records (rc_entries c1)" by (subst live1 [symmetric]) (rule live_subset)
  have keep2: "?A \<subseteq> records (rc_entries c2)" by (subst R(2) [symmetric]) (rule live_subset)
  consider "\<exists>x. (key, n, x) \<in> ?A" | "\<not> (\<exists>x. (key, n, x) \<in> ?A)" "spec_full key ?A"
    | "\<not> (\<exists>x. (key, n, x) \<in> ?A)" "\<not> spec_full key ?A" by blast
  then show ?thesis
  proof cases
    case 1
    then have "r = ReplayDuplicate" "c' = c1" "r' = ReplayDuplicate" "A' = ?A"
      using adm spec dup by (auto simp: admit_key_def Let_def c1_def spec_admit_def)
    then show ?thesis using C(2) live1 keep1 by (auto simp: live_live live_def)
  next
    case 2
    then have "r = ReplayCapacity" "c' = c2" "r' = ReplayCapacity" "A' = ?A"
      using adm spec dup R(4) by (auto simp: admit_key_def Let_def c1_def c2_def spec_admit_def split: if_splits)
    then show ?thesis using R(1,2) keep2 by (auto simp: live_live live_def)
  next
    case 3
    have fresh: "(key, n, x) \<notin> records (rc_entries c2)" for x
    proof
      assume "(key, n, x) \<in> records (rc_entries c2)"
      then have "(key, n, x) \<in> {x \<in> records (rc_entries c2). fst x = key}" by simp
      then have "(key, n, x) \<in> ?A" unfolding R(3) by simp
      with 3(1) show False by blast
    qed
    have "r = ReplayAccepted" "r' = ReplayAccepted" "A' = insert (key, n, e) ?A"
      and c': "c' = c2\<lparr>rc_entries := AList.update key (AList.update n e (bucket_at key c2)) (rc_entries c2),
        rc_total := rc_total c2 + 1\<rparr>"
      using 3 adm spec dup R(4) by (auto simp: admit_key_def Let_def c1_def c2_def spec_admit_def split: if_splits)
    note I = insert_ok [OF R(1) fresh c']
    have "live now (insert (key, n, e) B) = live now (insert (key, n, e) (live now B))" for B
      by (auto simp: live_def)
    then have "live now (records (rc_entries c')) = live now A'"
      using \<open>A' = insert (key, n, e) ?A\<close> R(2) I(2) by metis
    moreover have "(k, m, x) \<in> records (rc_entries c')" if "(k, m, x) \<in> records (rc_entries c)" "now < x" for k m x
      using that keep2 unfolding I(2) by (auto simp: live_def)
    ultimately show ?thesis using I \<open>r = ReplayAccepted\<close> \<open>r' = ReplayAccepted\<close> by simp
  qed
qed

section \<open>What a store of nonces promises\<close>

text \<open>
  The client is the authentication of platform requests. It relies on three laws: a nonce that is
  held and has not expired is a duplicate, it stays held as long as it has not expired, and
  an accepted nonce is held.
\<close>

locale nonce_store =
  fixes admit :: "'k \<Rightarrow> 'n \<Rightarrow> int \<Rightarrow> int \<Rightarrow> 's \<Rightarrow> platformReplayResult \<times> 's"
    and good :: "'s \<Rightarrow> bool"
    and holds :: "'s \<Rightarrow> 'k \<Rightarrow> 'n \<Rightarrow> int \<Rightarrow> bool"
  assumes good_step: "good s \<Longrightarrow> good (snd (admit k n e t s))"
    and held_duplicate: "good s \<Longrightarrow> holds s k n e \<Longrightarrow> t < e \<Longrightarrow> fst (admit k n e' t s) = ReplayDuplicate"
    and held_stays: "good s \<Longrightarrow> holds s k n e \<Longrightarrow> t < e \<Longrightarrow> holds (snd (admit k' n' e' t s)) k n e"
    and accepted_held: "good s \<Longrightarrow> fst (admit k n e t s) = ReplayAccepted \<Longrightarrow> holds (snd (admit k n e t s)) k n e"
begin

fun run :: "('k \<times> 'n \<times> int \<times> int) list \<Rightarrow> 's \<Rightarrow> platformReplayResult list" where
  "run [] s = []"
| "run ((k, n, e, t) # reqs) s = fst (admit k n e t s) # run reqs (snd (admit k n e t s))"

lemma length_run [simp]: "length (run reqs s) = length reqs"
  by (induction reqs s rule: run.induct) simp_all

lemma held_rejected:
  assumes "good s" and "holds s k n e" and "j < length reqs" and "reqs ! j = (k, n, e', t')"
    and "\<And>i. i \<le> j \<Longrightarrow> snd (snd (snd (reqs ! i))) < e"
  shows "run reqs s ! j = ReplayDuplicate"
  using assms
proof (induction reqs arbitrary: s j)
  case (Cons r reqs)
  obtain k' n' x t where r: "r = (k', n', x, t)" by (cases r)
  have t: "t < e" using Cons.prems(5) [of 0] by (simp add: r)
  show ?case
  proof (cases j)
    case 0
    then show ?thesis using Cons.prems t by (simp add: r held_duplicate)
  next
    case (Suc m)
    have "run reqs (snd (admit k' n' x t s)) ! m = ReplayDuplicate"
    proof (rule Cons.IH)
      show "good (snd (admit k' n' x t s))" using good_step Cons.prems(1) .
      show "holds (snd (admit k' n' x t s)) k n e" using held_stays [OF Cons.prems(1,2) t] .
      show "m < length reqs" "reqs ! m = (k, n, e', t')" using Cons.prems(3,4) Suc by simp_all
      show "snd (snd (snd (reqs ! i))) < e" if "i \<le> m" for i
        using Cons.prems(5) [of "Suc i"] that Suc by simp
    qed
    then show ?thesis by (simp add: Suc r)
  qed
qed simp

lemma replay_rejected:
  assumes "good s" and "i < j" and "j < length reqs"
    and "reqs ! i = (k, n, e, t)" and "run reqs s ! i = ReplayAccepted" and "reqs ! j = (k, n, e', t')"
    and "\<And>m. i < m \<Longrightarrow> m \<le> j \<Longrightarrow> snd (snd (snd (reqs ! m))) < e"
  shows "run reqs s ! j = ReplayDuplicate"
  using assms
proof (induction reqs arbitrary: s i j)
  case (Cons r reqs)
  obtain k' n' x u where r: "r = (k', n', x, u)" by (cases r)
  obtain j' where j: "j = Suc j'" using Cons.prems(2) by (cases j) simp_all
  have g: "good (snd (admit k' n' x u s))" using good_step Cons.prems(1) .
  show ?case
  proof (cases i)
    case 0
    then have "holds (snd (admit k' n' x u s)) k n e"
      using Cons.prems(1,4,5) by (auto simp: r intro: accepted_held)
    then have "run reqs (snd (admit k' n' x u s)) ! j' = ReplayDuplicate"
    proof (rule held_rejected [OF g])
      show "j' < length reqs" "reqs ! j' = (k, n, e', t')" using Cons.prems(3,6) j by simp_all
      show "snd (snd (snd (reqs ! m))) < e" if "m \<le> j'" for m
        using Cons.prems(7) [of "Suc m"] that 0 j by simp
    qed
    then show ?thesis by (simp add: j r)
  next
    case (Suc i')
    have "run reqs (snd (admit k' n' x u s)) ! j' = ReplayDuplicate"
    proof (rule Cons.IH [OF g])
      show "i' < j'" "j' < length reqs" "reqs ! i' = (k, n, e, t)" "reqs ! j' = (k, n, e', t')"
        using Cons.prems(2-4,6) Suc j by simp_all
      show "run reqs (snd (admit k' n' x u s)) ! i' = ReplayAccepted" using Cons.prems(5) by (simp add: r Suc)
      show "snd (snd (snd (reqs ! m))) < e" if "i' < m" "m \<le> j'" for m
        using Cons.prems(7) [of "Suc m"] that Suc j by simp
    qed
    then show ?thesis by (simp add: j r)
  qed
qed simp

end

interpretation replay: nonce_store admit_key cache_ok "\<lambda>c k n e. (k, n, e) \<in> records (rc_entries c)"
proof
  fix c :: "'a replay_cache" and k k' n n' e e' t
  assume ok: "cache_ok c"
  obtain r c' where adm: "admit_key k n e t c = (r, c')" by fastforce
  obtain r' A' where spec: "spec_admit k n e (live t (records (rc_entries c))) = (r', A')" by fastforce
  note R = admit_key_refines [OF ok adm spec]
  show "cache_ok (snd (admit_key k n e t c))" using R adm by simp
  show "fst (admit_key k n e t c) = ReplayAccepted \<Longrightarrow> (k, n, e) \<in> records (rc_entries (snd (admit_key k n e t c)))"
    using R adm by simp
next
  fix c :: "'a replay_cache" and k k' n n' e e' t
  assume ok: "cache_ok c" and held: "(k, n, e) \<in> records (rc_entries c)" "t < e"
  obtain r c' where adm: "admit_key k n e' t c = (r, c')" by fastforce
  obtain r' A' where spec: "spec_admit k n e' (live t (records (rc_entries c))) = (r', A')" by fastforce
  have "(k, n, e) \<in> live t (records (rc_entries c))" using held by (simp add: live_def)
  then have "r' = ReplayDuplicate" using spec by (auto simp: spec_admit_def split: if_splits)
  then show "fst (admit_key k n e' t c) = ReplayDuplicate" using admit_key_refines [OF ok adm spec] adm by simp
next
  fix c :: "'a replay_cache" and k k' n n' e e' t
  assume ok: "cache_ok c" and held: "(k, n, e) \<in> records (rc_entries c)" "t < e"
  obtain r c' where adm: "admit_key k' n' e' t c = (r, c')" by fastforce
  obtain r' A' where spec: "spec_admit k' n' e' (live t (records (rc_entries c))) = (r', A')" by fastforce
  show "(k, n, e) \<in> records (rc_entries (snd (admit_key k' n' e' t c)))"
    using admit_key_refines [OF ok adm spec] adm held by simp
qed

fun admit_all :: "(string \<Rightarrow> 'k) \<Rightarrow> (string \<times> nonce \<times> int \<times> int) list \<Rightarrow> 'k replay_cache \<Rightarrow>
    platformReplayResult list \<times> 'k replay_cache" where
  "admit_all sha256 [] c = ([], c)"
| "admit_all sha256 ((p, n, e, t) # reqs) c =
     (case admit sha256 p n e t c of (r, c') \<Rightarrow>
        (case admit_all sha256 reqs c' of (rs, c'') \<Rightarrow> (r # rs, c'')))"

lemma admit_all_run:
  "fst (admit_all sha256 reqs c) = replay.run (map (\<lambda>(p, x). (sha256 p, x)) reqs) c"
  by (induction sha256 reqs c rule: admit_all.induct) (auto simp: admit_def split: prod.splits)

lemma admit_all_ok: "cache_ok c \<Longrightarrow> cache_ok (snd (admit_all sha256 reqs c))"
proof (induction sha256 reqs c rule: admit_all.induct)
  case (2 sha256 p n e t reqs c)
  have "cache_ok (snd (admit sha256 p n e t c))" using replay.good_step 2(2) by (simp add: admit_def)
  then show ?case using 2(1) by (auto split: prod.splits)
qed simp

lemma new_cache_ok: "cache_ok newPlatformReplayCache"
  by (simp add: cache_ok_def newPlatformReplayCache_def entries_ok_def bucket_total_def)

section \<open>Properties\<close>

text \<open>
  C21. The replay cache refines a set of unexpired nonces. In every state the cache can reach, an
  admission answers as the abstract set does: a duplicate exactly when the set has the nonce of the
  principal, capacity exactly when the set is full, and otherwise accepted. Its
  set afterwards is that of the abstract admission, whatever was swept and when, and the counter of entries
  is the number of records that are stored.
\<close>

theorem replay_cache_refines:
  assumes "snd (admit_all sha256 reqs newPlatformReplayCache) = c"
  shows "rc_total c = int (card (records (rc_entries c))) \<and>
    map_prod id (\<lambda>c'. live now (records (rc_entries c'))) (admit sha256 p n e now c) =
    map_prod id (live now) (spec_admit (sha256 p) n e (live now (records (rc_entries c))))"
proof -
  have ok: "cache_ok c" using admit_all_ok [OF new_cache_ok] assms by blast
  obtain r c' where adm: "admit_key (sha256 p) n e now c = (r, c')" by fastforce
  obtain r' A' where spec: "spec_admit (sha256 p) n e (live now (records (rc_entries c))) = (r', A')" by fastforce
  show ?thesis using admit_key_refines [OF ok adm spec] ok adm spec by (simp add: admit_def cache_ok_iff)
qed

theorem replay_cache_refines_witness:
  "fst (admit id ''p'' [7] 20 5 (snd (admit_all id [(''p'', [7], 10, 4)] newPlatformReplayCache))) = ReplayDuplicate"
proof -
  let ?c = "snd (admit_all id [(''p'', [7], 10, 4)] newPlatformReplayCache)"
  have "records (rc_entries ?c) = {(''p'', [7], 10)}"
    by (auto simp: admit_def admit_key_def newPlatformReplayCache_def clean_bucket_def bucket_at_def no_room_def
        maxPlatformReplayEntries_def maxPlatformReplayPrincipals_def maxPlatformReplayEntriesPrincipal_def records_def)
  then have "(id ''p'', [7], 10) \<in> live 5 (records (rc_entries ?c))" by (simp add: live_def)
  then have "fst (spec_admit (id ''p'') [7] 20 (live 5 (records (rc_entries ?c)))) = ReplayDuplicate"
    unfolding spec_admit_def by (subst if_P) auto
  moreover have "map_prod id (\<lambda>c'. live 5 (records (rc_entries c'))) (admit id ''p'' [7] 20 5 ?c) =
      map_prod id (live 5) (spec_admit (id ''p'') [7] 20 (live 5 (records (rc_entries ?c))))"
    by (rule conjunct2 [OF replay_cache_refines [OF refl]])
  ultimately show ?thesis by (metis fst_map_prod id_apply)
qed

text \<open>
  No replay before the expiry. When a nonce of a principal was accepted, every later request of that
  principal with the same nonce is a duplicate, as long as no request since then was verified at
  or after the time the nonce expires.
\<close>

theorem replayed_nonce_rejected:
  assumes "i < j" and "j < length reqs" and "reqs ! i = (p, n, e, t)" and "reqs ! j = (p, n, e', t')"
    and "fst (admit_all sha256 reqs newPlatformReplayCache) ! i = ReplayAccepted"
    and "\<And>m q n' x u. i < m \<Longrightarrow> m \<le> j \<Longrightarrow> reqs ! m = (q, n', x, u) \<Longrightarrow> u < e"
  shows "fst (admit_all sha256 reqs newPlatformReplayCache) ! j = ReplayDuplicate"
proof -
  let ?reqs = "map (\<lambda>(p, x). (sha256 p, x)) reqs"
  have "replay.run ?reqs newPlatformReplayCache ! j = ReplayDuplicate"
  proof (rule replay.replay_rejected [OF new_cache_ok assms(1)])
    show "j < length ?reqs" "?reqs ! i = (sha256 p, n, e, t)" "?reqs ! j = (sha256 p, n, e', t')"
      using assms(1-4) by simp_all
    show "replay.run ?reqs newPlatformReplayCache ! i = ReplayAccepted" using assms(5) by (simp add: admit_all_run)
    show "snd (snd (snd (?reqs ! m))) < e" if "i < m" "m \<le> j" for m
      using assms(2) assms(6) [OF that] that by (cases "reqs ! m") simp
  qed
  then show ?thesis by (simp add: admit_all_run)
qed

theorem replay_rejected_witness:
  "fst (admit_all id [(''p'', [7], 10, 4), (''p'', [7], 10, 9)] newPlatformReplayCache) ! 1 = ReplayDuplicate"
proof (rule replayed_nonce_rejected [where i = 0 and t = 4 and e = 10])
  show "fst (admit_all id [(''p'', [7], 10, 4), (''p'', [7], 10, 9)] newPlatformReplayCache) ! 0 = ReplayAccepted"
    by (simp add: admit_def admit_key_def newPlatformReplayCache_def clean_bucket_def bucket_at_def no_room_def
        maxPlatformReplayEntries_def maxPlatformReplayPrincipals_def maxPlatformReplayEntriesPrincipal_def
        split: prod.splits)
qed (auto simp: less_Suc_eq)

end
