(* ===== verification/Auth.thy ===== *)
theory Auth
  imports Replay Go_Strings
begin

text \<open>
  internal/api/server.go: who a request comes from. \<open>requireAuth\<close> in its modes, the verification of
  signed platform headers, and the principal that limits uploads before authentication. SHA-256, HMAC,
  the parsers of times, addresses and networks are parameters; \<open>encoding/hex\<close> is modelled. Times are
  nanoseconds.
\<close>

section \<open>Hexadecimal text\<close>

definition hex_char :: "nat \<Rightarrow> char" where
  "hex_char n = char_of (if n < 10 then 48 + n else 87 + n)"

definition hex_encode :: "string \<Rightarrow> string" where
  "hex_encode s = concat (map (\<lambda>c. [hex_char (of_char c div 16), hex_char (of_char c mod 16)]) s)"

definition hex_value :: "char \<Rightarrow> nat option" where
  "hex_value c =
     (let n = of_char c in
      if 48 \<le> n \<and> n \<le> 57 then Some (n - 48)
      else if 97 \<le> n \<and> n \<le> 102 then Some (n - 87)
      else if 65 \<le> n \<and> n \<le> 70 then Some (n - 55)
      else None)"

fun hex_decode :: "string \<Rightarrow> nat list option" where
  "hex_decode [] = Some []"
| "hex_decode [c] = None"
| "hex_decode (c # d # s) =
     (case (hex_value c, hex_value d, hex_decode s) of
        (Some h, Some l, Some bs) \<Rightarrow> Some ((16 * h + l) # bs)
      | _ \<Rightarrow> None)"

section \<open>Configuration and requests\<close>

datatype auth_mode = AuthUnset | AuthNone | AuthBearer | AuthPlatform | AuthOther

record auth_config =
  ac_Mode :: auth_mode
  ac_BearerToken :: string
  ac_HMACSecret :: string
  ac_TrustedPlatformHeaders :: bool
  ac_TrustedPlatformHeaderCIDRs :: "string list"
  ac_Dev :: bool

record auth_env =
  sha256 :: "string \<Rightarrow> string"
  hmac :: "string \<Rightarrow> string \<Rightarrow> string"
  parse_rfc3339 :: "string \<Rightarrow> int option"
  split_host_port :: "string \<Rightarrow> (string \<times> string) option"
  parse_ip :: "string \<Rightarrow> nat list option"
  parse_cidr :: "string \<Rightarrow> (nat list \<Rightarrow> bool) option"

text \<open>
  The parts of a request that authentication reads. A header that is absent is empty; reading the body
  may fail with the status and the code that \<open>writeRequestBodyError\<close> gives.
\<close>

record http_request =
  hr_Method :: string
  hr_RequestURI :: string
  hr_Header :: "string \<Rightarrow> string"
  hr_RemoteAddr :: string
  hr_ContentLength :: int
  hr_Body :: string
  hr_BodyError :: "(nat \<times> string) option"

text \<open>The response that ends a request, or the principal with which the next handler runs.\<close>

datatype auth_result = Denied nat string | Authed string

definition unauthorized :: auth_result where "unauthorized = Denied 401 ''unauthorized''"

definition maxJSONBodyBytes :: int where "maxJSONBodyBytes = 64 * 2 ^ 20"

definition platformPrincipalSignatureSkew :: int where
  "platformPrincipalSignatureSkew = 5 * 60 * 1000000000"

definition platformPrincipalHeader :: string where
  "platformPrincipalHeader = ''X-Aonohako-Principal''"
definition platformPrincipalSignatureHeader :: string where
  "platformPrincipalSignatureHeader = ''X-Aonohako-Principal-Signature''"
definition platformPrincipalTimestampHeader :: string where
  "platformPrincipalTimestampHeader = ''X-Aonohako-Principal-Timestamp''"
definition platformPrincipalNonceHeader :: string where
  "platformPrincipalNonceHeader = ''X-Aonohako-Principal-Nonce''"

section \<open>Principals\<close>

definition trim_prefix :: "string \<Rightarrow> string \<Rightarrow> string" where
  "trim_prefix s p = (if has_prefix s p then drop (length p) s else s)"

text \<open>The address a principal is named after when it has no name of its own.\<close>

definition address_name :: "auth_env \<Rightarrow> http_request \<Rightarrow> string" where
  "address_name E r =
     (case split_host_port E (hr_RemoteAddr r) of
        Some (host, port) \<Rightarrow>
          if host \<noteq> [] then host
          else if hr_RemoteAddr r \<noteq> [] then hr_RemoteAddr r else ''unknown''
      | None \<Rightarrow> if hr_RemoteAddr r \<noteq> [] then hr_RemoteAddr r else ''unknown'')"

definition anonymousPrincipal :: "auth_env \<Rightarrow> http_request \<Rightarrow> string" where
  "anonymousPrincipal E r = ''anonymous:'' @ address_name E r"

definition preAuthPrincipal :: "auth_config \<Rightarrow> auth_env \<Rightarrow> http_request \<Rightarrow> string" where
  "preAuthPrincipal C E r =
     (case ac_Mode C of
        AuthBearer \<Rightarrow>
          ''bearer-claim:'' @ hex_encode (take 8 (sha256 E (trim_prefix (hr_Header r ''Authorization'') ''Bearer '')))
      | AuthPlatform \<Rightarrow>
          ''platform-claim:'' @ hex_encode (take 8 (sha256 E (trim_space (hr_Header r platformPrincipalHeader))))
      | _ \<Rightarrow> anonymousPrincipal E r)"

section \<open>Checks\<close>

definition constantTimeEqual :: "auth_env \<Rightarrow> string \<Rightarrow> string \<Rightarrow> bool" where
  "constantTimeEqual E a b \<longleftrightarrow>
     sha256 E a = sha256 E b \<and> length a mod 2 ^ 32 = length b mod 2 ^ 32"

definition signed_message :: "string list \<Rightarrow> string" where
  "signed_message parts = concat (map (\<lambda>f. f @ [CHR 0x0A]) (butlast parts)) @ last parts"

definition verifyPlatformPrincipalSignature ::
  "auth_env \<Rightarrow> string \<Rightarrow> string \<Rightarrow> string \<Rightarrow> string \<Rightarrow> string \<Rightarrow> string \<Rightarrow> string \<Rightarrow> string \<Rightarrow> int \<Rightarrow> bool" where
  "verifyPlatformPrincipalSignature E secret verb requestURI who timestamp0 nonce signature0 bodyHash now =
     (let timestamp = trim_space timestamp0 in
      case parse_rfc3339 E timestamp of
        None \<Rightarrow> False
      | Some t \<Rightarrow>
          if now - t > platformPrincipalSignatureSkew \<or> t - now > platformPrincipalSignatureSkew then False
          else
            (let signature = trim_space signature0 in
             if \<not> has_prefix signature ''v4='' then False
             else
               (let hexsig = drop 3 signature in
                if hexsig = [] then False
                else
                  (let want = hex_encode (hmac E secret
                         (signed_message [verb, requestURI, who, timestamp, nonce, bodyHash])) in
                   constantTimeEqual E (to_lower hexsig) want))))"

definition trustedPlatformSource :: "auth_config \<Rightarrow> auth_env \<Rightarrow> http_request \<Rightarrow> bool" where
  "trustedPlatformSource C E r =
     (let host = (case split_host_port E (hr_RemoteAddr r) of Some (h, p) \<Rightarrow> h | None \<Rightarrow> hr_RemoteAddr r) in
      case parse_ip E (trim_space host) of
        None \<Rightarrow> False
      | Some remoteIP \<Rightarrow>
          list_ex (\<lambda>cidr. case parse_cidr E cidr of None \<Rightarrow> False | Some network \<Rightarrow> network remoteIP)
            (ac_TrustedPlatformHeaderCIDRs C))"

text \<open>The hash of the body, or the response when it cannot be read within its limit.\<close>

definition body_too_large :: "nat \<times> string" where
  "body_too_large = (413, ''request_body_too_large'')"

definition hashAndRestoreRequestBody :: "auth_env \<Rightarrow> http_request \<Rightarrow> (nat \<times> string) + string" where
  "hashAndRestoreRequestBody E r =
     (if hr_ContentLength r > maxJSONBodyBytes then Inl body_too_large
      else if int (length (hr_Body r)) > maxJSONBodyBytes then Inl body_too_large
      else (case hr_BodyError r of
              Some e \<Rightarrow> Inl e
            | None \<Rightarrow> Inr (hex_encode (sha256 E (hr_Body r)))))"

section \<open>Signed platform headers\<close>

text \<open>
  The headers of a signed request, checked before the body is read: the principal, its timestamp as text and as
  a time, the nonce as text and as bytes, and the signature.
\<close>

record signed_headers =
  sh_principal :: string
  sh_timestamp :: string
  sh_time :: int
  sh_nonce :: string
  sh_nonceBytes :: nonce
  sh_signature :: string

definition read_signed_headers :: "auth_env \<Rightarrow> http_request \<Rightarrow> int \<Rightarrow> signed_headers option" where
  "read_signed_headers E r now =
     (let val = trim_space (hr_Header r platformPrincipalHeader);
          signature = trim_space (hr_Header r platformPrincipalSignatureHeader);
          timestamp = trim_space (hr_Header r platformPrincipalTimestampHeader);
          nonce = trim_space (hr_Header r platformPrincipalNonceHeader) in
      if val = [] \<or> \<not> has_prefix signature ''v4='' then None
      else
        (case (parse_rfc3339 E timestamp, hex_decode (drop 3 signature), hex_decode nonce) of
           (Some t, Some decodedSignature, Some decodedNonce) \<Rightarrow>
             if now - t > platformPrincipalSignatureSkew \<or> t - now > platformPrincipalSignatureSkew \<or>
                 length decodedNonce \<noteq> 16 \<or> nonce \<noteq> to_lower nonce \<or> length decodedSignature \<noteq> 32 then None
             else Some \<lparr>sh_principal = val, sh_timestamp = timestamp, sh_time = t, sh_nonce = nonce,
                        sh_nonceBytes = decodedNonce, sh_signature = signature\<rparr>
         | _ \<Rightarrow> None))"

text \<open>
  The times of the two calls of \<open>time.Now\<close> and whether a slot for hashing is free are arguments. The cache of nonces
  changes only when the signature verifies.
\<close>

definition signed_platform ::
  "auth_config \<Rightarrow> auth_env \<Rightarrow> http_request \<Rightarrow> int \<Rightarrow> int \<Rightarrow> bool \<Rightarrow> string replay_cache \<Rightarrow>
   (auth_result + string) \<times> string replay_cache" where
  "signed_platform C E r now verifiedAt slot c =
     (case read_signed_headers E r now of
        None \<Rightarrow> (Inl unauthorized, c)
      | Some h \<Rightarrow>
          if ac_TrustedPlatformHeaders C \<and> ac_TrustedPlatformHeaderCIDRs C \<noteq> [] \<and> \<not> trustedPlatformSource C E r
            then (Inl unauthorized, c)
          else if \<not> slot then (Inl (Denied 429 ''platform_body_hash_limit_exceeded''), c)
          else
            (case hashAndRestoreRequestBody E r of
               Inl (status, code) \<Rightarrow> (Inl (Denied status code), c)
             | Inr bodyHash \<Rightarrow>
                 if \<not> verifyPlatformPrincipalSignature E (ac_HMACSecret C) (hr_Method r) (hr_RequestURI r)
                      (sh_principal h) (sh_timestamp h) (sh_nonce h) (sh_signature h) bodyHash verifiedAt
                   then (Inl unauthorized, c)
                 else
                   (case admit (sha256 E) (sh_principal h) (sh_nonceBytes h)
                           (sh_time h + platformPrincipalSignatureSkew) verifiedAt c of
                      (ReplayDuplicate, c') \<Rightarrow> (Inl unauthorized, c')
                    | (ReplayCapacity, c') \<Rightarrow> (Inl (Denied 429 ''platform_replay_cache_limit_exceeded''), c')
                    | (ReplayAccepted, c') \<Rightarrow> (Inr (sh_principal h), c'))))"

definition platform_principal :: "auth_env \<Rightarrow> http_request \<Rightarrow> string \<Rightarrow> string" where
  "platform_principal E r val =
     ''platform:'' @ hex_encode (sha256 E (''platform:'' @ (if val \<noteq> [] then val else address_name E r)))"

section \<open>\<open>requireAuth\<close>\<close>

definition requireAuth ::
  "auth_config \<Rightarrow> auth_env \<Rightarrow> http_request \<Rightarrow> int \<Rightarrow> int \<Rightarrow> bool \<Rightarrow> string replay_cache \<Rightarrow>
   auth_result \<times> string replay_cache" where
  "requireAuth C E r now verifiedAt slot c =
     (case ac_Mode C of
        AuthUnset \<Rightarrow> (Authed (anonymousPrincipal E r), c)
      | AuthNone \<Rightarrow> (Authed (anonymousPrincipal E r), c)
      | AuthPlatform \<Rightarrow>
          (let val = trim_space (hr_Header r platformPrincipalHeader) in
           if ac_HMACSecret C \<noteq> [] then
             (case signed_platform C E r now verifiedAt slot c of
                (Inl res, c') \<Rightarrow> (res, c')
              | (Inr p, c') \<Rightarrow> (Authed (platform_principal E r p), c'))
           else if ac_TrustedPlatformHeaders C \<and> ac_TrustedPlatformHeaderCIDRs C \<noteq> [] \<and> ac_Dev C then
             if val = [] \<or> \<not> trustedPlatformSource C E r then (unauthorized, c)
             else (Authed (platform_principal E r val), c)
           else if \<not> ac_Dev C then (unauthorized, c)
           else (Authed (platform_principal E r val), c))
      | AuthBearer \<Rightarrow>
          if ac_BearerToken C = [] then (Denied 500 ''server_auth_misconfigured'', c)
          else
            (let got = hr_Header r ''Authorization'' in
             if \<not> has_prefix got ''Bearer '' \<or>
                 \<not> constantTimeEqual E (trim_prefix got ''Bearer '') (ac_BearerToken C)
               then (unauthorized, c)
             else (Authed (''bearer:'' @ hex_encode (take 8 (sha256 E (ac_BearerToken C)))), c))
      | AuthOther \<Rightarrow> (Denied 500 ''server_auth_misconfigured'', c))"

section \<open>The message that is signed\<close>

text \<open>Fields without a newline can be read back from the message.\<close>

abbreviation newline :: char where
  "newline \<equiv> CHR 0x0A"

lemma append_newline_inj:
  assumes "a @ newline # s = b @ newline # t" and "newline \<notin> set a" and "newline \<notin> set b"
  shows "a = b \<and> s = t"
  using assms
proof (induction a arbitrary: b)
  case Nil
  then show ?case by (cases b) auto
next
  case (Cons x a)
  then show ?case by (cases b) auto
qed

lemma signed_message_Cons: "fs \<noteq> [] \<Longrightarrow> signed_message (f # fs) = f @ newline # signed_message fs"
  by (simp add: signed_message_def)

lemma signed_message_inj:
  assumes "signed_message fs = signed_message gs" and "length fs = length gs" and "fs \<noteq> []"
    and "\<forall>f \<in> set fs \<union> set gs. newline \<notin> set f"
  shows "fs = gs"
  using assms
proof (induction fs arbitrary: gs)
  case (Cons f fs)
  obtain g gs' where gs: "gs = g # gs'" using Cons.prems(2) by (cases gs) simp_all
  show ?case
  proof (cases fs)
    case Nil
    then show ?thesis using Cons.prems gs by (simp add: signed_message_def)
  next
    case ne: (Cons f' fs')
    then have ne': "fs \<noteq> []" "gs' \<noteq> []" using Cons.prems(2) gs by auto
    have "f @ newline # signed_message fs = g @ newline # signed_message gs'"
      using Cons.prems(1) ne' gs by (simp add: signed_message_Cons)
    then have "f = g \<and> signed_message fs = signed_message gs'"
      by (rule append_newline_inj) (use Cons.prems(4) gs in auto)
    then show ?thesis using Cons.IH [of gs'] Cons.prems(2,4) ne' gs by auto
  qed
qed simp

lemma hex_char_value:
  assumes "n < 16"
  shows "hex_value (hex_char n) = Some n"
proof -
  have "(if n < 10 then 48 + n else 87 + n) < 256" using assms by simp
  then have "of_char (hex_char n) = (if n < 10 then 48 + n else 87 + n)"
    by (simp add: hex_char_def)
  then show ?thesis using assms by (simp add: hex_value_def Let_def)
qed

lemma hex_decode_encode: "hex_decode (hex_encode s) = Some (map of_char s)"
proof (induction s)
  case (Cons c s)
  have "(of_char c :: nat) < 256" by simp
  then have "(of_char c :: nat) div 16 < 16" by (simp only: less_mult_imp_div_less)
  then show ?case using Cons by (simp add: hex_encode_def hex_char_value)
qed (simp add: hex_encode_def)

lemma hex_encode_inj:
  assumes "hex_encode s = hex_encode t"
  shows "s = t"
proof -
  have "map of_char s = (map of_char t :: nat list)"
    using assms hex_decode_encode [of s] hex_decode_encode [of t] by simp
  then show ?thesis by (simp add: inj_map_eq_map inj_on_def)
qed

text \<open>What a signature that verifies is the signature of.\<close>

lemma verify_iff:
  assumes "verifyPlatformPrincipalSignature E secret verb uri who timestamp nonce signature bodyHash now"
  shows "\<exists>t. parse_rfc3339 E (trim_space timestamp) = Some t \<and> \<bar>now - t\<bar> \<le> platformPrincipalSignatureSkew \<and>
    has_prefix (trim_space signature) ''v4='' \<and>
    sha256 E (to_lower (drop 3 (trim_space signature))) =
      sha256 E (hex_encode (hmac E secret (signed_message [verb, uri, who, trim_space timestamp, nonce, bodyHash])))"
  using assms
  by (auto simp: verifyPlatformPrincipalSignature_def Let_def constantTimeEqual_def split: option.splits if_splits)

section \<open>Runs of requests\<close>

fun auth_all ::
  "auth_config \<Rightarrow> auth_env \<Rightarrow> (http_request \<times> int \<times> int \<times> bool) list \<Rightarrow> string replay_cache \<Rightarrow> auth_result list" where
  "auth_all C E [] c = []"
| "auth_all C E ((r, now, verifiedAt, slot) # reqs) c =
     (case requireAuth C E r now verifiedAt slot c of (res, c') \<Rightarrow> res # auth_all C E reqs c')"

lemma length_auth_all [simp]: "length (auth_all C E reqs c) = length reqs"
  by (induction C E reqs c rule: auth_all.induct) (simp_all split: prod.splits)

text \<open>The cache changes only by an admission at the time of verification.\<close>

lemma requireAuth_cache:
  "snd (requireAuth C E r now v slot c) = c \<or>
   (\<exists>k n e. snd (requireAuth C E r now v slot c) = snd (admit_key k n e v c))"
proof -
  have "snd (signed_platform C E r now v slot c) = c \<or>
      (\<exists>k n e. snd (signed_platform C E r now v slot c) = snd (admit_key k n e v c))"
  proof (cases "read_signed_headers E r now")
    case (Some h)
    obtain res c' where adm: "admit (sha256 E) (sh_principal h) (sh_nonceBytes h)
        (sh_time h + platformPrincipalSignatureSkew) v c = (res, c')" by fastforce
    then have "c' = snd (admit_key (sha256 E (sh_principal h)) (sh_nonceBytes h)
        (sh_time h + platformPrincipalSignatureSkew) v c)" by (simp add: admit_def)
    then show ?thesis using Some adm
      by (auto simp: signed_platform_def split: sum.splits platformReplayResult.splits)
  qed (simp add: signed_platform_def)
  then show ?thesis
    by (auto simp: requireAuth_def Let_def case_prod_unfold split: auth_mode.splits sum.splits)
qed

text \<open>An accepted signed request.\<close>

lemma signed_accepted:
  assumes "ac_Mode C = AuthPlatform" and "ac_HMACSecret C \<noteq> []"
    and "requireAuth C E r now v slot c = (Authed p, c')"
  shows "\<exists>h bodyHash. read_signed_headers E r now = Some h \<and>
    hashAndRestoreRequestBody E r = Inr bodyHash \<and>
    verifyPlatformPrincipalSignature E (ac_HMACSecret C) (hr_Method r) (hr_RequestURI r)
      (sh_principal h) (sh_timestamp h) (sh_nonce h) (sh_signature h) bodyHash v \<and>
    admit_key (sha256 E (sh_principal h)) (sh_nonceBytes h) (sh_time h + platformPrincipalSignatureSkew) v c =
      (ReplayAccepted, c') \<and> p = platform_principal E r (sh_principal h)"
  using assms
  by (auto simp: requireAuth_def signed_platform_def admit_def unauthorized_def
      split: option.splits if_splits sum.splits prod.splits platformReplayResult.splits)

lemma signed_duplicate:
  assumes "ac_Mode C = AuthPlatform" and "ac_HMACSecret C \<noteq> []" and "read_signed_headers E r now = Some h"
    and "\<And>e. fst (admit_key (sha256 E (sh_principal h)) (sh_nonceBytes h) e v c) = ReplayDuplicate"
  shows "\<exists>status code. fst (requireAuth C E r now v slot c) = Denied status code"
proof (cases "requireAuth C E r now v slot c")
  case (Pair res c')
  show ?thesis
  proof (cases res)
    case (Authed p)
    from signed_accepted [OF assms(1,2) Pair [unfolded Authed]] assms(3)
    have "admit_key (sha256 E (sh_principal h)) (sh_nonceBytes h) (sh_time h + platformPrincipalSignatureSkew) v c =
      (ReplayAccepted, c')" by auto
    then show ?thesis using assms(4) [of "sh_time h + platformPrincipalSignatureSkew"] by simp
  qed (simp add: Pair)
qed

text \<open>The signature of a request and the message it signs.\<close>

definition signature_text :: "http_request \<Rightarrow> string" where
  "signature_text r = to_lower (drop 3 (trim_space (hr_Header r platformPrincipalSignatureHeader)))"

definition request_message :: "auth_env \<Rightarrow> http_request \<Rightarrow> string" where
  "request_message E r = signed_message
     [hr_Method r, hr_RequestURI r, trim_space (hr_Header r platformPrincipalHeader),
      trim_space (hr_Header r platformPrincipalTimestampHeader),
      trim_space (hr_Header r platformPrincipalNonceHeader), hex_encode (sha256 E (hr_Body r))]"

definition request_mac :: "auth_config \<Rightarrow> auth_env \<Rightarrow> http_request \<Rightarrow> string" where
  "request_mac C E r = hex_encode (hmac E (ac_HMACSecret C) (request_message E r))"

text \<open>What HTTP guarantees of the method, the target and the headers.\<close>

definition plain_request :: "http_request \<Rightarrow> bool" where
  "plain_request r \<longleftrightarrow> newline \<notin> set (hr_Method r) \<and> newline \<notin> set (hr_RequestURI r) \<and>
     list_all (\<lambda>h. newline \<notin> set (hr_Header r h))
       [platformPrincipalHeader, platformPrincipalTimestampHeader, platformPrincipalNonceHeader]"

lemma trim_space_subset: "newline \<notin> set s \<Longrightarrow> newline \<notin> set (trim_space s)"
  using trim_space_infix [of s] by (metis Un_iff set_append)

lemma hex_char_visible: "n < 16 \<Longrightarrow> hex_char n \<noteq> newline"
  using hex_char_value [of n] by (auto simp: hex_value_def)

lemma hex_encode_one_line: "newline \<notin> set (hex_encode s)"
proof -
  have "(of_char c :: nat) div 16 < 16" for c :: char
    using nat_of_char_less_256 [of c] by (simp only: less_mult_imp_div_less)
  then have "hex_char (of_char c div 16) \<noteq> newline" "hex_char (of_char c mod 16) \<noteq> newline" for c :: char
    by (simp_all add: hex_char_visible)
  then show ?thesis by (auto simp: hex_encode_def) metis+
qed

lemma signed_headers_of:
  assumes "read_signed_headers E r now = Some h"
  shows "sh_principal h = trim_space (hr_Header r platformPrincipalHeader)"
    "sh_timestamp h = trim_space (hr_Header r platformPrincipalTimestampHeader)"
    "sh_nonce h = trim_space (hr_Header r platformPrincipalNonceHeader)"
    "sh_signature h = trim_space (hr_Header r platformPrincipalSignatureHeader)"
    "sh_principal h \<noteq> []"
    "parse_rfc3339 E (sh_timestamp h) = Some (sh_time h)"
    "hex_decode (sh_nonce h) = Some (sh_nonceBytes h)" "length (sh_nonceBytes h) = 16"
  using assms by (auto simp: read_signed_headers_def Let_def split: if_splits option.splits)

text \<open>All that an accepted signed request has been checked for.\<close>

lemma accepted_signature:
  assumes "ac_Mode C = AuthPlatform" and "ac_HMACSecret C \<noteq> []"
    and "requireAuth C E r now v slot c = (Authed p, c')"
  shows "sha256 E (signature_text r) = sha256 E (request_mac C E r) \<and>
    (\<exists>t. parse_rfc3339 E (trim_space (hr_Header r platformPrincipalTimestampHeader)) = Some t \<and>
       \<bar>v - t\<bar> \<le> platformPrincipalSignatureSkew) \<and>
    p = platform_principal E r (trim_space (hr_Header r platformPrincipalHeader)) \<and>
    trim_space (hr_Header r platformPrincipalHeader) \<noteq> []"
proof -
  obtain h bodyHash where H: "read_signed_headers E r now = Some h"
      "hashAndRestoreRequestBody E r = Inr bodyHash"
      "verifyPlatformPrincipalSignature E (ac_HMACSecret C) (hr_Method r) (hr_RequestURI r)
        (sh_principal h) (sh_timestamp h) (sh_nonce h) (sh_signature h) bodyHash v"
      "p = platform_principal E r (sh_principal h)"
    using signed_accepted [OF assms] by blast
  note S = signed_headers_of [OF H(1)]
  have "bodyHash = hex_encode (sha256 E (hr_Body r))"
    using H(2) by (auto simp: hashAndRestoreRequestBody_def split: if_splits option.splits)
  then show ?thesis
    using verify_iff [OF H(3)] H(4) S(5,6) by (simp add: S signature_text_def request_mac_def request_message_def)
qed

section \<open>Properties\<close>

text \<open>
  Bearer authentication. With a token configured, a request passes exactly when its Authorization
  header is "Bearer " followed by the token, if SHA-256 does not collide on the two; without
  a token nothing passes.
\<close>

theorem bearer_auth_exact:
  assumes "ac_Mode C = AuthBearer"
    and "inj_on (sha256 E) {trim_prefix (hr_Header r ''Authorization'') ''Bearer '', ac_BearerToken C}"
  shows "(\<exists>p. fst (requireAuth C E r now v slot c) = Authed p) \<longleftrightarrow>
    ac_BearerToken C \<noteq> [] \<and> hr_Header r ''Authorization'' = ''Bearer '' @ ac_BearerToken C"
proof -
  let ?h = "hr_Header r ''Authorization''" and ?t = "ac_BearerToken C"
  have eq: "constantTimeEqual E (trim_prefix ?h ''Bearer '') ?t \<longleftrightarrow> trim_prefix ?h ''Bearer '' = ?t"
    using inj_on_eq_iff [OF assms(2), of "trim_prefix ?h ''Bearer ''" ?t] by (auto simp: constantTimeEqual_def)
  have prefix: "has_prefix ?h ''Bearer '' \<and> trim_prefix ?h ''Bearer '' = ?t \<longleftrightarrow> ?h = ''Bearer '' @ ?t"
    by (auto simp: has_prefix_iff trim_prefix_def)
  show ?thesis
    using eq prefix assms(1) by (auto simp: requireAuth_def Let_def unauthorized_def)
qed

text \<open>
  C19. A signature authorises one request. Two signed platform requests that are accepted with the same
  signature header have the same method, target, principal, timestamp, nonce and body, unless SHA-256 or the
  HMAC collides on their values; each was verified within five minutes of its timestamp, and they
  get the same principal.
\<close>

theorem platform_signature_binds:
  assumes "ac_Mode C = AuthPlatform" and "ac_HMACSecret C \<noteq> []"
    and "requireAuth C E r now v slot c = (Authed p, c1)"
    and "requireAuth C E r' now' v' slot' c' = (Authed p', c1')"
    and "hr_Header r platformPrincipalSignatureHeader = hr_Header r' platformPrincipalSignatureHeader"
    and "inj_on (sha256 E) {signature_text r, request_mac C E r, request_mac C E r', hr_Body r, hr_Body r'}"
    and "inj_on (hmac E (ac_HMACSecret C)) {request_message E r, request_message E r'}"
    and "plain_request r" and "plain_request r'"
  shows "hr_Method r = hr_Method r' \<and> hr_RequestURI r = hr_RequestURI r' \<and> hr_Body r = hr_Body r' \<and> p = p' \<and>
    (\<forall>h \<in> {platformPrincipalHeader, platformPrincipalTimestampHeader, platformPrincipalNonceHeader}.
       trim_space (hr_Header r h) = trim_space (hr_Header r' h)) \<and>
    (\<exists>t. parse_rfc3339 E (trim_space (hr_Header r platformPrincipalTimestampHeader)) = Some t \<and>
       \<bar>v - t\<bar> \<le> platformPrincipalSignatureSkew \<and> \<bar>v' - t\<bar> \<le> platformPrincipalSignatureSkew)"
proof -
  note A = accepted_signature [OF assms(1,2,3)] and A' = accepted_signature [OF assms(1,2,4)]
  have sig: "signature_text r' = signature_text r" using assms(5) by (simp add: signature_text_def)
  have mac: "signature_text r = request_mac C E r" "signature_text r = request_mac C E r'"
    using A A' sig by (auto intro: inj_onD [OF assms(6)])
  then have "hmac E (ac_HMACSecret C) (request_message E r) = hmac E (ac_HMACSecret C) (request_message E r')"
    unfolding request_mac_def using hex_encode_inj by metis
  then have "request_message E r = request_message E r'" by (rule inj_onD [OF assms(7)]) simp_all
  then have "[hr_Method r, hr_RequestURI r, trim_space (hr_Header r platformPrincipalHeader),
      trim_space (hr_Header r platformPrincipalTimestampHeader),
      trim_space (hr_Header r platformPrincipalNonceHeader), hex_encode (sha256 E (hr_Body r))] =
     [hr_Method r', hr_RequestURI r', trim_space (hr_Header r' platformPrincipalHeader),
      trim_space (hr_Header r' platformPrincipalTimestampHeader),
      trim_space (hr_Header r' platformPrincipalNonceHeader), hex_encode (sha256 E (hr_Body r'))]"
    unfolding request_message_def
    by (rule signed_message_inj) (use assms(8,9) in \<open>simp_all add: plain_request_def trim_space_subset hex_encode_one_line\<close>)
  then have same: "hr_Method r = hr_Method r'" "hr_RequestURI r = hr_RequestURI r'"
      "trim_space (hr_Header r platformPrincipalHeader) = trim_space (hr_Header r' platformPrincipalHeader)"
      "trim_space (hr_Header r platformPrincipalTimestampHeader) =
        trim_space (hr_Header r' platformPrincipalTimestampHeader)"
      "trim_space (hr_Header r platformPrincipalNonceHeader) = trim_space (hr_Header r' platformPrincipalNonceHeader)"
      "hex_encode (sha256 E (hr_Body r)) = hex_encode (sha256 E (hr_Body r'))"
    by simp_all
  have body: "hr_Body r = hr_Body r'" using inj_onD [OF assms(6) hex_encode_inj [OF same(6)]] by simp
  have "p = p'" using A A' unfolding same(3) by (simp add: platform_principal_def)
  moreover have "\<exists>t. parse_rfc3339 E (trim_space (hr_Header r platformPrincipalTimestampHeader)) = Some t \<and>
      \<bar>v - t\<bar> \<le> platformPrincipalSignatureSkew \<and> \<bar>v' - t\<bar> \<le> platformPrincipalSignatureSkew"
    using A A' unfolding same(4) by (elim conjE exE) (auto simp del: abs_le_iff)
  ultimately show ?thesis using same(1-5) body by simp
qed

lemma held_denied:
  assumes C: "ac_Mode C = AuthPlatform" "ac_HMACSecret C \<noteq> []"
    and "cache_ok c" and "(k, n, e) \<in> records (rc_entries c)"
    and "j < length reqs" and "reqs ! j = (r, now, v, slot)"
    and "\<And>h. read_signed_headers E r now = Some h \<Longrightarrow> sha256 E (sh_principal h) = k \<and> sh_nonceBytes h = n"
    and "\<And>i r' now' v' slot'. i \<le> j \<Longrightarrow> reqs ! i = (r', now', v', slot') \<Longrightarrow> v' < e"
  shows "\<exists>status code. auth_all C E reqs c ! j = Denied status code"
  using assms(3-8)
proof (induction reqs arbitrary: c j)
  case (Cons q reqs)
  obtain r' now' v' slot' where q: "q = (r', now', v', slot')" by (cases q)
  obtain res c' where R: "requireAuth C E r' now' v' slot' c = (res, c')" by fastforce
  have v': "v' < e" using Cons.prems(6) [of 0] by (simp add: q)
  have keep: "cache_ok c'" "(k, n, e) \<in> records (rc_entries c')"
    using requireAuth_cache [of C E r' now' v' slot' c] Cons.prems(1,2) v'
      replay.good_step replay.held_stays by (auto simp: R)
  show ?case
  proof (cases j)
    case 0
    then have same: "r = r'" "now = now'" "v = v'" "slot = slot'" using Cons.prems(4) by (simp_all add: q)
    show ?thesis
    proof (cases "read_signed_headers E r now")
      case None
      then show ?thesis using C by (auto simp: 0 q same requireAuth_def signed_platform_def unauthorized_def
          split: prod.splits)
    next
      case (Some h)
      have "fst (admit_key (sha256 E (sh_principal h)) (sh_nonceBytes h) e' v c) = ReplayDuplicate" for e'
        using replay.held_duplicate [OF Cons.prems(1,2)] Cons.prems(5) [OF Some] v' same by simp
      then have "\<exists>status code. fst (requireAuth C E r now v slot' c) = Denied status code"
        unfolding same by (rule signed_duplicate [OF C Some [unfolded same]])
      then show ?thesis using R by (simp add: 0 q same)
    qed
  next
    case (Suc m)
    have "\<exists>status code. auth_all C E reqs c' ! m = Denied status code"
    proof (rule Cons.IH [OF keep])
      show "m < length reqs" "reqs ! m = (r, now, v, slot)" using Cons.prems(3,4) Suc by simp_all
      show "v'' < e" if "i \<le> m" "reqs ! i = (r'', now'', v'', slot'')" for i r'' now'' v'' slot''
        using Cons.prems(6) [of "Suc i"] that Suc by simp
    qed (rule Cons.prems(5))
    then show ?thesis by (simp add: q R Suc)
  qed
qed simp

lemma later_denied:
  assumes C: "ac_Mode C = AuthPlatform" "ac_HMACSecret C \<noteq> []"
    and same: "trim_space (hr_Header r platformPrincipalHeader) = trim_space (hr_Header r' platformPrincipalHeader)"
      "trim_space (hr_Header r platformPrincipalNonceHeader) = trim_space (hr_Header r' platformPrincipalNonceHeader)"
    and t: "parse_rfc3339 E (trim_space (hr_Header r platformPrincipalTimestampHeader)) = Some t"
    and "cache_ok c" and "i < j" and "j < length reqs"
    and "reqs ! i = (r, now, v, slot)" and "reqs ! j = (r', now', v', slot')"
    and "auth_all C E reqs c ! i = Authed p"
    and "\<And>m q n w b. i < m \<Longrightarrow> m \<le> j \<Longrightarrow> reqs ! m = (q, n, w, b) \<Longrightarrow> w < t + platformPrincipalSignatureSkew"
  shows "\<exists>status code. auth_all C E reqs c ! j = Denied status code"
  using assms(6-)
proof (induction reqs arbitrary: c i j)
  case (Cons x reqs)
  obtain q n w b where x: "x = (q, n, w, b)" by (cases x)
  obtain res c' where R: "requireAuth C E q n w b c = (res, c')" by fastforce
  obtain j' where j: "j = Suc j'" using Cons.prems(2) by (cases j) simp_all
  have ok: "cache_ok c'"
    using requireAuth_cache [of C E q n w b c] Cons.prems(1) replay.good_step by (auto simp: R)
  have at_j: "j' < length reqs" "reqs ! j' = (r', now', v', slot')" using Cons.prems(3,5) j by simp_all
  have "\<exists>status code. auth_all C E reqs c' ! j' = Denied status code"
  proof (cases i)
    case 0
    then have "requireAuth C E r now v slot c = (Authed p, c')" using Cons.prems(4,6) R by (simp add: x)
    from signed_accepted [OF C this] obtain h where h: "read_signed_headers E r now = Some h"
        "admit_key (sha256 E (sh_principal h)) (sh_nonceBytes h) (sh_time h + platformPrincipalSignatureSkew) v c =
          (ReplayAccepted, c')"
      by blast
    note S = signed_headers_of [OF h(1)]
    have time: "sh_time h = t" using S(2,6) t by simp
    have held: "(sha256 E (sh_principal h), sh_nonceBytes h, t + platformPrincipalSignatureSkew) \<in>
        records (rc_entries c')"
      using replay.accepted_held [OF Cons.prems(1), of "sha256 E (sh_principal h)" "sh_nonceBytes h"
          "sh_time h + platformPrincipalSignatureSkew" v] h(2) time by simp
    show ?thesis
    proof (rule held_denied [OF C ok held at_j])
      fix h'
      assume "read_signed_headers E r' now' = Some h'"
      note S' = signed_headers_of [OF this]
      show "sha256 E (sh_principal h') = sha256 E (sh_principal h) \<and> sh_nonceBytes h' = sh_nonceBytes h"
        using S(1,3,7) S'(1,3,7) same by simp
    next
      show "w' < t + platformPrincipalSignatureSkew"
        if "m \<le> j'" "reqs ! m = (q', n', w', b')" for m q' n' w' b'
        using Cons.prems(7) [of "Suc m"] that 0 j by simp
    qed
  next
    case (Suc i')
    show ?thesis
    proof (rule Cons.IH [OF ok _ at_j(1) _ at_j(2)])
      show "i' < j'" "reqs ! i' = (r, now, v, slot)" "auth_all C E reqs c' ! i' = Authed p"
        using Cons.prems(2,4,6) Suc j R by (simp_all add: x)
      show "w' < t + platformPrincipalSignatureSkew"
        if "i' < m" "m \<le> j'" "reqs ! m = (q', n', w', b')" for m q' n' w' b'
        using Cons.prems(7) [of "Suc m"] that Suc j by simp
    qed
  qed
  then show ?case by (simp add: x R j)
qed simp

text \<open>
  C20. A signed request is not accepted twice while it is valid. In any run of requests, when one was
  accepted, a later one with the same principal and nonce is denied, as long as no
  request since was verified at or after the expiry of the first, five minutes after its timestamp.
\<close>

theorem signed_replay_denied:
  assumes "ac_Mode C = AuthPlatform" and "ac_HMACSecret C \<noteq> []"
    and "i < j" and "j < length reqs" and "reqs ! i = (r, now, v, slot)" and "reqs ! j = (r', now', v', slot')"
    and "trim_space (hr_Header r platformPrincipalHeader) = trim_space (hr_Header r' platformPrincipalHeader)"
    and "trim_space (hr_Header r platformPrincipalNonceHeader) = trim_space (hr_Header r' platformPrincipalNonceHeader)"
    and "parse_rfc3339 E (trim_space (hr_Header r platformPrincipalTimestampHeader)) = Some t"
    and "auth_all C E reqs newPlatformReplayCache ! i = Authed p"
    and "\<And>m q n w b. i < m \<Longrightarrow> m \<le> j \<Longrightarrow> reqs ! m = (q, n, w, b) \<Longrightarrow> w < t + platformPrincipalSignatureSkew"
  shows "\<exists>status code. auth_all C E reqs newPlatformReplayCache ! j = Denied status code"
  using assms(3-6,10,11) by (intro later_denied [OF assms(1,2,7,8,9) new_cache_ok])

section \<open>Examples\<close>

definition demo_auth :: auth_config where
  "demo_auth = \<lparr>ac_Mode = AuthPlatform, ac_BearerToken = [], ac_HMACSecret = ''k'', ac_TrustedPlatformHeaders = False,
     ac_TrustedPlatformHeaderCIDRs = [], ac_Dev = False\<rparr>"

definition demo_env :: auth_env where
  "demo_env = \<lparr>sha256 = (\<lambda>s. s), hmac = (\<lambda>k m. replicate 32 (CHR 0x11)), parse_rfc3339 = (\<lambda>s. Some 1000),
     split_host_port = (\<lambda>s. None), parse_ip = (\<lambda>s. None), parse_cidr = (\<lambda>s. None)\<rparr>"

definition demo_request :: http_request where
  "demo_request = \<lparr>hr_Method = ''POST'', hr_RequestURI = ''/execute'',
     hr_Header = (\<lambda>h. if h = platformPrincipalHeader then ''p''
        else if h = platformPrincipalSignatureHeader then ''v4='' @ replicate 64 (CHR ''1'')
        else if h = platformPrincipalTimestampHeader then ''t''
        else if h = platformPrincipalNonceHeader then replicate 32 (CHR ''2'')
        else []),
     hr_RemoteAddr = ''h'', hr_ContentLength = 2, hr_Body = ''{}'', hr_BodyError = None\<rparr>"

lemma demo_header_trim:
  "trim_space ''p'' = ''p''" "trim_space ''t'' = ''t''"
  "trim_space (''v4='' @ replicate 64 (CHR ''1'')) = ''v4='' @ replicate 64 (CHR ''1'')"
  "trim_space (replicate 32 (CHR ''2'')) = replicate 32 (CHR ''2'')"
  by (rule trim_space_visible; simp)+

lemma demo_lower: "to_lower (replicate n (CHR ''1'')) = replicate n (CHR ''1'')"
    "to_lower (replicate n (CHR ''2'')) = replicate n (CHR ''2'')"
  by (subst to_lower_ascii; simp add: list_all_iff lower_rune_def char_of_eq_iff)+

lemma replicate_hex: "hex_decode (replicate (2 * n) c) =
    (case hex_value c of None \<Rightarrow> if n = 0 then Some [] else None | Some h \<Rightarrow> Some (replicate n (17 * h)))"
  by (induction n) (auto split: option.splits)

lemma demo_hex: "hex_decode (replicate 64 (CHR ''1'')) = Some (replicate 32 17)"
    "hex_decode (replicate 32 (CHR ''2'')) = Some (replicate 16 34)"
  using replicate_hex [of 32 "CHR ''1''"] replicate_hex [of 16 "CHR ''2''"] by (simp_all add: hex_value_def)

lemma demo_mac: "hex_encode (replicate n (CHR 0x11)) = replicate (2 * n) (CHR ''1'')"
  by (induction n) (simp_all add: hex_encode_def hex_char_def char_of_eq_iff)

lemma demo_headers:
  "read_signed_headers demo_env demo_request now =
     (if \<bar>now - 1000\<bar> \<le> platformPrincipalSignatureSkew
      then Some \<lparr>sh_principal = ''p'', sh_timestamp = ''t'', sh_time = 1000, sh_nonce = replicate 32 (CHR ''2''),
        sh_nonceBytes = replicate 16 34, sh_signature = ''v4='' @ replicate 64 (CHR ''1'')\<rparr>
      else None)"
  by (auto simp: read_signed_headers_def Let_def demo_request_def demo_env_def platformPrincipalHeader_def
      platformPrincipalSignatureHeader_def platformPrincipalTimestampHeader_def platformPrincipalNonceHeader_def
      demo_header_trim [simplified] demo_lower demo_hex)

lemma demo_verify:
  assumes "\<bar>v - 1000\<bar> \<le> platformPrincipalSignatureSkew"
  shows "verifyPlatformPrincipalSignature demo_env k verb uri ''p'' ''t'' nonce
    (''v4='' @ replicate 64 (CHR ''1'')) bodyHash v"
  unfolding verifyPlatformPrincipalSignature_def Let_def demo_header_trim
  using assms by (simp add: demo_env_def demo_lower demo_mac constantTimeEqual_def abs_le_iff)

lemma demo_body: "hashAndRestoreRequestBody demo_env demo_request = Inr (hex_encode ''{}'')"
  by (simp add: hashAndRestoreRequestBody_def demo_request_def demo_env_def maxJSONBodyBytes_def)

abbreviation demo_nonce :: nonce where
  "demo_nonce \<equiv> replicate 16 34"

abbreviation demo_expiry :: int where
  "demo_expiry \<equiv> 1000 + platformPrincipalSignatureSkew"

lemma demo_step:
  assumes "\<bar>now - 1000\<bar> \<le> platformPrincipalSignatureSkew" and "\<bar>v - 1000\<bar> \<le> platformPrincipalSignatureSkew"
    and "admit_key ''p'' demo_nonce demo_expiry v c = (ReplayAccepted, c')"
  shows "requireAuth demo_auth demo_env demo_request now v True c =
    (Authed (platform_principal demo_env demo_request ''p''), c')"
proof -
  have config: "ac_Mode demo_auth = AuthPlatform" "ac_HMACSecret demo_auth = ''k''"
      "\<not> ac_TrustedPlatformHeaders demo_auth"
    by (simp_all add: demo_auth_def)
  have "signed_platform demo_auth demo_env demo_request now v True c = (Inr ''p'', c')"
    using assms demo_verify [OF assms(2)] config(3)
    by (simp add: signed_platform_def demo_headers demo_body admit_def) (simp add: demo_env_def)
  then show ?thesis by (simp add: requireAuth_def config)
qed

definition demo_cache :: "string replay_cache" where
  "demo_cache = \<lparr>rc_entries = [(''p'', [(demo_nonce, demo_expiry)])], rc_total = 1\<rparr>"

lemmas admit_eval = admit_key_def Let_def clean_bucket_def bucket_at_def no_room_def unexpired_def
  maxPlatformReplayEntries_def maxPlatformReplayPrincipals_def maxPlatformReplayEntriesPrincipal_def

lemma demo_first: "admit_key ''p'' demo_nonce demo_expiry v newPlatformReplayCache = (ReplayAccepted, demo_cache)"
  by (simp add: admit_eval newPlatformReplayCache_def demo_cache_def)

lemma demo_again: "admit_key ''p'' demo_nonce demo_expiry demo_expiry demo_cache = (ReplayAccepted, demo_cache)"
  by (simp add: admit_eval demo_cache_def)

text \<open>
  The expiry itself is in the time for which the signature verifies, and at that instant the
  cache has forgotten the nonce: the same request is accepted a second time.
\<close>

lemma replay_at_expiry_accepted:
  "\<exists>p. auth_all demo_auth demo_env
     [(demo_request, 1000, 1000, True), (demo_request, 1000, demo_expiry, True)] newPlatformReplayCache =
     [Authed p, Authed p]"
proof -
  have skew: "0 \<le> platformPrincipalSignatureSkew" by (simp add: platformPrincipalSignatureSkew_def)
  show ?thesis
    using demo_step [of 1000 1000, OF _ _ demo_first] demo_step [of 1000 demo_expiry, OF _ _ demo_again] skew by simp
qed

theorem bearer_auth_exact_witness:
  "\<not> (\<exists>p. fst (requireAuth (demo_auth\<lparr>ac_Mode := AuthBearer, ac_BearerToken := ''s''\<rparr>) demo_env demo_request 0 0 True
     newPlatformReplayCache) = Authed p)"
  by (subst bearer_auth_exact)
    (simp_all add: demo_env_def demo_request_def platformPrincipalHeader_def platformPrincipalSignatureHeader_def
      platformPrincipalTimestampHeader_def platformPrincipalNonceHeader_def)

theorem platform_signature_binds_witness:
  "\<exists>t. parse_rfc3339 demo_env (trim_space (hr_Header demo_request platformPrincipalTimestampHeader)) = Some t \<and>
     \<bar>1000 - t\<bar> \<le> platformPrincipalSignatureSkew \<and> \<bar>1001 - t\<bar> \<le> platformPrincipalSignatureSkew"
proof -
  have skew: "1 \<le> platformPrincipalSignatureSkew" by (simp add: platformPrincipalSignatureSkew_def)
  have A: "requireAuth demo_auth demo_env demo_request 1000 v True newPlatformReplayCache =
      (Authed (platform_principal demo_env demo_request ''p''), demo_cache)" if "v = 1000 \<or> v = 1001" for v
    using skew that by (intro demo_step demo_first) auto
  have "hr_Method demo_request = hr_Method demo_request \<and> hr_RequestURI demo_request = hr_RequestURI demo_request \<and>
    hr_Body demo_request = hr_Body demo_request \<and>
    platform_principal demo_env demo_request ''p'' = platform_principal demo_env demo_request ''p'' \<and>
    (\<forall>h \<in> {platformPrincipalHeader, platformPrincipalTimestampHeader, platformPrincipalNonceHeader}.
       trim_space (hr_Header demo_request h) = trim_space (hr_Header demo_request h)) \<and>
    (\<exists>t. parse_rfc3339 demo_env (trim_space (hr_Header demo_request platformPrincipalTimestampHeader)) = Some t \<and>
     \<bar>1000 - t\<bar> \<le> platformPrincipalSignatureSkew \<and> \<bar>1001 - t\<bar> \<le> platformPrincipalSignatureSkew)"
  proof (rule platform_signature_binds [OF _ _ A A])
    show "plain_request demo_request" "plain_request demo_request"
      by (simp_all add: plain_request_def demo_request_def platformPrincipalHeader_def
          platformPrincipalSignatureHeader_def platformPrincipalTimestampHeader_def platformPrincipalNonceHeader_def)
  qed (simp_all add: demo_auth_def demo_env_def)
  then show ?thesis by blast
qed

theorem signed_replay_denied_witness:
  "\<exists>status code. auth_all demo_auth demo_env
     [(demo_request, 1000, 1000, True), (demo_request, 1000, 1001, True)] newPlatformReplayCache ! 1 = Denied status code"
proof (rule signed_replay_denied [where i = 0 and t = 1000])
  show "auth_all demo_auth demo_env [(demo_request, 1000, 1000, True), (demo_request, 1000, 1001, True)]
      newPlatformReplayCache ! 0 = Authed (platform_principal demo_env demo_request ''p'')"
    using demo_step [of 1000 1000, OF _ _ demo_first] by (simp add: platformPrincipalSignatureSkew_def split: prod.splits)
qed (auto simp: demo_auth_def demo_env_def platformPrincipalSignatureSkew_def less_Suc_eq nth_Cons')

end
