(* ===== verification/Config.thy ===== *)
theory Config
  imports Platform Runtime_Tuning Mount Policies Paths Auth
begin

text \<open>
  internal/config/config.go: \<open>Load\<close>, the configuration of a process from its environment, one
  definition per part of the function. What it asks of the host (processors, user, the file system of
  the work root, cgroups, reserved identities) and of parsers of the standard library (JSON, URLs,
  networks) is a parameter; Go maps are association lists.
\<close>

section \<open>The host and the parsers\<close>

record parsed_remote =
  pr_IsAbs :: bool
  pr_Host :: string
  pr_Scheme :: string
  pr_HasUser :: bool
  pr_RawQuery :: string
  pr_Fragment :: string

text \<open>
  What the host says of the work root, \<open>None\<close> where a call fails: the status of the directory, whether a
  directory can be made in it, its path without symbolic links, the lines of the mount table and the statistics
  of its file system (block size, blocks, inodes).
\<close>

record work_root_info =
  wi_IsDir :: bool
  wi_Perm :: nat
  wi_Uid :: "int option"
  wi_Writable :: bool
  wi_Resolved :: "string option"
  wi_MountLines :: "string list option"
  wi_Statfs :: "(int \<times> nat \<times> nat) option"

record host =
  ho_Env :: "string \<Rightarrow> string"
  ho_NumCPU :: int
  ho_GOMAXPROCS :: int
  ho_Geteuid :: int
  ho_LinuxAmd64 :: bool
  ho_ParseCIDR :: "string \<Rightarrow> string option"
  ho_ParseURL :: "string \<Rightarrow> parsed_remote option"
  ho_JSONTuning :: "string \<Rightarrow> (string \<times> (string \<times> int) list) list option"
  ho_JSONStrings :: "string \<Rightarrow> (string \<times> string) list option"
  ho_CgroupParentValid :: "string \<Rightarrow> bool"
  ho_WorkRoot :: "string \<Rightarrow> work_root_info option"
  ho_IdentityReserved :: bool

section \<open>The configuration\<close>

datatype RemoteAuthMode = RemoteAuthNone | RemoteAuthBearer | RemoteAuthCloudRunIDToken | RemoteAuthOther string

record RemoteExecutorConfig =
  re_URL :: string
  re_Auth :: RemoteAuthMode
  re_BearerToken :: string
  re_Audience :: string
  re_SSEIdleTimeout :: int
  re_StrictProtocol :: bool

record CPUNormalizationConfig =
  cn_Enabled :: bool
  cn_ReferenceTimeNs :: int
  cn_ShortCaseSampling :: bool

record InboundAuthConfig =
  ia_Mode :: auth_mode
  ia_BearerToken :: string
  ia_PlatformPrincipalHMACSecret :: string

record limits_config =
  lc_MaxActiveRuns :: int
  lc_MaxPendingQueue :: int
  lc_MaxActiveStreams :: int
  lc_MaxActiveUploads :: int
  lc_MaxPrincipalUploads :: int
  lc_MaxRetainedRequestBytes :: int
  lc_PlatformBodyHashConcurrency :: int
  lc_MaxPrincipalStreams :: int
  lc_MaxPrincipalRequestsPerMinute :: int

record timing_config =
  tc_HeartbeatSec :: int
  tc_BodyReadTimeoutSec :: int
  tc_RemoteSSEIdleTimeoutSec :: int
  tc_RemoteStrictProtocol :: bool
  tc_CPUNormalizationEnabled :: bool
  tc_ShortCaseSampling :: bool
  tc_CPUNormalizationReferenceMs :: int

record communication_config =
  cc_Enabled :: bool
  cc_MaxParticipants :: int
  cc_MemoryBudgetMB :: int
  cc_CPUCount :: int
  cc_WallBudgetMs :: int

record policy_config =
  pc_AllowRequestNetwork :: bool
  pc_NetworkEgressIsolated :: bool
  pc_AllowRequestRuntimeProfile :: bool
  pc_DefaultGoModuleMode :: string
  pc_AllowRequestGoInstalledModules :: bool
  pc_DefaultPythonLibraryMode :: string
  pc_AllowRequestPythonInstalledLibraries :: bool
  pc_DefaultRustCrateMode :: string
  pc_AllowRequestRustInstalledCrates :: bool

record ingress_config =
  ic_RequireWorkRootTmpfs :: bool
  ic_WorkRootMaxBytes :: int
  ic_WorkRootMaxFiles :: int
  ic_TrustedRunnerIngress :: bool
  ic_TrustedPlatformHeaders :: bool
  ic_TrustedPlatformHeaderCIDRs :: "string list"

text \<open>\<open>Config\<close>, with the fields that belong together in one record each.\<close>

record Config =
  cf_Port :: string
  cf_Platform :: RuntimeOptions
  cf_Limits :: limits_config
  cf_Times :: timing_config
  cf_CompetitiveRuntimeFingerprint :: string
  cf_Communication :: communication_config
  cf_Policy :: policy_config
  cf_Ingress :: ingress_config
  cf_RuntimeTuning :: RuntimeTuningConfig
  cf_RuntimeTuningProfiles :: "(string \<times> RuntimeTuningConfig) list"
  cf_ProblemRuntimeProfiles :: "(string \<times> string) list"
  cf_ProblemGoModuleModes :: "(string \<times> string) list"
  cf_ProblemPythonLibraryModes :: "(string \<times> string) list"
  cf_ProblemRustCrateModes :: "(string \<times> string) list"
  cf_Remote :: RemoteExecutorConfig
  cf_CPUNormalization :: CPUNormalizationConfig
  cf_CgroupParent :: string
  cf_InboundAuth :: InboundAuthConfig

datatype config_error =
    FingerprintInvalid
  | PlatformError platform_error
  | ParseError parse_error
  | OnlyDev string
  | CommunicationBudget string
  | CommunicationCPUs int int
  | NetworkPolicy
  | ModeInvalid string policy_error
  | BadCIDR string
  | NoCIDR
  | BadJSON string
  | EmptyMap string
  | EmptyName string
  | BadProfileName string policy_error
  | BadProfile profile_error
  | BadProblemID string policy_error
  | EmptyProfileFor string
  | UnknownProfileFor string string
  | MarkersWithoutCloudRun
  | NormalizationUnsupported
  | ContractError contract_error
  | ContractReserved
  | RemoteURL nat
  | RemoteAuth nat
  | InboundAuth nat
  | IngressUntrusted
  | CgroupParent nat
  | OneActiveRun
  | HostUnsupported
  | RootRequired
  | WorkRootPolicy nat
  | WorkRootInvalid nat
  | IdentityReservation

abbreviation parsed :: "parse_error + 'a \<Rightarrow> config_error + 'a" where
  "parsed r \<equiv> map_sum ParseError (\<lambda>x. x) r"

abbreviation is_dev :: "RuntimeOptions \<Rightarrow> bool" where
  "is_dev opts \<equiv> op_DeploymentTarget opts = TargetDev"

abbreviation embedded_helper :: "RuntimeOptions \<Rightarrow> bool" where
  "embedded_helper opts \<equiv> op_ExecutionTransport opts = TransportEmbedded \<and> op_SandboxBackend opts = BackendHelper"

definition getenv :: "(string \<Rightarrow> string) \<Rightarrow> string \<Rightarrow> string \<Rightarrow> string" where
  "getenv env key fallback = (if env key \<noteq> [] then env key else fallback)"

section \<open>Defaults\<close>

definition defaultUploadLimit :: "RuntimeOptions \<Rightarrow> int \<Rightarrow> int" where
  "defaultUploadLimit opts productionDefault = (if is_dev opts then 0 else productionDefault)"

definition defaultMaxActiveRuns :: "host \<Rightarrow> RuntimeOptions \<Rightarrow> int" where
  "defaultMaxActiveRuns H opts =
     (if embedded_helper opts then 1
      else if op_DeploymentTarget opts = TargetCloudRun then 1
      else if ho_NumCPU H \<le> 1 then 1
      else (let v = ho_NumCPU H - 2 in if v < 1 then 1 else v))"

definition defaultPlatformBodyHashConcurrency :: "int \<Rightarrow> int \<Rightarrow> int" where
  "defaultPlatformBodyHashConcurrency maxActiveStreams maxActiveRuns =
     (if maxActiveStreams > 0 then min 4 maxActiveStreams
      else if maxActiveRuns > 0 then min 4 maxActiveRuns else 4)"

definition defaultMaxPrincipalStreams :: "RuntimeOptions \<Rightarrow> int" where
  "defaultMaxPrincipalStreams opts = (if is_dev opts then 0 else 16)"

definition defaultMaxPrincipalRequestsPerMinute :: "RuntimeOptions \<Rightarrow> int" where
  "defaultMaxPrincipalRequestsPerMinute opts = (if is_dev opts then 0 else 60)"

definition defaultAllowRequestNetwork :: "RuntimeOptions \<Rightarrow> bool" where
  "defaultAllowRequestNetwork opts = is_dev opts"

definition defaultAllowRequestRuntimeProfile :: "RuntimeOptions \<Rightarrow> bool" where
  "defaultAllowRequestRuntimeProfile opts = is_dev opts"

definition defaultAllowRequestGoInstalledModules :: "RuntimeOptions \<Rightarrow> bool" where
  "defaultAllowRequestGoInstalledModules opts = is_dev opts"

definition defaultAllowRequestPythonLibraries :: "RuntimeOptions \<Rightarrow> bool" where
  "defaultAllowRequestPythonLibraries opts = is_dev opts"

definition defaultAllowRequestRustCrates :: "RuntimeOptions \<Rightarrow> bool" where
  "defaultAllowRequestRustCrates opts = is_dev opts"

definition defaultTrustedRunnerIngress :: "RuntimeOptions \<Rightarrow> bool" where
  "defaultTrustedRunnerIngress opts = (is_dev opts \<or> op_ExecutionTransport opts = TransportRemote)"

definition defaultTrustedPlatformHeaders :: "RuntimeOptions \<Rightarrow> bool" where
  "defaultTrustedPlatformHeaders opts = is_dev opts"

definition defaultRemoteStrictProtocol :: "RuntimeOptions \<Rightarrow> bool" where
  "defaultRemoteStrictProtocol opts = (\<not> is_dev opts)"

definition defaultCPUNormalization :: "RuntimeOptions \<Rightarrow> bool" where
  "defaultCPUNormalization opts = (op_DeploymentTarget opts = TargetCloudRun \<and> embedded_helper opts)"

section \<open>Checks\<close>

definition validateAuthoritativeWorkRootPolicy :: "bool \<Rightarrow> bool \<Rightarrow> bool \<Rightarrow> int \<Rightarrow> int \<Rightarrow> config_error option" where
  "validateAuthoritativeWorkRootPolicy required requireTmpfs cloudRunCommunication maxBytes maxFiles =
     (if \<not> required then None
      else if \<not> requireTmpfs then Some (WorkRootPolicy 0)
      else if maxBytes \<le> 0 \<or> maxBytes > 2 ^ 30 then Some (WorkRootPolicy 1)
      else
        (let maxAllowedFiles = (if cloudRunCommunication then 2 ^ 22 else 2 ^ 20) in
         if maxFiles \<le> 0 \<or> maxFiles > maxAllowedFiles then Some (WorkRootPolicy 2) else None))"

definition validateSelfHostedCgroupPolicy :: "bool \<Rightarrow> string \<Rightarrow> config_error option" where
  "validateSelfHostedCgroupPolicy required parentDir =
     reject_if (required \<and> trim_space parentDir = []) (CgroupParent 2)"

definition validateCommunicationIdentityPolicy :: "host \<Rightarrow> RuntimeOptions \<Rightarrow> string \<Rightarrow> bool \<Rightarrow> config_error option" where
  "validateCommunicationIdentityPolicy H opts cgroupParent cloudRunEnabled =
     reject_if (SupportsCommunicationV1 opts cgroupParent cloudRunEnabled \<and> \<not> ho_IdentityReserved H) IdentityReservation"

definition validateCommunicationMemoryBudget :: "RuntimeOptions \<Rightarrow> bool \<Rightarrow> int \<Rightarrow> config_error option" where
  "validateCommunicationMemoryBudget opts cloudRunEnabled budgetMB =
     reject_if (op_DeploymentTarget opts = TargetCloudRun \<and> cloudRunEnabled \<and> budgetMB \<le> 0)
       (CommunicationBudget ''AONOHAKO_COMMUNICATION_MEMORY_BUDGET_MB'')"

definition validateCommunicationCPUCount :: "RuntimeOptions \<Rightarrow> bool \<Rightarrow> int \<Rightarrow> int \<Rightarrow> config_error option" where
  "validateCommunicationCPUCount opts cloudRunEnabled configured observed =
     (if op_DeploymentTarget opts \<noteq> TargetCloudRun \<or> \<not> cloudRunEnabled then None
      else if configured \<le> 0 then Some (CommunicationBudget ''AONOHAKO_COMMUNICATION_CPU_COUNT'')
      else if observed \<noteq> configured then Some (CommunicationCPUs configured observed)
      else None)"

definition validateCommunicationWallBudget :: "RuntimeOptions \<Rightarrow> bool \<Rightarrow> int \<Rightarrow> config_error option" where
  "validateCommunicationWallBudget opts cloudRunEnabled budgetMs =
     reject_if (op_DeploymentTarget opts = TargetCloudRun \<and> cloudRunEnabled \<and> budgetMs \<le> 0)
       (CommunicationBudget ''AONOHAKO_COMMUNICATION_WALL_BUDGET_MS'')"

definition validateNetworkEgressPolicy :: "RuntimeOptions \<Rightarrow> bool \<Rightarrow> bool \<Rightarrow> config_error option" where
  "validateNetworkEgressPolicy opts allowRequestNetwork egressIsolated =
     (if \<not> allowRequestNetwork \<or> is_dev opts then None
      else if op_DeploymentTarget opts = TargetCloudRun \<and> embedded_helper opts then Some NetworkPolicy
      else if \<not> egressIsolated then Some NetworkPolicy
      else None)"

definition parseRemoteAuth :: "string \<Rightarrow> RemoteAuthMode" where
  "parseRemoteAuth raw =
     (let word = trim_space (to_lower raw) in
      if word = [] \<or> word = ''none'' then RemoteAuthNone
      else if word = ''bearer'' then RemoteAuthBearer
      else if word = ''cloudrun-idtoken'' then RemoteAuthCloudRunIDToken
      else RemoteAuthOther word)"

definition parseInboundAuth :: "string \<Rightarrow> RuntimeOptions \<Rightarrow> auth_mode" where
  "parseInboundAuth raw opts =
     (let word = trim_space (to_lower raw) in
      if word = [] then (if is_dev opts then AuthNone else AuthBearer)
      else if word = ''none'' then AuthNone
      else if word = ''bearer'' then AuthBearer
      else if word = ''platform'' then AuthPlatform
      else AuthOther)"

definition ValidImageDigest :: "string \<Rightarrow> bool" where
  "ValidImageDigest val \<longleftrightarrow>
     has_prefix val ''sha256:'' \<and> length val = 71 \<and>
     list_all (\<lambda>(r, w). 48 \<le> r \<and> r \<le> 57 \<or> 97 \<le> r \<and> r \<le> 102) (runes (drop 7 val))"

section \<open>\<open>Load\<close>, part by part\<close>

definition load_limits :: "host \<Rightarrow> RuntimeOptions \<Rightarrow> config_error + limits_config" where
  "load_limits H P =
     (let env = ho_Env H;
          nonNegative = (\<lambda>key fallback. parsed (parseNonNegativeIntEnv key (env key) fallback)) in
      and_then (parsed (parsePositiveIntEnv ''AONOHAKO_MAX_ACTIVE_RUNS'' (env ''AONOHAKO_MAX_ACTIVE_RUNS'')
          (defaultMaxActiveRuns H P))) (\<lambda>maxActive.
      and_then (nonNegative ''AONOHAKO_MAX_PENDING_QUEUE'' 16) (\<lambda>maxPending.
      and_then (nonNegative ''AONOHAKO_MAX_ACTIVE_STREAMS'' 64) (\<lambda>maxActiveStreams.
      and_then (nonNegative ''AONOHAKO_MAX_ACTIVE_UPLOADS'' (defaultUploadLimit P 4)) (\<lambda>maxActiveUploads.
      and_then (nonNegative ''AONOHAKO_MAX_PRINCIPAL_ACTIVE_UPLOADS'' (defaultUploadLimit P 2)) (\<lambda>maxPrincipalUploads.
      and_then (parsed (parsePositiveIntEnv ''AONOHAKO_MAX_RETAINED_REQUEST_BYTES''
          (env ''AONOHAKO_MAX_RETAINED_REQUEST_BYTES'') (256 * 2 ^ 20))) (\<lambda>maxRetainedRequestBytes.
      and_then (parsed (parseBoundedIntEnv ''AONOHAKO_PLATFORM_BODY_HASH_CONCURRENCY''
          (env ''AONOHAKO_PLATFORM_BODY_HASH_CONCURRENCY'')
          (defaultPlatformBodyHashConcurrency maxActiveStreams maxActive) 1 64)) (\<lambda>bodyHash.
      and_then (nonNegative ''AONOHAKO_MAX_PRINCIPAL_ACTIVE_STREAMS'' (defaultMaxPrincipalStreams P)) (\<lambda>maxPrincipalStreams.
      and_then (nonNegative ''AONOHAKO_MAX_PRINCIPAL_REQUESTS_PER_MINUTE''
          (defaultMaxPrincipalRequestsPerMinute P)) (\<lambda>maxRequests.
      checked (if is_dev P then None else first_error
        [reject_if (maxPending = 0) (OnlyDev ''AONOHAKO_MAX_PENDING_QUEUE=0''),
         reject_if (maxActiveStreams = 0) (OnlyDev ''AONOHAKO_MAX_ACTIVE_STREAMS=0''),
         reject_if (maxActiveUploads = 0) (OnlyDev ''AONOHAKO_MAX_ACTIVE_UPLOADS=0''),
         reject_if (maxPrincipalUploads = 0) (OnlyDev ''AONOHAKO_MAX_PRINCIPAL_ACTIVE_UPLOADS=0''),
         reject_if (maxPrincipalStreams = 0) (OnlyDev ''AONOHAKO_MAX_PRINCIPAL_ACTIVE_STREAMS=0'')])
      (Inr \<lparr>lc_MaxActiveRuns = maxActive, lc_MaxPendingQueue = maxPending, lc_MaxActiveStreams = maxActiveStreams,
            lc_MaxActiveUploads = maxActiveUploads, lc_MaxPrincipalUploads = maxPrincipalUploads,
            lc_MaxRetainedRequestBytes = maxRetainedRequestBytes, lc_PlatformBodyHashConcurrency = bodyHash,
            lc_MaxPrincipalStreams = maxPrincipalStreams, lc_MaxPrincipalRequestsPerMinute = maxRequests\<rparr>)))))))))))"

text \<open>Seconds of a duration of 64 bits.\<close>

definition maxDurationSeconds :: int where
  "maxDurationSeconds = (2 ^ 63 - 1) div 1000000000"

definition load_times :: "host \<Rightarrow> RuntimeOptions \<Rightarrow> config_error + timing_config" where
  "load_times H P =
     (let env = ho_Env H;
          bounded = (\<lambda>key fallback lo hi. parsed (parseBoundedIntEnv key (env key) fallback lo hi));
          boolean = (\<lambda>key fallback. parsed (parseBoolEnv key (env key) fallback)) in
      and_then (bounded ''AONOHAKO_HEARTBEAT_INTERVAL_SEC'' 10 1 maxDurationSeconds) (\<lambda>heartbeatSec.
      and_then (bounded ''AONOHAKO_BODY_READ_TIMEOUT_SEC'' 30 1 maxDurationSeconds) (\<lambda>bodyReadTimeoutSec.
      and_then (bounded ''AONOHAKO_REMOTE_SSE_IDLE_TIMEOUT_SEC'' 30 1 maxDurationSeconds) (\<lambda>remoteSSEIdleTimeoutSec.
      and_then (boolean ''AONOHAKO_REMOTE_STRICT_PROTOCOL'' (defaultRemoteStrictProtocol P)) (\<lambda>remoteStrictProtocol.
      and_then (boolean ''AONOHAKO_CPU_NORMALIZATION'' (defaultCPUNormalization P)) (\<lambda>cpuNormalizationEnabled.
      and_then (boolean ''AONOHAKO_CPU_SHORT_CASE_SAMPLING'' cpuNormalizationEnabled) (\<lambda>shortCaseSampling.
      and_then (bounded ''AONOHAKO_CPU_NORMALIZATION_REFERENCE_MS'' 60 1 5000) (\<lambda>referenceMs.
      Inr \<lparr>tc_HeartbeatSec = heartbeatSec, tc_BodyReadTimeoutSec = bodyReadTimeoutSec,
           tc_RemoteSSEIdleTimeoutSec = remoteSSEIdleTimeoutSec, tc_RemoteStrictProtocol = remoteStrictProtocol,
           tc_CPUNormalizationEnabled = cpuNormalizationEnabled, tc_ShortCaseSampling = shortCaseSampling,
           tc_CPUNormalizationReferenceMs = referenceMs\<rparr>))))))))"

definition load_communication :: "host \<Rightarrow> RuntimeOptions \<Rightarrow> config_error + communication_config" where
  "load_communication H P =
     (let env = ho_Env H in
      and_then (parsed (parseBoolEnv ''AONOHAKO_COMMUNICATION_ENABLED'' (env ''AONOHAKO_COMMUNICATION_ENABLED'') False))
        (\<lambda>enabled.
      and_then (parsed (parseBoundedIntEnv ''AONOHAKO_COMMUNICATION_MAX_PARTICIPANTS''
          (env ''AONOHAKO_COMMUNICATION_MAX_PARTICIPANTS'') 64 2 64)) (\<lambda>maxParticipants.
      and_then (parsed (parseNonNegativeIntEnv ''AONOHAKO_COMMUNICATION_MEMORY_BUDGET_MB''
          (env ''AONOHAKO_COMMUNICATION_MEMORY_BUDGET_MB'') 0)) (\<lambda>memoryMB.
      checked (validateCommunicationMemoryBudget P enabled memoryMB)
      (and_then (parsed (parseNonNegativeIntEnv ''AONOHAKO_COMMUNICATION_CPU_COUNT''
          (env ''AONOHAKO_COMMUNICATION_CPU_COUNT'') 0)) (\<lambda>cpuCount.
      checked (validateCommunicationCPUCount P enabled cpuCount (ho_GOMAXPROCS H))
      (and_then (parsed (parseNonNegativeIntEnv ''AONOHAKO_COMMUNICATION_WALL_BUDGET_MS''
          (env ''AONOHAKO_COMMUNICATION_WALL_BUDGET_MS'') 0)) (\<lambda>wallMs.
      checked (validateCommunicationWallBudget P enabled wallMs)
      (Inr \<lparr>cc_Enabled = enabled, cc_MaxParticipants = maxParticipants, cc_MemoryBudgetMB = memoryMB,
            cc_CPUCount = cpuCount, cc_WallBudgetMs = wallMs\<rparr>)))))))))"

definition mode_parsed :: "string \<Rightarrow> policy_error + string \<Rightarrow> config_error + string" where
  "mode_parsed key r = map_sum (ModeInvalid key) (\<lambda>m. m) r"

definition load_policies :: "host \<Rightarrow> RuntimeOptions \<Rightarrow> config_error + policy_config" where
  "load_policies H P =
     (let env = ho_Env H; boolean = (\<lambda>key fallback. parsed (parseBoolEnv key (env key) fallback)) in
      and_then (boolean ''AONOHAKO_ALLOW_REQUEST_NETWORK'' (defaultAllowRequestNetwork P)) (\<lambda>allowNetwork.
      and_then (boolean ''AONOHAKO_NETWORK_EGRESS_ISOLATED'' False) (\<lambda>egressIsolated.
      checked (validateNetworkEgressPolicy P allowNetwork egressIsolated)
      (and_then (boolean ''AONOHAKO_ALLOW_REQUEST_RUNTIME_PROFILE'' (defaultAllowRequestRuntimeProfile P)) (\<lambda>allowProfile.
      and_then (mode_parsed ''AONOHAKO_DEFAULT_GO_MODULE_MODE''
          (ParseMode (getenv env ''AONOHAKO_DEFAULT_GO_MODULE_MODE'' ModeStdlib))) (\<lambda>goMode.
      and_then (boolean ''AONOHAKO_ALLOW_REQUEST_GO_INSTALLED_MODULES'' (defaultAllowRequestGoInstalledModules P)) (\<lambda>allowGo.
      and_then (mode_parsed ''AONOHAKO_DEFAULT_PYTHON_LIBRARY_MODE''
          (ParseLibraryMode (getenv env ''AONOHAKO_DEFAULT_PYTHON_LIBRARY_MODE'' ModeStdlib))) (\<lambda>pythonMode.
      and_then (boolean ''AONOHAKO_ALLOW_REQUEST_PYTHON_INSTALLED_LIBRARIES''
          (defaultAllowRequestPythonLibraries P)) (\<lambda>allowPython.
      and_then (mode_parsed ''AONOHAKO_DEFAULT_RUST_CRATE_MODE''
          (ParseCrateMode (getenv env ''AONOHAKO_DEFAULT_RUST_CRATE_MODE'' ModeStdlib))) (\<lambda>rustMode.
      and_then (boolean ''AONOHAKO_ALLOW_REQUEST_RUST_INSTALLED_CRATES'' (defaultAllowRequestRustCrates P)) (\<lambda>allowRust.
      Inr \<lparr>pc_AllowRequestNetwork = allowNetwork, pc_NetworkEgressIsolated = egressIsolated,
           pc_AllowRequestRuntimeProfile = allowProfile,
           pc_DefaultGoModuleMode = goMode, pc_AllowRequestGoInstalledModules = allowGo,
           pc_DefaultPythonLibraryMode = pythonMode, pc_AllowRequestPythonInstalledLibraries = allowPython,
           pc_DefaultRustCrateMode = rustMode, pc_AllowRequestRustInstalledCrates = allowRust\<rparr>)))))))))))"

text \<open>The networks of trusted proxies.\<close>

definition cidr_step :: "host \<Rightarrow> nat \<Rightarrow> string \<Rightarrow> string list \<Rightarrow> config_error + string list" where
  "cidr_step H i rawCIDR acc =
     (let cidr = trim_space rawCIDR in
      if cidr = [] then Inr acc
      else (case ho_ParseCIDR H cidr of None \<Rightarrow> Inl (BadCIDR cidr) | Some net \<Rightarrow> Inr (acc @ [net])))"

definition load_cidrs :: "host \<Rightarrow> config_error + string list" where
  "load_cidrs H =
     (let rawCIDRs = trim_space (ho_Env H ''AONOHAKO_PLATFORM_TRUSTED_PROXY_CIDRS'') in
      if rawCIDRs = [] then Inr []
      else and_then (loop_err (cidr_step H) 0 (split_on (CHR '','') rawCIDRs) []) (\<lambda>nets.
        if nets = [] then Inl NoCIDR else Inr nets))"

definition load_ingress :: "host \<Rightarrow> RuntimeOptions \<Rightarrow> config_error + ingress_config" where
  "load_ingress H P =
     (let env = ho_Env H;
          nonNegative = (\<lambda>key. parsed (parseNonNegativeIntEnv key (env key) 0));
          boolean = (\<lambda>key fallback. parsed (parseBoolEnv key (env key) fallback)) in
      and_then (boolean ''AONOHAKO_REQUIRE_WORK_ROOT_TMPFS'' False) (\<lambda>tmpfs.
      and_then (nonNegative ''AONOHAKO_WORK_ROOT_MAX_BYTES'') (\<lambda>maxBytes.
      and_then (nonNegative ''AONOHAKO_WORK_ROOT_MAX_FILES'') (\<lambda>maxFiles.
      and_then (boolean ''AONOHAKO_TRUSTED_RUNNER_INGRESS'' (defaultTrustedRunnerIngress P)) (\<lambda>runnerIngress.
      and_then (boolean ''AONOHAKO_TRUSTED_PLATFORM_HEADERS'' (defaultTrustedPlatformHeaders P)) (\<lambda>platformHeaders.
      and_then (load_cidrs H) (\<lambda>cidrs.
      Inr \<lparr>ic_RequireWorkRootTmpfs = tmpfs, ic_WorkRootMaxBytes = maxBytes, ic_WorkRootMaxFiles = maxFiles,
           ic_TrustedRunnerIngress = runnerIngress, ic_TrustedPlatformHeaders = platformHeaders,
           ic_TrustedPlatformHeaderCIDRs = cidrs\<rparr>)))))))"

text \<open>The profiles, and the profile of each problem.\<close>

definition profile_step ::
  "RuntimeTuningConfig \<Rightarrow> nat \<Rightarrow> string \<times> (string \<times> int) list \<Rightarrow> (string \<times> RuntimeTuningConfig) list \<Rightarrow>
   config_error + (string \<times> RuntimeTuningConfig) list" where
  "profile_step runtimeTuning i x acc =
     (case x of (profileName, values) \<Rightarrow>
        if profileName = [] then Inl (EmptyName ''AONOHAKO_RUNTIME_TUNING_PROFILES'')
        else checked (map_option (BadProfileName profileName) (ValidateProfileName profileName))
          (case profile_tuning profileName values runtimeTuning of
             Inl e \<Rightarrow> Inl (BadProfile e)
           | Inr t \<Rightarrow> Inr (AList.update profileName t acc)))"

definition load_profiles :: "host \<Rightarrow> RuntimeTuningConfig \<Rightarrow> config_error + (string \<times> RuntimeTuningConfig) list" where
  "load_profiles H runtimeTuning =
     (let rawProfiles = trim_space (ho_Env H ''AONOHAKO_RUNTIME_TUNING_PROFILES'') in
      if rawProfiles = [] then Inr []
      else (case ho_JSONTuning H rawProfiles of
              None \<Rightarrow> Inl (BadJSON ''AONOHAKO_RUNTIME_TUNING_PROFILES'')
            | Some parsedProfiles \<Rightarrow>
                if parsedProfiles = [] then Inl (EmptyMap ''AONOHAKO_RUNTIME_TUNING_PROFILES'')
                else loop_err (profile_step runtimeTuning) 0 parsedProfiles []))"

definition problem_profile_step ::
  "(string \<times> RuntimeTuningConfig) list \<Rightarrow> nat \<Rightarrow> string \<times> string \<Rightarrow> (string \<times> string) list \<Rightarrow>
   config_error + (string \<times> string) list" where
  "problem_profile_step profs i x acc =
     (case x of (problemID, profileName) \<Rightarrow>
        checked (first_error
          [reject_if (problemID = []) (EmptyName ''AONOHAKO_PROBLEM_RUNTIME_PROFILES''),
           map_option (BadProblemID problemID) (ValidateProblemID problemID),
           reject_if (profileName = []) (EmptyProfileFor problemID),
           map_option (BadProfileName profileName) (ValidateProfileName profileName),
           reject_if (map_of profs profileName = None) (UnknownProfileFor problemID profileName)])
        (Inr (AList.update problemID profileName acc)))"

definition load_problem_profiles ::
  "host \<Rightarrow> (string \<times> RuntimeTuningConfig) list \<Rightarrow> config_error + (string \<times> string) list" where
  "load_problem_profiles H profs =
     (let raw = trim_space (ho_Env H ''AONOHAKO_PROBLEM_RUNTIME_PROFILES'') in
      if raw = [] then Inr []
      else (case ho_JSONStrings H raw of
              None \<Rightarrow> Inl (BadJSON ''AONOHAKO_PROBLEM_RUNTIME_PROFILES'')
            | Some m \<Rightarrow>
                if m = [] then Inl (EmptyMap ''AONOHAKO_PROBLEM_RUNTIME_PROFILES'')
                else loop_err (problem_profile_step profs) 0 m []))"

text \<open>The library mode of each problem: three blocks that differ in the variable and the parser.\<close>

definition problem_mode_step ::
  "string \<Rightarrow> (string \<Rightarrow> policy_error + string) \<Rightarrow> nat \<Rightarrow> string \<times> string \<Rightarrow> (string \<times> string) list \<Rightarrow>
   config_error + (string \<times> string) list" where
  "problem_mode_step key parse i x acc =
     (case x of (problemID, rawMode) \<Rightarrow>
        checked (first_error
          [reject_if (problemID = []) (EmptyName key),
           map_option (BadProblemID problemID) (ValidateProblemID problemID)])
        (and_then (mode_parsed key (parse rawMode)) (\<lambda>mode. Inr (AList.update problemID mode acc))))"

definition load_problem_modes ::
  "host \<Rightarrow> string \<Rightarrow> (string \<Rightarrow> policy_error + string) \<Rightarrow> config_error + (string \<times> string) list" where
  "load_problem_modes H key parse =
     (let raw = trim_space (ho_Env H key) in
      if raw = [] then Inr []
      else (case ho_JSONStrings H raw of
              None \<Rightarrow> Inl (BadJSON key)
            | Some m \<Rightarrow> if m = [] then Inl (EmptyMap key) else loop_err (problem_mode_step key parse) 0 m []))"

section \<open>The checks at the end of \<open>Load\<close>\<close>

definition load_remote :: "host \<Rightarrow> timing_config \<Rightarrow> RemoteExecutorConfig" where
  "load_remote H T =
     \<lparr>re_URL = trim_space (ho_Env H ''AONOHAKO_REMOTE_RUNNER_URL''),
      re_Auth = parseRemoteAuth (ho_Env H ''AONOHAKO_REMOTE_RUNNER_AUTH''),
      re_BearerToken = trim_space (ho_Env H ''AONOHAKO_REMOTE_RUNNER_TOKEN''),
      re_Audience = trim_space (ho_Env H ''AONOHAKO_REMOTE_RUNNER_AUDIENCE''),
      re_SSEIdleTimeout = tc_RemoteSSEIdleTimeoutSec T * 1000000000,
      re_StrictProtocol = tc_RemoteStrictProtocol T\<rparr>"

definition load_inbound :: "host \<Rightarrow> RuntimeOptions \<Rightarrow> InboundAuthConfig" where
  "load_inbound H P =
     \<lparr>ia_Mode = parseInboundAuth (ho_Env H ''AONOHAKO_INBOUND_AUTH'') P,
      ia_BearerToken = trim_space (ho_Env H ''AONOHAKO_API_BEARER_TOKEN''),
      ia_PlatformPrincipalHMACSecret = trim_space (ho_Env H ''AONOHAKO_PLATFORM_PRINCIPAL_HMAC_SECRET'')\<rparr>"

definition check_contract :: "host \<Rightarrow> RuntimeOptions \<Rightarrow> timing_config \<Rightarrow> config_error + SecurityContract" where
  "check_contract H P T =
     checked (first_error
       [reject_if (CloudRunMarkersPresent (ho_Env H) \<and> op_DeploymentTarget P \<noteq> TargetCloudRun) MarkersWithoutCloudRun,
        reject_if (tc_CPUNormalizationEnabled T \<and> \<not> defaultCPUNormalization P) NormalizationUnsupported])
     (and_then (map_sum ContractError (\<lambda>c. c) (SecurityContract_of P)) (\<lambda>contract.
        if \<not> sc_Implemented contract then Inl ContractReserved else Inr contract))"

definition check_remote :: "host \<Rightarrow> RuntimeOptions \<Rightarrow> RemoteExecutorConfig \<Rightarrow> config_error + RemoteExecutorConfig" where
  "check_remote H P R =
     (if op_ExecutionTransport P \<noteq> TransportRemote then Inr R
      else if re_URL R = [] then Inl (RemoteURL 0)
      else (case ho_ParseURL H (re_URL R) of
              None \<Rightarrow> Inl (RemoteURL 1)
            | Some parsedURL \<Rightarrow>
                checked (first_error
                  [reject_if (\<not> pr_IsAbs parsedURL \<or> pr_Host parsedURL = []) (RemoteURL 2),
                   reject_if (pr_Scheme parsedURL \<noteq> ''http'' \<and> pr_Scheme parsedURL \<noteq> ''https'') (RemoteURL 3),
                   reject_if (pr_HasUser parsedURL) (RemoteURL 4),
                   reject_if (pr_RawQuery parsedURL \<noteq> [] \<or> pr_Fragment parsedURL \<noteq> []) (RemoteURL 5),
                   reject_if (\<not> is_dev P \<and> re_Auth R \<noteq> RemoteAuthNone \<and> pr_Scheme parsedURL \<noteq> ''https'') (RemoteURL 6)])
                (case re_Auth R of
                   RemoteAuthNone \<Rightarrow> if \<not> is_dev P then Inl (RemoteAuth 0) else Inr R
                 | RemoteAuthBearer \<Rightarrow> if re_BearerToken R = [] then Inl (RemoteAuth 1) else Inr R
                 | RemoteAuthCloudRunIDToken \<Rightarrow>
                     Inr (if re_Audience R = [] then R\<lparr>re_Audience := re_URL R\<rparr> else R)
                 | RemoteAuthOther _ \<Rightarrow> Inl (RemoteAuth 2))))"

definition check_inbound :: "RuntimeOptions \<Rightarrow> InboundAuthConfig \<Rightarrow> config_error option" where
  "check_inbound P A = first_error
     [(case ia_Mode A of
         AuthNone \<Rightarrow> None
       | AuthPlatform \<Rightarrow> None
       | AuthBearer \<Rightarrow> reject_if (ia_BearerToken A = []) (InboundAuth 0)
       | _ \<Rightarrow> Some (InboundAuth 1)),
      reject_if (ia_Mode A = AuthNone \<and> \<not> is_dev P) (InboundAuth 2),
      reject_if (ia_Mode A = AuthPlatform \<and> \<not> is_dev P \<and> ia_PlatformPrincipalHMACSecret A = []) (InboundAuth 3)]"

definition check_host ::
  "host \<Rightarrow> RuntimeOptions \<Rightarrow> SecurityContract \<Rightarrow> limits_config \<Rightarrow> ingress_config \<Rightarrow> communication_config \<Rightarrow> string \<Rightarrow>
   config_error option" where
  "check_host H P contract L I C parentDir =
     (let selfHostedHelper = (op_DeploymentTarget P = TargetSelfHosted \<and> embedded_helper P);
          authoritative = (sc_RequiresRootParent contract \<and> \<not> is_dev P);
          cloudRunCommunication = (op_DeploymentTarget P = TargetCloudRun \<and>
            SupportsCommunicationV1 P parentDir (cc_Enabled C)) in
      first_error
        [reject_if (sc_RequiresRootParent contract \<and> \<not> is_dev P \<and> \<not> ic_TrustedRunnerIngress I) IngressUntrusted,
         reject_if (parentDir \<noteq> [] \<and> \<not> selfHostedHelper) (CgroupParent 0),
         reject_if (parentDir \<noteq> [] \<and> \<not> ho_CgroupParentValid H parentDir) (CgroupParent 1),
         reject_if (sc_RequiresSingleActiveRun contract \<and> lc_MaxActiveRuns L \<noteq> 1) OneActiveRun,
         reject_if (sc_RequiresRootParent contract \<and> \<not> ho_LinuxAmd64 H) HostUnsupported,
         reject_if (sc_RequiresRootParent contract \<and> ho_Geteuid H \<noteq> 0) RootRequired,
         validateSelfHostedCgroupPolicy selfHostedHelper parentDir,
         validateAuthoritativeWorkRootPolicy authoritative (ic_RequireWorkRootTmpfs I) cloudRunCommunication
           (ic_WorkRootMaxBytes I) (ic_WorkRootMaxFiles I)])"

definition check_mount :: "bool \<Rightarrow> work_root_info \<Rightarrow> config_error option" where
  "check_mount authoritative info =
     (case Option.bind (wi_Resolved info) (\<lambda>root. Option.bind (wi_MountLines info) (workRootMountAt root)) of
        None \<Rightarrow> Some (WorkRootInvalid 6)
      | Some (resolvedRoot, mountPoint, fsType) \<Rightarrow> first_error
          [reject_if (fsType \<noteq> ''tmpfs'') (WorkRootInvalid 7),
           reject_if (authoritative \<and> mountPoint \<noteq> resolvedRoot) (WorkRootInvalid 8)])"

definition check_statfs :: "int \<Rightarrow> int \<Rightarrow> work_root_info \<Rightarrow> config_error option" where
  "check_statfs maxBytes maxFiles info =
     (case wi_Statfs info of
        None \<Rightarrow> Some (WorkRootInvalid 9)
      | Some (bsize, blocks, files) \<Rightarrow> first_error
          [reject_if (maxBytes > 0 \<and> bsize \<le> 0) (WorkRootInvalid 10),
           reject_if (maxBytes > 0 \<and> int blocks * bsize mod 2 ^ 64 > maxBytes) (WorkRootInvalid 11),
           reject_if (maxFiles > 0 \<and> files = 0) (WorkRootInvalid 12),
           reject_if (maxFiles > 0 \<and> int files > maxFiles) (WorkRootInvalid 13)])"

definition check_work_root :: "host \<Rightarrow> SecurityContract \<Rightarrow> bool \<Rightarrow> ingress_config \<Rightarrow> config_error option" where
  "check_work_root H contract authoritative I =
     (let workRoot = trim_space (ho_Env H ''AONOHAKO_WORK_ROOT'') in
      if \<not> sc_RequiresDedicatedWorkRoot contract then None
      else if workRoot = [] then Some (WorkRootInvalid 0)
      else (case ho_WorkRoot H workRoot of
              None \<Rightarrow> Some (WorkRootInvalid 1)
            | Some info \<Rightarrow> first_error
                [reject_if (\<not> wi_IsDir info) (WorkRootInvalid 2),
                 reject_if (wi_Perm info div 16 mod 2 = 1 \<or> wi_Perm info div 2 mod 2 = 1) (WorkRootInvalid 3),
                 reject_if (case wi_Uid info of None \<Rightarrow> False | Some u \<Rightarrow> u \<noteq> ho_Geteuid H) (WorkRootInvalid 4),
                 reject_if (\<not> wi_Writable info) (WorkRootInvalid 5),
                 (if ic_RequireWorkRootTmpfs I then check_mount authoritative info else None),
                 (if ic_WorkRootMaxBytes I > 0 \<or> ic_WorkRootMaxFiles I > 0
                  then check_statfs (ic_WorkRootMaxBytes I) (ic_WorkRootMaxFiles I) info else None)]))"

definition Load :: "host \<Rightarrow> config_error + Config" where
  "Load H =
     (let env = ho_Env H; fingerprint = env ''AONOHAKO_COMPETITIVE_RUNTIME_FINGERPRINT'' in
      if fingerprint \<noteq> [] \<and> \<not> ValidImageDigest fingerprint then Inl FingerprintInvalid
      else
        and_then (map_sum PlatformError (\<lambda>p. p) (CurrentRuntimeOptions env)) (\<lambda>P.
        and_then (load_limits H P) (\<lambda>L.
        and_then (load_times H P) (\<lambda>T.
        and_then (load_communication H P) (\<lambda>C.
        and_then (load_policies H P) (\<lambda>pol.
        and_then (load_ingress H P) (\<lambda>I.
        and_then (parsed (load_tuning env)) (\<lambda>tuning.
        and_then (load_profiles H tuning) (\<lambda>profs.
        and_then (load_problem_profiles H profs) (\<lambda>problemProfiles.
        and_then (load_problem_modes H ''AONOHAKO_PROBLEM_GO_MODULE_MODES'' ParseMode) (\<lambda>goModes.
        and_then (load_problem_modes H ''AONOHAKO_PROBLEM_PYTHON_LIBRARY_MODES'' ParseLibraryMode) (\<lambda>pythonModes.
        and_then (load_problem_modes H ''AONOHAKO_PROBLEM_RUST_CRATE_MODES'' ParseCrateMode) (\<lambda>rustModes.
        and_then (check_contract H P T) (\<lambda>contract.
        and_then (check_remote H P (load_remote H T)) (\<lambda>remote.
        checked (check_inbound P (load_inbound H P))
        (checked (check_host H P contract L I C (trim_space (env ''AONOHAKO_CGROUP_PARENT'')))
        (checked (check_work_root H contract (sc_RequiresRootParent contract \<and> \<not> is_dev P) I)
        (checked (validateCommunicationIdentityPolicy H P (trim_space (env ''AONOHAKO_CGROUP_PARENT'')) (cc_Enabled C))
        (Inr \<lparr>cf_Port = getenv env ''PORT'' ''8080'', cf_Platform = P, cf_Limits = L, cf_Times = T,
              cf_CompetitiveRuntimeFingerprint = fingerprint, cf_Communication = C, cf_Policy = pol, cf_Ingress = I,
              cf_RuntimeTuning = tuning, cf_RuntimeTuningProfiles = profs,
              cf_ProblemRuntimeProfiles = problemProfiles, cf_ProblemGoModuleModes = goModes,
              cf_ProblemPythonLibraryModes = pythonModes, cf_ProblemRustCrateModes = rustModes,
              cf_Remote = remote,
              cf_CPUNormalization = \<lparr>cn_Enabled = tc_CPUNormalizationEnabled T,
                cn_ReferenceTimeNs = tc_CPUNormalizationReferenceMs T * 1000000,
                cn_ShortCaseSampling = tc_ShortCaseSampling T\<rparr>,
              cf_CgroupParent = trim_space (env ''AONOHAKO_CGROUP_PARENT''),
              cf_InboundAuth = load_inbound H P\<rparr>)))))))))))))))))))"

end
