(* ===== verification/Config_Safety.thy ===== *)
theory Config_Safety
  imports Config Server_Policies
begin

text \<open>
  What a configuration that \<open>Load\<close> accepts guarantees: one lemma per part of \<open>Load\<close>, and the properties
  they give together with the handlers that read the configuration.
\<close>

lemma parsed_Inr_iff [simp]: "map_sum f (\<lambda>x. x) r = Inr v \<longleftrightarrow> r = Inr v"
  by (cases r) simp_all

lemma load_limits_ok:
  assumes "load_limits H P = Inr L"
  shows "0 < lc_MaxActiveRuns L" "0 < lc_MaxRetainedRequestBytes L"
    "1 \<le> lc_PlatformBodyHashConcurrency L \<and> lc_PlatformBodyHashConcurrency L \<le> 64"
    "0 \<le> lc_MaxPrincipalRequestsPerMinute L"
    "\<not> is_dev P \<Longrightarrow> 0 < lc_MaxPendingQueue L \<and> 0 < lc_MaxActiveStreams L \<and> 0 < lc_MaxActiveUploads L \<and>
       0 < lc_MaxPrincipalUploads L \<and> 0 < lc_MaxPrincipalStreams L"
proof -
  note D = load_limits_def Let_def and_then_Inr_iff parsed_Inr_iff
  have active: "0 < defaultMaxActiveRuns H P"
    by (simp add: defaultMaxActiveRuns_def Let_def)
  have hash: "1 \<le> defaultPlatformBodyHashConcurrency a b" "defaultPlatformBodyHashConcurrency a b \<le> 64" for a b
    by (auto simp: defaultPlatformBodyHashConcurrency_def)
  have upl: "0 \<le> defaultUploadLimit P 4" "0 \<le> defaultUploadLimit P 2" "0 \<le> defaultMaxPrincipalStreams P"
    "0 \<le> defaultMaxPrincipalRequestsPerMinute P"
    by (simp_all add: defaultUploadLimit_def defaultMaxPrincipalStreams_def defaultMaxPrincipalRequestsPerMinute_def)
  show "0 < lc_MaxActiveRuns L"
    using assms parsed_positive [OF _ active] unfolding D by auto
  show "0 < lc_MaxRetainedRequestBytes L"
    using assms parsed_positive [of _ _ "256 * 2 ^ 20"] unfolding D by auto
  show "1 \<le> lc_PlatformBodyHashConcurrency L \<and> lc_PlatformBodyHashConcurrency L \<le> 64"
    using assms parsed_bounded [OF _ hash] unfolding D by auto
  show "0 \<le> lc_MaxPrincipalRequestsPerMinute L"
    using assms parsed_non_negative [OF _ upl(4)] unfolding D by auto
  show "0 < lc_MaxPendingQueue L \<and> 0 < lc_MaxActiveStreams L \<and> 0 < lc_MaxActiveUploads L \<and>
       0 < lc_MaxPrincipalUploads L \<and> 0 < lc_MaxPrincipalStreams L" if "\<not> is_dev P"
  proof -
    from assms that obtain v where
      "parseNonNegativeIntEnv ''AONOHAKO_MAX_PENDING_QUEUE'' (v ''AONOHAKO_MAX_PENDING_QUEUE'') 16 = Inr (lc_MaxPendingQueue L)"
      "parseNonNegativeIntEnv ''AONOHAKO_MAX_ACTIVE_STREAMS'' (v ''AONOHAKO_MAX_ACTIVE_STREAMS'') 64 = Inr (lc_MaxActiveStreams L)"
      "parseNonNegativeIntEnv ''AONOHAKO_MAX_ACTIVE_UPLOADS'' (v ''AONOHAKO_MAX_ACTIVE_UPLOADS'') (defaultUploadLimit P 4) = Inr (lc_MaxActiveUploads L)"
      "parseNonNegativeIntEnv ''AONOHAKO_MAX_PRINCIPAL_ACTIVE_UPLOADS'' (v ''AONOHAKO_MAX_PRINCIPAL_ACTIVE_UPLOADS'') (defaultUploadLimit P 2) = Inr (lc_MaxPrincipalUploads L)"
      "parseNonNegativeIntEnv ''AONOHAKO_MAX_PRINCIPAL_ACTIVE_STREAMS'' (v ''AONOHAKO_MAX_PRINCIPAL_ACTIVE_STREAMS'') (defaultMaxPrincipalStreams P) = Inr (lc_MaxPrincipalStreams L)"
      and nz: "lc_MaxPendingQueue L \<noteq> 0" "lc_MaxActiveStreams L \<noteq> 0" "lc_MaxActiveUploads L \<noteq> 0"
        "lc_MaxPrincipalUploads L \<noteq> 0" "lc_MaxPrincipalStreams L \<noteq> 0"
      unfolding D by (auto intro: that)
    then have "0 \<le> lc_MaxPendingQueue L" "0 \<le> lc_MaxActiveStreams L" "0 \<le> lc_MaxActiveUploads L"
        "0 \<le> lc_MaxPrincipalUploads L" "0 \<le> lc_MaxPrincipalStreams L"
      using upl by (auto dest: parsed_non_negative)
    with nz show ?thesis by simp
  qed
qed

lemma load_times_ok:
  assumes "load_times H P = Inr T"
  shows "1 \<le> tc_HeartbeatSec T" "1 \<le> tc_BodyReadTimeoutSec T" "1 \<le> tc_RemoteSSEIdleTimeoutSec T"
    "tc_HeartbeatSec T * 1000000000 < 2 ^ 63" "tc_BodyReadTimeoutSec T * 1000000000 < 2 ^ 63"
    "tc_RemoteSSEIdleTimeoutSec T * 1000000000 < 2 ^ 63"
    "1 \<le> tc_CPUNormalizationReferenceMs T \<and> tc_CPUNormalizationReferenceMs T \<le> 5000"
proof -
  note D = load_times_def Let_def and_then_Inr_iff parsed_Inr_iff
  have M: "1 \<le> maxDurationSeconds" "10 \<le> maxDurationSeconds" "30 \<le> maxDurationSeconds"
    by (simp_all add: maxDurationSeconds_def)
  have B: "v \<le> maxDurationSeconds \<Longrightarrow> v * 1000000000 < 2 ^ 63" for v
    by (simp add: maxDurationSeconds_def)
  have b: "1 \<le> tc_HeartbeatSec T \<and> tc_HeartbeatSec T \<le> maxDurationSeconds"
    using assms parsed_bounded [OF _ _ M(2), of _ _ 1] unfolding D by auto
  have c: "1 \<le> tc_BodyReadTimeoutSec T \<and> tc_BodyReadTimeoutSec T \<le> maxDurationSeconds"
    using assms parsed_bounded [OF _ _ M(3), of _ _ 1] unfolding D by auto
  have d: "1 \<le> tc_RemoteSSEIdleTimeoutSec T \<and> tc_RemoteSSEIdleTimeoutSec T \<le> maxDurationSeconds"
    using assms parsed_bounded [OF _ _ M(3), of _ _ 1] unfolding D by auto
  show "1 \<le> tc_CPUNormalizationReferenceMs T \<and> tc_CPUNormalizationReferenceMs T \<le> 5000"
    using assms parsed_bounded [of _ _ 60 1 5000] unfolding D by auto
  show "1 \<le> tc_HeartbeatSec T" "1 \<le> tc_BodyReadTimeoutSec T" "1 \<le> tc_RemoteSSEIdleTimeoutSec T"
    "tc_HeartbeatSec T * 1000000000 < 2 ^ 63" "tc_BodyReadTimeoutSec T * 1000000000 < 2 ^ 63"
    "tc_RemoteSSEIdleTimeoutSec T * 1000000000 < 2 ^ 63"
    using b c d B by blast+
qed

lemma load_policies_network:
  assumes "load_policies H P = Inr pol"
  shows "validateNetworkEgressPolicy P (pc_AllowRequestNetwork pol) (pc_NetworkEgressIsolated pol) = None"
  using assms by (auto simp: load_policies_def Let_def and_then_Inr_iff)

lemma load_ingress_cidrs:
  assumes "load_ingress H P = Inr I"
  shows "load_cidrs H = Inr (ic_TrustedPlatformHeaderCIDRs I)"
  using assms by (auto simp: load_ingress_def Let_def and_then_Inr_iff)

lemma set_update_subset: "set (AList.update k v xs) \<subseteq> insert (k, v) (set xs)"
  by (induction xs) auto

lemma load_profiles_ok:
  assumes "load_profiles H tuning = Inr profs" and "(name, t) \<in> set profs"
  shows "tuning_ok t"
proof -
  define P where "P acc = (\<forall>x \<in> set acc. tuning_ok (snd x))" for acc :: "(string \<times> RuntimeTuningConfig) list"
  have step: "P acc \<Longrightarrow> profile_step tuning i x acc = Inr acc' \<Longrightarrow> P acc'" for i x acc acc'
    by (auto simp: P_def profile_step_def split: prod.splits if_splits sum.splits
        dest!: profile_tuning_ok set_mp [OF set_update_subset])
  have "P profs"
  proof (cases "profs = []")
    case False
    then obtain ps where "loop_err (profile_step tuning) 0 ps [] = Inr profs"
      using assms(1) by (auto simp: load_profiles_def Let_def split: if_splits option.splits)
    then show ?thesis by (rule loop_keeps [where P = P]) (simp_all add: P_def step [unfolded P_def])
  qed (simp add: P_def)
  with assms(2) show ?thesis by (auto simp: P_def)
qed

text \<open>A map built by a loop that only adds checked pairs holds only such pairs.\<close>

lemma loop_adds_checked:
  assumes "loop_err g i xs acc = Inr r"
    and "\<And>i x u v. g i x u = Inr v \<Longrightarrow> \<exists>k w. v = AList.update k w u \<and> Q k w"
    and "\<forall>(k, w) \<in> set acc. Q k w"
  shows "(k, w) \<in> set r \<Longrightarrow> Q k w"
proof -
  have "\<forall>(k, w) \<in> set r. Q k w"
    using assms(1,3)
  proof (rule loop_keeps)
    fix i x u v assume "\<forall>(k, w) \<in> set u. Q k w" "g i x u = Inr v"
    with assms(2) [of i x u v] show "\<forall>(k, w) \<in> set v. Q k w"
      using set_update_subset by fastforce
  qed
  then show "(k, w) \<in> set r \<Longrightarrow> Q k w" by auto
qed

lemma load_problem_profiles_ok:
  assumes "load_problem_profiles H profs = Inr m" and "(problemID, name) \<in> set m"
  shows "name \<noteq> [] \<and> ValidateProblemID problemID = None \<and> name \<in> fst ` set profs"
proof -
  obtain ps where "loop_err (problem_profile_step profs) 0 ps [] = Inr m"
    using assms by (auto simp: load_problem_profiles_def Let_def split: if_splits option.splits)
  then show ?thesis
    by (rule loop_adds_checked [OF _ _ _ assms(2)])
      (auto simp: problem_profile_step_def map_of_eq_None_iff split: prod.splits)
qed

lemma load_problem_modes_ok:
  assumes "load_problem_modes H key parse = Inr m" and "(problemID, mode) \<in> set m"
  shows "\<exists>raw. parse raw = Inr mode"
proof -
  obtain ps where "loop_err (problem_mode_step key parse) 0 ps [] = Inr m"
    using assms by (auto simp: load_problem_modes_def Let_def split: if_splits option.splits)
  then show ?thesis
    by (rule loop_adds_checked [OF _ _ _ assms(2)])
      (auto simp: problem_mode_step_def and_then_Inr_iff mode_parsed_def split: prod.splits sum.splits)
qed

section \<open>All parts of an accepted configuration\<close>

lemma Load_parts:
  assumes "Load H = Inr cfg"
  obtains contract where
    "load_limits H (cf_Platform cfg) = Inr (cf_Limits cfg)"
    "load_times H (cf_Platform cfg) = Inr (cf_Times cfg)"
    "load_policies H (cf_Platform cfg) = Inr (cf_Policy cfg)"
    "load_ingress H (cf_Platform cfg) = Inr (cf_Ingress cfg)"
    "load_tuning (ho_Env H) = Inr (cf_RuntimeTuning cfg)"
    "load_profiles H (cf_RuntimeTuning cfg) = Inr (cf_RuntimeTuningProfiles cfg)"
    "load_problem_profiles H (cf_RuntimeTuningProfiles cfg) = Inr (cf_ProblemRuntimeProfiles cfg)"
    "load_problem_modes H ''AONOHAKO_PROBLEM_GO_MODULE_MODES'' ParseMode = Inr (cf_ProblemGoModuleModes cfg)"
    "load_problem_modes H ''AONOHAKO_PROBLEM_PYTHON_LIBRARY_MODES'' ParseLibraryMode = Inr (cf_ProblemPythonLibraryModes cfg)"
    "load_problem_modes H ''AONOHAKO_PROBLEM_RUST_CRATE_MODES'' ParseCrateMode = Inr (cf_ProblemRustCrateModes cfg)"
    "check_contract H (cf_Platform cfg) (cf_Times cfg) = Inr contract"
    "check_remote H (cf_Platform cfg) (load_remote H (cf_Times cfg)) = Inr (cf_Remote cfg)"
    "check_inbound (cf_Platform cfg) (cf_InboundAuth cfg) = None"
    "check_host H (cf_Platform cfg) contract (cf_Limits cfg) (cf_Ingress cfg) (cf_Communication cfg) (cf_CgroupParent cfg) = None"
    "check_work_root H contract (sc_RequiresRootParent contract \<and> \<not> is_dev (cf_Platform cfg)) (cf_Ingress cfg) = None"
  using assms
  by (auto simp: Load_def Let_def and_then_Inr_iff intro: that split: if_splits)

lemma check_contract_ok:
  assumes "check_contract H P T = Inr contract"
  shows "SecurityContract_of P = Inr contract" "sc_Implemented contract"
  using assms by (auto simp: check_contract_def and_then_Inr_iff split: if_splits)

text \<open>What the rest of the server reads of the configuration.\<close>

definition server_config_of :: "Config \<Rightarrow> server_config" where
  "server_config_of cfg =
     \<lparr>cfg_AllowRequestRuntimeProfile = pc_AllowRequestRuntimeProfile (cf_Policy cfg),
      cfg_RuntimeTuningProfiles = fst ` set (cf_RuntimeTuningProfiles cfg),
      cfg_ProblemRuntimeProfiles = map_of (cf_ProblemRuntimeProfiles cfg),
      cfg_ProblemPythonLibraryModes = map_of (cf_ProblemPythonLibraryModes cfg),
      cfg_DefaultPythonLibraryMode = pc_DefaultPythonLibraryMode (cf_Policy cfg),
      cfg_AllowRequestPythonInstalledLibraries = pc_AllowRequestPythonInstalledLibraries (cf_Policy cfg),
      cfg_ProblemRustCrateModes = map_of (cf_ProblemRustCrateModes cfg),
      cfg_DefaultRustCrateMode = pc_DefaultRustCrateMode (cf_Policy cfg),
      cfg_AllowRequestRustInstalledCrates = pc_AllowRequestRustInstalledCrates (cf_Policy cfg),
      cfg_ProblemGoModuleModes = map_of (cf_ProblemGoModuleModes cfg),
      cfg_DefaultGoModuleMode = pc_DefaultGoModuleMode (cf_Policy cfg),
      cfg_AllowRequestGoInstalledModules = pc_AllowRequestGoInstalledModules (cf_Policy cfg)\<rparr>"

definition auth_config_of :: "Config \<Rightarrow> auth_config" where
  "auth_config_of cfg =
     \<lparr>ac_Mode = ia_Mode (cf_InboundAuth cfg), ac_BearerToken = ia_BearerToken (cf_InboundAuth cfg),
      ac_HMACSecret = ia_PlatformPrincipalHMACSecret (cf_InboundAuth cfg),
      ac_TrustedPlatformHeaders = ic_TrustedPlatformHeaders (cf_Ingress cfg),
      ac_TrustedPlatformHeaderCIDRs = ic_TrustedPlatformHeaderCIDRs (cf_Ingress cfg),
      ac_Dev = is_dev (cf_Platform cfg)\<rparr>"

lemma server_config_of_simps:
  "cfg_RuntimeTuningProfiles (server_config_of cfg) = fst ` set (cf_RuntimeTuningProfiles cfg)"
  "cfg_ProblemRuntimeProfiles (server_config_of cfg) = map_of (cf_ProblemRuntimeProfiles cfg)"
  "cfg_ProblemPythonLibraryModes (server_config_of cfg) = map_of (cf_ProblemPythonLibraryModes cfg)"
  "cfg_DefaultPythonLibraryMode (server_config_of cfg) = pc_DefaultPythonLibraryMode (cf_Policy cfg)"
  "cfg_ProblemRustCrateModes (server_config_of cfg) = map_of (cf_ProblemRustCrateModes cfg)"
  "cfg_DefaultRustCrateMode (server_config_of cfg) = pc_DefaultRustCrateMode (cf_Policy cfg)"
  "cfg_ProblemGoModuleModes (server_config_of cfg) = map_of (cf_ProblemGoModuleModes cfg)"
  "cfg_DefaultGoModuleMode (server_config_of cfg) = pc_DefaultGoModuleMode (cf_Policy cfg)"
  by (simp_all add: server_config_of_def)

lemma check_inbound_ok:
  assumes "check_inbound P A = None" and "\<not> is_dev P"
  shows "ia_Mode A = AuthBearer \<and> ia_BearerToken A \<noteq> [] \<or>
    ia_Mode A = AuthPlatform \<and> ia_PlatformPrincipalHMACSecret A \<noteq> []"
  using assms by (cases "ia_Mode A") (auto simp: check_inbound_def)

text \<open>
  C15. A production server authenticates every request. With a configuration that Load accepts for a target
  other than dev, a request that authentication lets through carries the configured bearer token, or the
  HMAC of its own contents under the configured secret with a time within five minutes of now (both up to collisions of
  SHA-256, through which the code compares).
\<close>

theorem production_requests_authenticated:
  assumes "Load H = Inr cfg" and "\<not> is_dev (cf_Platform cfg)"
    and "requireAuth (auth_config_of cfg) E r now v slot c = (Authed p, c')"
  shows "(ia_BearerToken (cf_InboundAuth cfg) \<noteq> [] \<and> has_prefix (hr_Header r ''Authorization'') ''Bearer '' \<and>
      sha256 E (trim_prefix (hr_Header r ''Authorization'') ''Bearer '') = sha256 E (ia_BearerToken (cf_InboundAuth cfg))) \<or>
    (ia_PlatformPrincipalHMACSecret (cf_InboundAuth cfg) \<noteq> [] \<and>
      sha256 E (signature_text r) = sha256 E (request_mac (auth_config_of cfg) E r) \<and>
      (\<exists>t. parse_rfc3339 E (trim_space (hr_Header r platformPrincipalTimestampHeader)) = Some t \<and>
         \<bar>v - t\<bar> \<le> platformPrincipalSignatureSkew))"
proof -
  have "check_inbound (cf_Platform cfg) (cf_InboundAuth cfg) = None"
    using assms(1) by (rule Load_parts)
  then consider "ia_Mode (cf_InboundAuth cfg) = AuthBearer" "ia_BearerToken (cf_InboundAuth cfg) \<noteq> []"
    | "ia_Mode (cf_InboundAuth cfg) = AuthPlatform" "ia_PlatformPrincipalHMACSecret (cf_InboundAuth cfg) \<noteq> []"
    using check_inbound_ok assms(2) by blast
  then show ?thesis
  proof cases
    case 1
    then show ?thesis
      using assms(3) by (auto simp: requireAuth_def auth_config_of_def Let_def unauthorized_def constantTimeEqual_def split: if_splits)
  next
    case 2
    then show ?thesis
      using accepted_signature [OF _ _ assms(3)] by (auto simp: auth_config_of_def)
  qed
qed

text \<open>What is checked of the host when untrusted code runs in this process.\<close>

lemma check_host_ok:
  assumes "check_host H P contract L I C parentDir = None" and "sc_RequiresRootParent contract"
    and "sc_RequiresSingleActiveRun contract" and "\<not> is_dev P"
  shows "ho_LinuxAmd64 H" "ho_Geteuid H = 0" "lc_MaxActiveRuns L = 1" "ic_TrustedRunnerIngress I"
    "ic_RequireWorkRootTmpfs I" "0 < ic_WorkRootMaxBytes I" "ic_WorkRootMaxBytes I \<le> 2 ^ 30"
    "0 < ic_WorkRootMaxFiles I" "ic_WorkRootMaxFiles I \<le> 2 ^ 22"
  using assms
  by (auto simp: check_host_def Let_def validateAuthoritativeWorkRootPolicy_def split: if_splits)

lemma check_work_root_ok:
  assumes "check_work_root H contract True I = None" and "sc_RequiresDedicatedWorkRoot contract"
    and "ic_RequireWorkRootTmpfs I" "0 < ic_WorkRootMaxBytes I" "0 < ic_WorkRootMaxFiles I"
  obtains info root lines bsize blocks files where
    "ho_WorkRoot H (trim_space (ho_Env H ''AONOHAKO_WORK_ROOT'')) = Some info"
    "wi_IsDir info" "wi_Writable info" "wi_Perm info div 16 mod 2 = 0" "wi_Perm info div 2 mod 2 = 0"
    "wi_Uid info = None \<or> wi_Uid info = Some (ho_Geteuid H)"
    "wi_Resolved info = Some root" "wi_MountLines info = Some lines"
    "workRootMountAt root lines = Some (root, root, ''tmpfs'')"
    "wi_Statfs info = Some (bsize, blocks, files)"
    "int blocks * bsize mod 2 ^ 64 \<le> ic_WorkRootMaxBytes I" "0 < files" "int files \<le> ic_WorkRootMaxFiles I"
proof -
  obtain info where info: "ho_WorkRoot H (trim_space (ho_Env H ''AONOHAKO_WORK_ROOT'')) = Some info"
    "wi_IsDir info" "wi_Perm info div 16 mod 2 \<noteq> 1 \<and> wi_Perm info div 2 mod 2 \<noteq> 1"
    "\<not> (case wi_Uid info of None \<Rightarrow> False | Some u \<Rightarrow> u \<noteq> ho_Geteuid H)" "wi_Writable info"
    "check_mount True info = None"
    "check_statfs (ic_WorkRootMaxBytes I) (ic_WorkRootMaxFiles I) info = None"
    using assms by (auto simp: check_work_root_def Let_def split: if_splits option.splits)
  from info(6) obtain root lines where "wi_Resolved info = Some root" "wi_MountLines info = Some lines"
    "workRootMountAt root lines = Some (root, root, ''tmpfs'')"
    using mount_of_root(1)
    by (auto simp: check_mount_def Option.bind_eq_None_conv bind_eq_Some_conv split: option.splits)
  moreover from info(7) obtain bsize blocks files where "wi_Statfs info = Some (bsize, blocks, files)"
    "int blocks * bsize mod 2 ^ 64 \<le> ic_WorkRootMaxBytes I" "0 < files" "int files \<le> ic_WorkRootMaxFiles I"
    using assms(4,5) by (auto simp: check_statfs_def split: option.splits prod.splits)
  moreover have "wi_Uid info = None \<or> wi_Uid info = Some (ho_Geteuid H)" using info(4) by (auto split: option.splits)
  ultimately show ?thesis using info that by auto
qed

text \<open>
  C16. Untrusted code runs in a production process only on a host that contains it. A configuration that Load
  accepts for a target other than dev and embedded transport uses the helper backend, on linux/amd64, as
  root, one run at a time; the work root is a directory that only root can write, is itself the mount point of
  a tmpfs, and is bounded to 1 GiB and 2^22 inodes; requests get network only where the operator
  declared its egress isolated, and never on Cloud Run.
\<close>

theorem production_sandbox_host:
  assumes "Load H = Inr cfg" and "\<not> is_dev (cf_Platform cfg)"
    and "op_ExecutionTransport (cf_Platform cfg) = TransportEmbedded"
  shows "op_SandboxBackend (cf_Platform cfg) = BackendHelper \<and> ho_LinuxAmd64 H \<and> ho_Geteuid H = 0 \<and>
    lc_MaxActiveRuns (cf_Limits cfg) = 1 \<and> ic_TrustedRunnerIngress (cf_Ingress cfg) \<and>
    (pc_AllowRequestNetwork (cf_Policy cfg) \<longrightarrow>
      pc_NetworkEgressIsolated (cf_Policy cfg) \<and> op_DeploymentTarget (cf_Platform cfg) \<noteq> TargetCloudRun) \<and>
    (\<exists>info root lines bsize blocks files.
      ho_WorkRoot H (trim_space (ho_Env H ''AONOHAKO_WORK_ROOT'')) = Some info \<and>
      wi_IsDir info \<and> wi_Writable info \<and> wi_Perm info div 16 mod 2 = 0 \<and> wi_Perm info div 2 mod 2 = 0 \<and>
      (wi_Uid info = None \<or> wi_Uid info = Some 0) \<and>
      wi_Resolved info = Some root \<and> wi_MountLines info = Some lines \<and>
      workRootMountAt root lines = Some (root, root, ''tmpfs'') \<and>
      wi_Statfs info = Some (bsize, blocks, files) \<and>
      int blocks * bsize mod 2 ^ 64 \<le> 2 ^ 30 \<and> 0 < files \<and> int files \<le> 2 ^ 22)"
proof -
  obtain contract where parts:
    "load_policies H (cf_Platform cfg) = Inr (cf_Policy cfg)"
    "check_contract H (cf_Platform cfg) (cf_Times cfg) = Inr contract"
    "check_host H (cf_Platform cfg) contract (cf_Limits cfg) (cf_Ingress cfg) (cf_Communication cfg) (cf_CgroupParent cfg) = None"
    "check_work_root H contract (sc_RequiresRootParent contract \<and> \<not> is_dev (cf_Platform cfg)) (cf_Ingress cfg) = None"
    using assms(1) by (rule Load_parts) 
  have contract: "op_SandboxBackend (cf_Platform cfg) = BackendHelper" "sc_RequiresRootParent contract"
      "sc_RequiresSingleActiveRun contract"
    using implemented_contract [OF check_contract_ok [OF parts(2)]] assms(3) by auto
  have dedicated: "sc_RequiresDedicatedWorkRoot contract"
    using check_contract_ok(1) [OF parts(2)] contract(1) assms(2,3)
    by (cases "op_DeploymentTarget (cf_Platform cfg)") (auto simp: SecurityContract_of_def)
  note host = check_host_ok [OF parts(3) contract(2,3) assms(2)]
  have root: "check_work_root H contract True (cf_Ingress cfg) = None"
    using parts(4) contract(2) assms(2) by simp
  have net: "pc_AllowRequestNetwork (cf_Policy cfg) \<longrightarrow>
      pc_NetworkEgressIsolated (cf_Policy cfg) \<and> op_DeploymentTarget (cf_Platform cfg) \<noteq> TargetCloudRun"
    using load_policies_network [OF parts(1)] assms(2,3) contract(1)
    by (auto simp: validateNetworkEgressPolicy_def split: if_splits)
  show ?thesis
    using host net contract(1)
    by (auto intro: check_work_root_ok [OF root dedicated host(5,6,8)] order.trans)
qed

text \<open>
  The tuning of a loaded configuration is within its bounds, for the base and for every named profile,
  whatever the environment says; every problem with a profile is mapped to one that is configured.
\<close>

theorem loaded_tuning_bounded:
  assumes "Load H = Inr cfg"
  shows "tuning_min f \<le> rt_value (cf_RuntimeTuning cfg) f \<and> rt_value (cf_RuntimeTuning cfg) f \<le> tuning_max f \<and>
    (\<forall>(name, t) \<in> set (cf_RuntimeTuningProfiles cfg). tuning_min f \<le> rt_value t f \<and> rt_value t f \<le> tuning_max f) \<and>
    (\<forall>(problemID, name) \<in> set (cf_ProblemRuntimeProfiles cfg). name \<in> fst ` set (cf_RuntimeTuningProfiles cfg))"
proof -
  have parts: "load_tuning (ho_Env H) = Inr (cf_RuntimeTuning cfg)"
    "load_profiles H (cf_RuntimeTuning cfg) = Inr (cf_RuntimeTuningProfiles cfg)"
    "load_problem_profiles H (cf_RuntimeTuningProfiles cfg) = Inr (cf_ProblemRuntimeProfiles cfg)"
    using assms by (auto elim: Load_parts)
  show ?thesis
    using load_tuning_ok [OF parts(1)] load_profiles_ok [OF parts(2)] load_problem_profiles_ok [OF parts(3)]
    unfolding tuning_ok_def by fast
qed

text \<open>
  The limits of a loaded production configuration switch every mechanism on: a queue of pending runs,
  bounds on the streams and uploads of the server and of each principal, a positive budget of retained bytes
  and between 1 and 64 body hashes; the configured durations, in nanoseconds, fit the 64 bits of a Go duration.
\<close>

theorem loaded_limits_positive:
  assumes "Load H = Inr cfg"
  shows "0 < lc_MaxActiveRuns (cf_Limits cfg) \<and> 0 < lc_MaxRetainedRequestBytes (cf_Limits cfg) \<and>
    1 \<le> lc_PlatformBodyHashConcurrency (cf_Limits cfg) \<and> lc_PlatformBodyHashConcurrency (cf_Limits cfg) \<le> 64 \<and>
    (\<not> is_dev (cf_Platform cfg) \<longrightarrow>
      0 < lc_MaxPendingQueue (cf_Limits cfg) \<and> 0 < lc_MaxActiveStreams (cf_Limits cfg) \<and>
      0 < lc_MaxActiveUploads (cf_Limits cfg) \<and> 0 < lc_MaxPrincipalUploads (cf_Limits cfg) \<and>
      0 < lc_MaxPrincipalStreams (cf_Limits cfg)) \<and>
    (\<forall>s \<in> {tc_HeartbeatSec (cf_Times cfg), tc_BodyReadTimeoutSec (cf_Times cfg), tc_RemoteSSEIdleTimeoutSec (cf_Times cfg)}.
      1 \<le> s \<and> s * 1000000000 < 2 ^ 63)"
proof -
  have L: "load_limits H (cf_Platform cfg) = Inr (cf_Limits cfg)" and T: "load_times H (cf_Platform cfg) = Inr (cf_Times cfg)"
    using assms by (auto elim: Load_parts)
  show ?thesis using load_limits_ok [OF L] load_times_ok [OF T] by simp
qed

lemma policy_modes:
  assumes "load_policies H P = Inr pol"
  shows "\<exists>raw. ParseMode raw = Inr (pc_DefaultGoModuleMode pol)"
    "\<exists>raw. ParseLibraryMode raw = Inr (pc_DefaultPythonLibraryMode pol)"
    "\<exists>raw. ParseCrateMode raw = Inr (pc_DefaultRustCrateMode pol)"
  using assms by (auto simp: load_policies_def Let_def and_then_Inr_iff mode_parsed_def)

lemma map_str_of_list:
  "map_str (map_of xs) k = [] \<or> (k, map_str (map_of xs) k) \<in> set xs"
  by (cases "map_of xs k") (auto simp: map_str_def dest: map_of_SomeD)

lemma mapped_modes:
  assumes "load_problem_modes H key parse = Inr m" and "map_str (map_of m) k \<noteq> []"
  shows "\<exists>raw. parse raw = Inr (map_str (map_of m) k)"
  using load_problem_modes_ok [OF assms(1)] map_str_of_list [of m k] assms(2) by blast

lemma profile_allowed_error: "validateRuntimeProfileAllowed C prof \<noteq> Some (ProblemProfileUnknown p m)"
  by (simp add: validateRuntimeProfileAllowed_def)

lemma checked_Inl_iff: "checked c r = Inl e \<longleftrightarrow> c = Some e \<or> c = None \<and> r = Inl e"
  by (cases c) auto

lemma profile_unknown:
  assumes "applyRuntimeProfilePolicy C pid prof = Inl (ProblemProfileUnknown p m)"
  shows "map_str (cfg_ProblemRuntimeProfiles C) pid \<noteq> [] \<and>
    map_str (cfg_ProblemRuntimeProfiles C) pid \<notin> cfg_RuntimeTuningProfiles C"
  using assms
  by (auto simp: applyRuntimeProfilePolicy_def Let_def checked_Inl_iff profile_allowed_error split: if_split_asm)

text \<open>
  C18. The server cannot fail on its own configuration. With the maps and defaults of a configuration that
  Load accepted, the runtime profile and library policies never answer that a problem is mapped to an unknown profile or an invalid
  mode, or that a default mode is invalid: what they reject is the request.
\<close>

theorem loaded_policies_never_misconfigured:
  assumes "Load H = Inr cfg"
  shows "applyRuntimeProfilePolicy (server_config_of cfg) pid prof \<noteq> Inl (ProblemProfileUnknown p m) \<and>
    (\<forall>e \<in> {ProblemModeInvalid p x, DefaultModeInvalid x}.
      applyPythonLibraryPolicy (server_config_of cfg) req \<noteq> Inl e \<and>
      applyRustCratePolicy (server_config_of cfg) creq \<noteq> Inl e \<and>
      applyGoModulePolicy (server_config_of cfg) creq \<noteq> Inl e)"
proof -
  have parts: "load_policies H (cf_Platform cfg) = Inr (cf_Policy cfg)"
    "load_problem_profiles H (cf_RuntimeTuningProfiles cfg) = Inr (cf_ProblemRuntimeProfiles cfg)"
    "load_problem_modes H ''AONOHAKO_PROBLEM_GO_MODULE_MODES'' ParseMode = Inr (cf_ProblemGoModuleModes cfg)"
    "load_problem_modes H ''AONOHAKO_PROBLEM_PYTHON_LIBRARY_MODES'' ParseLibraryMode = Inr (cf_ProblemPythonLibraryModes cfg)"
    "load_problem_modes H ''AONOHAKO_PROBLEM_RUST_CRATE_MODES'' ParseCrateMode = Inr (cf_ProblemRustCrateModes cfg)"
    using assms by (auto elim: Load_parts)
  note modes = policy_modes [OF parts(1)]
  have profs: "map_str (map_of (cf_ProblemRuntimeProfiles cfg)) k = [] \<or>
      map_str (map_of (cf_ProblemRuntimeProfiles cfg)) k \<in> fst ` set (cf_RuntimeTuningProfiles cfg)" for k
    using map_str_of_list [of "cf_ProblemRuntimeProfiles cfg" k] load_problem_profiles_ok [OF parts(2)] by blast
  have profile_ok: "applyRuntimeProfilePolicy (server_config_of cfg) pid prof \<noteq> Inl (ProblemProfileUnknown p m)"
    using profs [of pid] profile_unknown [of "server_config_of cfg" pid prof p m] by (auto simp: server_config_of_simps)
  have go: "ValidateOptionalMode (pc_DefaultGoModuleMode (cf_Policy cfg)) = None"
      "map_str (map_of (cf_ProblemGoModuleModes cfg)) k \<noteq> [] \<Longrightarrow>
       ValidateOptionalMode (map_str (map_of (cf_ProblemGoModuleModes cfg)) k) = None" for k
    using modes(1) mapped_modes [OF parts(3)] go_mode.parse_then_validate by blast+
  have py: "ValidateOptionalLibraryMode (pc_DefaultPythonLibraryMode (cf_Policy cfg)) = None"
      "map_str (map_of (cf_ProblemPythonLibraryModes cfg)) k \<noteq> [] \<Longrightarrow>
       ValidateOptionalLibraryMode (map_str (map_of (cf_ProblemPythonLibraryModes cfg)) k) = None" for k
    using modes(2) mapped_modes [OF parts(4)] python_mode.parse_then_validate by blast+
  have rs: "ValidateOptionalCrateMode (pc_DefaultRustCrateMode (cf_Policy cfg)) = None"
      "map_str (map_of (cf_ProblemRustCrateModes cfg)) k \<noteq> [] \<Longrightarrow>
       ValidateOptionalCrateMode (map_str (map_of (cf_ProblemRustCrateModes cfg)) k) = None" for k
    using modes(3) mapped_modes [OF parts(5)] rust_mode.parse_then_validate by blast+
  have std: "ValidateOptionalMode ModeStdlib = None" "ValidateOptionalLibraryMode ModeStdlib = None"
    "ValidateOptionalCrateMode ModeStdlib = None"
    by (simp_all add: go_mode.validate_iff python_mode.validate_iff rust_mode.validate_iff)
  have "e \<in> {ProblemModeInvalid p x, DefaultModeInvalid x} \<Longrightarrow> applyPythonLibraryPolicy (server_config_of cfg) req \<noteq> Inl e" for e
    using py std by (auto simp: applyPythonLibraryPolicy_def server_config_of_simps Let_def checked_def split: option.splits if_splits)
  moreover have "e \<in> {ProblemModeInvalid p x, DefaultModeInvalid x} \<Longrightarrow> applyRustCratePolicy (server_config_of cfg) creq \<noteq> Inl e" for e
    using rs std by (auto simp: applyRustCratePolicy_def server_config_of_simps Let_def checked_def split: option.splits if_splits)
  moreover have "e \<in> {ProblemModeInvalid p x, DefaultModeInvalid x} \<Longrightarrow> applyGoModulePolicy (server_config_of cfg) creq \<noteq> Inl e" for e
    using go std by (auto simp: applyGoModulePolicy_def server_config_of_simps Let_def checked_def split: option.splits if_splits)
  ultimately show ?thesis using profile_ok by blast
qed

lemma check_remote_ok:
  assumes "check_remote H P R = Inr R'" and "\<not> is_dev P" and "op_ExecutionTransport P = TransportRemote"
  shows "\<exists>u. ho_ParseURL H (re_URL R') = Some u \<and> pr_Scheme u = ''https'' \<and> pr_Host u \<noteq> [] \<and> \<not> pr_HasUser u"
    "re_Auth R' = RemoteAuthBearer \<and> re_BearerToken R' \<noteq> [] \<or>
     re_Auth R' = RemoteAuthCloudRunIDToken \<and> re_Audience R' \<noteq> []"
  using assms
  by (auto simp: check_remote_def split: option.splits if_splits RemoteAuthMode.splits)

text \<open>
  C17. A production server that forwards runs does so over TLS and with credentials: the remote URL of a configuration that
  Load accepts for a target other than dev and remote transport has the scheme https and carries no credentials of its
  own, and the requests to it have a bearer token or an identity token for a named audience.
\<close>

theorem production_remote_trusted:
  assumes "Load H = Inr cfg" and "\<not> is_dev (cf_Platform cfg)"
    and "op_ExecutionTransport (cf_Platform cfg) = TransportRemote"
  shows "op_SandboxBackend (cf_Platform cfg) = BackendNone \<and>
    (\<exists>u. ho_ParseURL H (re_URL (cf_Remote cfg)) = Some u \<and> pr_Scheme u = ''https'' \<and> pr_Host u \<noteq> [] \<and> \<not> pr_HasUser u) \<and>
    (re_Auth (cf_Remote cfg) = RemoteAuthBearer \<and> re_BearerToken (cf_Remote cfg) \<noteq> [] \<or>
     re_Auth (cf_Remote cfg) = RemoteAuthCloudRunIDToken \<and> re_Audience (cf_Remote cfg) \<noteq> [])"
proof -
  obtain contract where parts:
    "check_contract H (cf_Platform cfg) (cf_Times cfg) = Inr contract"
    "check_remote H (cf_Platform cfg) (load_remote H (cf_Times cfg)) = Inr (cf_Remote cfg)"
    using assms(1) by (rule Load_parts)
  have "op_SandboxBackend (cf_Platform cfg) = BackendNone"
    using implemented_contract [OF check_contract_ok [OF parts(1)]] assms(3) by auto
  then show ?thesis using check_remote_ok [OF parts(2) assms(2,3)] by blast
qed

end
