(* ===== verification/Config_Demo.thy ===== *)
theory Config_Demo
  imports Config_Safety
begin

text \<open>
  Two hosts on which \<open>Load\<close> accepts a production configuration, and the properties of Config_Safety applied to them.
\<close>

section \<open>Concrete configurations\<close>

text \<open>A host on Cloud Run with a bearer token and a tuning profile for one problem.\<close>

definition demo_root :: work_root_info where
  "demo_root = \<lparr>wi_IsDir = True, wi_Perm = 448, wi_Uid = Some 0, wi_Writable = True, wi_Resolved = Some ''/w'',
     wi_MountLines = Some [''1 0 0:1 / /w rw - tmpfs tmpfs rw''], wi_Statfs = Some (1, 9, 9)\<rparr>"

definition demo_host_env :: "(string \<times> string) list" where
  "demo_host_env =
     [(''AONOHAKO_EXECUTION_MODE'', ''cloudrun''), (''AONOHAKO_API_BEARER_TOKEN'', ''s''),
      (''AONOHAKO_WORK_ROOT'', ''/w''), (''AONOHAKO_REQUIRE_WORK_ROOT_TMPFS'', ''true''),
      (''AONOHAKO_WORK_ROOT_MAX_BYTES'', ''9''), (''AONOHAKO_WORK_ROOT_MAX_FILES'', ''9''),
      (''AONOHAKO_TRUSTED_RUNNER_INGRESS'', ''true''),
      (''AONOHAKO_RUNTIME_TUNING_PROFILES'', ''T''), (''AONOHAKO_PROBLEM_RUNTIME_PROFILES'', ''P'')]"

definition demo_host :: host where
  "demo_host =
     \<lparr>ho_Env = (\<lambda>k. case map_of demo_host_env k of None \<Rightarrow> [] | Some v \<Rightarrow> v), ho_NumCPU = 4, ho_GOMAXPROCS = 4, ho_Geteuid = 0,
      ho_LinuxAmd64 = True, ho_ParseCIDR = (\<lambda>s. None), ho_ParseURL = (\<lambda>s. None),
      ho_JSONTuning = (\<lambda>s. Some [(''fast'', [])]), ho_JSONStrings = (\<lambda>s. Some [(''p1'', ''fast'')]),
      ho_CgroupParentValid = (\<lambda>s. False), ho_WorkRoot = (\<lambda>s. Some demo_root), ho_IdentityReserved = True\<rparr>"

lemma demo_words [simp]:
  "trim_space ''cloudrun'' = ''cloudrun''" "trim_space ''s'' = ''s''" "trim_space ''/w'' = ''/w''" "trim_space ''true'' = ''true''"
  "trim_space ''T'' = ''T''" "trim_space ''P'' = ''P''"
  "to_lower ''cloudrun'' = ''cloudrun''" "to_lower ''true'' = ''true''"
  "trim_space ''remote'' = ''remote''" "to_lower ''remote'' = ''remote''" "trim_space ''u'' = ''u''"
  "trim_space ''bearer'' = ''bearer''" "to_lower ''bearer'' = ''bearer''"
  by (simp_all add: trim_space_visible to_lower_ascii lower_rune_def char_of_eq_iff)

lemma unset_parses [simp]:
  "parsePositiveIntEnv k [] d = Inr d" "parseNonNegativeIntEnv k [] d = Inr d" "parseBoundedIntEnv k [] d lo hi = Inr d"
  "parseBoolEnv k [] b = Inr b"
  by (simp_all add: parsePositiveIntEnv_def parseNonNegativeIntEnv_def parseBoundedIntEnv_def parseBoolEnv_def)

lemma demo_parses:
  "parseNonNegativeIntEnv k ''9'' d = Inr 9" "parseBoolEnv k ''true'' b = Inr True"
  by (simp_all add: parseNonNegativeIntEnv_def parseBoolEnv_def atoi_def digit_value_def)

lemma demo_env [simp]:
  "ho_Env demo_host k = (case map_of demo_host_env k of None \<Rightarrow> [] | Some v \<Rightarrow> v)"
  by (simp add: demo_host_def)

lemma demo_platform:
  "CurrentRuntimeOptions (ho_Env demo_host) = Inr (runtimeOptionsForMode ModeCloudRun)"
  by (simp add: CurrentRuntimeOptions_def CurrentExecutionMode_def env_word_def demo_host_env_def runtimeOptionsForMode_def)

lemma demo_limits: "\<exists>L. load_limits demo_host (runtimeOptionsForMode ModeCloudRun) = Inr L \<and> lc_MaxActiveRuns L = 1"
  by (simp add: load_limits_def Let_def demo_host_env_def runtimeOptionsForMode_def defaultMaxActiveRuns_def
      defaultUploadLimit_def defaultMaxPrincipalStreams_def)

abbreviation cloud :: RuntimeOptions where "cloud \<equiv> runtimeOptionsForMode ModeCloudRun"

lemma cloud_fields [simp]:
  "op_DeploymentTarget cloud = TargetCloudRun" "op_ExecutionTransport cloud = TransportEmbedded"
  "op_SandboxBackend cloud = BackendHelper"
  by (simp_all add: runtimeOptionsForMode_def)

lemma demo_times: "\<exists>T. load_times demo_host cloud = Inr T \<and> tc_CPUNormalizationEnabled T"
  by (simp add: load_times_def Let_def demo_host_env_def defaultCPUNormalization_def)

lemma demo_communication: "\<exists>C. load_communication demo_host cloud = Inr C \<and> \<not> cc_Enabled C"
  by (simp add: load_communication_def Let_def demo_host_env_def validateCommunicationMemoryBudget_def
      validateCommunicationCPUCount_def validateCommunicationWallBudget_def)

lemma demo_modes: "ParseMode ModeStdlib = Inr ModeStdlib" "ParseLibraryMode ModeStdlib = Inr ModeStdlib"
  "ParseCrateMode ModeStdlib = Inr ModeStdlib"
  by (simp_all add: ParseMode_def ParseLibraryMode_def ParseCrateMode_def Let_def mode_parse_canonical)

lemma demo_policies: "\<exists>pol. load_policies demo_host cloud = Inr pol"
  by (simp add: load_policies_def Let_def demo_host_env_def getenv_def mode_parsed_def demo_modes
      validateNetworkEgressPolicy_def defaultAllowRequestNetwork_def)

lemma demo_ingress: "\<exists>I. load_ingress demo_host cloud = Inr I \<and> ic_RequireWorkRootTmpfs I \<and> ic_TrustedRunnerIngress I \<and>
    ic_WorkRootMaxBytes I = 9 \<and> ic_WorkRootMaxFiles I = 9"
  by (simp add: load_ingress_def Let_def demo_host_env_def demo_parses load_cidrs_def)

lemma demo_tuning: "load_tuning (ho_Env demo_host) = Inr DefaultRuntimeTuningConfig"
proof -
  have "tuning_step (ho_Env demo_host) i f t = Inr (set_tuning f (rt_value t f) False t)" for i f t
    by (cases f) (simp_all add: tuning_step_def demo_host_env_def Let_def)
  then show ?thesis
    unfolding load_tuning_def
    by (simp add: tuning_fields_def set_tuning_def DefaultRuntimeTuningConfig_def Let_def)
qed

lemma demo_names: "ValidateProfileName ''fast'' = None" "ValidateProblemID ''p1'' = None"
  by (simp_all add: ValidateProfileName_accepts ValidateProblemID_accepts MaxProblemIDBytes_def problem_rune_def
      MaxProfileNameBytes_def profile_rune_def)

lemma demo_profiles:
  "load_profiles demo_host DefaultRuntimeTuningConfig =
     Inr [(''fast'', WithSafeDefaults DefaultRuntimeTuningConfig)]"
  by (simp add: load_profiles_def demo_host_env_def profile_step_def demo_names profile_tuning_def Let_def)
    (simp add: demo_host_def profile_step_def demo_names profile_tuning_def)

lemma demo_problem_profiles:
  "load_problem_profiles demo_host [(''fast'', t)] = Inr [(''p1'', ''fast'')]"
  by (simp add: load_problem_profiles_def demo_host_env_def Let_def)
    (simp add: demo_host_def problem_profile_step_def demo_names)

lemma demo_problem_modes: "env = ho_Env demo_host \<Longrightarrow> env key = [] \<Longrightarrow> load_problem_modes demo_host key parse = Inr []"
  by (simp add: load_problem_modes_def)

lemma demo_contract: "\<exists>c. check_contract demo_host cloud T = Inr c \<and> SecurityContract_of cloud = Inr c"
  by (simp add: check_contract_def CloudRunMarkersPresent_def demo_host_env_def SecurityContract_of_def
      defaultCPUNormalization_def)

lemma demo_mount: "workRootMountAt ''/w'' [''1 0 0:1 / /w rw - tmpfs tmpfs rw''] = Some (''/w'', ''/w'', ''tmpfs'')"
proof -
  have "fields_of ''1 0 0:1 / /w rw - tmpfs tmpfs rw'' =
      [''1'', ''0'', ''0:1'', ''/'', ''/w'', ''rw'', ''-'', ''tmpfs'', ''tmpfs'', ''rw'']"
    by (simp add: fields_of_def fields_from_visible fields_from_space del: fields_from.simps(2))
  then show ?thesis by (simp add: workRootMountAt_def mount_entry_def octal_escapes_def covers_def)
qed

lemma demo_root_mount: "check_mount True demo_root = None"
  by (simp add: check_mount_def demo_root_def demo_mount)

lemma demo_root_statfs: "check_statfs 9 9 demo_root = None"
  by (simp add: check_statfs_def demo_root_def)

lemma demo_work_root:
  assumes "ic_RequireWorkRootTmpfs I" "ic_WorkRootMaxBytes I = 9" "ic_WorkRootMaxFiles I = 9"
  shows "check_work_root demo_host c True I = None"
proof -
  have "ho_WorkRoot demo_host w = Some demo_root" "ho_Geteuid demo_host = 0" for w
    by (simp_all add: demo_host_def)
  moreover have "wi_IsDir demo_root" "wi_Perm demo_root = 448" "wi_Uid demo_root = Some 0" "wi_Writable demo_root"
    by (simp_all add: demo_root_def)
  ultimately show ?thesis
    using assms demo_root_mount demo_root_statfs by (simp add: check_work_root_def Let_def demo_host_env_def)
qed

lemma demo_check_host:
  assumes "SecurityContract_of cloud = Inr c" "lc_MaxActiveRuns L = 1" "ic_TrustedRunnerIngress I"
    "ic_RequireWorkRootTmpfs I" "ic_WorkRootMaxBytes I = 9" "ic_WorkRootMaxFiles I = 9"
  shows "check_host demo_host cloud c L I C [] = None"
proof -
  have "ho_LinuxAmd64 demo_host" "ho_Geteuid demo_host = 0"
    by (simp_all add: demo_host_def)
  then show ?thesis
    using assms by (auto simp: check_host_def Let_def validateSelfHostedCgroupPolicy_def
        validateAuthoritativeWorkRootPolicy_def)
qed

lemma demo_inbound: "check_inbound cloud (load_inbound demo_host cloud) = None"
    "load_inbound demo_host cloud = \<lparr>ia_Mode = AuthBearer, ia_BearerToken = ''s'', ia_PlatformPrincipalHMACSecret = []\<rparr>"
  by (simp_all add: check_inbound_def load_inbound_def parseInboundAuth_def demo_host_env_def)

lemma demo_loads:
  "\<exists>cfg. Load demo_host = Inr cfg \<and> cf_Platform cfg = cloud \<and> cf_InboundAuth cfg = load_inbound demo_host cloud \<and>
     cf_ProblemRuntimeProfiles cfg = [(''p1'', ''fast'')]"
proof -
  obtain L where L: "load_limits demo_host cloud = Inr L" "lc_MaxActiveRuns L = 1" using demo_limits by blast
  obtain T where T: "load_times demo_host cloud = Inr T" using demo_times by blast
  obtain C where C: "load_communication demo_host cloud = Inr C" "\<not> cc_Enabled C" using demo_communication by blast
  obtain pol where pol: "load_policies demo_host cloud = Inr pol" using demo_policies by blast
  obtain I where I: "load_ingress demo_host cloud = Inr I" "ic_RequireWorkRootTmpfs I" "ic_TrustedRunnerIngress I"
    "ic_WorkRootMaxBytes I = 9" "ic_WorkRootMaxFiles I = 9" using demo_ingress by blast
  obtain c where c: "check_contract demo_host cloud T = Inr c" "SecurityContract_of cloud = Inr c"
    using demo_contract by blast
  have root: "check_work_root demo_host c (sc_RequiresRootParent c) I = None"
  proof -
    have "sc_RequiresRootParent c" using c(2) by (auto simp: SecurityContract_of_def)
    then show ?thesis using demo_work_root [OF I(2,4,5)] by simp
  qed
  have modes: "load_problem_modes demo_host ''AONOHAKO_PROBLEM_GO_MODULE_MODES'' ParseMode = Inr []"
    "load_problem_modes demo_host ''AONOHAKO_PROBLEM_PYTHON_LIBRARY_MODES'' ParseLibraryMode = Inr []"
    "load_problem_modes demo_host ''AONOHAKO_PROBLEM_RUST_CRATE_MODES'' ParseCrateMode = Inr []"
    by (simp_all add: load_problem_modes_def demo_host_env_def)
  have plain: "ho_Env demo_host ''AONOHAKO_COMPETITIVE_RUNTIME_FINGERPRINT'' = []"
      "ho_Env demo_host ''AONOHAKO_CGROUP_PARENT'' = []"
    by (simp_all add: demo_host_env_def)
  have ids: "validateCommunicationIdentityPolicy demo_host cloud [] e = None" for e
    by (simp add: validateCommunicationIdentityPolicy_def demo_host_def)
  have remote: "check_remote demo_host cloud R = Inr R" for R
    by (simp add: check_remote_def)
  show ?thesis
    unfolding Load_def Let_def plain demo_platform
    by (simp add: L T C pol I c root modes ids remote demo_tuning demo_profiles demo_problem_profiles demo_inbound(1)
        demo_check_host [OF c(2) L(2) I(3,2,4,5)] del: demo_env)
qed

section \<open>The properties at these hosts\<close>

definition bearer_request :: http_request where
  "bearer_request = demo_request\<lparr>hr_Header := (\<lambda>h. if h = ''Authorization'' then ''Bearer s'' else [])\<rparr>"

theorem production_requests_authenticated_witness:
  "\<exists>cfg. Load demo_host = Inr cfg \<and>
     has_prefix (hr_Header bearer_request ''Authorization'') ''Bearer ''"
proof -
  obtain cfg where cfg: "Load demo_host = Inr cfg" "cf_Platform cfg = cloud"
    "cf_InboundAuth cfg = load_inbound demo_host cloud"
    using demo_loads by blast
  obtain p c' where "requireAuth (auth_config_of cfg) Auth.demo_env bearer_request 0 0 True newPlatformReplayCache = (Authed p, c')"
    by (simp add: requireAuth_def auth_config_of_def cfg(3) demo_inbound(2) bearer_request_def constantTimeEqual_def trim_prefix_def)
  from production_requests_authenticated [OF cfg(1) _ this] cfg show ?thesis
    by (simp add: demo_inbound(2))
qed

theorem production_sandbox_host_witness:
  "\<exists>cfg. Load demo_host = Inr cfg \<and> lc_MaxActiveRuns (cf_Limits cfg) = 1 \<and>
     (pc_AllowRequestNetwork (cf_Policy cfg) \<longrightarrow> pc_NetworkEgressIsolated (cf_Policy cfg))"
proof -
  obtain cfg where "Load demo_host = Inr cfg" "cf_Platform cfg = cloud" using demo_loads by blast
  with production_sandbox_host [of demo_host cfg] show ?thesis by simp
qed

theorem loaded_tuning_bounded_witness:
  "\<exists>cfg. Load demo_host = Inr cfg \<and> rt_value (cf_RuntimeTuning cfg) GoMemoryReserveMB \<le> 256 \<and>
     ''fast'' \<in> fst ` set (cf_RuntimeTuningProfiles cfg)"
proof -
  obtain cfg where "Load demo_host = Inr cfg" "cf_ProblemRuntimeProfiles cfg = [(''p1'', ''fast'')]"
    using demo_loads by blast
  with loaded_tuning_bounded [of demo_host cfg GoMemoryReserveMB] show ?thesis by auto
qed

theorem loaded_limits_positive_witness:
  "\<exists>cfg. Load demo_host = Inr cfg \<and> 0 < lc_MaxPendingQueue (cf_Limits cfg)"
proof -
  obtain cfg where "Load demo_host = Inr cfg" "cf_Platform cfg = cloud" using demo_loads by blast
  with loaded_limits_positive [of demo_host cfg] show ?thesis by auto
qed

theorem loaded_policies_never_misconfigured_witness:
  "\<exists>cfg. Load demo_host = Inr cfg \<and>
     applyRuntimeProfilePolicy (server_config_of cfg) ''p1'' [] \<noteq> Inl (ProblemProfileUnknown ''p1'' ''fast'')"
proof -
  obtain cfg where "Load demo_host = Inr cfg" using demo_loads by blast
  with loaded_policies_never_misconfigured [of demo_host cfg "''p1''" "[]" "''p1''" "''fast''"] show ?thesis by blast
qed

text \<open>A control plane that forwards to a runner over https with a bearer token.\<close>

definition remote_env :: "(string \<times> string) list" where
  "remote_env =
     [(''AONOHAKO_EXECUTION_MODE'', ''cloudrun''), (''AONOHAKO_EXECUTION_TRANSPORT'', ''remote''),
      (''AONOHAKO_API_BEARER_TOKEN'', ''s''), (''AONOHAKO_WORK_ROOT'', ''/w''),
      (''AONOHAKO_REMOTE_RUNNER_URL'', ''u''), (''AONOHAKO_REMOTE_RUNNER_AUTH'', ''bearer''),
      (''AONOHAKO_REMOTE_RUNNER_TOKEN'', ''s'')]"

definition remote_host :: host where
  "remote_host = demo_host
     \<lparr>ho_Env := (\<lambda>k. case map_of remote_env k of None \<Rightarrow> [] | Some v \<Rightarrow> v),
      ho_ParseURL := (\<lambda>s. Some \<lparr>pr_IsAbs = True, pr_Host = ''h'', pr_Scheme = ''https'', pr_HasUser = False,
        pr_RawQuery = [], pr_Fragment = []\<rparr>)\<rparr>"

abbreviation forward :: RuntimeOptions where
  "forward \<equiv> \<lparr>op_DeploymentTarget = TargetCloudRun, op_ExecutionTransport = TransportRemote, op_SandboxBackend = BackendNone\<rparr>"

lemma remote_env [simp]: "ho_Env remote_host k = (case map_of remote_env k of None \<Rightarrow> [] | Some v \<Rightarrow> v)"
  by (simp add: remote_host_def)

lemma remote_loads:
  "\<exists>cfg. Load remote_host = Inr cfg \<and> cf_Platform cfg = forward"
proof -
  have platform: "CurrentRuntimeOptions (ho_Env remote_host) = Inr forward"
    by (simp add: CurrentRuntimeOptions_def CurrentExecutionMode_def env_word_def remote_env_def runtimeOptionsForMode_def)
  obtain L where L: "load_limits remote_host forward = Inr L"
    by (simp add: load_limits_def Let_def remote_env_def defaultMaxActiveRuns_def
      defaultUploadLimit_def defaultMaxPrincipalStreams_def)
  obtain T where T: "load_times remote_host forward = Inr T" "\<not> tc_CPUNormalizationEnabled T"
    by (simp add: load_times_def Let_def remote_env_def defaultCPUNormalization_def)
  obtain C where C: "load_communication remote_host forward = Inr C" "\<not> cc_Enabled C"
    by (simp add: load_communication_def Let_def remote_env_def validateCommunicationMemoryBudget_def
      validateCommunicationCPUCount_def validateCommunicationWallBudget_def)
  obtain pol where pol: "load_policies remote_host forward = Inr pol"
    by (simp add: load_policies_def Let_def remote_env_def getenv_def mode_parsed_def demo_modes
      validateNetworkEgressPolicy_def defaultAllowRequestNetwork_def)
  obtain I where I: "load_ingress remote_host forward = Inr I" "\<not> ic_RequireWorkRootTmpfs I" "ic_WorkRootMaxBytes I = 0"
      "ic_WorkRootMaxFiles I = 0"
    by (simp add: load_ingress_def Let_def remote_env_def load_cidrs_def)
  have tuning: "load_tuning (ho_Env remote_host) = Inr DefaultRuntimeTuningConfig"
  proof -
    have "tuning_step (ho_Env remote_host) i f t = Inr (set_tuning f (rt_value t f) False t)" for i f t
      by (cases f) (simp_all add: tuning_step_def remote_env_def Let_def)
    then show ?thesis
      unfolding load_tuning_def by (simp add: tuning_fields_def set_tuning_def DefaultRuntimeTuningConfig_def Let_def)
  qed
  have unset: "load_profiles remote_host t = Inr []" "load_problem_profiles remote_host profs = Inr []"
    "load_problem_modes remote_host ''AONOHAKO_PROBLEM_GO_MODULE_MODES'' ParseMode = Inr []"
    "load_problem_modes remote_host ''AONOHAKO_PROBLEM_PYTHON_LIBRARY_MODES'' ParseLibraryMode = Inr []"
    "load_problem_modes remote_host ''AONOHAKO_PROBLEM_RUST_CRATE_MODES'' ParseCrateMode = Inr []" for t profs
    by (simp_all add: load_profiles_def load_problem_profiles_def load_problem_modes_def remote_env_def)
  obtain c where c: "check_contract remote_host forward T = Inr c" "\<not> sc_RequiresRootParent c" "\<not> sc_RequiresSingleActiveRun c"
    using T(2) by (simp add: check_contract_def CloudRunMarkersPresent_def remote_env_def SecurityContract_of_def)
  have remote: "check_remote remote_host forward (load_remote remote_host T) = Inr (load_remote remote_host T)"
    by (simp add: check_remote_def load_remote_def parseRemoteAuth_def remote_env_def) (simp add: remote_host_def)
  have inbound: "check_inbound forward (load_inbound remote_host forward) = None"
    by (simp add: check_inbound_def load_inbound_def parseInboundAuth_def remote_env_def)
  have host: "check_host remote_host forward c L I C [] = None"
    using c(2,3) by (simp add: check_host_def Let_def validateSelfHostedCgroupPolicy_def validateAuthoritativeWorkRootPolicy_def)
  have facts: "ho_WorkRoot remote_host w = Some demo_root" "ho_Geteuid remote_host = 0" "ho_IdentityReserved remote_host" for w
    by (simp_all add: remote_host_def demo_host_def)
  have root: "check_work_root remote_host c False I = None"
    using I facts(1) by (simp add: check_work_root_def Let_def remote_env_def demo_root_def facts(2))
  have ids: "validateCommunicationIdentityPolicy remote_host forward [] e = None" for e
    by (simp add: validateCommunicationIdentityPolicy_def SupportsCommunicationV1_def)
  have plain: "ho_Env remote_host ''AONOHAKO_COMPETITIVE_RUNTIME_FINGERPRINT'' = []"
      "ho_Env remote_host ''AONOHAKO_CGROUP_PARENT'' = []"
    by (simp_all add: remote_env_def)
  show ?thesis
    unfolding Load_def Let_def plain platform
    by (simp add: L T C pol I c host root unset ids remote inbound tuning del: remote_env)
qed

theorem production_remote_trusted_witness:
  "\<exists>cfg u. Load remote_host = Inr cfg \<and> ho_ParseURL remote_host (re_URL (cf_Remote cfg)) = Some u \<and>
     pr_Scheme u = ''https''"
proof -
  obtain cfg where "Load remote_host = Inr cfg" "cf_Platform cfg = forward" using remote_loads by blast
  with production_remote_trusted [of remote_host cfg] show ?thesis by auto
qed

end
