(* ===== verification/Output_Compare.thy ===== *)
theory Output_Compare
  imports Paths Model_Types
begin

text \<open>
  internal/execute/compare.go and verdict.go: the comparison of the output of a program with the expected
  output, and the verdict when the output overflowed. The loop of \<open>compareOutputs\<close> is a partial function:
  \<open>None\<close> is a loop that never ends.
\<close>

section \<open>The comparison\<close>

abbreviation linefeed :: char where "linefeed \<equiv> CHR 0x0A"

text \<open>The cut sets of the two calls of \<open>bytes.TrimRight\<close>.\<close>

definition blank_char :: "char \<Rightarrow> bool" where
  "blank_char c \<longleftrightarrow> c = CHR '' '' \<or> c = CHR 0x09 \<or> c = CHR 0x0D"

definition blank_or_newline :: "char \<Rightarrow> bool" where
  "blank_or_newline c \<longleftrightarrow> blank_char c \<or> c = linefeed"

text \<open>\<open>bytes.Cut\<close> at the first newline: what is before it and what is after it.\<close>

definition cut_line :: "string \<Rightarrow> string \<times> string" where
  "cut_line s = (takeWhile (\<lambda>c. c \<noteq> linefeed) s, drop 1 (dropWhile (\<lambda>c. c \<noteq> linefeed) s))"

partial_function (option) compare_lines :: "string \<Rightarrow> string \<Rightarrow> bool option" where
  "compare_lines expected actual =
     (if expected \<noteq> [] \<and> actual \<noteq> [] then
        (let (expectedLine, expected') = cut_line expected;
             (actualLine, actual') = cut_line actual in
         if trim_right blank_char expectedLine \<noteq> trim_right blank_char actualLine then Some False
         else compare_lines expected' actual')
      else Some (expected = [] \<and> actual = []))"

definition compareOutputs :: "string \<Rightarrow> string \<Rightarrow> bool option" where
  "compareOutputs expected actual =
     compare_lines (trim_right blank_or_newline expected) (trim_right blank_or_newline actual)"

text \<open>The overflow of the output decides only a run that is otherwise a success.\<close>

definition applyStdoutLimitVerdict ::
  "string \<Rightarrow> string \<Rightarrow> string \<Rightarrow> bool \<Rightarrow> string \<times> string \<times> string" where
  "applyStdoutLimitVerdict status reason source exceeded =
     (if exceeded \<and> (status = ''OK'' \<or> status = RunStatusAccepted)
      then (RunStatusRE, ''stdout exceeded output limit'', ''stdout_limit'')
      else (status, reason, source))"

section \<open>What the comparison decides\<close>

text \<open>
  The reference: the lines, each without the blanks at its end, without the empty lines at the end.
\<close>

definition text_lines :: "string \<Rightarrow> string list" where
  "text_lines s = rev (dropWhile (\<lambda>l. l = []) (rev (map (trim_right blank_char) (split_on linefeed s))))"

lemma split_on_cut:
  "split_on linefeed s =
     (if linefeed \<in> set s then fst (cut_line s) # split_on linefeed (snd (cut_line s)) else [s])"
proof (induction s)
  case (Cons a s)
  then show ?case
    by (cases "a = linefeed") (auto simp: cut_line_def split: list.splits)
qed simp

lemma cut_line_length: "s \<noteq> [] \<Longrightarrow> length (snd (cut_line s)) < length s"
proof -
  assume s: "s \<noteq> []"
  have "length (dropWhile (\<lambda>c. c \<noteq> linefeed) s) \<le> length s" "0 < length s"
    using s by (simp_all add: length_dropWhile_le)
  then show ?thesis unfolding cut_line_def snd_conv length_drop by linarith
qed

lemma cut_line_none: "linefeed \<notin> set s \<Longrightarrow> cut_line s = (s, [])"
proof -
  assume "linefeed \<notin> set s"
  then have "dropWhile (\<lambda>c. c \<noteq> linefeed) s = []" "takeWhile (\<lambda>c. c \<noteq> linefeed) s = s"
    by (auto simp: dropWhile_eq_Nil_conv takeWhile_eq_all_conv)
  then show ?thesis by (simp only: cut_line_def) simp
qed

lemma cut_line_last:
  assumes "s = [] \<or> last s \<noteq> linefeed" and "linefeed \<in> set s"
  shows "snd (cut_line s) \<noteq> [] \<and> last (snd (cut_line s)) \<noteq> linefeed"
proof -
  let ?d = "dropWhile (\<lambda>c. c \<noteq> linefeed) s"
  have d: "?d \<noteq> []" "hd ?d = linefeed"
    using assms(2) hd_dropWhile [of "\<lambda>c. c \<noteq> linefeed" s] by (auto simp: dropWhile_eq_Nil_conv)
  then obtain t where t: "?d = linefeed # t" by (cases ?d) auto
  have "last s = last ?d" using d(1) by (metis append_is_Nil_conv last_appendR takeWhile_dropWhile_id)
  then show ?thesis using assms t by (cases t) (auto simp: cut_line_def)
qed

text \<open>The lines of a text that does not end in a newline, one step at a time.\<close>

definition ended :: "string \<Rightarrow> bool" where
  "ended s \<longleftrightarrow> s = [] \<or> last s \<noteq> linefeed"

definition kept_lines :: "string \<Rightarrow> string list" where
  "kept_lines s = (if s = [] then [] else map (trim_right blank_char) (split_on linefeed s))"

lemma kept_lines_cut:
  assumes "ended s" and "s \<noteq> []"
  shows "kept_lines s = trim_right blank_char (fst (cut_line s)) # kept_lines (snd (cut_line s))" "ended (snd (cut_line s))"
proof -
  show "kept_lines s = trim_right blank_char (fst (cut_line s)) # kept_lines (snd (cut_line s))"
    using assms cut_line_last [of s] split_on_cut [of s]
    by (cases "linefeed \<in> set s") (auto simp: kept_lines_def ended_def cut_line_none)
  show "ended (snd (cut_line s))"
    using assms cut_line_last [of s] by (cases "linefeed \<in> set s") (auto simp: ended_def cut_line_none)
qed

lemma compare_lines_kept:
  assumes "ended e" and "ended a"
  shows "compare_lines e a = Some (kept_lines e = kept_lines a)"
  using assms
proof (induction "length e" arbitrary: e a rule: less_induct)
  case less
  show ?case
  proof (cases "e = [] \<or> a = []")
    case True
    then show ?thesis
      by (subst compare_lines.simps) (auto simp: kept_lines_def)
  next
    case False
    then have ne: "e \<noteq> []" "a \<noteq> []" by auto
    note E = kept_lines_cut [OF less.prems(1) ne(1)] and A = kept_lines_cut [OF less.prems(2) ne(2)]
    have "compare_lines (snd (cut_line e)) (snd (cut_line a)) =
        Some (kept_lines (snd (cut_line e)) = kept_lines (snd (cut_line a)))"
      by (rule less.hyps [OF cut_line_length [OF ne(1)] E(2) A(2)])
    then show ?thesis
      unfolding E(1) A(1)
      by (subst compare_lines.simps) (simp add: ne case_prod_beta)
  qed
qed

text \<open>Trimming the whole text first does not change its lines.\<close>

lemma trim_blank_snoc: "trim_right blank_char (s @ [c]) = (if blank_char c then trim_right blank_char s else s @ [c])"
  by (simp add: trim_right_snoc)

lemma split_on_snoc:
  "split_on d (s @ [c]) =
     (if c = d then split_on d s @ [[]] else butlast (split_on d s) @ [last (split_on d s) @ [c]])"
proof (induction s)
  case Nil
  then show ?case by simp
next
  case (Cons a s)
  then show ?case by (cases "split_on d s"; cases "split_on d (s @ [c])") (auto split: if_splits)
qed

lemma text_lines_snoc:
  "text_lines (s @ [c]) = (if blank_or_newline c then text_lines s else kept_lines (s @ [c]))"
proof -
  let ?P = "split_on linefeed s"
  consider "c = linefeed" | "blank_char c" "c \<noteq> linefeed" | "\<not> blank_or_newline c"
    by (auto simp: blank_or_newline_def)
  then show ?thesis
  proof cases
    case 1
    then show ?thesis by (simp add: text_lines_def split_on_snoc blank_or_newline_def)
  next
    case 2
    have "map (trim_right blank_char) (butlast ?P @ [last ?P @ [c]]) = map (trim_right blank_char) (butlast ?P @ [last ?P])"
      using 2(1) by (simp add: trim_blank_snoc del: append_butlast_last_id)
    also have "\<dots> = map (trim_right blank_char) ?P" by (simp only: append_butlast_last_id [OF split_on_not_Nil])
    finally show ?thesis using 2 by (simp add: text_lines_def split_on_snoc blank_or_newline_def)
  next
    case 3
    then have "c \<noteq> linefeed" "trim_right blank_char (last ?P @ [c]) = last ?P @ [c]"
      by (auto simp: blank_or_newline_def trim_blank_snoc)
    then show ?thesis using 3
      by (simp add: text_lines_def kept_lines_def split_on_snoc)
  qed
qed

lemma text_lines_trimmed: "text_lines s = kept_lines (trim_right blank_or_newline s)"
proof (induction s rule: rev_induct)
  case Nil
  then show ?case by (simp add: text_lines_def kept_lines_def trim_right_def)
next
  case (snoc c s)
  then show ?case by (simp add: text_lines_snoc trim_right_snoc)
qed

lemma trimmed_ended: "ended (trim_right blank_or_newline s)"
  by (induction s rule: rev_induct) (auto simp: ended_def trim_right_snoc blank_or_newline_def)

lemma compareOutputs_value: "compareOutputs expected actual = Some (text_lines expected = text_lines actual)"
  by (simp add: compareOutputs_def compare_lines_kept trimmed_ended text_lines_trimmed)

section \<open>Properties\<close>

text \<open>
  C28. The judge compares lines. For every two outputs the comparison returns, and it accepts exactly when they have
  the same lines once blanks, tabs and carriage returns at the end of each line and empty
  lines at the end of the output are left out.
\<close>

theorem compare_outputs_exact:
  "(\<exists>verdict. compareOutputs expected actual = Some verdict) \<and>
   (compareOutputs expected actual = Some True \<longleftrightarrow> text_lines expected = text_lines actual)"
  by (simp add: compareOutputs_value)

end
