(* ===== verification/Verdict.thy ===== *)
theory Verdict
  imports Output_Compare Run_Checks Entry_State Profiles
begin

text \<open>
  internal/execute/judge.go and the end of \<open>runOneWithStdin\<close> in internal/execute/service.go: how the result of the
  sandbox becomes a verdict. The sandbox, the files it leaves and the parser of floating-point numbers are
  parameters. Quantities are those of validated limits, far inside 64 bits.
\<close>

section \<open>Results of the sandbox\<close>

record execResult =
  er_Status :: string
  er_ExitCode :: "int option"
  er_Stdout :: string
  er_Stderr :: string
  er_StdoutTruncated :: bool
  er_StderrTruncated :: bool
  er_MemoryKB :: int
  er_WallTimeMs :: int
  er_CPUTimeMs :: int
  er_CPUTimeNs :: "64 word"
  er_RawCPUTimeMs :: "int option"
  er_RawCPUTimeNs :: "(64 word) option"
  er_CPUAccounting :: "CPUAccounting option"
  er_ProcessCPUTimeMs :: int
  er_Reason :: string
  er_VerdictSource :: string

type_synonym verdict = "string \<times> string \<times> string"

definition applyCPUTimeLimitStatus :: "string \<Rightarrow> string \<Rightarrow> string \<Rightarrow> bool \<Rightarrow> bool \<Rightarrow> verdict" where
  "applyCPUTimeLimitStatus status reason source exceeded cgroupBacked =
     (if \<not> exceeded then (status, reason, source)
      else if status \<noteq> StatusOK \<and> status \<noteq> RunStatusAccepted then (status, reason, source)
      else (RunStatusTLE, ''cpu time limit exceeded'',
            if cgroupBacked then ''cpu_time_cgroup_final'' else ''cpu_time_final''))"

definition applyFinalCPUTimeStatus :: "string \<Rightarrow> string \<Rightarrow> string \<Rightarrow> int \<Rightarrow> int \<Rightarrow> bool \<Rightarrow> verdict" where
  "applyFinalCPUTimeStatus status reason source cpuTimeMs limitMs cgroupBacked =
     applyCPUTimeLimitStatus status reason source (limitMs > 0 \<and> cpuTimeMs > limitMs) cgroupBacked"

definition applyFinalCPUTimeStatusNs ::
  "string \<Rightarrow> string \<Rightarrow> string \<Rightarrow> 64 word \<Rightarrow> 64 word \<Rightarrow> bool \<Rightarrow> verdict" where
  "applyFinalCPUTimeStatusNs status reason source cpuTimeNs limitNs cgroupBacked =
     applyCPUTimeLimitStatus status reason source (cpuTimeNs > limitNs) cgroupBacked"

definition classifyRunStatusWithoutOutput :: "RunRequest \<Rightarrow> execResult \<Rightarrow> verdict" where
  "classifyRunStatusWithoutOutput req res =
     (case applyFinalCPUTimeStatus (er_Status res) (er_Reason res) (er_VerdictSource res) (er_CPUTimeMs res)
             (lim_TimeMs (rq_Limits req)) (has_prefix (er_VerdictSource res) ''cpu_time_cgroup'') of
        (status, reason, source) \<Rightarrow>
          (let memoryMB = lim_MemoryMB (rq_Limits req);
               (status, source) =
                 (if status = StatusOK \<and> memoryMB > 0 \<and> er_MemoryKB res > memoryMB * 1024
                  then (RunStatusMLE, ''memory_reported'') else (status, source)) in
           if NormalizeRunLang (rq_Lang req) = ''entry'' \<and> status = StatusOK \<and> er_ExitCode res = Some 124
             then (RunStatusTLE, ''Entry instruction or logical tick limit exceeded'', ''entry_limit'')
           else if status = StatusOK \<and> (\<exists>c. er_ExitCode res = Some c \<and> c \<noteq> 0)
             then (RunStatusRE, reason, ''exit_code'')
           else (status, reason, source)))"

section \<open>The special judge\<close>

text \<open>A float64 as \<open>strconv.ParseFloat\<close> gives it.\<close>

datatype parsed_float = NotANumber | Infinite | Finite rat

datatype spj_error =
    SpjRequired
  | SpjInvalid check_error
  | SpjData
  | SpjSize
  | SpjPrepare string
  | SpjFailed string
  | ScoreTruncated
  | ScoreSyntax string
  | ScoreRange

text \<open>
  What judging asks of the rest: the environment of the checks, the text of their errors and of a failed
  Base64 decoding, the parser of numbers, why the workspace of the judge could not be made, if it could not, and the run of the judge's
  program on its files in that workspace, which fails with a text before it starts or gives a result.
\<close>

record judge_env =
  je_env :: env
  je_check_text :: "check_error \<Rightarrow> string"
  je_base64_text :: string
  je_parse_float :: "string \<Rightarrow> string + parsed_float"
  je_workspace :: "string option"
  je_sandbox :: "string \<Rightarrow> Limits \<Rightarrow> string \<Rightarrow> SidecarOutput list \<Rightarrow> string + execResult"

definition spj_error_text :: "judge_env \<Rightarrow> spj_error \<Rightarrow> string" where
  "spj_error_text J e =
     (case e of
        SpjRequired \<Rightarrow> ''spj is required''
      | SpjInvalid c \<Rightarrow> je_check_text J c
      | SpjData \<Rightarrow> je_base64_text J
      | SpjSize \<Rightarrow> ''spj binary too large''
      | SpjPrepare t \<Rightarrow> t
      | SpjFailed st \<Rightarrow> ''spj failed: '' @ st
      | ScoreTruncated \<Rightarrow> ''score output exceeded output limit''
      | ScoreSyntax t \<Rightarrow> t
      | ScoreRange \<Rightarrow> ''spj score out of range'')"

definition defaultSPJTimeMs :: int where "defaultSPJTimeMs = 1000"
definition defaultSPJMemoryMB :: int where "defaultSPJMemoryMB = 256"
definition defaultWorkspaceBytes :: int where "defaultWorkspaceBytes = 128 * 2 ^ 20"

definition spj_limits :: "Limits \<Rightarrow> Limits option \<Rightarrow> Limits" where
  "spj_limits run configured =
     (case configured of
        None \<Rightarrow> zero_Limits\<lparr>lim_TimeMs := defaultSPJTimeMs, lim_MemoryMB := defaultSPJMemoryMB,
                  lim_OutputBytes := lim_OutputBytes run, lim_WorkspaceBytes := defaultWorkspaceBytes\<rparr>
      | Some l \<Rightarrow> l\<lparr>lim_TimeMs := (if lim_TimeMs l \<le> 0 then defaultSPJTimeMs else lim_TimeMs l),
                  lim_MemoryMB := (if lim_MemoryMB l \<le> 0 then defaultSPJMemoryMB else lim_MemoryMB l),
                  lim_WorkspaceBytes := (if lim_WorkspaceBytes l \<le> 0 then defaultWorkspaceBytes else lim_WorkspaceBytes l)\<rparr>)"

text \<open>What the exit and the output of the judge's program mean.\<close>

definition spj_score :: "judge_env \<Rightarrow> execResult \<Rightarrow> spj_error + rat" where
  "spj_score J res =
     (if er_StdoutTruncated res then Inl ScoreTruncated
      else
        (let raw = trim_space (er_Stdout res) in
         if raw = [] then Inr 0
         else (case je_parse_float J raw of
                 Inl e \<Rightarrow> Inl (ScoreSyntax e)
               | Inr (Finite v) \<Rightarrow> if v < 0 \<or> v > 1 then Inl ScoreRange else Inr v
               | Inr _ \<Rightarrow> Inl ScoreRange)))"

definition spj_outcome :: "judge_env \<Rightarrow> bool \<Rightarrow> execResult \<Rightarrow> spj_error + bool \<times> rat option" where
  "spj_outcome J emitScore res =
     (if er_Status res \<in> {RunStatusTLE, RunStatusMLE, RunStatusWLE, RunStatusInitFail}
        then Inl (SpjFailed (er_Status res))
      else if er_ExitCode res = Some 0 then
        (if emitScore then and_then (spj_score J res) (\<lambda>v. Inr (True, Some v)) else Inr (True, None))
      else if emitScore then Inr (False, Some 0)
      else Inr (False, None))"

definition runSPJ ::
  "judge_env \<Rightarrow> RunRequest \<Rightarrow> string \<Rightarrow> SidecarOutput list \<Rightarrow> spj_error + bool \<times> rat option" where
  "runSPJ J req userStdout sidecars =
     (case rq_SPJ req of
        None \<Rightarrow> Inl SpjRequired
      | Some s \<Rightarrow>
          checked (map_option SpjInvalid (ValidateSPJ (je_env J) (Some s)))
          (checked (map_option SpjPrepare (je_workspace J))
          (case b64_decode (case spj_Binary s of None \<Rightarrow> [] | Some b \<Rightarrow> bin_DataB64 b) of
             None \<Rightarrow> Inl SpjData
           | Some data \<Rightarrow>
               if length data > MaxBinaryFileBytes then Inl SpjSize
               else
                 (let norm = NormalizeRunLang (spj_Lang s);
                      spjLang = (if norm = [] \<or> norm = ''binary'' then ''binary'' else norm) in
                  case je_sandbox J spjLang (spj_limits (rq_Limits req) (spj_Limits s)) userStdout sidecars of
                    Inl e \<Rightarrow> Inl (SpjPrepare e)
                  | Inr res \<Rightarrow> spj_outcome J (spj_EmitScore s) res))))"

section \<open>The verdict\<close>

text \<open>The judge in charge of the output: the Entry state, the special judge, or the comparison.\<close>

datatype judged = JudgeBroken | JudgeFailed spj_error | Judged bool "rat option"

definition judge_output :: "judge_env \<Rightarrow> RunRequest \<Rightarrow> string \<Rightarrow> SidecarOutput list \<Rightarrow> judged option" where
  "judge_output J req judgeOut sidecars =
     (if rq_EntryMode req = ''state'' then
        (case CompareState (env_json_tokens (je_env J)) (rq_ExpectedStdout req) judgeOut of
           None \<Rightarrow> Some JudgeBroken
         | Some ok \<Rightarrow> Some (Judged ok None))
      else if rq_SPJ req \<noteq> None then
        (case runSPJ J req judgeOut sidecars of
           Inl e \<Rightarrow> Some (JudgeFailed e)
         | Inr (ok, score) \<Rightarrow> Some (Judged ok score))
      else map_option (\<lambda>ok. Judged ok None) (compareOutputs (rq_ExpectedStdout req) judgeOut))"

text \<open>
  \<open>evaluateRunStatus\<close>; \<open>None\<close> only if the comparison never ended. The three variables the code declares first are
  \<open>v\<close>, and those the judge sets are the result of \<open>judge_output\<close>.
\<close>

definition failed_spj :: "judge_env \<Rightarrow> spj_error \<Rightarrow> verdict" where
  "failed_spj J e =
     (let reason = spj_error_text J e in
      (RunStatusRE, if has_prefix reason ''spj '' then reason else ''spj failed: '' @ reason, ''spj''))"

definition settle_verdict ::
  "RunRequest \<Rightarrow> string \<Rightarrow> verdict \<Rightarrow> bool \<Rightarrow> rat option \<Rightarrow> string \<times> rat option \<times> string \<times> string" where
  "settle_verdict req judgeSource v outputOK score =
     (case v of (status, reason, source) \<Rightarrow>
        (let (status, source) =
           (if status = StatusOK then
              (if outputOK then RunStatusAccepted else RunStatusWA,
               if rq_EntryMode req = ''state'' then ''entry_state''
               else if rq_SPJ req \<noteq> None then ''spj''
               else if judgeSource \<noteq> [] then judgeSource else ''stdout'')
            else (status, source));
             score = (if status = RunStatusTLE \<and> rq_IgnoreTLE req \<and> score = None
                      then Some (if outputOK then 1 else 0) else score) in
         (status, score, reason, source)))"

definition evaluateRunStatus ::
  "judge_env \<Rightarrow> RunRequest \<Rightarrow> execResult \<Rightarrow> string \<Rightarrow> string \<Rightarrow> SidecarOutput list \<Rightarrow>
   (string \<times> rat option \<times> string \<times> string) option" where
  "evaluateRunStatus J req res judgeOut judgeSource sidecars =
     (let stdoutLimitExceeded = (judgeSource = ''stdout'' \<and> er_StdoutTruncated res) in
      case classifyRunStatusWithoutOutput req res of (status0, reason0, source0) \<Rightarrow>
        (let v = applyStdoutLimitVerdict status0 reason0 source0 stdoutLimitExceeded; status = fst v;
             judgeOutputAvailable = (rq_FileOutputs req = [] \<or> judgeSource = ''file_output'');
             evaluateOutputs = (status = StatusOK \<or> status = RunStatusTLE \<and> rq_IgnoreTLE req) in
         if evaluateOutputs \<and> judgeOutputAvailable \<and> \<not> stdoutLimitExceeded then
           (case judge_output J req judgeOut sidecars of
              None \<Rightarrow> None
            | Some JudgeBroken \<Rightarrow> Some (RunStatusInitFail, None, ''invalid Entry state expectation'', ''entry_state'')
            | Some (JudgeFailed e) \<Rightarrow>
                Some (settle_verdict req judgeSource (if status = StatusOK then failed_spj J e else v) False None)
            | Some (Judged ok score) \<Rightarrow> Some (settle_verdict req judgeSource v ok score))
         else Some (settle_verdict req judgeSource v False None)))"


section \<open>What the verdict depends on\<close>

text \<open>Within the limits: neither the final CPU time nor the memory is over the limit, and the exit code is no error.\<close>

definition ran_clean :: "RunRequest \<Rightarrow> execResult \<Rightarrow> bool" where
  "ran_clean req res \<longleftrightarrow>
     er_Status res = StatusOK \<and>
     \<not> (lim_TimeMs (rq_Limits req) > 0 \<and> er_CPUTimeMs res > lim_TimeMs (rq_Limits req)) \<and>
     \<not> (lim_MemoryMB (rq_Limits req) > 0 \<and> er_MemoryKB res > lim_MemoryMB (rq_Limits req) * 1024) \<and>
     (er_ExitCode res = None \<or> er_ExitCode res = Some 0)"

lemma classify_ok_iff:
  "fst (classifyRunStatusWithoutOutput req res) = StatusOK \<longleftrightarrow> ran_clean req res"
  by (cases "er_ExitCode res")
     (auto simp: classifyRunStatusWithoutOutput_def applyFinalCPUTimeStatus_def applyCPUTimeLimitStatus_def
       ran_clean_def Let_def run_status_neq)

lemma classify_accepted:
  "fst (classifyRunStatusWithoutOutput req res) = RunStatusAccepted \<Longrightarrow> er_Status res = RunStatusAccepted"
  by (cases "er_ExitCode res")
     (auto simp: classifyRunStatusWithoutOutput_def applyFinalCPUTimeStatus_def applyCPUTimeLimitStatus_def
       Let_def run_status_neq split: if_splits)

lemma limit_verdict_fst:
  "fst (applyStdoutLimitVerdict s r so e) = (if e \<and> (s = StatusOK \<or> s = RunStatusAccepted) then RunStatusRE else s)"
  by (auto simp: applyStdoutLimitVerdict_def StatusOK_def)

lemma settle_status:
  "fst (settle_verdict req js v ok score) =
     (if fst v = StatusOK then (if ok then RunStatusAccepted else RunStatusWA) else fst v)"
  by (cases v) (simp add: settle_verdict_def Let_def)

lemma settle_score:
  "fst (snd (settle_verdict req js v ok score)) =
     (if fst v = RunStatusTLE \<and> rq_IgnoreTLE req \<and> score = None then Some (if ok then 1 else 0) else score)"
  by (cases v) (simp add: settle_verdict_def Let_def run_status_neq)

lemma failed_spj_status [simp]: "fst (failed_spj J e) = RunStatusRE"
  by (simp add: failed_spj_def Let_def)

text \<open>The special judge gives scores between 0 and 1.\<close>

lemma spj_score_range: "spj_score J res = Inr v \<Longrightarrow> 0 \<le> v \<and> v \<le> 1"
  by (auto simp: spj_score_def Let_def split: if_splits sum.splits parsed_float.splits)

lemma spj_outcome_range: "spj_outcome J emit res = Inr (ok, Some v) \<Longrightarrow> 0 \<le> v \<and> v \<le> 1"
  by (cases "spj_score J res") (auto simp: spj_outcome_def spj_score_range split: if_splits)

lemma runSPJ_range: "runSPJ J req out sc = Inr (ok, Some v) \<Longrightarrow> 0 \<le> v \<and> v \<le> 1"
  by (auto simp: runSPJ_def Let_def spj_outcome_range split: option.splits if_splits sum.splits)

lemma judge_output_returns: "judge_output J req out sc \<noteq> None"
  by (auto simp: judge_output_def compareOutputs_value split: option.splits sum.splits)

lemma judge_output_range: "judge_output J req out sc = Some (Judged ok (Some v)) \<Longrightarrow> 0 \<le> v \<and> v \<le> 1"
  by (auto simp: judge_output_def runSPJ_range split: option.splits sum.splits if_splits)


definition judge_accepts :: "judge_env \<Rightarrow> RunRequest \<Rightarrow> string \<Rightarrow> SidecarOutput list \<Rightarrow> bool" where
  "judge_accepts J req out sidecars \<longleftrightarrow>
     (if rq_EntryMode req = ''state'' then CompareState (env_json_tokens (je_env J)) (rq_ExpectedStdout req) out = Some True
      else if rq_SPJ req \<noteq> None then (\<exists>score. runSPJ J req out sidecars = Inr (True, score))
      else text_lines (rq_ExpectedStdout req) = text_lines out)"

lemma judge_output_accepts:
  "judge_accepts J req out sc \<longleftrightarrow> (\<exists>score. judge_output J req out sc = Some (Judged True score))"
  by (auto simp: judge_accepts_def judge_output_def compareOutputs_value split: option.splits sum.splits)

text \<open>The run went well and its output is there to be judged.\<close>

definition output_judged :: "RunRequest \<Rightarrow> execResult \<Rightarrow> string \<Rightarrow> bool" where
  "output_judged req res judgeSource \<longleftrightarrow>
     ran_clean req res \<and> \<not> (judgeSource = ''stdout'' \<and> er_StdoutTruncated res) \<and>
     (rq_FileOutputs req = [] \<or> judgeSource = ''file_output'')"

abbreviation first_verdict :: "RunRequest \<Rightarrow> execResult \<Rightarrow> string \<Rightarrow> verdict" where
  "first_verdict req res judgeSource \<equiv>
     (case classifyRunStatusWithoutOutput req res of (s, r, so) \<Rightarrow>
        applyStdoutLimitVerdict s r so (judgeSource = ''stdout'' \<and> er_StdoutTruncated res))"

lemma first_verdict_ok:
  "fst (first_verdict req res js) = StatusOK \<longleftrightarrow> ran_clean req res \<and> \<not> (js = ''stdout'' \<and> er_StdoutTruncated res)"
  by (cases "classifyRunStatusWithoutOutput req res")
     (use classify_ok_iff [of req res] in \<open>auto simp: limit_verdict_fst\<close>)

lemma first_verdict_accepted:
  "er_Status res \<noteq> RunStatusAccepted \<Longrightarrow> fst (first_verdict req res js) \<noteq> RunStatusAccepted"
  by (cases "classifyRunStatusWithoutOutput req res")
     (use classify_accepted [of req res] in \<open>auto simp: limit_verdict_fst\<close>)


definition judged_verdict :: "judge_env \<Rightarrow> RunRequest \<Rightarrow> string \<Rightarrow> verdict \<Rightarrow> judged \<Rightarrow> string \<times> rat option \<times> string \<times> string" where
  "judged_verdict J req js v j =
     (case j of
        JudgeBroken \<Rightarrow> (RunStatusInitFail, None, ''invalid Entry state expectation'', ''entry_state'')
      | JudgeFailed e \<Rightarrow> settle_verdict req js (if fst v = StatusOK then failed_spj J e else v) False None
      | Judged ok score \<Rightarrow> settle_verdict req js v ok score)"

text \<open>The two branches: the judge is asked, or the output counts as wrong.\<close>

lemma evaluate_branches:
  assumes v: "v = first_verdict req res js"
  obtains (judged) j where
      "evaluateRunStatus J req res out js sc = Some (judged_verdict J req js v j)"
      "judge_output J req out sc = Some j" "\<not> (js = ''stdout'' \<and> er_StdoutTruncated res)"
      "rq_FileOutputs req = [] \<or> js = ''file_output''"
  | (skipped) "evaluateRunStatus J req res out js sc = Some (settle_verdict req js v False None)"
      "\<not> output_judged req res js"
proof -
  obtain s0 r0 so0 where c: "classifyRunStatusWithoutOutput req res = (s0, r0, so0)" by (cases "classifyRunStatusWithoutOutput req res")
  obtain j where j: "judge_output J req out sc = Some j" using judge_output_returns by blast
  let ?gate = "(fst v = StatusOK \<or> fst v = RunStatusTLE \<and> rq_IgnoreTLE req) \<and>
    (rq_FileOutputs req = [] \<or> js = ''file_output'') \<and> \<not> (js = ''stdout'' \<and> er_StdoutTruncated res)"
  have ev: "evaluateRunStatus J req res out js sc =
      (if ?gate then Some (judged_verdict J req js v j) else Some (settle_verdict req js v False None))"
    using v c j by (cases j) (simp_all add: evaluateRunStatus_def judged_verdict_def Let_def)
  show thesis
  proof (cases ?gate)
    case True
    then have "evaluateRunStatus J req res out js sc = Some (judged_verdict J req js v j)"
      unfolding ev by (rule if_P)
    then show thesis using judged j True by blast
  next
    case False
    then have "\<not> output_judged req res js"
      using first_verdict_ok [where req = req and res = res and js = js] v by (auto simp: output_judged_def)
    moreover have "evaluateRunStatus J req res out js sc = Some (settle_verdict req js v False None)"
      unfolding ev using False by (rule if_not_P)
    ultimately show thesis using skipped by blast
  qed
qed

lemma judged_verdict_facts:
  assumes "fst v \<noteq> RunStatusAccepted"
  shows "fst (judged_verdict J req js v j) \<noteq> StatusOK"
    and "fst (judged_verdict J req js v j) = RunStatusAccepted \<longleftrightarrow> fst v = StatusOK \<and> (\<exists>score. j = Judged True score)"
  using assms by (cases j; auto simp: judged_verdict_def settle_status)+

lemma judged_verdict_score:
  assumes "fst (snd (judged_verdict J req js v j)) = Some q" "judge_output J req out sc = Some j"
  shows "0 \<le> q \<and> q \<le> 1"
  using assms judge_output_range [of J req out sc]
  by (cases j) (auto simp: judged_verdict_def settle_score split: if_splits)

section \<open>Properties\<close>

text \<open>
  C27. The verdict is exact. Judging a run always returns; the run is accepted exactly when the sandbox
  reported success within the limits of time and memory and without an error code, the output to judge was captured in full, and the judge in charge
  (the Entry state, the special judge, or the comparison of lines) accepts it. The internal status OK never leaves, and a score is between 0 and 1.
\<close>

theorem verdict_exact:
  assumes "er_Status res \<noteq> RunStatusAccepted"
  shows "\<exists>status score reason source.
           evaluateRunStatus J req res out js sc = Some (status, score, reason, source) \<and> status \<noteq> StatusOK \<and>
           (status = RunStatusAccepted \<longleftrightarrow> output_judged req res js \<and> judge_accepts J req out sc) \<and>
           (\<forall>q. score = Some q \<longrightarrow> 0 \<le> q \<and> q \<le> 1)"
proof -
  define v where "v = first_verdict req res js"
  have na: "fst v \<noteq> RunStatusAccepted" unfolding v_def by (rule first_verdict_accepted [OF assms])
  have ok: "fst v = StatusOK \<longleftrightarrow> ran_clean req res \<and> \<not> (js = ''stdout'' \<and> er_StdoutTruncated res)"
    unfolding v_def by (rule first_verdict_ok)
  show ?thesis
  proof (rule evaluate_branches [OF v_def, of J out sc])
    fix j
    assume j: "evaluateRunStatus J req res out js sc = Some (judged_verdict J req js v j)" "judge_output J req out sc = Some j"
      "\<not> (js = ''stdout'' \<and> er_StdoutTruncated res)" "rq_FileOutputs req = [] \<or> js = ''file_output''"
    have "fst v = StatusOK \<and> (\<exists>score. j = Judged True score) \<longleftrightarrow> output_judged req res js \<and> judge_accepts J req out sc"
      using j(2-4) ok by (auto simp: output_judged_def judge_output_accepts)
    then show ?thesis
      using judged_verdict_facts [OF na, where J = J and req = req and js = js and j = j]
        judged_verdict_score [OF _ j(2), where js = js and v = v] j(1)
      by (cases "judged_verdict J req js v j") auto
  next
    assume sk: "evaluateRunStatus J req res out js sc = Some (settle_verdict req js v False None)"
      "\<not> output_judged req res js"
    show ?thesis
      using sk na settle_status [where req = req and js = js and v = v and ok = False and score = None] settle_score [where req = req and js = js and v = v and ok = False and score = None]
      by (cases "settle_verdict req js v False None") (auto split: if_splits)
  qed
qed


definition plain_judge :: judge_env where
  "plain_judge =
     \<lparr>je_env = \<lparr>env_url_parse = (\<lambda>_. None), env_sha256_hex = (\<lambda>_. []), env_json_tokens = (\<lambda>_. [])\<rparr>,
      je_check_text = (\<lambda>_. []), je_base64_text = [], je_parse_float = (\<lambda>_. Inl []), je_workspace = None,
      je_sandbox = (\<lambda>_ _ _ _. Inl [])\<rparr>"

definition plain_result :: execResult where
  "plain_result =
     \<lparr>er_Status = StatusOK, er_ExitCode = Some 0, er_Stdout = ''7'', er_Stderr = [], er_StdoutTruncated = False,
      er_StderrTruncated = False, er_MemoryKB = 900, er_WallTimeMs = 12, er_CPUTimeMs = 10, er_CPUTimeNs = 0,
      er_RawCPUTimeMs = None, er_RawCPUTimeNs = None, er_CPUAccounting = None, er_ProcessCPUTimeMs = 10,
      er_Reason = [], er_VerdictSource = []\<rparr>"

definition sum_request :: RunRequest where
  "sum_request = zero_RunRequest
     \<lparr>rq_Lang := ''binary'', rq_ExpectedStdout := ''7'', rq_Limits := zero_Limits\<lparr>lim_TimeMs := 1000, lim_MemoryMB := 64\<rparr>\<rparr>"

theorem verdict_exact_witness:
  "\<exists>score reason source.
     evaluateRunStatus plain_judge sum_request plain_result [CHR ''7'', CHR '' '', linefeed] ''stdout'' [] =
       Some (RunStatusAccepted, score, reason, source)"
proof -
  have clean: "er_Status plain_result \<noteq> RunStatusAccepted" "output_judged sum_request plain_result ''stdout''"
    by (simp_all add: plain_result_def output_judged_def ran_clean_def sum_request_def zero_defs)
  have "judge_accepts plain_judge sum_request [CHR ''7'', CHR '' '', linefeed] []"
    by (simp add: judge_accepts_def sum_request_def zero_defs text_lines_def trim_right_def blank_char_def)
  with clean(2) verdict_exact [OF clean(1), of plain_judge sum_request "[CHR ''7'', CHR '' '', linefeed]" "''stdout''" "[]"]
  show ?thesis by blast
qed

end
