(* ===== verification/Run_One.thy ===== *)
theory Run_One
  imports Verdict Platform Runtime_Tuning Cpu_Normalization Go_Base64
begin

text \<open>
  internal/execute/service.go, judge.go and the limits at the end of sandbox_exec.go: one execution from its request to its
  response. The workspace, the downloads and the sandbox are parameters; each step of them that can fail is a
  field of the host, in the order the code asks.
\<close>

section \<open>Clipping\<close>

text \<open>The loop of \<open>clipUTF8\<close>: whole runes up to the first byte that starts none.\<close>

function valid_part :: "string \<Rightarrow> string" where
  "valid_part [] = []"
| "valid_part (a # s) =
     (let w = snd (decode_rune (a # s)) in
      if fst (decode_rune (a # s)) = rune_error \<and> w = 1 then []
      else take w (a # s) @ valid_part (drop w (a # s)))"
  by pat_completeness auto
termination
proof (relation "measure length")
  fix a :: char and s :: string and w
  assume "w = snd (decode_rune (a # s))"
  then have "1 \<le> w" using decode_rune_width [of "a # s"] by simp
  then show "(drop w (a # s), a # s) \<in> measure length" by simp
qed simp

declare valid_part.simps(2) [simp del]

definition clipUTF8 :: "string \<Rightarrow> int \<Rightarrow> string" where
  "clipUTF8 b n = (if n \<le> 0 then [] else valid_part (take (nat (if n > int (length b) then int (length b) else n)) b))"

definition capturedOutputValue :: "string \<Rightarrow> int \<Rightarrow> string \<times> bool" where
  "capturedOutputValue output limit =
     (let val = clipUTF8 output limit in (val, length val < length output))"

text \<open>A write to the buffer that keeps the first bytes of an output; the flag is \<open>truncated\<close>.\<close>

definition capped_write :: "int \<Rightarrow> string \<Rightarrow> string \<times> bool \<Rightarrow> string \<times> bool" where
  "capped_write limit p b =
     (case b of (buf, truncated) \<Rightarrow>
        (let remaining = limit - int (length buf) in
         if remaining > 0 then
           (if int (length p) > remaining then (buf @ take (nat remaining) p, True) else (buf @ p, truncated))
         else if length p > 0 then (buf, True)
         else (buf, truncated)))"

section \<open>Limits\<close>

definition DefaultOutputBytes :: int where "DefaultOutputBytes = 64 * 2 ^ 10"
definition maxCapturedSidecarTotalBytes :: int where "maxCapturedSidecarTotalBytes = 16 * 2 ^ 20"
definition maxSidecarOutputSpecs :: nat where "maxSidecarOutputSpecs = 64"

definition outputLimitBytes :: "Limits \<Rightarrow> int" where
  "outputLimitBytes l =
     (if lim_OutputBytes l \<le> 0 then DefaultOutputBytes
      else if lim_OutputBytes l > MaxOutputBytes then MaxOutputBytes
      else lim_OutputBytes l)"

definition responseOutputLimitBytes :: "Limits \<Rightarrow> int" where
  "responseOutputLimitBytes l = min (outputLimitBytes l) DefaultOutputBytes"

definition responseCaptureLimitBytes :: "int option \<Rightarrow> int \<Rightarrow> int" where
  "responseCaptureLimitBytes configured executionLimit =
     (case configured of
        None \<Rightarrow> min executionLimit DefaultOutputBytes
      | Some n \<Rightarrow> if n \<le> 0 then 0 else min n (min executionLimit MaxCaptureBytes))"

definition responseStdoutLimitBytes :: "RunRequest \<Rightarrow> int" where
  "responseStdoutLimitBytes req =
     (case rq_CaptureLimits req of
        None \<Rightarrow> responseOutputLimitBytes (rq_Limits req)
      | Some c \<Rightarrow> responseCaptureLimitBytes (cl_StdoutBytes c) (outputLimitBytes (rq_Limits req)))"

definition responseStderrLimitBytes :: "RunRequest \<Rightarrow> int" where
  "responseStderrLimitBytes req =
     (case rq_CaptureLimits req of
        None \<Rightarrow> responseOutputLimitBytes (rq_Limits req)
      | Some c \<Rightarrow> responseCaptureLimitBytes (cl_StderrBytes c) (outputLimitBytes (rq_Limits req)))"

definition stdinURLMaxBytes :: "Limits \<Rightarrow> int" where
  "stdinURLMaxBytes l =
     (let limit = (if lim_WorkspaceBytes l \<le> 0 then defaultWorkspaceBytes else lim_WorkspaceBytes l) in
      if limit > MaxWorkspaceBytes then MaxWorkspaceBytes else limit)"

section \<open>Captured files\<close>

text \<open>Opening an output of the workspace: the text of an error, or its size and what reading it gives.\<close>

datatype opened = NotOpened string | Opened int "string + string"

definition captureFileOutput :: "opened \<Rightarrow> string + string" where
  "captureFileOutput f =
     (case f of
        NotOpened e \<Rightarrow> Inl e
      | Opened n content \<Rightarrow>
          if n > MaxPipelineParticipantFileBytes then Inl ''captured output too large'' else content)"

definition sidecar_step ::
  "(string \<Rightarrow> opened) \<Rightarrow> OutputFile \<Rightarrow> int \<times> SidecarOutput list \<times> SidecarError list \<Rightarrow>
   int \<times> SidecarOutput list \<times> SidecarError list" where
  "sidecar_step openf spec st =
     (case st of (totalBytes, outputs, errs) \<Rightarrow>
        (let failed = (\<lambda>reason. (totalBytes, outputs, errs @ [\<lparr>se_Path = outf_Path spec, se_Reason = reason\<rparr>])) in
         case openf (outf_Path spec) of
           NotOpened e \<Rightarrow> failed ''capture failed''
         | Opened n content \<Rightarrow>
             if n > MaxPipelineParticipantFileBytes then failed ''file too large''
             else if totalBytes + n > maxCapturedSidecarTotalBytes then failed ''sidecar total size exceeded''
             else (case content of
                     Inl e \<Rightarrow> failed ''read failed''
                   | Inr data \<Rightarrow> (totalBytes + int (length data),
                       outputs @ [\<lparr>so_Path = outf_Path spec, so_DataB64 = b64_encode data\<rparr>], errs))))"

definition captureSidecarOutputs ::
  "(string \<Rightarrow> opened) \<Rightarrow> OutputFile list \<Rightarrow> SidecarOutput list \<times> SidecarError list" where
  "captureSidecarOutputs openf specs = snd (fold (sidecar_step openf) specs (0, [], []))"


section \<open>One execution\<close>

text \<open>What the executions need of the \<open>Service\<close>.\<close>

record exec_service =
  sv_DeploymentTarget :: DeploymentTarget
  sv_NetworkEgressIsolated :: bool
  sv_RuntimeTuning :: RuntimeTuningConfig
  sv_RuntimeTuningProfiles :: "string \<rightharpoonup> RuntimeTuningConfig"
  sv_CPUNormalizer :: CPUNormalizer
  sv_ShortCaseSampling :: bool

text \<open>
  A source of input: its bytes, or \<open>None\<close> when reading it fails. The host gives: whether the work directory and the directories
  of the workspace can be made, the primary file and its language, the command, the download of a URL, the two stages of
  the judge's copy of the input (creating it, then closing and reopening it read-only), the sandbox, the outputs of the
  workspace, the judge, and the time a failed start took.
\<close>

type_synonym source = "string option"

record run_host =
  h_WorkDir :: bool
  h_WorkspaceDirs :: bool
  h_Materialize :: "RunRequest \<Rightarrow> (string \<times> string) option"
  h_Command :: "RuntimeTuningConfig \<Rightarrow> string \<Rightarrow> string \<Rightarrow> RunRequest \<Rightarrow> string list"
  h_StdinURL :: "string \<Rightarrow> int \<Rightarrow> string + source"
  h_JudgeTemp :: bool
  h_JudgeSeal :: bool
  h_Sandbox :: "RuntimeTuningConfig \<Rightarrow> string list \<Rightarrow> RunRequest \<Rightarrow> source option \<Rightarrow> int \<Rightarrow> int \<Rightarrow> execResult"
  h_Open :: "string \<Rightarrow> opened"
  h_Judge :: judge_env
  h_WallMs :: int

record sandboxRunResult =
  rr_response :: RunResponse
  rr_judgeOut :: string
  rr_stdoutOut :: string
  rr_stdoutLimitExceeded :: bool
  rr_logs :: "(string \<times> string) list"

definition networkRequestRejection :: "exec_service \<Rightarrow> bool \<Rightarrow> string" where
  "networkRequestRejection sv enabled =
     (if \<not> enabled then []
      else if sv_DeploymentTarget sv = TargetCloudRun then
        ''embedded helper execution on cloudrun does not support enable_network=true; use an egress-isolated self-hosted remote runner for networked workloads''
      else if sv_DeploymentTarget sv \<noteq> TargetDev \<and> \<not> sv_NetworkEgressIsolated sv then
        ''enable_network=true outside dev requires an egress-isolated runner''
      else [])"

definition failed_response :: "string \<Rightarrow> RunResponse" where
  "failed_response reason = zero_RunResponse\<lparr>rs_Status := RunStatusInitFail, rs_Reason := reason\<rparr>"

definition initializationFailureResponse :: "execResult \<Rightarrow> int \<Rightarrow> RunResponse" where
  "initializationFailureResponse res wallMs = zero_RunResponse
     \<lparr>rs_Status := er_Status res, rs_TimeMs := wallMs, rs_WallTimeMs := wallMs,
      rs_CPUTimeMs := er_CPUTimeMs res, rs_CPUTimeNs := er_CPUTimeNs res,
      rs_RawCPUTimeMs := er_RawCPUTimeMs res, rs_RawCPUTimeNs := er_RawCPUTimeNs res,
      rs_CPUAccounting := er_CPUAccounting res, rs_ProcessCPUTimeMs := er_ProcessCPUTimeMs res,
      rs_MemoryKB := er_MemoryKB res, rs_ExitCode := er_ExitCode res,
      rs_Reason := er_Reason res, rs_VerdictSource := er_VerdictSource res\<rparr>"

definition only_response :: "RunResponse \<Rightarrow> sandboxRunResult" where
  "only_response r = \<lparr>rr_response = r, rr_judgeOut = [], rr_stdoutOut = [], rr_stdoutLimitExceeded = False, rr_logs = []\<rparr>"

text \<open>Up to the sandbox: the reason of a failure, or the command, its input and the bound on the input.\<close>

definition judge_input :: "run_host \<Rightarrow> RunRequest \<Rightarrow> source option \<Rightarrow> int \<Rightarrow> string + source option" where
  "judge_input H req stdin stdinMaxBytes =
     (if rq_SPJ req = None then Inr stdin
      else if \<not> h_JudgeTemp H then Inl ''stdin materialization failed''
      else
        (case (case stdin of None \<Rightarrow> Some (rq_Stdin req) | Some content \<Rightarrow> content) of
           None \<Rightarrow> Inl ''stdin materialization failed''
         | Some data \<Rightarrow>
             if int (length data) > stdinMaxBytes then Inl ''stdin too large''
             else if \<not> h_JudgeSeal H then Inl ''stdin materialization failed''
             else Inr (Some (Some data))))"

definition run_setup ::
  "exec_service \<Rightarrow> run_host \<Rightarrow> RuntimeTuningConfig \<Rightarrow> RunRequest \<Rightarrow> source option \<Rightarrow> int \<Rightarrow>
   string + string list \<times> source option \<times> int" where
  "run_setup sv H tuning req stdin stdinMaxBytes =
     (let rejection = networkRequestRejection sv (rq_EnableNetwork req) in
      if rejection \<noteq> [] then Inl rejection
      else if length (rq_FileOutputs req) > 1 then Inl ''at most one file output is supported''
      else if length (rq_SidecarOutputs req) > maxSidecarOutputSpecs then
        Inl (''too many sidecar outputs: max '' @ dec maxSidecarOutputSpecs)
      else if length (rq_Binaries req) > MaxBinaryFiles then Inl (''too many binaries: max '' @ dec MaxBinaryFiles)
      else if rq_Binaries req = [] then Inl ''no binaries''
      else if \<not> h_WorkDir H then Inl ''work directory creation failed''
      else if \<not> h_WorkspaceDirs H then Inl ''workspace preparation failed''
      else
        (case h_Materialize H req of
           None \<Rightarrow> Inl ''file materialization failed''
         | Some (primaryPath, runLang) \<Rightarrow>
             (let cmdArgs = h_Command H tuning primaryPath runLang req in
              if cmdArgs = [] then Inl ''empty command''
              else
                (case (if stdin = None \<and> trim_space (rq_StdinURL req) \<noteq> [] then
                         (let urlMaxBytes = stdinURLMaxBytes (rq_Limits req) in
                          case h_StdinURL H (rq_StdinURL req) urlMaxBytes of
                            Inl e \<Rightarrow> Inl (''stdin_url: '' @ e)
                          | Inr content \<Rightarrow> Inr (Some content, urlMaxBytes))
                       else Inr (stdin, stdinMaxBytes)) of
                   Inl e \<Rightarrow> Inl e
                 | Inr (stdin, maxBytes) \<Rightarrow>
                     (let maxBytes = (if maxBytes \<le> 0 then int MaxTextFieldBytes else maxBytes) in
                      and_then (judge_input H req stdin maxBytes) (\<lambda>stdin. Inr (cmdArgs, stdin, maxBytes)))))))"

text \<open>\<open>emitCapturedLog\<close>: the line of the log, if there is one.\<close>

definition emitCapturedLog :: "bool \<Rightarrow> string \<Rightarrow> string \<Rightarrow> int \<Rightarrow> (string \<times> string) list" where
  "emitCapturedLog onLog stream output limit =
     (if \<not> onLog \<or> output = [] then []
      else (let val = fst (capturedOutputValue output limit) in if val \<noteq> [] then [(stream, val)] else []))"

text \<open>After the sandbox: collecting the outputs, the verdict, and what of the outputs the response shows.\<close>

definition collect_output :: "run_host \<Rightarrow> RunRequest \<Rightarrow> execResult \<Rightarrow> execResult \<times> string \<times> string" where
  "collect_output H req res =
     (case rq_FileOutputs req of
        [] \<Rightarrow> (res, er_Stdout res, ''stdout'')
      | spec # _ \<Rightarrow>
          (case captureFileOutput (h_Open H (outf_Path spec)) of
             Inl e \<Rightarrow>
               (if fst (classifyRunStatusWithoutOutput req res) = StatusOK
                then res\<lparr>er_Status := RunStatusRE, er_Reason := ''file output capture failed: '' @ e,
                         er_VerdictSource := ''file_output''\<rparr>
                else res, [], ''stdout'')
           | Inr captured \<Rightarrow> (res, captured, ''file_output'')))"

definition shown_output :: "RunRequest \<Rightarrow> string \<Rightarrow> string \<Rightarrow> string \<times> bool" where
  "shown_output req status judgeOut =
     (if rq_EntryMode req = ''state'' then ([], False)
      else if status = RunStatusWA \<or> status = RunStatusRE \<or> status = RunStatusTLE \<and> rq_IgnoreTLE req
        then capturedOutputValue judgeOut (responseStdoutLimitBytes req)
      else ([], False))"

definition shown_errors :: "RunRequest \<Rightarrow> execResult \<Rightarrow> string \<times> bool" where
  "shown_errors req res =
     (if rq_EntryMode req = ''state'' then ([], False)
      else if \<exists>c. er_ExitCode res = Some c \<and> c \<noteq> 0
        then capturedOutputValue (er_Stderr res) (responseStderrLimitBytes req)
      else ([], False))"

definition finish_run ::
  "run_host \<Rightarrow> RunRequest \<Rightarrow> bool \<Rightarrow> bool \<Rightarrow> bool \<Rightarrow> execResult \<Rightarrow> sandboxRunResult option" where
  "finish_run H req onLog evaluateOutput captureRawStdout result =
     (case collect_output H req result of
        (res, judgeOut, judgeSource) \<Rightarrow>
          (case captureSidecarOutputs (h_Open H) (rq_SidecarOutputs req) of
             (sidecarOutputs, sidecarErrors) \<Rightarrow>
               map_option (\<lambda>(status, score, evalReason, verdictSource).
                 (let (outResp, outCut) = shown_output req status judgeOut;
                      (errResp, errCut) = shown_errors req res in
                  \<lparr>rr_response = zero_RunResponse
                     \<lparr>rs_Status := status, rs_TimeMs := er_WallTimeMs res, rs_WallTimeMs := er_WallTimeMs res,
                      rs_CPUTimeMs := er_CPUTimeMs res, rs_CPUTimeNs := er_CPUTimeNs res,
                      rs_RawCPUTimeMs := er_RawCPUTimeMs res, rs_RawCPUTimeNs := er_RawCPUTimeNs res,
                      rs_CPUAccounting := er_CPUAccounting res, rs_ProcessCPUTimeMs := er_ProcessCPUTimeMs res,
                      rs_MemoryKB := er_MemoryKB res, rs_ExitCode := er_ExitCode res,
                      rs_Stdout := outResp, rs_Stderr := errResp,
                      rs_StdoutTruncated := (er_StdoutTruncated res \<or> outCut),
                      rs_StderrTruncated := (er_StderrTruncated res \<or> errCut),
                      rs_Reason := (if evalReason \<noteq> [] then evalReason else er_Reason res),
                      rs_VerdictSource := verdictSource, rs_Score := score,
                      rs_SidecarOutputs := sidecarOutputs, rs_SidecarErrors := sidecarErrors\<rparr>,
                   rr_judgeOut = judgeOut,
                   rr_stdoutOut = (if captureRawStdout then er_Stdout result else []),
                   rr_stdoutLimitExceeded = er_StdoutTruncated res,
                   rr_logs = emitCapturedLog onLog ''stdout'' (er_Stdout result) (responseStdoutLimitBytes req) @
                             emitCapturedLog onLog ''stderr'' (er_Stderr result) (responseStderrLimitBytes req)\<rparr>))
               (if evaluateOutput
                then evaluateRunStatus (h_Judge H) req res judgeOut judgeSource sidecarOutputs
                else (case classifyRunStatusWithoutOutput req res of
                        (status, reason, source) \<Rightarrow> Some (status, None, reason, source)))))"

definition runOneWithStdin ::
  "exec_service \<Rightarrow> run_host \<Rightarrow> RunRequest \<Rightarrow> source option \<Rightarrow> int \<Rightarrow> bool \<Rightarrow> RuntimeTuningConfig \<Rightarrow> bool \<Rightarrow> bool \<Rightarrow>
   sandboxRunResult option" where
  "runOneWithStdin sv H req stdin stdinMaxBytes onLog tuning evaluateOutput captureRawStdout =
     (case run_setup sv H tuning req stdin stdinMaxBytes of
        Inl reason \<Rightarrow> Some (only_response (failed_response reason))
      | Inr (cmdArgs, stdin, maxBytes) \<Rightarrow>
          (let res = h_Sandbox H tuning cmdArgs req stdin maxBytes (outputLimitBytes (rq_Limits req)) in
           if er_Status res = RunStatusInitFail
           then Some (only_response (initializationFailureResponse res (h_WallMs H)))
           else finish_run H req onLog evaluateOutput captureRawStdout res))"


section \<open>What is shown\<close>

lemma valid_part_take: "\<exists>k \<le> length s. valid_part s = take k s"
proof (induction s rule: valid_part.induct)
  case (2 a s)
  let ?w = "snd (decode_rune (a # s))"
  have w: "?w \<le> length (a # s)" using decode_rune_width [of "a # s"] by simp
  show ?case
  proof (cases "fst (decode_rune (a # s)) = rune_error \<and> ?w = 1")
    case True
    then show ?thesis by (auto simp: valid_part.simps(2))
  next
    case False
    with 2 obtain k where k: "k \<le> length (drop ?w (a # s))" "valid_part (drop ?w (a # s)) = take k (drop ?w (a # s))"
      by auto
    then have "valid_part (a # s) = take (?w + k) (a # s)"
      using False by (simp only: valid_part.simps(2) Let_def if_False take_add)
    then show ?thesis using k(1) w by (intro exI [of _ "?w + k"]) auto
  qed
qed simp

lemma valid_utf8_part: "valid_utf8 (valid_part s)"
proof (induction s rule: valid_part.induct)
  case (2 a s)
  let ?d = "decode_rune (a # s)"
  show ?case
  proof (cases "fst ?d = rune_error \<and> snd ?d = 1")
    case True
    then show ?thesis by (simp add: valid_part.simps(2))
  next
    case False
    let ?rest = "valid_part (drop (snd ?d) (a # s))"
    have w: "1 \<le> snd ?d" "snd ?d \<le> length (a # s)" using decode_rune_width [of "a # s"] by simp_all
    have p: "valid_part (a # s) = take (snd ?d) (a # s) @ ?rest"
      using False by (simp only: valid_part.simps(2) Let_def if_False)
    have d: "decode_rune (take (snd ?d) (a # s) @ ?rest) = ?d" using decode_rune_append False by blast
    obtain t where t: "take (snd ?d) (a # s) @ ?rest = a # t" using w(1) by (cases "snd ?d") auto
    have "drop (snd ?d) (a # t) = ?rest" using w(2) by (simp flip: t)
    then have "runes (a # t) = ?d # runes ?rest" using d t by (simp add: runes.simps(2))
    moreover have "valid_utf8 ?rest" using 2 False by simp
    ultimately show ?thesis using False unfolding p t by (cases ?d) (simp add: valid_utf8_def)
  qed
qed simp

text \<open>Clipping keeps a valid prefix within the limit, and the whole of a valid text that fits.\<close>

lemma valid_part_all: "valid_utf8 s \<Longrightarrow> valid_part s = s"
proof (induction s rule: valid_part.induct)
  case (2 a s)
  let ?d = "decode_rune (a # s)"
  have v: "\<not> (fst ?d = rune_error \<and> snd ?d = 1)" "valid_utf8 (drop (snd ?d) (a # s))"
    using 2(2) by (cases ?d; simp add: valid_utf8_def runes.simps(2))+
  then show ?case using 2(1) [OF refl] by (simp add: valid_part.simps(2) Let_def)
qed simp

lemma clipUTF8_facts:
  "valid_utf8 (clipUTF8 b n)" "\<exists>t. b = clipUTF8 b n @ t" "length (clipUTF8 b n) \<le> nat n"
  "valid_utf8 b \<Longrightarrow> int (length b) \<le> n \<Longrightarrow> clipUTF8 b n = b"
proof -
  show "valid_utf8 (clipUTF8 b n)" by (simp add: clipUTF8_def valid_utf8_part)
  obtain k where k: "clipUTF8 b n = take k b" "k \<le> nat n"
  proof (cases "n \<le> 0")
    case True
    then show ?thesis using that [of 0] by (simp add: clipUTF8_def)
  next
    case False
    let ?m = "nat (if n > int (length b) then int (length b) else n)"
    obtain k where k: "k \<le> length (take ?m b)" "valid_part (take ?m b) = take k (take ?m b)" using valid_part_take by blast
    then have "clipUTF8 b n = take (min k ?m) b" using False by (simp add: clipUTF8_def)
    moreover have "?m \<le> nat n" by auto
    then have "min k ?m \<le> nat n" by (rule min.coboundedI2)
    ultimately show ?thesis by (rule that)
  qed
  then show "\<exists>t. b = clipUTF8 b n @ t" by (metis append_take_drop_id)
  show "length (clipUTF8 b n) \<le> nat n" using k by simp
  show "clipUTF8 b n = b" if "valid_utf8 b" "int (length b) \<le> n"
    using that by (cases "n > int (length b)") (auto simp: clipUTF8_def valid_part_all)
qed

lemma outputLimitBytes_range: "1 \<le> outputLimitBytes l \<and> outputLimitBytes l \<le> MaxOutputBytes"
  by (auto simp: outputLimitBytes_def DefaultOutputBytes_def MaxOutputBytes_def)

lemma response_limits:
  "responseStdoutLimitBytes req \<le> MaxCaptureBytes" "responseStderrLimitBytes req \<le> MaxCaptureBytes"
  "responseStdoutLimitBytes req \<le> outputLimitBytes (rq_Limits req)"
  "responseStderrLimitBytes req \<le> outputLimitBytes (rq_Limits req)"
  using outputLimitBytes_range [of "rq_Limits req"]
  by (auto simp: responseStdoutLimitBytes_def responseStderrLimitBytes_def responseOutputLimitBytes_def
      responseCaptureLimitBytes_def DefaultOutputBytes_def MaxCaptureBytes_def split: option.splits)


lemma evaluate_returns: "\<exists>answer. evaluateRunStatus J req res out js sc = Some answer"
  by (rule evaluate_branches [OF refl]) blast+

text \<open>Collecting the outputs keeps what the process wrote to standard error and how it ended; without a file output the judged text is its standard output.\<close>

lemma collect_output_keeps:
  assumes "collect_output H req result = (res, out, js)"
  shows "er_Stderr res = er_Stderr result" "er_ExitCode res = er_ExitCode result"
    "er_StdoutTruncated res = er_StdoutTruncated result" "er_StderrTruncated res = er_StderrTruncated result"
    "rq_FileOutputs req = [] \<Longrightarrow> out = er_Stdout result"
  using assms by (auto simp: collect_output_def split: list.splits sum.splits if_splits)

text \<open>
  Every execution gives a response, and the display fields of the response come from the two functions, applied to the judged output
  and to the result of the sandbox.
\<close>

definition shown_by :: "RunRequest \<Rightarrow> sandboxRunResult \<Rightarrow> execResult \<Rightarrow> bool" where
  "shown_by req r res \<longleftrightarrow>
     (let resp = rr_response r; (out, outCut) = shown_output req (rs_Status resp) (rr_judgeOut r);
          (err, errCut) = shown_errors req res in
      rs_Stdout resp = out \<and> rs_Stderr resp = err \<and> rs_ExitCode resp = er_ExitCode res \<and>
      (rs_StdoutTruncated resp \<longleftrightarrow> er_StdoutTruncated res \<or> outCut) \<and>
      (rs_StderrTruncated resp \<longleftrightarrow> er_StderrTruncated res \<or> errCut) \<and>
      (rq_FileOutputs req = [] \<longrightarrow> rr_judgeOut r = er_Stdout res))"

lemma finish_run_shown:
  obtains r where "finish_run H req onLog ev capture result = Some r" "shown_by req r result"
proof -
  obtain res out js where c: "collect_output H req result = (res, out, js)" by (cases "collect_output H req result")
  obtain so se where sc: "captureSidecarOutputs (h_Open H) (rq_SidecarOutputs req) = (so, se)"
    by (cases "captureSidecarOutputs (h_Open H) (rq_SidecarOutputs req)")
  let ?verdict = "if ev then evaluateRunStatus (h_Judge H) req res out js so
    else (case classifyRunStatusWithoutOutput req res of (status, reason, source) \<Rightarrow> Some (status, None, reason, source))"
  obtain status score reason source where v: "?verdict = Some (status, score, reason, source)"
    using evaluate_returns [of "h_Judge H" req res out js so]
    by (cases ev; cases "classifyRunStatusWithoutOutput req res") auto
  obtain o1 o2 e1 e2 where sh: "shown_output req status out = (o1, o2)" "shown_errors req res = (e1, e2)"
    by (cases "shown_output req status out"; cases "shown_errors req res") auto
  have keeps: "er_Stderr res = er_Stderr result" "er_ExitCode res = er_ExitCode result"
    "er_StdoutTruncated res = er_StdoutTruncated result" "er_StderrTruncated res = er_StderrTruncated result"
    "rq_FileOutputs req = [] \<longrightarrow> out = er_Stdout result"
    using collect_output_keeps [OF c] by blast+
  have sh': "shown_errors req result = (e1, e2)" using sh(2) by (simp only: shown_errors_def keeps)
  have "\<exists>r. finish_run H req onLog ev capture result = Some r \<and> shown_by req r result"
    unfolding finish_run_def c sc prod.case v option.map sh
    by (simp add: shown_by_def sh sh' keeps)
  then show thesis using that by blast
qed

lemma runOne_shown:
  obtains (failed) reason where "run_setup sv H tuning req stdin n = Inl reason"
      "runOneWithStdin sv H req stdin n onLog tuning ev capture = Some (only_response (failed_response reason))"
  | (initfail) args input m res where "run_setup sv H tuning req stdin n = Inr (args, input, m)"
      "res = h_Sandbox H tuning args req input m (outputLimitBytes (rq_Limits req))" "er_Status res = RunStatusInitFail"
      "runOneWithStdin sv H req stdin n onLog tuning ev capture =
         Some (only_response (initializationFailureResponse res (h_WallMs H)))"
  | (ran) args input m res r where "run_setup sv H tuning req stdin n = Inr (args, input, m)"
      "res = h_Sandbox H tuning args req input m (outputLimitBytes (rq_Limits req))" "er_Status res \<noteq> RunStatusInitFail"
      "runOneWithStdin sv H req stdin n onLog tuning ev capture = Some r" "shown_by req r res"
proof (cases "run_setup sv H tuning req stdin n")
  case (Inl reason)
  then show thesis by (intro failed) (simp_all add: runOneWithStdin_def)
next
  case (Inr t)
  obtain args input m where t: "t = (args, input, m)" by (cases t)
  let ?res = "h_Sandbox H tuning args req input m (outputLimitBytes (rq_Limits req))"
  show thesis
  proof (cases "er_Status ?res = RunStatusInitFail")
    case True
    then show thesis using Inr t by (intro initfail [OF _ refl]) (simp_all add: runOneWithStdin_def Let_def)
  next
    case False
    obtain r where f: "finish_run H req onLog ev capture ?res = Some r" "shown_by req r ?res" by (rule finish_run_shown)
    then show thesis using Inr t False by (intro ran [OF _ refl]) (simp_all add: runOneWithStdin_def Let_def)
  qed
qed

lemma captured_facts:
  assumes "capturedOutputValue b n = (v, c)"
  shows "valid_utf8 v" "\<exists>t. b = v @ t" "length v \<le> nat n" "c \<longleftrightarrow> v \<noteq> b"
proof -
  have v: "v = clipUTF8 b n" "c \<longleftrightarrow> length v < length b" using assms by (auto simp: capturedOutputValue_def Let_def)
  show "valid_utf8 v" "\<exists>t. b = v @ t" "length v \<le> nat n" unfolding v(1) by (rule clipUTF8_facts)+
  then show "c \<longleftrightarrow> v \<noteq> b" using v(2) by auto
qed

text \<open>
  How a text is shown: under the condition \<open>shows\<close> a clipped prefix of the whole, which is the whole when it is valid and within the
  limit, and nothing otherwise. It is flagged exactly when the sandbox already cut the stream or the prefix is not the whole.
\<close>

definition displayed :: "bool \<Rightarrow> string \<Rightarrow> bool \<Rightarrow> bool \<Rightarrow> string \<Rightarrow> int \<Rightarrow> bool" where
  "displayed shows shown flagged already whole limit \<longleftrightarrow>
     valid_utf8 shown \<and> (\<exists>t. whole = shown @ t) \<and> length shown \<le> nat limit \<and>
     (if shows
      then (flagged \<longleftrightarrow> already \<or> shown \<noteq> whole) \<and> (valid_utf8 whole \<longrightarrow> int (length whole) \<le> limit \<longrightarrow> shown = whole)
      else shown = [] \<and> flagged = already)"

lemma captured_displayed:
  assumes "capturedOutputValue b n = (v, c)"
  shows "displayed True v (already \<or> c) already b n"
proof -
  have "v = clipUTF8 b n" using assms by (auto simp: capturedOutputValue_def Let_def)
  then show ?thesis using captured_facts [OF assms] clipUTF8_facts(4) [of b n] by (auto simp: displayed_def)
qed

lemma hidden_displayed: "displayed False [] already already whole limit"
  by (simp add: displayed_def)

definition shows_output :: "RunRequest \<Rightarrow> string \<Rightarrow> bool" where
  "shows_output req status \<longleftrightarrow> rq_EntryMode req \<noteq> ''state'' \<and>
     (status \<in> {RunStatusWA, RunStatusRE} \<or> status = RunStatusTLE \<and> rq_IgnoreTLE req)"

definition shows_errors :: "RunRequest \<Rightarrow> int option \<Rightarrow> bool" where
  "shows_errors req exit \<longleftrightarrow> rq_EntryMode req \<noteq> ''state'' \<and> (\<exists>k. exit = Some k \<and> k \<noteq> 0)"

lemma shown_output_displayed:
  assumes "shown_output req status out = (v, c)"
  shows "displayed (shows_output req status) v (already \<or> c) already out (responseStdoutLimitBytes req)"
proof (cases "shows_output req status")
  case True
  then have "capturedOutputValue out (responseStdoutLimitBytes req) = (v, c)"
    using assms by (auto simp: shown_output_def shows_output_def)
  then show ?thesis using True captured_displayed by simp
next
  case False
  then have "v = []" "\<not> c" using assms by (auto simp: shown_output_def shows_output_def split: if_splits)
  then show ?thesis using False hidden_displayed by simp
qed

lemma shown_errors_displayed:
  assumes "shown_errors req res = (v, c)"
  shows "displayed (shows_errors req (er_ExitCode res)) v (already \<or> c) already (er_Stderr res) (responseStderrLimitBytes req)"
proof (cases "shows_errors req (er_ExitCode res)")
  case True
  then have "capturedOutputValue (er_Stderr res) (responseStderrLimitBytes req) = (v, c)"
    using assms by (auto simp: shown_errors_def shows_errors_def)
  then show ?thesis using True captured_displayed by simp
next
  case False
  then have "v = []" "\<not> c" using assms by (auto simp: shown_errors_def shows_errors_def split: if_splits)
  then show ?thesis using False hidden_displayed by simp
qed

text \<open>
  The configured limits, in numbers: without a capture setting the output limit of the request (64 KiB by default, at most
  64 MiB) up to 64 KiB; otherwise the setting, up to that limit and 8 MiB, and nothing when it is not positive.
\<close>

definition display_limit :: "RunRequest \<Rightarrow> (CaptureLimits \<Rightarrow> int option) \<Rightarrow> int" where
  "display_limit req setting =
     (let output = (if lim_OutputBytes (rq_Limits req) \<le> 0 then 65536 else min (lim_OutputBytes (rq_Limits req)) 67108864) in
      case (case rq_CaptureLimits req of None \<Rightarrow> None | Some c \<Rightarrow> setting c) of
        None \<Rightarrow> min output 65536
      | Some n \<Rightarrow> max 0 (min n (min output 8388608)))"

lemma display_limits:
  "responseStdoutLimitBytes req = display_limit req cl_StdoutBytes"
  "responseStderrLimitBytes req = display_limit req cl_StderrBytes"
  by (auto simp: responseStdoutLimitBytes_def responseStderrLimitBytes_def display_limit_def responseOutputLimitBytes_def
      responseCaptureLimitBytes_def outputLimitBytes_def DefaultOutputBytes_def MaxOutputBytes_def MaxCaptureBytes_def Let_def
      split: option.split)

definition shows_nothing :: "RunResponse \<Rightarrow> bool" where
  "shows_nothing resp \<longleftrightarrow>
     rs_Stdout resp = [] \<and> rs_Stderr resp = [] \<and> \<not> rs_StdoutTruncated resp \<and> \<not> rs_StderrTruncated resp"

lemma failures_show_nothing:
  "shows_nothing (failed_response reason)" "shows_nothing (initializationFailureResponse res ms)"
  by (simp_all add: shows_nothing_def failed_response_def initializationFailureResponse_def zero_RunResponse_def)

lemma shown_by_displayed:
  assumes "shown_by req r res"
  shows "rs_ExitCode (rr_response r) = er_ExitCode res \<and> (rq_FileOutputs req = [] \<longrightarrow> rr_judgeOut r = er_Stdout res) \<and>
    displayed (shows_output req (rs_Status (rr_response r))) (rs_Stdout (rr_response r)) (rs_StdoutTruncated (rr_response r))
      (er_StdoutTruncated res) (rr_judgeOut r) (responseStdoutLimitBytes req) \<and>
    displayed (shows_errors req (er_ExitCode res)) (rs_Stderr (rr_response r)) (rs_StderrTruncated (rr_response r))
      (er_StderrTruncated res) (er_Stderr res) (responseStderrLimitBytes req)"
proof -
  obtain o1 o2 e1 e2 where sh: "shown_output req (rs_Status (rr_response r)) (rr_judgeOut r) = (o1, o2)"
    "shown_errors req res = (e1, e2)"
    by (cases "shown_output req (rs_Status (rr_response r)) (rr_judgeOut r)"; cases "shown_errors req res") auto
  show ?thesis
    using assms shown_output_displayed [OF sh(1)] shown_errors_displayed [OF sh(2)] by (simp add: shown_by_def Let_def sh)
qed


section \<open>Properties\<close>

text \<open>
  C29. What an execution shows. Every execution gives a response, whatever the sandbox and the workspace do. One that fails before or
  during the start of the program shows nothing. Of any other, standard output is a valid UTF-8 prefix of the judged output (the process's own when no file is judged) within the
  configured limit, shown only for a wrong answer, a runtime error, or a timeout that may score, and standard error is such a
  prefix of what the process wrote there, shown only after an error code; an Entry state run shows neither. A text that is
  valid and fits is shown in full, and each flag is set exactly when the sandbox cut the stream or less than the whole is shown.
\<close>

theorem run_shows_bounded:
  "\<exists>r. runOneWithStdin sv H req stdin n onLog tuning evaluate capture = Some r \<and>
     (case run_setup sv H tuning req stdin n of
        Inl reason \<Rightarrow> shows_nothing (rr_response r)
      | Inr (args, input, m) \<Rightarrow>
          (let res = h_Sandbox H tuning args req input m (outputLimitBytes (rq_Limits req)); resp = rr_response r in
           if er_Status res = RunStatusInitFail then shows_nothing resp
           else rs_ExitCode resp = er_ExitCode res \<and> (rq_FileOutputs req = [] \<longrightarrow> rr_judgeOut r = er_Stdout res) \<and>
             displayed (shows_output req (rs_Status resp)) (rs_Stdout resp) (rs_StdoutTruncated resp)
               (er_StdoutTruncated res) (rr_judgeOut r) (display_limit req cl_StdoutBytes) \<and>
             displayed (shows_errors req (er_ExitCode res)) (rs_Stderr resp) (rs_StderrTruncated resp)
               (er_StderrTruncated res) (er_Stderr res) (display_limit req cl_StderrBytes)))"
proof (rule runOne_shown [of sv H tuning req stdin n onLog evaluate capture])
  fix reason
  assume "run_setup sv H tuning req stdin n = Inl reason"
    and "runOneWithStdin sv H req stdin n onLog tuning evaluate capture = Some (only_response (failed_response reason))"
  then show ?thesis by (simp add: only_response_def failures_show_nothing)
next
  fix args input m res
  assume "run_setup sv H tuning req stdin n = Inr (args, input, m)"
    and "res = h_Sandbox H tuning args req input m (outputLimitBytes (rq_Limits req))" "er_Status res = RunStatusInitFail"
    and "runOneWithStdin sv H req stdin n onLog tuning evaluate capture =
      Some (only_response (initializationFailureResponse res (h_WallMs H)))"
  then show ?thesis by (simp add: only_response_def failures_show_nothing)
next
  fix args input m res r
  assume "run_setup sv H tuning req stdin n = Inr (args, input, m)"
    and "res = h_Sandbox H tuning args req input m (outputLimitBytes (rq_Limits req))" "er_Status res \<noteq> RunStatusInitFail"
    and "runOneWithStdin sv H req stdin n onLog tuning evaluate capture = Some r" and "shown_by req r res"
  then show ?thesis using shown_by_displayed [of req r res] by (simp add: display_limits)
qed


definition dev_service :: exec_service where
  "dev_service =
     \<lparr>sv_DeploymentTarget = TargetDev, sv_NetworkEgressIsolated = False,
      sv_RuntimeTuning = DefaultRuntimeTuningConfig, sv_RuntimeTuningProfiles = (\<lambda>_. None),
      sv_CPUNormalizer = \<lparr>cn_method = [], cn_referenceTimeNs = 0, cn_observedTimeNs = 0\<rparr>,
      sv_ShortCaseSampling = False\<rparr>"

definition seven_host :: run_host where
  "seven_host =
     \<lparr>h_WorkDir = True, h_WorkspaceDirs = True, h_Materialize = (\<lambda>_. Some (''/work/box/a'', ''binary'')),
      h_Command = (\<lambda>_ path _ _. [path]), h_StdinURL = (\<lambda>_ _. Inl []), h_JudgeTemp = True, h_JudgeSeal = True,
      h_Sandbox = (\<lambda>_ _ _ _ _ _. plain_result), h_Open = (\<lambda>_. NotOpened []), h_Judge = plain_judge, h_WallMs = 0\<rparr>"

definition eight_request :: RunRequest where
  "eight_request = sum_request\<lparr>rq_ExpectedStdout := ''8'', rq_Binaries := [zero_Binary]\<rparr>"

lemma seven_run:
  "run_setup dev_service seven_host t eight_request None 0 = Inr ([''/work/box/a''], None, int MaxTextFieldBytes)"
  by (simp add: run_setup_def dev_service_def seven_host_def eight_request_def sum_request_def zero_defs
      networkRequestRejection_def judge_input_def MaxBinaryFiles_def and_then_def Let_def)

lemma seven_judged:
  "evaluateRunStatus plain_judge eight_request plain_result ''7'' ''stdout'' [] = Some (RunStatusWA, None, [], ''stdout'')"
  by (simp add: evaluateRunStatus_def classifyRunStatusWithoutOutput_def applyFinalCPUTimeStatus_def
      applyCPUTimeLimitStatus_def plain_result_def eight_request_def sum_request_def zero_defs Let_def
      applyStdoutLimitVerdict_def judge_output_def compareOutputs_value text_lines_def trim_right_def
      blank_char_def settle_verdict_def)

lemma seven_shown:
  assumes "runOneWithStdin dev_service seven_host eight_request None 0 False t True False = Some r"
  shows "rs_Status (rr_response r) = RunStatusWA" "rs_Stdout (rr_response r) = ''7''" "rr_judgeOut r = ''7''"
proof -
  have c: "collect_output seven_host eight_request plain_result = (plain_result, ''7'', ''stdout'')"
    by (simp add: collect_output_def eight_request_def sum_request_def zero_defs plain_result_def)
  have sc: "captureSidecarOutputs (h_Open seven_host) (rq_SidecarOutputs eight_request) = ([], [])"
    by (simp add: captureSidecarOutputs_def eight_request_def sum_request_def zero_defs)
  have o: "shown_output eight_request RunStatusWA ''7'' = (''7'', False)"
    by (simp add: shown_output_def capturedOutputValue_def clipUTF8_def valid_part_all ascii_valid_utf8
        responseStdoutLimitBytes_def responseOutputLimitBytes_def outputLimitBytes_def DefaultOutputBytes_def
        eight_request_def sum_request_def zero_defs)
  have e: "shown_errors eight_request plain_result = ([], False)"
    by (simp add: shown_errors_def plain_result_def)
  have h: "h_Sandbox seven_host t' a q x m k = plain_result" "h_Judge seven_host = plain_judge" for t' a q x m k
    by (simp_all add: seven_host_def)
  have "er_Status plain_result \<noteq> RunStatusInitFail" by (simp add: plain_result_def)
  then have "finish_run seven_host eight_request False True False plain_result = Some r"
    using assms by (simp add: runOneWithStdin_def seven_run h Let_def)
  then show "rs_Status (rr_response r) = RunStatusWA" "rs_Stdout (rr_response r) = ''7''" "rr_judgeOut r = ''7''"
    unfolding finish_run_def c sc prod.case h if_True seven_judged option.map o e by auto
qed

theorem run_shows_bounded_witness:
  "\<exists>r. runOneWithStdin dev_service seven_host eight_request None 0 False DefaultRuntimeTuningConfig True False = Some r \<and>
     rs_Status (rr_response r) = RunStatusWA \<and> rs_Stdout (rr_response r) = ''7'' \<and> \<not> rs_StdoutTruncated (rr_response r)"
proof -
  obtain r where r: "runOneWithStdin dev_service seven_host eight_request None 0 False DefaultRuntimeTuningConfig True False = Some r"
    and c: "displayed (shows_output eight_request (rs_Status (rr_response r))) (rs_Stdout (rr_response r))
      (rs_StdoutTruncated (rr_response r)) (er_StdoutTruncated plain_result) (rr_judgeOut r) (display_limit eight_request cl_StdoutBytes)"
    using run_shows_bounded [of dev_service seven_host eight_request None 0 False DefaultRuntimeTuningConfig True False]
    unfolding seven_run by (auto simp: seven_host_def plain_result_def Let_def)
  have "\<not> er_StdoutTruncated plain_result" "shows_output eight_request RunStatusWA"
    by (simp_all add: plain_result_def shows_output_def eight_request_def sum_request_def zero_defs)
  then show ?thesis using r c seven_shown [OF r] by (auto simp: displayed_def)
qed

end
