(* ===== verification/Step_Service.thy ===== *)
theory Step_Service
  imports Run_One Run_Steps
begin

text \<open>
  The two-step requests of internal/execute/service.go and stdin_url.go: \<open>runStepPipeline\<close> with the input of each step, the
  handoff between them and the totals of the response. The files of the handoffs and the HTTP client are parameters of each step.
\<close>

section \<open>Downloads\<close>

text \<open>
  What the HTTP client answers: an error, or a status with its text, the content length (negative when unknown) and the
  body; with it the time from the start of the download to its end.
\<close>

datatype http_answer = HttpFails string | HttpAnswer int string int source

record downloads =
  dl_env :: env
  dl_check_text :: "check_error \<Rightarrow> string"
  dl_get :: "string \<Rightarrow> http_answer \<times> int"
  dl_read_error :: "string \<Rightarrow> string"
  dl_close_error :: "string \<Rightarrow> string option"

text \<open>
  \<open>openStdinURL\<close> with the budget of the request, the remaining time: the error or the body, and what remains once the body is read.
\<close>

definition spend :: "int \<Rightarrow> int \<Rightarrow> int" where
  "spend elapsed remaining = (if elapsed \<ge> remaining then 0 else remaining - elapsed)"

definition openStdinURL :: "downloads \<Rightarrow> string \<Rightarrow> int \<Rightarrow> int option \<Rightarrow> (string + source) \<times> int option" where
  "openStdinURL D rawURL maxBytes budget =
     (case payloadurl_Validate (dl_env D) rawURL of
        Some e \<Rightarrow> (Inl (dl_check_text D e), budget)
      | None \<Rightarrow>
          if (case budget of None \<Rightarrow> False | Some remaining \<Rightarrow> remaining \<le> 0)
          then (Inl ''context deadline exceeded'', budget)
          else
            (case dl_get D rawURL of (answer, elapsed) \<Rightarrow>
               ((case answer of
                   HttpFails e \<Rightarrow> Inl e
                 | HttpAnswer code statusText contentLength body \<Rightarrow>
                     if code < 200 \<or> code \<ge> 300 then Inl (''download returned '' @ statusText)
                     else if maxBytes > 0 \<and> contentLength > maxBytes
                       then Inl (''download too large: max '' @ dec (nat maxBytes) @ '' bytes'')
                     else Inr body),
                map_option (spend elapsed) budget)))"

section \<open>The input of a step\<close>

text \<open>
  A write through the \<open>byteLimitWriter\<close>: the error of a write past the limit, and what has been written. \<open>io.Copy\<close> writes
  the chunks it reads, none of which is empty.
\<close>

definition limited_write :: "int \<Rightarrow> string \<Rightarrow> string \<Rightarrow> bool \<times> string" where
  "limited_write limit p out =
     (let remaining = limit - int (length out) in
      if remaining \<le> 0 then (True, out)
      else if int (length p) > remaining then (True, out @ take (nat remaining) p)
      else (False, out @ p))"

fun copy_chunks :: "int \<Rightarrow> string list \<Rightarrow> string \<Rightarrow> bool \<times> string" where
  "copy_chunks limit [] out = (False, out)"
| "copy_chunks limit (c # cs) out =
     (case limited_write limit c out of (True, o') \<Rightarrow> (True, o') | (False, o') \<Rightarrow> copy_chunks limit cs o')"

definition copy_all :: "int \<Rightarrow> string \<Rightarrow> string \<Rightarrow> bool \<times> string" where
  "copy_all limit content out = copy_chunks limit (if content = [] then [] else [content]) out"

text \<open>How the content is cut into chunks does not matter.\<close>

lemma copy_chunks_whole:
  "\<forall>c \<in> set cs. c \<noteq> [] \<Longrightarrow> int (length out) \<le> limit \<Longrightarrow> copy_chunks limit cs out = copy_all limit (concat cs) out"
proof (induction cs arbitrary: out)
  case (Cons c cs)
  have c: "0 < length c" using Cons.prems by simp
  show ?case
  proof (cases "int (length out) + int (length c) \<le> limit")
    case True
    then have w: "limited_write limit c out = (False, out @ c)"
      using c unfolding limited_write_def Let_def by (simp del: length_greater_0_conv)
    have "copy_chunks limit (c # cs) out = copy_all limit (concat cs) (out @ c)"
      using Cons True by (simp add: w)
    also have "\<dots> = copy_all limit (concat (c # cs)) out"
      using Cons.prems True by (auto simp: copy_all_def limited_write_def Let_def nat_diff_distrib nat_int_add split: if_splits)
    finally show ?thesis .
  next
    case False
    then show ?thesis using Cons.prems by (auto simp: copy_all_def limited_write_def Let_def)
  qed
qed (simp add: copy_all_def)

text \<open>Once the limit is reached exactly, even an empty text is an error.\<close>

lemma empty_write_when_full: "limited_write (int (length out)) [] out = (True, out)"
  by (simp add: limited_write_def)

text \<open>The files of one step: whether the file of the parts can be made and rewound, and which handoffs cannot be opened or closed.\<close>

record step_files =
  sf_TempFile :: bool
  sf_Rewind :: bool
  sf_OpenFails :: "string \<Rightarrow> bool"
  sf_CloseFails :: "string \<Rightarrow> bool"

definition parts_too_large :: string where "parts_too_large = ''stdin_parts exceeded max bytes''"

type_synonym handoffs = "(string \<times> string) list"

definition assemble_part ::
  "downloads \<Rightarrow> step_files \<Rightarrow> handoffs \<Rightarrow> int \<Rightarrow> nat \<Rightarrow> StdinPart \<Rightarrow> string \<times> int \<Rightarrow> string + string \<times> int" where
  "assemble_part D F handoffs maxBytes _ part st =
     (case st of (out, budget) \<Rightarrow>
        (let kind = to_lower (trim_space (sp_Type part)) in
         if kind = ''text'' then
           (if trim_space (sp_DataURL part) \<noteq> [] then
              (case openStdinURL D (sp_DataURL part) (maxBytes - int (length out)) (Some budget) of
                 (Inl e, b) \<Rightarrow> Inl e
               | (Inr None, b) \<Rightarrow> Inl (dl_read_error D (sp_DataURL part))
               | (Inr (Some content), b) \<Rightarrow>
                   (case copy_all maxBytes content out of
                      (True, _) \<Rightarrow> Inl parts_too_large
                    | (False, out') \<Rightarrow>
                        if dl_close_error D (sp_DataURL part) \<noteq> None then Inl ''stdin_url close failed''
                        else Inr (out', the b)))
            else
              (case limited_write maxBytes (sp_Data part) out of
                 (True, _) \<Rightarrow> Inl parts_too_large
               | (False, out') \<Rightarrow> Inr (out', budget)))
         else if kind = ''handoff'' then
           (let hid = stdinPartHandoffID part in
            case map_of handoffs hid of
              None \<Rightarrow> Inl ''stdin handoff not found''
            | Some content \<Rightarrow>
                if sf_OpenFails F hid then Inl ''handoff open failed''
                else
                  (case copy_all maxBytes content out of
                     (True, _) \<Rightarrow> Inl parts_too_large
                   | (False, out') \<Rightarrow>
                       if sf_CloseFails F hid then Inl ''handoff close failed'' else Inr (out', budget)))
         else Inl ''stdin_parts contains unsupported part type''))"

definition assembleStepStdinParts ::
  "downloads \<Rightarrow> step_files \<Rightarrow> RunStep \<Rightarrow> handoffs \<Rightarrow> int \<Rightarrow> int \<Rightarrow> string + string \<times> int" where
  "assembleStepStdinParts D F step handoffs maxBytes budget =
     (if \<not> sf_TempFile F then Inl ''stdin_parts file creation failed''
      else and_then (loop_err (assemble_part D F handoffs maxBytes) 0 (st_StdinParts step) ([], budget))
        (\<lambda>(out, budget). if \<not> sf_Rewind F then Inl ''stdin_parts file rewind failed'' else Inr (out, budget)))"

text \<open>
  \<open>prepareStepStdin\<close>: the text of standard input, its source, the origin the verdict would name, the bound and the rest of the budget; or the
  origin and the text of the error.
\<close>

definition prepareStepStdin ::
  "downloads \<Rightarrow> step_files \<Rightarrow> RunStep \<Rightarrow> handoffs \<Rightarrow> int \<Rightarrow>
   string \<times> string + string \<times> source option \<times> string \<times> int \<times> int" where
  "prepareStepStdin D F step handoffs budget =
     (if trim_space (st_StdinURL step) \<noteq> [] then
        (let maxBytes = stdinURLMaxBytes (st_Limits step) in
         case openStdinURL D (st_StdinURL step) maxBytes (Some budget) of
           (Inl e, _) \<Rightarrow> Inl (''stdin_url'', e)
         | (Inr body, b) \<Rightarrow> Inr ([], Some body, ''stdin_url'', maxBytes, the b))
      else if length (st_StdinParts step) > 0 then
        (let maxBytes = stdinURLMaxBytes (st_Limits step) in
         case assembleStepStdinParts D F step handoffs maxBytes budget of
           Inl e \<Rightarrow> Inl (''stdin_parts'', e)
         | Inr (out, b) \<Rightarrow> Inr ([], Some (Some out), ''stdin_parts'', maxBytes, b))
      else
        (let stdinFrom = trim_space (st_StdinFrom step) in
         if stdinFrom = [] then Inr (st_Stdin step, None, [], int MaxTextFieldBytes, budget)
         else
           (case map_of handoffs stdinFrom of
              None \<Rightarrow> Inl (''handoff'', ''stdin handoff not found'')
            | Some content \<Rightarrow>
                if sf_OpenFails F stdinFrom then Inl (''handoff'', ''handoff open failed'')
                else Inr ([], Some (Some content), ''handoff'', int MaxTextFieldBytes, budget))))"

section \<open>Responses of steps\<close>

definition stepResultFromResponse :: "string \<Rightarrow> string \<Rightarrow> RunResponse \<Rightarrow> StepResult" where
  "stepResultFromResponse sid programID resp =
     \<lparr>sr_ID = sid, sr_ProgramID = programID,
      sr_Status = (if rs_Status resp = StatusOK then RunStatusAccepted else rs_Status resp),
      sr_TimeMs = rs_TimeMs resp, sr_WallTimeMs = rs_WallTimeMs resp, sr_CPUTimeMs = rs_CPUTimeMs resp,
      sr_RawCPUTimeMs = rs_RawCPUTimeMs resp, sr_ProcessCPUTimeMs = rs_ProcessCPUTimeMs resp,
      sr_MemoryKB = rs_MemoryKB resp, sr_ExitCode = rs_ExitCode resp, sr_Stdout = rs_Stdout resp,
      sr_Stderr = rs_Stderr resp, sr_StdoutTruncated = rs_StdoutTruncated resp,
      sr_StderrTruncated = rs_StderrTruncated resp, sr_Reason = rs_Reason resp,
      sr_ReasonTruncated = rs_ReasonTruncated resp, sr_VerdictSource = rs_VerdictSource resp, sr_HandoffBytes = 0\<rparr>"

definition prefixStepVerdictSource :: "string \<Rightarrow> string \<Rightarrow> string" where
  "prefixStepVerdictSource stepID source =
     (if trim_space source = [] then ''step:'' @ stepID else ''step:'' @ stepID @ '':'' @ source)"

definition failedStepResponse :: "RunResponse \<Rightarrow> string \<Rightarrow> RunResponse" where
  "failedStepResponse resp stepID = resp
     \<lparr>rs_Reason := (if trim_space (rs_Reason resp) \<noteq> [] then ''step '' @ stepID @ '' failed: '' @ rs_Reason resp
                    else ''step '' @ stepID @ '' failed''),
      rs_VerdictSource := prefixStepVerdictSource stepID (rs_VerdictSource resp)\<rparr>"

text \<open>\<open>sumRawCPUTime\<close> of two values; the counters are far from the bounds of 64 bits.\<close>

definition sumRawCPUTime :: "int option list \<Rightarrow> int option" where
  "sumRawCPUTime vs =
     (case fold (\<lambda>v (t, found). case v of None \<Rightarrow> (t, found) | Some k \<Rightarrow> (t + k, True)) vs (0, False) of
        (t, found) \<Rightarrow> if found then Some t else None)"

definition aggregateStepResponse :: "RunResponse \<Rightarrow> StepResult list \<Rightarrow> RunResponse" where
  "aggregateStepResponse resp results =
     (case fold (\<lambda>s (wall, cpu, pr, raw, memory).
          (wall + sr_WallTimeMs s, cpu + sr_CPUTimeMs s, pr + sr_ProcessCPUTimeMs s,
           sumRawCPUTime [raw, sr_RawCPUTimeMs s], if sr_MemoryKB s > memory then sr_MemoryKB s else memory))
        results (0, 0, 0, None, 0) of
        (wallMs, cpuMs, processCPUTimeMs, rawCPUTimeMs, memoryKB) \<Rightarrow>
          resp\<lparr>rs_TimeMs := wallMs, rs_WallTimeMs := wallMs, rs_CPUTimeMs := cpuMs, rs_RawCPUTimeMs := rawCPUTimeMs,
            rs_CPUTimeNs := 0, rs_RawCPUTimeNs := None, rs_CPUAccounting := None,
            rs_ProcessCPUTimeMs := processCPUTimeMs,
            rs_MemoryKB := (if memoryKB > rs_MemoryKB resp then memoryKB else rs_MemoryKB resp),
            rs_Steps := results\<rparr>)"


section \<open>The two steps\<close>

text \<open>What one step needs: its run, its files, and why its handoff could not be stored, if it could not.\<close>

record step_host =
  sh_Run :: run_host
  sh_Files :: step_files
  sh_StoreFails :: "string option"

record steps_host =
  hs_Dir :: bool
  hs_Downloads :: downloads
  hs_Step :: "nat \<Rightarrow> step_host"
  hs_check_text :: "step_error \<Rightarrow> string"
  hs_stdinURLTimeout :: int

text \<open>\<open>effectiveStepLimits\<close>: the room for the handoff.\<close>

definition effectiveStepLimits :: "RunStep \<Rightarrow> Limits" where
  "effectiveStepLimits step =
     (case st_Handoff step of
        None \<Rightarrow> st_Limits step
      | Some h \<Rightarrow>
          if ho_MaxBytes h > 0
          then (st_Limits step)\<lparr>lim_OutputBytes := max (lim_OutputBytes (st_Limits step)) (min (ho_MaxBytes h) MaxOutputBytes)\<rparr>
          else st_Limits step)"

definition step_request :: "RunRequest \<Rightarrow> RunStep \<Rightarrow> RunProgram \<Rightarrow> string \<Rightarrow> bool \<Rightarrow> RunRequest" where
  "step_request req step program stdin finalStep =
     (let stepReq = zero_RunRequest
            \<lparr>rq_Lang := prog_Lang program, rq_Binaries := prog_Binaries program, rq_Stdin := stdin,
             rq_Limits := effectiveStepLimits step, rq_CaptureLimits := rq_CaptureLimits req,
             rq_RuntimeProfile := rq_RuntimeProfile req, rq_PythonLibraryMode := rq_PythonLibraryMode req,
             rq_EnableNetwork := prog_EnableNetwork program, rq_EntryPoint := prog_EntryPoint program\<rparr>;
          stepReq = (case st_Handoff step of
             None \<Rightarrow> stepReq
           | Some h \<Rightarrow>
               let handoffFrom = to_lower (trim_space (ho_From h)) in
               if handoffFrom = ''file'' \<or> handoffFrom = ''file_output''
               then stepReq\<lparr>rq_FileOutputs := [\<lparr>outf_Path = ho_Path h\<rparr>]\<rparr> else stepReq) in
      if finalStep
      then stepReq\<lparr>rq_ExpectedStdout := rq_ExpectedStdout req, rq_SPJ := rq_SPJ req,
             rq_FileOutputs := rq_FileOutputs req, rq_SidecarOutputs := rq_SidecarOutputs req,
             rq_IgnoreTLE := rq_IgnoreTLE req\<rparr>
      else stepReq)"

text \<open>The response of a step, with the overflow of the output as its verdict when the step is not the last.\<close>

definition step_response :: "bool \<Rightarrow> sandboxRunResult \<Rightarrow> RunResponse" where
  "step_response finalStep run =
     (let resp = rr_response run in
      if finalStep then resp
      else (case applyStdoutLimitVerdict (rs_Status resp) (rs_Reason resp) (rs_VerdictSource resp) (rr_stdoutLimitExceeded run) of
              (status, reason, source) \<Rightarrow>
                resp\<lparr>rs_Status := status, rs_Reason := reason, rs_VerdictSource := source\<rparr>))"

definition step_result :: "RunStep \<Rightarrow> bool \<Rightarrow> sandboxRunResult \<Rightarrow> StepResult" where
  "step_result step finalStep run =
     (let resp = step_response finalStep run; result = stepResultFromResponse (st_ID step) (st_ProgramID step) resp in
      if \<not> finalStep \<and> (rs_Status resp = StatusOK \<or> rs_VerdictSource resp = ''stdout_limit'')
      then result\<lparr>sr_HandoffBytes := int (length (rr_judgeOut run))\<rparr> else result)"

definition handoff_failure :: "RunStep \<Rightarrow> string \<Rightarrow> string \<Rightarrow> RunResponse" where
  "handoff_failure step status what = zero_RunResponse
     \<lparr>rs_Status := status, rs_Reason := ''step '' @ st_ID step @ '' handoff '' @ what,
      rs_VerdictSource := ''step:'' @ st_ID step @ '':handoff''\<rparr>"

definition stdin_failure :: "RunStep \<Rightarrow> string \<Rightarrow> string \<Rightarrow> RunResponse" where
  "stdin_failure step source e = zero_RunResponse
     \<lparr>rs_Status := RunStatusInitFail, rs_Reason := ''step '' @ st_ID step @ '' '' @ e,
      rs_VerdictSource := ''step:'' @ st_ID step @ '':'' @ source\<rparr>"

text \<open>
  After a step that is not the last: the response that ends the request, or the handoff it leaves. \<open>None\<close> is the
  panic of a step without a handoff, which validation excludes.
\<close>

definition hand_over :: "step_host \<Rightarrow> RunStep \<Rightarrow> RunRequest \<Rightarrow> sandboxRunResult \<Rightarrow> (RunResponse + string \<times> string) option" where
  "hand_over S step stepReq run =
     (if rs_Status (step_response False run) \<noteq> StatusOK
      then Some (Inl (failedStepResponse (step_response False run) (st_ID step)))
      else map_option (\<lambda>h.
        (let maxBytes = (if ho_MaxBytes h \<le> 0 then outputLimitBytes (rq_Limits stepReq) else ho_MaxBytes h) in
         if int (length (rr_judgeOut run)) > maxBytes
         then Inl (handoff_failure step RunStatusRE ''exceeded max_bytes'')
         else (case sh_StoreFails S of
                 Some what \<Rightarrow> Inl (handoff_failure step RunStatusInitFail what)
               | None \<Rightarrow> Inr (trim_space (ho_ID h), rr_judgeOut run))))
        (st_Handoff step))"

definition step_program :: "RunRequest \<Rightarrow> RunStep \<Rightarrow> RunProgram" where
  "step_program req step =
     (case map_of (rev (map (\<lambda>p. (trim_space (prog_ID p), p)) (rq_Programs req))) (trim_space (st_ProgramID step)) of
        None \<Rightarrow> zero_RunProgram
      | Some p \<Rightarrow> p)"

text \<open>The loop over the steps, with the step's number, the handoffs, the results so far and the rest of the budget.\<close>

fun run_steps ::
  "exec_service \<Rightarrow> steps_host \<Rightarrow> RuntimeTuningConfig \<Rightarrow> bool \<Rightarrow> RunRequest \<Rightarrow> nat \<Rightarrow> RunStep list \<Rightarrow> handoffs \<Rightarrow>
   StepResult list \<Rightarrow> int \<Rightarrow> RunResponse option" where
  "run_steps sv H tuning onLog req i [] handoffs results budget = Some (failed_response ''steps did not run'')"
| "run_steps sv H tuning onLog req i (step # rest) handoffs results budget =
     (let program = step_program req step; S = hs_Step H i in
      case prepareStepStdin (hs_Downloads H) (sh_Files S) step handoffs budget of
        Inl (source, e) \<Rightarrow> Some (aggregateStepResponse (stdin_failure step source e) results)
      | Inr (stdin, input, _, stdinMaxBytes, budget') \<Rightarrow>
          (let finalStep = (rest = []); stepReq = step_request req step program stdin finalStep in
           case runOneWithStdin sv (sh_Run S) stepReq input stdinMaxBytes onLog tuning finalStep False of
             None \<Rightarrow> None
           | Some run \<Rightarrow>
               (let results' = results @ [step_result step finalStep run] in
                if finalStep then
                  (let resp = step_response True run in
                   Some (aggregateStepResponse
                     (resp\<lparr>rs_VerdictSource := prefixStepVerdictSource (st_ID step) (rs_VerdictSource resp)\<rparr>) results'))
                else
                  (case hand_over S step stepReq run of
                     None \<Rightarrow> None
                   | Some (Inl resp) \<Rightarrow> Some (aggregateStepResponse resp results')
                   | Some (Inr handoff) \<Rightarrow>
                       run_steps sv H tuning onLog req (Suc i) rest (handoff # handoffs) results' budget'))))"

definition runStepPipeline ::
  "exec_service \<Rightarrow> steps_host \<Rightarrow> RunRequest \<Rightarrow> bool \<Rightarrow> RuntimeTuningConfig \<Rightarrow> RunResponse option" where
  "runStepPipeline sv H req onLog tuning =
     (case ValidateStepPipeline req of
        Some e \<Rightarrow> Some (failed_response (hs_check_text H e))
      | None \<Rightarrow>
          if \<not> hs_Dir H then Some (failed_response ''handoff directory creation failed'')
          else run_steps sv H tuning onLog req 0 (rq_Steps req) [] []
                 (if hs_stdinURLTimeout H \<le> 0 then 60 * 10 ^ 9 else hs_stdinURLTimeout H))"


section \<open>What an accepted request went through\<close>

lemma collect_status:
  "collect_output H req result = (res, out, js) \<Longrightarrow> er_Status res = er_Status result \<or> er_Status res = RunStatusRE"
  by (auto simp: collect_output_def split: list.splits sum.splits if_splits)

lemma unjudged_not_accepted:
  assumes "runOneWithStdin sv H req stdin n onLog tuning False capture = Some r"
    and "\<And>t a q x m k. er_Status (h_Sandbox H t a q x m k) \<noteq> RunStatusAccepted"
  shows "rs_Status (rr_response r) \<noteq> RunStatusAccepted"
proof (cases "run_setup sv H tuning req stdin n")
  case (Inl e)
  then show ?thesis using assms(1) by (auto simp: runOneWithStdin_def only_response_def failed_response_def)
next
  case (Inr t)
  obtain args input m where t: "t = (args, input, m)" by (cases t)
  define result where "result = h_Sandbox H tuning args req input m (outputLimitBytes (rq_Limits req))"
  have sa: "er_Status result \<noteq> RunStatusAccepted" unfolding result_def by (rule assms(2))
  show ?thesis
  proof (cases "er_Status result = RunStatusInitFail")
    case True
    then have "r = only_response (initializationFailureResponse result (h_WallMs H))"
      using assms(1) Inr t by (simp add: runOneWithStdin_def Let_def flip: result_def)
    then show ?thesis using True by (simp add: only_response_def initializationFailureResponse_def)
  next
    case False
    then have f: "finish_run H req onLog False capture result = Some r"
      using assms(1) Inr t by (simp add: runOneWithStdin_def Let_def flip: result_def)
    obtain res out js where c: "collect_output H req result = (res, out, js)" by (cases "collect_output H req result")
    have "er_Status res \<noteq> RunStatusAccepted" using collect_status [OF c] sa by auto
    then have "fst (classifyRunStatusWithoutOutput req res) \<noteq> RunStatusAccepted" using classify_accepted by blast
    then show ?thesis using f
      by (auto simp: finish_run_def c case_prod_beta Let_def)
  qed
qed

lemma step_response_not_accepted:
  assumes "rs_Status (rr_response run) \<noteq> RunStatusAccepted"
  shows "rs_Status (step_response False run) \<noteq> RunStatusAccepted"
  using assms limit_verdict_fst [of "rs_Status (rr_response run)" "rs_Reason (rr_response run)"
      "rs_VerdictSource (rr_response run)" "rr_stdoutLimitExceeded run"]
  by (auto simp: step_response_def Let_def case_prod_beta)

lemma aggregate_fields [simp]:
  "rs_Status (aggregateStepResponse resp results) = rs_Status resp"
  "rs_Steps (aggregateStepResponse resp results) = results"
  "rs_Score (aggregateStepResponse resp results) = rs_Score resp"
  by (simp_all add: aggregateStepResponse_def case_prod_beta Let_def)

lemma hand_over_accepted:
  "hand_over S step q run = Some (Inl resp) \<Longrightarrow> rs_Status (step_response False run) \<noteq> RunStatusAccepted \<Longrightarrow>
   rs_Status resp \<noteq> RunStatusAccepted"
  by (auto simp: hand_over_def failedStepResponse_def handoff_failure_def Let_def zero_RunResponse_def
      split: if_splits option.splits)

lemma hand_over_passes:
  assumes "hand_over S step q run = Some (Inr (hid, content))"
  shows "rs_Status (step_response False run) = StatusOK" "content = rr_judgeOut run"
    "\<exists>h. st_Handoff step = Some h \<and> hid = trim_space (ho_ID h) \<and>
       int (length content) \<le> (if ho_MaxBytes h \<le> 0 then outputLimitBytes (rq_Limits q) else ho_MaxBytes h)"
proof -
  have ok: "rs_Status (step_response False run) = StatusOK" using assms by (cases "rs_Status (step_response False run) = StatusOK")
    (simp_all add: hand_over_def)
  obtain h where h: "st_Handoff step = Some h" using assms ok by (cases "st_Handoff step") (simp_all add: hand_over_def)
  let ?max = "if ho_MaxBytes h \<le> 0 then outputLimitBytes (rq_Limits q) else ho_MaxBytes h"
  have fits: "\<not> int (length (rr_judgeOut run)) > ?max"
  proof
    assume "int (length (rr_judgeOut run)) > ?max"
    then have "hand_over S step q run = Some (Inl (handoff_failure step RunStatusRE ''exceeded max_bytes''))"
      unfolding hand_over_def h option.map Let_def using ok by (simp only: if_P if_False not_True_eq_False simp_thms)
    then show False using assms by simp
  qed
  have v: "hid = trim_space (ho_ID h) \<and> content = rr_judgeOut run"
    using assms ok h fits by (cases "sh_StoreFails S") (simp_all add: hand_over_def Let_def del: not_less)
  show "rs_Status (step_response False run) = StatusOK" by (rule ok)
  show "content = rr_judgeOut run" using v by simp
  show "\<exists>h. st_Handoff step = Some h \<and> hid = trim_space (ho_ID h) \<and>
       int (length content) \<le> (if ho_MaxBytes h \<le> 0 then outputLimitBytes (rq_Limits q) else ho_MaxBytes h)"
    using h v fits by (intro exI [of _ h]) (simp only: not_less simp_thms)
qed


text \<open>The two iterations of the loop.\<close>

declare run_steps.simps(2) [simp del]

lemma run_last_step:
  assumes "prepareStepStdin (hs_Downloads H) (sh_Files (hs_Step H i)) step handoffs budget = Inr (stdin, input, src, m, b)"
    and "runOneWithStdin sv (sh_Run (hs_Step H i)) (step_request req step (step_program req step) stdin True) input m onLog tuning True False = Some run"
  shows "\<exists>resp. run_steps sv H tuning onLog req i [step] handoffs results budget = Some resp \<and>
     rs_Status resp = rs_Status (rr_response run) \<and> rs_Steps resp = results @ [step_result step True run]"
  using assms by (simp add: run_steps.simps(2) step_response_def Let_def)

definition first_run ::
  "exec_service \<Rightarrow> steps_host \<Rightarrow> RunRequest \<Rightarrow> bool \<Rightarrow> RuntimeTuningConfig \<Rightarrow> RunStep \<Rightarrow> int \<Rightarrow> sandboxRunResult \<Rightarrow> int \<Rightarrow> bool" where
  "first_run sv H req onLog tuning step budget run budget' \<longleftrightarrow>
     (\<exists>stdin input src m.
        prepareStepStdin (hs_Downloads H) (sh_Files (hs_Step H 0)) step [] budget = Inr (stdin, input, src, m, budget') \<and>
        runOneWithStdin sv (sh_Run (hs_Step H 0)) (step_request req step (step_program req step) stdin False)
          input m onLog tuning False False = Some run)"

definition last_run ::
  "exec_service \<Rightarrow> steps_host \<Rightarrow> RunRequest \<Rightarrow> bool \<Rightarrow> RuntimeTuningConfig \<Rightarrow> RunStep \<Rightarrow> handoffs \<Rightarrow> int \<Rightarrow> sandboxRunResult \<Rightarrow> bool" where
  "last_run sv H req onLog tuning step handoffs budget run \<longleftrightarrow>
     (\<exists>stdin input src m b.
        prepareStepStdin (hs_Downloads H) (sh_Files (hs_Step H 1)) step handoffs budget = Inr (stdin, input, src, m, b) \<and>
        runOneWithStdin sv (sh_Run (hs_Step H 1)) (step_request req step (step_program req step) stdin True)
          input m onLog tuning True False = Some run)"

lemma runOne_returns: "\<exists>r. runOneWithStdin sv H req stdin n onLog tuning ev capture = Some r"
  by (rule runOne_shown [of sv H tuning req stdin n onLog ev capture]) blast+

lemma run_steps_last:
  "\<exists>resp. run_steps sv H tuning onLog req 1 [step] handoffs results budget = Some resp \<and>
     (rs_Status resp = RunStatusAccepted \<longrightarrow>
       (\<exists>run. last_run sv H req onLog tuning step handoffs budget run \<and> rs_Status (rr_response run) = RunStatusAccepted \<and>
         rs_Steps resp = results @ [step_result step True run]))"
proof (cases "prepareStepStdin (hs_Downloads H) (sh_Files (hs_Step H 1)) step handoffs budget")
  case (Inl e)
  obtain source t where "e = (source, t)" by (cases e)
  then show ?thesis using Inl
    by (intro exI [of _ "aggregateStepResponse (stdin_failure step source t) results"]) (simp_all add: run_steps.simps(2) stdin_failure_def Let_def)
next
  case (Inr p)
  obtain stdin input src m b where p: "p = (stdin, input, src, m, b)" by (cases p)
  obtain run where r: "runOneWithStdin sv (sh_Run (hs_Step H 1)) (step_request req step (step_program req step) stdin True)
      input m onLog tuning True False = Some run" using runOne_returns by blast
  then obtain resp where s: "run_steps sv H tuning onLog req 1 [step] handoffs results budget = Some resp"
    "rs_Status resp = rs_Status (rr_response run)" "rs_Steps resp = results @ [step_result step True run]"
    using run_last_step [OF Inr [unfolded p]] by blast
  have "last_run sv H req onLog tuning step handoffs budget run" unfolding last_run_def using Inr p r by blast
  then show ?thesis using s by (intro exI [of _ resp]) auto
qed

lemma run_steps_both:
  assumes h: "st_Handoff s1 = Some h"
    and sa: "\<And>t a q x m k. er_Status (h_Sandbox (sh_Run (hs_Step H 0)) t a q x m k) \<noteq> RunStatusAccepted"
  shows "\<exists>resp. run_steps sv H tuning onLog req 0 [s1, s2] [] [] budget = Some resp \<and>
    (rs_Status resp = RunStatusAccepted \<longrightarrow>
       (\<exists>run1 run2 budget'. first_run sv H req onLog tuning s1 budget run1 budget' \<and>
         rs_Status (step_response False run1) = StatusOK \<and>
         last_run sv H req onLog tuning s2 [(trim_space (ho_ID h), rr_judgeOut run1)] budget' run2 \<and>
         rs_Status (rr_response run2) = RunStatusAccepted \<and>
         rs_Steps resp = [step_result s1 False run1, step_result s2 True run2]))"
proof (cases "prepareStepStdin (hs_Downloads H) (sh_Files (hs_Step H 0)) s1 [] budget")
  case (Inl e)
  obtain source t where "e = (source, t)" by (cases e)
  then show ?thesis using Inl
    by (intro exI [of _ "aggregateStepResponse (stdin_failure s1 source t) []"]) (simp_all add: run_steps.simps(2) stdin_failure_def Let_def)
next
  case (Inr p)
  obtain stdin input src m b where p: "p = (stdin, input, src, m, b)" by (cases p)
  let ?q = "step_request req s1 (step_program req s1) stdin False"
  obtain run where r: "runOneWithStdin sv (sh_Run (hs_Step H 0)) ?q input m onLog tuning False False = Some run"
    using runOne_returns by blast
  have f: "first_run sv H req onLog tuning s1 budget run b" unfolding first_run_def using Inr p r by blast
  have na: "rs_Status (step_response False run) \<noteq> RunStatusAccepted"
    by (rule step_response_not_accepted) (rule unjudged_not_accepted [OF r sa])
  obtain o1 where o1: "hand_over (hs_Step H 0) s1 ?q run = Some o1"
    using h by (cases "hand_over (hs_Step H 0) s1 ?q run") (auto simp: hand_over_def split: if_splits)
  show ?thesis
  proof (cases o1)
    case (Inl resp)
    then have "rs_Status resp \<noteq> RunStatusAccepted" using hand_over_accepted o1 na by blast
    then show ?thesis using Inr p r o1 Inl
      by (intro exI [of _ "aggregateStepResponse resp [step_result s1 False run]"])
         (simp_all add: run_steps.simps(2) Let_def)
  next
    case o2: (Inr handoff)
    have ho: "handoff = (trim_space (ho_ID h), rr_judgeOut run)" "rs_Status (step_response False run) = StatusOK"
      using hand_over_passes [of "hs_Step H 0" s1 ?q run "fst handoff" "snd handoff"] o1 o2 h by (cases handoff; simp)+
    obtain resp where l: "run_steps sv H tuning onLog req 1 [s2] [handoff] [step_result s1 False run] b = Some resp"
      "rs_Status resp = RunStatusAccepted \<longrightarrow>
       (\<exists>run2. last_run sv H req onLog tuning s2 [handoff] b run2 \<and> rs_Status (rr_response run2) = RunStatusAccepted \<and>
         rs_Steps resp = [step_result s1 False run] @ [step_result s2 True run2])"
      using run_steps_last [where sv = sv and H = H and tuning = tuning and onLog = onLog and req = req and step = s2
            and handoffs = "[handoff]" and results = "[step_result s1 False run]" and budget = b] by blast
    have "run_steps sv H tuning onLog req 0 [s1, s2] [] [] budget = Some resp"
      using Inr p r o1 o2 l(1) by (simp add: run_steps.simps(2) [of _ _ _ _ _ 0] Let_def)
    then show ?thesis using l(2) f ho by (intro exI [of _ resp]) fastforce
  qed
qed


lemma step_response_ok:
  "rs_Status (step_response False run) = StatusOK \<Longrightarrow> rs_Status (rr_response run) = StatusOK \<and> \<not> rr_stdoutLimitExceeded run"
  using limit_verdict_fst [of "rs_Status (rr_response run)" "rs_Reason (rr_response run)"
      "rs_VerdictSource (rr_response run)" "rr_stdoutLimitExceeded run"]
  by (auto simp: step_response_def Let_def case_prod_beta split: if_splits)

text \<open>A second step that names the handoff reads exactly its content.\<close>

lemma consumed_handoff:
  assumes "consumer_ok programs hid s2" "hid \<noteq> []" "st_StdinParts s2 = []"
    and "last_run sv H req onLog tuning s2 [(hid, content)] budget run"
  shows "runOneWithStdin sv (sh_Run (hs_Step H 1)) (step_request req s2 (step_program req s2) [] True)
           (Some (Some content)) (int MaxTextFieldBytes) onLog tuning True False = Some run"
proof -
  have s: "trim_space (st_StdinFrom s2) = hid" "st_Stdin s2 = []" "trim_space (st_StdinURL s2) = []"
    using assms(1,3) by (simp_all add: consumer_ok_def)
  obtain stdin input src m b where
    p: "prepareStepStdin (hs_Downloads H) (sh_Files (hs_Step H 1)) s2 [(hid, content)] budget = Inr (stdin, input, src, m, b)"
    and r: "runOneWithStdin sv (sh_Run (hs_Step H 1)) (step_request req s2 (step_program req s2) stdin True)
          input m onLog tuning True False = Some run"
    using assms(4) unfolding last_run_def by blast
  have "stdin = [] \<and> input = Some (Some content) \<and> m = int MaxTextFieldBytes"
    using p s assms(2,3) by (auto simp: prepareStepStdin_def Let_def split: if_splits)
  then show ?thesis using r by simp
qed

section \<open>Properties\<close>

definition steps_budget :: "steps_host \<Rightarrow> int" where
  "steps_budget H = (if hs_stdinURLTimeout H \<le> 0 then 60 * 10 ^ 9 else hs_stdinURLTimeout H)"

text \<open>
  C30. Two steps, one verdict. Running a two-step request always gives a response, and an accepted one means that both steps ran:
  the first succeeded within its limits without overflowing its output, the second ran with exactly its judged output as the handoff
  (its whole input when it names the handoff by stdin_from), and its verdict, given with the expected output and the judge of the request, is the verdict of the request.
\<close>

theorem steps_accepted:
  assumes "\<And>t a q x m k. er_Status (h_Sandbox (sh_Run (hs_Step H 0)) t a q x m k) \<noteq> RunStatusAccepted"
  shows "\<exists>resp. runStepPipeline sv H req onLog tuning = Some resp \<and>
    (rs_Status resp = RunStatusAccepted \<longrightarrow>
      (\<exists>s1 s2 h run1 run2 budget.
         rq_Steps req = [s1, s2] \<and> st_Handoff s1 = Some h \<and>
         first_run sv H req onLog tuning s1 (steps_budget H) run1 budget \<and>
         rs_Status (rr_response run1) = StatusOK \<and> \<not> rr_stdoutLimitExceeded run1 \<and>
         last_run sv H req onLog tuning s2 [(trim_space (ho_ID h), rr_judgeOut run1)] budget run2 \<and>
         rs_Status (rr_response run2) = RunStatusAccepted \<and>
         rs_Steps resp = [step_result s1 False run1, step_result s2 True run2] \<and>
         (st_StdinParts s2 = [] \<longrightarrow>
            runOneWithStdin sv (sh_Run (hs_Step H 1)) (step_request req s2 (step_program req s2) [] True)
              (Some (Some (rr_judgeOut run1))) (int MaxTextFieldBytes) onLog tuning True False = Some run2)))"
proof (cases "ValidateStepPipeline req")
  case (Some e)
  then show ?thesis by (simp add: runStepPipeline_def failed_response_def)
next
  case None
  obtain s1 s2 h programs where v: "rq_Steps req = [s1, s2]" "st_Handoff s1 = Some h" "trim_space (ho_ID h) \<noteq> []"
    "consumer_ok programs (trim_space (ho_ID h)) s2"
    using ValidateStepPipeline_flow [OF None] by blast
  show ?thesis
  proof (cases "hs_Dir H")
    case False
    then show ?thesis using None by (simp add: runStepPipeline_def failed_response_def)
  next
    case True
    obtain resp where r: "run_steps sv H tuning onLog req 0 [s1, s2] [] [] (steps_budget H) = Some resp"
      "rs_Status resp = RunStatusAccepted \<longrightarrow>
       (\<exists>run1 run2 budget. first_run sv H req onLog tuning s1 (steps_budget H) run1 budget \<and>
         rs_Status (step_response False run1) = StatusOK \<and>
         last_run sv H req onLog tuning s2 [(trim_space (ho_ID h), rr_judgeOut run1)] budget run2 \<and>
         rs_Status (rr_response run2) = RunStatusAccepted \<and>
         rs_Steps resp = [step_result s1 False run1, step_result s2 True run2])"
      using run_steps_both [OF v(2) assms, where sv = sv and tuning = tuning and onLog = onLog and req = req
          and ?s2.0 = s2 and budget = "steps_budget H"] by blast
    have p: "runStepPipeline sv H req onLog tuning = Some resp"
      using None True r(1) v(1) by (simp add: runStepPipeline_def steps_budget_def)
    show ?thesis
    proof (intro exI [of _ resp] conjI impI p)
      assume "rs_Status resp = RunStatusAccepted"
      then obtain run1 run2 budget where x: "first_run sv H req onLog tuning s1 (steps_budget H) run1 budget"
        "rs_Status (step_response False run1) = StatusOK"
        "last_run sv H req onLog tuning s2 [(trim_space (ho_ID h), rr_judgeOut run1)] budget run2"
        "rs_Status (rr_response run2) = RunStatusAccepted"
        "rs_Steps resp = [step_result s1 False run1, step_result s2 True run2]"
        using r(2) by blast
      show "\<exists>s1 s2 h run1 run2 budget. rq_Steps req = [s1, s2] \<and> st_Handoff s1 = Some h \<and>
         first_run sv H req onLog tuning s1 (steps_budget H) run1 budget \<and>
         rs_Status (rr_response run1) = StatusOK \<and> \<not> rr_stdoutLimitExceeded run1 \<and>
         last_run sv H req onLog tuning s2 [(trim_space (ho_ID h), rr_judgeOut run1)] budget run2 \<and>
         rs_Status (rr_response run2) = RunStatusAccepted \<and>
         rs_Steps resp = [step_result s1 False run1, step_result s2 True run2] \<and>
         (st_StdinParts s2 = [] \<longrightarrow>
            runOneWithStdin sv (sh_Run (hs_Step H 1)) (step_request req s2 (step_program req s2) [] True)
              (Some (Some (rr_judgeOut run1))) (int MaxTextFieldBytes) onLog tuning True False = Some run2)"
        using x v step_response_ok [OF x(2)] consumed_handoff [OF v(4,3) _ x(3)] by blast
    qed
  qed
qed
end
