(* ===== verification/Short_Repeat.thy ===== *)
theory Short_Repeat
  imports Step_Service
begin

text \<open>
  short_repeat.go and short_repeat_service.go of internal/execute: a short accepted run is repeated twice and the median CPU time
  counts. The loop is a partial function, \<open>None\<close> being a loop that never ends.
\<close>

section \<open>Which runs are repeated\<close>

definition shortCaseRepeatThresholdNs :: "64 word" where "shortCaseRepeatThresholdNs = 100000000"

definition shortCaseRepeatEligible :: "RunRequest \<Rightarrow> bool" where
  "shortCaseRepeatEligible req \<longleftrightarrow>
     \<not> (rq_SPJ req \<noteq> None \<or> rq_Interactor req \<noteq> None \<or> rq_Communication req \<noteq> None \<or> rq_Pipeline req \<noteq> None \<or> UsesSteps req) \<and>
     \<not> (rq_EnableNetwork req \<or> rq_IgnoreTLE req \<or> length (rq_FileOutputs req) > 0 \<or> length (rq_SidecarOutputs req) > 0) \<and>
     \<not> (trim_space (rq_StdinURL req) \<noteq> [] \<or> trim_space (rq_ExpectedStdoutURL req) \<noteq> []) \<and>
     list_all (\<lambda>b. trim_space (bin_DataURL b) = []) (rq_Binaries req)"

definition shortCaseCPUTimeNs :: "RunResponse \<Rightarrow> 64 word" where
  "shortCaseCPUTimeNs r =
     (if rs_CPUTimeNs r > 0 \<or> rs_CPUTimeMs r \<le> 0 then rs_CPUTimeNs r
      else if (word_of_int (rs_CPUTimeMs r) :: 64 word) > MaxUint64 div nanosecondsPerMillisecond then MaxUint64
      else word_of_int (rs_CPUTimeMs r) * nanosecondsPerMillisecond)"

section \<open>Repeating\<close>

text \<open>The variables of the loop: the samples, the largest memory and the sums of the times.\<close>

record repeats =
  rp_samples :: "RunResponse list"
  rp_memoryKB :: int
  rp_timeMs :: int
  rp_wallTimeMs :: int

definition sample_of :: "RunResponse \<Rightarrow> CPUTimeSample" where
  "sample_of s =
     \<lparr>cs_Status = rs_Status s, cs_CPUTimeMs = rs_CPUTimeMs s, cs_CPUTimeNs = rs_CPUTimeNs s,
      cs_RawCPUTimeMs = rs_RawCPUTimeMs s, cs_RawCPUTimeNs = rs_RawCPUTimeNs s,
      cs_WallTimeMs = rs_WallTimeMs s, cs_MemoryKB = rs_MemoryKB s, cs_CPUAccounting = rs_CPUAccounting s\<rparr>"

definition finish_repeats :: "repeats \<Rightarrow> RunResponse \<Rightarrow> int \<Rightarrow> RunResponse" where
  "finish_repeats st response selected = response
     \<lparr>rs_MemoryKB := rp_memoryKB st, rs_TimeMs := rp_timeMs st, rs_WallTimeMs := rp_wallTimeMs st,
      rs_CPUTimeSampling := Some \<lparr>cts_Method = ''short-case-median-v1'', cts_SelectedSample = selected,
        cts_Samples = map sample_of (rp_samples st)\<rparr>\<rparr>"

definition canceled_repeats :: "repeats \<Rightarrow> string \<Rightarrow> RunResponse" where
  "canceled_repeats st err = finish_repeats st
     (zero_RunResponse\<lparr>rs_Status := RunStatusInitFail, rs_Reason := ''short-case repetition interrupted: '' @ err,
        rs_VerdictSource := ''short_case_context''\<rparr>) 0"

text \<open>
  The context's error when it is asked for the \<open>n\<close>-th time, and the response of the \<open>n\<close>-th further run, are parameters; both are
  numbered by the samples there are.
\<close>

partial_function (option) repeat_loop ::
  "(nat \<Rightarrow> string option) \<Rightarrow> (nat \<Rightarrow> RunResponse) \<Rightarrow> repeats \<Rightarrow> (RunResponse + repeats) option" where
  "repeat_loop ctxErr again st =
     (if length (rp_samples st) < 3 then
        (case ctxErr (length (rp_samples st)) of
           Some err \<Rightarrow> Some (Inl (canceled_repeats st err))
         | None \<Rightarrow>
             (let sample = again (length (rp_samples st));
                  st' = \<lparr>rp_samples = rp_samples st @ [sample], rp_memoryKB = max (rp_memoryKB st) (rs_MemoryKB sample),
                         rp_timeMs = rp_timeMs st + rs_TimeMs sample, rp_wallTimeMs = rp_wallTimeMs st + rs_WallTimeMs sample\<rparr> in
              if rs_Status sample \<noteq> RunStatusAccepted then Some (Inl (finish_repeats st' sample 0))
              else repeat_loop ctxErr again st'))
      else Some (Inr st))"

text \<open>\<open>sort.SliceStable\<close> is \<open>sort_key\<close>, which is stable as well.\<close>

definition median_response :: "RunResponse \<Rightarrow> repeats \<Rightarrow> RunResponse" where
  "median_response first st =
     (let samples = rp_samples st;
          indices = sort_key (\<lambda>i. shortCaseCPUTimeNs (samples ! i)) [0, 1, 2];
          selected = indices ! 1; median = samples ! selected in
      finish_repeats st
        (first\<lparr>rs_CPUTimeMs := rs_CPUTimeMs median, rs_CPUTimeNs := rs_CPUTimeNs median,
           rs_RawCPUTimeMs := rs_RawCPUTimeMs median, rs_RawCPUTimeNs := rs_RawCPUTimeNs median,
           rs_ProcessCPUTimeMs := rs_ProcessCPUTimeMs median, rs_CPUAccounting := rs_CPUAccounting median\<rparr>)
        (int selected + 1))"

definition runShortCaseMedian ::
  "(nat \<Rightarrow> string option) \<Rightarrow> RunResponse \<Rightarrow> (nat \<Rightarrow> RunResponse) \<Rightarrow> RunResponse option" where
  "runShortCaseMedian ctxErr first again =
     (if rs_Status first \<noteq> RunStatusAccepted \<or> rs_CPUTimeMs first < 0 \<or> shortCaseCPUTimeNs first > shortCaseRepeatThresholdNs
      then Some first
      else
        (case repeat_loop ctxErr again \<lparr>rp_samples = [first], rp_memoryKB = rs_MemoryKB first, rp_timeMs = rs_TimeMs first,
                rp_wallTimeMs = rs_WallTimeMs first\<rparr> of
           None \<Rightarrow> None
         | Some (Inl response) \<Rightarrow> Some response
         | Some (Inr st) \<Rightarrow>
             (case ctxErr 3 of
                Some err \<Rightarrow> Some (canceled_repeats st err)
              | None \<Rightarrow> Some (median_response first st))))"

section \<open>Freezing the input\<close>

text \<open>
  \<open>runShortCaseBatch\<close>: the steps that can fail when the input of a URL is kept in a file, and the runs, each with the
  request, its input, the bound on it, and whether the logs are delivered; a run tells whether it emitted an image.
\<close>

record batch_host =
  bh_WorkDir :: "string option"
  bh_Downloads :: downloads
  bh_TempFails :: "string option"
  bh_StatFails :: "string option"
  bh_OpenFails :: "nat \<Rightarrow> string option"
  bh_Run :: "nat \<Rightarrow> RunRequest \<Rightarrow> source option \<Rightarrow> int \<Rightarrow> bool \<Rightarrow> RunResponse \<times> bool"
  bh_ctxErr :: "nat \<Rightarrow> string option"
  bh_runErr :: "nat \<Rightarrow> string option"

text \<open>\<open>writeTempFileFromReader\<close>: the content up to the bound, or an error.\<close>

definition writeTempFileFromReader :: "string option \<Rightarrow> source \<Rightarrow> string \<Rightarrow> int \<Rightarrow> string + string" where
  "writeTempFileFromReader tempFails body readError maxBytes =
     (case tempFails of
        Some e \<Rightarrow> Inl e
      | None \<Rightarrow>
          (case body of
             None \<Rightarrow> Inl readError
           | Some content \<Rightarrow> if int (length content) > maxBytes then Inl ''stdin too large'' else Inr content))"

definition freeze_input :: "batch_host \<Rightarrow> RunRequest \<Rightarrow> string + string option \<times> int" where
  "freeze_input B req =
     (if trim_space (rq_StdinURL req) = [] then Inr (None, 0)
      else
        (case bh_WorkDir B of
           Some e \<Rightarrow> Inl (''stdin_url: input workspace failed: '' @ e)
         | None \<Rightarrow>
             (let stdinMaxBytes = stdinURLMaxBytes (rq_Limits req) in
              case fst (openStdinURL (bh_Downloads B) (rq_StdinURL req) stdinMaxBytes None) of
                Inl e \<Rightarrow> Inl (''stdin_url: '' @ e)
              | Inr body \<Rightarrow>
                  (case writeTempFileFromReader (bh_TempFails B) body (dl_read_error (bh_Downloads B) (rq_StdinURL req)) stdinMaxBytes of
                     Inl e \<Rightarrow> Inl (''stdin_url: '' @ e)
                   | Inr content \<Rightarrow>
                       (case dl_close_error (bh_Downloads B) (rq_StdinURL req) of
                          Some e \<Rightarrow> Inl (''stdin_url: '' @ e)
                        | None \<Rightarrow>
                            (case bh_StatFails B of
                               Some e \<Rightarrow> Inl (''stdin_url: frozen input stat failed: '' @ e)
                             | None \<Rightarrow> Inr (Some content, stdinMaxBytes)))))))"

definition run_once :: "batch_host \<Rightarrow> RunRequest \<Rightarrow> string option \<Rightarrow> int \<Rightarrow> bool \<Rightarrow> nat \<Rightarrow> RunResponse \<times> bool" where
  "run_once B frozen path stdinMaxBytes onLog n =
     (case bh_runErr B n of
        Some e \<Rightarrow> (failed_response (''short-case execution interrupted: '' @ e), False)
      | None \<Rightarrow>
          (case path of
             None \<Rightarrow> bh_Run B n frozen (Some (Some (rq_Stdin frozen))) stdinMaxBytes onLog
           | Some content \<Rightarrow>
               (case bh_OpenFails B n of
                  Some e \<Rightarrow> (failed_response (''stdin_url: frozen input open failed: '' @ e), False)
                | None \<Rightarrow> bh_Run B n frozen (Some (Some content)) stdinMaxBytes onLog)))"

definition runShortCaseBatch :: "batch_host \<Rightarrow> RunRequest \<Rightarrow> bool \<Rightarrow> RunResponse option" where
  "runShortCaseBatch B req onLog =
     (let frozen = req\<lparr>rq_StdinURL := []\<rparr> in
      if \<not> shortCaseRepeatEligible frozen then Some (fst (bh_Run B 0 req None 0 onLog))
      else
        (case freeze_input B req of
           Inl reason \<Rightarrow> Some (failed_response reason)
         | Inr (path, stdinMaxBytes) \<Rightarrow>
             (let frozen = (if path = None then frozen else frozen\<lparr>rq_Stdin := []\<rparr>);
                  (first, image) = run_once B frozen path stdinMaxBytes onLog 0 in
              if image then Some first
              else runShortCaseMedian (bh_ctxErr B) first (\<lambda>n. fst (run_once B frozen path stdinMaxBytes False n)))))"


section \<open>What a repeated run reports\<close>

definition short_case :: "RunResponse \<Rightarrow> bool" where
  "short_case first \<longleftrightarrow>
     rs_Status first = RunStatusAccepted \<and> \<not> rs_CPUTimeMs first < 0 \<and> \<not> shortCaseCPUTimeNs first > shortCaseRepeatThresholdNs"

abbreviation add_sample :: "repeats \<Rightarrow> RunResponse \<Rightarrow> repeats" where
  "add_sample st s \<equiv> \<lparr>rp_samples = rp_samples st @ [s], rp_memoryKB = max (rp_memoryKB st) (rs_MemoryKB s),
     rp_timeMs = rp_timeMs st + rs_TimeMs s, rp_wallTimeMs = rp_wallTimeMs st + rs_WallTimeMs s\<rparr>"

text \<open>One iteration, and the end of the loop.\<close>

lemma repeat_loop_step:
  "length (rp_samples st) < 3 \<Longrightarrow> repeat_loop ctxErr again st =
     (case ctxErr (length (rp_samples st)) of
        Some err \<Rightarrow> Some (Inl (canceled_repeats st err))
      | None \<Rightarrow>
          (let sample = again (length (rp_samples st)) in
           if rs_Status sample \<noteq> RunStatusAccepted then Some (Inl (finish_repeats (add_sample st sample) sample 0))
           else repeat_loop ctxErr again (add_sample st sample)))"
  by (subst repeat_loop.simps) (cases "ctxErr (length (rp_samples st))"; simp add: Let_def)

lemma repeat_loop_end: "\<not> length (rp_samples st) < 3 \<Longrightarrow> repeat_loop ctxErr again st = Some (Inr st)"
  by (subst repeat_loop.simps) simp

lemma finish_repeats_status [simp]: "rs_Status (finish_repeats st r k) = rs_Status r"
  by (simp add: finish_repeats_def)

lemma canceled_status [simp]: "rs_Status (canceled_repeats st e) = RunStatusInitFail"
  by (simp add: canceled_repeats_def)

text \<open>The loop ends after at most two further runs.\<close>

lemma repeat_loop_short:
  assumes "length (rp_samples st) = 3 - n" "n \<le> 2"
  shows "(\<exists>r. repeat_loop ctxErr again st = Some (Inl r) \<and> rs_Status r \<noteq> RunStatusAccepted \<and>
            \<not> (\<forall>k \<in> {3 - n ..< 3}. ctxErr k = None \<and> rs_Status (again k) = RunStatusAccepted))
       \<or> repeat_loop ctxErr again st = Some (Inr (fold (\<lambda>k s. add_sample s (again k)) [3 - n ..< 3] st)) \<and>
            (\<forall>k \<in> {3 - n ..< 3}. ctxErr k = None \<and> rs_Status (again k) = RunStatusAccepted)"
  using assms
proof (induction n arbitrary: st)
  case 0
  then show ?case by (simp add: repeat_loop_end)
next
  case (Suc n)
  let ?k = "length (rp_samples st)"
  have k: "?k < 3" "3 - n = Suc ?k" "3 - Suc n = ?k" using Suc.prems by auto
  have ks: "{3 - Suc n ..< 3} = insert ?k {3 - n ..< 3}" unfolding k(2,3) using k(1) by auto
  have ku: "[3 - Suc n ..< 3] = ?k # [3 - n ..< 3]" unfolding k(2,3) using k(1) by (rule upt_conv_Cons)
  show ?case
  proof (cases "ctxErr ?k = None \<and> rs_Status (again ?k) = RunStatusAccepted")
    case False
    then show ?thesis unfolding ks
      by (cases "ctxErr ?k") (auto simp: repeat_loop_step [OF k(1)] Let_def)
  next
    case True
    then have "repeat_loop ctxErr again st = repeat_loop ctxErr again (add_sample st (again ?k))"
      by (simp add: repeat_loop_step [OF k(1)] Let_def)
    moreover have "length (rp_samples (add_sample st (again ?k))) = 3 - n" "n \<le> 2" using k(2) Suc.prems by simp_all
    ultimately show ?thesis using Suc.IH [of "add_sample st (again ?k)"] True unfolding ks ku by auto
  qed
qed

lemma median_of_three:
  fixes f :: "nat \<Rightarrow> 'a :: linorder"
  shows "sort_key f [0, 1, 2] ! 1 < 3" "f (sort_key f [0, 1, 2] ! 1) = sort [f 0, f 1, f 2] ! 1"
  by auto


definition chosen :: "RunResponse list \<Rightarrow> nat" where
  "chosen samples = sort_key (\<lambda>i. shortCaseCPUTimeNs (samples ! i)) [0, 1, 2] ! 1"

lemma median_response_fields_of:
  "rs_Status (median_response first st) = rs_Status first"
  "rs_CPUTimeNs (median_response first st) = rs_CPUTimeNs (rp_samples st ! chosen (rp_samples st))"
  "rs_CPUTimeMs (median_response first st) = rs_CPUTimeMs (rp_samples st ! chosen (rp_samples st))"
  "rs_MemoryKB (median_response first st) = rp_memoryKB st"
  "rs_WallTimeMs (median_response first st) = rp_wallTimeMs st"
  by (simp_all add: median_response_def finish_repeats_def chosen_def Let_def)

lemma shortCaseCPUTimeNs_cong:
  "rs_CPUTimeNs a = rs_CPUTimeNs b \<Longrightarrow> rs_CPUTimeMs a = rs_CPUTimeMs b \<Longrightarrow> shortCaseCPUTimeNs a = shortCaseCPUTimeNs b"
  by (simp add: shortCaseCPUTimeNs_def)

lemma median_response_fields:
  fixes first :: RunResponse and again :: "nat \<Rightarrow> RunResponse"
  defines "st \<equiv> fold (\<lambda>k s. add_sample s (again k)) [1 ..< 3]
     \<lparr>rp_samples = [first], rp_memoryKB = rs_MemoryKB first, rp_timeMs = rs_TimeMs first, rp_wallTimeMs = rs_WallTimeMs first\<rparr>"
  shows "rs_Status (median_response first st) = rs_Status first"
    and "shortCaseCPUTimeNs (median_response first st) =
      sort [shortCaseCPUTimeNs first, shortCaseCPUTimeNs (again 1), shortCaseCPUTimeNs (again 2)] ! 1"
    and "rs_MemoryKB (median_response first st) = Max {rs_MemoryKB first, rs_MemoryKB (again 1), rs_MemoryKB (again 2)}"
    and "rs_WallTimeMs (median_response first st) = rs_WallTimeMs first + rs_WallTimeMs (again 1) + rs_WallTimeMs (again 2)"
proof -
  have u: "[1 ..< 3] = [1, 2 :: nat]" by (simp add: upt_rec)
  have st: "st = \<lparr>rp_samples = [first, again 1, again 2],
      rp_memoryKB = max (max (rs_MemoryKB first) (rs_MemoryKB (again 1))) (rs_MemoryKB (again 2)),
      rp_timeMs = rs_TimeMs first + rs_TimeMs (again 1) + rs_TimeMs (again 2),
      rp_wallTimeMs = rs_WallTimeMs first + rs_WallTimeMs (again 1) + rs_WallTimeMs (again 2)\<rparr>"
    unfolding st_def u by simp
  let ?f = "\<lambda>i. shortCaseCPUTimeNs ([first, again 1, again 2] ! i)"
  show "rs_Status (median_response first st) = rs_Status first" by (rule median_response_fields_of)
  have "shortCaseCPUTimeNs (median_response first st) = shortCaseCPUTimeNs (rp_samples st ! chosen (rp_samples st))"
    by (rule shortCaseCPUTimeNs_cong; rule median_response_fields_of)
  also have "\<dots> = ?f (sort_key ?f [0, 1, 2] ! 1)" by (simp only: st repeats.select_convs chosen_def)
  also have "\<dots> = sort [?f 0, ?f 1, ?f 2] ! 1" by (rule median_of_three)
  finally show "shortCaseCPUTimeNs (median_response first st) =
      sort [shortCaseCPUTimeNs first, shortCaseCPUTimeNs (again 1), shortCaseCPUTimeNs (again 2)] ! 1"
    by (simp only: nth_Cons_0 One_nat_def nth_Cons_Suc numeral_2_eq_2)
  show "rs_MemoryKB (median_response first st) = Max {rs_MemoryKB first, rs_MemoryKB (again 1), rs_MemoryKB (again 2)}"
    "rs_WallTimeMs (median_response first st) = rs_WallTimeMs first + rs_WallTimeMs (again 1) + rs_WallTimeMs (again 2)"
    unfolding median_response_fields_of st by (simp_all add: max.assoc)
qed

section \<open>Properties\<close>

text \<open>
  C31. Repeating a short run ends. Whatever the first and the further runs report, there is a response after at most
  two further runs: a run that is not short and accepted is reported as it is; otherwise the response is accepted exactly when both
  further runs are and the context lasts, and then its CPU time is the median of the three, its memory the largest, and its wall time the sum.
\<close>

theorem short_case_median:
  "\<exists>resp. runShortCaseMedian ctxErr first again = Some resp \<and>
     (\<not> short_case first \<longrightarrow> resp = first) \<and>
     (short_case first \<longrightarrow>
        (rs_Status resp = RunStatusAccepted \<longleftrightarrow>
           (\<forall>k \<in> {1 ..< 3}. ctxErr k = None \<and> rs_Status (again k) = RunStatusAccepted) \<and> ctxErr 3 = None) \<and>
        (rs_Status resp = RunStatusAccepted \<longrightarrow>
           shortCaseCPUTimeNs resp =
             sort [shortCaseCPUTimeNs first, shortCaseCPUTimeNs (again 1), shortCaseCPUTimeNs (again 2)] ! 1 \<and>
           rs_MemoryKB resp = Max {rs_MemoryKB first, rs_MemoryKB (again 1), rs_MemoryKB (again 2)} \<and>
           rs_WallTimeMs resp = rs_WallTimeMs first + rs_WallTimeMs (again 1) + rs_WallTimeMs (again 2)))"
proof (cases "short_case first")
  case False
  then have "runShortCaseMedian ctxErr first again = Some first"
    unfolding runShortCaseMedian_def short_case_def by (auto simp only: if_True de_Morgan_conj not_not simp_thms)
  then show ?thesis using False by blast
next
  case True
  define st0 where "st0 = \<lparr>rp_samples = [first], rp_memoryKB = rs_MemoryKB first, rp_timeMs = rs_TimeMs first,
    rp_wallTimeMs = rs_WallTimeMs first\<rparr>"
  define st where "st = fold (\<lambda>k s. add_sample s (again k)) [1 ..< 3] st0"
  have run: "runShortCaseMedian ctxErr first again =
      (case repeat_loop ctxErr again st0 of
         None \<Rightarrow> None | Some (Inl response) \<Rightarrow> Some response
       | Some (Inr st) \<Rightarrow> (case ctxErr 3 of Some err \<Rightarrow> Some (canceled_repeats st err) | None \<Rightarrow> Some (median_response first st)))"
    using True unfolding runShortCaseMedian_def short_case_def st0_def by simp
  have acc: "rs_Status first = RunStatusAccepted" using True by (simp add: short_case_def)
  let ?good = "\<forall>k \<in> {1 ..< 3}. ctxErr k = None \<and> rs_Status (again k) = RunStatusAccepted"
  consider (bad) r where "repeat_loop ctxErr again st0 = Some (Inl r)" "rs_Status r \<noteq> RunStatusAccepted" "\<not> ?good"
    | (good) "repeat_loop ctxErr again st0 = Some (Inr st)" ?good
    using repeat_loop_short [of st0 2 ctxErr again] unfolding st_def by (auto simp: st0_def)
  then show ?thesis
  proof cases
    case bad
    then show ?thesis using True run by (intro exI [of _ r]) auto
  next
    case good
    show ?thesis
    proof (cases "ctxErr 3")
      case None
      have "runShortCaseMedian ctxErr first again = Some (median_response first st)" using run good(1) None by simp
      then show ?thesis
        using True good(2) None acc median_response_fields [of first again, folded st0_def, folded st_def]
        by (intro exI [of _ "median_response first st"]) simp
    next
      case (Some err)
      then show ?thesis using True run good(1) by (intro exI [of _ "canceled_repeats st err"]) simp
    qed
  qed
qed


definition quick :: "64 word \<Rightarrow> RunResponse" where
  "quick ns = zero_RunResponse\<lparr>rs_Status := RunStatusAccepted, rs_CPUTimeNs := ns\<rparr>"

theorem short_case_median_witness:
  "\<exists>resp. runShortCaseMedian (\<lambda>_. None) (quick 30) (\<lambda>k. quick (if k = 1 then 10 else 20)) = Some resp \<and>
     rs_Status resp = RunStatusAccepted \<and> shortCaseCPUTimeNs resp = 20"
proof -
  have "short_case (quick 30)"
    by (simp add: short_case_def quick_def shortCaseCPUTimeNs_def shortCaseRepeatThresholdNs_def zero_defs)
  moreover have "sort [shortCaseCPUTimeNs (quick 30), shortCaseCPUTimeNs (quick 10), shortCaseCPUTimeNs (quick 20)] ! 1 = 20"
    by (simp add: quick_def shortCaseCPUTimeNs_def zero_defs)
  ultimately show ?thesis
    using short_case_median [of "\<lambda>_. None" "quick 30" "\<lambda>k. quick (if k = 1 then 10 else 20)"]
    by (fastforce simp: quick_def)
qed

end
