(* ===== verification/Time_Budget.thy ===== *)
theory Time_Budget
  imports Short_Repeat Platform
begin

text \<open>
  time_budget.go and remote_timeout.go of internal/execute, with the limits of interactors and managers: how long a run may take by the
  wall clock, and how long a client waits for a remote runner. Durations are nanoseconds; the limits on them keep every sum
  far inside 64 bits, which the property states. What a runner needs is stated apart from the client's code (\<open>runner_stages\<close>,
  \<open>runner_wait\<close> and, for the session of a communication, \<open>session_wall\<close>).
\<close>

section \<open>Wall-clock limits\<close>

definition wallTimeLimitMs :: "Limits \<Rightarrow> int" where
  "wallTimeLimitMs l =
     (if lim_WallTimeMs l > 0 then min (lim_WallTimeMs l) MaxTimeMs else min (max 1 (lim_TimeMs l)) MaxTimeMs)"

definition interactiveWallMultiplier :: int where "interactiveWallMultiplier = 3"
definition interactiveWallMinSlackMs :: int where "interactiveWallMinSlackMs = 3000"

definition interactiveWallTimeMs :: "Limits \<Rightarrow> int" where
  "interactiveWallTimeMs l =
     (if lim_WallTimeMs l > 0 then wallTimeLimitMs l
      else (let cpuMs = wallTimeLimitMs l in
            min MaxTimeMs (max (cpuMs * interactiveWallMultiplier) (cpuMs + interactiveWallMinSlackMs))))"

definition executionWallTimeMs :: "Limits \<Rightarrow> bool \<Rightarrow> (int \<Rightarrow> int) \<Rightarrow> int" where
  "executionWallTimeMs l interactive cpuWallLimit =
     (if lim_WallTimeMs l > 0 then wallTimeLimitMs l
      else (let wallMs = (if interactive then interactiveWallTimeMs l else wallTimeLimitMs l);
                cpuMs = min (max 1 (lim_TimeMs l)) MaxTimeMs in
            max wallMs (cpuWallLimit cpuMs)))"

text \<open>The limits of an interactor, those of \<open>interactorRunRequest\<close>.\<close>

definition interactor_limits :: "Limits \<Rightarrow> Limits option \<Rightarrow> Limits" where
  "interactor_limits run configured =
     (let positive = (\<lambda>x d. if x \<le> 0 then d else x) in
      case configured of
        None \<Rightarrow> run\<lparr>lim_TimeMs := positive (lim_TimeMs run) defaultSPJTimeMs,
                  lim_MemoryMB := positive (lim_MemoryMB run) defaultSPJMemoryMB,
                  lim_WorkspaceBytes := positive (lim_WorkspaceBytes run) defaultWorkspaceBytes\<rparr>
      | Some l \<Rightarrow> l\<lparr>lim_WallTimeMs := positive (lim_WallTimeMs l) (lim_WallTimeMs run),
                  lim_TimeMs := positive (lim_TimeMs l) (positive (lim_TimeMs run) defaultSPJTimeMs),
                  lim_MemoryMB := positive (lim_MemoryMB l) defaultSPJMemoryMB,
                  lim_OutputBytes := positive (lim_OutputBytes l) (lim_OutputBytes run),
                  lim_WorkspaceBytes := positive (lim_WorkspaceBytes l) defaultWorkspaceBytes\<rparr>)"

definition interactorRunRequest :: "RunRequest \<Rightarrow> InteractorSpec \<Rightarrow> RunRequest" where
  "interactorRunRequest req ia = zero_RunRequest
     \<lparr>rq_Lang := ia_Lang ia, rq_Binaries := ia_Binaries ia,
      rq_Limits := interactor_limits (rq_Limits req) (ia_Limits ia),
      rq_CaptureLimits := rq_CaptureLimits req, rq_RuntimeProfile := rq_RuntimeProfile req,
      rq_PythonLibraryMode := rq_PythonLibraryMode req, rq_EntryPoint := ia_EntryPoint ia\<rparr>"

section \<open>Communication requests\<close>

definition communicationManagerMemoryMB :: int where "communicationManagerMemoryMB = 512"
definition communicationManagerWorkspaceBytes :: int where "communicationManagerWorkspaceBytes = 128 * 2 ^ 20"
definition communicationWallSlackPercent :: int where "communicationWallSlackPercent = 15"
definition communicationWallMinimumSlackMs :: int where "communicationWallMinimumSlackMs = 1000"

definition communicationManagerLimits :: "Limits \<Rightarrow> Limits" where
  "communicationManagerLimits participant =
     (let t = lim_TimeMs participant + 1000;
          t = (if t < defaultSPJTimeMs then defaultSPJTimeMs else t);
          t = (if t > MaxTimeMs then MaxTimeMs else t) in
      zero_Limits\<lparr>lim_TimeMs := t, lim_MemoryMB := communicationManagerMemoryMB,
        lim_OutputBytes := lim_OutputBytes participant, lim_WorkspaceBytes := communicationManagerWorkspaceBytes\<rparr>)"

definition communicationWallAllowanceMs ::
  "DeploymentTarget \<Rightarrow> string \<Rightarrow> int \<Rightarrow> int \<Rightarrow> int \<Rightarrow> int \<times> bool" where
  "communicationWallAllowanceMs target cgroupParent participantCount availableCPUs timeLimitMs =
     (if timeLimitMs \<le> 0 then (0, False)
      else if target \<noteq> TargetCloudRun \<or> trim_space cgroupParent \<noteq> [] then (timeLimitMs, True)
      else if participantCount < MinCommunicationParticipants \<or> availableCPUs \<le> 0 then (0, False)
      else
        (let effectiveTargetCPUs = max 1 (availableCPUs - 1);
             totalTargets = participantCount + 1;
             waves = (totalTargets + effectiveTargetCPUs - 1) div effectiveTargetCPUs in
         if timeLimitMs > MaxInt64 div waves then (MaxInt64, False)
         else
           (let base = timeLimitMs * waves in
            if base > (MaxInt64 - 99) div communicationWallSlackPercent then (MaxInt64, False)
            else
              (let slack = max communicationWallMinimumSlackMs ((base * communicationWallSlackPercent + 99) div 100) in
               if base > MaxInt64 - slack then (MaxInt64, False) else (base + slack, True)))))"

definition communicationMemoryWithinBudget :: "int \<Rightarrow> int \<Rightarrow> int \<Rightarrow> int \<times> bool" where
  "communicationMemoryWithinBudget participantCount participantMemoryMB budgetMB =
     (if participantCount < MinCommunicationParticipants \<or> participantMemoryMB \<le> 0 \<or> budgetMB \<le> 0 then (0, False)
      else if participantCount > 0 \<and>
              participantMemoryMB > (MaxInt64 - communicationManagerMemoryMB) div participantCount then (MaxInt64, False)
      else (let declared = participantCount * participantMemoryMB + communicationManagerMemoryMB in
            (declared, declared \<le> budgetMB)))"

section \<open>The wait for a remote runner\<close>

definition millisecond :: int where "millisecond = 10 ^ 6"
definition second :: int where "second = 10 ^ 9"
definition stdinURLDownloadTimeout :: int where "stdinURLDownloadTimeout = 60 * second"
definition DefaultRequestUploadTimeout :: int where "DefaultRequestUploadTimeout = 30 * second"
definition DefaultOperationOverhead :: int where "DefaultOperationOverhead = 30 * second"

text \<open>
  \<open>strings.EqualFold\<close> with an ASCII word in lower case. Beside the capitals, the long s and the Kelvin sign fold to ASCII letters.
\<close>

definition fold_rune :: "nat \<Rightarrow> nat" where
  "fold_rune r = (if 65 \<le> r \<and> r \<le> 90 then r + 32 else if r = 383 then 115 else if r = 8490 then 107 else r)"

definition folds_to :: "string \<Rightarrow> string \<Rightarrow> bool" where
  "folds_to s word \<longleftrightarrow> map (fold_rune \<circ> fst) (runes s) = map byte word"

text \<open>The stages of a request, one after the other, by their wall-clock limits under a bound on the CPU guard.\<close>

definition pipeline_wall :: "(int \<Rightarrow> int) \<Rightarrow> PipelineStep \<Rightarrow> int" where
  "pipeline_wall cpuWall step =
     (let interactive = folds_to (trim_space (ex_Kind (ps_Executor step))) ''interactive'';
          wallMs = executionWallTimeMs (ps_Limits step) interactive cpuWall in
      if interactive then
        max wallMs (executionWallTimeMs (interactor_limits (ps_Limits step) (ex_InteractorLimits (ps_Executor step))) True cpuWall)
      else
        (case ex_InteractorLimits (ps_Executor step) of
           None \<Rightarrow> wallMs
         | Some roleLimits \<Rightarrow> max wallMs (executionWallTimeMs roleLimits False cpuWall)))"

definition single_wall :: "(int \<Rightarrow> int) \<Rightarrow> RunRequest \<Rightarrow> int" where
  "single_wall cpuWall req =
     (let wallMs = executionWallTimeMs (rq_Limits req) (rq_Interactor req \<noteq> None) cpuWall in
      case rq_Interactor req of
        None \<Rightarrow> wallMs
      | Some ia \<Rightarrow> max wallMs (executionWallTimeMs (rq_Limits (interactorRunRequest req ia)) True cpuWall))"

definition judge_wall :: "(int \<Rightarrow> int) \<Rightarrow> SPJSpec \<Rightarrow> int" where
  "judge_wall cpuWall spj =
     (let limits = (case spj_Limits spj of
            None \<Rightarrow> zero_Limits\<lparr>lim_TimeMs := defaultSPJTimeMs\<rparr>
          | Some l \<Rightarrow> if lim_TimeMs l \<le> 0 then l\<lparr>lim_TimeMs := defaultSPJTimeMs\<rparr> else l) in
      executionWallTimeMs limits False cpuWall)"

definition repeat_request :: "RunRequest \<Rightarrow> RunRequest" where
  "repeat_request req = req\<lparr>rq_StdinURL := [], rq_ExpectedStdoutURL := [],
     rq_Binaries := map (\<lambda>b. b\<lparr>bin_DataURL := []\<rparr>) (rq_Binaries req)\<rparr>"

definition request_judge :: "RunRequest \<Rightarrow> SPJSpec option" where
  "request_judge req = (case rq_Pipeline req of None \<Rightarrow> rq_SPJ req | Some pl \<Rightarrow> fj_SPJ (pl_FinalJudge pl))"

definition stage_walls :: "(int \<Rightarrow> int) \<Rightarrow> RunRequest \<Rightarrow> int list" where
  "stage_walls cpuWall req =
     (case rq_Pipeline req of
        Some pl \<Rightarrow> map (pipeline_wall cpuWall) (take (min (length (pl_Steps pl)) MaxPipelineSteps) (pl_Steps pl))
      | None \<Rightarrow>
          if UsesSteps req then
            map (\<lambda>s. executionWallTimeMs (effectiveStepLimits s) False cpuWall)
              (take (min (length (rq_Steps req)) MaxSteps) (rq_Steps req))
          else if rq_Communication req \<noteq> None then []
          else single_wall cpuWall req #
            (if shortCaseRepeatEligible (repeat_request req) then [single_wall cpuWall req, single_wall cpuWall req] else [])) @
     (case request_judge req of None \<Rightarrow> [] | Some spj \<Rightarrow> [judge_wall cpuWall spj])"

definition add_stage :: "int \<Rightarrow> int" where
  "add_stage wallMs =
     (let execution = max wallMs 1 * millisecond in max stdinURLDownloadTimeout execution + execution)"

definition communication_budget :: "RunRequest \<Rightarrow> CommunicationSpec \<Rightarrow> int" where
  "communication_budget req spec =
     (let limits = (rq_Limits req)\<lparr>lim_TimeMs := min (max (lim_TimeMs (rq_Limits req)) 1) MaxTimeMs\<rparr>;
          participants = min (max (cm_ParticipantCount spec) MinCommunicationParticipants) MaxCommunicationParticipants;
          managerTimeMs = MaximumCPURawLimitMillis (lim_TimeMs (communicationManagerLimits limits));
          wallMs = fst (communicationWallAllowanceMs TargetCloudRun [] participants 1 managerTimeMs) in
      stdinURLDownloadTimeout + wallMs * millisecond)"

definition needs_download :: "RunRequest \<Rightarrow> bool" where
  "needs_download req =
     (if rq_Pipeline req \<noteq> None then False
      else if UsesSteps req then
        list_ex (\<lambda>s. trim_space (st_StdinURL s) \<noteq> [] \<or>
            list_ex (\<lambda>p. trim_space (sp_DataURL p) \<noteq> []) (st_StdinParts s))
          (take (min (length (rq_Steps req)) MaxSteps) (rq_Steps req))
      else trim_space (rq_StdinURL req) \<noteq> [])"

definition remoteExecutionTimeout :: "RunRequest \<Rightarrow> int \<Rightarrow> int" where
  "remoteExecutionTimeout req uploadTimeout =
     (let upload = (if uploadTimeout \<le> 0 then DefaultRequestUploadTimeout else uploadTimeout) in
      upload + DefaultOperationOverhead
      + (case rq_Communication req of
           None \<Rightarrow> 0
         | Some spec \<Rightarrow> if rq_Pipeline req = None \<and> \<not> UsesSteps req then communication_budget req spec else 0)
      + sum_list (map add_stage (stage_walls MaximumCPUWallLimitMillis req))
      + (if needs_download req then stdinURLDownloadTimeout else 0))"


section \<open>The stages fit the wait\<close>

text \<open>What a guard on the CPU time needs: it is only asked for admissible limits.\<close>

definition guard_le :: "(int \<Rightarrow> int) \<Rightarrow> (int \<Rightarrow> int) \<Rightarrow> bool" where
  "guard_le f g \<longleftrightarrow> (\<forall>c. 1 \<le> c \<longrightarrow> c \<le> MaxTimeMs \<longrightarrow> f c \<le> g c)"

lemma executionWall_mono: "guard_le f g \<Longrightarrow> executionWallTimeMs l b f \<le> executionWallTimeMs l b g"
proof -
  assume "guard_le f g"
  moreover have "1 \<le> min (max 1 (lim_TimeMs l)) MaxTimeMs" "min (max 1 (lim_TimeMs l)) MaxTimeMs \<le> MaxTimeMs"
    by (auto simp: MaxTimeMs_def)
  ultimately have "f (min (max 1 (lim_TimeMs l)) MaxTimeMs) \<le> g (min (max 1 (lim_TimeMs l)) MaxTimeMs)"
    unfolding guard_le_def by blast
  then show ?thesis by (auto simp: executionWallTimeMs_def Let_def simp del: max.bounded_iff intro!: max.mono)
qed

lemma wallTimeLimit_range: "1 \<le> wallTimeLimitMs l \<and> wallTimeLimitMs l \<le> MaxTimeMs"
  by (auto simp: wallTimeLimitMs_def MaxTimeMs_def)

lemma interactiveWall_range: "1 \<le> interactiveWallTimeMs l \<and> interactiveWallTimeMs l \<le> MaxTimeMs"
  using wallTimeLimit_range [of l]
  by (auto simp: interactiveWallTimeMs_def interactiveWallMultiplier_def interactiveWallMinSlackMs_def MaxTimeMs_def Let_def)

lemma executionWall_range:
  assumes "\<And>c. 1 \<le> c \<Longrightarrow> c \<le> MaxTimeMs \<Longrightarrow> f c \<le> m" and "MaxTimeMs \<le> m"
  shows "1 \<le> executionWallTimeMs l b f \<and> executionWallTimeMs l b f \<le> m"
proof -
  have "f (min (max 1 (lim_TimeMs l)) MaxTimeMs) \<le> m" by (rule assms(1)) (auto simp: MaxTimeMs_def)
  then show ?thesis
    using wallTimeLimit_range [of l] interactiveWall_range [of l] assms(2)
    by (auto simp: executionWallTimeMs_def Let_def)
qed

lemma pipeline_wall_mono: "guard_le f g \<Longrightarrow> pipeline_wall f s \<le> pipeline_wall g s"
  by (auto simp: pipeline_wall_def Let_def executionWall_mono simp del: max.bounded_iff split: option.split intro!: max.mono)

lemma single_wall_mono: "guard_le f g \<Longrightarrow> single_wall f req \<le> single_wall g req"
  by (auto simp: single_wall_def Let_def executionWall_mono simp del: max.bounded_iff split: option.split intro!: max.mono)

lemma judge_wall_mono: "guard_le f g \<Longrightarrow> judge_wall f spj \<le> judge_wall g spj"
  by (simp add: judge_wall_def Let_def executionWall_mono)

lemma stage_walls_mono: "guard_le f g \<Longrightarrow> list_all2 (\<le>) (stage_walls f req) (stage_walls g req)"
  by (auto simp: stage_walls_def list_all2_map1 list_all2_map2 list_all2_same pipeline_wall_mono executionWall_mono
      single_wall_mono judge_wall_mono split: option.split intro!: list_all2_appendI)

lemma stage_walls_range:
  assumes "\<And>c. 1 \<le> c \<Longrightarrow> c \<le> MaxTimeMs \<Longrightarrow> f c \<le> m" and "MaxTimeMs \<le> m" and "w \<in> set (stage_walls f req)"
  shows "1 \<le> w \<and> w \<le> m"
proof -
  have e: "1 \<le> executionWallTimeMs l b f" "executionWallTimeMs l b f \<le> m" for l b
    using executionWall_range [OF assms(1,2)] by auto
  have "1 \<le> pipeline_wall f s \<and> pipeline_wall f s \<le> m" for s
    using e by (auto simp: pipeline_wall_def Let_def le_max_iff_disj split: option.split)
  moreover have "1 \<le> single_wall f req \<and> single_wall f req \<le> m"
    using e by (auto simp: single_wall_def Let_def le_max_iff_disj split: option.split)
  moreover have "1 \<le> judge_wall f spj \<and> judge_wall f spj \<le> m" for spj
    using e by (simp add: judge_wall_def Let_def)
  ultimately show ?thesis using assms(3) e
    by (auto simp: stage_walls_def split: option.splits if_splits)
qed

lemma stage_walls_length: "length (stage_walls f req) \<le> 4"
  by (auto simp: stage_walls_def MaxPipelineSteps_def MaxSteps_def split: option.split)

section \<open>What a runner needs\<close>

text \<open>
  The stages of a request on a runner, stated without the client's code: each is a list of programs that run together, given by their
  limits and whether their session is interactive. A step of a pipeline runs its program, with its interactor when it
  is interactive; an eligible short case runs three times; the judge is last. A communication request has its own session (below).
\<close>

type_synonym role = "Limits \<times> bool"

definition pipeline_roles :: "PipelineStep \<Rightarrow> role list" where
  "pipeline_roles step =
     (if folds_to (trim_space (ex_Kind (ps_Executor step))) ''interactive''
      then [(ps_Limits step, True), (interactor_limits (ps_Limits step) (ex_InteractorLimits (ps_Executor step)), True)]
      else (ps_Limits step, False) #
        (case ex_InteractorLimits (ps_Executor step) of None \<Rightarrow> [] | Some l \<Rightarrow> [(l, False)]))"

definition single_roles :: "RunRequest \<Rightarrow> role list" where
  "single_roles req =
     (case rq_Interactor req of
        None \<Rightarrow> [(rq_Limits req, False)]
      | Some ia \<Rightarrow> [(rq_Limits req, True), (rq_Limits (interactorRunRequest req ia), True)])"

definition may_repeat :: "RunRequest \<Rightarrow> bool" where
  "may_repeat req \<longleftrightarrow> rq_SPJ req = None \<and> rq_Interactor req = None \<and> \<not> rq_EnableNetwork req \<and> \<not> rq_IgnoreTLE req \<and>
     rq_FileOutputs req = [] \<and> rq_SidecarOutputs req = []"

definition runner_stages :: "RunRequest \<Rightarrow> role list list" where
  "runner_stages req =
     (case rq_Pipeline req of
        Some pl \<Rightarrow> map pipeline_roles (pl_Steps pl)
      | None \<Rightarrow>
          if UsesSteps req then map (\<lambda>s. [(effectiveStepLimits s, False)]) (rq_Steps req)
          else if rq_Communication req \<noteq> None then []
          else replicate (if may_repeat req then 3 else 1) (single_roles req)) @
     (case (case rq_Pipeline req of None \<Rightarrow> rq_SPJ req | Some pl \<Rightarrow> fj_SPJ (pl_FinalJudge pl)) of
        None \<Rightarrow> []
      | Some spj \<Rightarrow> [[(spj_limits (rq_Limits req) (spj_Limits spj), False)]])"

definition stage_ms :: "(int \<Rightarrow> int) \<Rightarrow> role list \<Rightarrow> int" where
  "stage_ms cpuWall roles = foldr max (map (\<lambda>(l, interactive). executionWallTimeMs l interactive cpuWall) roles) 0"

text \<open>The URLs a runner fetches itself; those of a pipeline are resolved before.\<close>

definition stdin_urls :: "RunRequest \<Rightarrow> string list" where
  "stdin_urls req =
     (if rq_Pipeline req \<noteq> None then []
      else if UsesSteps req then concat (map (\<lambda>s. st_StdinURL s # map sp_DataURL (st_StdinParts s)) (rq_Steps req))
      else [rq_StdinURL req])"

text \<open>
  Each stage may take the time of its start, which is at least that of a download, and then its wall-clock limit; the downloads share
  one allowance.
\<close>

definition runner_wait :: "CPUNormalizer \<Rightarrow> RunRequest \<Rightarrow> int" where
  "runner_wait n req =
     sum_list (map (\<lambda>roles. let execution = stage_ms (WallLimitMillis n) roles * millisecond in
       max (60 * second) execution + execution) (runner_stages req)) +
     (if \<exists>url \<in> set (stdin_urls req). trim_space url \<noteq> [] then 60 * second else 0)"

text \<open>
  The session of a communication request on a runner that admits it, whatever its deployment and its processors: the longer of the
  allowances of the participants and of the manager, under the runner's normalizer.
\<close>

definition session_wall :: "CPUNormalizer \<Rightarrow> RunRequest \<Rightarrow> CommunicationSpec \<Rightarrow> int \<Rightarrow> bool" where
  "session_wall n req spec wall \<longleftrightarrow>
     (\<exists>target parent cpus participant manager.
        (let allowance = (\<lambda>ms. communicationWallAllowanceMs target parent (cm_ParticipantCount spec) cpus (max ms (RawLimitMillis n ms))) in
         allowance (lim_TimeMs (rq_Limits req)) = (participant, True) \<and>
         allowance (lim_TimeMs (communicationManagerLimits (rq_Limits req))) = (manager, True) \<and>
         wall = max participant manager))"

definition admissible_size :: "RunRequest \<Rightarrow> bool" where
  "admissible_size req \<longleftrightarrow> length (rq_Steps req) \<le> 2 \<and>
     (\<forall>pl. rq_Pipeline req = Some pl \<longrightarrow> length (pl_Steps pl) \<le> 2) \<and>
     (\<forall>spec. rq_Communication req = Some spec \<longrightarrow> cm_ParticipantCount spec \<le> 64 \<and>
        1 \<le> lim_TimeMs (rq_Limits req) \<and> lim_TimeMs (rq_Limits req) \<le> 600000)"

lemma stage_ms_le_iff:
  "stage_ms f roles \<le> w \<longleftrightarrow> 0 \<le> w \<and> (\<forall>(l, b) \<in> set roles. executionWallTimeMs l b f \<le> w)"
  by (induction roles) (auto simp: stage_ms_def)

lemma pipeline_roles_covered: "0 \<le> pipeline_wall f s \<Longrightarrow> stage_ms f (pipeline_roles s) \<le> pipeline_wall f s"
  by (auto simp: stage_ms_le_iff pipeline_roles_def pipeline_wall_def Let_def split: option.split)

lemma single_roles_covered: "0 \<le> single_wall f req \<Longrightarrow> stage_ms f (single_roles req) \<le> single_wall f req"
  by (auto simp: stage_ms_le_iff single_roles_def single_wall_def Let_def split: option.split)

lemma executionWall_cong:
  "lim_TimeMs l = lim_TimeMs l' \<Longrightarrow> lim_WallTimeMs l = lim_WallTimeMs l' \<Longrightarrow>
   executionWallTimeMs l b f = executionWallTimeMs l' b f"
  by (simp add: executionWallTimeMs_def interactiveWallTimeMs_def wallTimeLimitMs_def)

lemma judge_wall_limits: "judge_wall f spj = executionWallTimeMs (spj_limits l (spj_Limits spj)) False f"
  unfolding judge_wall_def Let_def
  by (rule executionWall_cong) (simp_all add: spj_limits_def zero_Limits_def split: option.split)

lemma judge_covered: "0 \<le> judge_wall f spj \<Longrightarrow> stage_ms f [(spj_limits l (spj_Limits spj), False)] \<le> judge_wall f spj"
  by (simp add: stage_ms_le_iff flip: judge_wall_limits)

lemma may_repeat_eligible:
  "rq_Pipeline req = None \<Longrightarrow> rq_Communication req = None \<Longrightarrow> \<not> UsesSteps req \<Longrightarrow>
   may_repeat req \<longleftrightarrow> shortCaseRepeatEligible (repeat_request req)"
  by (auto simp: may_repeat_def shortCaseRepeatEligible_def repeat_request_def UsesSteps_def trim_space_Nil list_all_iff)

lemma runner_stages_covered:
  assumes "admissible_size req" and "\<And>c. 1 \<le> c \<Longrightarrow> c \<le> MaxTimeMs \<Longrightarrow> f c \<le> 2640100"
  shows "list_all2 (\<lambda>roles w. stage_ms f roles \<le> w) (runner_stages req) (stage_walls f req)"
proof -
  have e: "1 \<le> executionWallTimeMs l b f" for l b
    using executionWall_range [OF assms(2)] by (simp add: MaxTimeMs_def)
  have p: "stage_ms f (pipeline_roles s) \<le> pipeline_wall f s" for s
    by (rule pipeline_roles_covered) (use e in \<open>auto simp: pipeline_wall_def Let_def le_max_iff_disj order_trans [OF zero_le_one] split: option.split\<close>)
  have s: "stage_ms f (single_roles req) \<le> single_wall f req"
    by (rule single_roles_covered) (use e in \<open>auto simp: single_wall_def Let_def le_max_iff_disj order_trans [OF zero_le_one] split: option.split\<close>)
  have j: "stage_ms f [(spj_limits l (spj_Limits spj), False)] \<le> judge_wall f spj" for l spj
    by (rule judge_covered) (use e in \<open>auto simp: judge_wall_def Let_def order_trans [OF zero_le_one]\<close>)
  have l: "stage_ms f [(l, False)] \<le> executionWallTimeMs l False f" for l
    using e [of l False] by (simp add: stage_ms_le_iff)
  have "list_all2 (\<lambda>roles w. stage_ms f roles \<le> w)
      (case request_judge req of None \<Rightarrow> [] | Some spj \<Rightarrow> [[(spj_limits (rq_Limits req) (spj_Limits spj), False)]])
      (case request_judge req of None \<Rightarrow> [] | Some spj \<Rightarrow> [judge_wall f spj])"
    using j by (simp split: option.split)
  moreover have "list_all2 (\<lambda>roles w. stage_ms f roles \<le> w)
      (replicate (if may_repeat req then 3 else 1) (single_roles req))
      (single_wall f req # (if shortCaseRepeatEligible (repeat_request req) then [single_wall f req, single_wall f req] else []))"
    if "rq_Pipeline req = None" "rq_Communication req = None" "\<not> UsesSteps req"
    using s by (simp add: may_repeat_eligible [OF that] numeral_3_eq_3)
  moreover have "list_all2 (\<lambda>roles w. stage_ms f roles \<le> w) (map pipeline_roles (pl_Steps pl))
      (map (pipeline_wall f) (take (min (length (pl_Steps pl)) MaxPipelineSteps) (pl_Steps pl)))" if "rq_Pipeline req = Some pl" for pl
    using assms(1) that p
    by (simp add: admissible_size_def list_all2_map1 list_all2_map2 list_all2_same MaxPipelineSteps_def)
  moreover have "list_all2 (\<lambda>roles w. stage_ms f roles \<le> w) (map (\<lambda>s. [(effectiveStepLimits s, False)]) (rq_Steps req))
      (map (\<lambda>s. executionWallTimeMs (effectiveStepLimits s) False f) (take (min (length (rq_Steps req)) MaxSteps) (rq_Steps req)))"
    using assms(1) l by (simp add: admissible_size_def list_all2_map1 list_all2_map2 list_all2_same MaxSteps_def)
  ultimately show ?thesis
    unfolding runner_stages_def stage_walls_def request_judge_def [symmetric]
    by (intro list_all2_appendI; cases "rq_Pipeline req"; cases "UsesSteps req"; cases "rq_Communication req") (simp_all split del: if_split)
qed

lemma downloads_covered:
  "admissible_size req \<Longrightarrow> (\<exists>url \<in> set (stdin_urls req). trim_space url \<noteq> []) \<longleftrightarrow> needs_download req"
  by (auto simp: stdin_urls_def needs_download_def admissible_size_def MaxSteps_def list_ex_iff)

lemma add_stage_covers:
  "v \<le> w \<Longrightarrow> (let execution = v * millisecond in max stdinURLDownloadTimeout execution + execution) \<le> add_stage w"
  by (auto simp: add_stage_def millisecond_def Let_def intro!: add_mono max.mono)

lemma add_stages_cover:
  "list_all2 (\<lambda>roles w. stage_ms f roles \<le> w) rs ws \<Longrightarrow>
   sum_list (map (\<lambda>roles. let execution = stage_ms f roles * millisecond in max stdinURLDownloadTimeout execution + execution) rs)
     \<le> sum_list (map add_stage ws)"
  by (induction rule: list_all2_induct) (auto intro!: add_mono add_stage_covers)


text \<open>The guard of the largest supported normalizer.\<close>

lemma maximum_wall_bound:
  assumes "1 \<le> c" and "c \<le> MaxTimeMs"
  shows "MaximumCPUWallLimitMillis c \<le> 2640100" and "MaximumCPURawLimitMillis c \<le> 2400000"
proof -
  have c: "0 < c" "c < 2 ^ 63" "nat c \<le> 600000" using assms by (auto simp: MaxTimeMs_def)
  have raw: "MaximumCPURawLimitMillis c = int (min (nat c * 4) (2 ^ 63 - 1))"
    using c maximumSupported by (simp add: MaximumCPURawLimitMillis_def RawLimitMillis_exact)
  then show r: "MaximumCPURawLimitMillis c \<le> 2400000" using c by simp
  have "nat (max c (RawLimitMillis maximumSupportedCPUNormalizer c)) \<le> 2400000"
    using r c by (simp add: MaximumCPURawLimitMillis_def)
  then have "with_slack (nat (max c (RawLimitMillis maximumSupportedCPUNormalizer c))) \<le> with_slack 2400000"
    by (rule with_slack_mono)
  also have "\<dots> \<le> 2640100" by (simp add: with_slack_def ceil_div_def)
  finally show "MaximumCPUWallLimitMillis c \<le> 2640100"
    using c maximumSupported(1) by (simp add: MaximumCPUWallLimitMillis_def WallLimitMillis_exact)
qed

lemma calibrated_guard: "obs_ns n \<le> 4 * ref_ns n \<Longrightarrow> guard_le (WallLimitMillis n) MaximumCPUWallLimitMillis"
  by (simp add: guard_le_def MaxTimeMs_def supported_bound(2))

lemma allowance_value:
  assumes "0 < t" "t \<le> 2400000" "2 \<le> n" "n \<le> 64"
  shows "fst (communicationWallAllowanceMs TargetCloudRun [] n 1 t) =
    t * (1 + n) + max 1000 ((t * (1 + n) * 15 + 99) div 100)"
    and "0 < t * (1 + n)" and "t * (1 + n) \<le> 156000000"
proof -
  let ?b = "t * (1 + n)"
  show b: "0 < ?b" "?b \<le> 156000000"
    using assms mult_mono [of t 2400000 "1 + n" 65] by auto
  have g: "\<not> t > MaxInt64 div (1 + n)"
  proof -
    have "?b \<le> MaxInt64" using b by (simp add: MaxInt64_def)
    then have "?b div (1 + n) \<le> MaxInt64 div (1 + n)" using assms by (intro zdiv_mono1) auto
    moreover have "?b div (1 + n) = t" using assms by simp
    ultimately show ?thesis by simp
  qed
  let ?s = "max 1000 ((?b * 15 + 99) div 100)"
  have sl: "?s \<le> 24000000" "1000 \<le> ?s" using b by auto
  have "\<not> ?b > (MaxInt64 - 99) div 15" "\<not> ?b > MaxInt64 - ?s" using b sl by (simp_all only: MaxInt64_def) (simp_all only: not_less, simp_all)
  then show "fst (communicationWallAllowanceMs TargetCloudRun [] n 1 t) = ?b + ?s"
    using assms g
    by (simp only: communicationWallAllowanceMs_def MinCommunicationParticipants_def communicationWallSlackPercent_def
        communicationWallMinimumSlackMs_def Let_def) (simp add: add.commute)
qed

lemma allowance_bound:
  assumes "0 < t" "t \<le> 2400000" "2 \<le> n" "n \<le> 64"
  shows "0 \<le> fst (communicationWallAllowanceMs TargetCloudRun [] n 1 t)"
    and "fst (communicationWallAllowanceMs TargetCloudRun [] n 1 t) \<le> 200000000"
  using allowance_value [OF assms] by linarith+

lemma waves_le:
  assumes "2 \<le> (n :: int)" and "1 \<le> e"
  shows "(n + 1 + e - 1) div e \<le> 1 + n" and "0 \<le> (n + 1 + e - 1) div e"
proof -
  have "n + 1 + e - 1 = n + 1 * e" by simp
  then have "(n + 1 + e - 1) div e = n div e + 1" using assms by simp
  moreover have "n div e \<le> n" using assms zdiv_mono2 [of n 1 e] by simp
  moreover have "0 \<le> n div e" using assms by (simp add: pos_imp_zdiv_nonneg_iff)
  ultimately show "(n + 1 + e - 1) div e \<le> 1 + n" "0 \<le> (n + 1 + e - 1) div e" by simp_all
qed

text \<open>The allowance on one processor of a Cloud Run instance is the longest there is.\<close>

lemma allowance_covered:
  assumes a: "communicationWallAllowanceMs target parent k cpus t = (w, True)"
    and t: "t \<le> t'" "t' \<le> 2400000" and k: "k \<le> 64"
  shows "w \<le> fst (communicationWallAllowanceMs TargetCloudRun [] (min (max k 2) 64) 1 t')"
proof -
  let ?n = "min (max k 2) 64"
  have t0: "0 < t" using a by (simp add: communicationWallAllowanceMs_def split: if_splits)
  then have "0 < t'" using t by simp
  have n: "2 \<le> ?n" "?n \<le> 64" by auto
  note v = allowance_value [OF \<open>0 < t'\<close> t(2) n]
  show ?thesis
  proof (cases "target \<noteq> TargetCloudRun \<or> trim_space parent \<noteq> []")
    case True
    then have "w = t" using a t0 by (auto simp: communicationWallAllowanceMs_def)
    moreover have "t' * 1 \<le> t' * (1 + ?n)" using \<open>0 < t'\<close> n by (intro mult_left_mono) auto
    ultimately show ?thesis using t v(1) by linarith
  next
    case False
    then have k2: "2 \<le> k" and nk: "?n = k"
      using a t0 k by (auto simp: communicationWallAllowanceMs_def MinCommunicationParticipants_def split: if_splits)
    let ?e = "max 1 (cpus - 1)"
    let ?b = "t * ((k + 1 + ?e - 1) div ?e)"
    have w: "w = ?b + max 1000 ((?b * 15 + 99) div 100)"
      using a t0 False
      by (auto simp: communicationWallAllowanceMs_def communicationWallSlackPercent_def communicationWallMinimumSlackMs_def
          Let_def split: if_splits)
    have "?b \<le> t' * (1 + ?n)"
      using t t0 k2 unfolding nk by (intro mult_mono waves_le [OF k2]) simp_all
    then have "(?b * 15 + 99) div 100 \<le> (t' * (1 + ?n) * 15 + 99) div 100" by (intro zdiv_mono1) auto
    then show ?thesis using \<open>?b \<le> t' * (1 + ?n)\<close> v(1) w by linarith
  qed
qed

lemma communication_budget_range: "0 \<le> communication_budget req spec \<and> communication_budget req spec \<le> 400000 * second"
proof -
  define l where "l = (rq_Limits req)\<lparr>lim_TimeMs := min (max (lim_TimeMs (rq_Limits req)) 1) MaxTimeMs\<rparr>"
  define m where "m = lim_TimeMs (communicationManagerLimits l)"
  define t where "t = MaximumCPURawLimitMillis m"
  define n where "n = min (max (cm_ParticipantCount spec) MinCommunicationParticipants) MaxCommunicationParticipants"
  have m: "1 \<le> m" "m \<le> MaxTimeMs"
    by (auto simp: m_def l_def communicationManagerLimits_def MaxTimeMs_def defaultSPJTimeMs_def Let_def)
  have t: "0 < t" "t \<le> 2400000"
    using maximum_wall_bound(2) [OF m] RawLimitMillis_bounds [of m maximumSupportedCPUNormalizer] m
    by (auto simp: t_def MaximumCPURawLimitMillis_def MaxTimeMs_def)
  have n: "2 \<le> n" "n \<le> 64" by (auto simp: n_def MinCommunicationParticipants_def MaxCommunicationParticipants_def)
  have "communication_budget req spec =
      stdinURLDownloadTimeout + fst (communicationWallAllowanceMs TargetCloudRun [] n 1 t) * millisecond"
    by (simp add: communication_budget_def Let_def l_def m_def t_def n_def)
  then show ?thesis
    using allowance_bound [OF t n] by (simp add: stdinURLDownloadTimeout_def second_def millisecond_def)
qed

lemma add_stages_bound:
  "(\<And>w. w \<in> set ws \<Longrightarrow> 1 \<le> w \<and> w \<le> 2640100) \<Longrightarrow> 0 \<le> sum_list (map add_stage ws) \<and>
   sum_list (map add_stage ws) \<le> int (length ws) * (6000 * second)"
proof (induction ws)
  case (Cons w ws)
  have "0 \<le> add_stage w" "add_stage w \<le> 6000 * second"
    using Cons.prems [of w]
    by (auto simp: add_stage_def millisecond_def second_def stdinURLDownloadTimeout_def Let_def)
  then show ?case using Cons by (auto simp: algebra_simps)
qed simp

lemma session_covered:
  assumes "obs_ns n \<le> 4 * ref_ns n" and "admissible_size req" and "rq_Communication req = Some spec"
    and "session_wall n req spec wall"
  shows "stdinURLDownloadTimeout + wall * millisecond \<le> communication_budget req spec"
proof -
  let ?t = "lim_TimeMs (rq_Limits req)" and ?m = "lim_TimeMs (communicationManagerLimits (rq_Limits req))"
  have t: "1 \<le> ?t" "?t \<le> 600000" and k: "cm_ParticipantCount spec \<le> 64"
    using assms(2,3) by (auto simp: admissible_size_def)
  then have m: "?t \<le> ?m" "?m \<le> MaxTimeMs"
    by (auto simp: communicationManagerLimits_def MaxTimeMs_def defaultSPJTimeMs_def Let_def)
  have clamp: "(rq_Limits req)\<lparr>lim_TimeMs := min (max ?t 1) MaxTimeMs\<rparr> = rq_Limits req"
    using t by (simp add: MaxTimeMs_def)
  let ?big = "MaximumCPURawLimitMillis ?m"
  have "?m \<le> ?big \<and> RawLimitMillis n ?m \<le> ?big \<and> RawLimitMillis n ?t \<le> ?big"
  proof -
    have r: "MaximumCPURawLimitMillis l = int (min (nat l * 4) (2 ^ 63 - 1))" if "1 \<le> l" "l \<le> MaxTimeMs" for l
      using that maximumSupported by (simp add: MaximumCPURawLimitMillis_def RawLimitMillis_exact MaxTimeMs_def)
    have "RawLimitMillis n l \<le> MaximumCPURawLimitMillis l" if "1 \<le> l" "l \<le> MaxTimeMs" for l
      using that by (intro supported_bound(1) [OF assms(1)]) (auto simp: MaxTimeMs_def)
    from this [of ?m] this [of ?t] show ?thesis using r [of ?t] r [of ?m] t m by (auto simp: MaxTimeMs_def)
  qed
  then have big: "max ?t (RawLimitMillis n ?t) \<le> ?big" "max ?m (RawLimitMillis n ?m) \<le> ?big" using m by auto
  have small: "?big \<le> 2400000" using m t by (intro maximum_wall_bound(2)) auto
  have "wall \<le> fst (communicationWallAllowanceMs TargetCloudRun [] (min (max (cm_ParticipantCount spec) 2) 64) 1 ?big)"
    using assms(4) allowance_covered [OF _ big(1) small k] allowance_covered [OF _ big(2) small k]
    by (auto simp: session_wall_def)
  then show ?thesis
    by (simp add: communication_budget_def Let_def clamp MinCommunicationParticipants_def MaxCommunicationParticipants_def millisecond_def)
qed

section \<open>Properties\<close>

text \<open>
  C32. A client waits long enough for a remote runner. For every request of admissible size and every runner whose normalizer calibration
  can produce, the time the client allows is at least the upload, the overhead, the start and the wall-clock limits of all stages of the
  request on that runner (its steps, its interactor, the repetitions of a short run, the special judge) and the download of
  the input; for a communication request also the fetching of its data and the longest of the wall-clock allowances of its programs, on every
  deployment and number of processors that admits it. It is at most the upload and 500000 seconds, so no sum leaves 64 bits.
\<close>

theorem remote_wait_covers:
  assumes "CalibrateCPU collect reference = Inr n" and "admissible_size req"
  shows "let upload = (if uploadTimeout \<le> 0 then 30 * second else uploadTimeout);
      needed = upload + 30 * second + runner_wait n req in
    needed \<le> remoteExecutionTimeout req uploadTimeout \<and>
    (\<forall>spec wall. rq_Communication req = Some spec \<and> rq_Pipeline req = None \<and> session_wall n req spec wall \<longrightarrow>
       needed + 60 * second + wall * millisecond \<le> remoteExecutionTimeout req uploadTimeout) \<and>
    remoteExecutionTimeout req uploadTimeout \<le> upload + 500000 * second"
proof -
  have ratio: "obs_ns n \<le> 4 * ref_ns n" using CalibrateCPU_ratio(3) [OF assms(1)] .
  have g: "guard_le (WallLimitMillis n) MaximumCPUWallLimitMillis" using ratio by (rule calibrated_guard)
  have r: "1 \<le> w \<and> w \<le> 2640100" if "w \<in> set (stage_walls f req)" "\<And>c. 1 \<le> c \<Longrightarrow> c \<le> MaxTimeMs \<Longrightarrow> f c \<le> 2640100" for f w
    using stage_walls_range [OF that(2) _ that(1)] by (simp add: MaxTimeMs_def)
  have f: "WallLimitMillis n c \<le> 2640100" if "1 \<le> c" "c \<le> MaxTimeMs" for c
    using g maximum_wall_bound(1) [OF that] that unfolding guard_le_def by fastforce
  define ws where "ws = stage_walls MaximumCPUWallLimitMillis req"
  have "list_all2 (\<lambda>roles w. stage_ms (WallLimitMillis n) roles \<le> w) (runner_stages req) ws"
    unfolding ws_def by (rule list_all2_trans [OF _ runner_stages_covered [OF assms(2) f] stage_walls_mono [OF g]]) simp_all
  from add_stages_cover [OF this] have waits: "runner_wait n req \<le>
      sum_list (map add_stage ws) + (if needs_download req then stdinURLDownloadTimeout else 0)"
    using downloads_covered [OF assms(2)] by (simp add: runner_wait_def stdinURLDownloadTimeout_def Let_def)
  have "0 \<le> sum_list (map add_stage ws) \<and> sum_list (map add_stage ws) \<le> int (length ws) * (6000 * second)"
    by (rule add_stages_bound) (use r [of _ MaximumCPUWallLimitMillis] maximum_wall_bound(1) in \<open>auto simp: ws_def\<close>)
  moreover have "int (length ws) * (6000 * second) \<le> 4 * (6000 * second)"
    using stage_walls_length [of MaximumCPUWallLimitMillis req] by (simp add: ws_def second_def)
  ultimately have b: "sum_list (map add_stage ws) \<le> 24000 * second" by linarith
  define c where "c = (case rq_Communication req of None \<Rightarrow> 0
      | Some spec \<Rightarrow> if rq_Pipeline req = None \<and> \<not> UsesSteps req then communication_budget req spec else 0)"
  have c: "0 \<le> c" "c \<le> 400000 * second"
    using communication_budget_range by (auto simp: c_def second_def split: option.split)
  have session: "60 * second + wall * millisecond \<le> c"
    if "rq_Communication req = Some spec" "rq_Pipeline req = None" "session_wall n req spec wall" for spec wall
    using session_covered [OF ratio assms(2) that(1,3)] that by (simp add: c_def UsesSteps_def stdinURLDownloadTimeout_def)
  define upload where "upload = (if uploadTimeout \<le> 0 then 30 * second else uploadTimeout)"
  have sum: "remoteExecutionTimeout req uploadTimeout = upload + 30 * second + c +
      (sum_list (map add_stage ws) + (if needs_download req then stdinURLDownloadTimeout else 0))"
    by (simp add: remoteExecutionTimeout_def c_def ws_def upload_def DefaultRequestUploadTimeout_def DefaultOperationOverhead_def)
  have "(if needs_download req then stdinURLDownloadTimeout else 0) \<le> 60 * second"
    by (simp add: stdinURLDownloadTimeout_def second_def)
  then have bound: "remoteExecutionTimeout req uploadTimeout \<le> upload + 500000 * second"
    using sum b c by (simp add: second_def split del: if_split)
  have "upload + 30 * second + runner_wait n req + c \<le> remoteExecutionTimeout req uploadTimeout"
    using sum waits by linarith
  then show ?thesis
    unfolding Let_def upload_def [symmetric] using bound c(1) session by (intro conjI allI impI) fastforce+
qed

theorem remote_wait_covers_witness:
  "60 * second + runner_wait \<lparr>cn_method = CPUNormalizationMethod, cn_referenceTimeNs = 60000000, cn_observedTimeNs = 60500000\<rparr> sum_request
   \<le> remoteExecutionTimeout sum_request (30 * second)"
proof -
  have "admissible_size sum_request" by (simp add: admissible_size_def sum_request_def zero_defs)
  then show ?thesis
    using remote_wait_covers [OF demo_calibration, of sum_request "30 * second"] by (simp add: second_def Let_def)
qed

end
