(* ===== verification/Interactive.thy ===== *)
theory Interactive
  imports Short_Repeat Time_Budget
begin

text \<open>
  internal/execute/interactive.go: how the results of the contestant and of the interactor, which ran at the same time and
  talked through two pipes, become one response. The two runs, the pipes and the files are parameters.
\<close>

section \<open>Small helpers\<close>

fun firstNonEmptyString :: "string list \<Rightarrow> string" where
  "firstNonEmptyString [] = []"
| "firstNonEmptyString (v # vs) = (if trim_space v \<noteq> [] then v else firstNonEmptyString vs)"

fun firstNonEmptyBytes :: "string list \<Rightarrow> string" where
  "firstNonEmptyBytes [] = []"
| "firstNonEmptyBytes (v # vs) = (if length v > 0 then v else firstNonEmptyBytes vs)"

definition prefixInteractiveSource :: "string \<Rightarrow> string \<Rightarrow> string" where
  "prefixInteractiveSource prefx source = (if trim_space source = [] then prefx else prefx @ '':'' @ source)"

text \<open>\<open>strings.Contains\<close>.\<close>

definition contains_text :: "string \<Rightarrow> string \<Rightarrow> bool" where
  "contains_text s part \<longleftrightarrow> list_ex (\<lambda>k. has_prefix (drop k s) part) [0 ..< Suc (length s)]"

definition interactiveFailureMessage :: "execResult \<Rightarrow> execResult \<Rightarrow> int \<Rightarrow> string" where
  "interactiveFailureMessage contestant interactor outputLimit = firstNonEmptyString
     [clipUTF8 (er_Stderr interactor) outputLimit, clipUTF8 (er_Stderr contestant) outputLimit,
      er_Reason interactor, er_Reason contestant]"

definition validateInteractivePeerRuntimeIsolation :: "string \<Rightarrow> string \<Rightarrow> string option" where
  "validateInteractivePeerRuntimeIsolation contestantLang interactorLang =
     (if length (filter (\<lambda>l. NormalizeRunLang l \<in> {''csharp'', ''fsharp'', ''vbnet''}) [contestantLang, interactorLang]) > 1
      then Some ''concurrent .NET contestant and interactor runtimes are unsupported: CoreCLR shared state cannot cross the isolated peer identities''
      else None)"

section \<open>The relays\<close>

text \<open>
  An error of a relay: its text, and whether it is one that a closed peer explains. The last argument says the latter of the
  error that the run itself recorded.
\<close>

definition apply_relay :: "bool \<Rightarrow> (string \<times> bool) option \<Rightarrow> string \<Rightarrow> bool \<Rightarrow> execResult \<Rightarrow> execResult" where
  "apply_relay finalVerdictAvailable relayErr label recordedExpected res =
     (case relayErr of
        None \<Rightarrow> res
      | Some (err, expected) \<Rightarrow>
          if finalVerdictAvailable \<and> expected then
            (if er_Status res = RunStatusRE \<and> er_VerdictSource res = ''stream_io'' \<and> recordedExpected
             then res\<lparr>er_Status := StatusOK, er_Reason := [], er_VerdictSource := []\<rparr> else res)
          else if er_Status res = StatusOK then
            res\<lparr>er_Status := RunStatusRE, er_Reason := label @ '': '' @ err, er_VerdictSource := ''stream_io''\<rparr>
          else res)"

definition reconcileInteractiveRelayResults ::
  "(string \<times> bool) option \<Rightarrow> (string \<times> bool) option \<Rightarrow> bool \<Rightarrow> bool \<Rightarrow> execResult \<times> execResult \<Rightarrow> execResult \<times> execResult" where
  "reconcileInteractiveRelayResults toInteractorErr toContestantErr contestantExpected interactorExpected rs =
     (case rs of (contestant, interactor) \<Rightarrow>
        (let finalVerdictAvailable = (er_ExitCode contestant = Some 0 \<and> er_ExitCode interactor \<noteq> None) in
         (apply_relay finalVerdictAvailable toInteractorErr ''interactive relay to interactor failed'' contestantExpected contestant,
          apply_relay finalVerdictAvailable toContestantErr ''interactive relay to contestant failed'' interactorExpected interactor)))"

section \<open>The two statuses\<close>

definition classifyInteractorStatus :: "RunRequest \<Rightarrow> execResult \<Rightarrow> verdict" where
  "classifyInteractorStatus req res =
     (case applyFinalCPUTimeStatus (er_Status res) (er_Reason res) (er_VerdictSource res) (er_CPUTimeMs res)
             (lim_TimeMs (rq_Limits req)) (has_prefix (er_VerdictSource res) ''cpu_time_cgroup'') of
        (status, reason, source) \<Rightarrow>
          if status \<noteq> StatusOK then
            (if status = RunStatusTLE \<or> status = RunStatusMLE \<or> status = RunStatusWLE
             then (RunStatusRE, firstNonEmptyString [reason, ''interactor failed: '' @ status], source)
             else (status, reason, source))
          else
            (case er_ExitCode res of
               None \<Rightarrow> (RunStatusRE, ''interactor did not report an exit code'', ''interactor'')
             | Some code \<Rightarrow>
                 if code = 0 then applyStdoutLimitVerdict RunStatusAccepted [] ''exit_code'' (er_StdoutTruncated res)
                 else if code = 3 then
                   (RunStatusRE, firstNonEmptyString [clipUTF8 (er_Stderr res) (responseStderrLimitBytes req), ''interactor failed''],
                    ''exit_code'')
                 else (RunStatusWA, clipUTF8 (er_Stderr res) (responseStderrLimitBytes req), ''exit_code'')))"

definition contestant_status :: "RunRequest \<Rightarrow> execResult \<Rightarrow> verdict" where
  "contestant_status req res =
     (case classifyRunStatusWithoutOutput req res of (s, r, so) \<Rightarrow>
        (case applyStdoutLimitVerdict s r so (er_StdoutTruncated res) of (status, reason, source) \<Rightarrow>
           (if status = StatusOK then RunStatusAccepted else status, reason, source)))"

definition interactive_step :: "string \<Rightarrow> verdict \<Rightarrow> execResult \<Rightarrow> string \<times> bool \<Rightarrow> string \<times> bool \<Rightarrow> StepResult" where
  "interactive_step who v res out err =
     (case v of (status, reason, source) \<Rightarrow>
        \<lparr>sr_ID = who, sr_ProgramID = who, sr_Status = status, sr_TimeMs = er_WallTimeMs res,
         sr_WallTimeMs = er_WallTimeMs res, sr_CPUTimeMs = er_CPUTimeMs res, sr_RawCPUTimeMs = er_RawCPUTimeMs res,
         sr_ProcessCPUTimeMs = er_ProcessCPUTimeMs res, sr_MemoryKB = er_MemoryKB res, sr_ExitCode = er_ExitCode res,
         sr_Stdout = fst out, sr_Stderr = fst err,
         sr_StdoutTruncated = (er_StdoutTruncated res \<or> snd out), sr_StderrTruncated = (er_StderrTruncated res \<or> snd err),
         sr_Reason = firstNonEmptyString [reason, er_Reason res], sr_ReasonTruncated = False,
         sr_VerdictSource = prefixInteractiveSource who source, sr_HandoffBytes = 0\<rparr>)"

definition interactiveContestantStepResult :: "RunRequest \<Rightarrow> execResult \<Rightarrow> StepResult" where
  "interactiveContestantStepResult req res = interactive_step ''contestant'' (contestant_status req res) res
     (capturedOutputValue (er_Stdout res) (responseStdoutLimitBytes req))
     (capturedOutputValue (er_Stderr res) (responseStderrLimitBytes req))"

definition interactiveInteractorStepResult :: "RunRequest \<Rightarrow> execResult \<Rightarrow> StepResult" where
  "interactiveInteractorStepResult req res = interactive_step ''interactor'' (classifyInteractorStatus req res) res
     ([], False) (capturedOutputValue (er_Stderr res) (responseStderrLimitBytes req))"

section \<open>The response\<close>

text \<open>A contestant that the interactor stopped is not blamed for it.\<close>

definition ignored_contestant :: "bool \<Rightarrow> execResult \<Rightarrow> bool" where
  "ignored_contestant canceledByInteractor contestant \<longleftrightarrow> canceledByInteractor \<and>
     (er_Status contestant = RunStatusTLE \<and> er_VerdictSource contestant = ''wall_time'' \<or>
      er_Status contestant = RunStatusInitFail \<and> contains_text (to_lower (er_Reason contestant)) ''context canceled'')"

text \<open>The status, reason, source and score of the switch.\<close>

definition interactive_verdict ::
  "RunRequest \<Rightarrow> RunRequest \<Rightarrow> execResult \<Rightarrow> execResult \<Rightarrow> bool \<Rightarrow> bool \<Rightarrow> string \<times> string \<times> string \<times> rat" where
  "interactive_verdict req interactorReq contestant interactor deadlineExceeded canceledByInteractor =
     (let limit = responseStderrLimitBytes req; message = interactiveFailureMessage contestant interactor limit;
          ignored = ignored_contestant canceledByInteractor contestant in
      case contestant_status req contestant of (contestantStatus, contestantReason, contestantSource) \<Rightarrow>
      case classifyInteractorStatus interactorReq interactor of (interactorStatus, interactorReason, interactorSource) \<Rightarrow>
        if er_Status contestant = RunStatusInitFail \<and> \<not> ignored then
          (RunStatusInitFail, firstNonEmptyString [er_Reason contestant, ''contestant initialization failed''],
           prefixInteractiveSource ''contestant'' (er_VerdictSource contestant), 0)
        else if er_Status interactor = RunStatusInitFail then
          (RunStatusInitFail, firstNonEmptyString [er_Reason interactor, ''interactor initialization failed''],
           prefixInteractiveSource ''interactor'' (er_VerdictSource interactor), 0)
        else if deadlineExceeded then (RunStatusTLE, ''wall time limit exceeded'', ''interactive:wall_time'', 0)
        else if \<not> ignored \<and> contestantStatus \<noteq> RunStatusAccepted then
          (contestantStatus, firstNonEmptyString [contestantReason, er_Reason contestant],
           prefixInteractiveSource ''contestant'' contestantSource, 0)
        else if interactorStatus = RunStatusAccepted then (RunStatusAccepted, [], ''interactor'', 1)
        else if interactorStatus = RunStatusRE then
          (RunStatusRE, firstNonEmptyString [interactorReason, message, ''interactor failed''],
           prefixInteractiveSource ''interactor'' interactorSource, 0)
        else (interactorStatus, firstNonEmptyString [interactorReason, message],
              prefixInteractiveSource ''interactor'' interactorSource, 0))"

definition fill_reason :: "string \<Rightarrow> string \<Rightarrow> string \<Rightarrow> string" where
  "fill_reason status reason message =
     (let reason = (if status = RunStatusWA \<and> trim_space reason = [] then ''wrong answer'' else reason) in
      if status = RunStatusRE \<and> trim_space reason = []
      then (if trim_space message = [] then ''interactive execution failed'' else message) else reason)"

definition interactiveResponse ::
  "RunRequest \<Rightarrow> RunRequest \<Rightarrow> execResult \<Rightarrow> execResult \<Rightarrow> int \<Rightarrow> bool \<Rightarrow> bool \<Rightarrow> RunResponse" where
  "interactiveResponse req interactorReq contestant interactor wallMs deadlineExceeded canceledByInteractor =
     (case interactive_verdict req interactorReq contestant interactor deadlineExceeded canceledByInteractor of
        (status, reason, source, score) \<Rightarrow>
        (let hidden = ([], False);
             out = (if status \<noteq> RunStatusAccepted then capturedOutputValue (er_Stdout contestant) (responseStdoutLimitBytes req) else hidden);
             err = (if status \<noteq> RunStatusAccepted
                    then capturedOutputValue (firstNonEmptyBytes [er_Stderr interactor, er_Stderr contestant]) (responseStderrLimitBytes req)
                    else hidden) in
         zero_RunResponse
           \<lparr>rs_Status := status, rs_TimeMs := wallMs, rs_WallTimeMs := wallMs,
            rs_CPUTimeMs := er_CPUTimeMs contestant + er_CPUTimeMs interactor,
            rs_RawCPUTimeMs := sumRawCPUTime [er_RawCPUTimeMs contestant, er_RawCPUTimeMs interactor],
            rs_ProcessCPUTimeMs := er_ProcessCPUTimeMs contestant + er_ProcessCPUTimeMs interactor,
            rs_MemoryKB := max (er_MemoryKB contestant) (er_MemoryKB interactor), rs_ExitCode := er_ExitCode contestant,
            rs_Stdout := fst out, rs_Stderr := fst err,
            rs_StdoutTruncated := (er_StdoutTruncated contestant \<or> snd out),
            rs_StderrTruncated := (er_StderrTruncated contestant \<or> er_StderrTruncated interactor \<or> snd err),
            rs_Reason := fill_reason status reason (interactiveFailureMessage contestant interactor (responseStderrLimitBytes req)),
            rs_VerdictSource := source, rs_Score := Some score,
            rs_Steps := [interactiveContestantStepResult req contestant, interactiveInteractorStepResult interactorReq interactor]\<rparr>))"


section \<open>The execution\<close>

text \<open>
  The two runs at once: their results as the sandboxes report them, the errors of the relays and whether the recorded ones are expected,
  whether a deadline or the context ended the run, and whether the interactor stopped the contestant.
\<close>

record both_runs =
  bo_Contestant :: execResult
  bo_Interactor :: execResult
  bo_ToInteractor :: "(string \<times> bool) option"
  bo_ToContestant :: "(string \<times> bool) option"
  bo_ContestantExpected :: bool
  bo_InteractorExpected :: bool
  bo_DeadlineHit :: bool
  bo_Canceled :: bool

text \<open>
  The output file of the interactor: what \<open>Lstat\<close> says of it, and the file behind it, \<open>None\<close> when it cannot be opened:
  whether it is still the regular file that was looked at, and its bytes, \<open>None\<close> when the copy fails.
\<close>

record output_file =
  of_Regular :: bool
  of_Links :: "nat option"
  of_Size :: int
  of_Opened :: "(bool \<times> string option) option"

text \<open>
  The host: the workspaces of the two roles, the files written for the interactor (\<open>Inl\<close> the text of an error, or
  the content of the input it is given), the pipes, the runs, the output file of the interactor and the time they took.
\<close>

record interactive_host =
  ih_Contestant :: run_host
  ih_Interactor :: run_host
  ih_RequestInput :: "RunRequest \<Rightarrow> string + string"
  ih_TempFails :: "string option"
  ih_ReadError :: string
  ih_AnswerFails :: "string option"
  ih_ContestantPipe :: "string option"
  ih_InteractorPipe :: "string option"
  ih_Both :: "RuntimeTuningConfig \<Rightarrow> string list \<Rightarrow> string list \<Rightarrow> RunRequest \<Rightarrow> RunRequest \<Rightarrow> string \<Rightarrow> both_runs"
  ih_OutputFile :: "output_file option"
  ih_WallMs :: int

record interactiveRunResult =
  ir_response :: RunResponse
  ir_participantStdout :: string
  ir_participantFile :: "(string + string) option"
  ir_interactorOutput :: "(string + string) option"
  ir_logs :: "(string \<times> string) list"

definition prepareInteractiveCommand ::
  "run_host \<Rightarrow> RuntimeTuningConfig \<Rightarrow> RunRequest \<Rightarrow> string \<Rightarrow> string + string list" where
  "prepareInteractiveCommand H tuning req label =
     (if \<not> h_WorkDir H then Inl (label @ '' work directory creation failed'')
      else if \<not> h_WorkspaceDirs H then Inl (label @ '' workspace preparation failed'')
      else
        (case h_Materialize H req of
           None \<Rightarrow> Inl (label @ '' file materialization failed'')
         | Some (primaryPath, runLang) \<Rightarrow>
             (let cmdArgs = h_Command H tuning primaryPath runLang req in
              if cmdArgs = [] then Inl (label @ '' command is empty'') else Inr cmdArgs)))"

text \<open>
  Up to the start of the two programs: the reason of a failure, or the two commands, the request of the interactor and its input.
\<close>

definition interactive_setup ::
  "exec_service \<Rightarrow> interactive_host \<Rightarrow> RuntimeTuningConfig \<Rightarrow> RunRequest \<Rightarrow> source option \<Rightarrow> int \<Rightarrow>
   string + string list \<times> string list \<times> RunRequest \<times> string" where
  "interactive_setup sv H tuning req stdin stdinMaxBytes =
     (case rq_Interactor req of
        None \<Rightarrow> Inl ''interactor is required''
      | Some ia \<Rightarrow>
          (let rejection = networkRequestRejection sv (rq_EnableNetwork req); interactorReq = interactorRunRequest req ia in
           if rejection \<noteq> [] then Inl rejection
           else if length (rq_SidecarOutputs req) > maxSidecarOutputSpecs then
             Inl (''too many sidecar outputs: max '' @ dec maxSidecarOutputSpecs)
           else if length (rq_Binaries req) > MaxBinaryFiles then Inl (''too many binaries: max '' @ dec MaxBinaryFiles)
           else if rq_Binaries req = [] then Inl ''no binaries''
           else and_then (prepareInteractiveCommand (ih_Contestant H) tuning req ''contestant'') (\<lambda>contestantArgs.
             and_then (prepareInteractiveCommand (ih_Interactor H) tuning interactorReq ''interactor'') (\<lambda>interactorArgs.
               checked (validateInteractivePeerRuntimeIsolation (rq_Lang req) (rq_Lang interactorReq))
                 (case (case stdin of
                          Some body \<Rightarrow> writeTempFileFromReader (ih_TempFails H) body (ih_ReadError H)
                            (if stdinMaxBytes \<le> 0 then int MaxTextFieldBytes else stdinMaxBytes)
                        | None \<Rightarrow> ih_RequestInput H req) of
                    Inl e \<Rightarrow> Inl (''interactive input materialization failed: '' @ e)
                  | Inr input \<Rightarrow>
                      checked (map_option (\<lambda>e. ''interactive answer materialization failed: '' @ e) (ih_AnswerFails H))
                        (checked (map_option (\<lambda>e. ''contestant input pipe failed: '' @ e) (ih_ContestantPipe H))
                          (checked (map_option (\<lambda>e. ''interactor input pipe failed: '' @ e) (ih_InteractorPipe H))
                            (Inr (contestantArgs, interactorArgs, interactorReq, input)))))))))"

definition captureInteractorOutput :: "bool \<Rightarrow> output_file option \<Rightarrow> int \<Rightarrow> string + string" where
  "captureInteractorOutput hasDest file maxBytes =
     (if \<not> hasDest then Inl ''interactor_output destination is unavailable''
      else
        (case file of
           None \<Rightarrow> Inl ''required interactor_output was not produced''
         | Some f \<Rightarrow>
             if \<not> of_Regular f then Inl ''interactor_output is not a regular file''
             else if of_Links f \<notin> {None, Some 1} then Inl ''interactor_output must not be a hard link''
             else if of_Size f > maxBytes then Inl ''interactor_output exceeded max_bytes''
             else
               (case of_Opened f of
                  None \<Rightarrow> Inl ''interactor_output open failed''
                | Some (same, bytes) \<Rightarrow>
                    if \<not> same then Inl ''interactor_output changed during capture''
                    else
                      (case map_option (take (nat (maxBytes + 1))) bytes of
                         None \<Rightarrow> Inl ''interactor_output copy failed''
                       | Some copied \<Rightarrow>
                           if int (length copied) > maxBytes then Inl ''interactor_output exceeded max_bytes''
                           else Inr copied))))"

text \<open>What is captured of the interactor is its whole output, within the bound, even when the file grows while it is copied.\<close>

lemma captured_interactor_output:
  assumes "captureInteractorOutput hasDest file maxBytes = Inr copied"
  shows "int (length copied) \<le> maxBytes \<and>
    (\<exists>f. file = Some f \<and> of_Regular f \<and> of_Links f \<in> {None, Some 1} \<and> of_Opened f = Some (True, Some copied))"
  using assms
  by (auto simp: captureInteractorOutput_def split: if_splits option.splits)

definition runInteractiveExecution ::
  "exec_service \<Rightarrow> interactive_host \<Rightarrow> RunRequest \<Rightarrow> source option \<Rightarrow> int \<Rightarrow> bool \<Rightarrow> int \<Rightarrow> bool \<Rightarrow> bool \<Rightarrow>
   RuntimeTuningConfig \<Rightarrow> interactiveRunResult" where
  "runInteractiveExecution sv H req stdin stdinMaxBytes interactorOutputDest interactorOutputMaxBytes captureParticipantStdout onLog tuning =
     (case interactive_setup sv H tuning req stdin stdinMaxBytes of
        Inl reason \<Rightarrow>
          \<lparr>ir_response = failed_response reason, ir_participantStdout = [], ir_participantFile = None,
           ir_interactorOutput = None, ir_logs = []\<rparr>
      | Inr (contestantArgs, interactorArgs, interactorReq, input) \<Rightarrow>
          (let both = ih_Both H tuning contestantArgs interactorArgs req interactorReq input;
               (contestant, interactor) = reconcileInteractiveRelayResults (bo_ToInteractor both) (bo_ToContestant both)
                 (bo_ContestantExpected both) (bo_InteractorExpected both) (bo_Contestant both, bo_Interactor both);
               (sidecarOutputs, sidecarErrors) = captureSidecarOutputs (h_Open (ih_Contestant H)) (rq_SidecarOutputs req);
               resp = interactiveResponse req interactorReq contestant interactor (ih_WallMs H) (bo_DeadlineHit both) (bo_Canceled both) in
           \<lparr>ir_response = resp\<lparr>rs_SidecarOutputs := sidecarOutputs, rs_SidecarErrors := sidecarErrors\<rparr>,
            ir_participantStdout = (if captureParticipantStdout then er_Stdout contestant else []),
            ir_participantFile = (case rq_FileOutputs req of
               [] \<Rightarrow> None | spec # _ \<Rightarrow> Some (captureFileOutput (h_Open (ih_Contestant H) (outf_Path spec)))),
            ir_interactorOutput =
              (if interactorOutputMaxBytes > 0 then Some (captureInteractorOutput interactorOutputDest (ih_OutputFile H) interactorOutputMaxBytes) else None),
            ir_logs = emitCapturedLog onLog ''stdout'' (er_Stdout contestant) (responseStdoutLimitBytes req) @
              emitCapturedLog onLog ''stderr'' (firstNonEmptyBytes [er_Stderr interactor, er_Stderr contestant])
                (responseStderrLimitBytes req)\<rparr>))"

definition runInteractive ::
  "exec_service \<Rightarrow> interactive_host \<Rightarrow> RunRequest \<Rightarrow> bool \<Rightarrow> RuntimeTuningConfig \<Rightarrow> RunResponse" where
  "runInteractive sv H req onLog tuning = ir_response (runInteractiveExecution sv H req None 0 False 0 False onLog tuning)"

section \<open>Who wins\<close>

text \<open>The interactor ended well, within its time, with exit code 0 and without overflowing its output.\<close>

definition interactor_accepts :: "RunRequest \<Rightarrow> execResult \<Rightarrow> bool" where
  "interactor_accepts req res \<longleftrightarrow>
     er_Status res = StatusOK \<and> \<not> (lim_TimeMs (rq_Limits req) > 0 \<and> er_CPUTimeMs res > lim_TimeMs (rq_Limits req)) \<and>
     er_ExitCode res = Some 0 \<and> \<not> er_StdoutTruncated res"

lemma classify_interactor_accepted:
  assumes "er_Status res \<noteq> RunStatusAccepted"
  shows "fst (classifyInteractorStatus req res) = RunStatusAccepted \<longleftrightarrow> interactor_accepts req res"
  using assms
  by (cases "er_ExitCode res")
     (auto simp: classifyInteractorStatus_def applyFinalCPUTimeStatus_def applyCPUTimeLimitStatus_def
       interactor_accepts_def limit_verdict_fst split: if_splits)

lemma contestant_accepted:
  assumes "er_Status res \<noteq> RunStatusAccepted"
  shows "fst (contestant_status req res) = RunStatusAccepted \<longleftrightarrow> ran_clean req res \<and> \<not> er_StdoutTruncated res"
proof -
  obtain s r so where c: "classifyRunStatusWithoutOutput req res = (s, r, so)" by (cases "classifyRunStatusWithoutOutput req res")
  have "s = StatusOK \<longleftrightarrow> ran_clean req res" using classify_ok_iff [of req res] c by simp
  moreover have "s \<noteq> RunStatusAccepted" using classify_accepted [of req res] assms c by auto
  ultimately show ?thesis
    using limit_verdict_fst [of s r so "er_StdoutTruncated res"]
    by (cases "applyStdoutLimitVerdict s r so (er_StdoutTruncated res)") (auto simp: contestant_status_def c split: if_splits)
qed

definition interactive_accepts ::
  "RunRequest \<Rightarrow> RunRequest \<Rightarrow> execResult \<Rightarrow> execResult \<Rightarrow> bool \<Rightarrow> bool \<Rightarrow> bool" where
  "interactive_accepts req interactorReq contestant interactor deadline canceled \<longleftrightarrow>
     interactor_accepts interactorReq interactor \<and> \<not> deadline \<and>
     (ignored_contestant canceled contestant \<or> ran_clean req contestant \<and> \<not> er_StdoutTruncated contestant)"

lemma interactive_verdict_accepts:
  assumes "er_Status contestant \<noteq> RunStatusAccepted" "er_Status interactor \<noteq> RunStatusAccepted"
    and "interactive_verdict req interactorReq contestant interactor deadline canceled = (status, reason, source, score)"
  shows "status = RunStatusAccepted \<longleftrightarrow> interactive_accepts req interactorReq contestant interactor deadline canceled"
    and "score = (if status = RunStatusAccepted then 1 else 0)"
proof -
  obtain cs cr cso where c: "contestant_status req contestant = (cs, cr, cso)" by (cases "contestant_status req contestant")
  obtain ist ir iso where i: "classifyInteractorStatus interactorReq interactor = (ist, ir, iso)"
    by (cases "classifyInteractorStatus interactorReq interactor")
  have C: "cs = RunStatusAccepted \<longleftrightarrow> ran_clean req contestant \<and> \<not> er_StdoutTruncated contestant"
    using contestant_accepted [OF assms(1), of req] c by simp
  have I: "ist = RunStatusAccepted \<longleftrightarrow> interactor_accepts interactorReq interactor"
    using classify_interactor_accepted [OF assms(2), of interactorReq] i by simp
  have ci: "ran_clean req contestant \<Longrightarrow> er_Status contestant \<noteq> RunStatusInitFail"
    "interactor_accepts interactorReq interactor \<Longrightarrow> er_Status interactor \<noteq> RunStatusInitFail"
    by (auto simp: ran_clean_def interactor_accepts_def)
  show "status = RunStatusAccepted \<longleftrightarrow> interactive_accepts req interactorReq contestant interactor deadline canceled"
    "score = (if status = RunStatusAccepted then 1 else 0)"
    using assms(3) C I ci unfolding interactive_verdict_def Let_def c i prod.case interactive_accepts_def
    by (auto split: if_splits)
qed

section \<open>Properties\<close>

text \<open>
  C34. The verdict of an interactive run. The response is accepted, with score 1, exactly when the interactor ended with exit code 0 within its
  time and output limits, no deadline passed, and the contestant ran within its limits without an error, unless the interactor
  itself stopped it; otherwise the score is 0. An accepted response shows neither output; any other shows valid UTF-8 within the limits of the request.
\<close>

theorem interactive_verdict_exact:
  assumes "er_Status contestant \<noteq> RunStatusAccepted" "er_Status interactor \<noteq> RunStatusAccepted"
    and "resp = interactiveResponse req interactorReq contestant interactor wallMs deadline canceled"
  shows "(rs_Status resp = RunStatusAccepted \<longleftrightarrow> interactive_accepts req interactorReq contestant interactor deadline canceled) \<and>
    rs_Score resp = Some (if rs_Status resp = RunStatusAccepted then 1 else 0) \<and>
    (rs_Status resp = RunStatusAccepted \<longrightarrow> rs_Stdout resp = [] \<and> rs_Stderr resp = []) \<and>
    valid_utf8 (rs_Stdout resp) \<and> length (rs_Stdout resp) \<le> nat (responseStdoutLimitBytes req) \<and>
    valid_utf8 (rs_Stderr resp) \<and> length (rs_Stderr resp) \<le> nat (responseStderrLimitBytes req)"
proof -
  obtain status reason source score where
    v: "interactive_verdict req interactorReq contestant interactor deadline canceled = (status, reason, source, score)"
    by (cases "interactive_verdict req interactorReq contestant interactor deadline canceled")
  obtain o1 o2 where o: "capturedOutputValue (er_Stdout contestant) (responseStdoutLimitBytes req) = (o1, o2)"
    by (cases "capturedOutputValue (er_Stdout contestant) (responseStdoutLimitBytes req)")
  obtain e1 e2 where e:
    "capturedOutputValue (firstNonEmptyBytes [er_Stderr interactor, er_Stderr contestant]) (responseStderrLimitBytes req) = (e1, e2)"
    by (cases "capturedOutputValue (firstNonEmptyBytes [er_Stderr interactor, er_Stderr contestant]) (responseStderrLimitBytes req)")
  have f: "rs_Status resp = status" "rs_Score resp = Some score"
    "rs_Stdout resp = (if status \<noteq> RunStatusAccepted then o1 else [])"
    "rs_Stderr resp = (if status \<noteq> RunStatusAccepted then e1 else [])"
    unfolding assms(3) interactiveResponse_def v prod.case Let_def o e by simp_all
  show ?thesis
    unfolding f interactive_verdict_accepts(1) [OF assms(1,2) v, symmetric]
    using captured_facts(1,3) [OF o] captured_facts(1,3) [OF e] interactive_verdict_accepts(2) [OF assms(1,2) v]
    by auto
qed

theorem interactive_verdict_exact_witness:
  "rs_Status (interactiveResponse sum_request sum_request plain_result plain_result 20 False False) = RunStatusAccepted \<and>
   rs_Score (interactiveResponse sum_request sum_request plain_result plain_result 20 False False) = Some 1"
proof -
  have n: "er_Status plain_result \<noteq> RunStatusAccepted" by (simp add: plain_result_def)
  have "interactive_accepts sum_request sum_request plain_result plain_result False False"
    by (simp add: interactive_accepts_def interactor_accepts_def ran_clean_def plain_result_def sum_request_def zero_defs)
  then show ?thesis using interactive_verdict_exact [OF n n refl, of sum_request sum_request 20 False False] by simp
qed

end
