(* ===== verification/Pipeline_Run.thy ===== *)
theory Pipeline_Run
  imports Interactive Run_Pipeline
begin

text \<open>
  internal/execute/pipeline.go: the plan of a pipeline, the store of its artifacts, the steps one after the other, the final judge
  and the public part of the response. The files, the runs and the special judge are parameters of each step.
\<close>

section \<open>The plan\<close>

record executionPlanInput =
  in_resource :: string
  in_artifactID :: string

record executionPlanStep =
  pn_id :: string
  pn_kind :: string
  pn_program :: RunProgram
  pn_interactor :: RunProgram
  pn_interactorLimits :: "Limits option"
  pn_interactorAnswer :: "string option"
  pn_stdin :: "executionPlanInput list"
  pn_outputs :: "PipelineOutput list"
  pn_limits :: Limits

record executionPlanFinalJudge =
  pj_spec :: PipelineFinalJudge
  pj_input :: string
  pj_expected :: string
  pj_actualStepID :: string
  pj_stepLimits :: Limits

record executionPlan =
  pa_steps :: "executionPlanStep list"
  pa_finalJudge :: executionPlanFinalJudge

type_synonym resource_store = "(string \<times> string) list"

definition materialize_resource ::
  "nat \<Rightarrow> string \<times> PipelineResource \<Rightarrow> resource_store \<times> nat \<Rightarrow> string + resource_store \<times> nat" where
  "materialize_resource _ e st =
     (case (e, st) of ((rid, r), (resources, n)) \<Rightarrow>
        if trim_space (prs_DataURL r) \<noteq> [] then Inl (''pipeline resource '' @ rid @ '' data_url was not resolved'')
        else
          (case b64_decode (prs_DataB64 r) of
             None \<Rightarrow> Inl (''pipeline resource '' @ rid @ '' decode failed'')
           | Some data \<Rightarrow>
               if length data > MaxTextFieldBytes then Inl (''pipeline resource '' @ rid @ '' too large'')
               else if n + length data > MaxPipelineResourceTotalBytes then Inl ''pipeline resources total size exceeded''
               else Inr ((rid, data) # resources, n + length data)))"

definition materializePipelineResources :: "PipelineV1 \<Rightarrow> string + resource_store" where
  "materializePipelineResources pl =
     and_then (loop_err materialize_resource 0 (pl_Resources pl) ([], 0)) (\<lambda>(resources, n). Inr resources)"

text \<open>Looking a key up in a Go map gives the zero value when it is missing; of equal keys the last one stored counts.\<close>

definition look :: "('k \<times> 'v) list \<Rightarrow> 'v \<Rightarrow> 'k \<Rightarrow> 'v" where
  "look m z k = (case map_of m k of None \<Rightarrow> z | Some v \<Rightarrow> v)"

definition planned_input :: "resource_store \<Rightarrow> PipelineRef \<Rightarrow> executionPlanInput" where
  "planned_input resources ref =
     (if folds_to (trim_space (ref_Type ref)) ''resource''
      then \<lparr>in_resource = look resources [] (trim_space (ref_ID ref)), in_artifactID = []\<rparr>
      else \<lparr>in_resource = [], in_artifactID = trim_space (ref_ID ref)\<rparr>)"

definition planned_step :: "resource_store \<Rightarrow> (string \<times> RunProgram) list \<Rightarrow> PipelineStep \<Rightarrow> executionPlanStep" where
  "planned_step resources programs step =
     (let ex = ps_Executor step; kind = to_lower (trim_space (ex_Kind ex));
          program = (\<lambda>i. look programs zero_RunProgram (trim_space i)) in
      \<lparr>pn_id = ps_ID step, pn_kind = kind,
       pn_program = (if kind = ''interactive'' then program (ex_ParticipantProgramID ex) else program (ex_ProgramID ex)),
       pn_interactor = (if kind = ''interactive'' then program (ex_InteractorProgramID ex) else zero_RunProgram),
       pn_interactorLimits = ex_InteractorLimits ex,
       pn_interactorAnswer =
         (if kind = ''interactive'' then map_option (\<lambda>answer. look resources [] (trim_space (ref_ID answer))) (ex_InteractorAnswer ex)
          else None),
       pn_stdin = map (planned_input resources) (ps_Stdin step),
       pn_outputs = ps_Outputs step, pn_limits = ps_Limits step\<rparr>)"

definition compileExecutionPlan :: "env \<Rightarrow> (pipe_error \<Rightarrow> string) \<Rightarrow> RunRequest \<Rightarrow> string + executionPlan" where
  "compileExecutionPlan E textof req =
     checked (map_option textof (ValidatePipelineV1 E req))
       (case rq_Pipeline req of
          None \<Rightarrow> Inl []
        | Some pl \<Rightarrow>
            and_then (materializePipelineResources pl) (\<lambda>resources.
              (let programs = rev (map (\<lambda>p. (prog_ID p, p)) (pl_Programs pl));
                   steps = map (planned_step resources programs) (pl_Steps pl); judge = pl_FinalJudge pl in
               Inr \<lparr>pa_steps = steps,
                    pa_finalJudge = \<lparr>pj_spec = judge, pj_input = look resources [] (trim_space (ref_ID (fj_Input judge))),
                      pj_expected = look resources [] (trim_space (ref_ID (fj_Expected judge))),
                      pj_actualStepID = trim_space (ref_StepID (fj_Actual judge)),
                      pj_stepLimits = pn_limits (last steps)\<rparr>\<rparr>)))"

section \<open>The artifacts\<close>

text \<open>
  The store: the content of its files, which are named by their number and never change, the file of each artifact, the files that
  count, and the bytes they count for.
\<close>

record artifact_store =
  as_files :: "string list"
  as_paths :: "(string \<times> nat) list"
  as_counted :: "nat list"
  as_storedBytes :: int

definition newPipelineArtifactStore :: artifact_store where
  "newPipelineArtifactStore = \<lparr>as_files = [], as_paths = [], as_counted = [], as_storedBytes = 0\<rparr>"

definition put_artifact :: "bool \<Rightarrow> string \<Rightarrow> string \<Rightarrow> int \<Rightarrow> artifact_store \<Rightarrow> artifact_store option" where
  "put_artifact writes aid data maxBytes s =
     (if int (length data) > maxBytes then None
      else if as_storedBytes s + int (length data) > MaxPipelineArtifactTotalBytes then None
      else if \<not> writes then None
      else Some \<lparr>as_files = as_files s @ [data], as_paths = (aid, length (as_files s)) # as_paths s,
                 as_counted = length (as_files s) # as_counted s, as_storedBytes = as_storedBytes s + int (length data)\<rparr>)"

text \<open>A file written outside the store, such as the output of an interactor, before it is put.\<close>

definition add_file :: "string \<Rightarrow> artifact_store \<Rightarrow> artifact_store" where
  "add_file data s = s\<lparr>as_files := as_files s @ [data]\<rparr>"

text \<open>\<open>putPath\<close>; the file is \<open>None\<close> when there is none of that name or it is not a regular file.\<close>

definition put_path :: "string \<Rightarrow> nat option \<Rightarrow> int \<Rightarrow> artifact_store \<Rightarrow> (int \<times> artifact_store) option" where
  "put_path aid file maxBytes s =
     (case file of
        None \<Rightarrow> None
      | Some f \<Rightarrow>
          (let n = int (length (as_files s ! f)); bind = (\<lambda>s. s\<lparr>as_paths := (aid, f) # as_paths s\<rparr>) in
           if n > maxBytes then None
           else if f \<in> set (as_counted s) then Some (n, bind s)
           else if as_storedBytes s + n > MaxPipelineArtifactTotalBytes then None
           else Some (n, bind (s\<lparr>as_counted := f # as_counted s, as_storedBytes := as_storedBytes s + n\<rparr>))))"

definition open_artifact :: "(string \<Rightarrow> bool) \<Rightarrow> string \<Rightarrow> artifact_store \<Rightarrow> string option" where
  "open_artifact opens aid s =
     (case map_of (as_paths s) aid of
        None \<Rightarrow> None
      | Some f \<Rightarrow> if opens aid then Some (as_files s ! f) else None)"

text \<open>\<open>preparePipelineStdin\<close>: the whole input and the bound on it, unless a file cannot be used or the input exceeds the bound.\<close>

definition input_content :: "(string \<Rightarrow> bool) \<Rightarrow> artifact_store \<Rightarrow> executionPlanInput \<Rightarrow> string option" where
  "input_content opens s ref =
     (if in_artifactID ref = [] then Some (in_resource ref) else open_artifact opens (in_artifactID ref) s)"

fun copy_inputs :: "int \<Rightarrow> string option list \<Rightarrow> string \<Rightarrow> string option" where
  "copy_inputs maxBytes [] written = Some written"
| "copy_inputs maxBytes (None # refs) written = None"
| "copy_inputs maxBytes (Some content # refs) written =
     (let remaining = max 0 (maxBytes - int (length written)); written' = written @ take (nat (remaining + 1)) content in
      if int (length written') > maxBytes then None else copy_inputs maxBytes refs written')"

definition preparePipelineStdin ::
  "bool \<Rightarrow> (string \<Rightarrow> bool) \<Rightarrow> executionPlanStep \<Rightarrow> artifact_store \<Rightarrow> (string \<times> int) option" where
  "preparePipelineStdin files opens step s =
     (let maxBytes = stdinURLMaxBytes (pn_limits step) in
      if \<not> files then None
      else map_option (\<lambda>content. (content, maxBytes)) (copy_inputs maxBytes (map (input_content opens s) (pn_stdin step)) []))"

section \<open>One step\<close>

text \<open>
  What one step needs: the file of its input, the artifacts it can open, the runs, the file of the interactor's output, the text of an error in
  closing that file, and the artifacts that can be written or are regular files.
\<close>

record pipe_host =
  ph_Files :: bool
  ph_Opens :: "string \<Rightarrow> bool"
  ph_Run :: run_host
  ph_Interactive :: interactive_host
  ph_OutputTemp :: bool
  ph_OutputSeal :: "string option"
  ph_Writes :: "string \<Rightarrow> bool"
  ph_Regular :: "string \<Rightarrow> bool"

definition pipelineProgramRequest :: "RunRequest \<Rightarrow> RunProgram \<Rightarrow> Limits \<Rightarrow> RunRequest" where
  "pipelineProgramRequest req program limits = zero_RunRequest
     \<lparr>rq_Lang := prog_Lang program, rq_Binaries := prog_Binaries program, rq_Limits := limits,
      rq_CaptureLimits := rq_CaptureLimits req, rq_ProblemID := rq_ProblemID req, rq_RuntimeProfile := rq_RuntimeProfile req,
      rq_PythonLibraryMode := rq_PythonLibraryMode req, rq_EnableNetwork := prog_EnableNetwork program,
      rq_EntryPoint := prog_EntryPoint program\<rparr>"

definition source_kind :: "PipelineOutput \<Rightarrow> string" where
  "source_kind output = to_lower (trim_space (os_Kind (po_Source output)))"

definition raise_output :: "int \<Rightarrow> RunRequest \<Rightarrow> RunRequest" where
  "raise_output n q =
     (if lim_OutputBytes (rq_Limits q) < n then q\<lparr>rq_Limits := (rq_Limits q)\<lparr>lim_OutputBytes := n\<rparr>\<rparr> else q)"

definition batch_request :: "RunRequest \<Rightarrow> executionPlanStep \<Rightarrow> RunRequest" where
  "batch_request req step =
     fold (\<lambda>output q.
         (let q = (if source_kind output = ''participant_file''
                   then q\<lparr>rq_FileOutputs := [\<lparr>outf_Path = os_Path (po_Source output)\<rparr>]\<rparr> else q) in
          if source_kind output = ''participant_stdout'' then raise_output (po_MaxBytes output) q else q))
       (pn_outputs step) (pipelineProgramRequest req (pn_program step) (pn_limits step))"

definition interactive_request :: "RunRequest \<Rightarrow> executionPlanStep \<Rightarrow> RunRequest" where
  "interactive_request req step =
     (let q = pipelineProgramRequest req (pn_program step) (pn_limits step);
          q = (case pn_interactorAnswer step of None \<Rightarrow> q | Some answer \<Rightarrow> q\<lparr>rq_ExpectedStdout := answer\<rparr>);
          q = q\<lparr>rq_Interactor := Some \<lparr>ia_Lang = prog_Lang (pn_interactor step), ia_Binaries = prog_Binaries (pn_interactor step),
                 ia_EntryPoint = prog_EntryPoint (pn_interactor step), ia_Limits = pn_interactorLimits step\<rparr>\<rparr> in
      fold (\<lambda>output q.
          (let q = (if source_kind output = ''participant_stdout'' then raise_output (po_MaxBytes output) q else q) in
           if source_kind output = ''participant_file''
           then raise_output (po_MaxBytes output) (q\<lparr>rq_FileOutputs := [\<lparr>outf_Path = os_Path (po_Source output)\<rparr>]\<rparr>) else q))
        (pn_outputs step) q)"

definition interactor_output_max :: "executionPlanStep \<Rightarrow> int" where
  "interactor_output_max step =
     fold (\<lambda>output m. if source_kind output = ''interactor_output'' \<and> po_MaxBytes output > m then po_MaxBytes output else m)
       (pn_outputs step) 0"

text \<open>What a run leaves: its response, the outputs, the file of the interactor's output and an error in capturing one.\<close>

record step_run =
  pr_resp :: RunResponse
  pr_stdout :: string
  pr_file :: string
  pr_interactorOutput :: "string option"
  pr_error :: "string option"

definition run_batch ::
  "exec_service \<Rightarrow> pipe_host \<Rightarrow> RuntimeTuningConfig \<Rightarrow> RunRequest \<Rightarrow> executionPlanStep \<Rightarrow> string \<Rightarrow> int \<Rightarrow> step_run option" where
  "run_batch sv P tuning req step stdin stdinMaxBytes =
     (let stepReq = batch_request req step; captureRawStdout = length (rq_FileOutputs stepReq) > 0 in
      map_option (\<lambda>run.
          (let resp = rr_response run in
           case applyStdoutLimitVerdict (rs_Status resp) (rs_Reason resp) (rs_VerdictSource resp) (rr_stdoutLimitExceeded run) of
             (status, reason, source) \<Rightarrow>
               \<lparr>pr_resp = resp\<lparr>rs_Status := status, rs_Reason := reason, rs_VerdictSource := source\<rparr>,
                pr_stdout = (if captureRawStdout then rr_stdoutOut run else rr_judgeOut run),
                pr_file = (if captureRawStdout then rr_judgeOut run else []),
                pr_interactorOutput = None, pr_error = None\<rparr>))
        (runOneWithStdin sv (ph_Run P) stepReq (Some (Some stdin)) stdinMaxBytes False tuning False captureRawStdout))"

definition run_interactive_step ::
  "exec_service \<Rightarrow> pipe_host \<Rightarrow> RuntimeTuningConfig \<Rightarrow> RunRequest \<Rightarrow> executionPlanStep \<Rightarrow> string \<Rightarrow> int \<Rightarrow> step_run" where
  "run_interactive_step sv P tuning req step stdin stdinMaxBytes =
     (let outputMax = interactor_output_max step;
          run = runInteractiveExecution sv (ph_Interactive P) (interactive_request req step) (Some (Some stdin)) stdinMaxBytes
            (outputMax > 0) outputMax True False tuning;
          outputErr = (case ir_interactorOutput run of
            Some (Inl e) \<Rightarrow> Some e | _ \<Rightarrow> if outputMax > 0 then ph_OutputSeal P else None) in
      \<lparr>pr_resp = ir_response run, pr_stdout = ir_participantStdout run,
       pr_file = (case ir_participantFile run of Some (Inr data) \<Rightarrow> data | _ \<Rightarrow> []),
       pr_interactorOutput =
         (if outputMax > 0 then Some (case ir_interactorOutput run of Some (Inr content) \<Rightarrow> content | _ \<Rightarrow> []) else None),
       pr_error = (case ir_participantFile run of Some (Inl e) \<Rightarrow> Some e | _ \<Rightarrow> outputErr)\<rparr>)"

definition run_step ::
  "exec_service \<Rightarrow> pipe_host \<Rightarrow> RuntimeTuningConfig \<Rightarrow> RunRequest \<Rightarrow> executionPlanStep \<Rightarrow> string \<Rightarrow> int \<Rightarrow> step_run option option" where
  "run_step sv P tuning req step stdin stdinMaxBytes =
     (if pn_kind step = ''batch'' then map_option Some (run_batch sv P tuning req step stdin stdinMaxBytes)
      else if interactor_output_max step > 0 \<and> \<not> ph_OutputTemp P then Some None
      else Some (Some (run_interactive_step sv P tuning req step stdin stdinMaxBytes)))"

text \<open>The artifacts of a step; the file of the interactor's output is number \<open>file\<close>.\<close>

definition store_output ::
  "pipe_host \<Rightarrow> step_run \<Rightarrow> nat option \<Rightarrow> nat \<Rightarrow> PipelineOutput \<Rightarrow> artifact_store \<times> int \<Rightarrow> string + artifact_store \<times> int" where
  "store_output P run file _ output st =
     (case st of (s, artifactBytes) \<Rightarrow>
        (let kind = source_kind output; aid = po_ID output in
         if kind = ''interactor_output'' then
           (case put_path aid (if ph_Regular P aid then file else None) (po_MaxBytes output) s of
              None \<Rightarrow> Inl aid | Some (n, s') \<Rightarrow> Inr (s', artifactBytes + n))
         else
           (let data = (if kind = ''participant_stdout'' then pr_stdout run
                        else if kind = ''participant_file'' then pr_file run else []) in
            case put_artifact (ph_Writes P aid) aid data (po_MaxBytes output) s of
              None \<Rightarrow> Inl aid | Some s' \<Rightarrow> Inr (s', artifactBytes + int (length data)))))"

definition store_outputs ::
  "pipe_host \<Rightarrow> executionPlanStep \<Rightarrow> step_run \<Rightarrow> artifact_store \<Rightarrow> string + artifact_store \<times> int" where
  "store_outputs P step run s =
     (case pr_interactorOutput run of
        None \<Rightarrow> loop_err (store_output P run None) 0 (pn_outputs step) (s, 0)
      | Some content \<Rightarrow> loop_err (store_output P run (Some (length (as_files s)))) 0 (pn_outputs step) (add_file content s, 0))"

definition pipe_failure :: "string \<Rightarrow> executionPlanStep \<Rightarrow> string \<Rightarrow> string \<Rightarrow> RunResponse" where
  "pipe_failure status step source reason = zero_RunResponse
     \<lparr>rs_Status := status, rs_Reason := reason, rs_VerdictSource := ''step:'' @ pn_id step @ '':'' @ source\<rparr>"

definition pipe_result :: "executionPlanStep \<Rightarrow> step_run \<Rightarrow> StepResult" where
  "pipe_result step run = (stepResultFromResponse (pn_id step) (prog_ID (pn_program step)) ((pr_resp run)\<lparr>rs_Stdout := []\<rparr>))\<lparr>sr_Stdout := []\<rparr>"

definition succeeded :: "step_run \<Rightarrow> bool" where
  "succeeded run \<longleftrightarrow> rs_Status (pr_resp run) = StatusOK \<or> rs_Status (pr_resp run) = RunStatusAccepted"

text \<open>
  The rest of an iteration, after the run: the response that ends the pipeline, or the store, the result with the bytes handed over, and
  the output of the step.
\<close>

definition after_run ::
  "pipe_host \<Rightarrow> executionPlanStep \<Rightarrow> step_run \<Rightarrow> artifact_store \<Rightarrow> RunResponse + artifact_store \<times> StepResult \<times> string" where
  "after_run P step run s =
     (if \<not> succeeded run then Inl (failedStepResponse ((pr_resp run)\<lparr>rs_Stdout := []\<rparr>) (pn_id step))
      else
        (case pr_error run of
           Some e \<Rightarrow> Inl (pipe_failure RunStatusRE step ''artifact'' (''step '' @ pn_id step @ '' artifact capture failed: '' @ e))
         | None \<Rightarrow>
             (case store_outputs P step run s of
                Inl aid \<Rightarrow> Inl (pipe_failure RunStatusRE step ''artifact''
                  (''step '' @ pn_id step @ '' artifact '' @ aid @ '' exceeded or could not be stored''))
              | Inr (s', artifactBytes) \<Rightarrow>
                  Inr (s', (pipe_result step run)\<lparr>sr_HandoffBytes := artifactBytes\<rparr>, pr_stdout run))))"

section \<open>The pipeline\<close>

fun run_plan ::
  "exec_service \<Rightarrow> (nat \<Rightarrow> pipe_host) \<Rightarrow> RuntimeTuningConfig \<Rightarrow> RunRequest \<Rightarrow> nat \<Rightarrow> executionPlanStep list \<Rightarrow> artifact_store \<Rightarrow>
   StepResult list \<Rightarrow> (string \<times> string) list \<Rightarrow> (RunResponse + StepResult list \<times> (string \<times> string) list) option" where
  "run_plan sv H tuning req i [] s results outs = Some (Inr (results, outs))"
| "run_plan sv H tuning req i (step # steps) s results outs =
     (let P = H i in
      case preparePipelineStdin (ph_Files P) (ph_Opens P) step s of
        None \<Rightarrow> Some (Inl (aggregateStepResponse
          (pipe_failure RunStatusInitFail step ''stdin'' (''step '' @ pn_id step @ '' stdin preparation failed'')) results))
      | Some (stdin, stdinMaxBytes) \<Rightarrow>
          (case run_step sv P tuning req step stdin stdinMaxBytes of
             None \<Rightarrow> None
           | Some None \<Rightarrow> Some (Inl (aggregateStepResponse
               (pipe_failure RunStatusInitFail step ''artifact'' ''interactor_output artifact creation failed'') results))
           | Some (Some run) \<Rightarrow>
               (case after_run P step run s of
                  Inl resp \<Rightarrow> Some (Inl (aggregateStepResponse resp (results @ [pipe_result step run])))
                | Inr (s', result, stdout) \<Rightarrow>
                    run_plan sv H tuning req (Suc i) steps s' (results @ [result]) ((pn_id step, stdout) # outs))))"

record pipeline_host =
  pp_env :: env
  pp_check_text :: "pipe_error \<Rightarrow> string"
  pp_Store :: bool
  pp_Step :: "nat \<Rightarrow> pipe_host"
  pp_JudgeDir :: bool
  pp_JudgeWorkspace :: bool
  pp_Judge :: "RunRequest \<Rightarrow> judge_env"

definition judge_request :: "RunRequest \<Rightarrow> executionPlanFinalJudge \<Rightarrow> RunRequest" where
  "judge_request req judge = zero_RunRequest
     \<lparr>rq_Stdin := pj_input judge, rq_ExpectedStdout := pj_expected judge, rq_Limits := pj_stepLimits judge,
      rq_SPJ := fj_SPJ (pj_spec judge), rq_PythonLibraryMode := rq_PythonLibraryMode req, rq_RuntimeProfile := rq_RuntimeProfile req\<rparr>"

definition final_response :: "string \<Rightarrow> string \<Rightarrow> string \<Rightarrow> rat option \<Rightarrow> RunResponse" where
  "final_response status reason source score = zero_RunResponse
     \<lparr>rs_Status := status, rs_Reason := reason, rs_VerdictSource := source, rs_Score := score\<rparr>"

definition runPipelineFinalJudge ::
  "pipeline_host \<Rightarrow> RunRequest \<Rightarrow> executionPlanFinalJudge \<Rightarrow> string \<Rightarrow> RunResponse option" where
  "runPipelineFinalJudge H req judge actual =
     (if folds_to (trim_space (fj_Kind (pj_spec judge))) ''diff'' then
        map_option (\<lambda>same. final_response (if same then RunStatusAccepted else RunStatusWA) [] ''final:diff'' None)
          (compareOutputs (pj_expected judge) actual)
      else Some
        (if \<not> pp_JudgeDir H then final_response RunStatusInitFail ''final judge workspace creation failed'' ''final:spj'' None
         else if \<not> pp_JudgeWorkspace H then final_response RunStatusInitFail ''final judge workspace preparation failed'' ''final:spj'' None
         else
           (let judgeReq = judge_request req judge; J = pp_Judge H judgeReq in
            case runSPJ J judgeReq actual [] of
              Inl e \<Rightarrow> final_response RunStatusRE (spj_error_text J e) ''final:spj'' None
            | Inr (ok, score) \<Rightarrow> final_response (if ok then RunStatusAccepted else RunStatusWA) [] ''final:spj'' score)))"

definition runPipelineV1Private ::
  "exec_service \<Rightarrow> pipeline_host \<Rightarrow> RunRequest \<Rightarrow> RuntimeTuningConfig \<Rightarrow> RunResponse option" where
  "runPipelineV1Private sv H req tuning =
     (case compileExecutionPlan (pp_env H) (pp_check_text H) req of
        Inl e \<Rightarrow> Some (final_response RunStatusInitFail e ''pipeline:resource'' None)
      | Inr plan \<Rightarrow>
          if \<not> pp_Store H
          then Some (final_response RunStatusInitFail ''pipeline artifact store creation failed'' ''pipeline:artifact'' None)
          else
            (case run_plan sv (pp_Step H) tuning req 0 (pa_steps plan) newPipelineArtifactStore [] [] of
               None \<Rightarrow> None
             | Some (Inl resp) \<Rightarrow> Some resp
             | Some (Inr (results, outs)) \<Rightarrow>
                 map_option (\<lambda>final. aggregateStepResponse final results)
                   (runPipelineFinalJudge H req (pa_finalJudge plan) (look outs [] (pj_actualStepID (pa_finalJudge plan))))))"

section \<open>The public response\<close>

definition pipelinePublicReason :: "string \<Rightarrow> string \<Rightarrow> string" where
  "pipelinePublicReason status source =
     (if status = [] \<or> status = StatusOK \<or> status = RunStatusAccepted then []
      else if status = RunStatusWA then ''wrong answer''
      else if status = RunStatusTLE then ''time limit exceeded''
      else if status = RunStatusMLE then ''memory limit exceeded''
      else if status = RunStatusWLE then ''workspace limit exceeded''
      else if status = RunStatusInitFail then ''pipeline initialization failed''
      else if status = RunStatusRE then
        (if contains_text source '':artifact'' \<or> source = ''pipeline:artifact'' then ''pipeline artifact processing failed''
         else if has_prefix source ''final:'' then ''final judge failed''
         else ''runtime error'')
      else ''pipeline execution failed'')"

definition redact_step :: "StepResult \<Rightarrow> StepResult" where
  "redact_step s = s\<lparr>sr_Stdout := [], sr_Stderr := [], sr_Reason := pipelinePublicReason (sr_Status s) (sr_VerdictSource s)\<rparr>"

definition RedactPipelineResponse :: "RunResponse \<Rightarrow> RunResponse" where
  "RedactPipelineResponse resp = resp
     \<lparr>rs_Stdout := [], rs_Stderr := [], rs_SidecarOutputs := [], rs_SidecarErrors := [],
      rs_Reason := pipelinePublicReason (rs_Status resp) (rs_VerdictSource resp), rs_Steps := map redact_step (rs_Steps resp)\<rparr>"

definition runPipelineV1 ::
  "exec_service \<Rightarrow> pipeline_host \<Rightarrow> RunRequest \<Rightarrow> RuntimeTuningConfig \<Rightarrow> RunResponse option" where
  "runPipelineV1 sv H req tuning = map_option RedactPipelineResponse (runPipelineV1Private sv H req tuning)"


section \<open>The store as a map\<close>

text \<open>What the store stands for: the contents of the artifacts by their ids.\<close>

definition artifacts :: "artifact_store \<Rightarrow> string \<rightharpoonup> string" where
  "artifacts s aid = map_option (\<lambda>f. as_files s ! f) (map_of (as_paths s) aid)"

definition file_bytes :: "artifact_store \<Rightarrow> nat \<Rightarrow> int" where
  "file_bytes s f = int (length (as_files s ! f))"

definition store_inv :: "artifact_store \<Rightarrow> bool" where
  "store_inv s \<longleftrightarrow> snd ` set (as_paths s) \<subseteq> set (as_counted s) \<and> distinct (as_counted s) \<and>
     (\<forall>f \<in> set (as_counted s). f < length (as_files s)) \<and>
     as_storedBytes s = sum_list (map (file_bytes s) (as_counted s)) \<and> as_storedBytes s \<le> MaxPipelineArtifactTotalBytes"

lemma new_store: "store_inv newPipelineArtifactStore" "artifacts newPipelineArtifactStore = Map.empty"
  by (simp_all add: store_inv_def artifacts_def newPipelineArtifactStore_def MaxPipelineArtifactTotalBytes_def fun_eq_iff)

text \<open>A further file changes neither the artifacts nor the count.\<close>

lemma bound_files:
  assumes "store_inv s" "map_of (as_paths s) aid = Some f"
  shows "f \<in> set (as_counted s)" "f < length (as_files s)"
proof -
  have "f \<in> snd ` set (as_paths s)" using map_of_SomeD [OF assms(2)] by force
  then show "f \<in> set (as_counted s)" using assms(1) by (auto simp: store_inv_def)
  then show "f < length (as_files s)" using assms(1) by (auto simp: store_inv_def)
qed

lemma add_file_keeps:
  assumes "store_inv s"
  shows "store_inv (add_file data s)" "artifacts (add_file data s) = artifacts s"
proof -
  have f: "(as_files s @ [data]) ! f = as_files s ! f" if "f < length (as_files s)" for f using that by (simp add: nth_append)
  have "map (file_bytes (add_file data s)) (as_counted s) = map (file_bytes s) (as_counted s)"
    using assms by (intro map_cong) (auto simp: file_bytes_def add_file_def f store_inv_def)
  moreover have "as_counted (add_file data s) = as_counted s" "as_paths (add_file data s) = as_paths s"
    "as_storedBytes (add_file data s) = as_storedBytes s" "length (as_files (add_file data s)) = Suc (length (as_files s))"
    by (simp_all add: add_file_def)
  ultimately show "store_inv (add_file data s)" using assms by (auto simp only: store_inv_def less_SucI)
  show "artifacts (add_file data s) = artifacts s"
  proof
    fix aid
    show "artifacts (add_file data s) aid = artifacts s aid"
      using bound_files(2) [OF assms, of aid] by (cases "map_of (as_paths s) aid") (auto simp: artifacts_def add_file_def f)
  qed
qed

lemma put_path_binds:
  assumes "store_inv s" "f < length (as_files s)" "put_path aid (Some f) maxBytes s = Some (n, s')"
  shows "store_inv s'" "artifacts s' = (artifacts s)(aid \<mapsto> as_files s ! f)" "int (length (as_files s ! f)) \<le> maxBytes"
    "as_files s' = as_files s"
proof -
  have s': "as_files s' = as_files s" "as_paths s' = (aid, f) # as_paths s" "int (length (as_files s ! f)) \<le> maxBytes"
    "f \<in> set (as_counted s) \<and> as_counted s' = as_counted s \<and> as_storedBytes s' = as_storedBytes s \<or>
     f \<notin> set (as_counted s) \<and> as_counted s' = f # as_counted s \<and> as_storedBytes s' = as_storedBytes s + file_bytes s f \<and>
     as_storedBytes s' \<le> MaxPipelineArtifactTotalBytes"
    using assms(3) by (auto simp: put_path_def Let_def file_bytes_def split: if_splits)
  have "file_bytes s' = file_bytes s" using s'(1) by (simp add: file_bytes_def fun_eq_iff)
  then show "store_inv s'" using assms(1,2) s' by (auto simp: store_inv_def)
  show "artifacts s' = (artifacts s)(aid \<mapsto> as_files s ! f)" using s'(1,2) by (auto simp: artifacts_def)
  show "int (length (as_files s ! f)) \<le> maxBytes" "as_files s' = as_files s" by (fact s')+
qed

text \<open>Putting data is writing a file and putting its path.\<close>

lemma put_artifact_as_path:
  assumes "store_inv s" "put_artifact w aid data maxBytes s = Some s'"
  shows "put_path aid (Some (length (as_files s))) maxBytes (add_file data s) = Some (int (length data), s')"
proof -
  have "length (as_files s) \<notin> set (as_counted s)" using assms(1) by (auto simp: store_inv_def)
  then show ?thesis using assms(2) by (auto simp: put_artifact_def put_path_def add_file_def Let_def split: if_splits)
qed

lemma put_artifact_binds:
  assumes "store_inv s" "put_artifact w aid data maxBytes s = Some s'"
  shows "store_inv s'" "artifacts s' = (artifacts s)(aid \<mapsto> data)" "int (length data) \<le> maxBytes" "length (as_files s) < length (as_files s')"
    "\<And>f. f < length (as_files s) \<Longrightarrow> as_files s' ! f = as_files s ! f"
proof -
  have "length (as_files s) < length (as_files (add_file data s))" by (simp add: add_file_def)
  note p = put_path_binds [OF add_file_keeps(1) [OF assms(1)] this put_artifact_as_path [OF assms]]
  show "store_inv s'" "artifacts s' = (artifacts s)(aid \<mapsto> data)" "int (length data) \<le> maxBytes" "length (as_files s) < length (as_files s')"
    "\<And>f. f < length (as_files s) \<Longrightarrow> as_files s' ! f = as_files s ! f"
    using p add_file_keeps(2) [OF assms(1)] by (simp_all add: add_file_def nth_append)
qed

section \<open>The data of a step\<close>

definition output_content :: "step_run \<Rightarrow> PipelineOutput \<Rightarrow> string" where
  "output_content run output =
     (let kind = source_kind output in
      if kind = ''interactor_output'' then (case pr_interactorOutput run of None \<Rightarrow> [] | Some content \<Rightarrow> content)
      else if kind = ''participant_stdout'' then pr_stdout run
      else if kind = ''participant_file'' then pr_file run else [])"

definition bind_outputs :: "step_run \<Rightarrow> PipelineOutput list \<Rightarrow> (string \<rightharpoonup> string) \<Rightarrow> (string \<rightharpoonup> string)" where
  "bind_outputs run outputs m = fold (\<lambda>output m. m(po_ID output \<mapsto> output_content run output)) outputs m"

lemma store_loop:
  assumes "loop_err (store_output P run file) i outputs (s, n) = Inr (s', n')" "store_inv s"
    and "\<And>f. file = Some f \<Longrightarrow> f < length (as_files s) \<and> pr_interactorOutput run = Some (as_files s ! f)"
  shows "store_inv s' \<and> artifacts s' = bind_outputs run outputs (artifacts s) \<and>
    (\<forall>output \<in> set outputs. int (length (output_content run output)) \<le> po_MaxBytes output)"
  using assms
proof (induction outputs arbitrary: i s n)
  case Nil
  then show ?case by (simp add: bind_outputs_def)
next
  case (Cons x outputs)
  obtain s1 n1 where o: "store_output P run file i x (s, n) = Inr (s1, n1)"
    and rest: "loop_err (store_output P run file) (Suc i) outputs (s1, n1) = Inr (s', n')"
    using Cons.prems(1) by (auto split: sum.splits)
  have s1: "store_inv s1 \<and> artifacts s1 = (artifacts s)(po_ID x \<mapsto> output_content run x) \<and>
      int (length (output_content run x)) \<le> po_MaxBytes x \<and>
      (\<forall>f. file = Some f \<longrightarrow> f < length (as_files s1) \<and> as_files s1 ! f = as_files s ! f)"
  proof (cases "source_kind x = ''interactor_output''")
    case True
    then obtain f k where f: "file = Some f" "put_path (po_ID x) (Some f) (po_MaxBytes x) s = Some (k, s1)"
      using o by (cases "file") (auto simp: store_output_def put_path_def Let_def split: option.splits if_splits)
    then show ?thesis
      using put_path_binds [OF Cons.prems(2) _ f(2)] Cons.prems(3) [OF f(1)] True by (simp add: output_content_def)
  next
    case False
    then have p: "put_artifact (ph_Writes P (po_ID x)) (po_ID x) (output_content run x) (po_MaxBytes x) s = Some s1"
      using o by (auto simp: store_output_def output_content_def Let_def split: option.splits)
    show ?thesis
      using put_artifact_binds [OF Cons.prems(2) p] Cons.prems(3) by auto
  qed
  then have "store_inv s' \<and> artifacts s' = bind_outputs run outputs (artifacts s1) \<and>
      (\<forall>output \<in> set outputs. int (length (output_content run output)) \<le> po_MaxBytes output)"
    using Cons.prems(3) by (intro Cons.IH [OF rest]) auto
  then show ?case using s1 by (simp add: bind_outputs_def)
qed

lemma store_outputs_binds:
  assumes "store_outputs P step run s = Inr (s', n)" "store_inv s"
  shows "store_inv s'" "artifacts s' = bind_outputs run (pn_outputs step) (artifacts s)"
    "\<forall>output \<in> set (pn_outputs step). int (length (output_content run output)) \<le> po_MaxBytes output"
proof -
  have "store_inv s' \<and> artifacts s' = bind_outputs run (pn_outputs step) (artifacts s) \<and>
    (\<forall>output \<in> set (pn_outputs step). int (length (output_content run output)) \<le> po_MaxBytes output)"
  proof (cases "pr_interactorOutput run")
    case None
    then show ?thesis using assms by (intro store_loop [of P run None 0 "pn_outputs step" s 0 s' n]) (auto simp: store_outputs_def)
  next
    case (Some content)
    let ?s = "add_file content s"
    have "store_inv s' \<and> artifacts s' = bind_outputs run (pn_outputs step) (artifacts ?s) \<and>
      (\<forall>output \<in> set (pn_outputs step). int (length (output_content run output)) \<le> po_MaxBytes output)"
      using assms Some
      by (intro store_loop [of P run "Some (length (as_files s))" 0 "pn_outputs step" ?s 0 s' n])
         (auto simp: store_outputs_def add_file_keeps, simp_all add: add_file_def)
    then show ?thesis by (simp add: add_file_keeps [OF assms(2)])
  qed
  then show "store_inv s'" "artifacts s' = bind_outputs run (pn_outputs step) (artifacts s)"
    "\<forall>output \<in> set (pn_outputs step). int (length (output_content run output)) \<le> po_MaxBytes output" by blast+
qed

text \<open>The input of a step is the resources and artifacts it names, one after the other.\<close>

definition named_content :: "(string \<rightharpoonup> string) \<Rightarrow> executionPlanInput \<Rightarrow> string option" where
  "named_content m ref = (if in_artifactID ref = [] then Some (in_resource ref) else m (in_artifactID ref))"

lemma copy_inputs_Some:
  assumes "copy_inputs maxBytes cs written = Some w" "int (length written) \<le> maxBytes"
  shows "None \<notin> set cs \<and> w = written @ concat (map the cs) \<and> int (length w) \<le> maxBytes"
  using assms
proof (induction maxBytes cs written rule: copy_inputs.induct)
  case (3 maxBytes content refs written)
  have "int (length (written @ take (nat (max 0 (maxBytes - int (length written)) + 1)) content)) \<le> maxBytes"
    using 3(2) by (simp add: Let_def del: length_append length_take split: if_splits)
  then have c: "length content \<le> nat (max 0 (maxBytes - int (length written)) + 1)" using 3(3) by (simp add: min_def split: if_splits)
  have "copy_inputs maxBytes refs (written @ content) = Some w" "int (length (written @ content)) \<le> maxBytes"
    using 3(2) c by (simp_all add: Let_def split: if_splits)
  with 3(1) [OF refl refl] c show ?case using 3(2) by (auto simp: Let_def split: if_splits)
qed simp_all

lemma prepared_stdin:
  assumes "preparePipelineStdin files opens step s = Some (stdin, maxBytes)"
  shows "maxBytes = stdinURLMaxBytes (pn_limits step)" "\<forall>ref \<in> set (pn_stdin step). named_content (artifacts s) ref \<noteq> None"
    "stdin = concat (map (the \<circ> named_content (artifacts s)) (pn_stdin step))" "int (length stdin) \<le> maxBytes"
proof -
  let ?max = "stdinURLMaxBytes (pn_limits step)"
  have m: "maxBytes = ?max" and c: "copy_inputs ?max (map (input_content opens s) (pn_stdin step)) [] = Some stdin"
    using assms by (auto simp: preparePipelineStdin_def Let_def split: if_splits)
  have "int (length []) \<le> ?max" by (simp add: stdinURLMaxBytes_def Let_def MaxWorkspaceBytes_def defaultWorkspaceBytes_def)
  note w = copy_inputs_Some [OF c this]
  have n: "named_content (artifacts s) ref = input_content opens s ref" if "ref \<in> set (pn_stdin step)" for ref
  proof -
    have "input_content opens s ref \<noteq> None" using w that by force
    then show ?thesis
      by (auto simp: named_content_def input_content_def open_artifact_def artifacts_def split: option.splits if_splits)
  qed
  show "maxBytes = ?max" by (rule m)
  show "\<forall>ref \<in> set (pn_stdin step). named_content (artifacts s) ref \<noteq> None" using w n by force
  show "stdin = concat (map (the \<circ> named_content (artifacts s)) (pn_stdin step))" using w n by (simp cong: map_cong)
  show "int (length stdin) \<le> maxBytes" unfolding m using w by (elim conjE)
qed

section \<open>What a finished plan did\<close>

text \<open>
  The runs of a plan over a map of artifacts: each step gets the content it names, ends well, and its outputs, each within its
  bound, are added to the map.
\<close>

fun plan_runs ::
  "exec_service \<Rightarrow> (nat \<Rightarrow> pipe_host) \<Rightarrow> RuntimeTuningConfig \<Rightarrow> RunRequest \<Rightarrow> nat \<Rightarrow> (string \<rightharpoonup> string) \<Rightarrow> executionPlanStep list \<Rightarrow>
   step_run list \<Rightarrow> bool" where
  "plan_runs sv H tuning req i m [] runs \<longleftrightarrow> runs = []"
| "plan_runs sv H tuning req i m (step # steps) [] \<longleftrightarrow> False"
| "plan_runs sv H tuning req i m (step # steps) (run # runs) \<longleftrightarrow>
     (\<forall>ref \<in> set (pn_stdin step). named_content m ref \<noteq> None) \<and>
     (let stdin = concat (map (the \<circ> named_content m) (pn_stdin step)); maxBytes = stdinURLMaxBytes (pn_limits step) in
      int (length stdin) \<le> maxBytes \<and> run_step sv (H i) tuning req step stdin maxBytes = Some (Some run)) \<and>
     succeeded run \<and> pr_error run = None \<and>
     (\<forall>x \<in> set (pn_outputs step). int (length (output_content run x)) \<le> po_MaxBytes x) \<and>
     plan_runs sv H tuning req (Suc i) (bind_outputs run (pn_outputs step) m) steps runs"

lemma plan_runs_length: "plan_runs sv H tuning req i m steps runs \<Longrightarrow> length runs = length steps"
  by (induction sv H tuning req i m steps runs rule: plan_runs.induct) (auto simp: Let_def)

lemma after_run_Inr:
  assumes "after_run P step run s = Inr (s', result, stdout)" "store_inv s"
  shows "succeeded run" "pr_error run = None" "stdout = pr_stdout run" "store_inv s'"
    "artifacts s' = bind_outputs run (pn_outputs step) (artifacts s)"
    "\<forall>x \<in> set (pn_outputs step). int (length (output_content run x)) \<le> po_MaxBytes x"
proof -
  obtain n where o: "store_outputs P step run s = Inr (s', n)" and "succeeded run" "pr_error run = None" "stdout = pr_stdout run"
    using assms(1) by (auto simp: after_run_def split: if_splits option.splits sum.splits)
  then show "succeeded run" "pr_error run = None" "stdout = pr_stdout run" by blast+
  show "store_inv s'" "artifacts s' = bind_outputs run (pn_outputs step) (artifacts s)"
    "\<forall>x \<in> set (pn_outputs step). int (length (output_content run x)) \<le> po_MaxBytes x"
    by (rule store_outputs_binds [OF o assms(2)])+
qed

text \<open>A step that ends the pipeline does not accept it.\<close>

lemma after_run_Inl: "after_run P step run s = Inl resp \<Longrightarrow> rs_Status resp \<noteq> RunStatusAccepted"
  by (auto simp: after_run_def succeeded_def failedStepResponse_def pipe_failure_def zero_RunResponse_def
      split: if_splits option.splits sum.splits)

lemma run_step_returns: "\<exists>r. run_step sv P tuning req step stdin n = Some r"
proof -
  have "\<exists>r. run_batch sv P tuning req step stdin n = Some r"
    using runOne_returns [of sv "ph_Run P" "batch_request req step" "Some (Some stdin)" n False tuning False
        "0 < length (rq_FileOutputs (batch_request req step))"]
    by (auto simp: run_batch_def Let_def)
  then show ?thesis by (auto simp: run_step_def)
qed

lemma run_plan_result:
  assumes "store_inv s"
  shows "\<exists>r. run_plan sv H tuning req i steps s results outs = Some r \<and>
    (case r of
       Inl resp \<Rightarrow> rs_Status resp \<noteq> RunStatusAccepted
     | Inr (results', outs') \<Rightarrow> \<exists>runs. plan_runs sv H tuning req i (artifacts s) steps runs \<and>
         outs' = rev (zip (map pn_id steps) (map pr_stdout runs)) @ outs \<and> length results' = length results + length steps)"
  using assms
proof (induction steps arbitrary: i s results outs)
  case (Cons step steps)
  show ?case
  proof (cases "preparePipelineStdin (ph_Files (H i)) (ph_Opens (H i)) step s")
    case None
    then show ?thesis by (simp add: Let_def pipe_failure_def zero_RunResponse_def)
  next
    case (Some p)
    then obtain stdin maxBytes where p: "preparePipelineStdin (ph_Files (H i)) (ph_Opens (H i)) step s = Some (stdin, maxBytes)"
      by (cases p) simp
    note stdin = prepared_stdin [OF p]
    obtain r where r: "run_step sv (H i) tuning req step stdin maxBytes = Some r" using run_step_returns by blast
    show ?thesis
    proof (cases r)
      case None
      then show ?thesis using p r by (simp add: Let_def pipe_failure_def zero_RunResponse_def)
    next
      case run: (Some run)
      show ?thesis
      proof (cases "after_run (H i) step run s")
        case (Inl resp)
        then show ?thesis using p r run after_run_Inl [OF Inl] by (simp add: Let_def)
      next
        case (Inr t)
        then obtain s' result stdout where t: "after_run (H i) step run s = Inr (s', result, stdout)" by (cases t) simp
        note a = after_run_Inr [OF t Cons.prems]
        have e: "run_plan sv H tuning req i (step # steps) s results outs =
            run_plan sv H tuning req (Suc i) steps s' (results @ [result]) ((pn_id step, pr_stdout run) # outs)"
          using p r run t a(3) by (simp add: Let_def)
        have k: "plan_runs sv H tuning req i (artifacts s) (step # steps) (run # runs)"
          if "plan_runs sv H tuning req (Suc i) (artifacts s') steps runs" for runs
          using that a stdin r run by (simp add: Let_def)
        show ?thesis unfolding e
          using Cons.IH [OF a(4), of "Suc i" "results @ [result]" "(pn_id step, pr_stdout run) # outs"]
          by (force simp del: plan_runs.simps split: sum.splits dest: k)
      qed
    qed
  qed
qed simp

text \<open>The final judge always answers, and in the case of a comparison the answer is exact.\<close>

lemma final_judge_returns:
  "\<exists>final. runPipelineFinalJudge H req judge actual = Some final \<and>
    (folds_to (trim_space (fj_Kind (pj_spec judge))) ''diff'' \<longrightarrow>
       (rs_Status final = RunStatusAccepted \<longleftrightarrow> text_lines (pj_expected judge) = text_lines actual))"
  by (auto simp: runPipelineFinalJudge_def compareOutputs_value final_response_def zero_RunResponse_def Let_def)

lemma compiled_plan:
  assumes "compileExecutionPlan E textof req = Inr plan"
  shows "\<exists>pl resources. rq_Pipeline req = Some pl \<and> ValidatePipelineV1 E req = None \<and>
    materializePipelineResources pl = Inr resources \<and> pa_steps plan \<noteq> [] \<and>
    pa_steps plan = map (planned_step resources (rev (map (\<lambda>p. (prog_ID p, p)) (pl_Programs pl)))) (pl_Steps pl) \<and>
    pj_actualStepID (pa_finalJudge plan) = pn_id (last (pa_steps plan))"
proof -
  have v: "ValidatePipelineV1 E req = None" using assms by (auto simp: compileExecutionPlan_def checked_def split: option.splits)
  then obtain pl where pl: "rq_Pipeline req = Some pl" "pipeline_ok E pl" using ValidatePipelineV1_accepts by blast
  let ?f = "\<lambda>resources. planned_step resources (rev (map (\<lambda>p. (prog_ID p, p)) (pl_Programs pl)))"
  obtain resources where r: "materializePipelineResources pl = Inr resources"
    "plan = \<lparr>pa_steps = map (?f resources) (pl_Steps pl),
        pa_finalJudge = \<lparr>pj_spec = pl_FinalJudge pl, pj_input = look resources [] (trim_space (ref_ID (fj_Input (pl_FinalJudge pl)))),
          pj_expected = look resources [] (trim_space (ref_ID (fj_Expected (pl_FinalJudge pl)))),
          pj_actualStepID = trim_space (ref_StepID (fj_Actual (pl_FinalJudge pl))),
          pj_stepLimits = pn_limits (last (map (?f resources) (pl_Steps pl)))\<rparr>\<rparr>"
    using assms v pl(1) by (auto simp: compileExecutionPlan_def checked_def and_then_Inr_iff Let_def)
  have j: "pl_Steps pl \<noteq> []" "ref_StepID (fj_Actual (pl_FinalJudge pl)) = ps_ID (last (pl_Steps pl))"
    using pl(2) by (auto simp: pipeline_ok_def judge_ok_def)
  have "flow_ok (fst ` set (pl_Resources pl)) (map_of (rev (map (\<lambda>p. (prog_ID p, p)) (pl_Programs pl)))) (pl_Steps pl)"
    using pl(2) by (simp add: pipeline_ok_def)
  then have "pipe_step_ok (fst ` set (pl_Resources pl)) (map_of (rev (map (\<lambda>p. (prog_ID p, p)) (pl_Programs pl))))
      (take (length (pl_Steps pl) - 1) (pl_Steps pl)) (pl_Steps pl ! (length (pl_Steps pl) - 1))"
    using j(1) by (simp add: flow_ok_def)
  then have "trim_space (ps_ID (last (pl_Steps pl))) = ps_ID (last (pl_Steps pl))"
    using j(1) by (simp add: pipe_step_ok_def last_conv_nth)
  then have "pj_actualStepID (pa_finalJudge plan) = pn_id (last (pa_steps plan))"
    using r(2) j by (simp add: last_map planned_step_def Let_def)
  then show ?thesis using pl(1) v r j(1) by (intro exI conjI) simp_all
qed

definition public_reasons :: "string list" where
  "public_reasons = [[], ''wrong answer'', ''time limit exceeded'', ''memory limit exceeded'', ''workspace limit exceeded'',
     ''pipeline initialization failed'', ''pipeline artifact processing failed'', ''final judge failed'', ''runtime error'',
     ''pipeline execution failed'']"

lemma public_reason: "pipelinePublicReason status source \<in> set public_reasons"
  by (simp add: pipelinePublicReason_def public_reasons_def)

lemma pipeline_returns: "\<exists>resp. runPipelineV1Private sv H req tuning = Some resp"
proof (cases "compileExecutionPlan (pp_env H) (pp_check_text H) req")
  case (Inr plan)
  obtain r where "run_plan sv (pp_Step H) tuning req 0 (pa_steps plan) newPipelineArtifactStore [] [] = Some r"
    using run_plan_result [OF new_store(1), of sv "pp_Step H" tuning req 0 "pa_steps plan" "[]" "[]"] by blast
  then show ?thesis
    using Inr final_judge_returns [of H req "pa_finalJudge plan"]
    by (cases r; cases "pp_Store H") (auto simp: runPipelineV1Private_def, blast)
qed (simp add: runPipelineV1Private_def)

lemma redact_fields [simp]:
  "rs_Stdout (RedactPipelineResponse r) = []" "rs_Stderr (RedactPipelineResponse r) = []"
  "rs_SidecarOutputs (RedactPipelineResponse r) = []" "rs_SidecarErrors (RedactPipelineResponse r) = []"
  "rs_Reason (RedactPipelineResponse r) = pipelinePublicReason (rs_Status r) (rs_VerdictSource r)"
  "rs_Steps (RedactPipelineResponse r) = map redact_step (rs_Steps r)"
  by (simp_all add: RedactPipelineResponse_def)

lemma redact_step_fields [simp]:
  "sr_Stdout (redact_step s) = []" "sr_Stderr (redact_step s) = []"
  "sr_Reason (redact_step s) = pipelinePublicReason (sr_Status s) (sr_VerdictSource s)"
  by (simp_all add: redact_step_def)

lemma redact_step_hides:
  "redact_step (s\<lparr>sr_Stdout := a, sr_Stderr := b, sr_Reason := c\<rparr>) = redact_step s" "redact_step (redact_step s) = redact_step s"
  by (simp_all add: redact_step_def)

lemma redact_hides:
  "RedactPipelineResponse (RedactPipelineResponse r) = RedactPipelineResponse r"
  "RedactPipelineResponse
     (r\<lparr>rs_Stdout := a, rs_Stderr := b, rs_SidecarOutputs := c, rs_SidecarErrors := d, rs_Reason := e,
        rs_Steps := map (\<lambda>s. s\<lparr>sr_Stdout := f s, sr_Stderr := g s, sr_Reason := h s\<rparr>) (rs_Steps r)\<rparr>) = RedactPipelineResponse r"
  by (cases r, simp add: RedactPipelineResponse_def comp_def redact_step_hides)+

lemma redact_shows:
  "RedactPipelineResponse (RedactPipelineResponse r) = RedactPipelineResponse r \<and>
   rs_Stdout (RedactPipelineResponse r) = [] \<and> rs_Stderr (RedactPipelineResponse r) = [] \<and>
   rs_SidecarOutputs (RedactPipelineResponse r) = [] \<and> rs_SidecarErrors (RedactPipelineResponse r) = [] \<and>
   rs_Reason (RedactPipelineResponse r) \<in> set public_reasons \<and>
   list_all (\<lambda>s. sr_Stdout s = [] \<and> sr_Stderr s = [] \<and> sr_Reason s \<in> set public_reasons) (rs_Steps (RedactPipelineResponse r))"
  using public_reason by (simp add: redact_hides(1) list_all_iff)

section \<open>Properties\<close>

text \<open>
  C35. What an accepted pipeline did. Running a pipeline always gives a response. An accepted one means that the request is valid,
  that every step of its plan ran and ended well, its input being exactly the contents of the resources and artifacts it names, within the
  bound on its input, where the artifacts are those the steps before it wrote, each within its own bound; and that the final
  judge accepts the output of the last step (when it compares, exactly if it has the expected lines).
\<close>

theorem pipeline_accepted:
  "\<exists>resp. runPipelineV1 sv H req tuning = Some resp \<and>
    (rs_Status resp = RunStatusAccepted \<longrightarrow>
      (\<exists>plan runs final.
         compileExecutionPlan (pp_env H) (pp_check_text H) req = Inr plan \<and> ValidatePipelineV1 (pp_env H) req = None \<and>
         runs \<noteq> [] \<and> plan_runs sv (pp_Step H) tuning req 0 Map.empty (pa_steps plan) runs \<and>
         runPipelineFinalJudge H req (pa_finalJudge plan) (pr_stdout (last runs)) = Some final \<and>
         rs_Status final = RunStatusAccepted \<and> rs_Score resp = rs_Score final \<and>
         length (rs_Steps resp) = length (pa_steps plan) \<and>
         (folds_to (trim_space (fj_Kind (pj_spec (pa_finalJudge plan)))) ''diff'' \<longrightarrow>
            text_lines (pj_expected (pa_finalJudge plan)) = text_lines (pr_stdout (last runs)))))"
proof (cases "compileExecutionPlan (pp_env H) (pp_check_text H) req")
  case (Inl e)
  then show ?thesis
    by (simp add: runPipelineV1_def runPipelineV1Private_def RedactPipelineResponse_def final_response_def)
next
  case (Inr plan)
  have pl: "pa_steps plan \<noteq> []" "pj_actualStepID (pa_finalJudge plan) = pn_id (last (pa_steps plan))"
    "ValidatePipelineV1 (pp_env H) req = None"
    using compiled_plan [OF Inr] by blast+
  obtain r where r: "run_plan sv (pp_Step H) tuning req 0 (pa_steps plan) newPipelineArtifactStore [] [] = Some r"
    "case r of Inl resp \<Rightarrow> rs_Status resp \<noteq> RunStatusAccepted
     | Inr (results', outs') \<Rightarrow> \<exists>runs. plan_runs sv (pp_Step H) tuning req 0 Map.empty (pa_steps plan) runs \<and>
         outs' = rev (zip (map pn_id (pa_steps plan)) (map pr_stdout runs)) @ [] \<and> length results' = length ([] :: StepResult list) + length (pa_steps plan)"
    using run_plan_result [OF new_store(1), where sv = sv and H = "pp_Step H" and tuning = tuning and req = req and i = 0
        and steps = "pa_steps plan" and results = "[]" and outs = "[]"] unfolding new_store(2) by blast
  consider (store) "\<not> pp_Store H" | (ended) resp where "pp_Store H" "r = Inl resp" | (finished) results outs where "pp_Store H" "r = Inr (results, outs)"
    by (cases r) auto
  then show ?thesis
  proof cases
    case store
    then show ?thesis using Inr
      by (simp add: runPipelineV1_def runPipelineV1Private_def RedactPipelineResponse_def final_response_def)
  next
    case (ended resp)
    then show ?thesis using Inr r
      by (simp add: runPipelineV1_def runPipelineV1Private_def RedactPipelineResponse_def)
  next
    case (finished results outs)
    then obtain runs where runs: "plan_runs sv (pp_Step H) tuning req 0 Map.empty (pa_steps plan) runs"
      "outs = rev (zip (map pn_id (pa_steps plan)) (map pr_stdout runs))" "length results = length (pa_steps plan)"
      using r(2) by auto
    have len: "length runs = length (pa_steps plan)" by (rule plan_runs_length [OF runs(1)])
    then have ne: "runs \<noteq> []" using pl(1) by auto
    have "look outs [] (pn_id (last (pa_steps plan))) = pr_stdout (last runs)"
    proof -
      obtain xs x where x: "pa_steps plan = xs @ [x]" using pl(1) by (metis append_butlast_last_id)
      obtain ys y where y: "runs = ys @ [y]" using ne by (metis append_butlast_last_id)
      have "length xs = length ys" using len x y by simp
      then show ?thesis by (simp add: runs(2) x y look_def)
    qed
    then obtain final where f: "runPipelineFinalJudge H req (pa_finalJudge plan) (pr_stdout (last runs)) = Some final"
      "folds_to (trim_space (fj_Kind (pj_spec (pa_finalJudge plan)))) ''diff'' \<Longrightarrow>
       (rs_Status final = RunStatusAccepted \<longleftrightarrow> text_lines (pj_expected (pa_finalJudge plan)) = text_lines (pr_stdout (last runs)))"
      "look outs [] (pj_actualStepID (pa_finalJudge plan)) = pr_stdout (last runs)"
      using final_judge_returns [of H req "pa_finalJudge plan" "pr_stdout (last runs)"] pl(2) by auto
    let ?resp = "RedactPipelineResponse (aggregateStepResponse final results)"
    have p: "runPipelineV1 sv H req tuning = Some ?resp"
      using Inr r(1) finished f(1,3) by (simp add: runPipelineV1_def runPipelineV1Private_def)
    have q: "rs_Status ?resp = rs_Status final" "rs_Score ?resp = rs_Score final" "length (rs_Steps ?resp) = length (pa_steps plan)"
      using runs(3) by (simp_all add: RedactPipelineResponse_def)
    show ?thesis
    proof (intro exI [of _ ?resp] conjI impI p)
      assume "rs_Status ?resp = RunStatusAccepted"
      then have "rs_Status final = RunStatusAccepted" by (simp only: q)
      then show "\<exists>plan runs final.
         compileExecutionPlan (pp_env H) (pp_check_text H) req = Inr plan \<and> ValidatePipelineV1 (pp_env H) req = None \<and>
         runs \<noteq> [] \<and> plan_runs sv (pp_Step H) tuning req 0 Map.empty (pa_steps plan) runs \<and>
         runPipelineFinalJudge H req (pa_finalJudge plan) (pr_stdout (last runs)) = Some final \<and>
         rs_Status final = RunStatusAccepted \<and> rs_Score ?resp = rs_Score final \<and>
         length (rs_Steps ?resp) = length (pa_steps plan) \<and>
         (folds_to (trim_space (fj_Kind (pj_spec (pa_finalJudge plan)))) ''diff'' \<longrightarrow>
            text_lines (pj_expected (pa_finalJudge plan)) = text_lines (pr_stdout (last runs)))"
        using f(2) by (intro exI [of _ plan] exI [of _ runs] exI [of _ final] conjI impI Inr pl(3) ne runs(1) f(1) q(2,3)) simp_all
    qed
  qed
qed

text \<open>
  C36. What a pipeline shows. Every response of a pipeline is free of the outputs and the private reasons: no output, no
  sidecar file, and each reason one of the public ones, for the response and for each step. Two responses that differ
  only in outputs, sidecar files and reasons become the same.
\<close>

theorem pipeline_redacted:
  "(\<exists>resp. runPipelineV1 sv H req tuning = Some resp \<and> RedactPipelineResponse resp = resp \<and>
      rs_Stdout resp = [] \<and> rs_Stderr resp = [] \<and> rs_SidecarOutputs resp = [] \<and> rs_SidecarErrors resp = [] \<and>
      rs_Reason resp \<in> set public_reasons \<and>
      list_all (\<lambda>s. sr_Stdout s = [] \<and> sr_Stderr s = [] \<and> sr_Reason s \<in> set public_reasons) (rs_Steps resp)) \<and>
   RedactPipelineResponse
     (r\<lparr>rs_Stdout := a, rs_Stderr := b, rs_SidecarOutputs := c, rs_SidecarErrors := d, rs_Reason := e,
        rs_Steps := map (\<lambda>s. s\<lparr>sr_Stdout := f s, sr_Stderr := g s, sr_Reason := h s\<rparr>) (rs_Steps r)\<rparr>) = RedactPipelineResponse r"
proof
  obtain x where x: "runPipelineV1 sv H req tuning = Some (RedactPipelineResponse x)"
    using pipeline_returns [of sv H req tuning] by (auto simp: runPipelineV1_def)
  show "\<exists>resp. runPipelineV1 sv H req tuning = Some resp \<and> RedactPipelineResponse resp = resp \<and>
      rs_Stdout resp = [] \<and> rs_Stderr resp = [] \<and> rs_SidecarOutputs resp = [] \<and> rs_SidecarErrors resp = [] \<and>
      rs_Reason resp \<in> set public_reasons \<and>
      list_all (\<lambda>s. sr_Stdout s = [] \<and> sr_Stderr s = [] \<and> sr_Reason s \<in> set public_reasons) (rs_Steps resp)"
    by (rule exI [of _ "RedactPipelineResponse x"], rule conjI [OF x redact_shows])
qed (rule redact_hides(2))

end
