(* ===== verification/Service_Run.thy ===== *)
theory Service_Run
  imports Pipeline_Run Run_Validate
begin

text \<open>
  \<open>Service.Run\<close> of internal/execute/service.go: what the runner checks again before it executes a request, which
  executor it hands it to, and what it adds to the response. The runs of communication requests are a parameter.
\<close>

section \<open>The checks\<close>

datatype run_error =
    RunInvalid validate_error
  | RunCheck check_error
  | RunLibraryMode policy_error
  | RunLibraryUnused
  | RunPipelineError pipe_error
  | RunProfileName policy_error
  | RunProfileUnknown string

definition select_tuning :: "exec_service \<Rightarrow> string \<Rightarrow> run_error + RuntimeTuningConfig" where
  "select_tuning sv name =
     (if name = [] then Inr (WithSafeDefaults (sv_RuntimeTuning sv))
      else checked (map_option RunProfileName (ValidateProfileName name))
        (case sv_RuntimeTuningProfiles sv name of
           None \<Rightarrow> Inl (RunProfileUnknown name)
         | Some tuning \<Rightarrow> Inr (WithSafeDefaults tuning)))"

definition run_checks :: "exec_service \<Rightarrow> env \<Rightarrow> RunRequest \<Rightarrow> run_error + RuntimeTuningConfig" where
  "run_checks sv E req =
     checked (first_error
       [map_option RunInvalid (ValidateTextEncoding req),
        map_option RunCheck (ValidateSidecarOutputs (rq_SidecarOutputs req)),
        map_option RunInvalid (ValidateEntry E req),
        map_option RunCheck (err_of (ValidateBinaryBudget req)),
        map_option RunLibraryMode (ValidateOptionalLibraryMode (rq_PythonLibraryMode req)),
        reject_if (rq_PythonLibraryMode req \<noteq> [] \<and> \<not> UsesPython req) RunLibraryUnused,
        (if rq_Pipeline req \<noteq> None then map_option RunPipelineError (ValidatePipelineV1 E req) else None),
        (if rq_SPJ req \<noteq> None then map_option RunCheck (ValidateSPJ E (rq_SPJ req)) else None)])
     (select_tuning sv (rq_RuntimeProfile req))"

section \<open>The executors\<close>

text \<open>
  The hosts of the executors: the single runs are numbered, since a short one is repeated, and tell whether they delivered an image.
\<close>

record service_host =
  vh_env :: env
  vh_error_text :: "run_error \<Rightarrow> string"
  vh_Communication :: "RunRequest \<Rightarrow> bool \<Rightarrow> RuntimeTuningConfig \<Rightarrow> RunResponse"
  vh_Pipeline :: pipeline_host
  vh_Interactive :: interactive_host
  vh_Steps :: steps_host
  vh_Run :: "nat \<Rightarrow> run_host"
  vh_Image :: "nat \<Rightarrow> bool"
  vh_Batch :: batch_host

definition run_error_text :: "service_host \<Rightarrow> run_error \<Rightarrow> string" where
  "run_error_text H e =
     (case e of
        RunLibraryMode p \<Rightarrow> ''invalid python_library_mode: '' @ vh_error_text H e
      | RunLibraryUnused \<Rightarrow> ''python_library_mode requires a Python or PyPy execution target''
      | RunProfileName p \<Rightarrow> ''invalid runtime_profile: '' @ vh_error_text H e
      | RunProfileUnknown name \<Rightarrow> ''unknown runtime_profile: '' @ name
      | _ \<Rightarrow> vh_error_text H e)"

definition runOne ::
  "exec_service \<Rightarrow> run_host \<Rightarrow> RunRequest \<Rightarrow> bool \<Rightarrow> RuntimeTuningConfig \<Rightarrow> bool \<Rightarrow> sandboxRunResult option" where
  "runOne sv H req onLog tuning evaluateOutput = runOneWithStdin sv H req None 0 onLog tuning evaluateOutput False"

text \<open>The runs of a batch are those of \<open>runOneWithStdin\<close>, which always returns.\<close>

definition batch_of :: "exec_service \<Rightarrow> service_host \<Rightarrow> RuntimeTuningConfig \<Rightarrow> batch_host" where
  "batch_of sv H tuning = (vh_Batch H)
     \<lparr>bh_Run := (\<lambda>n req stdin maxBytes onLog.
        (rr_response (the (runOneWithStdin sv (vh_Run H n) req stdin maxBytes onLog tuning True False)), vh_Image H n))\<rparr>"

definition run_kind :: "exec_service \<Rightarrow> service_host \<Rightarrow> RunRequest \<Rightarrow> bool \<Rightarrow> RuntimeTuningConfig \<Rightarrow> RunResponse option" where
  "run_kind sv H req onLog tuning =
     (if rq_Communication req \<noteq> None then Some (vh_Communication H req onLog tuning)
      else if rq_Pipeline req \<noteq> None then runPipelineV1 sv (vh_Pipeline H) req tuning
      else if rq_Interactor req \<noteq> None then Some (runInteractive sv (vh_Interactive H) req onLog tuning)
      else if UsesSteps req then runStepPipeline sv (vh_Steps H) req onLog tuning
      else if sv_ShortCaseSampling sv \<and> Enabled (sv_CPUNormalizer sv) then runShortCaseBatch (batch_of sv H tuning) req onLog
      else map_option rr_response (runOne sv (vh_Run H 0) req onLog tuning True))"

definition decorateCPUTimeNormalization :: "exec_service \<Rightarrow> RunResponse \<Rightarrow> RunResponse" where
  "decorateCPUTimeNormalization sv response =
     (case Info (sv_CPUNormalizer sv) of
        None \<Rightarrow> response
      | Some info \<Rightarrow> response\<lparr>rs_CPUTimeNormalization := Some \<lparr>ctn_Method = ci_Method info, ctn_ScalePPM = ci_ScalePPM info,
          ctn_ReferenceTimeNs = ci_ReferenceTimeNs info, ctn_ObservedTimeNs = ci_ObservedTimeNs info\<rparr>\<rparr>)"

text \<open>\<open>Service.Run\<close>; the hooks of an Entry state request are dropped, so nothing is logged.\<close>

definition service_Run :: "exec_service \<Rightarrow> service_host \<Rightarrow> RunRequest option \<Rightarrow> bool \<Rightarrow> RunResponse option" where
  "service_Run sv H req onLog =
     (case req of
        None \<Rightarrow> Some (failed_response ''nil request'')
      | Some req \<Rightarrow>
          (case run_checks sv (vh_env H) req of
             Inl e \<Rightarrow> Some (failed_response (run_error_text H e))
           | Inr tuning \<Rightarrow>
               map_option (decorateCPUTimeNormalization sv)
                 (run_kind sv H req (onLog \<and> rq_EntryMode req \<noteq> ''state'') tuning)))"

section \<open>The runner accepts what the server accepted\<close>

lemma sidecars_accepted:
  assumes "Validate E req = None"
  shows "ValidateSidecarOutputs (rq_SidecarOutputs req) = None"
proof -
  note m = Validate_parts(3) [OF assms]
  have none: "ValidateSidecarOutputs [] = None" by (simp add: accepts output_paths_ok_def)
  consider "rq_Communication req \<noteq> None" | "rq_Communication req = None" "rq_Pipeline req \<noteq> None"
    | "rq_Communication req = None" "rq_Pipeline req = None" "UsesSteps req"
    | "rq_Communication req = None" "rq_Pipeline req = None" "\<not> UsesSteps req" by blast
  then show ?thesis
  proof cases
    case 1
    then have "rq_SidecarOutputs req = []" using m
      by (auto simp: mode_check_def ValidateCommunication_def comm_header_def comm_fields_def Let_def err_of_None_iff and_then_Inr_iff)
    then show ?thesis by (simp add: none)
  next
    case 2
    then obtain pl where "pipe_header req pl = None" using m ValidatePipelineV1_accepts by (auto simp: mode_check_def)
    then show ?thesis by (auto simp: pipe_header_def none)
  next
    case 3
    then show ?thesis using m by (simp add: mode_check_def ValidateStepPipeline_def err_of_None_iff)
  next
    case 4
    then show ?thesis using m by (simp add: mode_check_def)
  qed
qed

lemma checks_pass:
  assumes "Validate E req = None"
    and "rq_RuntimeProfile req = [] \<or> sv_RuntimeTuningProfiles sv (rq_RuntimeProfile req) \<noteq> None"
  shows "\<exists>tuning. run_checks sv E req = Inr tuning \<and> tuning_ok tuning"
proof -
  have v: "ValidateTextEncoding req = None" "ValidateEntry E req = None" "ValidateProfileName (rq_RuntimeProfile req) = None"
    "ValidateOptionalLibraryMode (rq_PythonLibraryMode req) = None" "\<not> (rq_PythonLibraryMode req \<noteq> [] \<and> \<not> UsesPython req)"
    "ValidateSPJ E (rq_SPJ req) = None" "err_of (ValidateBinaryBudget req) = None"
    using assms(1) by (simp_all add: Validate_def)
  have p: "ValidatePipelineV1 E req = None" if "rq_Pipeline req \<noteq> None"
    using Validate_parts(3) [OF assms(1)] Validate_kinds(2) [OF assms(1) that] that by (simp add: mode_check_def)
  have "first_error
       [map_option RunInvalid (ValidateTextEncoding req), map_option RunCheck (ValidateSidecarOutputs (rq_SidecarOutputs req)),
        map_option RunInvalid (ValidateEntry E req), map_option RunCheck (err_of (ValidateBinaryBudget req)),
        map_option RunLibraryMode (ValidateOptionalLibraryMode (rq_PythonLibraryMode req)),
        reject_if (rq_PythonLibraryMode req \<noteq> [] \<and> \<not> UsesPython req) RunLibraryUnused,
        (if rq_Pipeline req \<noteq> None then map_option RunPipelineError (ValidatePipelineV1 E req) else None),
        (if rq_SPJ req \<noteq> None then map_option RunCheck (ValidateSPJ E (rq_SPJ req)) else None)] = None"
    using v p sidecars_accepted [OF assms(1)] by auto
  then have "run_checks sv E req = select_tuning sv (rq_RuntimeProfile req)" by (simp only: run_checks_def checked_def option.case)
  then show ?thesis using assms(2) v(3) safe_defaults_ok by (auto simp: select_tuning_def checked_def)
qed

lemma pipeline_returned: "\<exists>resp. runPipelineV1 sv H req tuning = Some resp"
  using pipeline_returns [of sv H req tuning] by (auto simp: runPipelineV1_def)

text \<open>A pipeline whose URLs have been resolved always has a plan.\<close>

lemma resources_materialize:
  assumes "\<forall>e \<in> set es. resource_ok e \<and> trim_space (prs_DataURL (snd e)) = []"
    and "n + sum_list (map resource_size es) \<le> MaxPipelineResourceTotalBytes"
  shows "\<exists>st. loop_err materialize_resource i es (rs, n) = Inr st"
  using assms
proof (induction es arbitrary: i rs n)
  case (Cons e es)
  then obtain data where "b64_decode (prs_DataB64 (snd e)) = Some data" "length data \<le> MaxTextFieldBytes"
    "trim_space (prs_DataURL (snd e)) = []"
    by (auto simp: resource_ok_def)
  then have "materialize_resource i e (rs, n) = Inr ((fst e, data) # rs, n + resource_size e)" "resource_size e = length data"
    using Cons.prems(2) by (cases e; simp add: materialize_resource_def resource_size_def)+
  then show ?case using Cons.IH [of "n + resource_size e"] Cons.prems by (simp add: add.assoc)
qed simp

lemma resolved_plan:
  assumes "ValidatePipelineV1 E req = None" "rq_Pipeline req = Some pl"
    and "\<forall>e \<in> set (pl_Resources pl). trim_space (prs_DataURL (snd e)) = []"
  shows "\<exists>plan. compileExecutionPlan E textof req = Inr plan"
proof -
  have p: "pipeline_ok E pl" using ValidatePipelineV1_accepts [OF assms(1)] assms(2) by auto
  obtain st where "loop_err materialize_resource 0 (pl_Resources pl) ([], 0) = Inr st"
    using resources_materialize [of "pl_Resources pl" 0 0 "[]"] p assms(3) by (auto simp: pipeline_ok_def)
  then show ?thesis
    by (cases st) (simp add: compileExecutionPlan_def assms(1,2) checked_def materializePipelineResources_def and_then_def Let_def)
qed

section \<open>Every executor answers\<close>

lemma steps_return:
  "\<forall>s \<in> set (butlast steps). st_Handoff s \<noteq> None \<Longrightarrow>
   \<exists>resp. run_steps sv H tuning onLog req i steps handoffs results budget = Some resp"
proof (induction steps arbitrary: i handoffs results budget)
  case (Cons step rest)
  show ?case
  proof (cases "prepareStepStdin (hs_Downloads H) (sh_Files (hs_Step H i)) step handoffs budget")
    case (Inl e)
    then show ?thesis by (cases e) (simp add: run_steps.simps(2) Let_def)
  next
    case (Inr p)
    obtain stdin input src m b where p: "p = (stdin, input, src, m, b)" by (cases p)
    let ?q = "step_request req step (step_program req step) stdin (rest = [])"
    obtain run where r: "runOneWithStdin sv (sh_Run (hs_Step H i)) ?q input m onLog tuning (rest = []) False = Some run"
      using runOne_returns by blast
    show ?thesis
    proof (cases "rest = []")
      case True
      then show ?thesis using Inr p r by (simp add: run_steps.simps(2) Let_def)
    next
      case False
      then have "st_Handoff step \<noteq> None" using Cons.prems by simp
      then obtain o1 where o1: "hand_over (hs_Step H i) step ?q run = Some o1" by (cases "hand_over (hs_Step H i) step ?q run") (auto simp: hand_over_def split: if_splits)
      have "\<forall>s \<in> set (butlast rest). st_Handoff s \<noteq> None" using Cons.prems False by simp
      note IH = Cons.IH [OF this]
      show ?thesis using Inr p r o1 False IH
        by (cases o1) (simp_all add: run_steps.simps(2) Let_def)
    qed
  qed
qed simp

lemma step_pipeline_returns: "\<exists>resp. runStepPipeline sv H req onLog tuning = Some resp"
proof (cases "ValidateStepPipeline req")
  case None
  then obtain s1 s2 h where "rq_Steps req = [s1, s2]" "st_Handoff s1 = Some h" using ValidateStepPipeline_flow by blast
  then have "\<forall>s \<in> set (butlast (rq_Steps req)). st_Handoff s \<noteq> None" by simp
  then show ?thesis using None steps_return by (simp add: runStepPipeline_def)
qed (simp add: runStepPipeline_def)

lemma median_returns: "\<exists>resp. runShortCaseMedian ctxErr first again = Some resp"
proof -
  define st where "st = \<lparr>rp_samples = [first], rp_memoryKB = rs_MemoryKB first, rp_timeMs = rs_TimeMs first,
    rp_wallTimeMs = rs_WallTimeMs first\<rparr>"
  have "length (rp_samples st) = 3 - 2" by (simp add: st_def)
  then obtain r where "repeat_loop ctxErr again st = Some r" using repeat_loop_short [of st 2 ctxErr again] by auto
  then show ?thesis unfolding runShortCaseMedian_def st_def by (cases r; cases "ctxErr 3") auto
qed

lemma batch_returns: "\<exists>resp. runShortCaseBatch B req onLog = Some resp"
  using median_returns by (auto simp: runShortCaseBatch_def Let_def split: sum.split prod.split)

lemma run_kind_returns: "\<exists>resp. run_kind sv H req onLog tuning = Some resp"
proof -
  obtain r where "runOne sv (vh_Run H 0) req onLog tuning True = Some r" unfolding runOne_def using runOne_returns by blast
  then show ?thesis
    unfolding run_kind_def
    using pipeline_returned [of sv "vh_Pipeline H" req tuning] step_pipeline_returns [of sv "vh_Steps H" req onLog tuning]
      batch_returns [of "batch_of sv H tuning" req onLog]
    by simp
qed

text \<open>A host whose preparation of a request succeeds, and a request that needs neither network, downloads nor a judge's copy.\<close>

definition prepares :: "run_host \<Rightarrow> RuntimeTuningConfig \<Rightarrow> RunRequest \<Rightarrow> bool" where
  "prepares H tuning req \<longleftrightarrow> h_WorkDir H \<and> h_WorkspaceDirs H \<and>
     (\<exists>path l. h_Materialize H req = Some (path, l) \<and> h_Command H tuning path l req \<noteq> [])"

definition self_contained :: "RunRequest \<Rightarrow> bool" where
  "self_contained req \<longleftrightarrow> \<not> rq_EnableNetwork req \<and> trim_space (rq_StdinURL req) = [] \<and> rq_SPJ req = None"

lemma accepted_setup:
  assumes "Validate E req = None" "rq_Communication req = None" "rq_Pipeline req = None" "\<not> UsesSteps req"
    and "prepares H tuning req" "self_contained req"
  shows "run_setup sv H tuning req None 0 =
    (if rq_Binaries req = [] then Inl ''no binaries''
     else Inr (h_Command H tuning (fst (the (h_Materialize H req))) (snd (the (h_Materialize H req))) req, None, int MaxTextFieldBytes))"
proof -
  have m: "\<not> length (rq_Binaries req) > MaxBinaryFiles" "\<not> length (rq_FileOutputs req) > 1"
    using Validate_parts(3) [OF assms(1)] assms(2-4) by (simp_all add: mode_check_def)
  have "length (rq_SidecarOutputs req) \<le> MaxSidecarOutputs" using sidecars_accepted [OF assms(1)] by (simp add: accepts)
  then have "\<not> length (rq_SidecarOutputs req) > maxSidecarOutputSpecs" by (simp add: MaxSidecarOutputs_def maxSidecarOutputSpecs_def)
  then show ?thesis
    using m assms(5,6)
    by (auto simp: run_setup_def prepares_def self_contained_def networkRequestRejection_def judge_input_def and_then_def Let_def)
qed

section \<open>Properties\<close>

text \<open>
  C40. The runner agrees with the server. A request that the server's validation accepted, with a runtime profile the runner knows,
  passes every check the runner makes again, gets a tuning within its bounds and always a response, which the executor of its kind gave
  (without the logs, when it is an Entry state request): a pipeline whose URLs are resolved has a plan, a two-step request passes
  the checks of its executor, and a request for a single program, on a host that can prepare it, reaches the sandbox unless it has no file.
\<close>

theorem service_runs_accepted:
  assumes "Validate (vh_env H) req = None"
    and "rq_RuntimeProfile req = [] \<or> sv_RuntimeTuningProfiles sv (rq_RuntimeProfile req) \<noteq> None"
  shows "\<exists>tuning resp. tuning_ok tuning \<and> run_kind sv H req (onLog \<and> rq_EntryMode req \<noteq> ''state'') tuning = Some resp \<and>
    service_Run sv H (Some req) onLog = Some (decorateCPUTimeNormalization sv resp) \<and>
    (\<forall>pl. rq_Pipeline req = Some pl \<longrightarrow> (\<forall>e \<in> set (pl_Resources pl). trim_space (prs_DataURL (snd e)) = []) \<longrightarrow>
       (\<exists>plan. compileExecutionPlan (vh_env H) textof req = Inr plan)) \<and>
    (rq_Communication req = None \<and> rq_Pipeline req = None \<and> UsesSteps req \<longrightarrow> ValidateStepPipeline req = None) \<and>
    (rq_Communication req = None \<and> rq_Pipeline req = None \<and> \<not> UsesSteps req \<and> self_contained req \<and> prepares (vh_Run H 0) tuning req \<longrightarrow>
       (rq_Binaries req = [] \<longleftrightarrow> run_setup sv (vh_Run H 0) tuning req None 0 = Inl ''no binaries'') \<and>
       (rq_Binaries req \<noteq> [] \<longrightarrow> (\<exists>args. run_setup sv (vh_Run H 0) tuning req None 0 = Inr (args, None, int MaxTextFieldBytes))))"
proof -
  obtain tuning where t: "run_checks sv (vh_env H) req = Inr tuning" "tuning_ok tuning" using checks_pass [OF assms] by blast
  obtain resp where r: "run_kind sv H req (onLog \<and> rq_EntryMode req \<noteq> ''state'') tuning = Some resp" using run_kind_returns by blast
  show ?thesis
  proof (intro exI [of _ tuning] exI [of _ resp] conjI impI allI t(2) r)
    show "service_Run sv H (Some req) onLog = Some (decorateCPUTimeNormalization sv resp)"
      using t(1) r by (simp add: service_Run_def)
    show "\<exists>plan. compileExecutionPlan (vh_env H) textof req = Inr plan"
      if "rq_Pipeline req = Some pl" "\<forall>e \<in> set (pl_Resources pl). trim_space (prs_DataURL (snd e)) = []" for pl
    proof (rule resolved_plan [OF _ that])
      show "ValidatePipelineV1 (vh_env H) req = None"
        using Validate_parts(3) [OF assms(1)] Validate_kinds(2) [OF assms(1)] that(1) by (simp add: mode_check_def)
    qed
    show "ValidateStepPipeline req = None" if "rq_Communication req = None \<and> rq_Pipeline req = None \<and> UsesSteps req"
      using Validate_parts(3) [OF assms(1)] that by (simp add: mode_check_def)
    assume k: "rq_Communication req = None \<and> rq_Pipeline req = None \<and> \<not> UsesSteps req \<and> self_contained req \<and> prepares (vh_Run H 0) tuning req"
    then have s: "run_setup sv (vh_Run H 0) tuning req None 0 =
        (if rq_Binaries req = [] then Inl ''no binaries''
         else Inr (h_Command (vh_Run H 0) tuning (fst (the (h_Materialize (vh_Run H 0) req))) (snd (the (h_Materialize (vh_Run H 0) req))) req,
           None, int MaxTextFieldBytes))"
      by (intro accepted_setup [OF assms(1)]) blast+
    show "rq_Binaries req = [] \<longleftrightarrow> run_setup sv (vh_Run H 0) tuning req None 0 = Inl ''no binaries''" unfolding s by simp
    show "\<exists>args. run_setup sv (vh_Run H 0) tuning req None 0 = Inr (args, None, int MaxTextFieldBytes)" if "rq_Binaries req \<noteq> []"
      unfolding s using that by simp
  qed
qed

end
