(* ===== verification/Service_Demo.thy ===== *)
theory Service_Demo
  imports Step_Service Request_Properties
begin

text \<open>
  A two-step request run on a host whose sandbox prints 7, and the witnesses that need it.
\<close>

definition ordinary :: "RunRequest \<Rightarrow> bool" where
  "ordinary q \<longleftrightarrow> \<not> rq_EnableNetwork q \<and> rq_FileOutputs q = [] \<and> rq_SidecarOutputs q = [] \<and> length (rq_Binaries q) = 1 \<and>
     rq_SPJ q = None \<and> rq_StdinURL q = [] \<and> rq_EntryMode q = [] \<and> rq_ExpectedStdout q \<in> {[], ''7''} \<and>
     10 \<le> lim_TimeMs (rq_Limits q) \<and> 1 \<le> lim_MemoryMB (rq_Limits q)"

lemma seven_runs:
  assumes "ordinary q" "ev \<longrightarrow> rq_ExpectedStdout q = ''7''"
  obtains r where "runOneWithStdin dev_service seven_host q input n False t ev False = Some r"
    "rr_judgeOut r = ''7''" "\<not> rr_stdoutLimitExceeded r"
    "rs_Status (rr_response r) = (if ev then RunStatusAccepted else StatusOK)"
proof -
  have o: "\<not> rq_EnableNetwork q" "rq_FileOutputs q = []" "rq_SidecarOutputs q = []" "length (rq_Binaries q) = 1"
     "rq_SPJ q = None" "rq_StdinURL q = []" "rq_EntryMode q = []" "rq_Binaries q \<noteq> []"
     "10 \<le> lim_TimeMs (rq_Limits q)" "1 \<le> lim_MemoryMB (rq_Limits q)"
    using assms(1) by (auto simp: ordinary_def)
  obtain m where s: "run_setup dev_service seven_host t q input n = Inr ([''/work/box/a''], input, m)"
    using o by (simp add: run_setup_def networkRequestRejection_def judge_input_def MaxBinaryFiles_def
        maxSidecarOutputSpecs_def seven_host_def and_then_def Let_def)
  have c: "collect_output seven_host q plain_result = (plain_result, ''7'', ''stdout'')"
    using o by (simp add: collect_output_def plain_result_def)
  have sc: "captureSidecarOutputs (h_Open seven_host) (rq_SidecarOutputs q) = ([], [])"
    using o by (simp add: captureSidecarOutputs_def)
  have h: "h_Sandbox seven_host t' a q' x m k = plain_result" "h_Judge seven_host = plain_judge" for t' a q' x m k
    by (simp_all add: seven_host_def)
  have cl: "classifyRunStatusWithoutOutput q plain_result = (StatusOK, [], [])"
    using o by (simp add: classifyRunStatusWithoutOutput_def applyFinalCPUTimeStatus_def applyCPUTimeLimitStatus_def
        plain_result_def)
  have ok: "er_Status plain_result \<noteq> RunStatusInitFail" "\<not> er_StdoutTruncated plain_result" by (simp_all add: plain_result_def)
  have ev: "ev \<Longrightarrow> evaluateRunStatus plain_judge q plain_result ''7'' ''stdout'' [] = Some (RunStatusAccepted, None, [], ''stdout'')"
    using assms(2) o ok by (simp add: evaluateRunStatus_def cl applyStdoutLimitVerdict_def judge_output_def compareOutputs_value
        settle_verdict_def Let_def)
  have "\<exists>r. finish_run seven_host q False ev False plain_result = Some r \<and> rr_judgeOut r = ''7'' \<and>
      \<not> rr_stdoutLimitExceeded r \<and> rs_Status (rr_response r) = (if ev then RunStatusAccepted else StatusOK)"
    unfolding finish_run_def c sc prod.case h cl
    by (cases ev) (simp_all add: ev ok case_prod_beta Let_def)
  then show thesis using s h(1) ok(1) that by (auto simp: runOneWithStdin_def Let_def)
qed


definition sum_steps :: RunRequest where
  "sum_steps = demo_steps\<lparr>rq_ExpectedStdout := ''7''\<rparr>"

definition sum_first :: RunStep where
  "sum_first = zero_RunStep\<lparr>st_ID := ''s'', st_ProgramID := ''p'', st_Limits := demo_limits,
     st_Handoff := Some (zero_StepHandoff\<lparr>ho_ID := ''h''\<rparr>)\<rparr>"

definition sum_second :: RunStep where
  "sum_second = zero_RunStep\<lparr>st_ID := ''t'', st_ProgramID := ''q'', st_Limits := demo_limits, st_StdinFrom := ''h''\<rparr>"

definition seven_steps :: steps_host where
  "seven_steps =
     \<lparr>hs_Dir = True,
      hs_Downloads = \<lparr>dl_env = demo_env, dl_check_text = (\<lambda>_. []), dl_get = (\<lambda>_. (HttpFails [], 0)),
                      dl_read_error = (\<lambda>_. []), dl_close_error = (\<lambda>_. None)\<rparr>,
      hs_Step = (\<lambda>_. \<lparr>sh_Run = seven_host,
        sh_Files = \<lparr>sf_TempFile = True, sf_Rewind = True, sf_OpenFails = (\<lambda>_. False), sf_CloseFails = (\<lambda>_. False)\<rparr>,
        sh_StoreFails = None\<rparr>),
      hs_check_text = (\<lambda>_. []), hs_stdinURLTimeout = 0\<rparr>"

lemma sum_steps_ok: "ValidateStepPipeline sum_steps = None"
  using demo_steps_ok by (simp add: ValidateStepPipeline_def sum_steps_def)

lemma sum_steps_rest: "rq_Steps sum_steps = [sum_first, sum_second]"
  by (simp add: sum_steps_def demo_steps_def sum_first_def sum_second_def)

lemma sum_programs: "step_program sum_steps sum_first = demo_program ''p''" "step_program sum_steps sum_second = demo_program ''q''"
  by (simp_all add: step_program_def sum_steps_def demo_steps_def sum_first_def sum_second_def demo_program_def zero_defs demo_eval)

lemma sum_ordinary:
  "ordinary (step_request sum_steps sum_first (demo_program ''p'') [] False)"
  "ordinary (step_request sum_steps sum_second (demo_program ''q'') [] True)"
  "rq_ExpectedStdout (step_request sum_steps sum_second (demo_program ''q'') [] True) = ''7''"
  by (simp_all add: ordinary_def step_request_def effectiveStepLimits_def sum_steps_def demo_steps_def sum_first_def sum_second_def
      demo_program_def demo_limits_def zero_defs Let_def demo_eval)

lemma sum_input:
  "prepareStepStdin D F sum_first [] b = Inr ([], None, [], int MaxTextFieldBytes, b)"
  "\<not> sf_OpenFails F ''h'' \<Longrightarrow>
   prepareStepStdin D F sum_second [(''h'', ''7'')] b = Inr ([], Some (Some ''7''), ''handoff'', int MaxTextFieldBytes, b)"
  by (simp_all add: prepareStepStdin_def sum_first_def sum_second_def zero_defs demo_eval Let_def)

lemma sum_accepted:
  "\<exists>resp. runStepPipeline dev_service seven_steps sum_steps False DefaultRuntimeTuningConfig = Some resp \<and> rs_Status resp = RunStatusAccepted"
proof -
  let ?q1 = "step_request sum_steps sum_first (demo_program ''p'') [] False"
  obtain r1 where r1: "runOneWithStdin dev_service seven_host ?q1 None (int MaxTextFieldBytes) False DefaultRuntimeTuningConfig False False = Some r1"
    "rr_judgeOut r1 = ''7''" "\<not> rr_stdoutLimitExceeded r1" "rs_Status (rr_response r1) = StatusOK"
    by (rule seven_runs [OF sum_ordinary(1), where ev = False]) auto
  obtain r2 where r2: "runOneWithStdin dev_service seven_host (step_request sum_steps sum_second (demo_program ''q'') [] True)
      (Some (Some ''7'')) (int MaxTextFieldBytes) False DefaultRuntimeTuningConfig True False = Some r2"
    "rs_Status (rr_response r2) = RunStatusAccepted"
    by (rule seven_runs [OF sum_ordinary(2), where ev = True]) (auto simp: sum_ordinary(3))
  have ok: "rs_Status (step_response False r1) = StatusOK"
    using r1(3,4) by (simp add: step_response_def applyStdoutLimitVerdict_def Let_def)
  have ho: "hand_over (hs_Step seven_steps 0) sum_first ?q1 r1 = Some (Inr (''h'', ''7''))"
    using r1(2) outputLimitBytes_range [of "rq_Limits ?q1"]
    by (simp add: hand_over_def ok Let_def sum_first_def seven_steps_def zero_defs demo_eval)
  have h: "sh_Run (hs_Step seven_steps i) = seven_host" "\<not> sf_OpenFails (sh_Files (hs_Step seven_steps i)) ''h''" "hs_Dir seven_steps" for i
    by (simp_all add: seven_steps_def)
  show ?thesis
    by (simp add: runStepPipeline_def sum_steps_ok sum_steps_rest h run_steps.simps(2) Let_def sum_input sum_programs r1(1) r2 ho
        step_response_def)
qed

theorem steps_accepted_witness:
  "\<exists>resp run1 run2.
     runStepPipeline dev_service seven_steps sum_steps False DefaultRuntimeTuningConfig = Some resp \<and>
     rs_Status resp = RunStatusAccepted \<and> rs_Status (rr_response run1) = StatusOK \<and>
     rs_Steps resp = [step_result sum_first False run1, step_result sum_second True run2]"
proof -
  have "er_Status (h_Sandbox (sh_Run (hs_Step seven_steps 0)) t a q x m k) \<noteq> RunStatusAccepted" for t a q x m k
    by (simp add: seven_steps_def seven_host_def plain_result_def)
  from steps_accepted [OF this, of dev_service sum_steps False DefaultRuntimeTuningConfig] sum_accepted sum_steps_rest
  show ?thesis by fastforce
qed

end
