(* ===== verification/Pipeline_Demo.thy ===== *)
theory Pipeline_Demo
  imports Service_Run Service_Demo
begin

text \<open>
  A pipeline of two steps and a single program, run on a host whose sandbox copies its input, and the witnesses that need them.
\<close>

definition echo_host :: run_host where
  "echo_host = seven_host
     \<lparr>h_Sandbox := (\<lambda>_ _ _ input _ _. plain_result\<lparr>er_Stdout := (case input of Some (Some c) \<Rightarrow> c | _ \<Rightarrow> [])\<rparr>)\<rparr>"

definition echo_pipe :: pipe_host where
  "echo_pipe =
     \<lparr>ph_Files = True, ph_Opens = (\<lambda>_. True), ph_Run = echo_host,
      ph_Interactive = \<lparr>ih_Contestant = echo_host, ih_Interactor = echo_host, ih_RequestInput = (\<lambda>_. Inl []), ih_TempFails = None,
        ih_ReadError = [], ih_AnswerFails = None, ih_ContestantPipe = None, ih_InteractorPipe = None,
        ih_Both = (\<lambda>_ _ _ _ _ _. \<lparr>bo_Contestant = plain_result, bo_Interactor = plain_result, bo_ToInteractor = None,
          bo_ToContestant = None, bo_ContestantExpected = False, bo_InteractorExpected = False, bo_DeadlineHit = False,
          bo_Canceled = False\<rparr>),
        ih_OutputFile = None, ih_WallMs = 0\<rparr>,
      ph_OutputTemp = True, ph_OutputSeal = None, ph_Writes = (\<lambda>_. True), ph_Regular = (\<lambda>_. True)\<rparr>"

definition echo_pipeline :: pipeline_host where
  "echo_pipeline = \<lparr>pp_env = demo_env, pp_check_text = (\<lambda>_. []), pp_Store = True, pp_Step = (\<lambda>_. echo_pipe),
     pp_JudgeDir = True, pp_JudgeWorkspace = True, pp_Judge = (\<lambda>_. plain_judge)\<rparr>"

lemma echo_runs:
  assumes "ordinary q"
  obtains r where "runOneWithStdin dev_service echo_host q (Some (Some c)) n False t False False = Some r"
    "rr_judgeOut r = c" "\<not> rr_stdoutLimitExceeded r" "rs_Status (rr_response r) = StatusOK"
proof -
  have o: "\<not> rq_EnableNetwork q" "rq_FileOutputs q = []" "rq_SidecarOutputs q = []" "length (rq_Binaries q) = 1"
     "rq_SPJ q = None" "rq_StdinURL q = []" "rq_EntryMode q = []" "rq_Binaries q \<noteq> []"
     "10 \<le> lim_TimeMs (rq_Limits q)" "1 \<le> lim_MemoryMB (rq_Limits q)"
    using assms(1) by (auto simp: ordinary_def)
  let ?res = "plain_result\<lparr>er_Stdout := c\<rparr>"
  obtain m where s: "run_setup dev_service echo_host t q (Some (Some c)) n = Inr ([''/work/box/a''], Some (Some c), m)"
    using o by (simp add: run_setup_def networkRequestRejection_def judge_input_def MaxBinaryFiles_def
        maxSidecarOutputSpecs_def echo_host_def seven_host_def and_then_def Let_def)
  have c: "collect_output echo_host q ?res = (?res, c, ''stdout'')"
    using o by (simp add: collect_output_def)
  have sc: "captureSidecarOutputs (h_Open echo_host) (rq_SidecarOutputs q) = ([], [])"
    using o by (simp add: captureSidecarOutputs_def)
  have h: "h_Sandbox echo_host t' a q' (Some (Some c)) m k = ?res" for t' a q' m k
    by (simp add: echo_host_def)
  have cl: "classifyRunStatusWithoutOutput q ?res = (StatusOK, [], [])"
    using o by (simp add: classifyRunStatusWithoutOutput_def applyFinalCPUTimeStatus_def applyCPUTimeLimitStatus_def
        plain_result_def)
  have ok: "er_Status ?res \<noteq> RunStatusInitFail" "\<not> er_StdoutTruncated ?res" by (simp_all add: plain_result_def)
  have "\<exists>r. finish_run echo_host q False False False ?res = Some r \<and> rr_judgeOut r = c \<and>
      \<not> rr_stdoutLimitExceeded r \<and> rs_Status (rr_response r) = StatusOK"
    unfolding finish_run_def c sc prod.case cl by (simp add: ok case_prod_beta Let_def)
  then show thesis using s h ok(1) that by (auto simp: runOneWithStdin_def Let_def)
qed

lemma echo_batch:
  assumes "ordinary (batch_request req step)"
  obtains run where "run_batch dev_service echo_pipe t req step c n = Some run" "pr_stdout run = c"
    "rs_Status (pr_resp run) = StatusOK" "pr_error run = None" "pr_interactorOutput run = None"
proof -
  obtain r where r: "runOneWithStdin dev_service echo_host (batch_request req step) (Some (Some c)) n False t False False = Some r"
    "rr_judgeOut r = c" "\<not> rr_stdoutLimitExceeded r" "rs_Status (rr_response r) = StatusOK"
    using echo_runs [OF assms] by blast
  have "rq_FileOutputs (batch_request req step) = []" "ph_Run echo_pipe = echo_host"
    using assms by (simp_all add: ordinary_def echo_pipe_def)
  then have "\<exists>run. run_batch dev_service echo_pipe t req step c n = Some run \<and> pr_stdout run = c \<and>
    rs_Status (pr_resp run) = StatusOK \<and> pr_error run = None \<and> pr_interactorOutput run = None"
    using r by (simp add: run_batch_def applyStdoutLimitVerdict_def Let_def)
  then show thesis using that by blast
qed

section \<open>The plan\<close>

definition echo_first :: executionPlanStep where
  "echo_first = planned_step [(''e'', ''ABC''), (''r'', ''ABC'')] [(''q'', demo_program ''q''), (''p'', demo_program ''p'')]
     (hd (pl_Steps demo_pipeline_v1))"

definition echo_second :: executionPlanStep where
  "echo_second = planned_step [(''e'', ''ABC''), (''r'', ''ABC'')] [(''q'', demo_program ''q''), (''p'', demo_program ''p'')]
     (last (pl_Steps demo_pipeline_v1))"

lemma demo_folds: "folds_to ''resource'' ''resource''" "\<not> folds_to ''artifact'' ''resource''" "folds_to ''diff'' ''diff''"
  by (simp_all add: folds_to_def runes_ascii fold_rune_def)

lemma echo_first_fields:
  "pn_id echo_first = ''s''" "pn_kind echo_first = ''batch''" "pn_program echo_first = demo_program ''p''"
  "pn_stdin echo_first = [\<lparr>in_resource = ''ABC'', in_artifactID = []\<rparr>]" "pn_limits echo_first = demo_limits"
  "pn_outputs echo_first = [zero_PipelineOutput\<lparr>po_ID := ''o'', po_MaxBytes := 100,
     po_Source := zero_PipelineOutputSource\<lparr>os_Kind := ''participant_stdout''\<rparr>\<rparr>]"
  by (simp_all add: echo_first_def planned_step_def demo_pipeline_v1_def demo_pipe_step_def planned_input_def look_def demo_ref_def
      demo_folds demo_eval zero_defs Let_def)

lemma echo_second_fields:
  "pn_id echo_second = ''t''" "pn_kind echo_second = ''batch''" "pn_program echo_second = demo_program ''q''"
  "pn_stdin echo_second = [\<lparr>in_resource = [], in_artifactID = ''o''\<rparr>]" "pn_limits echo_second = demo_limits"
  "pn_outputs echo_second = []"
  by (simp_all add: echo_second_def planned_step_def demo_pipeline_v1_def demo_pipe_step_def planned_input_def look_def demo_ref_def
      demo_folds demo_eval zero_defs Let_def)

lemma demo_materialized: "materializePipelineResources demo_pipeline_v1 = Inr [(''e'', ''ABC''), (''r'', ''ABC'')]"
  by (simp add: materializePipelineResources_def demo_pipeline_v1_def materialize_resource_def zero_defs demo_eval and_then_def
      MaxTextFieldBytes_def MaxPipelineResourceTotalBytes_def)

lemma demo_plan:
  "\<exists>plan. compileExecutionPlan demo_env textof demo_pipeline = Inr plan \<and> pa_steps plan = [echo_first, echo_second] \<and>
     pj_spec (pa_finalJudge plan) = pl_FinalJudge demo_pipeline_v1 \<and> pj_expected (pa_finalJudge plan) = ''ABC'' \<and>
     pj_actualStepID (pa_finalJudge plan) = ''t''"
proof -
  have p: "rq_Pipeline demo_pipeline = Some demo_pipeline_v1" by (simp add: demo_pipeline_def)
  have s: "pl_Steps demo_pipeline_v1 = [hd (pl_Steps demo_pipeline_v1), last (pl_Steps demo_pipeline_v1)]"
    "rev (map (\<lambda>p. (prog_ID p, p)) (pl_Programs demo_pipeline_v1)) = [(''q'', demo_program ''q''), (''p'', demo_program ''p'')]"
    "trim_space (ref_ID (fj_Expected (pl_FinalJudge demo_pipeline_v1))) = ''e''"
    "trim_space (ref_StepID (fj_Actual (pl_FinalJudge demo_pipeline_v1))) = ''t''"
    by (simp_all add: demo_pipeline_v1_def demo_program_def demo_ref_def zero_defs demo_eval)
  show ?thesis
    unfolding compileExecutionPlan_def demo_pipeline_ok option.map checked_def option.case p demo_materialized and_then_def sum.case s(2-)
      Let_def
    by (subst s(1)) (simp add: echo_first_def echo_second_def look_def)
qed

section \<open>The runs\<close>

lemma demo_program_fields: "prog_Binaries (demo_program i) = [demo_binary ''c'']" "\<not> prog_EnableNetwork (demo_program i)"
  by (simp_all add: demo_program_def zero_defs)

lemma echo_ordinary: "ordinary (batch_request demo_pipeline echo_first)" "ordinary (batch_request demo_pipeline echo_second)"
  by (simp_all add: ordinary_def batch_request_def echo_first_fields echo_second_fields source_kind_def raise_output_def
      pipelineProgramRequest_def demo_program_fields demo_limits_def zero_defs demo_eval Let_def)

lemma echo_input_bound: "stdinURLMaxBytes demo_limits = 128 * 2 ^ 20"
  by (simp add: stdinURLMaxBytes_def demo_limits_def zero_defs defaultWorkspaceBytes_def MaxWorkspaceBytes_def Let_def)

lemma echo_prepared:
  "preparePipelineStdin True (\<lambda>_. True) echo_first newPipelineArtifactStore = Some (''ABC'', 128 * 2 ^ 20)"
  "artifacts s ''o'' = Some ''ABC'' \<Longrightarrow>
   preparePipelineStdin True (\<lambda>_. True) echo_second s = Some (''ABC'', 128 * 2 ^ 20)"
  by (auto simp: preparePipelineStdin_def echo_first_fields echo_second_fields echo_input_bound input_content_def
      open_artifact_def artifacts_def Let_def)

lemma echo_first_stored:
  assumes "pr_stdout run = ''ABC''" "pr_interactorOutput run = None"
  shows "\<exists>s n. store_outputs echo_pipe echo_first run newPipelineArtifactStore = Inr (s, n) \<and> artifacts s ''o'' = Some ''ABC''"
  by (simp add: store_outputs_def assms echo_first_fields store_output_def source_kind_def zero_defs demo_eval put_artifact_def
      newPipelineArtifactStore_def artifacts_def echo_pipe_def MaxPipelineArtifactTotalBytes_def Let_def)

lemma echo_accepted:
  "\<exists>resp. runPipelineV1 dev_service echo_pipeline demo_pipeline t = Some resp \<and> rs_Status resp = RunStatusAccepted"
proof -
  obtain plan where plan: "compileExecutionPlan demo_env (\<lambda>_. []) demo_pipeline = Inr plan" "pa_steps plan = [echo_first, echo_second]"
     "pj_spec (pa_finalJudge plan) = pl_FinalJudge demo_pipeline_v1" "pj_expected (pa_finalJudge plan) = ''ABC''"
     "pj_actualStepID (pa_finalJudge plan) = ''t''"
    using demo_plan by blast
  obtain r1 where r1: "run_batch dev_service echo_pipe t demo_pipeline echo_first ''ABC'' (128 * 2 ^ 20) = Some r1" "pr_stdout r1 = ''ABC''"
    "rs_Status (pr_resp r1) = StatusOK" "pr_error r1 = None" "pr_interactorOutput r1 = None"
    using echo_batch [OF echo_ordinary(1)] by blast
  obtain r2 where r2: "run_batch dev_service echo_pipe t demo_pipeline echo_second ''ABC'' (128 * 2 ^ 20) = Some r2" "pr_stdout r2 = ''ABC''"
    "rs_Status (pr_resp r2) = StatusOK" "pr_error r2 = None" "pr_interactorOutput r2 = None"
    using echo_batch [OF echo_ordinary(2)] by blast
  obtain s n where s: "store_outputs echo_pipe echo_first r1 newPipelineArtifactStore = Inr (s, n)" "artifacts s ''o'' = Some ''ABC''"
    using echo_first_stored [OF r1(2,5)] by blast
  have s2: "store_outputs echo_pipe echo_second r2 s = Inr (s, 0)" by (simp add: store_outputs_def r2 echo_second_fields)
  have h: "ph_Files echo_pipe" "ph_Opens echo_pipe = (\<lambda>_. True)" by (simp_all add: echo_pipe_def)
  have a: "after_run echo_pipe echo_first r1 newPipelineArtifactStore = Inr (s, (pipe_result echo_first r1)\<lparr>sr_HandoffBytes := n\<rparr>, ''ABC'')"
    "after_run echo_pipe echo_second r2 s = Inr (s, (pipe_result echo_second r2)\<lparr>sr_HandoffBytes := 0\<rparr>, ''ABC'')"
    using s s2 r1 r2 by (simp_all add: after_run_def succeeded_def)
  have st: "run_step dev_service echo_pipe t demo_pipeline echo_first ''ABC'' (128 * 2 ^ 20) = Some (Some r1)"
    "run_step dev_service echo_pipe t demo_pipeline echo_second ''ABC'' (128 * 2 ^ 20) = Some (Some r2)"
    using r1(1) r2(1) by (simp_all add: run_step_def echo_first_fields echo_second_fields)
  obtain results where run: "run_plan dev_service (\<lambda>_. echo_pipe) t demo_pipeline 0 [echo_first, echo_second] newPipelineArtifactStore [] [] =
      Some (Inr (results, [(''t'', ''ABC''), (''s'', ''ABC'')]))"
    using h a st echo_prepared(1) echo_prepared(2) [OF s(2)]
    by (simp add: Let_def echo_first_fields(1) echo_second_fields(1))
  have "folds_to (trim_space (fj_Kind (pl_FinalJudge demo_pipeline_v1))) ''diff''"
    by (simp add: demo_pipeline_v1_def zero_defs demo_eval demo_folds)
  then have "runPipelineFinalJudge echo_pipeline demo_pipeline (pa_finalJudge plan) ''ABC'' =
      Some (final_response RunStatusAccepted [] ''final:diff'' None)"
    by (simp add: runPipelineFinalJudge_def plan compareOutputs_value)
  then show ?thesis
    using plan run
    by (simp add: runPipelineV1_def runPipelineV1Private_def echo_pipeline_def look_def RedactPipelineResponse_def final_response_def)
qed

theorem pipeline_accepted_witness:
  "\<exists>runs plan. compileExecutionPlan demo_env (\<lambda>_. []) demo_pipeline = Inr plan \<and> runs \<noteq> [] \<and>
     plan_runs dev_service (\<lambda>_. echo_pipe) DefaultRuntimeTuningConfig demo_pipeline 0 Map.empty (pa_steps plan) runs"
proof -
  have e: "pp_env echo_pipeline = demo_env" "pp_check_text echo_pipeline = (\<lambda>_. [])" "pp_Step echo_pipeline = (\<lambda>_. echo_pipe)"
    by (simp_all add: echo_pipeline_def)
  obtain resp where resp: "runPipelineV1 dev_service echo_pipeline demo_pipeline DefaultRuntimeTuningConfig = Some resp"
    "rs_Status resp = RunStatusAccepted" using echo_accepted by blast
  show ?thesis
    using pipeline_accepted [of dev_service echo_pipeline demo_pipeline DefaultRuntimeTuningConfig] unfolding resp(1) e
    using resp(2) by auto
qed

section \<open>The service\<close>

definition echo_service :: service_host where
  "echo_service =
     \<lparr>vh_env = demo_env, vh_error_text = (\<lambda>_. []), vh_Communication = (\<lambda>_ _ _. zero_RunResponse), vh_Pipeline = echo_pipeline,
      vh_Interactive = ph_Interactive echo_pipe, vh_Steps = seven_steps, vh_Run = (\<lambda>_. echo_host), vh_Image = (\<lambda>_. False),
      vh_Batch = \<lparr>bh_WorkDir = None, bh_Downloads = hs_Downloads seven_steps, bh_TempFails = None, bh_StatFails = None,
        bh_OpenFails = (\<lambda>_. None), bh_Run = (\<lambda>_ _ _ _ _. (zero_RunResponse, False)), bh_ctxErr = (\<lambda>_. None),
        bh_runErr = (\<lambda>_. None)\<rparr>\<rparr>"

theorem service_runs_accepted_witness:
  "\<exists>tuning resp args. tuning_ok tuning \<and> service_Run dev_service echo_service (Some demo_single) True = Some resp \<and>
     run_setup dev_service echo_host tuning demo_single None 0 = Inr (args, None, int MaxTextFieldBytes)"
proof -
  have v: "Validate (vh_env echo_service) demo_single = None" "rq_RuntimeProfile demo_single = []" "rq_Binaries demo_single \<noteq> []"
    using demo_single_ok by (simp_all add: echo_service_def demo_single_def zero_defs)
  have k: "rq_Communication demo_single = None" "rq_Pipeline demo_single = None" "\<not> UsesSteps demo_single" "self_contained demo_single"
    by (simp_all add: demo_single_def zero_defs UsesSteps_def self_contained_def)
  have h: "vh_Run echo_service 0 = echo_host" "prepares echo_host tuning req" for tuning req
    by (simp_all add: echo_service_def echo_host_def seven_host_def prepares_def)
  show ?thesis
    using service_runs_accepted [OF v(1) disjI1 [OF v(2)], of dev_service True] v(3) k h(2) unfolding h(1) by blast
qed

end
