(* ===== verification/Interactive_Timers.thy ===== *)
theory Interactive_Timers
  imports Prelude
begin

text \<open>
  internal/execute/interactive_timeout.go: the timers of an interactive run. Both targets must be ready before either executes, the
  start has its own deadline, and each role its own execution deadline. Every operation is one critical section; a timer that
  fires runs its callback in a goroutine of its own, later, so firing, looking at the flags and calling are separate steps. Closing
  the channel \<open>release\<close> twice would panic, so the closes are counted, as are the calls of the three callbacks.
\<close>

section \<open>Operations\<close>

datatype role = Contestant | Interactor

datatype timer = Unset | Armed | Fired | Halted

text \<open>\<open>Timer.Stop\<close>: whether it kept the timer from firing.\<close>

definition timer_stop :: "timer \<Rightarrow> bool \<times> timer" where
  "timer_stop t = (if t = Armed then (True, Halted) else (False, t))"

text \<open>A callback of an execution timer: not due, due, or past its look at the flags and about to call.\<close>

datatype callback = Idle | Due | Calling

record timers =
  it_ctxDone :: bool
  it_closes :: nat
  it_startup :: timer
  it_execution :: "role \<Rightarrow> timer"
  it_ready :: "role \<Rightarrow> bool"
  it_finished :: "role \<Rightarrow> bool"
  it_started :: bool
  it_stopped :: bool
  it_startupDue :: nat
  it_startupCalls :: nat
  it_callback :: "role \<Rightarrow> callback"
  it_calls :: "role \<Rightarrow> nat"

definition newInteractiveExecutionTimers :: "bool \<Rightarrow> timers" where
  "newInteractiveExecutionTimers ctxDone =
     \<lparr>it_ctxDone = ctxDone, it_closes = 0, it_startup = Armed, it_execution = (\<lambda>_. Unset), it_ready = (\<lambda>_. False),
      it_finished = (\<lambda>_. False), it_started = False, it_stopped = False, it_startupDue = 0, it_startupCalls = 0,
      it_callback = (\<lambda>_. Idle), it_calls = (\<lambda>_. 0)\<rparr>"

text \<open>\<open>targetReady\<close>; \<open>late\<close> is whether the context has ended by the second time it is asked.\<close>

definition targetReady :: "bool \<Rightarrow> role \<Rightarrow> timers \<Rightarrow> timers" where
  "targetReady late r s =
     (if it_stopped s \<or> it_started s \<or> it_ctxDone s then s
      else
        (let s = s\<lparr>it_ready := (it_ready s)(r := True)\<rparr> in
         if \<not> it_ready s Contestant \<or> \<not> it_ready s Interactor then s
         else
           (case timer_stop (it_startup s) of
              (False, t) \<Rightarrow> s\<lparr>it_startup := t, it_stopped := True\<rparr>
            | (True, t) \<Rightarrow>
                let s = s\<lparr>it_startup := t\<rparr> in
                if late then s\<lparr>it_ctxDone := True, it_stopped := True\<rparr>
                else s\<lparr>it_execution := (\<lambda>_. Armed), it_started := True, it_closes := it_closes s + 1\<rparr>)))"

text \<open>\<open>finish\<close> up to the end of its critical section; the call of the startup callback is then due.\<close>

definition finish_role :: "role \<Rightarrow> timers \<Rightarrow> timers" where
  "finish_role r s =
     (let s = s\<lparr>it_finished := (it_finished s)(r := True)\<rparr> in
      if it_started s then s\<lparr>it_execution := (it_execution s)(r := snd (timer_stop (it_execution s r)))\<rparr>
      else
        (let abort = \<not> it_stopped s in
         s\<lparr>it_stopped := True, it_startup := snd (timer_stop (it_startup s)),
           it_startupDue := it_startupDue s + of_bool abort\<rparr>))"

definition stop_timers :: "timers \<Rightarrow> timers" where
  "stop_timers s = s\<lparr>it_stopped := True, it_startup := snd (timer_stop (it_startup s)),
     it_execution := (\<lambda>r. if it_execution s r = Unset then Unset else snd (timer_stop (it_execution s r)))\<rparr>"

text \<open>The callbacks: the one of the start runs at most once (\<open>sync.OnceFunc\<close>), those of the roles look at the flags first.\<close>

definition fire_startup :: "timers \<Rightarrow> timers" where
  "fire_startup s = s\<lparr>it_startup := Fired, it_startupDue := it_startupDue s + 1\<rparr>"

definition startupExpired :: "timers \<Rightarrow> timers" where
  "startupExpired s = s\<lparr>it_startupDue := it_startupDue s - 1, it_startupCalls := max 1 (it_startupCalls s)\<rparr>"

definition fire_execution :: "role \<Rightarrow> timers \<Rightarrow> timers" where
  "fire_execution r s = s\<lparr>it_execution := (it_execution s)(r := Fired), it_callback := (it_callback s)(r := Due)\<rparr>"

definition look_execution :: "role \<Rightarrow> timers \<Rightarrow> timers" where
  "look_execution r s =
     s\<lparr>it_callback := (it_callback s)(r := if \<not> it_stopped s \<and> \<not> it_finished s r then Calling else Idle)\<rparr>"

definition call_expired :: "role \<Rightarrow> timers \<Rightarrow> timers" where
  "call_expired r s = s\<lparr>it_callback := (it_callback s)(r := Idle), it_calls := (it_calls s)(r := it_calls s r + 1)\<rparr>"

section \<open>Interleavings\<close>

datatype timer_label =
  TReady role | TFinish role | TStop | TCancel | TStartupFires | TStartupCall | TFires role | TLooks role | TCalls role

inductive timer_step :: "timers \<Rightarrow> timer_label \<Rightarrow> timers \<Rightarrow> bool" where
  ready: "timer_step s (TReady r) (targetReady late r s)"
| finish: "timer_step s (TFinish r) (finish_role r s)"
| stop: "timer_step s TStop (stop_timers s)"
| cancel: "timer_step s TCancel (s\<lparr>it_ctxDone := True\<rparr>)"
| startup_fires: "it_startup s = Armed \<Longrightarrow> timer_step s TStartupFires (fire_startup s)"
| startup_call: "0 < it_startupDue s \<Longrightarrow> timer_step s TStartupCall (startupExpired s)"
| fires: "it_execution s r = Armed \<Longrightarrow> timer_step s (TFires r) (fire_execution r s)"
| looks: "it_callback s r = Due \<Longrightarrow> timer_step s (TLooks r) (look_execution r s)"
| calls: "it_callback s r = Calling \<Longrightarrow> timer_step s (TCalls r) (call_expired r s)"

inductive_cases timer_step_cases: "timer_step s l t"

lemmas timer_defs = targetReady_def finish_role_def stop_timers_def fire_startup_def startupExpired_def
  fire_execution_def look_execution_def call_expired_def timer_stop_def Let_def

text \<open>
  The start either succeeded, and then the startup timer was stopped in time and nothing of it is left, or it did not, and then no
  execution timer exists. What is left to happen to a role is bounded by the state of its timer.
\<close>

definition timer_inv :: "timers \<Rightarrow> bool" where
  "timer_inv s \<longleftrightarrow>
     it_closes s = of_bool (it_started s) \<and>
     (it_started s \<longrightarrow> it_startup s = Halted \<and> it_startupDue s = 0 \<and> it_startupCalls s = 0 \<and> (\<forall>r. it_ready s r)) \<and>
     (\<not> it_started s \<longrightarrow> (\<forall>r. it_execution s r = Unset)) \<and>
     it_startupCalls s \<le> 1 \<and>
     (0 < it_startupDue s + it_startupCalls s \<longrightarrow> it_stopped s \<or> it_startup s = Fired) \<and>
     (\<forall>r. it_execution s r \<noteq> Fired \<longrightarrow> it_calls s r = 0 \<and> it_callback s r = Idle) \<and>
     (\<forall>r. it_calls s r \<le> 1 \<and> (it_callback s r \<noteq> Idle \<longrightarrow> it_calls s r = 0))"

lemma role_all: "(\<forall>r. P r) \<longleftrightarrow> P Contestant \<and> P Interactor"
  by (metis role.exhaust)

text \<open>The operations keep the two halves of the invariant: what the start and its deadline did, and what each role's timer did.\<close>

lemma targetReady_cases:
  obtains "targetReady late r s = s" | "targetReady late r s = s\<lparr>it_ready := (it_ready s)(r := True)\<rparr>" "\<not> it_started s"
  | "targetReady late r s = s\<lparr>it_ready := (it_ready s)(r := True), it_startup := it_startup s, it_stopped := True\<rparr>"
    "\<not> it_started s" "it_startup s \<noteq> Armed"
  | "targetReady late r s = s\<lparr>it_ready := (it_ready s)(r := True), it_startup := Halted, it_ctxDone := True, it_stopped := True\<rparr>"
    "\<not> it_started s" "it_startup s = Armed"
  | "targetReady late r s = s\<lparr>it_ready := (it_ready s)(r := True), it_startup := Halted, it_execution := (\<lambda>_. Armed),
       it_started := True, it_closes := it_closes s + 1\<rparr>"
    "\<not> it_started s" "\<not> it_stopped s" "it_startup s = Armed" "\<forall>q. ((it_ready s)(r := True)) q"
proof (cases "it_stopped s \<or> it_started s \<or> it_ctxDone s")
  case True
  then have "targetReady late r s = s" by (simp add: targetReady_def)
  then show thesis using that(1) by blast
next
  case ok: False
  show thesis
  proof (cases "((it_ready s)(r := True)) Contestant \<and> ((it_ready s)(r := True)) Interactor")
    case False
    then have "targetReady late r s = s\<lparr>it_ready := (it_ready s)(r := True)\<rparr>"
      using ok by (auto simp: targetReady_def Let_def)
    then show thesis using that(2) ok by blast
  next
    case True
    then have both: "\<forall>q. ((it_ready s)(r := True)) q" by (simp only: role_all)
    show thesis
    proof (cases "it_startup s = Armed")
      case False
      then have "targetReady late r s = s\<lparr>it_ready := (it_ready s)(r := True), it_startup := it_startup s, it_stopped := True\<rparr>"
        using ok True by (simp add: targetReady_def timer_stop_def Let_def)
      then show thesis using that(3) ok False by blast
    next
      case armed: True
      show thesis
      proof (cases late)
        case True
        then have "targetReady late r s = s\<lparr>it_ready := (it_ready s)(r := True), it_startup := Halted, it_ctxDone := True, it_stopped := True\<rparr>"
          using ok armed both by (simp add: targetReady_def timer_stop_def Let_def)
        then show thesis using that(4) ok armed by blast
      next
        case False
        then have "targetReady late r s = s\<lparr>it_ready := (it_ready s)(r := True), it_startup := Halted, it_execution := (\<lambda>_. Armed),
           it_started := True, it_closes := it_closes s + 1\<rparr>"
          using ok armed both by (simp add: targetReady_def timer_stop_def Let_def)
        then show thesis using that(5) ok armed both by blast
      qed
    qed
  qed
qed

lemma timer_step_inv: "timer_step s l t \<Longrightarrow> timer_inv s \<Longrightarrow> timer_inv t"
proof (induction rule: timer_step.induct)
  case (ready s r late)
  show ?case
    by (rule targetReady_cases [of late r s]) (use ready in \<open>auto simp: timer_inv_def\<close>)
next
  case (finish s r)
  then show ?case by (cases "it_started s") (auto simp: timer_inv_def timer_defs split: if_splits)
qed (auto simp: timer_inv_def timer_defs split: if_splits)

interpretation timer_system: inductive_invariant "\<lambda>s. \<exists>c. s = newInteractiveExecutionTimers c" timer_step timer_inv
proof unfold_locales
  show "timer_inv s" if "\<exists>c. s = newInteractiveExecutionTimers c" for s
    using that by (auto simp: timer_inv_def newInteractiveExecutionTimers_def)
  show "timer_inv t" if "timer_inv s" "timer_step s l t" for s l t
    using that(2,1) by (rule timer_step_inv)
qed


text \<open>Once the start has been given up, nothing is ever released.\<close>

definition given_up :: "timers \<Rightarrow> bool" where
  "given_up s \<longleftrightarrow> it_closes s = 0 \<and> \<not> it_started s \<and> (it_stopped s \<or> it_startup s = Fired)"

lemma given_up_step: "timer_step s l t \<Longrightarrow> given_up s \<Longrightarrow> given_up t"
proof (induction rule: timer_step.induct)
  case (ready s r late)
  show ?case by (rule targetReady_cases [of late r s]) (use ready in \<open>auto simp: given_up_def\<close>)
qed (auto simp: given_up_def timer_defs)

lemma given_up_trace: "trace timer_step s ls t \<Longrightarrow> given_up s \<Longrightarrow> given_up t"
  by (induction rule: trace.induct) (auto intro: given_up_step)

section \<open>Properties\<close>

abbreviation timers_reachable :: "timers \<Rightarrow> bool" where
  "timers_reachable \<equiv> reachable (\<lambda>s. \<exists>c. s = newInteractiveExecutionTimers c) timer_step"

text \<open>
  C33. The start of an interactive run. In every interleaving the two targets are released at most once, only when both are ready,
  and never once the deadline of the start has fired or the run was given up; the deadline of the start is
  reported at most once and never for a run that was released; the deadline of a role is reported at most once and only after the release.
\<close>

theorem interactive_start_safe:
  assumes "timers_reachable s"
  shows "it_closes s \<le> 1 \<and>
    (0 < it_closes s \<longrightarrow> (\<forall>r. it_ready s r) \<and> it_startupCalls s = 0 \<and> it_startupDue s = 0) \<and>
    it_startupCalls s \<le> 1 \<and> (\<forall>r. it_calls s r \<le> 1 \<and> (0 < it_calls s r \<longrightarrow> 0 < it_closes s)) \<and>
    (\<forall>ls t. trace timer_step s ls t \<longrightarrow> it_closes s = 0 \<and> (it_stopped s \<or> it_startup s = Fired) \<longrightarrow> it_closes t = 0)"
proof -
  have i: "timer_inv s" using assms by (rule timer_system.holds)
  have g: "it_closes t = 0" if "trace timer_step s ls t" "it_closes s = 0" "it_stopped s \<or> it_startup s = Fired" for ls t
  proof -
    have "given_up s" using i that(2,3) by (auto simp: given_up_def timer_inv_def)
    then show ?thesis using given_up_trace [OF that(1)] by (simp add: given_up_def)
  qed
  note I = i [unfolded timer_inv_def]
  have closes: "it_closes s = of_bool (it_started s)" using I by (rule conjunct1)
  have started: "it_started s \<Longrightarrow> (\<forall>r. it_ready s r) \<and> it_startupCalls s = 0 \<and> it_startupDue s = 0" using I by simp
  have calls: "it_calls s r \<le> 1" "0 < it_calls s r \<Longrightarrow> it_started s" for r
  proof -
    show "it_calls s r \<le> 1" using I by simp
    assume c: "0 < it_calls s r"
    then have "it_execution s r = Fired" using I by (cases "it_execution s r = Fired") simp_all
    then show "it_started s" using I by (cases "it_started s") simp_all
  qed
  show ?thesis
  proof (intro conjI allI impI)
    show "it_closes s \<le> 1" by (simp add: closes)
    show "it_startupCalls s \<le> 1" using I by simp
    show "it_ready s r" "it_startupCalls s = 0" "it_startupDue s = 0" if "0 < it_closes s" for r
      using that started by (simp_all add: closes)
    show "it_calls s r \<le> 1" "0 < it_calls s r \<Longrightarrow> 0 < it_closes s" for r
      using calls [of r] by (simp_all add: closes)
    show "it_closes t = 0" if "trace timer_step s ls t" "it_closes s = 0 \<and> (it_stopped s \<or> it_startup s = Fired)" for ls t
      using g that by blast
  qed
qed

text \<open>Both targets get ready, and the contestant overruns its time.\<close>

theorem interactive_start_safe_witness:
  "\<exists>s. timers_reachable s \<and> it_closes s = 1 \<and> it_calls s Contestant = 1 \<and> (\<forall>r. it_ready s r) \<and> it_startupCalls s = 0"
proof -
  define s1 where "s1 = targetReady False Contestant (newInteractiveExecutionTimers False)"
  define s2 where "s2 = targetReady False Interactor s1"
  define s3 where "s3 = fire_execution Contestant s2"
  define s4 where "s4 = look_execution Contestant s3"
  define s5 where "s5 = call_expired Contestant s4"
  have s1: "s1 = (newInteractiveExecutionTimers False)\<lparr>it_ready := (\<lambda>_. False)(Contestant := True)\<rparr>"
    by (simp add: s1_def targetReady_def newInteractiveExecutionTimers_def Let_def)
  have s2: "it_execution s2 = (\<lambda>_. Armed)" "it_closes s2 = 1" "it_callback s2 = (\<lambda>_. Idle)" "it_calls s2 = (\<lambda>_. 0)"
      "\<not> it_stopped s2" "\<not> it_finished s2 Contestant"
    by (simp_all add: s2_def s1 targetReady_def newInteractiveExecutionTimers_def timer_stop_def Let_def)
  have r0: "timers_reachable (newInteractiveExecutionTimers False)" by (rule reachable.start) blast
  have r1: "timers_reachable s1" unfolding s1_def by (rule reachable.extend [OF r0 timer_step.ready])
  have r2: "timers_reachable s2" unfolding s2_def by (rule reachable.extend [OF r1 timer_step.ready])
  have r3: "timers_reachable s3" unfolding s3_def
    by (rule reachable.extend [OF r2 timer_step.fires]) (simp add: s2)
  have r4: "timers_reachable s4" unfolding s4_def
    by (rule reachable.extend [OF r3 timer_step.looks]) (simp add: s3_def fire_execution_def)
  have r5: "timers_reachable s5" unfolding s5_def
    by (rule reachable.extend [OF r4 timer_step.calls]) (simp add: s4_def s3_def look_execution_def fire_execution_def s2)
  have "it_closes s5 = 1" "it_calls s5 Contestant = 1"
    by (simp_all add: s5_def s4_def s3_def call_expired_def look_execution_def fire_execution_def s2)
  moreover have "(\<forall>r. it_ready s5 r) \<and> it_startupCalls s5 = 0"
    using interactive_start_safe [OF r5] calculation(1) by simp
  ultimately show ?thesis using r5 by blast
qed

end
