(* ===== verification/Communication_Verdict.thy ===== *)
theory Communication_Verdict
  imports Interactive
begin

text \<open>
  The verdicts of communication requests, in internal/execute/communication.go and communication_v2.go: what the manager reports,
  the response of a judged run (version 1), and that of a match between two programs (version 2). A time is a number, 0
  being the zero time; the runs of the programs are given by their results.
\<close>

section \<open>Processes\<close>

record communicationProcess =
  cp_entryPoint :: string
  cp_manager :: bool
  cp_participant :: int
  cp_request :: RunRequest
  cp_result :: execResult
  cp_completedAt :: int
  cp_wallDeadlineAt :: int
  cp_resultProtocolAt :: int

definition exited_zero :: "execResult \<Rightarrow> bool" where
  "exited_zero res \<longleftrightarrow> er_ExitCode res = Some 0"

definition exited_nonzero :: "execResult \<Rightarrow> bool" where
  "exited_nonzero res \<longleftrightarrow> (\<exists>c. er_ExitCode res = Some c \<and> c \<noteq> 0)"

definition communicationProcessFailed :: "communicationProcess \<Rightarrow> bool" where
  "communicationProcessFailed p \<longleftrightarrow>
     (if fst (classifyRunStatusWithoutOutput (cp_request p) (cp_result p)) \<noteq> StatusOK then True
      else \<not> exited_zero (cp_result p))"

definition communicationParticipantFailureOverridesManager :: "communicationProcess \<Rightarrow> int \<Rightarrow> bool" where
  "communicationParticipantFailureOverridesManager p managerCompletedAt \<longleftrightarrow>
     (if er_VerdictSource (cp_result p) = ''sandbox_helper_oom'' \<or> er_VerdictSource (cp_result p) = ''sandbox_init'' then True
      else managerCompletedAt = 0 \<or> cp_completedAt p < managerCompletedAt)"

section \<open>What the manager reports\<close>

text \<open>
  Decoding one JSON object: an error, and whether the text ended too early; or the fields, and whether nothing else follows.
\<close>

datatype 'a decoded = NotDecoded bool | Decoded 'a bool

record json_decoders =
  jd_manager :: "string \<Rightarrow> (string \<times> parsed_float option \<times> string) decoded"
  jd_match :: "string \<Rightarrow> (int \<times> int option list \<times> int) decoded"

definition communicationResultMaxBytes :: nat where "communicationResultMaxBytes = 64 * 2 ^ 10"
definition communicationMessageMaxBytes :: nat where "communicationMessageMaxBytes = 8 * 2 ^ 10"
definition communicationMatchGames :: int where "communicationMatchGames = 20"

datatype protocol_error =
    ResultUnreadable
  | ResultTooLarge
  | ResultInvalid
  | ResultIncomplete
  | ResultTrailing
  | ResultVerdict
  | ResultScore
  | ResultMessage
  | ResultWins

record communicationMatchManagerResult =
  cw_Version :: int
  cw_Wins :: "int list"
  cw_Games :: int

record communicationManagerResult =
  cr_Verdict :: string
  cr_Score :: rat
  cr_Message :: string
  cr_match :: "communicationMatchManagerResult option"

definition read_result :: "source \<Rightarrow> protocol_error + string" where
  "read_result reader =
     (case reader of
        None \<Rightarrow> Inl ResultUnreadable
      | Some content \<Rightarrow>
          (let data = take (communicationResultMaxBytes + 1) content in
           if length data > communicationResultMaxBytes then Inl ResultTooLarge else Inr data))"

definition readCommunicationManagerResult :: "json_decoders \<Rightarrow> source \<Rightarrow> protocol_error + communicationManagerResult" where
  "readCommunicationManagerResult J reader =
     and_then (read_result reader) (\<lambda>data.
       (case jd_manager J data of
          NotDecoded _ \<Rightarrow> Inl ResultInvalid
        | Decoded (verdict, score, message) alone \<Rightarrow>
            if \<not> alone then Inl ResultTrailing
            else if verdict \<noteq> ''accepted'' \<and> verdict \<noteq> ''wrong_answer'' then Inl ResultVerdict
            else
              (case score of
                 Some (Finite s) \<Rightarrow>
                   (if s < 0 \<or> s > 1 then Inl ResultScore
                    else if length message > communicationMessageMaxBytes then Inl ResultMessage
                    else Inr \<lparr>cr_Verdict = verdict, cr_Score = s, cr_Message = message, cr_match = None\<rparr>)
               | _ \<Rightarrow> Inl ResultScore)))"

definition match_counts :: "int option list \<Rightarrow> int \<Rightarrow> (int \<times> int) option" where
  "match_counts wins games =
     (case wins of
        [Some a, Some b] \<Rightarrow> if a < 0 \<or> b < 0 \<or> a > games \<or> b > games \<or> a + b \<noteq> games then None else Some (a, b)
      | _ \<Rightarrow> None)"

definition readCommunicationResult :: "json_decoders \<Rightarrow> source \<Rightarrow> int \<Rightarrow> protocol_error + communicationManagerResult" where
  "readCommunicationResult J reader version =
     (if version = 1 then readCommunicationManagerResult J reader
      else and_then (read_result reader) (\<lambda>data.
       (case jd_match J data of
          NotDecoded incomplete \<Rightarrow> Inl (if incomplete then ResultIncomplete else ResultInvalid)
        | Decoded (v, wins, games) alone \<Rightarrow>
            if \<not> alone then Inl ResultTrailing
            else if v \<noteq> 1 \<or> games \<noteq> communicationMatchGames then Inl ResultWins
            else
              (case match_counts wins games of
                 None \<Rightarrow> Inl ResultWins
               | Some (a, b) \<Rightarrow> Inr \<lparr>cr_Verdict = [], cr_Score = 0, cr_Message = [],
                   cr_match = Some \<lparr>cw_Version = v, cw_Wins = [a, b], cw_Games = games\<rparr>\<rparr>))))"

section \<open>Judged runs\<close>

definition communication_totals :: "communicationProcess list \<Rightarrow> RunResponse \<Rightarrow> RunResponse" where
  "communication_totals ps response =
     fold (\<lambda>p r. r\<lparr>rs_CPUTimeMs := rs_CPUTimeMs r + er_CPUTimeMs (cp_result p),
                   rs_RawCPUTimeMs := sumRawCPUTime [rs_RawCPUTimeMs r, er_RawCPUTimeMs (cp_result p)],
                   rs_ProcessCPUTimeMs := rs_ProcessCPUTimeMs r + er_ProcessCPUTimeMs (cp_result p),
                   rs_MemoryKB := rs_MemoryKB r + er_MemoryKB (cp_result p)\<rparr>) ps response"

text \<open>The last process that is a manager.\<close>

definition manager_of :: "communicationProcess list \<Rightarrow> communicationProcess option" where
  "manager_of ps = fold (\<lambda>p m. if cp_manager p then Some p else m) ps None"

text \<open>\<open>%d\<close>.\<close>

definition show_int :: "int \<Rightarrow> string" where
  "show_int i = (if i < 0 then ''-'' @ dec (nat (- i)) else dec (nat i))"

definition participant_verdict :: "communicationProcess \<Rightarrow> verdict" where
  "participant_verdict p =
     (case classifyRunStatusWithoutOutput (cp_request p) (cp_result p) of (status, reason, source) \<Rightarrow>
        (let (status, source) =
           (if status = StatusOK \<and> \<not> exited_zero (cp_result p) then (RunStatusRE, ''exit_code'') else (status, source));
             status = (if status = RunStatusInitFail \<or> status = StatusOK then RunStatusRE else status) in
         (status,
          firstNonEmptyString [reason, er_Reason (cp_result p), ''participant '' @ show_int (cp_participant p) @ '' failed''],
          ''participant:'' @ show_int (cp_participant p) @ '':'' @ firstNonEmptyString [source, ''runtime''])))"

definition manager_verdict ::
  "communicationProcess option \<Rightarrow> protocol_error + communicationManagerResult \<Rightarrow> string \<times> string \<times> string \<times> rat" where
  "manager_verdict manager protocol =
     (case manager of
        None \<Rightarrow> (RunStatusRE, ''communication manager did not start'', ''manager:init'', 0)
      | Some m \<Rightarrow>
          (case classifyRunStatusWithoutOutput (cp_request m) (cp_result m) of (status, reason, source) \<Rightarrow>
             if status \<noteq> StatusOK \<or> \<not> exited_zero (cp_result m) then
               (RunStatusRE, firstNonEmptyString [reason, er_Reason (cp_result m), ''communication manager failed''],
                ''manager:'' @ firstNonEmptyString [source, ''runtime''], 0)
             else
               (case protocol of
                  Inl e \<Rightarrow> (RunStatusRE, ''communication manager did not produce a valid manager-result-v1 result'',
                            ''manager:result_protocol'', 0)
                | Inr r \<Rightarrow>
                    if cr_Verdict r = ''accepted'' then (RunStatusAccepted, cr_Message r, ''manager'', cr_Score r)
                    else (RunStatusWA, if trim_space (cr_Message r) = [] then ''wrong answer'' else cr_Message r, ''manager'', cr_Score r))))"

definition buildCommunicationResponse ::
  "communicationProcess list \<Rightarrow> protocol_error + communicationManagerResult \<Rightarrow> int \<Rightarrow> int \<Rightarrow> communicationProcess option \<Rightarrow> RunResponse" where
  "buildCommunicationResponse ps protocol startedParticipants wallMs firstParticipantFailure =
     (let response = communication_totals ps (zero_RunResponse
            \<lparr>rs_TimeMs := wallMs, rs_WallTimeMs := wallMs, rs_StartedParticipants := startedParticipants\<rparr>);
          (status, reason, source, score) =
            (case firstParticipantFailure of
               Some p \<Rightarrow> (case participant_verdict p of (s, r, so) \<Rightarrow> (s, r, so, 0))
             | None \<Rightarrow> manager_verdict (manager_of ps) protocol) in
      response\<lparr>rs_Status := status, rs_Reason := reason, rs_VerdictSource := source, rs_Score := Some score\<rparr>)"

definition communicationFailure :: "string \<Rightarrow> string \<Rightarrow> int \<Rightarrow> RunResponse" where
  "communicationFailure reason source startedParticipants = zero_RunResponse
     \<lparr>rs_Status := RunStatusRE, rs_Reason := reason, rs_VerdictSource := source, rs_Score := Some 0,
      rs_StartedParticipants := startedParticipants\<rparr>"

section \<open>Matches\<close>

definition communicationPrograms :: "RunRequest \<Rightarrow> CommunicationSpec \<Rightarrow> RunProgram \<times> RunProgram" where
  "communicationPrograms req spec =
     fold (\<lambda>program (participant, manager).
         if prog_ID program = cm_ParticipantProgramID spec then (program, manager)
         else if prog_ID program = cm_ManagerProgramID spec then (participant, program) else (participant, manager))
       (rq_Programs req) (zero_RunProgram, zero_RunProgram)"

definition communicationParticipantPrograms :: "RunRequest \<Rightarrow> CommunicationSpec \<Rightarrow> RunProgram list" where
  "communicationParticipantPrograms req spec =
     (if cm_Version spec = 1 then [fst (communicationPrograms req spec)]
      else map (\<lambda>i. case find (\<lambda>program. prog_ID program = i) (rq_Programs req) of None \<Rightarrow> zero_RunProgram | Some p \<Rightarrow> p)
             (cm_ParticipantProgramIDs spec))"

definition match_participant :: "nat \<Rightarrow> RunProgram \<Rightarrow> MatchParticipant" where
  "match_participant seat program =
     \<lparr>mp_Seat = int seat, mp_ProgramID = prog_ID program, mp_SourceSHA256 = prog_SourceSHA256 program,
      mp_EntryPoint = prog_EntryPoint program,
      mp_Artifacts = map (\<lambda>b. \<lparr>ma_Name = bin_Name b, ma_SHA256 = bin_SHA256 b\<rparr>) (prog_Binaries program),
      mp_Status = ''not_finished'', mp_Reason = [], mp_VerdictSource = [], mp_CPUTimeMs = 0, mp_MemoryKB = 0\<rparr>"

definition communicationMatchFailure :: "RunRequest \<Rightarrow> CommunicationSpec \<Rightarrow> string \<Rightarrow> MatchResult" where
  "communicationMatchFailure req spec message =
     \<lparr>mr_Version = 1, mr_Outcome = ''judge_error'', mr_Games = communicationMatchGames, mr_Wins = None, mr_Retriable = True,
      mr_Participants = map (\<lambda>(seat, program). match_participant seat program)
        (enumerate 0 (communicationParticipantPrograms req spec)),
      mr_Message = message, mr_MatchSeed = cm_MatchSeed spec, mr_InputSHA256 = cm_InputSHA256 spec,
      mr_RuntimeFingerprint = cm_RuntimeFingerprint spec, mr_RunnerSHA256 = [], mr_ImageDigest = [], mr_ErrorCode = []\<rparr>"

definition infrastructure_failure :: "communicationProcess \<Rightarrow> bool" where
  "infrastructure_failure p \<longleftrightarrow>
     er_Status (cp_result p) = RunStatusInitFail \<or> er_VerdictSource (cp_result p) = ''sandbox_helper_oom'' \<or>
     er_VerdictSource (cp_result p) = ''sandbox_init''"

definition communicationFinalProcessStatus :: "communicationProcess \<Rightarrow> verdict" where
  "communicationFinalProcessStatus p =
     (let v = classifyRunStatusWithoutOutput (cp_request p) (cp_result p);
          timeMs = lim_TimeMs (rq_Limits (cp_request p)); memoryMB = lim_MemoryMB (rq_Limits (cp_request p)) in
      if infrastructure_failure p then v
      else if timeMs > 0 \<and> er_CPUTimeMs (cp_result p) > timeMs then (RunStatusTLE, ''cpu time limit exceeded'', ''cpu_time_final'')
      else if memoryMB > 0 \<and> er_MemoryKB (cp_result p) > memoryMB * 1024 then (RunStatusMLE, ''memory limit exceeded'', ''memory_reported'')
      else v)"

text \<open>Whether the wall-clock deadline of the process passed on its own account.\<close>

definition own_deadline :: "communicationProcess \<Rightarrow> int \<Rightarrow> bool" where
  "own_deadline p canceledAt \<longleftrightarrow>
     cp_wallDeadlineAt p \<noteq> 0 \<and> \<not> cp_completedAt p < cp_wallDeadlineAt p \<and> (canceledAt = 0 \<or> \<not> cp_wallDeadlineAt p > canceledAt)"

definition independent_fault :: "communicationProcess \<Rightarrow> int \<Rightarrow> bool" where
  "independent_fault p canceledAt =
     (case communicationFinalProcessStatus p of (status, _, source) \<Rightarrow>
        if status = StatusOK \<and> exited_zero (cp_result p) \<or> infrastructure_failure p then False
        else if exited_nonzero (cp_result p) then True
        else if own_deadline p canceledAt then True
        else source \<noteq> ''wall_time'' \<and> source \<noteq> ''stream_io'')"

definition in_seat :: "communicationProcess \<Rightarrow> 'a list \<Rightarrow> bool" where
  "in_seat p xs \<longleftrightarrow> \<not> cp_manager p \<and> 0 \<le> cp_participant p \<and> cp_participant p < int (length xs)"

definition final_seat :: "communicationProcess \<Rightarrow> MatchParticipant \<Rightarrow> MatchParticipant" where
  "final_seat p seat =
     (case communicationFinalProcessStatus p of (status, reason, source) \<Rightarrow>
        seat\<lparr>mp_CPUTimeMs := er_CPUTimeMs (cp_result p), mp_MemoryKB := er_MemoryKB (cp_result p),
             mp_Status := status, mp_Reason := reason, mp_VerdictSource := source\<rparr>)"

definition set_seat :: "(MatchParticipant \<Rightarrow> MatchParticipant) \<Rightarrow> communicationProcess \<Rightarrow> MatchParticipant list \<Rightarrow> MatchParticipant list" where
  "set_seat f p seats = (if in_seat p seats then seats[nat (cp_participant p) := f (seats ! nat (cp_participant p))] else seats)"

definition match_start :: "RunRequest \<Rightarrow> CommunicationSpec \<Rightarrow> communicationProcess list \<Rightarrow> int \<Rightarrow> int \<Rightarrow> RunResponse \<times> MatchResult" where
  "match_start req spec ps startedParticipants wallMs =
     (let m = communicationMatchFailure req spec ''competitive match did not complete'' in
      (zero_RunResponse\<lparr>rs_Status := RunStatusRE, rs_TimeMs := wallMs, rs_WallTimeMs := wallMs,
         rs_VerdictSource := ''communication:match'', rs_StartedParticipants := startedParticipants,
         rs_CPUTimeMs := sum_list (map (er_CPUTimeMs \<circ> cp_result) ps),
         rs_ProcessCPUTimeMs := sum_list (map (er_ProcessCPUTimeMs \<circ> cp_result) ps),
         rs_MemoryKB := sum_list (map (er_MemoryKB \<circ> cp_result) ps)\<rparr>,
       m\<lparr>mr_Participants := fold (\<lambda>p. set_seat (\<lambda>s. (final_seat p s)\<lparr>mp_EntryPoint := cp_entryPoint p\<rparr>) p) ps (mr_Participants m)\<rparr>))"

text \<open>What keeps a match from being decided at all.\<close>

definition match_refusal :: "communicationProcess list \<Rightarrow> int \<Rightarrow> bool \<Rightarrow> (string \<times> string) option" where
  "match_refusal ps startedParticipants requestErr =
     first_error
       [reject_if requestErr (''competitive match request was canceled'', ''communication:request_canceled''),
        reject_if (startedParticipants \<noteq> 2 \<or> manager_of ps = None)
          (''competitive match did not start both participants and manager'', ''communication:startup''),
        reject_if (list_ex (\<lambda>p. \<not> cp_manager p \<and> infrastructure_failure p) ps)
          (''competitive participant sandbox failed'', ''communication:participant:init'')]"

definition match_counted :: "protocol_error + communicationManagerResult \<Rightarrow> communicationMatchManagerResult option" where
  "match_counted protocol = (case protocol of Inl e \<Rightarrow> None | Inr r \<Rightarrow> cr_match r)"

definition manager_valid :: "communicationProcess \<Rightarrow> protocol_error + communicationManagerResult \<Rightarrow> int \<Rightarrow> bool" where
  "manager_valid m protocol canceledAt \<longleftrightarrow>
     \<not> own_deadline m canceledAt \<and> fst (communicationFinalProcessStatus m) = StatusOK \<and> exited_zero (cp_result m) \<and>
     match_counted protocol \<noteq> None"

definition manager_stopped_for_forfeit ::
  "communicationProcess \<Rightarrow> protocol_error + communicationManagerResult \<Rightarrow> communicationProcess option \<Rightarrow> int \<Rightarrow> bool" where
  "manager_stopped_for_forfeit m protocol firstFailure canceledAt \<longleftrightarrow>
     firstFailure \<noteq> None \<and> canceledAt \<noteq> 0 \<and> \<not> cp_completedAt m < canceledAt \<and> \<not> exited_nonzero (cp_result m) \<and>
     fst (communicationFinalProcessStatus m) = RunStatusTLE \<and>
     snd (snd (communicationFinalProcessStatus m)) = ''wall_time'' \<and> \<not> own_deadline m canceledAt \<and>
     (match_counted protocol \<noteq> None \<or>
      protocol = Inl ResultIncomplete \<and> cp_resultProtocolAt m \<noteq> 0 \<and> \<not> cp_resultProtocolAt m < canceledAt)"

text \<open>The first failure that has a cause of its own.\<close>

definition later_failure :: "int \<Rightarrow> communicationProcess \<Rightarrow> communicationProcess option \<Rightarrow> communicationProcess option" where
  "later_failure canceledAt p firstFailure =
     (if cp_manager p \<or> \<not> independent_fault p canceledAt then firstFailure
      else
        (case firstFailure of
           None \<Rightarrow> Some p
         | Some f \<Rightarrow> if \<not> independent_fault f canceledAt \<or> cp_completedAt p < cp_completedAt f then Some p else firstFailure))"

definition manager_finished_first ::
  "communicationProcess \<Rightarrow> protocol_error + communicationManagerResult \<Rightarrow> communicationProcess option \<Rightarrow> int \<Rightarrow> bool" where
  "manager_finished_first m protocol firstFailure canceledAt \<longleftrightarrow>
     manager_valid m protocol canceledAt \<and>
     (case firstFailure of
        None \<Rightarrow> True
      | Some f \<Rightarrow> \<not> independent_fault f canceledAt \<and>
          (er_VerdictSource (cp_result f) = ''stream_io'' \<or> \<not> cp_completedAt m > cp_completedAt f))"

definition also_failed :: "communicationProcess \<Rightarrow> bool \<Rightarrow> int \<Rightarrow> communicationProcess \<Rightarrow> bool" where
  "also_failed m valid canceledAt p \<longleftrightarrow>
     (if er_VerdictSource (cp_result p) = ''stream_io'' \<and> \<not> independent_fault p canceledAt \<and>
         (valid \<and> (cp_resultProtocolAt m \<noteq> 0 \<and> \<not> cp_completedAt p < cp_resultProtocolAt m \<or> \<not> cp_completedAt p < cp_completedAt m) \<or>
          canceledAt \<noteq> 0 \<and> \<not> cp_completedAt p < canceledAt) then False
      else independent_fault p canceledAt \<or> canceledAt \<noteq> 0 \<and> \<not> cp_completedAt p > canceledAt)"

text \<open>The failed seats beside that of the first failure.\<close>

definition other_failed_seats :: "communicationProcess \<Rightarrow> bool \<Rightarrow> int \<Rightarrow> communicationProcess \<Rightarrow> communicationProcess list \<Rightarrow> int list" where
  "other_failed_seats m valid canceledAt f ps =
     map cp_participant (filter (\<lambda>p. \<not> (cp_manager p \<or> cp_participant p = cp_participant f \<or> \<not> communicationProcessFailed p) \<and>
       also_failed m valid canceledAt p) ps)"

definition forfeit_wins :: "int \<Rightarrow> int \<times> int" where
  "forfeit_wins loser = (if 1 - loser = 0 then (communicationMatchGames, 0) else (0, communicationMatchGames))"

text \<open>The decision: the reason and source of a failure, or the outcome, the wins and the message.\<close>

definition match_decision ::
  "communicationProcess list \<Rightarrow> communicationProcess \<Rightarrow> protocol_error + communicationManagerResult \<Rightarrow> communicationProcess option \<Rightarrow> int \<Rightarrow>
   string \<times> string + string \<times> (int \<times> int) \<times> string \<times> communicationProcess option" where
  "match_decision ps m protocol firstFailure canceledAt =
     (let valid = manager_valid m protocol canceledAt in
      if \<not> valid \<and> \<not> manager_stopped_for_forfeit m protocol firstFailure canceledAt
      then Inl (''competitive manager process or result protocol failed independently'', ''manager:runtime'')
      else
        (let failure = fold (later_failure canceledAt) ps firstFailure in
         if manager_finished_first m protocol failure canceledAt then
           (let wins = cw_Wins (the (match_counted protocol)) in Inr (''completed'', (wins ! 0, wins ! 1), [], failure))
         else
           (case failure of
              None \<Rightarrow> Inl (''competitive manager did not produce a valid match-result-v1 result'', ''manager:result_protocol'')
            | Some f \<Rightarrow>
                if \<not> valid \<and> cp_completedAt m \<noteq> 0 \<and> cp_completedAt m < cp_completedAt f
                then Inl (''competitive manager failed before participant failure'', ''manager:runtime'')
                else if other_failed_seats m valid canceledAt f ps \<noteq> []
                then Inl (''both competitive participants failed independently; match is unscored'', ''communication:double_forfeit'')
                else Inr (''forfeit'', forfeit_wins (cp_participant f),
                          ''participant '' @ show_int (cp_participant f) @ '' forfeited all 20 games'', failure))))"

definition settled_seat ::
  "string \<Rightarrow> communicationProcess \<Rightarrow> communicationProcess option \<Rightarrow> int \<Rightarrow> communicationProcess \<Rightarrow> MatchParticipant \<Rightarrow> MatchParticipant" where
  "settled_seat outcome m failure canceledAt p s =
     (let seat = final_seat p s in
      if outcome = ''forfeit'' \<and> map_option cp_participant failure \<noteq> Some (cp_participant p) \<and> communicationProcessFailed p
      then seat\<lparr>mp_Status := ''not_finished'', mp_Reason := ''stopped after opponent forfeit'',
                mp_VerdictSource := ''communication:forfeit_shutdown''\<rparr>
      else if outcome = ''completed'' \<and> communicationProcessFailed p \<and> \<not> independent_fault p canceledAt \<and>
              cp_completedAt p > cp_completedAt m
      then seat\<lparr>mp_Status := StatusOK, mp_Reason := [], mp_VerdictSource := ''communication:manager_shutdown''\<rparr>
      else seat)"

definition match_failed :: "RunResponse \<Rightarrow> MatchResult \<Rightarrow> string \<times> string \<Rightarrow> RunResponse" where
  "match_failed response m e =
     response\<lparr>rs_Reason := fst e, rs_VerdictSource := snd e, rs_Match := Some (m\<lparr>mr_Message := fst e\<rparr>)\<rparr>"

definition buildCommunicationMatchResponse ::
  "RunRequest \<Rightarrow> CommunicationSpec \<Rightarrow> communicationProcess list \<Rightarrow> protocol_error + communicationManagerResult \<Rightarrow> int \<Rightarrow> int \<Rightarrow>
   communicationProcess option \<Rightarrow> int \<Rightarrow> bool \<Rightarrow> RunResponse" where
  "buildCommunicationMatchResponse req spec ps protocol startedParticipants wallMs firstFailure canceledAt requestErr =
     (case match_start req spec ps startedParticipants wallMs of (response, m) \<Rightarrow>
        (case match_refusal ps startedParticipants requestErr of
           Some e \<Rightarrow> match_failed response m e
         | None \<Rightarrow>
             (case match_decision ps (the (manager_of ps)) protocol firstFailure canceledAt of
                Inl e \<Rightarrow> match_failed response m e
              | Inr (outcome, wins, message, failure) \<Rightarrow>
                  response\<lparr>rs_Status := RunStatusAccepted,
                    rs_Match := Some (m\<lparr>mr_Outcome := outcome, mr_Retriable := False, mr_Wins := Some wins, mr_Message := message,
                      mr_Participants := fold (\<lambda>p. set_seat (settled_seat outcome (the (manager_of ps)) failure canceledAt p) p) ps
                        (mr_Participants m)\<rparr>)\<rparr>)))"

section \<open>Who wins\<close>

lemma manager_of_member: "manager_of ps = Some m \<Longrightarrow> m \<in> set ps \<and> cp_manager m"
proof -
  have "fold (\<lambda>p m. if cp_manager p then Some p else m) ps z = Some m \<Longrightarrow> m \<in> set ps \<and> cp_manager m \<or> z = Some m" for z
    by (induction ps arbitrary: z) (fastforce split: if_splits)+
  then show "manager_of ps = Some m \<Longrightarrow> m \<in> set ps \<and> cp_manager m" unfolding manager_of_def by blast
qed

lemma final_ok_clean:
  "fst (communicationFinalProcessStatus p) = StatusOK \<Longrightarrow> ran_clean (cp_request p) (cp_result p)"
  using classify_ok_iff [of "cp_request p" "cp_result p"]
  by (auto simp: communicationFinalProcessStatus_def Let_def split: if_splits)

text \<open>A fault of its own is a failure.\<close>

lemma independent_fault_failed: "independent_fault p c \<Longrightarrow> communicationProcessFailed p"
proof (rule ccontr)
  assume f: "independent_fault p c" and "\<not> communicationProcessFailed p"
  then have c: "fst (classifyRunStatusWithoutOutput (cp_request p) (cp_result p)) = StatusOK" "exited_zero (cp_result p)"
    by (auto simp: communicationProcessFailed_def split: if_splits)
  then have "ran_clean (cp_request p) (cp_result p)" using classify_ok_iff by blast
  then have "fst (communicationFinalProcessStatus p) = StatusOK"
    using c(1) by (auto simp: communicationFinalProcessStatus_def ran_clean_def Let_def)
  then show False using f c(2) by (auto simp: independent_fault_def split: prod.splits)
qed

lemma independent_not_infrastructure: "infrastructure_failure p \<Longrightarrow> \<not> independent_fault p c"
  by (simp add: independent_fault_def split: prod.split)

text \<open>
  After the search, the failure is the recorded one or a program with a cause of its own, and it has a cause of its own if any program
  has; without such a program the search changes nothing.
\<close>

lemma later_failure_search:
  assumes "\<And>f. z = Some f \<Longrightarrow> f \<in> S \<and> \<not> cp_manager f" "set ps \<subseteq> S"
  shows "(\<forall>f. fold (later_failure c) ps z = Some f \<longrightarrow> f \<in> S \<and> \<not> cp_manager f \<and> (z = Some f \<or> independent_fault f c)) \<and>
    ((\<exists>p \<in> set ps. \<not> cp_manager p \<and> independent_fault p c) \<or> (\<exists>f. z = Some f \<and> independent_fault f c) \<longrightarrow>
       (\<exists>f. fold (later_failure c) ps z = Some f \<and> independent_fault f c))"
  using assms
proof (induction ps arbitrary: z)
  case (Cons p ps)
  let ?z = "later_failure c p z"
  have z: "f \<in> S \<and> \<not> cp_manager f" if "?z = Some f" for f
    using that Cons.prems by (auto simp: later_failure_def split: if_splits option.splits)
  have k: "z = Some f \<or> independent_fault f c" if "?z = Some f" for f
    using that by (auto simp: later_failure_def split: if_splits option.splits)
  have i: "(\<not> cp_manager p \<and> independent_fault p c) \<or> (\<exists>f. z = Some f \<and> independent_fault f c) \<Longrightarrow>
      \<exists>f. ?z = Some f \<and> independent_fault f c"
    by (auto simp: later_failure_def split: option.splits)
  have "set ps \<subseteq> S" using Cons.prems(2) by simp
  note ih = Cons.IH [OF z this]
  have f: "fold (later_failure c) (p # ps) z = fold (later_failure c) ps ?z" by simp
  show ?case
    unfolding f using conjunct1 [OF ih] conjunct2 [OF ih] i k by (intro conjI) (blast, metis set_ConsD)
qed auto

lemma later_failure_none:
  "\<forall>p \<in> set ps. \<not> cp_manager p \<longrightarrow> \<not> independent_fault p c \<Longrightarrow> fold (later_failure c) ps z = z"
  by (induction ps) (auto simp: later_failure_def)

lemma counted_wins:
  assumes "match_counted (readCommunicationResult J reader 2) = Some r"
  shows "\<exists>a b. cw_Wins r = [a, b] \<and> 0 \<le> a \<and> 0 \<le> b \<and> a + b = 20"
proof -
  obtain data where "read_result reader = Inr data"
    using assms by (auto simp: match_counted_def readCommunicationResult_def and_then_def split: sum.splits)
  then show ?thesis
    using assms
    by (auto simp: match_counted_def readCommunicationResult_def and_then_def match_counts_def communicationMatchGames_def
        split: decoded.splits if_splits option.splits list.splits prod.splits)
qed

text \<open>
  The two ways a match is decided. It is completed when the manager ended well and reported the counts, no program failed on its own
  account, and a failure that was recorded is the closing of the program's stream or came after the end of the manager. It is forfeited by
  a program that failed, on its own account or, when no program did, as the recorded failure; the program in the other
  seat did not fail on its own account. Then the manager, if it ended well, did not finish before that failure; if it did not end well, it was
  stopped by the runner after the failure and neither exited with an error nor ran out of its own time.
\<close>

definition completed_match ::
  "communicationProcess list \<Rightarrow> protocol_error + communicationManagerResult \<Rightarrow> communicationProcess option \<Rightarrow> int \<Rightarrow> int \<times> int \<Rightarrow> bool" where
  "completed_match ps protocol recorded canceledAt w \<longleftrightarrow>
     (\<exists>m r. manager_of ps = Some m \<and> ran_clean (cp_request m) (cp_result m) \<and> exited_zero (cp_result m) \<and>
        match_counted protocol = Some r \<and> cw_Wins r = [fst w, snd w] \<and>
        (\<forall>f. recorded = Some f \<longrightarrow> er_VerdictSource (cp_result f) = ''stream_io'' \<or> cp_completedAt m \<le> cp_completedAt f)) \<and>
     (\<forall>p \<in> set ps. \<not> cp_manager p \<longrightarrow> \<not> independent_fault p canceledAt)"

definition forfeited_match ::
  "communicationProcess list \<Rightarrow> protocol_error + communicationManagerResult \<Rightarrow> communicationProcess option \<Rightarrow> int \<Rightarrow> int \<times> int \<Rightarrow> bool" where
  "forfeited_match ps protocol recorded canceledAt w \<longleftrightarrow>
     (\<exists>f \<in> set ps. \<exists>m. \<not> cp_manager f \<and> manager_of ps = Some m \<and> communicationProcessFailed f \<and>
        (independent_fault f canceledAt \<or>
         recorded = Some f \<and> (\<forall>p \<in> set ps. \<not> cp_manager p \<longrightarrow> \<not> independent_fault p canceledAt)) \<and>
        w = (if cp_participant f = 0 then (0, 20) else (20, 0)) \<and>
        (\<forall>p \<in> set ps. \<not> cp_manager p \<longrightarrow> cp_participant p \<noteq> cp_participant f \<longrightarrow> \<not> independent_fault p canceledAt) \<and>
        (if manager_valid m protocol canceledAt
         then independent_fault f canceledAt \<or>
           er_VerdictSource (cp_result f) \<noteq> ''stream_io'' \<and> cp_completedAt f < cp_completedAt m
         else recorded \<noteq> None \<and> canceledAt \<noteq> 0 \<and> canceledAt \<le> cp_completedAt m \<and>
           (cp_completedAt m = 0 \<or> cp_completedAt f \<le> cp_completedAt m)) \<and>
        \<not> exited_nonzero (cp_result m) \<and> \<not> own_deadline m canceledAt)"

lemma forfeiting_manager:
  assumes "manager_valid m protocol c \<or> manager_stopped_for_forfeit m protocol z c"
  shows "\<not> exited_nonzero (cp_result m) \<and> \<not> own_deadline m c"
  using assms by (auto simp: manager_valid_def manager_stopped_for_forfeit_def exited_zero_def exited_nonzero_def)

lemma match_decision_sound:
  assumes d: "match_decision ps m protocol firstFailure canceledAt = Inr (outcome, w, message, failure)"
    and m: "manager_of ps = Some m" and p: "protocol = readCommunicationResult J reader 2"
    and seats: "\<And>p. p \<in> set ps \<Longrightarrow> \<not> cp_manager p \<Longrightarrow> cp_participant p = 0 \<or> cp_participant p = 1"
    and f: "\<And>f. firstFailure = Some f \<Longrightarrow> f \<in> set ps \<and> \<not> cp_manager f \<and> communicationProcessFailed f"
  shows "outcome = ''completed'' \<and> completed_match ps protocol firstFailure canceledAt w \<or>
    outcome = ''forfeit'' \<and> forfeited_match ps protocol firstFailure canceledAt w"
proof -
  let ?failure = "fold (later_failure canceledAt) ps firstFailure"
  let ?own = "\<exists>p \<in> set ps. \<not> cp_manager p \<and> independent_fault p canceledAt"
  have s: "\<And>f. ?failure = Some f \<Longrightarrow> f \<in> set ps \<and> \<not> cp_manager f \<and> (firstFailure = Some f \<or> independent_fault f canceledAt)"
    "?own \<Longrightarrow> \<exists>f. ?failure = Some f \<and> independent_fault f canceledAt"
    using later_failure_search [of firstFailure "set ps" ps canceledAt] f by blast+
  have stay: "?failure = firstFailure" if "\<not> ?own" using later_failure_none that by blast
  have possible: "manager_valid m protocol canceledAt \<or> manager_stopped_for_forfeit m protocol firstFailure canceledAt"
    using d by (auto simp: match_decision_def Let_def split: if_splits)
  show ?thesis
  proof (cases "manager_finished_first m protocol ?failure canceledAt")
    case True
    then have v: "manager_valid m protocol canceledAt" "\<And>g. ?failure = Some g \<Longrightarrow> \<not> independent_fault g canceledAt"
      "\<And>g. ?failure = Some g \<Longrightarrow> er_VerdictSource (cp_result g) = ''stream_io'' \<or> cp_completedAt m \<le> cp_completedAt g"
      by (auto simp: manager_finished_first_def)
    then have r: "outcome = ''completed''" "w = (cw_Wins (the (match_counted protocol)) ! 0, cw_Wins (the (match_counted protocol)) ! 1)"
      using d True by (auto simp: match_decision_def Let_def)
    obtain r' where r': "match_counted protocol = Some r'" using v(1) by (auto simp: manager_valid_def)
    obtain a b where "cw_Wins r' = [a, b]" using counted_wins r' p by blast
    then have "cw_Wins r' = [fst w, snd w]" using r(2) r' by simp
    moreover have "ran_clean (cp_request m) (cp_result m)" "exited_zero (cp_result m)"
      using v(1) final_ok_clean [of m] by (auto simp: manager_valid_def)
    moreover have none: "\<not> ?own" using s(2) v(2) by blast
    moreover have "\<forall>f. firstFailure = Some f \<longrightarrow> er_VerdictSource (cp_result f) = ''stream_io'' \<or> cp_completedAt m \<le> cp_completedAt f"
      using v(3) stay [OF none] by simp
    ultimately have "completed_match ps protocol firstFailure canceledAt w"
      unfolding completed_match_def using m r' by (intro conjI exI [of _ m] exI [of _ r']) blast+
    then show ?thesis using r(1) by simp
  next
    case False
    obtain g where g: "?failure = Some g" "outcome = ''forfeit''" "w = forfeit_wins (cp_participant g)"
      "other_failed_seats m (manager_valid m protocol canceledAt) canceledAt g ps = []"
      and late: "\<not> (\<not> manager_valid m protocol canceledAt \<and> cp_completedAt m \<noteq> 0 \<and> cp_completedAt m < cp_completedAt g)"
      using d False by (auto simp: match_decision_def Let_def split: if_splits option.splits)
    note in_ps = s(1) [OF g(1)]
    have w: "w = (if cp_participant g = 0 then (0, 20) else (20, 0))"
      using g(3) seats in_ps by (auto simp: forfeit_wins_def communicationMatchGames_def)
    have failed: "communicationProcessFailed g" using in_ps f independent_fault_failed by blast
    have cause: "independent_fault g canceledAt \<or>
        firstFailure = Some g \<and> (\<forall>p \<in> set ps. \<not> cp_manager p \<longrightarrow> \<not> independent_fault p canceledAt)"
      using s(2) g(1) in_ps by (cases ?own) auto
    have nf: "\<not> independent_fault q canceledAt" if "q \<in> set ps" "\<not> cp_manager q" "cp_participant q \<noteq> cp_participant g" for q
    proof
      assume i: "independent_fault q canceledAt"
      then have "also_failed m (manager_valid m protocol canceledAt) canceledAt q" by (simp add: also_failed_def)
      moreover have "\<forall>p \<in> set ps. \<not> (\<not> (cp_manager p \<or> cp_participant p = cp_participant g \<or> \<not> communicationProcessFailed p) \<and>
          also_failed m (manager_valid m protocol canceledAt) canceledAt p)"
        using g(4) by (simp add: other_failed_seats_def filter_empty_conv)
      ultimately show False using that independent_fault_failed [OF i] by blast
    qed
    have manager: "if manager_valid m protocol canceledAt
        then independent_fault g canceledAt \<or> er_VerdictSource (cp_result g) \<noteq> ''stream_io'' \<and> cp_completedAt g < cp_completedAt m
        else firstFailure \<noteq> None \<and> canceledAt \<noteq> 0 \<and> canceledAt \<le> cp_completedAt m \<and>
          (cp_completedAt m = 0 \<or> cp_completedAt g \<le> cp_completedAt m)"
    proof (cases "manager_valid m protocol canceledAt")
      case True
      then show ?thesis using False unfolding g(1) by (auto simp: manager_finished_first_def)
    next
      case False
      then show ?thesis using possible late by (auto simp: manager_stopped_for_forfeit_def)
    qed
    have "forfeited_match ps protocol firstFailure canceledAt w"
      unfolding forfeited_match_def
    proof (intro bexI [of _ g] exI [of _ m] conjI)
      show "\<forall>p \<in> set ps. \<not> cp_manager p \<longrightarrow> cp_participant p \<noteq> cp_participant g \<longrightarrow> \<not> independent_fault p canceledAt"
        using nf by blast
      show "\<not> cp_manager g" "g \<in> set ps" using in_ps by blast+
      show "\<not> exited_nonzero (cp_result m)" "\<not> own_deadline m canceledAt" using forfeiting_manager [OF possible] by blast+
    qed (fact m failed cause w manager)+
    then show ?thesis using g(2) by simp
  qed
qed

section \<open>The verdicts\<close>

text \<open>
  The response of a match between two programs carries a result and no score. It has wins exactly when it is
  accepted, and then it cannot be retried: the counts are two nonnegative numbers of sum 20, the request was not canceled, both programs
  and the manager started and no sandbox of a program failed. Either the match was completed: the manager ended well within its limits,
  reported exactly these counts, and no program failed on its own account; or it was forfeited: the program of one seat failed and the other
  gets all 20 games, and that other one did not fail on its own account. Otherwise the match is unscored and can be retried.
\<close>

lemma match_verdict:
  assumes "\<And>p. p \<in> set ps \<Longrightarrow> \<not> cp_manager p \<Longrightarrow> cp_participant p = 0 \<or> cp_participant p = 1"
    and "\<And>f. firstFailure = Some f \<Longrightarrow> f \<in> set ps \<and> \<not> cp_manager f \<and> communicationProcessFailed f"
    and "protocol = readCommunicationResult J reader 2"
    and "resp = buildCommunicationMatchResponse req spec ps protocol startedParticipants wallMs firstFailure canceledAt requestErr"
  shows "\<exists>m. rs_Match resp = Some m \<and> rs_Score resp = None \<and> mr_ErrorCode m = [] \<and>
    (case mr_Wins m of
       None \<Rightarrow> rs_Status resp = RunStatusRE \<and> mr_Outcome m = ''judge_error'' \<and> mr_Retriable m
     | Some (a, b) \<Rightarrow> rs_Status resp = RunStatusAccepted \<and> rs_VerdictSource resp = ''communication:match'' \<and> \<not> mr_Retriable m \<and> 0 \<le> a \<and> 0 \<le> b \<and> a + b = 20 \<and>
         \<not> requestErr \<and> startedParticipants = 2 \<and> (\<forall>p \<in> set ps. \<not> cp_manager p \<longrightarrow> \<not> infrastructure_failure p) \<and>
         (mr_Outcome m = ''completed'' \<and> completed_match ps protocol firstFailure canceledAt (a, b) \<or>
          mr_Outcome m = ''forfeit'' \<and> forfeited_match ps protocol firstFailure canceledAt (a, b)))"
proof -
  obtain r m where s: "match_start req spec ps startedParticipants wallMs = (r, m)" by (cases "match_start req spec ps startedParticipants wallMs")
  have r: "rs_Score r = None" "rs_Status r = RunStatusRE" "mr_Wins m = None" "mr_Outcome m = ''judge_error''" "mr_Retriable m"
    "mr_ErrorCode m = []" "rs_VerdictSource r = ''communication:match''"
    using s by (auto simp: match_start_def communicationMatchFailure_def zero_RunResponse_def Let_def)
  have failed: ?thesis if "resp = match_failed r m e" for e
    using r that by (simp add: match_failed_def)
  show ?thesis
  proof (cases "match_refusal ps startedParticipants requestErr")
    case (Some e)
    then show ?thesis using assms(4) s by (intro failed [of e]) (simp add: buildCommunicationMatchResponse_def)
  next
    case None
    then obtain g where g: "manager_of ps = Some g" "startedParticipants = 2" "\<not> requestErr"
      "\<forall>p \<in> set ps. \<not> cp_manager p \<longrightarrow> \<not> infrastructure_failure p"
      by (auto simp: match_refusal_def list_ex_iff)
    show ?thesis
    proof (cases "match_decision ps g protocol firstFailure canceledAt")
      case (Inl e)
      then show ?thesis using assms(4) s None g(1) by (intro failed [of e]) (simp add: buildCommunicationMatchResponse_def)
    next
      case (Inr t)
      obtain outcome w message failure where t: "t = (outcome, w, message, failure)" by (cases t)
      have d: "outcome = ''completed'' \<and> completed_match ps protocol firstFailure canceledAt w \<or>
          outcome = ''forfeit'' \<and> forfeited_match ps protocol firstFailure canceledAt w"
        by (rule match_decision_sound [OF Inr [unfolded t] g(1) assms(3) assms(1,2)])
      then have w: "0 \<le> fst w \<and> 0 \<le> snd w \<and> fst w + snd w = 20"
      proof
        assume "outcome = ''completed'' \<and> completed_match ps protocol firstFailure canceledAt w"
        then obtain c where "match_counted protocol = Some c" "cw_Wins c = [fst w, snd w]" unfolding completed_match_def by blast
        then show ?thesis using counted_wins [of J reader c] assms(3) by auto
      next
        assume "outcome = ''forfeit'' \<and> forfeited_match ps protocol firstFailure canceledAt w"
        then obtain f :: communicationProcess where "w = (if cp_participant f = 0 then (0, 20) else (20, 0))"
          unfolding forfeited_match_def by blast
        then show ?thesis by simp
      qed
      obtain m' where "rs_Match resp = Some m'" "rs_Score resp = None" "mr_ErrorCode m' = []" "rs_VerdictSource resp = ''communication:match''" "rs_Status resp = RunStatusAccepted" "mr_Wins m' = Some w"
        "mr_Outcome m' = outcome" "\<not> mr_Retriable m'"
        using assms(4) s None g(1) Inr t r(1,6,7) by (simp add: buildCommunicationMatchResponse_def)
      then show ?thesis using d w g by (cases w) auto
    qed
  qed
qed

lemma manager_score:
  assumes "readCommunicationManagerResult J reader = Inr r"
  shows "(cr_Verdict r = ''accepted'' \<or> cr_Verdict r = ''wrong_answer'') \<and> 0 \<le> cr_Score r \<and> cr_Score r \<le> 1"
  using assms
  by (auto simp: readCommunicationManagerResult_def and_then_def split: sum.splits decoded.splits if_splits option.splits parsed_float.splits)

lemma participant_not_accepted:
  assumes "er_Status (cp_result p) \<noteq> RunStatusAccepted"
  shows "fst (participant_verdict p) \<noteq> RunStatusAccepted"
  using assms classify_accepted [of "cp_request p" "cp_result p"]
  by (auto simp: participant_verdict_def Let_def split: prod.splits if_splits)

lemma manager_verdict_accepted:
  "fst (manager_verdict manager protocol) = RunStatusAccepted \<longleftrightarrow>
     (\<exists>m r. manager = Some m \<and> ran_clean (cp_request m) (cp_result m) \<and> exited_zero (cp_result m) \<and>
        protocol = Inr r \<and> cr_Verdict r = ''accepted'')"
proof (cases manager)
  case (Some m)
  obtain s r so where c: "classifyRunStatusWithoutOutput (cp_request m) (cp_result m) = (s, r, so)"
    by (cases "classifyRunStatusWithoutOutput (cp_request m) (cp_result m)")
  have "s = StatusOK \<longleftrightarrow> ran_clean (cp_request m) (cp_result m)" using classify_ok_iff [of "cp_request m" "cp_result m"] c by simp
  then show ?thesis using Some c by (cases protocol) (auto simp: manager_verdict_def)
qed (simp add: manager_verdict_def)

lemma manager_verdict_score:
  assumes "protocol = readCommunicationManagerResult J reader"
  shows "0 \<le> snd (snd (snd (manager_verdict manager protocol))) \<and> snd (snd (snd (manager_verdict manager protocol))) \<le> 1 \<and>
    (fst (manager_verdict manager protocol) = RunStatusRE \<longrightarrow> snd (snd (snd (manager_verdict manager protocol))) = 0)"
  using manager_score [of J reader] assms
  by (auto simp: manager_verdict_def split: option.splits prod.splits sum.splits)

text \<open>
  The response of a judged communication is accepted exactly when no participant failed first, the manager ended
  with exit code 0 within its limits, and the one object it reported says accepted; there is always a score between 0 and 1, which is 0 when
  a participant failed or the run ended in a runtime error.
\<close>

lemma communication_verdict:
  assumes "\<And>f. firstFailure = Some f \<Longrightarrow> er_Status (cp_result f) \<noteq> RunStatusAccepted"
    and "protocol = readCommunicationManagerResult J reader"
    and "resp = buildCommunicationResponse ps protocol startedParticipants wallMs firstFailure"
  shows "(rs_Status resp = RunStatusAccepted \<longleftrightarrow> firstFailure = None \<and>
      (\<exists>m r. manager_of ps = Some m \<and> ran_clean (cp_request m) (cp_result m) \<and> exited_zero (cp_result m) \<and>
        protocol = Inr r \<and> cr_Verdict r = ''accepted'')) \<and>
    (\<exists>score. rs_Score resp = Some score \<and> 0 \<le> score \<and> score \<le> 1 \<and>
      (firstFailure \<noteq> None \<or> rs_Status resp = RunStatusRE \<longrightarrow> score = 0))"
proof (cases firstFailure)
  case None
  obtain s r so sc where v: "manager_verdict (manager_of ps) protocol = (s, r, so, sc)" by (cases "manager_verdict (manager_of ps) protocol")
  have f: "rs_Status resp = s" "rs_Score resp = Some sc"
    using assms(3) None v by (simp_all add: buildCommunicationResponse_def Let_def)
  show ?thesis
    unfolding f using manager_verdict_accepted [of "manager_of ps" protocol] manager_verdict_score [OF assms(2), of "manager_of ps"] None v
    by simp
next
  case (Some p)
  obtain s r so where v: "participant_verdict p = (s, r, so)" by (cases "participant_verdict p")
  have f: "rs_Status resp = s" "rs_Score resp = Some 0"
    using assms(3) Some v by (simp_all add: buildCommunicationResponse_def Let_def)
  show ?thesis unfolding f using participant_not_accepted [OF assms(1) [OF Some]] Some v by simp
qed

end
