(* ===== verification/Communication_Run.thy ===== *)
theory Communication_Run
  imports Communication_Verdict Run_Communication
begin

text \<open>
  \<open>runCommunication\<close> of internal/execute/communication.go: the admission of a communication request, the preparation of its
  programs, the coordinator that collects the results of the processes, and the response. The workspaces, the downloads, the cgroup
  and the processes are parameters; what reaches the coordinator is a list of events in the order in which it receives them.
\<close>

section \<open>The runner\<close>

record CompetitiveIdentity =
  id_RuntimeFingerprint :: string
  id_RunnerSHA256 :: string
  id_ImageDigest :: string

record communication_service = exec_service +
  cs_CompetitiveIdentity :: CompetitiveIdentity
  cs_CgroupParentDir :: string
  cs_CommunicationEnabled :: bool
  cs_MaxParticipants :: int
  cs_MemoryBudgetMB :: int
  cs_CPUCount :: int
  cs_WallBudgetMs :: int
  cs_WorkRootMaxBytes :: int

definition communicationParticipantWorkspaceBytes :: int where "communicationParticipantWorkspaceBytes = 8 * 2 ^ 20"
definition communicationWorkspaceReserveDivisor :: int where "communicationWorkspaceReserveDivisor = 5"
definition sandboxThreadLimit :: int where "sandboxThreadLimit = 128"
definition SingleCPUQuotaMicros :: int where "SingleCPUQuotaMicros = 100000"
definition DefaultCPUPeriodMicros :: int where "DefaultCPUPeriodMicros = 100000"
definition CommunicationParticipantUIDMin :: int where "CommunicationParticipantUIDMin = 64937"
definition CommunicationParticipantUIDMax :: int where "CommunicationParticipantUIDMax = 65000"
definition CommunicationManagerUID :: int where "CommunicationManagerUID = 65531"

definition CommunicationParticipantSlots :: int where
  "CommunicationParticipantSlots = CommunicationParticipantUIDMax - CommunicationParticipantUIDMin + 1"

text \<open>\<open>None\<close> is the second result being false; \<open>communicationParticipantIdentity\<close> panics on it.\<close>

definition CommunicationParticipantUIDForIndex :: "int \<Rightarrow> int option" where
  "CommunicationParticipantUIDForIndex index =
     (if index < 0 \<or> index \<ge> CommunicationParticipantSlots then None else Some (CommunicationParticipantUIDMax - index))"

definition IsReservedCommunicationIdentity :: "int \<Rightarrow> bool" where
  "IsReservedCommunicationIdentity i \<longleftrightarrow>
     i = CommunicationManagerUID \<or> i \<ge> CommunicationParticipantUIDMin \<and> i \<le> CommunicationParticipantUIDMax"

definition supportsCommunicationV1 :: "communication_service \<Rightarrow> bool" where
  "supportsCommunicationV1 sv =
     SupportsCommunicationV1 \<lparr>op_DeploymentTarget = sv_DeploymentTarget sv, op_ExecutionTransport = TransportEmbedded,
       op_SandboxBackend = BackendHelper\<rparr> (cs_CgroupParentDir sv) (cs_CommunicationEnabled sv)"

section \<open>Admission\<close>

definition communicationWorkspaceWithinBudget :: "int \<Rightarrow> int \<Rightarrow> int \<Rightarrow> int \<Rightarrow> int \<times> bool" where
  "communicationWorkspaceWithinBudget participantCount participantBytes managerBytes workRootBytes =
     (if participantCount < MinCommunicationParticipants \<or> participantBytes \<le> 0 \<or> managerBytes \<le> 0 \<or> workRootBytes \<le> 0
      then (0, False)
      else
        (let reserve = workRootBytes div communicationWorkspaceReserveDivisor in
         if managerBytes > MaxInt64 - reserve then (MaxInt64, False)
         else if participantBytes > (MaxInt64 - managerBytes - reserve) div participantCount then (MaxInt64, False)
         else
           (let declared = participantCount * participantBytes + managerBytes + reserve in (declared, declared \<le> workRootBytes))))"

definition decoded_bytes :: "Binary \<Rightarrow> int option \<Rightarrow> int option" where
  "decoded_bytes b acc =
     (case acc of
        None \<Rightarrow> None
      | Some n \<Rightarrow>
          (case b64_stream_decode (bin_DataB64 b) of
             None \<Rightarrow> None
           | Some content \<Rightarrow> if int (length content) > MaxInt64 - n then None else Some (n + int (length content))))"

definition communicationProgramDecodedBytes :: "RunProgram \<Rightarrow> int option" where
  "communicationProgramDecodedBytes program = fold decoded_bytes (prog_Binaries program) (Some 0)"

definition communicationProgramRequest :: "RunRequest \<Rightarrow> RunProgram \<Rightarrow> Limits \<Rightarrow> RunRequest" where
  "communicationProgramRequest req program limits = zero_RunRequest
     \<lparr>rq_Lang := prog_Lang program, rq_Binaries := prog_Binaries program, rq_EntryPoint := prog_EntryPoint program,
      rq_Limits := limits, rq_CaptureLimits := rq_CaptureLimits req, rq_ProblemID := rq_ProblemID req,
      rq_RuntimeProfile := rq_RuntimeProfile req\<rparr>"

definition participant_limits :: "Limits \<Rightarrow> Limits" where
  "participant_limits l =
     (if lim_WorkspaceBytes l \<le> 0 \<or> lim_WorkspaceBytes l > communicationParticipantWorkspaceBytes
      then l\<lparr>lim_WorkspaceBytes := communicationParticipantWorkspaceBytes\<rparr> else l)"

text \<open>A failure: the reason and the source of the verdict.\<close>

type_synonym comm_failure = "string \<times> string"

definition wall_allowance :: "communication_service \<Rightarrow> int \<Rightarrow> int \<Rightarrow> int \<times> bool" where
  "wall_allowance sv seats timeMs =
     communicationWallAllowanceMs (sv_DeploymentTarget sv) (cs_CgroupParentDir sv) seats (cs_CPUCount sv)
       (max timeMs (RawLimitMillis (sv_CPUNormalizer sv) timeMs))"

text \<open>The budgets of a Cloud Run instance: a failure, or the wall-clock allowances of the participants and of the manager.\<close>

definition cloud_budgets ::
  "communication_service \<Rightarrow> RunRequest \<Rightarrow> CommunicationSpec \<Rightarrow> RunProgram list \<Rightarrow> RunProgram \<Rightarrow> Limits \<Rightarrow> Limits \<Rightarrow> comm_failure + int \<times> int" where
  "cloud_budgets sv req spec participants manager pl ml =
     (let seats = cm_ParticipantCount spec; admission = ''communication:admission'';
          memory = communicationMemoryWithinBudget seats (lim_MemoryMB (rq_Limits req)) (cs_MemoryBudgetMB sv);
          workspace = communicationWorkspaceWithinBudget seats (lim_WorkspaceBytes pl) (lim_WorkspaceBytes ml) (cs_WorkRootMaxBytes sv);
          fits = (\<lambda>program l. case communicationProgramDecodedBytes program of None \<Rightarrow> False | Some n \<Rightarrow> n \<le> lim_WorkspaceBytes l);
          pw = wall_allowance sv seats (lim_TimeMs pl); mw = wall_allowance sv seats (lim_TimeMs ml) in
      checked (first_error
        [reject_if (\<not> snd memory)
           (''communication declared memory '' @ show_int (fst memory) @ '' MiB exceeds runner budget '' @
             show_int (cs_MemoryBudgetMB sv) @ '' MiB'', admission),
         reject_if (\<not> snd workspace)
           (''communication declared workspace '' @ show_int (fst workspace) @ '' bytes exceeds runner budget '' @
             show_int (cs_WorkRootMaxBytes sv) @ '' bytes'', admission),
         reject_if (\<not> list_all (\<lambda>p. fits p pl) participants)
           (''communication participant artifacts exceed workspace policy'', admission),
         reject_if (\<not> fits manager ml) (''communication manager artifacts exceed workspace policy'', admission),
         reject_if (\<not> snd pw \<or> fst pw > cs_WallBudgetMs sv)
           (''communication participant wall allowance exceeds runner budget'', admission),
         reject_if (\<not> snd mw \<or> fst mw > cs_WallBudgetMs sv)
           (''communication manager wall allowance exceeds runner budget'', admission)])
        (Inr (fst pw, fst mw)))"

definition communication_admission ::
  "communication_service \<Rightarrow> env \<Rightarrow> (comm_error \<Rightarrow> string) \<Rightarrow> RunRequest \<Rightarrow> CommunicationSpec \<Rightarrow> comm_failure + int \<times> int" where
  "communication_admission sv E textof req spec =
     (let participants = communicationParticipantPrograms req spec; manager = snd (communicationPrograms req spec);
          pl = participant_limits (rq_Limits req); ml = communicationManagerLimits (rq_Limits req);
          own = id_RuntimeFingerprint (cs_CompetitiveIdentity sv) in
      checked (first_error
        [reject_if (\<not> supportsCommunicationV1 sv)
           (''CommunicationJudge unsupported: communication-v1 requires an explicitly enabled Cloud Run embedded helper or a self-hosted cgroup runner'',
            ''communication:capability''),
         map_option (\<lambda>e. (''invalid communication request: '' @ textof e, ''communication:request'')) (ValidateCommunication E req),
         reject_if (cm_Version spec = 2 \<and> (own = [] \<or> cm_RuntimeFingerprint spec \<noteq> own))
           (''competitive runtime fingerprint is unavailable or does not match the pinned runner'', ''communication:runtime_fingerprint''),
         reject_if (cm_ParticipantCount spec > cs_MaxParticipants sv)
           (''communication participant count '' @ show_int (cm_ParticipantCount spec) @ '' exceeds runner limit '' @
             show_int (cs_MaxParticipants sv), ''communication:admission'')])
        (if sv_DeploymentTarget sv = TargetCloudRun then cloud_budgets sv req spec participants manager pl ml
         else Inr (lim_TimeMs pl, lim_TimeMs ml)))"

section \<open>Preparation\<close>

record communicationPreparedProcess =
  pp_entryPoint :: string
  pp_args :: "string list"
  pp_request :: RunRequest

text \<open>
  The workspace of a program: its preparation, the path of the executable relative to the box, and the executable under its reserved
  name (\<open>None\<close> when it is refused).
\<close>

record program_host =
  ph_Run :: run_host
  ph_Relative :: "string \<Rightarrow> string"
  ph_Canonical :: "string list \<Rightarrow> string option"

definition prepareCommunicationProcess ::
  "program_host \<Rightarrow> RuntimeTuningConfig \<Rightarrow> RunRequest \<Rightarrow> string \<Rightarrow> string + communicationPreparedProcess" where
  "prepareCommunicationProcess H tuning req label =
     (case prepareInteractiveCommand (ph_Run H) tuning req label of
        Inl e \<Rightarrow> Inl e
      | Inr args \<Rightarrow>
          (case ph_Canonical H args of
             None \<Rightarrow> Inl (label @ '' executable canonicalization failed'')
           | Some executable \<Rightarrow>
               Inr \<lparr>pp_entryPoint = (if args = [] then [] else ph_Relative H (hd args)), pp_args = executable # tl args,
                    pp_request = req\<rparr>))"


definition communicationWorkspaceRemaining :: "int option \<Rightarrow> int \<Rightarrow> int option" where
  "communicationWorkspaceRemaining usage limit =
     (case usage of None \<Rightarrow> None | Some bytes \<Rightarrow> if bytes > limit then None else Some (limit - bytes))"

definition writeCommunicationDataFile :: "downloads \<Rightarrow> string option \<Rightarrow> string \<Rightarrow> string \<Rightarrow> int \<Rightarrow> string + string" where
  "writeCommunicationDataFile D tempFails inline rawURL maxBytes =
     (if trim_space rawURL = [] then
        (if int (length inline) > maxBytes then Inl ''communication data exceeds remaining manager workspace''
         else case tempFails of Some e \<Rightarrow> Inl e | None \<Rightarrow> Inr inline)
      else if maxBytes \<le> 0 then Inl ''communication manager workspace is full''
      else
        (case fst (openStdinURL D rawURL maxBytes None) of
           Inl e \<Rightarrow> Inl e
         | Inr body \<Rightarrow> writeTempFileFromReader tempFails body (dl_read_error D rawURL) maxBytes))"

text \<open>The free blocks and the block size of the file system, when \<open>statfs\<close> gives them.\<close>

definition communicationWorkRootHasReserve :: "(int \<times> int) option \<Rightarrow> int \<Rightarrow> bool \<times> int" where
  "communicationWorkRootHasReserve stats reserveBytes =
     (if reserveBytes < 0 then (False, 0)
      else
        (case stats of
           None \<Rightarrow> (False, 0)
         | Some (bavail, bsize) \<Rightarrow>
             if bsize \<le> 0 then (False, 0)
             else if bavail > MaxInt64 div bsize then (True, MaxInt64)
             else (bavail * bsize \<ge> reserveBytes, bavail * bsize)))"

record cgroup_limits =
  cg_MemoryMaxBytes :: int
  cg_PidsMax :: int
  cg_CPUQuotaMicros :: int
  cg_CPUPeriodMicros :: int

definition communication_group :: "int \<Rightarrow> Limits \<Rightarrow> cgroup_limits" where
  "communication_group participantCount l =
     \<lparr>cg_MemoryMaxBytes = (participantCount * lim_MemoryMB l + communicationManagerMemoryMB) * 1024 * 1024,
      cg_PidsMax = (participantCount + 1) * (sandboxThreadLimit + 16),
      cg_CPUQuotaMicros = (participantCount + 1) * SingleCPUQuotaMicros, cg_CPUPeriodMicros = DefaultCPUPeriodMicros\<rparr>"

record cgroup_host =
  gh_EnableParent :: bool
  gh_CreateRunGroup :: "cgroup_limits \<Rightarrow> bool"
  gh_EnableGroup :: bool

text \<open>Whether the cgroup is set up, and whether there is one.\<close>

definition createCommunicationCgroup :: "cgroup_host \<Rightarrow> string \<Rightarrow> int \<Rightarrow> Limits \<Rightarrow> bool option" where
  "createCommunicationCgroup G parent participantCount l =
     (if trim_space parent = [] then Some False
      else if \<not> gh_EnableParent G \<or> \<not> gh_CreateRunGroup G (communication_group participantCount l) \<or> \<not> gh_EnableGroup G then None
      else Some True)"

text \<open>The files the manager inherits, from descriptor 6 on, and its arguments.\<close>

datatype manager_file = FromParticipant nat | ToParticipant nat | ResultWrite

definition manager_files :: "nat \<Rightarrow> manager_file list" where
  "manager_files n = concat (map (\<lambda>i. [FromParticipant i, ToParticipant i]) [0..<n]) @ [ResultWrite]"

definition fd_path :: "nat \<Rightarrow> string" where "fd_path fd = ''/proc/self/fd/'' @ dec fd"

definition manager_args :: "string list \<Rightarrow> string \<times> string \<Rightarrow> nat \<Rightarrow> string option \<Rightarrow> string list" where
  "manager_args args paths n seed =
     args @ [fst paths, snd paths, fd_path (6 + length (manager_files n) - 1), dec n] @
     concat (map (\<lambda>i. [fd_path (6 + i * 2), fd_path (6 + i * 2 + 1)]) [0..<n]) @ (case seed of None \<Rightarrow> [] | Some s \<Rightarrow> [s])"

text \<open>
  What is started: the programs with the user each runs as, the manager, the wall-clock allowances, the contents of the two
  files of the manager, and whether there is a cgroup.
\<close>

record communication_start =
  go_Participants :: "(communicationPreparedProcess \<times> int option) list"
  go_Manager :: communicationPreparedProcess
  go_Walls :: "int \<times> int"
  go_Input :: string
  go_Answer :: string
  go_Cgroup :: bool

text \<open>
  The host: the programs, the clones of the first participant, the bytes in the manager's workspace before each of its two files is
  written, the files, whether the input can be read again, the free space of the work root, the cgroup, and the pipes (\<open>Some False\<close>
  when one cannot be made, \<open>Some True\<close> when its owner cannot be set).
\<close>

record communication_host =
  ch_env :: env
  ch_error_text :: "comm_error \<Rightarrow> string"
  ch_Participant :: "nat \<Rightarrow> program_host"
  ch_Clone :: "nat \<Rightarrow> string list \<Rightarrow> string list option"
  ch_Manager :: program_host
  ch_Usage :: "bool \<Rightarrow> int option"
  ch_Downloads :: downloads
  ch_TempFails :: "bool \<Rightarrow> string option"
  ch_InputReadable :: bool
  ch_Paths :: "string \<times> string"
  ch_WorkRoot :: "(int \<times> int) option"
  ch_Cgroup :: cgroup_host
  ch_Pipes :: "nat \<Rightarrow> bool option"
  ch_ResultPipe :: "bool option"

definition prepare_seat ::
  "communication_host \<Rightarrow> RuntimeTuningConfig \<Rightarrow> RunRequest \<Rightarrow> CommunicationSpec \<Rightarrow> communicationPreparedProcess \<Rightarrow> nat \<Rightarrow>
   comm_failure + communicationPreparedProcess" where
  "prepare_seat H tuning req spec template i =
     (let pl = participant_limits (rq_Limits req); programs = communicationParticipantPrograms req spec;
          failure = (''participant workspace preparation failed'', ''communication:participant:init'') in
      if cm_Version spec = 2 then
        (case prepareCommunicationProcess (ch_Participant H i) tuning (communicationProgramRequest req (programs ! i) pl) ''participant'' of
           Inl _ \<Rightarrow> Inl failure | Inr p \<Rightarrow> Inr p)
      else
        (case ch_Clone H i (pp_args template) of
           None \<Rightarrow> Inl failure
         | Some args \<Rightarrow>
             Inr \<lparr>pp_entryPoint = pp_entryPoint template, pp_args = args,
                  pp_request = communicationProgramRequest req (programs ! 0) pl\<rparr>))"

definition prepare_participants ::
  "communication_host \<Rightarrow> RuntimeTuningConfig \<Rightarrow> RunRequest \<Rightarrow> CommunicationSpec \<Rightarrow> comm_failure + communicationPreparedProcess list" where
  "prepare_participants H tuning req spec =
     (case prepareCommunicationProcess (ch_Participant H 0) tuning
             (communicationProgramRequest req (communicationParticipantPrograms req spec ! 0) (participant_limits (rq_Limits req))) ''participant'' of
        Inl e \<Rightarrow> Inl (e, ''communication:participant:init'')
      | Inr template \<Rightarrow>
          loop_err (\<lambda>_ i ps. and_then (prepare_seat H tuning req spec template i) (\<lambda>p. Inr (ps @ [p]))) 0
            [1..<nat (cm_ParticipantCount spec)] [template])"

text \<open>One of the two files of the manager, the answer or the input.\<close>

definition manager_data :: "communication_host \<Rightarrow> int \<Rightarrow> bool \<Rightarrow> string \<Rightarrow> string \<Rightarrow> comm_failure + string" where
  "manager_data H limit answer inline rawURL =
     (let what = (if answer then ''answer'' else ''input'') in
      case communicationWorkspaceRemaining (ch_Usage H answer) limit of
        None \<Rightarrow> Inl (''communication manager workspace admission failed'', ''communication:admission'')
      | Some remaining \<Rightarrow>
          (case writeCommunicationDataFile (ch_Downloads H) (ch_TempFails H answer) inline rawURL remaining of
             Inl _ \<Rightarrow> Inl (''communication '' @ what @ '' materialization failed'', ''communication:'' @ what)
           | Inr content \<Rightarrow> Inr content))"

definition input_integrity :: "communication_host \<Rightarrow> CommunicationSpec \<Rightarrow> string \<Rightarrow> comm_failure option" where
  "input_integrity H spec content =
     (if cm_Version spec \<noteq> 2 then None
      else if \<not> ch_InputReadable H then Some (''communication input integrity check failed'', ''communication:input'')
      else reject_if (env_sha256_hex (ch_env H) content \<noteq> cm_InputSHA256 spec)
        (''communication input does not match immutable fixture sha256'', ''communication:input_integrity''))"

definition work_root_reserve :: "communication_service \<Rightarrow> communication_host \<Rightarrow> comm_failure option" where
  "work_root_reserve sv H =
     (let reserve = cs_WorkRootMaxBytes sv div communicationWorkspaceReserveDivisor;
          (enough, free) = communicationWorkRootHasReserve (ch_WorkRoot H) reserve in
      reject_if (sv_DeploymentTarget sv = TargetCloudRun \<and> \<not> enough)
        (''communication work root has '' @ show_int free @ '' bytes free; '' @ show_int reserve @ '' bytes reserved'',
         ''communication:admission''))"

definition pipe_setup :: "string \<Rightarrow> string \<Rightarrow> bool option \<Rightarrow> comm_failure option" where
  "pipe_setup what source r =
     (case r of
        None \<Rightarrow> None
      | Some owner \<Rightarrow> Some (what @ (if owner then '' pipe ownership setup failed'' else '' pipe setup failed''), source))"

text \<open>Everything up to the start of the programs.\<close>

definition communication_setup ::
  "communication_service \<Rightarrow> communication_host \<Rightarrow> RuntimeTuningConfig \<Rightarrow> RunRequest \<Rightarrow> CommunicationSpec \<Rightarrow>
   comm_failure + communication_start" where
  "communication_setup sv H tuning req spec =
     (let ml = communicationManagerLimits (rq_Limits req); n = nat (cm_ParticipantCount spec) in
      and_then (communication_admission sv (ch_env H) (ch_error_text H) req spec) (\<lambda>walls.
      and_then (prepare_participants H tuning req spec) (\<lambda>ps.
      case prepareCommunicationProcess (ch_Manager H) tuning
             (communicationProgramRequest req (snd (communicationPrograms req spec)) ml) ''manager'' of
        Inl e \<Rightarrow> Inl (e, ''communication:manager:init'')
      | Inr manager \<Rightarrow>
          and_then (manager_data H (lim_WorkspaceBytes ml) False (cm_Input spec) (cm_InputURL spec)) (\<lambda>input.
          checked (input_integrity H spec input)
          (and_then (manager_data H (lim_WorkspaceBytes ml) True (cm_Answer spec) (cm_AnswerURL spec)) (\<lambda>answer.
          checked (work_root_reserve sv H)
          (case createCommunicationCgroup (ch_Cgroup H) (cs_CgroupParentDir sv) (cm_ParticipantCount spec) (rq_Limits req) of
             None \<Rightarrow> Inl (''communication aggregate cgroup setup failed'', ''communication:cgroup'')
           | Some grouped \<Rightarrow>
               checked (each_error (\<lambda>_ i. pipe_setup ''communication'' ''communication:pipe'' (ch_Pipes H i)) 0 [0..<n])
               (checked (pipe_setup ''manager result'' ''communication:result_protocol'' (ch_ResultPipe H))
               (Inr \<lparr>go_Participants = map (\<lambda>(i, p). (p\<lparr>pp_args := pp_args p @ [dec i]\<rparr>, CommunicationParticipantUIDForIndex (int i)))
                         (enumerate 0 ps),
                     go_Manager = manager\<lparr>pp_args := manager_args (pp_args manager) (ch_Paths H) n
                         (if cm_Version spec = 2 then Some (cm_MatchSeed spec) else None)\<rparr>,
                     go_Walls = walls, go_Input = input, go_Answer = answer, go_Cgroup = grouped\<rparr>)))))))))"

section \<open>The coordinator\<close>

text \<open>
  What it can receive: a program is ready; a participant ended (its number, its result, whether its output was cut, when it ended and
  when its deadline passed, and whether the request was canceled by then); the manager ended; the request was canceled; the time to
  start passed.
\<close>

datatype coord_event =
    TargetReady
  | ParticipantEnds nat execResult bool int int bool
  | ManagerEnds execResult int int
  | RequestDone
  | StartupExpires

record coordinator =
  cd_results :: "communicationProcess list"
  cd_failure :: "communicationProcess option"
  cd_managerAt :: int
  cd_triggered :: bool

definition new_coordinator :: coordinator where
  "new_coordinator = \<lparr>cd_results = [], cd_failure = None, cd_managerAt = 0, cd_triggered = False\<rparr>"

definition participant_result :: "execResult \<Rightarrow> bool \<Rightarrow> execResult" where
  "participant_result res exceeded =
     (if exceeded
      then res\<lparr>er_Status := RunStatusRE, er_Reason := ''participant output limit exceeded'', er_VerdictSource := ''output_limit''\<rparr>
      else res)"

text \<open>The process behind an event.\<close>

definition ended_process :: "communication_start \<Rightarrow> coord_event \<Rightarrow> communicationProcess option" where
  "ended_process go e =
     (case e of
        ParticipantEnds i res exceeded completedAt deadlineAt canceled \<Rightarrow>
          (let p = fst (go_Participants go ! i) in
           Some \<lparr>cp_entryPoint = pp_entryPoint p, cp_manager = False, cp_participant = int i, cp_request = pp_request p,
                 cp_result = participant_result res exceeded, cp_completedAt = completedAt, cp_wallDeadlineAt = deadlineAt,
                 cp_resultProtocolAt = 0\<rparr>)
      | ManagerEnds res completedAt deadlineAt \<Rightarrow>
          Some \<lparr>cp_entryPoint = pp_entryPoint (go_Manager go), cp_manager = True, cp_participant = -1,
                cp_request = pp_request (go_Manager go), cp_result = res, cp_completedAt = completedAt,
                cp_wallDeadlineAt = deadlineAt, cp_resultProtocolAt = 0\<rparr>
      | _ \<Rightarrow> None)"

definition request_canceled :: "coord_event \<Rightarrow> bool" where
  "request_canceled e = (case e of ParticipantEnds _ _ _ _ _ canceled \<Rightarrow> canceled | _ \<Rightarrow> False)"

text \<open>Until all programs are ready, or something keeps them from being.\<close>

fun await_ready :: "communication_start \<Rightarrow> nat \<Rightarrow> coord_event list \<Rightarrow> coordinator \<Rightarrow> (coordinator \<times> coord_event list) option" where
  "await_ready go 0 es c = Some (c, es)"
| "await_ready go (Suc n) [] c = None"
| "await_ready go (Suc n) (e # es) c =
     (case ended_process go e of
        Some p \<Rightarrow>
          Some (c\<lparr>cd_results := cd_results c @ [p],
                  cd_failure := (if \<not> cp_manager p \<and> communicationProcessFailed p then Some p else cd_failure c),
                  cd_triggered := True\<rparr>, es)
      | None \<Rightarrow> if e = TargetReady then await_ready go n es c else Some (c\<lparr>cd_triggered := True\<rparr>, es))"

definition collect_process :: "bool \<Rightarrow> communicationProcess \<Rightarrow> bool \<Rightarrow> coordinator \<Rightarrow> coordinator" where
  "collect_process protocolErr p canceled c =
     (let c1 = c\<lparr>cd_results := cd_results c @ [p]\<rparr> in
      if cp_manager p then
        c1\<lparr>cd_managerAt := cp_completedAt p, cd_triggered := (communicationProcessFailed p \<or> protocolErr \<or> cd_triggered c)\<rparr>
      else if communicationProcessFailed p \<and> cd_failure c = None \<and> \<not> cd_triggered c \<and> \<not> canceled \<and>
              communicationParticipantFailureOverridesManager p (cd_managerAt c)
      then c1\<lparr>cd_failure := Some p, cd_triggered := True\<rparr> else c1)"

text \<open>Until the results of all processes are there; the other events are not received any more.\<close>

fun collect_results :: "communication_start \<Rightarrow> bool \<Rightarrow> nat \<Rightarrow> coord_event list \<Rightarrow> coordinator \<Rightarrow> coordinator option" where
  "collect_results go protocolErr n es c =
     (if length (cd_results c) \<ge> n then Some c
      else
        (case es of
           [] \<Rightarrow> None
         | e # es' \<Rightarrow>
             (case ended_process go e of
                None \<Rightarrow> collect_results go protocolErr n es' c
              | Some p \<Rightarrow> collect_results go protocolErr n es' (collect_process protocolErr p (request_canceled e) c))))"

definition coordinate :: "communication_start \<Rightarrow> bool \<Rightarrow> coord_event list \<Rightarrow> coordinator option" where
  "coordinate go protocolErr es =
     (let n = length (go_Participants go) + 1 in
      case await_ready go n es new_coordinator of
        None \<Rightarrow> None
      | Some (c, rest) \<Rightarrow> collect_results go protocolErr n rest c)"

section \<open>The response\<close>

text \<open>
  A run of the processes: the events, the stream of results and when it was read, when the participants of a match were canceled,
  the number of participants that started, the time it took, whether the request was canceled, and the counters of the cgroup.
\<close>

record agg_stats =
  as_MemoryPeakBytes :: int
  as_OOMEvents :: int
  as_MemoryMaxEvents :: int
  as_PidsMaxEvents :: int

record communication_outcome =
  co_Events :: "coord_event list"
  co_ManagerOutput :: source
  co_ProtocolAt :: int
  co_CanceledAt :: int
  co_Started :: int
  co_WallMs :: int
  co_RequestErr :: bool
  co_Stats :: "agg_stats option"

type_synonym communication_processes = "RuntimeTuningConfig \<Rightarrow> communication_start \<Rightarrow> communication_outcome"

definition protocol_failed :: "protocol_error + communicationManagerResult \<Rightarrow> bool" where
  "protocol_failed protocol = (case protocol of Inl _ \<Rightarrow> True | Inr _ \<Rightarrow> False)"

definition match_results :: "communication_outcome \<Rightarrow> coordinator \<Rightarrow> communicationProcess list" where
  "match_results out c = map (\<lambda>p. if cp_manager p then p\<lparr>cp_resultProtocolAt := co_ProtocolAt out\<rparr> else p) (cd_results c)"

definition coordinated_response ::
  "json_decoders \<Rightarrow> RunRequest \<Rightarrow> CommunicationSpec \<Rightarrow> communication_outcome \<Rightarrow> coordinator \<Rightarrow> RunResponse" where
  "coordinated_response J req spec out c =
     (let protocol = readCommunicationResult J (co_ManagerOutput out) (cm_Version spec) in
      if cm_Version spec = 2 then
        buildCommunicationMatchResponse req spec
          (match_results out c) protocol (co_Started out) (co_WallMs out) (cd_failure c) (if cd_failure c = None then 0 else co_CanceledAt out) (co_RequestErr out)
      else buildCommunicationResponse (cd_results c) protocol (co_Started out) (co_WallMs out) (cd_failure c))"

definition breached :: "agg_stats \<Rightarrow> bool" where
  "breached st \<longleftrightarrow> as_OOMEvents st > 0 \<or> as_MemoryMaxEvents st > 0 \<or> as_PidsMaxEvents st > 0"

definition peak_memory :: "agg_stats \<Rightarrow> RunResponse \<Rightarrow> RunResponse" where
  "peak_memory st response =
     (let peakKB = (as_MemoryPeakBytes st + 1023) div 1024 in
      if peakKB > rs_MemoryKB response then response\<lparr>rs_MemoryKB := peakKB\<rparr> else response)"

definition aggregate_failure :: "RunRequest \<Rightarrow> CommunicationSpec \<Rightarrow> string \<Rightarrow> string \<Rightarrow> RunResponse \<Rightarrow> RunResponse" where
  "aggregate_failure req spec reason source response =
     (let r = response\<lparr>rs_Status := RunStatusRE, rs_Reason := reason, rs_VerdictSource := source, rs_Score := Some 0\<rparr> in
      if cm_Version spec = 2 then r\<lparr>rs_Match := Some (communicationMatchFailure req spec reason), rs_Score := None\<rparr> else r)"

text \<open>The counters of the cgroup; peaks are not negative.\<close>

definition settle_aggregate :: "RunRequest \<Rightarrow> CommunicationSpec \<Rightarrow> bool \<Rightarrow> agg_stats option \<Rightarrow> RunResponse \<Rightarrow> RunResponse" where
  "settle_aggregate req spec grouped stats response =
     (if \<not> grouped then response
      else
        (case stats of
           None \<Rightarrow>
             if cm_Version spec = 2
             then aggregate_failure req spec ''competitive aggregate resource accounting failed'' ''communication:aggregate_accounting'' response
             else response
         | Some st \<Rightarrow>
             (let r = peak_memory st response in
              if rs_Status r \<in> {RunStatusAccepted, RunStatusWA} \<and> breached st
              then aggregate_failure req spec ''communication aggregate resource limit exceeded'' ''communication:aggregate'' r
              else r)))"

definition participant_stderr :: "RunRequest \<Rightarrow> communicationProcess list \<Rightarrow> RunResponse \<Rightarrow> RunResponse" where
  "participant_stderr req ps response =
     (if rs_Status response = RunStatusAccepted then response
      else
        (case find (\<lambda>p. \<not> (cp_manager p \<or> er_Stderr (cp_result p) = [])) ps of
           None \<Rightarrow> response
         | Some p \<Rightarrow>
             (case capturedOutputValue (er_Stderr (cp_result p)) (responseStderrLimitBytes req) of
                (errors, truncated) \<Rightarrow> response\<lparr>rs_Stderr := errors, rs_StderrTruncated := truncated\<rparr>)))"

text \<open>The deferred part: what every response to a match gets.\<close>

definition stamp_match :: "CompetitiveIdentity \<Rightarrow> string \<Rightarrow> MatchResult \<Rightarrow> MatchResult" where
  "stamp_match own source m =
     fold (\<lambda>code m. if source = ''communication:'' @ code then m\<lparr>mr_Retriable := False, mr_ErrorCode := code\<rparr> else m)
       [''input_integrity'', ''runtime_fingerprint'']
       (m\<lparr>mr_RuntimeFingerprint := id_RuntimeFingerprint own, mr_RunnerSHA256 := id_RunnerSHA256 own,
          mr_ImageDigest := id_ImageDigest own\<rparr>)"

definition decorate_match :: "communication_service \<Rightarrow> RunRequest \<Rightarrow> CommunicationSpec \<Rightarrow> RunResponse \<Rightarrow> RunResponse" where
  "decorate_match sv req spec response =
     (if cm_Version spec \<noteq> 2 then response
      else
        (let m = (case rs_Match response of None \<Rightarrow> communicationMatchFailure req spec (rs_Reason response) | Some m \<Rightarrow> m) in
         response\<lparr>rs_Score := None, rs_Match := Some (stamp_match (cs_CompetitiveIdentity sv) (rs_VerdictSource response) m)\<rparr>))"

text \<open>The response and the log, or \<open>None\<close> while results are missing.\<close>

definition run_processes ::
  "json_decoders \<Rightarrow> communication_outcome \<Rightarrow> RunRequest \<Rightarrow> CommunicationSpec \<Rightarrow> communication_start \<Rightarrow> RunResponse option" where
  "run_processes J out req spec go =
     (case coordinate go (protocol_failed (readCommunicationResult J (co_ManagerOutput out) (cm_Version spec))) (co_Events out) of
        None \<Rightarrow> None
      | Some c \<Rightarrow> Some (participant_stderr req (cd_results c)
          (settle_aggregate req spec (go_Cgroup go) (co_Stats out) (coordinated_response J req spec out c))))"

definition runCommunication ::
  "communication_service \<Rightarrow> communication_host \<Rightarrow> communication_processes \<Rightarrow> json_decoders \<Rightarrow> RunRequest \<Rightarrow> CommunicationSpec \<Rightarrow> bool \<Rightarrow>
   RuntimeTuningConfig \<Rightarrow> (RunResponse \<times> (string \<times> string) list) option" where
  "runCommunication sv H P J req spec onLog tuning =
     (case communication_setup sv H tuning req spec of
        Inl (reason, source) \<Rightarrow> Some (decorate_match sv req spec (communicationFailure reason source 0), [])
      | Inr go \<Rightarrow>
          map_option (\<lambda>r. (decorate_match sv req spec r, emitCapturedLog onLog ''stderr'' (rs_Stderr r) (responseStderrLimitBytes req)))
            (run_processes J (P tuning go) req spec go))"

section \<open>Streams of the participants\<close>

text \<open>
  A write to the \<open>communicationOutputWriter\<close>: what the target took of it (and whether it failed) is given; the state is what remains
  and whether the limit was exceeded, and the result the count and whether there was an error.
\<close>

record output_writer =
  ow_remaining :: int
  ow_exceeded :: bool
  ow_forwarded :: string

definition communicationOutputLimitBytes :: "RunRequest option \<Rightarrow> int" where
  "communicationOutputLimitBytes req =
     (case req of
        None \<Rightarrow> DefaultOutputBytes
      | Some r \<Rightarrow> if lim_OutputBytes (rq_Limits r) \<le> 0 then DefaultOutputBytes
                  else min (lim_OutputBytes (rq_Limits r)) MaxCommunicationOutputBytes)"

definition writer_Write :: "(string \<Rightarrow> nat \<times> bool) \<Rightarrow> string \<Rightarrow> output_writer \<Rightarrow> output_writer \<times> nat \<times> bool" where
  "writer_Write target p w =
     (let allowed = (if int (length p) > ow_remaining w then nat (ow_remaining w) else length p);
          (n, err) = (if allowed > 0 then target (take allowed p) else (0, False));
          w1 = w\<lparr>ow_remaining := ow_remaining w - int n, ow_forwarded := ow_forwarded w @ take n p\<rparr> in
      if allowed > 0 \<and> (err \<or> n \<noteq> allowed) then (w1, n, True)
      else (w1\<lparr>ow_exceeded := (ow_exceeded w \<or> allowed < length p)\<rparr>, length p, False))"

end
