(* ===== verification/Communication_Safety.thy ===== *)
theory Communication_Safety
  imports Communication_Run
begin

text \<open>
  What \<open>runCommunication\<close> guarantees: the bounds of what it starts, that it answers once all processes have ended, and when a
  response is accepted or a match has a winner.
\<close>

section \<open>What is started\<close>

lemma allowance_covers:
  assumes "communicationWallAllowanceMs t c n cpus ms = (w, True)"
  shows "ms \<le> w"
proof (cases "t \<noteq> TargetCloudRun \<or> trim_space c \<noteq> []")
  case True
  then show ?thesis using assms by (simp add: communicationWallAllowanceMs_def split: if_splits)
next
  case False
  define waves where "waves = (n + 1 + max 1 (cpus - 1) - 1) div max 1 (cpus - 1)"
  define slack where "slack = max communicationWallMinimumSlackMs ((ms * waves * communicationWallSlackPercent + 99) div 100)"
  have p: "0 < ms" "2 \<le> n" "w = ms * waves + slack"
    using assms False unfolding waves_def slack_def
    by (auto simp: communicationWallAllowanceMs_def MinCommunicationParticipants_def Let_def split: if_splits)
  have e: "0 < max 1 (cpus - 1)" by simp
  have "max 1 (cpus - 1) \<le> n + 1 + max 1 (cpus - 1) - 1" using p(2) by simp
  then have "1 \<le> waves" unfolding waves_def using e zdiv_mono1 [of "max 1 (cpus - 1)" "n + 1 + max 1 (cpus - 1) - 1" "max 1 (cpus - 1)"] by simp
  then have "ms * 1 \<le> ms * waves" using p(1) by (intro mult_left_mono) simp_all
  moreover have "1000 \<le> slack" by (simp add: slack_def communicationWallMinimumSlackMs_def)
  ultimately show ?thesis using p(3) by simp
qed

lemma memory_declared:
  assumes "snd (communicationMemoryWithinBudget n m budget)"
  shows "n * m + 512 \<le> budget"
  using assms by (auto simp: communicationMemoryWithinBudget_def communicationManagerMemoryMB_def Let_def split: if_splits)

lemma workspace_declared:
  assumes "snd (communicationWorkspaceWithinBudget n p m total_bytes)"
  shows "n * p + m + total_bytes div 5 \<le> total_bytes"
  using assms by (auto simp: communicationWorkspaceWithinBudget_def communicationWorkspaceReserveDivisor_def Let_def split: if_splits)

text \<open>Whether the decoded files of a program fit in a workspace.\<close>

definition fits_workspace :: "RunProgram \<Rightarrow> int \<Rightarrow> bool" where
  "fits_workspace p bytes \<longleftrightarrow> (\<exists>n. communicationProgramDecodedBytes p = Some n \<and> n \<le> bytes)"

text \<open>The budgets of a Cloud Run instance.\<close>

definition cloud_bounded :: "communication_service \<Rightarrow> RunRequest \<Rightarrow> CommunicationSpec \<Rightarrow> int \<times> int \<Rightarrow> bool" where
  "cloud_bounded sv req spec walls \<longleftrightarrow>
     (let n = cm_ParticipantCount spec; ws = lim_WorkspaceBytes (participant_limits (rq_Limits req)); mws = 128 * 2 ^ 20 in
      n * lim_MemoryMB (rq_Limits req) + 512 \<le> cs_MemoryBudgetMB sv \<and>
      n * ws + mws + cs_WorkRootMaxBytes sv div 5 \<le> cs_WorkRootMaxBytes sv \<and>
      (\<forall>p \<in> set (communicationParticipantPrograms req spec). fits_workspace p ws) \<and>
      fits_workspace (snd (communicationPrograms req spec)) mws \<and>
      fst walls \<le> cs_WallBudgetMs sv \<and> snd walls \<le> cs_WallBudgetMs sv)"

lemma manager_workspace: "lim_WorkspaceBytes (communicationManagerLimits l) = 128 * 2 ^ 20"
  by (simp add: communicationManagerLimits_def communicationManagerWorkspaceBytes_def Let_def)

lemma participant_time: "lim_TimeMs (participant_limits l) = lim_TimeMs l"
  by (simp add: participant_limits_def)

lemma cloud_budgets_bounded:
  assumes "cloud_budgets sv req spec (communicationParticipantPrograms req spec) (snd (communicationPrograms req spec))
      (participant_limits (rq_Limits req)) (communicationManagerLimits (rq_Limits req)) = Inr walls"
  shows "cloud_bounded sv req spec walls \<and> lim_TimeMs (rq_Limits req) \<le> fst walls \<and>
    lim_TimeMs (communicationManagerLimits (rq_Limits req)) \<le> snd walls"
proof -
  let ?pl = "participant_limits (rq_Limits req)" and ?ml = "communicationManagerLimits (rq_Limits req)"
  let ?n = "cm_ParticipantCount spec"
  let ?pw = "wall_allowance sv ?n (lim_TimeMs ?pl)" and ?mw = "wall_allowance sv ?n (lim_TimeMs ?ml)"
  have fits: "(case communicationProgramDecodedBytes p of None \<Rightarrow> False | Some n \<Rightarrow> n \<le> b) \<longleftrightarrow> fits_workspace p b" for p b
    by (auto simp: fits_workspace_def split: option.split)
  from assms have a: "snd (communicationMemoryWithinBudget ?n (lim_MemoryMB (rq_Limits req)) (cs_MemoryBudgetMB sv))"
    "snd (communicationWorkspaceWithinBudget ?n (lim_WorkspaceBytes ?pl) (128 * 2 ^ 20) (cs_WorkRootMaxBytes sv))"
    "list_all (\<lambda>p. fits_workspace p (lim_WorkspaceBytes ?pl)) (communicationParticipantPrograms req spec)"
    "fits_workspace (snd (communicationPrograms req spec)) (128 * 2 ^ 20)"
    "snd ?pw" "fst ?pw \<le> cs_WallBudgetMs sv" "snd ?mw" "fst ?mw \<le> cs_WallBudgetMs sv" "walls = (fst ?pw, fst ?mw)"
    by (simp_all add: cloud_budgets_def manager_workspace fits Let_def)
  have "max t (RawLimitMillis (sv_CPUNormalizer sv) t) \<le> fst (wall_allowance sv ?n t)" if "snd (wall_allowance sv ?n t)" for t
    using that allowance_covers unfolding wall_allowance_def by (metis prod.collapse)
  then have "lim_TimeMs ?pl \<le> fst ?pw" "lim_TimeMs ?ml \<le> fst ?mw" using a(5,7) by (meson max.boundedE)+
  then show ?thesis
    using a memory_declared [OF a(1)] workspace_declared [OF a(2)]
    by (simp add: cloud_bounded_def participant_time list_all_iff Let_def)
qed

lemma admission_facts:
  assumes "communication_admission sv E textof req spec = Inr walls"
  shows "supportsCommunicationV1 sv \<and> ValidateCommunication E req = None \<and> cm_ParticipantCount spec \<le> cs_MaxParticipants sv \<and>
    (cm_Version spec = 2 \<longrightarrow> cm_RuntimeFingerprint spec \<noteq> [] \<and>
       cm_RuntimeFingerprint spec = id_RuntimeFingerprint (cs_CompetitiveIdentity sv)) \<and>
    (sv_DeploymentTarget sv = TargetCloudRun \<longrightarrow> cloud_bounded sv req spec walls) \<and>
    lim_TimeMs (rq_Limits req) \<le> fst walls \<and> lim_TimeMs (communicationManagerLimits (rq_Limits req)) \<le> snd walls"
proof -
  from assms have a: "supportsCommunicationV1 sv" "ValidateCommunication E req = None" "cm_ParticipantCount spec \<le> cs_MaxParticipants sv"
    "cm_Version spec = 2 \<longrightarrow> cm_RuntimeFingerprint spec \<noteq> [] \<and> cm_RuntimeFingerprint spec = id_RuntimeFingerprint (cs_CompetitiveIdentity sv)"
    and w: "(if sv_DeploymentTarget sv = TargetCloudRun then cloud_budgets sv req spec (communicationParticipantPrograms req spec)
        (snd (communicationPrograms req spec)) (participant_limits (rq_Limits req)) (communicationManagerLimits (rq_Limits req))
      else Inr (lim_TimeMs (participant_limits (rq_Limits req)), lim_TimeMs (communicationManagerLimits (rq_Limits req)))) = Inr walls"
    by (auto simp: communication_admission_def Let_def)
  then show ?thesis
    using cloud_budgets_bounded [of sv req spec walls] by (auto simp: participant_time split: if_splits)
qed

text \<open>The program of a seat: in version 1 all participants run the same one.\<close>

definition seat_request :: "RunRequest \<Rightarrow> CommunicationSpec \<Rightarrow> nat \<Rightarrow> RunRequest" where
  "seat_request req spec i = communicationProgramRequest req
     (communicationParticipantPrograms req spec ! (if cm_Version spec = 2 then i else 0)) (participant_limits (rq_Limits req))"

lemma prepared_request: "prepareCommunicationProcess H tuning q label = Inr p \<Longrightarrow> pp_request p = q"
  by (auto simp: prepareCommunicationProcess_def split: sum.splits option.splits)

lemma seat_prepared: "prepare_seat H tuning req spec template i = Inr p \<Longrightarrow> pp_request p = seat_request req spec i"
  by (auto simp: prepare_seat_def seat_request_def Let_def dest: prepared_request split: if_splits sum.splits option.splits)

lemma seats_loop:
  assumes "loop_err (\<lambda>_ i ps. and_then (prepare_seat H tuning req spec template i) (\<lambda>p. Inr (ps @ [p]))) k [a..<b] ps0 = Inr ps"
    and "length ps0 = a" "\<forall>i < a. pp_request (ps0 ! i) = seat_request req spec i" "a \<le> b"
  shows "length ps = b \<and> (\<forall>i < b. pp_request (ps ! i) = seat_request req spec i)"
  using assms
proof (induction "b - a" arbitrary: k a ps0)
  case (Suc d)
  then have u: "[a..<b] = a # [Suc a..<b]" by (intro upt_conv_Cons) simp
  from Suc.prems(1) obtain p where p: "prepare_seat H tuning req spec template a = Inr p"
    "loop_err (\<lambda>_ i ps. and_then (prepare_seat H tuning req spec template i) (\<lambda>p. Inr (ps @ [p]))) (Suc k) [Suc a..<b] (ps0 @ [p]) = Inr ps"
    unfolding u by (auto simp: and_then_def split: sum.splits)
  have r: "\<forall>i < Suc a. pp_request ((ps0 @ [p]) ! i) = seat_request req spec i"
    using Suc.prems(2,3) seat_prepared [OF p(1)] by (auto simp: nth_append less_Suc_eq)
  show ?case using Suc.hyps(1) [of "Suc a", OF _ p(2)] Suc.hyps(2) Suc.prems(2) r by simp
qed simp

lemma participants_prepared:
  assumes "prepare_participants H tuning req spec = Inr ps" "1 \<le> cm_ParticipantCount spec"
  shows "length ps = nat (cm_ParticipantCount spec) \<and> (\<forall>i < length ps. pp_request (ps ! i) = seat_request req spec i)"
proof -
  obtain template where t: "prepareCommunicationProcess (ch_Participant H 0) tuning
      (communicationProgramRequest req (communicationParticipantPrograms req spec ! 0) (participant_limits (rq_Limits req))) ''participant'' = Inr template"
    "loop_err (\<lambda>_ i ps. and_then (prepare_seat H tuning req spec template i) (\<lambda>p. Inr (ps @ [p]))) 0
       [1..<nat (cm_ParticipantCount spec)] [template] = Inr ps"
    using assms(1) by (auto simp: prepare_participants_def split: sum.splits)
  have "pp_request template = seat_request req spec 0" using prepared_request [OF t(1)] by (simp add: seat_request_def)
  then show ?thesis using seats_loop [OF t(2)] assms(2) by simp
qed

lemma setup_steps:
  assumes "communication_setup sv H tuning req spec = Inr go"
  shows "\<exists>walls ps manager. communication_admission sv (ch_env H) (ch_error_text H) req spec = Inr walls \<and>
    prepare_participants H tuning req spec = Inr ps \<and>
    prepareCommunicationProcess (ch_Manager H) tuning
      (communicationProgramRequest req (snd (communicationPrograms req spec)) (communicationManagerLimits (rq_Limits req))) ''manager'' = Inr manager \<and>
    input_integrity H spec (go_Input go) = None \<and>
    go_Participants go = map (\<lambda>(i, p). (p\<lparr>pp_args := pp_args p @ [dec i]\<rparr>, CommunicationParticipantUIDForIndex (int i))) (enumerate 0 ps) \<and>
    go_Manager go = manager\<lparr>pp_args := manager_args (pp_args manager) (ch_Paths H) (nat (cm_ParticipantCount spec))
       (if cm_Version spec = 2 then Some (cm_MatchSeed spec) else None)\<rparr> \<and>
    go_Walls go = walls"
proof -
  let ?ml = "communicationManagerLimits (rq_Limits req)"
  let ?q = "communicationProgramRequest req (snd (communicationPrograms req spec)) ?ml"
  obtain walls where w: "communication_admission sv (ch_env H) (ch_error_text H) req spec = Inr walls"
    using assms by (cases "communication_admission sv (ch_env H) (ch_error_text H) req spec") (simp_all add: communication_setup_def and_then_def)
  obtain ps where ps: "prepare_participants H tuning req spec = Inr ps"
    using assms w by (cases "prepare_participants H tuning req spec") (simp_all add: communication_setup_def and_then_def)
  obtain m where m: "prepareCommunicationProcess (ch_Manager H) tuning ?q ''manager'' = Inr m"
    using assms w ps by (cases "prepareCommunicationProcess (ch_Manager H) tuning ?q ''manager''") (simp_all add: communication_setup_def and_then_def)
  obtain input where i: "manager_data H (lim_WorkspaceBytes ?ml) False (cm_Input spec) (cm_InputURL spec) = Inr input"
    using assms w ps m
    by (cases "manager_data H (lim_WorkspaceBytes ?ml) False (cm_Input spec) (cm_InputURL spec)") (simp_all add: communication_setup_def and_then_def)
  obtain answer where a: "manager_data H (lim_WorkspaceBytes ?ml) True (cm_Answer spec) (cm_AnswerURL spec) = Inr answer"
    using assms w ps m i
    by (cases "manager_data H (lim_WorkspaceBytes ?ml) True (cm_Answer spec) (cm_AnswerURL spec)")
      (simp_all add: communication_setup_def and_then_def)
  obtain g where g: "createCommunicationCgroup (ch_Cgroup H) (cs_CgroupParentDir sv) (cm_ParticipantCount spec) (rq_Limits req) = Some g"
    using assms w ps m i a
    by (cases "createCommunicationCgroup (ch_Cgroup H) (cs_CgroupParentDir sv) (cm_ParticipantCount spec) (rq_Limits req)")
      (simp_all add: communication_setup_def and_then_def)
  have f: "input_integrity H spec input = None" "go = \<lparr>go_Participants =
      map (\<lambda>(i, p). (p\<lparr>pp_args := pp_args p @ [dec i]\<rparr>, CommunicationParticipantUIDForIndex (int i))) (enumerate 0 ps),
    go_Manager = m\<lparr>pp_args := manager_args (pp_args m) (ch_Paths H) (nat (cm_ParticipantCount spec))
       (if cm_Version spec = 2 then Some (cm_MatchSeed spec) else None)\<rparr>,
    go_Walls = walls, go_Input = input, go_Answer = answer, go_Cgroup = g\<rparr>"
    using assms w ps m i a g by (simp_all add: communication_setup_def and_then_def Let_def)
  then show ?thesis using w ps m by simp
qed

text \<open>The descriptors the manager is told are those of the right files.\<close>

lemma manager_files_at:
  "length (manager_files n) = 2 * n + 1 \<and> manager_files n ! (2 * n) = ResultWrite \<and>
   (\<forall>i < n. manager_files n ! (2 * i) = FromParticipant i \<and> manager_files n ! (2 * i + 1) = ToParticipant i)"
proof -
  let ?f = "\<lambda>n. concat (map (\<lambda>i. [FromParticipant i, ToParticipant i]) [0..<n])"
  have l: "length (?f n) = 2 * n" for n by (induction n) simp_all
  have "\<forall>i < n. ?f n ! (2 * i) = FromParticipant i \<and> ?f n ! (2 * i + 1) = ToParticipant i"
  proof (induction n)
    case (Suc n)
    show ?case
    proof (intro allI impI)
      fix i assume "i < Suc n"
      then consider "i < n" | "i = n" by linarith
      then show "?f (Suc n) ! (2 * i) = FromParticipant i \<and> ?f (Suc n) ! (2 * i + 1) = ToParticipant i"
      proof cases
        case 1
        then have b: "2 * i + 1 < length (?f n)" using l by simp
        then show ?thesis using Suc.IH 1 by (simp add: nth_append)
      next
        case 2
        have "(?f n @ [FromParticipant n, ToParticipant n]) ! (length (?f n) + 0) = FromParticipant n"
          "(?f n @ [FromParticipant n, ToParticipant n]) ! (length (?f n) + 1) = ToParticipant n"
          by (simp_all only: nth_append_length_plus) simp_all
        then show ?thesis using 2 by (simp add: l)
      qed
    qed
  qed simp
  then show ?thesis by (simp add: manager_files_def l nth_append)
qed

lemma participant_identities:
  assumes "n \<le> 64"
  shows "distinct (map (\<lambda>i. CommunicationParticipantUIDForIndex (int i)) [0..<n]) \<and>
    (\<forall>i < n. \<exists>uid. CommunicationParticipantUIDForIndex (int i) = Some uid \<and> IsReservedCommunicationIdentity uid \<and>
       uid \<noteq> CommunicationManagerUID)"
  using assms
  by (auto simp: distinct_map inj_on_def CommunicationParticipantUIDForIndex_def IsReservedCommunicationIdentity_def
      CommunicationParticipantSlots_def CommunicationParticipantUIDMax_def CommunicationParticipantUIDMin_def CommunicationManagerUID_def)

section \<open>The coordinator\<close>

text \<open>The processes that end, \<open>None\<close> being the manager: each of them ends once.\<close>

definition end_of :: "coord_event \<Rightarrow> nat option option" where
  "end_of e = (case e of ParticipantEnds i _ _ _ _ _ \<Rightarrow> Some (Some i) | ManagerEnds _ _ _ \<Rightarrow> Some None | _ \<Rightarrow> None)"

definition all_end :: "nat \<Rightarrow> coord_event list \<Rightarrow> bool" where
  "all_end n es \<longleftrightarrow> distinct (List.map_filter end_of es) \<and> set (List.map_filter end_of es) = insert None (Some ` {..<n})"

definition processes :: "communication_start \<Rightarrow> coord_event list \<Rightarrow> communicationProcess list" where
  "processes go es = List.map_filter (ended_process go) es"

lemma processes_simps [simp]:
  "processes go [] = []"
  "processes go (e # es) = (case ended_process go e of None \<Rightarrow> processes go es | Some p \<Rightarrow> p # processes go es)"
  by (simp_all add: processes_def map_filter_simps split: option.split)

lemma ended_end_of: "ended_process go e = None \<longleftrightarrow> end_of e = None"
  by (simp add: ended_process_def end_of_def Let_def split: coord_event.split)

lemma processes_length: "length (processes go es) = length (List.map_filter end_of es)"
proof (induction es)
  case (Cons e es)
  then show ?case using ended_end_of [of go e] by (cases "ended_process go e"; cases "end_of e") (simp_all add: map_filter_simps)
qed (simp add: map_filter_simps)

lemma all_end_length: "all_end n es \<Longrightarrow> length (processes go es) = n + 1"
  unfolding all_end_def processes_length by (simp add: distinct_card [symmetric] card_image inj_on_def)

lemma processes_event: "p \<in> set (processes go es) \<Longrightarrow> \<exists>e \<in> set es. ended_process go e = Some p"
  by (induction es) (auto split: option.splits)

lemma processes_member:
  assumes "all_end n es" "p \<in> set (processes go es)" "\<not> cp_manager p"
  shows "0 \<le> cp_participant p \<and> cp_participant p < int n"
proof -
  obtain e where e: "e \<in> set es" "ended_process go e = Some p" using processes_event [OF assms(2)] by blast
  then obtain i where i: "end_of e = Some (Some i)" "cp_participant p = int i"
    using assms(3) by (auto simp: ended_process_def end_of_def Let_def split: coord_event.splits)
  then have "Some i \<in> set (List.map_filter end_of es)" using e(1) by (force simp: map_filter_def)
  then show ?thesis using assms(1) i(2) by (auto simp: all_end_def)
qed

lemma ended_manager: "ended_process go e = Some r \<Longrightarrow> cp_manager r \<longleftrightarrow> end_of e = Some None"
  by (cases e) (auto simp: ended_process_def end_of_def Let_def)

lemma one_manager:
  assumes "all_end n es" "p \<in> set (processes go es)" "q \<in> set (processes go es)" "cp_manager p" "cp_manager q"
  shows "p = q"
proof -
  have d: "distinct (List.map_filter end_of xs) \<Longrightarrow> p \<in> set (processes go xs) \<Longrightarrow> q \<in> set (processes go xs) \<Longrightarrow> p = q" for xs
  proof (induction xs)
    case (Cons e xs)
    have m: "None \<in> set (List.map_filter end_of xs)" if r: "r \<in> set (processes go xs)" "cp_manager r" for r
    proof -
      obtain x where x: "x \<in> set xs" "ended_process go x = Some r" using processes_event [OF r(1)] by blast
      then have "end_of x = Some None" using ended_manager [OF x(2)] r(2) by blast
      then show ?thesis using x(1) by (force simp: map_filter_def)
    qed
    show ?case
    proof (cases "ended_process go e")
      case None
      then have "end_of e = None" using ended_end_of by blast
      then show ?thesis using Cons None by (simp add: map_filter_simps)
    next
      case (Some r)
      have "end_of e = Some None" if "cp_manager r"
        using ended_manager [OF Some] that by blast
      then have "cp_manager r \<longrightarrow> None \<notin> set (List.map_filter end_of xs)" using Cons.prems(1) by (auto simp: map_filter_simps)
      moreover have "distinct (List.map_filter end_of xs)" using Cons.prems(1) by (auto simp: map_filter_simps split: option.splits)
      ultimately show ?thesis using Cons.IH Cons.prems(2,3) Some m assms(4,5) by auto
    qed
  qed simp
  show ?thesis by (rule d [of es]) (use assms in \<open>simp_all add: all_end_def\<close>)
qed

definition failure_known :: "coordinator \<Rightarrow> bool" where
  "failure_known c \<longleftrightarrow> (\<forall>f. cd_failure c = Some f \<longrightarrow> f \<in> set (cd_results c) \<and> \<not> cp_manager f \<and> communicationProcessFailed f)"

lemma await_results:
  assumes "processes go es \<noteq> []" "failure_known c"
  shows "\<exists>c' rest. await_ready go n es c = Some (c', rest) \<and> cd_results c' @ processes go rest = cd_results c @ processes go es \<and> failure_known c'"
  using assms
proof (induction go n es c rule: await_ready.induct)
  case (3 go n e es c)
  then show ?case by (cases "ended_process go e") (auto simp: failure_known_def)
qed auto

lemma collect_known: "failure_known c \<Longrightarrow> failure_known (collect_process err p canceled c)"
  by (auto simp: failure_known_def collect_process_def Let_def)

lemma collect_appends [simp]: "cd_results (collect_process err p canceled c) = cd_results c @ [p]"
  by (simp add: collect_process_def Let_def)

lemma collected:
  assumes "length (cd_results c) + length (processes go es) = n" "failure_known c"
  shows "\<exists>c'. collect_results go err n es c = Some c' \<and> cd_results c' = cd_results c @ processes go es \<and> failure_known c'"
  using assms
proof (induction es arbitrary: c)
  case (Cons e es)
  show ?case
  proof (cases "ended_process go e")
    case None
    then show ?thesis using Cons.IH [of c] Cons.prems by (cases "length (cd_results c) \<ge> n") auto
  next
    case (Some p)
    then show ?thesis using Cons.IH [of "collect_process err p (request_canceled e) c"] Cons.prems collect_known by auto
  qed
qed auto

text \<open>Once every process has ended, the coordinator has all results in the order in which it received them.\<close>

lemma coordinate_returns:
  assumes "all_end (length (go_Participants go)) es"
  shows "\<exists>c. coordinate go err es = Some c \<and> cd_results c = processes go es \<and> failure_known c"
proof -
  let ?n = "length (go_Participants go) + 1"
  have l: "length (processes go es) = ?n" using all_end_length [OF assms] by simp
  then have "processes go es \<noteq> []" by auto
  moreover have "failure_known new_coordinator" by (simp add: failure_known_def new_coordinator_def)
  ultimately obtain c rest where c: "await_ready go ?n es new_coordinator = Some (c, rest)"
    "cd_results c @ processes go rest = processes go es" "failure_known c"
    using await_results [of go es new_coordinator ?n] by (auto simp: new_coordinator_def)
  then have "length (cd_results c) + length (processes go rest) = ?n" using l by (metis length_append)
  then obtain c' where "collect_results go err ?n rest c = Some c'" "cd_results c' = cd_results c @ processes go rest" "failure_known c'"
    using collected c(3) by blast
  then show ?thesis using c by (simp add: coordinate_def Let_def)
qed

text \<open>
  The run started as it should: all programs were ready before anything else. Then a participant that failed while the
  request was not canceled is the first failure, unless the manager had ended before it, or something stopped the run.
\<close>

definition all_ready :: "communication_start \<Rightarrow> coord_event list \<Rightarrow> bool" where
  "all_ready go es \<longleftrightarrow> take (length (go_Participants go) + 1) es = replicate (length (go_Participants go) + 1) TargetReady"

lemma await_all_ready:
  "take n es = replicate n TargetReady \<Longrightarrow> await_ready go n es c = Some (c, drop n es)"
proof (induction n arbitrary: es)
  case (Suc n)
  then obtain es' where "es = TargetReady # es'" by (cases es) auto
  then show ?case using Suc by (simp add: ended_process_def)
qed simp

definition manager_known :: "coordinator \<Rightarrow> bool" where
  "manager_known c \<longleftrightarrow> (cd_managerAt c \<noteq> 0 \<longrightarrow> (\<exists>m \<in> set (cd_results c). cp_manager m \<and> cp_completedAt m = cd_managerAt c))"

definition why_triggered :: "bool \<Rightarrow> coordinator \<Rightarrow> bool" where
  "why_triggered err c \<longleftrightarrow>
     (cd_triggered c \<longrightarrow> cd_failure c \<noteq> None \<or> err \<or> (\<exists>m \<in> set (cd_results c). cp_manager m \<and> communicationProcessFailed m))"

definition excused :: "communicationProcess list \<Rightarrow> communicationProcess \<Rightarrow> bool" where
  "excused ps p \<longleftrightarrow> er_VerdictSource (cp_result p) \<notin> {''sandbox_helper_oom'', ''sandbox_init''} \<and>
     (\<exists>m \<in> set ps. cp_manager m \<and> cp_completedAt m \<le> cp_completedAt p)"

lemma collect_invariants:
  "manager_known c \<Longrightarrow> manager_known (collect_process err p canceled c)"
  "why_triggered err c \<Longrightarrow> why_triggered err (collect_process err p canceled c)"
  by (auto simp: manager_known_def why_triggered_def collect_process_def Let_def)

lemma collect_quiet:
  assumes "manager_known c" "\<not> cd_triggered (collect_process err p canceled c)" "cd_failure (collect_process err p canceled c) = None"
  shows "\<not> cd_triggered c \<and> cd_failure c = None \<and>
    (cp_manager p \<or> \<not> communicationProcessFailed p \<or> canceled \<or> excused (cd_results c @ [p]) p)"
  using assms
  by (auto simp: collect_process_def manager_known_def excused_def communicationParticipantFailureOverridesManager_def Let_def
      split: if_splits)

lemma quiet_back:
  assumes "collect_results go err n es c = Some c'" "\<not> cd_triggered c'" "cd_failure c' = None"
  shows "\<not> cd_triggered c \<and> cd_failure c = None"
  using assms
proof (induction es arbitrary: c)
  case (Cons e es)
  show ?case
  proof (cases "length (cd_results c) \<ge> n \<or> ended_process go e = None")
    case True
    then show ?thesis using Cons by (auto split: if_splits)
  next
    case False
    then obtain p where p: "ended_process go e = Some p" "\<not> length (cd_results c) \<ge> n" by auto
    then have "\<not> cd_triggered (collect_process err p (request_canceled e) c) \<and> cd_failure (collect_process err p (request_canceled e) c) = None"
      using Cons by simp
    then show ?thesis by (auto simp: collect_process_def Let_def split: if_splits)
  qed
qed (auto split: if_splits)

lemma collected_fair:
  assumes "collect_results go err n es c = Some c'" "length (cd_results c) + length (processes go es) = n" "failure_known c"
    "manager_known c" "why_triggered err c"
  shows "why_triggered err c' \<and>
    (\<not> cd_triggered c' \<and> cd_failure c' = None \<longrightarrow>
      (\<forall>e \<in> set es. \<forall>p. ended_process go e = Some p \<and> \<not> cp_manager p \<and> communicationProcessFailed p \<longrightarrow>
         request_canceled e \<or> excused (cd_results c') p))"
  using assms
proof (induction es arbitrary: c)
  case (Cons e es)
  show ?case
  proof (cases "ended_process go e")
    case None
    show ?thesis
    proof (cases "length (cd_results c) \<ge> n")
      case True
      then have c: "c' = c" using Cons.prems(1) by simp
      have "length (cd_results c) + length (processes go es) = n" using Cons.prems(2) None by simp
      then have "length (processes go es) = 0" using True by linarith
      then show ?thesis using None Cons.prems(5) c by (auto simp: processes_def map_filter_def filter_empty_conv)
    next
      case False
      then show ?thesis using Cons.IH [of c] Cons.prems None by auto
    qed
  next
    case (Some p)
    let ?c = "collect_process err p (request_canceled e) c"
    have r: "collect_results go err n es ?c = Some c'" using Cons.prems(1,2) Some by simp
    have l: "length (cd_results ?c) + length (processes go es) = n" using Cons.prems(2) Some by simp
    note IH = Cons.IH [OF r l collect_known [OF Cons.prems(3)] collect_invariants(1) [OF Cons.prems(4)] collect_invariants(2) [OF Cons.prems(5)]]
    obtain c2 where "collect_results go err n es ?c = Some c2" "cd_results c2 = cd_results ?c @ processes go es"
      using collected [OF l collect_known [OF Cons.prems(3)], of err] by blast
    then have e: "cd_results c' = cd_results ?c @ processes go es" by (metis r option.inject)
    have "request_canceled e \<or> excused (cd_results c') p"
      if "\<not> cd_triggered c'" "cd_failure c' = None" "\<not> cp_manager p" "communicationProcessFailed p"
    proof -
      have "\<not> cd_triggered ?c \<and> cd_failure ?c = None" using quiet_back [OF r] that by simp
      then have "request_canceled e \<or> excused (cd_results c @ [p]) p" using collect_quiet [OF Cons.prems(4)] that by blast
      then show ?thesis using e by (auto simp: excused_def)
    qed
    then show ?thesis using IH Some by auto
  qed
qed (auto split: if_splits)

lemma coordinate_fair:
  assumes "all_end (length (go_Participants go)) es" "all_ready go es" "coordinate go err es = Some c"
    and "cd_failure c = None" "\<not> err" "\<forall>m \<in> set (cd_results c). cp_manager m \<longrightarrow> \<not> communicationProcessFailed m"
    and "e \<in> set es" "ended_process go e = Some p" "\<not> cp_manager p" "communicationProcessFailed p"
  shows "request_canceled e \<or> excused (cd_results c) p"
proof -
  let ?n = "length (go_Participants go) + 1"
  have t: "take ?n es = replicate ?n TargetReady" using assms(2) by (simp add: all_ready_def)
  have r: "collect_results go err ?n (drop ?n es) new_coordinator = Some c"
    using assms(3) await_all_ready [OF t, of go new_coordinator] by (simp add: coordinate_def Let_def)
  have es: "es = replicate ?n TargetReady @ drop ?n es" using t by (metis append_take_drop_id)
  have "processes go (replicate k TargetReady @ xs) = processes go xs" for k xs by (induction k) (simp_all add: ended_process_def)
  then have "length (processes go (drop ?n es)) = ?n" using es all_end_length [OF assms(1)] by metis
  then have l: "length (cd_results new_coordinator) + length (processes go (drop ?n es)) = ?n" by (simp add: new_coordinator_def)
  have i: "failure_known new_coordinator" "manager_known new_coordinator" "why_triggered err new_coordinator"
    by (simp_all add: failure_known_def manager_known_def why_triggered_def new_coordinator_def)
  note f = collected_fair [OF r l i]
  have "\<not> cd_triggered c" using f assms(4-6) by (auto simp: why_triggered_def)
  moreover have "e \<in> set (drop ?n es)"
  proof -
    have "e \<noteq> TargetReady" using assms(8) by (auto simp: ended_process_def)
    then show ?thesis using assms(7) es by (metis Un_iff in_set_replicate set_append)
  qed
  ultimately show ?thesis using f assms(4,8-10) by blast
qed

section \<open>The response\<close>

lemma version_2_seats:
  assumes "ValidateCommunication E req = None" "rq_Communication req = Some spec" "cm_Version spec = 2"
  shows "cm_ParticipantCount spec = 2"
  using assms by (auto simp: ValidateCommunication_def comm_header_def Let_def err_of_None_iff and_then_Inr_iff)

lemma started_length:
  assumes "communication_setup sv H tuning req spec = Inr go" "rq_Communication req = Some spec"
  shows "length (go_Participants go) = nat (cm_ParticipantCount spec) \<and> ValidateCommunication (ch_env H) req = None"
proof -
  obtain walls ps where s: "communication_admission sv (ch_env H) (ch_error_text H) req spec = Inr walls"
    "prepare_participants H tuning req spec = Inr ps"
    "go_Participants go = map (\<lambda>(i, p). (p\<lparr>pp_args := pp_args p @ [dec i]\<rparr>, CommunicationParticipantUIDForIndex (int i))) (enumerate 0 ps)"
    using setup_steps [OF assms(1)] by auto
  have v: "ValidateCommunication (ch_env H) req = None" using admission_facts [OF s(1)] by blast
  have "1 \<le> cm_ParticipantCount spec" using ValidateCommunication_accepts(7) [OF v assms(2)] by linarith
  then have "length ps = nat (cm_ParticipantCount spec)" using participants_prepared [OF s(2)] by blast
  then show ?thesis using v s(3) by simp
qed

lemma stderr_kept [simp]:
  "rs_Status (participant_stderr req ps r) = rs_Status r" "rs_Score (participant_stderr req ps r) = rs_Score r"
  "rs_Match (participant_stderr req ps r) = rs_Match r" "rs_VerdictSource (participant_stderr req ps r) = rs_VerdictSource r"
  by (simp_all add: participant_stderr_def split: option.split prod.split)

lemma peak_kept [simp]:
  "rs_Status (peak_memory st r) = rs_Status r" "rs_Score (peak_memory st r) = rs_Score r" "rs_Match (peak_memory st r) = rs_Match r"
  "rs_VerdictSource (peak_memory st r) = rs_VerdictSource r"
  by (simp_all add: peak_memory_def Let_def)

lemma settled:
  obtains (kept) "rs_Status (settle_aggregate req spec g st r) = rs_Status r" "rs_Score (settle_aggregate req spec g st r) = rs_Score r"
      "rs_Match (settle_aggregate req spec g st r) = rs_Match r" "rs_VerdictSource (settle_aggregate req spec g st r) = rs_VerdictSource r"
      "rs_Status r = RunStatusAccepted \<longrightarrow> \<not> (g \<and> (\<exists>s. st = Some s \<and> breached s))"
      "cm_Version spec = 2 \<longrightarrow> g \<longrightarrow> st \<noteq> None"
  | (breach) reason source r0 where "settle_aggregate req spec g st r = aggregate_failure req spec reason source r0"
      "rs_Match r0 = rs_Match r" "cm_Version spec = 2 \<or> g \<and> (\<exists>s. st = Some s \<and> breached s)"
proof -
  show ?thesis
  proof (cases "g \<and> (case st of None \<Rightarrow> cm_Version spec = 2 | Some s \<Rightarrow> rs_Status r \<in> {RunStatusAccepted, RunStatusWA} \<and> breached s)")
    case True
    then show ?thesis
      by (cases st) (auto intro!: breach simp: settle_aggregate_def Let_def)
  next
    case False
    then show ?thesis by (cases st) (auto intro!: kept simp: settle_aggregate_def Let_def)
  qed
qed

lemma totals_match [simp]: "rs_Match (communication_totals ps r) = rs_Match r"
  unfolding communication_totals_def by (induction ps arbitrary: r) simp_all

text \<open>When a judged communication is accepted.\<close>

definition judged_accepted :: "json_decoders \<Rightarrow> communication_outcome \<Rightarrow> communication_start \<Rightarrow> coordinator \<Rightarrow> bool" where
  "judged_accepted J out go c \<longleftrightarrow>
     (let protocol = readCommunicationResult J (co_ManagerOutput out) 1 in
      coordinate go (protocol_failed protocol) (co_Events out) = Some c \<and> cd_failure c = None \<and>
      (\<exists>m r. manager_of (cd_results c) = Some m \<and> ran_clean (cp_request m) (cp_result m) \<and> exited_zero (cp_result m) \<and>
         protocol = Inr r \<and> cr_Verdict r = ''accepted'') \<and>
      \<not> (go_Cgroup go \<and> (\<exists>s. co_Stats out = Some s \<and> breached s)))"

lemma judged_processes:
  assumes v: "cm_Version spec = 1" and e: "all_end (length (go_Participants go)) (co_Events out)"
    and raw: "\<And>p. p \<in> set (processes go (co_Events out)) \<Longrightarrow> er_Status (cp_result p) \<noteq> RunStatusAccepted"
  shows "\<exists>r c. run_processes J out req spec go = Some r \<and> cd_results c = processes go (co_Events out) \<and> rs_Match r = None \<and>
    (\<exists>score. rs_Score r = Some score \<and> 0 \<le> score \<and> score \<le> 1 \<and> (rs_Status r = RunStatusRE \<longrightarrow> score = 0)) \<and>
    (rs_Status r = RunStatusAccepted \<longleftrightarrow> judged_accepted J out go c) \<and>
    coordinate go (protocol_failed (readCommunicationResult J (co_ManagerOutput out) 1)) (co_Events out) = Some c"
proof -
  let ?protocol = "readCommunicationResult J (co_ManagerOutput out) 1"
  obtain c where c: "coordinate go (protocol_failed ?protocol) (co_Events out) = Some c" "cd_results c = processes go (co_Events out)"
    "failure_known c"
    using coordinate_returns [OF e] by blast
  define r0 where "r0 = buildCommunicationResponse (cd_results c) ?protocol (co_Started out) (co_WallMs out) (cd_failure c)"
  have raw': "er_Status (cp_result f) \<noteq> RunStatusAccepted" if "cd_failure c = Some f" for f
    using that raw c(2,3) by (auto simp: failure_known_def)
  have p: "?protocol = readCommunicationManagerResult J (co_ManagerOutput out)" by (simp add: readCommunicationResult_def)
  note b = communication_verdict [OF raw' p r0_def]
  have m: "rs_Match r0 = None"
    by (auto simp: r0_def buildCommunicationResponse_def zero_RunResponse_def Let_def split: option.split prod.split)
  let ?r1 = "settle_aggregate req spec (go_Cgroup go) (co_Stats out) r0"
  define r where "r = participant_stderr req (cd_results c) ?r1"
  have r: "run_processes J out req spec go = Some r"
    using c(1) v by (simp add: run_processes_def coordinated_response_def r_def r0_def)
  have f: "rs_Match ?r1 = None \<and> (\<exists>score. rs_Score ?r1 = Some score \<and> 0 \<le> score \<and> score \<le> 1 \<and> (rs_Status ?r1 = RunStatusRE \<longrightarrow> score = 0)) \<and>
      (rs_Status ?r1 = RunStatusAccepted \<longleftrightarrow>
         rs_Status r0 = RunStatusAccepted \<and> \<not> (go_Cgroup go \<and> (\<exists>s. co_Stats out = Some s \<and> breached s)))"
  proof (cases rule: settled [of req spec "go_Cgroup go" "co_Stats out" r0])
    case kept
    then show ?thesis using b m by auto
  next
    case (breach reason source r2)
    then show ?thesis using m v by (simp add: aggregate_failure_def)
  qed
  have a: "rs_Status r = RunStatusAccepted \<longleftrightarrow> judged_accepted J out go c"
    using f b c(1) by (simp add: r_def judged_accepted_def Let_def)
  show ?thesis using r c(1,2) a f by (intro exI [of _ r] exI [of _ c]) (simp add: r_def)
qed

lemma judged_fair:
  assumes "judged_accepted J out go c" "all_end (length (go_Participants go)) (co_Events out)" "all_ready go (co_Events out)"
    and "e \<in> set (co_Events out)" "ended_process go e = Some p" "\<not> cp_manager p" "communicationProcessFailed p"
  shows "request_canceled e \<or> excused (cd_results c) p"
proof -
  let ?protocol = "readCommunicationResult J (co_ManagerOutput out) 1"
  obtain m r where j: "coordinate go (protocol_failed ?protocol) (co_Events out) = Some c" "cd_failure c = None"
    "manager_of (cd_results c) = Some m" "ran_clean (cp_request m) (cp_result m)" "exited_zero (cp_result m)" "?protocol = Inr r"
    using assms(1) by (auto simp: judged_accepted_def Let_def)
  have "\<not> communicationProcessFailed m" using j(4,5) classify_ok_iff by (auto simp: communicationProcessFailed_def)
  moreover have "q = m" if "q \<in> set (cd_results c)" "cp_manager q" for q
  proof -
    have "cd_results c = processes go (co_Events out)" using coordinate_returns [OF assms(2)] j(1) by (metis option.inject)
    then show ?thesis using one_manager [OF assms(2)] that manager_of_member [OF j(3)] by metis
  qed
  ultimately have "\<forall>q \<in> set (cd_results c). cp_manager q \<longrightarrow> \<not> communicationProcessFailed q" by blast
  then show ?thesis using coordinate_fair [OF assms(2,3) j(1,2)] j(6) assms(4-7) by (simp add: protocol_failed_def)
qed

lemma stamped:
  assumes "mr_ErrorCode m = []" "m' = stamp_match own source m"
  shows "mr_Wins m' = mr_Wins m \<and> mr_Outcome m' = mr_Outcome m \<and> mr_RuntimeFingerprint m' = id_RuntimeFingerprint own \<and>
    mr_RunnerSHA256 m' = id_RunnerSHA256 own \<and> mr_ImageDigest m' = id_ImageDigest own \<and>
    (mr_Retriable m \<longrightarrow> (mr_Retriable m' \<longleftrightarrow> mr_ErrorCode m' = [])) \<and>
    (source = ''communication:match'' \<longrightarrow> mr_Retriable m' = mr_Retriable m)"
  using assms by (auto simp: stamp_match_def)

text \<open>What a match response says when there is a winner.\<close>

definition cgroup_within :: "communication_start \<Rightarrow> communication_outcome \<Rightarrow> bool" where
  "cgroup_within go out \<longleftrightarrow> (go_Cgroup go \<longrightarrow> (\<exists>s. co_Stats out = Some s \<and> \<not> breached s))"

definition match_decided :: "communication_outcome \<Rightarrow> coordinator \<Rightarrow> string \<Rightarrow> int \<times> int \<Rightarrow> json_decoders \<Rightarrow> bool" where
  "match_decided out c outcome w J \<longleftrightarrow>
     (let ps = match_results out c; canceledAt = (if cd_failure c = None then 0 else co_CanceledAt out) in
      0 \<le> fst w \<and> 0 \<le> snd w \<and> fst w + snd w = 20 \<and> \<not> co_RequestErr out \<and> co_Started out = 2 \<and>
      (\<forall>p \<in> set ps. \<not> cp_manager p \<longrightarrow> \<not> infrastructure_failure p) \<and>
      (outcome = ''completed'' \<and>
         completed_match ps (readCommunicationResult J (co_ManagerOutput out) 2) (cd_failure c) canceledAt w \<or>
       outcome = ''forfeit'' \<and>
         forfeited_match ps (readCommunicationResult J (co_ManagerOutput out) 2) (cd_failure c) canceledAt w))"

lemma match_processes:
  assumes v: "cm_Version spec = 2" and n: "length (go_Participants go) = 2" and e: "all_end 2 (co_Events out)"
  shows "\<exists>r c m. run_processes J out req spec go = Some r \<and>
    coordinate go (protocol_failed (readCommunicationResult J (co_ManagerOutput out) 2)) (co_Events out) = Some c \<and>
    cd_results c = processes go (co_Events out) \<and> rs_Match r = Some m \<and> mr_ErrorCode m = [] \<and>
    (case mr_Wins m of
       None \<Rightarrow> rs_Status r = RunStatusRE \<and> mr_Outcome m = ''judge_error'' \<and> mr_Retriable m
     | Some w \<Rightarrow> rs_Status r = RunStatusAccepted \<and> rs_VerdictSource r = ''communication:match'' \<and> \<not> mr_Retriable m \<and>
         match_decided out c (mr_Outcome m) w J \<and> cgroup_within go out)"
proof -
  let ?protocol = "readCommunicationResult J (co_ManagerOutput out) 2"
  obtain c where c: "coordinate go (protocol_failed ?protocol) (co_Events out) = Some c" "cd_results c = processes go (co_Events out)"
    "failure_known c"
    using coordinate_returns [of go "co_Events out"] e n by auto
  define canceledAt where "canceledAt = (if cd_failure c = None then 0 else co_CanceledAt out)"
  define r0 where "r0 = buildCommunicationMatchResponse req spec (match_results out c) ?protocol (co_Started out) (co_WallMs out)
    (cd_failure c) canceledAt (co_RequestErr out)"
  have seats: "cp_participant p = 0 \<or> cp_participant p = 1" if "p \<in> set (match_results out c)" "\<not> cp_manager p" for p
  proof -
    have "p \<in> set (processes go (co_Events out))" using that c(2) by (auto simp: match_results_def split: if_splits)
    then show ?thesis using processes_member [OF e _ that(2)] by fastforce
  qed
  have first: "f \<in> set (match_results out c) \<and> \<not> cp_manager f \<and> communicationProcessFailed f" if "cd_failure c = Some f" for f
    using that c(3) by (force simp: failure_known_def match_results_def)
  obtain m where m: "rs_Match r0 = Some m" "mr_ErrorCode m = []"
    and w: "case mr_Wins m of
       None \<Rightarrow> rs_Status r0 = RunStatusRE \<and> mr_Outcome m = ''judge_error'' \<and> mr_Retriable m
     | Some (a, b) \<Rightarrow> rs_Status r0 = RunStatusAccepted \<and> rs_VerdictSource r0 = ''communication:match'' \<and> \<not> mr_Retriable m \<and>
         0 \<le> a \<and> 0 \<le> b \<and> a + b = 20 \<and> \<not> co_RequestErr out \<and> co_Started out = 2 \<and>
         (\<forall>p \<in> set (match_results out c). \<not> cp_manager p \<longrightarrow> \<not> infrastructure_failure p) \<and>
         (mr_Outcome m = ''completed'' \<and> completed_match (match_results out c) ?protocol (cd_failure c) canceledAt (a, b) \<or>
          mr_Outcome m = ''forfeit'' \<and> forfeited_match (match_results out c) ?protocol (cd_failure c) canceledAt (a, b))"
    using match_verdict [OF seats first refl r0_def] by blast
  have w': "case mr_Wins m of
       None \<Rightarrow> rs_Status r0 = RunStatusRE \<and> mr_Outcome m = ''judge_error'' \<and> mr_Retriable m
     | Some w \<Rightarrow> rs_Status r0 = RunStatusAccepted \<and> rs_VerdictSource r0 = ''communication:match'' \<and> \<not> mr_Retriable m \<and>
         match_decided out c (mr_Outcome m) w J"
  proof (cases "mr_Wins m")
    case (Some w)
    then show ?thesis using w unfolding canceledAt_def by (cases w) (simp add: match_decided_def Let_def)
  qed (use w in simp)
  let ?r1 = "settle_aggregate req spec (go_Cgroup go) (co_Stats out) r0"
  define r where "r = participant_stderr req (match_results out c) ?r1"
  have "participant_stderr req (cd_results c) x = participant_stderr req (match_results out c) x" for x
  proof -
    have "find (\<lambda>p. \<not> (cp_manager p \<or> er_Stderr (cp_result p) = [])) (map (\<lambda>p. if cp_manager p then p\<lparr>cp_resultProtocolAt := t\<rparr> else p) ps) =
        find (\<lambda>p. \<not> (cp_manager p \<or> er_Stderr (cp_result p) = [])) ps" for ps :: "communicationProcess list" and t
      by (induction ps) auto
    then show ?thesis by (simp add: participant_stderr_def match_results_def)
  qed
  then have r: "run_processes J out req spec go = Some r"
    using c(1) v by (simp add: run_processes_def coordinated_response_def r_def r0_def canceledAt_def Let_def)
  have "\<exists>m. rs_Match ?r1 = Some m \<and> mr_ErrorCode m = [] \<and>
    (case mr_Wins m of
       None \<Rightarrow> rs_Status ?r1 = RunStatusRE \<and> mr_Outcome m = ''judge_error'' \<and> mr_Retriable m
     | Some w \<Rightarrow> rs_Status ?r1 = RunStatusAccepted \<and> rs_VerdictSource ?r1 = ''communication:match'' \<and> \<not> mr_Retriable m \<and>
         match_decided out c (mr_Outcome m) w J \<and> cgroup_within go out)"
  proof (cases rule: settled [of req spec "go_Cgroup go" "co_Stats out" r0])
    case kept
    have "cgroup_within go out" if "rs_Status r0 = RunStatusAccepted"
      using kept(5,6) v that by (cases "co_Stats out") (auto simp: cgroup_within_def)
    then show ?thesis using kept(1-4) m w' by (cases "mr_Wins m") simp_all
  next
    case (breach reason source r2)
    then show ?thesis using v by (simp add: aggregate_failure_def communicationMatchFailure_def Let_def)
  qed
  then obtain m where m: "rs_Match ?r1 = Some m" "mr_ErrorCode m = []"
    "case mr_Wins m of
       None \<Rightarrow> rs_Status ?r1 = RunStatusRE \<and> mr_Outcome m = ''judge_error'' \<and> mr_Retriable m
     | Some w \<Rightarrow> rs_Status ?r1 = RunStatusAccepted \<and> rs_VerdictSource ?r1 = ''communication:match'' \<and> \<not> mr_Retriable m \<and>
         match_decided out c (mr_Outcome m) w J \<and> cgroup_within go out"
    by blast
  have k: "rs_Status r = rs_Status ?r1" "rs_VerdictSource r = rs_VerdictSource ?r1" "rs_Match r = rs_Match ?r1" by (simp_all add: r_def)
  show ?thesis by (intro exI [of _ r] exI [of _ c] exI [of _ m] conjI r c(1,2) m [folded k])
qed

text \<open>
  A writer that forwards the output of a participant: whatever is written, the bytes that reach the manager and those that remain are
  the limit.
\<close>

lemma writer_bounded:
  assumes "0 \<le> ow_remaining w" "\<And>q. fst (target q) \<le> length q"
  shows "0 \<le> ow_remaining (fst (writer_Write target p w)) \<and>
    int (length (ow_forwarded (fst (writer_Write target p w)))) + ow_remaining (fst (writer_Write target p w)) =
      int (length (ow_forwarded w)) + ow_remaining w"
proof -
  define allowed where "allowed = (if int (length p) > ow_remaining w then nat (ow_remaining w) else length p)"
  have a: "int allowed \<le> ow_remaining w" "allowed \<le> length p" using assms(1) by (auto simp: allowed_def)
  obtain n err where n: "(if allowed > 0 then target (take allowed p) else (0, False)) = (n, err)" by fastforce
  have "n \<le> allowed"
  proof (cases "allowed > 0")
    case True
    then show ?thesis using n assms(2) [of "take allowed p"] a(2) by simp
  qed (use n in simp)
  then have l: "int n \<le> ow_remaining w" "min (length p) n = n" using a by auto
  let ?w = "w\<lparr>ow_remaining := ow_remaining w - int n, ow_forwarded := ow_forwarded w @ take n p\<rparr>"
  have "ow_remaining (fst (writer_Write target p w)) = ow_remaining ?w \<and> ow_forwarded (fst (writer_Write target p w)) = ow_forwarded ?w"
    using n unfolding writer_Write_def allowed_def [symmetric] by (simp add: Let_def)
  then show ?thesis using l by simp
qed

section \<open>Properties\<close>

text \<open>
  C37. What a communication starts. When the programs are started, the runner supports communication and the request is valid. A match runs on
  the runner with the fingerprint it names, and the input that the manager gets has the declared SHA-256. There are as many participants as
  declared and allowed, each with the program of its seat, without network, and under a reserved user of its own that is not the
  manager's; the manager is told the descriptors of the right files. The processes get at least the time of their limits, and on Cloud Run
  the memory, the workspaces with the reserve, the files of the programs and the wall-clock times stay within the budgets of the instance.
\<close>

theorem communication_admitted:
  assumes "communication_setup sv H tuning req spec = Inr go" and "rq_Communication req = Some spec"
  shows "supportsCommunicationV1 sv \<and> ValidateCommunication (ch_env H) req = None \<and>
    (cm_Version spec = 2 \<longrightarrow> cm_RuntimeFingerprint spec = id_RuntimeFingerprint (cs_CompetitiveIdentity sv) \<and>
       cm_RuntimeFingerprint spec \<noteq> [] \<and> env_sha256_hex (ch_env H) (go_Input go) = cm_InputSHA256 spec) \<and>
    length (go_Participants go) = nat (cm_ParticipantCount spec) \<and> 2 \<le> cm_ParticipantCount spec \<and>
    cm_ParticipantCount spec \<le> cs_MaxParticipants sv \<and>
    (\<forall>(p, uid) \<in> set (go_Participants go). \<not> rq_EnableNetwork (pp_request p)) \<and>
    (\<forall>i < length (go_Participants go). pp_request (fst (go_Participants go ! i)) = seat_request req spec i) \<and>
    distinct (map snd (go_Participants go)) \<and>
    (\<forall>(p, u) \<in> set (go_Participants go).
       \<exists>uid. u = Some uid \<and> IsReservedCommunicationIdentity uid \<and> uid \<noteq> CommunicationManagerUID) \<and>
    (\<exists>args n. n = length (go_Participants go) \<and>
       pp_args (go_Manager go) = args @ [fst (ch_Paths H), snd (ch_Paths H), fd_path (6 + 2 * n), dec n] @
         concat (map (\<lambda>i. [fd_path (6 + 2 * i), fd_path (7 + 2 * i)]) [0..<n]) @
         (if cm_Version spec = 2 then [cm_MatchSeed spec] else []) \<and>
       manager_files n ! (2 * n) = ResultWrite \<and>
       (\<forall>i < n. manager_files n ! (2 * i) = FromParticipant i \<and> manager_files n ! (2 * i + 1) = ToParticipant i)) \<and>
    lim_TimeMs (rq_Limits req) \<le> fst (go_Walls go) \<and> lim_TimeMs (communicationManagerLimits (rq_Limits req)) \<le> snd (go_Walls go) \<and>
    (sv_DeploymentTarget sv = TargetCloudRun \<longrightarrow> cloud_bounded sv req spec (go_Walls go))"
proof -
  obtain walls ps manager where s: "communication_admission sv (ch_env H) (ch_error_text H) req spec = Inr walls"
    "prepare_participants H tuning req spec = Inr ps" "input_integrity H spec (go_Input go) = None"
    "go_Participants go = map (\<lambda>(i, p). (p\<lparr>pp_args := pp_args p @ [dec i]\<rparr>, CommunicationParticipantUIDForIndex (int i))) (enumerate 0 ps)"
    "go_Manager go = manager\<lparr>pp_args := manager_args (pp_args manager) (ch_Paths H) (nat (cm_ParticipantCount spec))
       (if cm_Version spec = 2 then Some (cm_MatchSeed spec) else None)\<rparr>"
    "go_Walls go = walls"
    using setup_steps [OF assms(1)] by auto
  note a = admission_facts [OF s(1)]
  have bounds: "2 \<le> cm_ParticipantCount spec \<and> cm_ParticipantCount spec \<le> 64" using a ValidateCommunication_accepts(7) [OF _ assms(2)] by blast
  let ?n = "nat (cm_ParticipantCount spec)"
  have le: "?n \<le> 64" using bounds by (simp add: nat_le_iff)
  have "1 \<le> cm_ParticipantCount spec" using bounds by linarith
  note p = participants_prepared [OF s(2) this]
  have n: "length (go_Participants go) = ?n" using p s(4) by simp
  have sha: "cm_Version spec = 2 \<longrightarrow> env_sha256_hex (ch_env H) (go_Input go) = cm_InputSHA256 spec"
    using s(3) by (auto simp: input_integrity_def split: if_splits)
  have at: "fst (go_Participants go ! i) = (ps ! i)\<lparr>pp_args := pp_args (ps ! i) @ [dec i]\<rparr>" "snd (go_Participants go ! i) = CommunicationParticipantUIDForIndex (int i)"
    if "i < ?n" for i using that p s(4) by (simp_all add: nth_enumerate_eq)
  have req: "\<forall>i < length (go_Participants go). pp_request (fst (go_Participants go ! i)) = seat_request req spec i"
    using p n at by simp
  have "map snd (go_Participants go) = map (\<lambda>i. CommunicationParticipantUIDForIndex (int i)) [0..<?n]"
    using n at by (intro nth_equalityI) simp_all
  then have d: "distinct (map snd (go_Participants go))" using participant_identities [OF le] by simp
  have all: "\<not> rq_EnableNetwork (pp_request (fst x)) \<and>
      (\<exists>uid. snd x = Some uid \<and> IsReservedCommunicationIdentity uid \<and> uid \<noteq> CommunicationManagerUID)"
    if x: "x \<in> set (go_Participants go)" for x
  proof -
    obtain i where i: "i < ?n" "x = go_Participants go ! i" using x n by (metis in_set_conv_nth)
    have "\<not> rq_EnableNetwork (seat_request req spec i)"
      by (simp add: seat_request_def communicationProgramRequest_def zero_RunRequest_def)
    then show ?thesis using i req n at(2) participant_identities [OF le] by auto
  qed
  have args: "pp_args (go_Manager go) = pp_args manager @ [fst (ch_Paths H), snd (ch_Paths H), fd_path (6 + 2 * ?n), dec ?n] @
      concat (map (\<lambda>i. [fd_path (6 + 2 * i), fd_path (7 + 2 * i)]) [0..<?n]) @ (if cm_Version spec = 2 then [cm_MatchSeed spec] else [])"
    using manager_files_at [of ?n] by (simp add: s(5) manager_args_def mult.commute)
  show ?thesis
  proof (intro conjI exI [of _ "pp_args manager"] exI [of _ ?n])
    show "\<forall>(p, uid) \<in> set (go_Participants go). \<not> rq_EnableNetwork (pp_request p)" using all by fastforce
    show "\<forall>(p, u) \<in> set (go_Participants go). \<exists>uid. u = Some uid \<and> IsReservedCommunicationIdentity uid \<and> uid \<noteq> CommunicationManagerUID"
      using all by fastforce
    show "cm_Version spec = 2 \<longrightarrow> cm_RuntimeFingerprint spec = id_RuntimeFingerprint (cs_CompetitiveIdentity sv) \<and>
       cm_RuntimeFingerprint spec \<noteq> [] \<and> env_sha256_hex (ch_env H) (go_Input go) = cm_InputSHA256 spec"
      using a sha by blast
  qed (use a bounds n req d args manager_files_at [of ?n] s(6) in simp_all)
qed

text \<open>
  C38. The result of a judged communication. Once every process that was started has ended, the request gets a response with a score
  between 0 and 1, 0 after a runtime error. It is accepted exactly when the programs could be started, no participant failed first,
  the manager ended well and reported accepted, and the cgroup met no limit; and when all programs had become ready, a participant that
  failed in an accepted run did so after the manager had ended, or after the request was canceled.
\<close>

theorem communication_judged:
  assumes "cm_Version spec = 1" and "rq_Communication req = Some spec"
    and "\<And>go. communication_setup sv H tuning req spec = Inr go \<Longrightarrow>
      all_end (length (go_Participants go)) (co_Events (P tuning go)) \<and>
      (\<forall>p \<in> set (processes go (co_Events (P tuning go))). er_Status (cp_result p) \<noteq> RunStatusAccepted)"
  shows "\<exists>resp logs. runCommunication sv H P J req spec onLog tuning = Some (resp, logs) \<and> rs_Match resp = None \<and>
    (\<exists>score. rs_Score resp = Some score \<and> 0 \<le> score \<and> score \<le> 1 \<and> (rs_Status resp = RunStatusRE \<longrightarrow> score = 0)) \<and>
    (rs_Status resp = RunStatusAccepted \<longleftrightarrow>
      (\<exists>go c. communication_setup sv H tuning req spec = Inr go \<and> judged_accepted J (P tuning go) go c \<and>
         (all_ready go (co_Events (P tuning go)) \<longrightarrow>
           (\<forall>e \<in> set (co_Events (P tuning go)). \<forall>p. ended_process go e = Some p \<and> \<not> cp_manager p \<and> communicationProcessFailed p \<longrightarrow>
              request_canceled e \<or> excused (cd_results c) p))))"
proof (cases "communication_setup sv H tuning req spec")
  case (Inl e)
  then show ?thesis
    using assms(1) by (cases e) (simp add: runCommunication_def decorate_match_def communicationFailure_def zero_RunResponse_def)
next
  case (Inr go)
  let ?out = "P tuning go"
  note h = assms(3) [OF Inr]
  obtain r c where r: "run_processes J ?out req spec go = Some r" "cd_results c = processes go (co_Events ?out)" "rs_Match r = None"
    "\<exists>score. rs_Score r = Some score \<and> 0 \<le> score \<and> score \<le> 1 \<and> (rs_Status r = RunStatusRE \<longrightarrow> score = 0)"
    "rs_Status r = RunStatusAccepted \<longleftrightarrow> judged_accepted J ?out go c"
    "coordinate go (protocol_failed (readCommunicationResult J (co_ManagerOutput ?out) 1)) (co_Events ?out) = Some c"
    using judged_processes [where go = go and out = ?out and J = J and req = req, OF assms(1)] h by blast
  have fair: "request_canceled e \<or> excused (cd_results c) p"
    if "judged_accepted J ?out go c" "all_ready go (co_Events ?out)" "e \<in> set (co_Events ?out)" "ended_process go e = Some p"
      "\<not> cp_manager p" "communicationProcessFailed p" for c e p
    using judged_fair [OF that(1) _ that(2-6)] h by blast
  have run: "runCommunication sv H P J req spec onLog tuning =
      Some (r, emitCapturedLog onLog ''stderr'' (rs_Stderr r) (responseStderrLimitBytes req))"
    using Inr r(1) assms(1) by (simp add: runCommunication_def decorate_match_def)
  have "rs_Status r = RunStatusAccepted \<longleftrightarrow>
      (\<exists>go c. communication_setup sv H tuning req spec = Inr go \<and> judged_accepted J (P tuning go) go c \<and>
         (all_ready go (co_Events (P tuning go)) \<longrightarrow>
           (\<forall>e \<in> set (co_Events (P tuning go)). \<forall>p. ended_process go e = Some p \<and> \<not> cp_manager p \<and> communicationProcessFailed p \<longrightarrow>
              request_canceled e \<or> excused (cd_results c) p)))"
  proof
    assume "rs_Status r = RunStatusAccepted"
    then have j: "judged_accepted J ?out go c" using r(5) by blast
    show "\<exists>go c. communication_setup sv H tuning req spec = Inr go \<and> judged_accepted J (P tuning go) go c \<and>
         (all_ready go (co_Events (P tuning go)) \<longrightarrow>
           (\<forall>e \<in> set (co_Events (P tuning go)). \<forall>p. ended_process go e = Some p \<and> \<not> cp_manager p \<and> communicationProcessFailed p \<longrightarrow>
              request_canceled e \<or> excused (cd_results c) p))"
      using fair [OF j] by (intro exI [of _ go] exI [of _ c] conjI Inr j) blast
  next
    assume "\<exists>go c. communication_setup sv H tuning req spec = Inr go \<and> judged_accepted J (P tuning go) go c \<and>
         (all_ready go (co_Events (P tuning go)) \<longrightarrow>
           (\<forall>e \<in> set (co_Events (P tuning go)). \<forall>p. ended_process go e = Some p \<and> \<not> cp_manager p \<and> communicationProcessFailed p \<longrightarrow>
              request_canceled e \<or> excused (cd_results c) p))"
    then obtain c' where j: "judged_accepted J ?out go c'" using Inr by auto
    then have "c' = c" using r(6) by (simp add: judged_accepted_def Let_def)
    then show "rs_Status r = RunStatusAccepted" using j r(5) by simp
  qed
  then show ?thesis using run r(3,4) by blast
qed

text \<open>
  C39. The result of a match. Once the programs have ended, the request gets a response without a score and with a result that carries the
  identity of the runner. There are wins exactly when it is accepted; then it cannot be retried, the two counts are not negative and sum
  to 20, both programs and the manager started on the input with the declared hash, no sandbox of a program failed, and the counters of the
  cgroup, if there is one, are known and within its limits. Either the match was completed and
  counted by the manager, while no program failed on its own account and the manager did not end after a recorded failure other
  than a closed stream; or it was forfeited: the program of the losing seat failed, on its own account or, when no program did,
  as the failure the coordinator recorded, the other program did not fail on its own account, and the
  manager did not fail on its own account and, if it ended well, did so only after the recorded failure. Otherwise the judge failed, and it
  can be retried unless the input or the runner is the wrong one.
\<close>

theorem communication_match:
  assumes "cm_Version spec = 2" and "rq_Communication req = Some spec"
    and "\<And>go. communication_setup sv H tuning req spec = Inr go \<Longrightarrow> all_end (length (go_Participants go)) (co_Events (P tuning go))"
  shows "\<exists>resp logs m. runCommunication sv H P J req spec onLog tuning = Some (resp, logs) \<and> rs_Score resp = None \<and>
    rs_Match resp = Some m \<and> mr_RuntimeFingerprint m = id_RuntimeFingerprint (cs_CompetitiveIdentity sv) \<and>
    mr_RunnerSHA256 m = id_RunnerSHA256 (cs_CompetitiveIdentity sv) \<and> mr_ImageDigest m = id_ImageDigest (cs_CompetitiveIdentity sv) \<and>
    (case mr_Wins m of
       None \<Rightarrow> rs_Status resp = RunStatusRE \<and> mr_Outcome m = ''judge_error'' \<and> (mr_Retriable m \<longleftrightarrow> mr_ErrorCode m = [])
     | Some w \<Rightarrow> rs_Status resp = RunStatusAccepted \<and> \<not> mr_Retriable m \<and>
         (\<exists>go c. communication_setup sv H tuning req spec = Inr go \<and>
            coordinate go (protocol_failed (readCommunicationResult J (co_ManagerOutput (P tuning go)) 2)) (co_Events (P tuning go)) = Some c \<and>
            cd_results c = processes go (co_Events (P tuning go)) \<and> match_decided (P tuning go) c (mr_Outcome m) w J \<and>
            cgroup_within go (P tuning go) \<and> env_sha256_hex (ch_env H) (go_Input go) = cm_InputSHA256 spec))"
proof (cases "communication_setup sv H tuning req spec")
  case (Inl e)
  obtain reason source where e: "e = (reason, source)" by (cases e)
  let ?m0 = "communicationMatchFailure req spec reason"
  define m where "m = stamp_match (cs_CompetitiveIdentity sv) source ?m0"
  have m0: "mr_ErrorCode ?m0 = []" "mr_Wins ?m0 = None" "mr_Outcome ?m0 = ''judge_error''" "mr_Retriable ?m0"
    by (simp_all add: communicationMatchFailure_def)
  note m = stamped [OF m0(1) m_def]
  let ?r = "communicationFailure reason source 0"
  have "runCommunication sv H P J req spec onLog tuning = Some (?r\<lparr>rs_Score := None, rs_Match := Some m\<rparr>, [])"
    using Inl e assms(1) by (simp add: runCommunication_def decorate_match_def communicationFailure_def zero_RunResponse_def m_def)
  moreover have "rs_Status ?r = RunStatusRE" by (simp add: communicationFailure_def)
  ultimately show ?thesis using m m0 by auto
next
  case (Inr go)
  let ?out = "P tuning go"
  have n: "length (go_Participants go) = 2"
    using started_length [OF Inr assms(2)] version_2_seats [OF _ assms(2,1)] by auto
  obtain r c m0 where co: "coordinate go (protocol_failed (readCommunicationResult J (co_ManagerOutput ?out) 2)) (co_Events ?out) = Some c"
    and r: "run_processes J ?out req spec go = Some r" "cd_results c = processes go (co_Events ?out)"
    "rs_Match r = Some m0" "mr_ErrorCode m0 = []"
    "case mr_Wins m0 of
       None \<Rightarrow> rs_Status r = RunStatusRE \<and> mr_Outcome m0 = ''judge_error'' \<and> mr_Retriable m0
     | Some w \<Rightarrow> rs_Status r = RunStatusAccepted \<and> rs_VerdictSource r = ''communication:match'' \<and> \<not> mr_Retriable m0 \<and>
         match_decided ?out c (mr_Outcome m0) w J \<and> cgroup_within go ?out"
    using match_processes [where go = go and out = ?out and J = J and req = req, OF assms(1) n] assms(3) [OF Inr] n by auto
  define m where "m = stamp_match (cs_CompetitiveIdentity sv) (rs_VerdictSource r) m0"
  note s = stamped [OF r(4) m_def]
  have run: "runCommunication sv H P J req spec onLog tuning = Some (r\<lparr>rs_Score := None, rs_Match := Some m\<rparr>,
      emitCapturedLog onLog ''stderr'' (rs_Stderr r) (responseStderrLimitBytes req))"
    using Inr r(1,3) assms(1) by (simp add: runCommunication_def decorate_match_def m_def)
  show ?thesis
  proof (cases "mr_Wins m0")
    case None
    then show ?thesis using run r(5) s by auto
  next
    case (Some w)
    then have "rs_Status r = RunStatusAccepted" "\<not> mr_Retriable m" "match_decided ?out c (mr_Outcome m) w J" "cgroup_within go ?out"
      "mr_Wins m = Some w"
      using r(5) s by auto
    moreover have "env_sha256_hex (ch_env H) (go_Input go) = cm_InputSHA256 spec"
      using setup_steps [OF Inr] assms(1) by (auto simp: input_integrity_def split: if_splits)
    ultimately show ?thesis using run s Inr r(2) co by auto
  qed
qed

end
