(* ===== verification/Communication_Demo.thy ===== *)
theory Communication_Demo
  imports Communication_Safety Request_Properties
begin

text \<open>
  A judged communication and a match, run on a Cloud Run instance whose programs end well, and the witnesses that need them.
\<close>

section \<open>The runner and its host\<close>

definition demo_sha :: string where "demo_sha = replicate 64 (CHR ''a'')"

definition sha_env :: env where
  "sha_env = demo_env\<lparr>env_sha256_hex := (\<lambda>_. demo_sha)\<rparr>"

definition cloud_runner :: communication_service where
  "cloud_runner =
     \<lparr>sv_DeploymentTarget = TargetCloudRun, sv_NetworkEgressIsolated = False,
      sv_RuntimeTuning = DefaultRuntimeTuningConfig, sv_RuntimeTuningProfiles = (\<lambda>_. None),
      sv_CPUNormalizer = \<lparr>cn_method = [], cn_referenceTimeNs = 0, cn_observedTimeNs = 0\<rparr>,
      sv_ShortCaseSampling = False,
      cs_CompetitiveIdentity = \<lparr>id_RuntimeFingerprint = demo_sha, id_RunnerSHA256 = demo_sha, id_ImageDigest = ''sha256:'' @ demo_sha\<rparr>,
      cs_CgroupParentDir = [], cs_CommunicationEnabled = True, cs_MaxParticipants = 64, cs_MemoryBudgetMB = 1024, cs_CPUCount = 2,
      cs_WallBudgetMs = 600000, cs_WorkRootMaxBytes = 2 ^ 29\<rparr>"

definition demo_program_host :: program_host where
  "demo_program_host = \<lparr>ph_Run = seven_host, ph_Relative = (\<lambda>_. ''a''), ph_Canonical = (\<lambda>_. Some ''/work/box/.aonohako-communication'')\<rparr>"

definition talk_host :: communication_host where
  "talk_host =
     \<lparr>ch_env = sha_env, ch_error_text = (\<lambda>_. []), ch_Participant = (\<lambda>_. demo_program_host), ch_Clone = (\<lambda>_. Some),
      ch_Manager = demo_program_host, ch_Usage = (\<lambda>_. Some 3),
      ch_Downloads = \<lparr>dl_env = sha_env, dl_check_text = (\<lambda>_. []), dl_get = (\<lambda>_. (HttpFails [], 0)), dl_read_error = (\<lambda>_. []),
        dl_close_error = (\<lambda>_. None)\<rparr>,
      ch_TempFails = (\<lambda>_. None), ch_InputReadable = True, ch_Paths = (''/work/i'', ''/work/o''), ch_WorkRoot = Some (2 ^ 20, 4096),
      ch_Cgroup = \<lparr>gh_EnableParent = False, gh_CreateRunGroup = (\<lambda>_. False), gh_EnableGroup = False\<rparr>, ch_Pipes = (\<lambda>_. None),
      ch_ResultPipe = None\<rparr>"

text \<open>Three programs become ready, the participants end, then the manager.\<close>

definition quiet_events :: "coord_event list" where
  "quiet_events = replicate 3 TargetReady @
     [ParticipantEnds 0 plain_result False 3 0 False, ParticipantEnds 1 plain_result False 4 0 False, ManagerEnds plain_result 5 0]"

definition quiet_run :: communication_processes where
  "quiet_run = (\<lambda>_ _. \<lparr>co_Events = quiet_events, co_ManagerOutput = Some [], co_ProtocolAt = 4, co_CanceledAt = 0, co_Started = 2,
     co_WallMs = 9, co_RequestErr = False, co_Stats = None\<rparr>)"

definition demo_json :: json_decoders where
  "demo_json =
     \<lparr>jd_manager = (\<lambda>_. Decoded (''accepted'', Some (Finite (1 / 2)), []) True),
      jd_match = (\<lambda>_. Decoded (1, [Some 12, Some 8], 20) True)\<rparr>"

lemma quiet_all_end: "all_end 2 quiet_events"
proof -
  have "List.map_filter end_of quiet_events = [Some 0, Some 1, None]"
    by (simp add: quiet_events_def map_filter_simps end_of_def numeral_3_eq_3)
  then show ?thesis by (auto simp: all_end_def less_Suc_eq numeral_2_eq_2)
qed

section \<open>The requests\<close>

definition match_spec :: CommunicationSpec where
  "match_spec = zero_CommunicationSpec\<lparr>cm_Version := 2, cm_ParticipantProgramIDs := [''p'', ''q''], cm_ManagerProgramID := ''m'',
     cm_ParticipantCount := 2, cm_ResultProtocol := ''match-result-v1'', cm_InputSHA256 := demo_sha, cm_RuntimeFingerprint := demo_sha\<rparr>"

definition match_binary :: Binary where "match_binary = (demo_binary ''c'')\<lparr>bin_SHA256 := demo_sha\<rparr>"

definition match_program :: "string \<Rightarrow> RunProgram" where
  "match_program name = (demo_program name)
     \<lparr>prog_SourceSHA256 := demo_sha, prog_Binaries := [match_binary]\<rparr>"

definition match_request :: RunRequest where
  "match_request = zero_RunRequest\<lparr>rq_Programs := [match_program ''p'', match_program ''q'', match_program ''m''],
     rq_Communication := Some match_spec, rq_Limits := demo_limits\<rparr>"

lemma demo_sha_valid: "validSHA256 demo_sha" "demo_sha \<noteq> []"
  by (simp_all add: validSHA256_iff demo_sha_def)

lemma talk_accepted: "ValidateCommunication sha_env demo_communication = None"
  by (simp add: demo_communication_def ValidateCommunication_def demo_communication_spec_def comm_header_def
    comm_reference_def comm_fields_def comm_program_def comm_participant_ids_def zero_defs
    demo_program_def demo_accepts demo_eval each_error.simps(2) MinCommunicationParticipants_def MaxCommunicationParticipants_def
    demo_limits_wall)

lemma match_binary_ok:
  "ValidateBinaries l [match_binary] = None" "bin_SHA256 match_binary = demo_sha" "bin_DataURL match_binary = []"
  "b64_stream_decode (bin_DataB64 match_binary) = Some ''ABC''"
  by (simp_all add: accepts binaries_ok_def binary_path_def binary_size_def match_binary_def demo_binary_def demo_paths demo_b64 bounds_defs
      zero_defs)

lemma match_accepted: "ValidateCommunication sha_env match_request = None"
  by (simp add: match_request_def ValidateCommunication_def match_spec_def comm_header_def
    comm_reference_def comm_fields_def comm_program_def comm_participant_ids_def comm_binary_v2_def zero_defs match_binary_ok
    match_program_def demo_program_def demo_accepts demo_eval demo_sha_valid each_error.simps(2) MinCommunicationParticipants_def
    MaxCommunicationParticipants_def demo_limits_wall sha_env_def Let_def)

lemma demo_decoded:
  "communicationProgramDecodedBytes (demo_program n) = Some 3" "communicationProgramDecodedBytes (match_program n) = Some 3"
  by (simp_all add: communicationProgramDecodedBytes_def decoded_bytes_def match_program_def demo_program_def match_binary_ok
      demo_binary_def zero_defs demo_b64 MaxInt64_def)

lemma talk_programs:
  "communicationPrograms demo_communication demo_communication_spec = (demo_program ''p'', demo_program ''m'')"
  "communicationParticipantPrograms demo_communication demo_communication_spec = [demo_program ''p'']"
  by (simp_all add: communicationParticipantPrograms_def communicationPrograms_def demo_communication_def demo_communication_spec_def
      demo_program_def zero_defs)

lemma match_programs:
  "snd (communicationPrograms match_request match_spec) = match_program ''m''"
  "communicationParticipantPrograms match_request match_spec = [match_program ''p'', match_program ''q'']"
  by (simp_all add: communicationParticipantPrograms_def communicationPrograms_def match_request_def match_spec_def
      match_program_def demo_program_def zero_defs)

lemma cloud_supports: "supportsCommunicationV1 cloud_runner"
  by (simp add: supportsCommunicationV1_def SupportsCommunicationV1_def cloud_runner_def)

lemma cloud_walls: "wall_allowance cloud_runner 2 1000 = (4000, True)" "wall_allowance cloud_runner 2 2000 = (7000, True)"
  by (simp_all add: wall_allowance_def communicationWallAllowanceMs_def cloud_runner_def RawLimitMillis_def Enabled_def
      MinCommunicationParticipants_def communicationWallSlackPercent_def communicationWallMinimumSlackMs_def MaxInt64_def Let_def)

lemma demo_limits_facts:
  "lim_TimeMs (participant_limits demo_limits) = 1000" "lim_WorkspaceBytes (participant_limits demo_limits) = 2 ^ 23"
  "lim_TimeMs (communicationManagerLimits demo_limits) = 2000" "lim_MemoryMB demo_limits = 64"
  by (simp_all add: participant_limits_def demo_limits_def zero_defs communicationParticipantWorkspaceBytes_def
      communicationManagerLimits_def defaultSPJTimeMs_def MaxTimeMs_def Let_def)

lemma cloud_fits:
  "snd (communicationMemoryWithinBudget 2 64 (cs_MemoryBudgetMB cloud_runner))"
  "snd (communicationWorkspaceWithinBudget 2 (2 ^ 23) (128 * 2 ^ 20) (cs_WorkRootMaxBytes cloud_runner))"
  by (simp_all add: communicationMemoryWithinBudget_def communicationWorkspaceWithinBudget_def cloud_runner_def MaxInt64_def
      MinCommunicationParticipants_def communicationManagerMemoryMB_def communicationWorkspaceReserveDivisor_def Let_def)

lemma cloud_admits:
  assumes "rq_Limits req = demo_limits" "cm_ParticipantCount spec = 2" "ValidateCommunication sha_env req = None"
    and "cm_Version spec = 2 \<longrightarrow> cm_RuntimeFingerprint spec = demo_sha"
    and "\<forall>p \<in> insert (snd (communicationPrograms req spec)) (set (communicationParticipantPrograms req spec)).
      communicationProgramDecodedBytes p = Some 3"
  shows "communication_admission cloud_runner sha_env textof req spec = Inr (4000, 7000)"
proof -
  have t: "sv_DeploymentTarget cloud_runner = TargetCloudRun" "cs_MaxParticipants cloud_runner = 64" "cs_WallBudgetMs cloud_runner = 600000"
    "id_RuntimeFingerprint (cs_CompetitiveIdentity cloud_runner) = demo_sha"
    by (simp_all add: cloud_runner_def)
  have "list_all (\<lambda>p. case communicationProgramDecodedBytes p of None \<Rightarrow> False | Some n \<Rightarrow>
      n \<le> lim_WorkspaceBytes (participant_limits demo_limits)) (communicationParticipantPrograms req spec)"
    using assms(5) by (simp add: list_all_iff demo_limits_facts)
  then have "cloud_budgets cloud_runner req spec (communicationParticipantPrograms req spec) (snd (communicationPrograms req spec))
      (participant_limits demo_limits) (communicationManagerLimits demo_limits) = Inr (4000, 7000)"
    using assms(1,2,5) cloud_fits by (simp add: cloud_budgets_def demo_limits_facts cloud_walls t manager_workspace Let_def)
  then show ?thesis
    using assms(1-4) demo_sha_valid(2) by (simp add: communication_admission_def cloud_supports t Let_def)
qed

lemma talk_prepared:
  "prepareCommunicationProcess demo_program_host tuning q label =
     Inr \<lparr>pp_entryPoint = ''a'', pp_args = [''/work/box/.aonohako-communication''], pp_request = q\<rparr>"
  by (simp add: prepareCommunicationProcess_def prepareInteractiveCommand_def demo_program_host_def seven_host_def Let_def)

lemma talk_seats:
  assumes "cm_ParticipantCount spec = 2"
  shows "\<exists>ps. prepare_participants talk_host tuning req spec = Inr ps"
proof -
  have h: "ch_Participant talk_host i = demo_program_host" "ch_Clone talk_host i args = Some args" for i args
    by (simp_all add: talk_host_def)
  have u: "[Suc 0..<2] = [1]" by (simp add: upt_rec)
  show ?thesis
    by (simp add: prepare_participants_def talk_prepared h assms u prepare_seat_def and_then_def Let_def)
qed

lemma talk_data: "\<exists>content. manager_data talk_host (128 * 2 ^ 20) answer [] [] = Inr content"
proof -
  have "trim_space [] = []" by (simp add: trim_space_visible)
  then show ?thesis
    by (simp add: manager_data_def communicationWorkspaceRemaining_def writeCommunicationDataFile_def talk_host_def Let_def)
qed

lemma talk_starts:
  assumes "rq_Limits req = demo_limits" "cm_ParticipantCount spec = 2" "ValidateCommunication sha_env req = None"
    and "cm_Version spec = 2 \<longrightarrow> cm_RuntimeFingerprint spec = demo_sha \<and> cm_InputSHA256 spec = demo_sha"
    and "\<forall>p \<in> insert (snd (communicationPrograms req spec)) (set (communicationParticipantPrograms req spec)).
      communicationProgramDecodedBytes p = Some 3"
    and "cm_Input spec = []" "cm_InputURL spec = []" "cm_Answer spec = []" "cm_AnswerURL spec = []"
  shows "\<exists>go. communication_setup cloud_runner talk_host tuning req spec = Inr go \<and> go_Cgroup go = False"
proof -
  have a: "communication_admission cloud_runner (ch_env talk_host) (ch_error_text talk_host) req spec = Inr (4000, 7000)"
    using cloud_admits [of req spec] assms by (simp add: talk_host_def)
  obtain ps where ps: "prepare_participants talk_host tuning req spec = Inr ps" using talk_seats [OF assms(2)] by blast
  obtain i o1 where d: "manager_data talk_host (128 * 2 ^ 20) False [] [] = Inr i" "manager_data talk_host (128 * 2 ^ 20) True [] [] = Inr o1"
    using talk_data by blast
  have m: "ch_Manager talk_host = demo_program_host" by (simp add: talk_host_def)
  have int: "input_integrity talk_host spec i = None"
    using assms(4) by (simp add: input_integrity_def talk_host_def sha_env_def)
  have r: "work_root_reserve cloud_runner talk_host = None"
    by (simp add: work_root_reserve_def communicationWorkRootHasReserve_def talk_host_def cloud_runner_def
        communicationWorkspaceReserveDivisor_def MaxInt64_def Let_def)
  have g: "createCommunicationCgroup (ch_Cgroup talk_host) (cs_CgroupParentDir cloud_runner) n l = Some False" for n l
    by (simp add: createCommunicationCgroup_def cloud_runner_def trim_space_visible)
  have p: "each_error (\<lambda>_ i. pipe_setup w s (ch_Pipes talk_host i)) 0 xs = None" "pipe_setup w s (ch_ResultPipe talk_host) = None" for w s xs
    by (simp_all add: accepts pipe_setup_def talk_host_def)
  show ?thesis
    by (simp add: communication_setup_def a ps talk_prepared m assms(6-9) manager_workspace d [simplified] int r g p and_then_def Let_def)
qed

section \<open>The runs\<close>

lemma talk_setup: "\<exists>go. communication_setup cloud_runner talk_host tuning demo_communication demo_communication_spec = Inr go \<and> go_Cgroup go = False"
  by (rule talk_starts)
    (simp_all add: talk_programs demo_decoded talk_accepted, simp_all add: demo_communication_def demo_communication_spec_def zero_defs)

lemma match_setup: "\<exists>go. communication_setup cloud_runner talk_host tuning match_request match_spec = Inr go \<and> go_Cgroup go = False"
  by (rule talk_starts)
    (simp_all add: match_programs demo_decoded match_accepted, simp_all add: match_request_def match_spec_def zero_defs)

lemma plain_clean:
  assumes "lim_TimeMs (rq_Limits q) \<ge> 1000" "lim_MemoryMB (rq_Limits q) \<ge> 64"
  shows "ran_clean q plain_result" "exited_zero plain_result"
  using assms by (simp_all add: ran_clean_def plain_result_def exited_zero_def)

lemma started_requests:
  assumes "communication_setup sv H tuning req spec = Inr go" "rq_Communication req = Some spec" "rq_Limits req = demo_limits"
    "cm_ParticipantCount spec = 2"
  shows "length (go_Participants go) = 2 \<and>
    (\<forall>q \<in> {pp_request (fst (go_Participants go ! 0)), pp_request (fst (go_Participants go ! 1)), pp_request (go_Manager go)}.
       lim_TimeMs (rq_Limits q) \<ge> 1000 \<and> lim_MemoryMB (rq_Limits q) \<ge> 64)"
proof -
  obtain walls ps manager where s: "prepare_participants H tuning req spec = Inr ps"
    "prepareCommunicationProcess (ch_Manager H) tuning
      (communicationProgramRequest req (snd (communicationPrograms req spec)) (communicationManagerLimits (rq_Limits req))) ''manager'' = Inr manager"
    "go_Participants go = map (\<lambda>(i, p). (p\<lparr>pp_args := pp_args p @ [dec i]\<rparr>, CommunicationParticipantUIDForIndex (int i))) (enumerate 0 ps)"
    "pp_request (go_Manager go) = pp_request manager"
    using setup_steps [OF assms(1)] by auto
  have p: "length ps = 2" "\<forall>i < 2. pp_request (ps ! i) = seat_request req spec i" using participants_prepared [OF s(1)] assms(4) by auto
  have "pp_request (fst (go_Participants go ! i)) = seat_request req spec i" if "i < 2" for i
    using p that s(3) by (simp add: nth_enumerate_eq)
  then have r: "pp_request (fst (go_Participants go ! 0)) = seat_request req spec 0" "pp_request (fst (go_Participants go ! 1)) = seat_request req spec 1"
    by simp_all
  have m: "pp_request (go_Manager go) = communicationProgramRequest req (snd (communicationPrograms req spec)) (communicationManagerLimits (rq_Limits req))"
    using prepared_request [OF s(2)] s(4) by simp
  have l: "rq_Limits (communicationProgramRequest req p l) = l" for p l by (simp add: communicationProgramRequest_def)
  have "lim_MemoryMB (participant_limits demo_limits) = 64" "lim_MemoryMB (communicationManagerLimits demo_limits) = 512"
    by (simp_all add: participant_limits_def demo_limits_def communicationManagerLimits_def communicationManagerMemoryMB_def Let_def)
  moreover have "length (go_Participants go) = 2" using p(1) s(3) by simp
  ultimately show ?thesis using assms(3) demo_limits_facts by (simp add: r m seat_request_def l del: One_nat_def)
qed

text \<open>The processes of the quiet run.\<close>

definition quiet_processes :: "communication_start \<Rightarrow> communicationProcess list" where
  "quiet_processes go = processes go quiet_events"

lemma quiet_process:
  "quiet_processes go =
     [\<lparr>cp_entryPoint = pp_entryPoint (fst (go_Participants go ! 0)), cp_manager = False, cp_participant = 0,
        cp_request = pp_request (fst (go_Participants go ! 0)), cp_result = plain_result, cp_completedAt = 3, cp_wallDeadlineAt = 0,
        cp_resultProtocolAt = 0\<rparr>,
      \<lparr>cp_entryPoint = pp_entryPoint (fst (go_Participants go ! 1)), cp_manager = False, cp_participant = 1,
        cp_request = pp_request (fst (go_Participants go ! 1)), cp_result = plain_result, cp_completedAt = 4, cp_wallDeadlineAt = 0,
        cp_resultProtocolAt = 0\<rparr>,
      \<lparr>cp_entryPoint = pp_entryPoint (go_Manager go), cp_manager = True, cp_participant = -1, cp_request = pp_request (go_Manager go),
        cp_result = plain_result, cp_completedAt = 5, cp_wallDeadlineAt = 0, cp_resultProtocolAt = 0\<rparr>]"
  by (simp add: quiet_processes_def quiet_events_def ended_process_def participant_result_def numeral_3_eq_3 Let_def)

lemma quiet_fine:
  assumes "length (go_Participants go) = 2 \<and>
    (\<forall>q \<in> {pp_request (fst (go_Participants go ! 0)), pp_request (fst (go_Participants go ! 1)), pp_request (go_Manager go)}.
       lim_TimeMs (rq_Limits q) \<ge> 1000 \<and> lim_MemoryMB (rq_Limits q) \<ge> 64)"
    and "p \<in> set (quiet_processes go)"
  shows "cp_result p = plain_result \<and> ran_clean (cp_request p) (cp_result p) \<and> exited_zero (cp_result p) \<and> \<not> communicationProcessFailed p"
proof -
  have p: "cp_result p = plain_result" "lim_TimeMs (rq_Limits (cp_request p)) \<ge> 1000" "lim_MemoryMB (rq_Limits (cp_request p)) \<ge> 64"
    using assms unfolding quiet_process by auto
  have c: "ran_clean (cp_request p) plain_result" "exited_zero plain_result" using plain_clean p by blast+
  then have "fst (classifyRunStatusWithoutOutput (cp_request p) plain_result) = StatusOK" using classify_ok_iff by blast
  then show ?thesis using c p(1) by (simp add: communicationProcessFailed_def)
qed

text \<open>No failure is recorded when no program failed.\<close>

lemma no_failure_recorded:
  assumes "coordinate go err es = Some c" "all_end (length (go_Participants go)) es"
    and "\<forall>p \<in> set (processes go es). \<not> communicationProcessFailed p"
  shows "cd_failure c = None"
proof -
  obtain c' where "coordinate go err es = Some c'" "cd_results c' = processes go es" "failure_known c'"
    using coordinate_returns [OF assms(2)] by blast
  then show ?thesis using assms(1,3) by (cases "cd_failure c") (auto simp: failure_known_def)
qed

lemma quiet_coordinated:
  assumes "length (go_Participants go) = 2 \<and>
    (\<forall>q \<in> {pp_request (fst (go_Participants go ! 0)), pp_request (fst (go_Participants go ! 1)), pp_request (go_Manager go)}.
       lim_TimeMs (rq_Limits q) \<ge> 1000 \<and> lim_MemoryMB (rq_Limits q) \<ge> 64)"
  shows "\<exists>c m. coordinate go err quiet_events = Some c \<and> cd_failure c = None \<and> cd_results c = quiet_processes go \<and>
    manager_of (cd_results c) = Some m \<and> m \<in> set (quiet_processes go)"
proof -
  have e: "all_end (length (go_Participants go)) quiet_events" using quiet_all_end assms by simp
  then obtain c where c: "coordinate go err quiet_events = Some c" "cd_results c = processes go quiet_events"
    using coordinate_returns by blast
  have "cd_failure c = None"
    using no_failure_recorded [OF c(1) e] quiet_fine [OF assms] unfolding quiet_processes_def by blast
  moreover have "\<exists>m. manager_of (quiet_processes go) = Some m \<and> m \<in> set (quiet_processes go)"
    unfolding quiet_process by (simp add: manager_of_def)
  ultimately show ?thesis using c unfolding quiet_processes_def by auto
qed

lemma quiet_judged:
  assumes "communication_setup cloud_runner talk_host tuning demo_communication demo_communication_spec = Inr go"
  shows "\<exists>c. judged_accepted demo_json (quiet_run tuning go) go c"
proof -
  have r: "length (go_Participants go) = 2 \<and>
    (\<forall>q \<in> {pp_request (fst (go_Participants go ! 0)), pp_request (fst (go_Participants go ! 1)), pp_request (go_Manager go)}.
       lim_TimeMs (rq_Limits q) \<ge> 1000 \<and> lim_MemoryMB (rq_Limits q) \<ge> 64)"
    by (rule started_requests [OF assms]) (simp_all add: demo_communication_def demo_communication_spec_def)
  have p: "readCommunicationResult demo_json (Some []) 1 = Inr \<lparr>cr_Verdict = ''accepted'', cr_Score = 1 / 2, cr_Message = [], cr_match = None\<rparr>"
    by (simp add: readCommunicationResult_def readCommunicationManagerResult_def read_result_def demo_json_def and_then_def Let_def)
  obtain c m where c: "coordinate go False quiet_events = Some c" "cd_failure c = None" "cd_results c = quiet_processes go"
    "manager_of (cd_results c) = Some m" "m \<in> set (quiet_processes go)"
    using quiet_coordinated [OF r] by blast
  have f: "co_Events (quiet_run tuning go) = quiet_events" "co_ManagerOutput (quiet_run tuning go) = Some []" "co_Stats (quiet_run tuning go) = None"
    by (simp_all add: quiet_run_def)
  show ?thesis
    using c(1,2,4) quiet_fine [OF r c(5)] by (intro exI [of _ c]) (auto simp: judged_accepted_def f p protocol_failed_def)
qed

section \<open>Witnesses\<close>

theorem communication_admitted_witness:
  "\<exists>go. communication_setup cloud_runner talk_host DefaultRuntimeTuningConfig demo_communication demo_communication_spec = Inr go \<and>
     distinct (map snd (go_Participants go)) \<and> cloud_bounded cloud_runner demo_communication demo_communication_spec (go_Walls go)"
proof -
  obtain go where go: "communication_setup cloud_runner talk_host DefaultRuntimeTuningConfig demo_communication demo_communication_spec = Inr go"
    using talk_setup by blast
  have "rq_Communication demo_communication = Some demo_communication_spec" "sv_DeploymentTarget cloud_runner = TargetCloudRun"
    by (simp_all add: demo_communication_def cloud_runner_def)
  then show ?thesis using communication_admitted [OF go] go by blast
qed

theorem communication_judged_witness:
  "\<exists>resp logs. runCommunication cloud_runner talk_host quiet_run demo_json demo_communication demo_communication_spec False
     DefaultRuntimeTuningConfig = Some (resp, logs) \<and> rs_Status resp = RunStatusAccepted"
proof -
  have q: "co_Events (quiet_run t go) = quiet_events" for t go by (simp add: quiet_run_def)
  have r: "length (go_Participants go) = 2 \<and>
    (\<forall>q \<in> {pp_request (fst (go_Participants go ! 0)), pp_request (fst (go_Participants go ! 1)), pp_request (go_Manager go)}.
       lim_TimeMs (rq_Limits q) \<ge> 1000 \<and> lim_MemoryMB (rq_Limits q) \<ge> 64)"
    if "communication_setup cloud_runner talk_host DefaultRuntimeTuningConfig demo_communication demo_communication_spec = Inr go" for go
    by (rule started_requests [OF that]) (simp_all add: demo_communication_def demo_communication_spec_def)
  have h: "all_end (length (go_Participants go)) (co_Events (quiet_run DefaultRuntimeTuningConfig go)) \<and>
      (\<forall>p \<in> set (processes go (co_Events (quiet_run DefaultRuntimeTuningConfig go))). er_Status (cp_result p) \<noteq> RunStatusAccepted)"
    if "communication_setup cloud_runner talk_host DefaultRuntimeTuningConfig demo_communication demo_communication_spec = Inr go" for go
    using r [OF that] quiet_all_end quiet_fine [OF r [OF that]] unfolding q quiet_processes_def by (auto simp: plain_result_def)
  have v: "cm_Version demo_communication_spec = 1" "rq_Communication demo_communication = Some demo_communication_spec"
    by (simp_all add: demo_communication_def demo_communication_spec_def)
  obtain go where go: "communication_setup cloud_runner talk_host DefaultRuntimeTuningConfig demo_communication demo_communication_spec = Inr go"
    using talk_setup by blast
  obtain c where c: "judged_accepted demo_json (quiet_run DefaultRuntimeTuningConfig go) go c" using quiet_judged [OF go] by blast
  have "request_canceled e \<or> excused (cd_results c) p"
    if "all_ready go (co_Events (quiet_run DefaultRuntimeTuningConfig go))" "e \<in> set (co_Events (quiet_run DefaultRuntimeTuningConfig go))"
      "ended_process go e = Some p" "\<not> cp_manager p" "communicationProcessFailed p" for e p
    using judged_fair [OF c _ that] h [OF go] by blast
  then show ?thesis
    using communication_judged [where P = quiet_run and sv = cloud_runner and H = talk_host and tuning = DefaultRuntimeTuningConfig
        and J = demo_json and onLog = False, OF v h] go c by blast
qed

text \<open>The quiet match ends 12 to 8.\<close>

lemma clean_final:
  assumes "ran_clean (cp_request p) (cp_result p)" "cp_result p = plain_result" "cp_request p = q"
  shows "fst (communicationFinalProcessStatus p) = StatusOK"
proof -
  have "fst (classifyRunStatusWithoutOutput (cp_request p) (cp_result p)) = StatusOK" using assms(1) classify_ok_iff by blast
  moreover have "\<not> (lim_TimeMs (rq_Limits (cp_request p)) > 0 \<and> er_CPUTimeMs (cp_result p) > lim_TimeMs (rq_Limits (cp_request p)))"
    "\<not> (lim_MemoryMB (rq_Limits (cp_request p)) > 0 \<and> er_MemoryKB (cp_result p) > lim_MemoryMB (rq_Limits (cp_request p)) * 1024)"
    using assms(1) by (auto simp: ran_clean_def)
  ultimately show ?thesis by (auto simp: communicationFinalProcessStatus_def Let_def)
qed

lemma quiet_decision:
  assumes "\<And>p. p \<in> set ps \<Longrightarrow> \<not> communicationProcessFailed p" "manager_of ps = Some m" "ran_clean (cp_request m) (cp_result m)"
    "cp_result m = plain_result" "cp_wallDeadlineAt m = 0" "match_counted protocol = Some r" "cw_Wins r = [12, 8]"
  shows "match_decision ps m protocol None 0 = Inr (''completed'', (12, 8), [], None)"
proof -
  have "\<not> independent_fault p 0" if "p \<in> set ps" for p using assms(1) that independent_fault_failed by blast
  then have f: "fold (later_failure 0) ps None = None"
    by (induction ps) (simp_all add: later_failure_def)
  have "manager_valid m protocol 0"
    using assms clean_final [OF assms(3,4) refl] by (simp add: manager_valid_def own_deadline_def exited_zero_def plain_result_def)
  then show ?thesis using f assms(6,7) by (simp add: match_decision_def manager_finished_first_def Let_def)
qed

lemma quiet_match:
  assumes "communication_setup cloud_runner talk_host tuning match_request match_spec = Inr go" "go_Cgroup go = False"
  shows "\<exists>r m. run_processes demo_json (quiet_run tuning go) match_request match_spec go = Some r \<and> rs_Match r = Some m \<and>
    mr_Wins m = Some (12, 8)"
proof -
  have r: "length (go_Participants go) = 2 \<and>
    (\<forall>q \<in> {pp_request (fst (go_Participants go ! 0)), pp_request (fst (go_Participants go ! 1)), pp_request (go_Manager go)}.
       lim_TimeMs (rq_Limits q) \<ge> 1000 \<and> lim_MemoryMB (rq_Limits q) \<ge> 64)"
    by (rule started_requests [OF assms(1)]) (simp_all add: match_request_def match_spec_def)
  let ?result = "\<lparr>cr_Verdict = [], cr_Score = 0, cr_Message = [], cr_match = Some \<lparr>cw_Version = 1, cw_Wins = [12, 8], cw_Games = 20\<rparr>\<rparr>"
  have p: "readCommunicationResult demo_json (Some []) 2 = Inr ?result"
    by (simp add: readCommunicationResult_def read_result_def demo_json_def and_then_def match_counts_def communicationMatchGames_def Let_def)
  obtain c where c: "coordinate go False quiet_events = Some c" "cd_failure c = None" "cd_results c = quiet_processes go"
    using quiet_coordinated [OF r] by blast
  let ?out = "quiet_run tuning go"
  have f: "co_Events ?out = quiet_events" "co_ManagerOutput ?out = Some []" "co_Started ?out = 2" "\<not> co_RequestErr ?out"
    by (simp_all add: quiet_run_def)
  let ?ps = "match_results ?out c"
  obtain m where m: "manager_of ?ps = Some m" "m \<in> set ?ps" "cp_wallDeadlineAt m = 0" "cp_result m = plain_result"
      "cp_request m = pp_request (go_Manager go)"
    unfolding match_results_def c(3) quiet_process by (simp add: manager_of_def)
  have same: "communicationProcessFailed (p\<lparr>cp_resultProtocolAt := t\<rparr>) = communicationProcessFailed p" for p t
    by (simp add: communicationProcessFailed_def)
  have ok: "\<not> communicationProcessFailed q" if q: "q \<in> set ?ps" for q
  proof -
    obtain p where "p \<in> set (quiet_processes go)" "q = p \<or> q = p\<lparr>cp_resultProtocolAt := co_ProtocolAt ?out\<rparr>"
      using q by (auto simp: match_results_def c(3) split: if_splits)
    then show ?thesis using quiet_fine [OF r] same by metis
  qed
  have "ran_clean (cp_request m) (cp_result m)" unfolding m(4,5) using plain_clean(1) r by blast
  then have d: "match_decision ?ps m (Inr ?result) None 0 = Inr (''completed'', (12, 8), [], None)"
    using m by (intro quiet_decision [where r = "\<lparr>cw_Version = 1, cw_Wins = [12, 8], cw_Games = 20\<rparr>", OF ok]) (simp_all add: match_counted_def)
  have "\<not> infrastructure_failure q" if "q \<in> set ?ps" for q
    using that unfolding match_results_def c(3) quiet_process by (auto simp: infrastructure_failure_def plain_result_def)
  then have refusal: "match_refusal ?ps 2 False = None" using m(1) by (auto simp: match_refusal_def list_ex_iff)
  define r0 where "r0 = buildCommunicationMatchResponse match_request match_spec ?ps (Inr ?result) 2 (co_WallMs ?out) None 0 False"
  have r0: "\<exists>mm. rs_Match r0 = Some mm \<and> mr_Wins mm = Some (12, 8)" "rs_Status r0 = RunStatusAccepted"
    unfolding r0_def buildCommunicationMatchResponse_def using refusal m(1) d by (simp_all add: case_prod_beta)
  have "run_processes demo_json ?out match_request match_spec go = Some r0"
    using c f p r0(2) assms(2)
    by (simp add: run_processes_def coordinated_response_def protocol_failed_def settle_aggregate_def participant_stderr_def r0_def
        match_spec_def [THEN arg_cong, of cm_Version])
  then show ?thesis using r0(1) by blast
qed

theorem communication_match_witness:
  "\<exists>resp logs m. runCommunication cloud_runner talk_host quiet_run demo_json match_request match_spec False
     DefaultRuntimeTuningConfig = Some (resp, logs) \<and> rs_Match resp = Some m \<and> mr_Wins m = Some (12, 8) \<and> \<not> mr_Retriable m"
proof -
  let ?t = DefaultRuntimeTuningConfig
  have v: "cm_Version match_spec = 2" "rq_Communication match_request = Some match_spec"
    by (simp_all add: match_request_def match_spec_def)
  have h: "all_end (length (go_Participants go)) (co_Events (quiet_run ?t go))"
    if "communication_setup cloud_runner talk_host ?t match_request match_spec = Inr go" for go
    using started_length [OF that v(2)] quiet_all_end by (simp add: quiet_run_def match_spec_def)
  obtain go where go: "communication_setup cloud_runner talk_host ?t match_request match_spec = Inr go" "go_Cgroup go = False"
    using match_setup by blast
  obtain r m0 where r: "run_processes demo_json (quiet_run ?t go) match_request match_spec go = Some r" "rs_Match r = Some m0"
    "mr_Wins m0 = Some (12, 8)"
    using quiet_match [OF go] by blast
  obtain resp logs m where x: "runCommunication cloud_runner talk_host quiet_run demo_json match_request match_spec False ?t = Some (resp, logs)"
    "rs_Match resp = Some m" "mr_Wins m \<noteq> None \<longrightarrow> \<not> mr_Retriable m"
    using communication_match [where P = quiet_run and sv = cloud_runner and H = talk_host and tuning = ?t and J = demo_json
        and onLog = False, OF v h] by (auto split: option.splits)
  have "mr_Wins m = Some (12, 8)"
    using x(1,2) r go v(1) by (auto simp: runCommunication_def decorate_match_def stamp_match_def)
  then show ?thesis using x by blast
qed

end
