(* ===== verification/Spec2Isabelle.thy ===== *)
theory Spec2Isabelle
  imports Request_Properties Queue Cpu_Normalization Server_Policies Sse_Stream
    Admission Rate_Limit Byte_Budget Lifecycle Config_Demo Pipeline_Demo Interactive_Timers Communication_Demo
begin

text \<open>
  A verification development for aonohako, a judge server in Go that runs submitted programs in a sandbox and decides their
  verdicts. It models the control logic of the server, from the environment and the HTTP request to the response, and leaves the
  operating system, the network and the tools it starts to parameters. File names are relative to src/.

  \<^bold>\<open>The program.\<close>
  At start-up internal/config loads the configuration and checks that the host contains what may run on it (internal/platform says what a
  deployment promises). The HTTP server of internal/api authenticates a request, refuses replays, counts requests, uploads, streams and retained
  bytes, settles the policies of the request, has internal/runvalidation check it, waits for a slot of internal/queue, and
  streams events (internal/sse, read by internal/remoteio on the other side). internal/execute runs the request: \<open>Service.Run\<close> checks
  it again and hands it to the executor of its kind (a single run, repeated when it is short; two steps; an interactive run; a pipeline; a
  communication), each of which ends in a verdict. internal/timing translates CPU times between hosts.

  \<^bold>\<open>The theories\<close>, in the order of the code.

  Shared vocabulary:
  \<^item> Prelude: errors as \<open>option\<close> and sum, loops with an early return, transition systems with \<open>reachable\<close>, \<open>trace\<close> and
    the locale \<open>inductive_invariant\<close>, which every state machine below interprets.
  \<^item> Go_Strings, Go_Base64: the functions of Go's packages strings, unicode/utf8 and encoding/base64 that the sources call. A
    Go string is a list of bytes.
  \<^item> Model_Types: the structs of internal/model/types.go as records, with their zero values.

  Requests:
  \<^item> Paths (internal/util/helpers.go): \<open>ValidateRelativePath\<close>; the locale \<open>path_checker\<close> says what accepted names have in common.
  \<^item> Policies (internal/runtimepolicy, pythonpolicy, gomodulepolicy, rustpolicy), with the locale \<open>mode_policy\<close>;
    Profiles (internal/profiles): the table of languages and the normalisation of their names.
  \<^item> Run_Checks, Run_Steps, Run_Communication, Run_Pipeline, Run_Validate (internal/runvalidation): \<open>Validate\<close> and everything it calls,
    an error constructor for each error of the source. Each validator has a lemma that says what it accepts.
    Request_Properties holds the properties of an accepted request: kinds, bounds, data flow, contained files.
  \<^item> Json_Size (internal/runvalidation/remote_request.go): the counter of the encoded size against a reference encoder.
  \<^item> Entry_State (internal/entrypolicy/state.go): the bounded decoder of JSON and the comparison of states.

  The server:
  \<^item> Runtime_Tuning, Mount, Platform, Config (internal/config, internal/platform): \<open>Load\<close>, one definition per part; Config_Safety derives what
    an accepted configuration guarantees, Config_Demo applies it to two concrete hosts.
  \<^item> Auth and Replay (internal/api/server.go, platform_replay.go): \<open>requireAuth\<close> with its signatures, and the cache of nonces, which
    refines a bounded set of unexpired nonces (locale \<open>nonce_store\<close>).
  \<^item> Admission, Rate_Limit, Byte_Budget, Lifecycle (internal/api): limits on uploads, streams, requests and bytes, and draining, as
    step relations whose steps are the critical sections of the code, in every interleaving.
  \<^item> Server_Policies (internal/api/server.go): the profile and library modes of a request (locale \<open>mode_policy_server\<close>).
  \<^item> Queue (internal/queue): the execution slots, a step relation over \<open>Acquire\<close>, \<open>Wait\<close>, \<open>Release\<close> and \<open>Cancel\<close>.
  \<^item> Sse_Result, Sse_Stream (internal/sse, internal/remoteio/sse.go): the encoding of a result that must fit, the writer with its
    budgets, and the reader that gets back what was sent.

  Execution:
  \<^item> Cpu_Normalization (internal/timing): 64-bit arithmetic on \<open>64 word\<close> against exact rational limits, and the calibration.
  \<^item> Output_Compare, Verdict, Run_One (internal/execute/compare.go, verdict.go, judge.go, service.go): the comparison of outputs, the verdict of
    a run and one execution with the parts of outputs it shows.
  \<^item> Step_Service, Short_Repeat (service.go, stdin_url.go, short_repeat.go): two-step requests and the median of repeated runs.
  \<^item> Time_Budget (time_budget.go, remote_timeout.go): wall-clock limits and the time a client waits, against what a runner needs.
  \<^item> Interactive_Timers, Interactive (interactive_timeout.go, interactive.go): the barrier and deadlines of an interactive run as a step
    relation, and its verdict.
  \<^item> Pipeline_Run (pipeline.go): the plan, the artifacts and the steps of a pipeline, and the redaction of its response.
  \<^item> Communication_Verdict (communication.go, communication_v2.go): what the manager of a communication reports, the response of a judged
    communication and the outcome of a match.
  \<^item> Communication_Run, Communication_Safety (communication.go): \<open>runCommunication\<close>, its admission and budgets, the programs it prepares,
    the coordinator as a fold over the events it receives, in any order, and the response. Communication_Demo runs both kinds.
  \<^item> Service_Run (service.go): \<open>Service.Run\<close>. Service_Demo and Pipeline_Demo run requests on concrete hosts, as witnesses.

  \<^bold>\<open>How the code is modelled.\<close>
  A struct is a record with the source's field names behind a prefix, an enumeration a datatype, \<open>error\<close> a datatype of the checks that can fail
  (or its text, where a response carries it), a function that can fail a sum or an \<open>option\<close>. A stateful component is a record and one function
  per operation; concurrent components are step relations whose labels name the goroutine, so that a property holds for every
  interleaving. \<open>uint64\<close> arithmetic is on \<open>64 word\<close>; an \<open>int\<close> is an \<open>int\<close>, with the bounds that keep it inside 64 bits
  as conditions or as part of what is proved. Times are integers, nanoseconds unless said otherwise. What the code asks of the outside
  (files, downloads, hashes, clocks, sandboxed runs, parsers of the standard library that are not modelled) are fields of records called
  \<open>env\<close> or \<open>..._host\<close>, asked in the order of the code.

  \<^bold>\<open>What the lemmas show.\<close>
  The properties are the numbered text blocks. For requests: what is accepted and that it is bounded and consistent. For the server: that
  limits hold in all reachable states, that authentication cannot be bypassed or replayed, that a production configuration
  is contained. For streams: sizes and round trips. For executions: exactly when a verdict is accepted, that every request gets a
  response, that outputs are bounded and hidden where they must be. What the code is compared with are definitions of their own, with
  the numbers written out: \<open>stable_samples\<close> and \<open>is_median\<close> for a calibration, \<open>required_limits\<close>, \<open>text_ok\<close>
  and \<open>carried_binaries\<close> for an accepted request, \<open>only_communication\<close> and its siblings for its kind, \<open>json_marshal\<close> for a size,
  \<open>displayed\<close> and \<open>display_limit\<close> for a shown output, \<open>runner_wait\<close> and \<open>session_wall\<close> for the time of a run,
  \<open>completed_match\<close> and \<open>forfeited_match\<close> for a match.

  \<^bold>\<open>Termination and bounds.\<close>
  There is no fuel. The two loops of the sources without an evident measure (\<open>compareOutputs\<close> and the repetition of short runs) are
  \<open>partial_function (option)\<close>, and the properties state that they return; all other recursion is on lists or on a measure. Numerical
  limits are the constants of the sources.

  \<^bold>\<open>Not modelled.\<close>
  The sandbox helper and the supervision of a sandboxed process (internal/sandbox, most of sandbox_exec.go, captured_output, command.go,
  workspace.go) consist of system calls; their results are parameters. internal/compile is a table of compiler command lines with file
  I/O. The HTTP handlers' reading and decoding of bodies (json_body.go, json_collections.go, url_payload.go), the HTTP client of
  the control plane (remote.go, remoteio/client.go), the cgroup files (internal/isolation), the scans of the host (internal/security) and
  the clocks are I/O. The programs under cmd/, internal/runtimepacks and internal/limitdoc are start-up code, fixtures and developer tools.
  In interactive runs the two concurrent runs with their pipes, and in communications the processes, are parameters.
\<close>

end
